(* ===== verification/Prelude.thy ===== *)
theory Prelude
  imports Main
begin

text \<open>
  Prelude: what every component of the model shares.

  \<^item> Python values and dictionaries: the JSON columns of the database (a change request's
    \<open>desired_outcome\<close>, an execution run's \<open>result\<close>) and the dictionaries that executors
    take and return are \<open>pydict\<close>s, association lists in insertion order with the lookup,
    store and merge operations of Python, and truthiness as Python defines it.
  \<^item> Exceptions as values: \<open>exn\<close> has the class of the exception and its text.
  \<^item> Effectful code as computations \<open>'s \<Rightarrow> (exn + 'a) \<times> 's\<close>: state passing in which an
    exception keeps the effects made before it, as in Python. \<open>triple\<close> is the partial
    correctness judgement on them, with one rule per construct in \<open>hoare\<close>.
\<close>

named_theorems hoare \<open>rules of the triple judgement\<close>
named_theorems comp_simps \<open>unfolding of computations\<close>

section \<open>Exceptions\<close>

datatype exn_kind =
    ValueError | KeyError | AttributeError | TypeError | ImportError | RuntimeError
  | ConnectorError | NoResultFound | HTTPException nat | PlanBlockedError | ProtocolError
  | AllowlistError | TransportClosed | TunnelUnavailable | DestinationDenied | DialError
  | ConcurrencyLimitExceeded | ConnectorRoutingError | IncompleteReadError | OtherError

datatype exn = Exn (exn_kind: exn_kind) (exn_text: string)

section \<open>Python values\<close>

datatype pyval =
    PNone
  | PBool bool
  | PInt int
  | PStr string
  | PList "pyval list"
  | PDict "(string \<times> pyval) list"

type_synonym pydict = "(string \<times> pyval) list"

fun truthy :: "pyval \<Rightarrow> bool" where
  "truthy PNone = False"
| "truthy (PBool b) = b"
| "truthy (PInt i) = (i \<noteq> 0)"
| "truthy (PStr s) = (s \<noteq> [])"
| "truthy (PList xs) = (xs \<noteq> [])"
| "truthy (PDict d) = (d \<noteq> [])"

definition dget :: "pydict \<Rightarrow> string \<Rightarrow> pyval option" where
  "dget d k = map_of d k"

definition dget_or :: "pydict \<Rightarrow> string \<Rightarrow> pyval \<Rightarrow> pyval" where
  "dget_or d k v = (case dget d k of None \<Rightarrow> v | Some w \<Rightarrow> w)"

fun dput :: "pydict \<Rightarrow> string \<Rightarrow> pyval \<Rightarrow> pydict" where
  "dput [] k v = [(k, v)]"
| "dput ((k', v') # d) k v = (if k' = k then (k, v) # d else (k', v') # dput d k v)"

text \<open>\<open>{**d, **e}\<close>: the keys of \<open>d\<close> in their order, then the new keys of \<open>e\<close>; \<open>e\<close> wins.\<close>

definition dmerge :: "pydict \<Rightarrow> pydict \<Rightarrow> pydict" where
  "dmerge d e =
     map (\<lambda>(k, v). (k, dget_or e k v)) d @ filter (\<lambda>(k, _). dget d k = None) e"

text \<open>\<open>d.setdefault(k, v)\<close>.\<close>

definition dsetdefault :: "pydict \<Rightarrow> string \<Rightarrow> pyval \<Rightarrow> pydict" where
  "dsetdefault d k v = (case dget d k of None \<Rightarrow> dput d k v | Some _ \<Rightarrow> d)"

text \<open>\<open>d.get(k) or {}\<close> and \<open>d.get(k, {})\<close> on a value that must itself be a dictionary: any
  other value has no method \<open>get\<close>.\<close>

definition as_dict :: "pyval \<Rightarrow> exn + pydict" where
  "as_dict v = (case v of PDict d \<Rightarrow> Inr d
                | _ \<Rightarrow> Inl (Exn AttributeError ''object has no attribute get''))"

text \<open>Iterating a value: only lists are iterated in the code modelled here.\<close>

definition as_list :: "pyval \<Rightarrow> exn + pyval list" where
  "as_list v = (case v of PList xs \<Rightarrow> Inr xs | _ \<Rightarrow> Inl (Exn TypeError ''not iterable''))"

lemma dget_Nil [simp]: "dget [] k = None"
  by (simp add: dget_def)

lemma dget_Cons [simp]: "dget ((k', v) # d) k = (if k = k' then Some v else dget d k)"
  by (simp add: dget_def)

lemma dget_append [simp]:
  "dget (d @ e) k = (case dget d k of None \<Rightarrow> dget e k | Some v \<Rightarrow> Some v)"
  by (simp add: dget_def map_add_def split: option.splits)

lemma dget_dput [simp]: "dget (dput d k v) k' = (if k' = k then Some v else dget d k')"
  by (induction d k v rule: dput.induct) auto

lemma dget_map_values:
  "dget (map (\<lambda>(k, v). (k, f k v)) d) k = map_option (f k) (dget d k)"
  by (induction d) auto

lemma dget_filter_keys:
  "dget (filter (\<lambda>(k, _). P k) d) k = (if P k then dget d k else None)"
  by (induction d) auto

lemma dget_dmerge [simp]:
  "dget (dmerge d e) k = (case dget e k of None \<Rightarrow> dget d k | Some v \<Rightarrow> Some v)"
  by (auto simp: dmerge_def dget_map_values dget_filter_keys dget_or_def split: option.splits)

lemma dget_dsetdefault [simp]:
  "dget (dsetdefault d k v) k' =
     (case dget d k' of Some w \<Rightarrow> Some w | None \<Rightarrow> if k' = k then Some v else None)"
  by (auto simp: dsetdefault_def split: option.splits)

lemma dget_or_simps [simp]:
  "dget_or [] k v = v"
  "dget_or ((k', w) # d) k v = (if k = k' then w else dget_or d k v)"
  by (simp_all add: dget_or_def)

lemma dget_or_dput [simp]:
  "dget_or (dput d k v) k' w = (if k' = k then v else dget_or d k' w)"
  by (simp add: dget_or_def)

lemma dget_or_dmerge [simp]:
  "dget_or (dmerge d e) k v = (case dget e k of None \<Rightarrow> dget_or d k v | Some w \<Rightarrow> w)"
  by (simp add: dget_or_def split: option.splits)

lemma as_dict_PDict [simp]: "as_dict (PDict d) = Inr d"
  by (simp add: as_dict_def)

lemma as_list_PList [simp]: "as_list (PList xs) = Inr xs"
  by (simp add: as_list_def)

section \<open>Text\<close>

text \<open>Decimal numerals, as \<open>str\<close> and formatted strings write them.\<close>

fun string_of_nat :: "nat \<Rightarrow> string" where
  "string_of_nat n =
     (if n < 10 then [''0123456789'' ! n]
      else string_of_nat (n div 10) @ [''0123456789'' ! (n mod 10)])"

declare string_of_nat.simps [simp del]

definition string_of_int :: "int \<Rightarrow> string" where
  "string_of_int i = (if i < 0 then ''-'' @ string_of_nat (nat (- i)) else string_of_nat (nat i))"

section \<open>Computations with state and exceptions\<close>

type_synonym ('s, 'a) comp = "'s \<Rightarrow> (exn + 'a) \<times> 's"

definition ret :: "'a \<Rightarrow> ('s, 'a) comp" where
  "ret x = (\<lambda>s. (Inr x, s))"

definition raise :: "exn \<Rightarrow> ('s, 'a) comp" where
  "raise e = (\<lambda>s. (Inl e, s))"

definition bindc :: "('s, 'a) comp \<Rightarrow> ('a \<Rightarrow> ('s, 'b) comp) \<Rightarrow> ('s, 'b) comp" where
  "bindc m f = (\<lambda>s. case m s of (Inl e, t) \<Rightarrow> (Inl e, t) | (Inr x, t) \<Rightarrow> f x t)"

definition thenc :: "('s, 'a) comp \<Rightarrow> ('s, 'b) comp \<Rightarrow> ('s, 'b) comp" where
  "thenc m n = bindc m (\<lambda>_. n)"

definition catchc :: "('s, 'a) comp \<Rightarrow> (exn \<Rightarrow> ('s, 'a) comp) \<Rightarrow> ('s, 'a) comp" where
  "catchc m h = (\<lambda>s. case m s of (Inl e, t) \<Rightarrow> h e t | (Inr x, t) \<Rightarrow> (Inr x, t))"

definition gets :: "('s \<Rightarrow> 'a) \<Rightarrow> ('s, 'a) comp" where
  "gets f = (\<lambda>s. (Inr (f s), s))"

definition modifyc :: "('s \<Rightarrow> 's) \<Rightarrow> ('s, unit) comp" where
  "modifyc f = (\<lambda>s. (Inr (), f s))"

definition of_sum :: "exn + 'a \<Rightarrow> ('s, 'a) comp" where
  "of_sum r = (\<lambda>s. (r, s))"

definition whenc :: "bool \<Rightarrow> ('s, unit) comp \<Rightarrow> ('s, unit) comp" where
  "whenc b m = (if b then m else ret ())"

fun seqc :: "('s, unit) comp list \<Rightarrow> ('s, unit) comp" where
  "seqc [] = ret ()"
| "seqc (m # ms) = thenc m (seqc ms)"

fun mapc :: "('a \<Rightarrow> ('s, 'b) comp) \<Rightarrow> 'a list \<Rightarrow> ('s, 'b list) comp" where
  "mapc f [] = ret []"
| "mapc f (x # xs) = bindc (f x) (\<lambda>y. bindc (mapc f xs) (\<lambda>ys. ret (y # ys)))"

definition final :: "('s, 'a) comp \<Rightarrow> 's \<Rightarrow> 's" where
  "final m s = snd (m s)"

definition outcome :: "('s, 'a) comp \<Rightarrow> 's \<Rightarrow> exn + 'a" where
  "outcome m s = fst (m s)"

lemma ret_apply [simp, comp_simps]: "ret x s = (Inr x, s)"
  by (simp add: ret_def)

lemma raise_apply [simp, comp_simps]: "raise e s = (Inl e, s)"
  by (simp add: raise_def)

lemma gets_apply [simp, comp_simps]: "gets f s = (Inr (f s), s)"
  by (simp add: gets_def)

lemma modifyc_apply [simp, comp_simps]: "modifyc f s = (Inr (), f s)"
  by (simp add: modifyc_def)

lemma of_sum_apply [simp, comp_simps]: "of_sum r s = (r, s)"
  by (simp add: of_sum_def)

lemma bindc_apply [comp_simps]:
  "bindc m f s = (case m s of (Inl e, t) \<Rightarrow> (Inl e, t) | (Inr x, t) \<Rightarrow> f x t)"
  by (simp add: bindc_def)

lemma thenc_apply [comp_simps]:
  "thenc m n s = (case m s of (Inl e, t) \<Rightarrow> (Inl e, t) | (Inr _, t) \<Rightarrow> n t)"
  by (simp add: thenc_def bindc_def)

lemma catchc_apply [comp_simps]:
  "catchc m h s = (case m s of (Inl e, t) \<Rightarrow> h e t | (Inr x, t) \<Rightarrow> (Inr x, t))"
  by (simp add: catchc_def)

lemma whenc_apply [comp_simps]: "whenc b m s = (if b then m s else (Inr (), s))"
  by (simp add: whenc_def)

lemma bindc_ret [simp]: "bindc (ret x) f = f x"
  by (rule ext) (simp add: bindc_def)

lemma bindc_raise [simp]: "bindc (raise e) f = raise e"
  by (rule ext) (simp add: bindc_def)

lemma bindc_of_Inr: "bindc (of_sum (Inr x)) f = f x"
  by (rule ext) (simp add: comp_simps)

lemma thenc_ret [simp]: "thenc (ret x) n = n"
  by (rule ext) (simp add: thenc_def)

lemma thenc_modifyc [simp]: "thenc (modifyc f) n s = n (f s)"
  by (simp add: thenc_def bindc_def)

lemma bindc_gets [simp]: "bindc (gets f) n s = n (f s) s"
  by (simp add: bindc_def)

lemma bindc_assoc: "bindc (bindc m f) g = bindc m (\<lambda>x. bindc (f x) g)"
  by (rule ext) (simp add: bindc_def split: prod.splits sum.splits)

section \<open>Partial correctness of computations\<close>

text \<open>\<open>triple P m Q E\<close>: from a state in \<open>P\<close> the computation either returns with \<open>Q\<close> or
  raises with \<open>E\<close>. Every computation ends, so this is total correctness as well.\<close>

definition triple ::
  "('s \<Rightarrow> bool) \<Rightarrow> ('s, 'a) comp \<Rightarrow> ('a \<Rightarrow> 's \<Rightarrow> bool) \<Rightarrow> (exn \<Rightarrow> 's \<Rightarrow> bool) \<Rightarrow> bool" where
  "triple P m Q E \<longleftrightarrow>
     (\<forall>s. P s \<longrightarrow> (\<forall>e t. m s = (Inl e, t) \<longrightarrow> E e t) \<and> (\<forall>x t. m s = (Inr x, t) \<longrightarrow> Q x t))"

lemma tripleI:
  "(\<And>s e t. P s \<Longrightarrow> m s = (Inl e, t) \<Longrightarrow> E e t) \<Longrightarrow>
   (\<And>s x t. P s \<Longrightarrow> m s = (Inr x, t) \<Longrightarrow> Q x t) \<Longrightarrow> triple P m Q E"
  unfolding triple_def by blast

lemma tripleD_ret: "triple P m Q E \<Longrightarrow> P s \<Longrightarrow> m s = (Inr x, t) \<Longrightarrow> Q x t"
  unfolding triple_def by blast

lemma tripleD_exn: "triple P m Q E \<Longrightarrow> P s \<Longrightarrow> m s = (Inl e, t) \<Longrightarrow> E e t"
  unfolding triple_def by blast

lemma triple_weaken:
  "triple P' m Q' E' \<Longrightarrow> (\<And>s. P s \<Longrightarrow> P' s) \<Longrightarrow> (\<And>x s. Q' x s \<Longrightarrow> Q x s) \<Longrightarrow>
   (\<And>e s. E' e s \<Longrightarrow> E e s) \<Longrightarrow> triple P m Q E"
  unfolding triple_def by blast

lemma triple_ret [hoare]: "(\<And>s. P s \<Longrightarrow> Q x s) \<Longrightarrow> triple P (ret x) Q E"
  by (simp add: triple_def)

lemma triple_raise [hoare]: "(\<And>s. P s \<Longrightarrow> E e s) \<Longrightarrow> triple P (raise e) Q E"
  by (simp add: triple_def)

lemma triple_gets [hoare]: "(\<And>s. P s \<Longrightarrow> Q (f s) s) \<Longrightarrow> triple P (gets f) Q E"
  by (simp add: triple_def)

lemma triple_modifyc [hoare]: "(\<And>s. P s \<Longrightarrow> Q () (f s)) \<Longrightarrow> triple P (modifyc f) Q E"
  by (simp add: triple_def)

lemma triple_of_sum [hoare]:
  "(\<And>s x. P s \<Longrightarrow> r = Inr x \<Longrightarrow> Q x s) \<Longrightarrow> (\<And>s e. P s \<Longrightarrow> r = Inl e \<Longrightarrow> E e s) \<Longrightarrow>
   triple P (of_sum r) Q E"
  by (simp add: triple_def)

lemma triple_bindc [hoare]:
  assumes m: "triple P m R E" and f: "\<And>x. triple (R x) (f x) Q E"
  shows "triple P (bindc m f) Q E"
proof (rule tripleI)
  fix s e t assume "P s" and run: "bindc m f s = (Inl e, t)"
  show "E e t"
  proof (cases "fst (m s)")
    case (Inl e')
    with run have "m s = (Inl e, t)" by (cases "m s") (simp add: bindc_def)
    with m \<open>P s\<close> show ?thesis by (blast dest: tripleD_exn)
  next
    case (Inr x)
    then obtain u where mu: "m s = (Inr x, u)" by (cases "m s") simp
    with run have "f x u = (Inl e, t)" by (simp add: bindc_def)
    moreover from m \<open>P s\<close> mu have "R x u" by (blast dest: tripleD_ret)
    ultimately show ?thesis using f by (blast dest: tripleD_exn)
  qed
next
  fix s y t assume "P s" and run: "bindc m f s = (Inr y, t)"
  then obtain x u where mu: "m s = (Inr x, u)" and fu: "f x u = (Inr y, t)"
    by (auto simp: bindc_def split: prod.splits sum.splits)
  from m \<open>P s\<close> mu have "R x u" by (blast dest: tripleD_ret)
  with f fu show "Q y t" by (blast dest: tripleD_ret)
qed

lemma triple_thenc [hoare]:
  "triple P m (\<lambda>_. R) E \<Longrightarrow> triple R n Q E \<Longrightarrow> triple P (thenc m n) Q E"
  unfolding thenc_def by (rule triple_bindc)

lemma triple_whenc [hoare]:
  "(b \<Longrightarrow> triple P m Q E) \<Longrightarrow> (\<And>s. \<not> b \<Longrightarrow> P s \<Longrightarrow> Q () s) \<Longrightarrow> triple P (whenc b m) Q E"
  by (auto simp: triple_def whenc_def)

lemma triple_if [hoare]:
  "(b \<Longrightarrow> triple P m Q E) \<Longrightarrow> (\<not> b \<Longrightarrow> triple P n Q E) \<Longrightarrow> triple P (if b then m else n) Q E"
  by simp

text \<open>An invariant kept by a computation, whatever it returns or raises.\<close>

definition keeps :: "('s \<Rightarrow> bool) \<Rightarrow> ('s, 'a) comp \<Rightarrow> bool" where
  "keeps I m \<longleftrightarrow> (\<forall>s. I s \<longrightarrow> I (snd (m s)))"

lemma keepsD: "keeps I m \<Longrightarrow> I s \<Longrightarrow> I (snd (m s))"
  by (simp add: keeps_def)

lemma keeps_ret [hoare]: "keeps I (ret x)"
  by (simp add: keeps_def)

lemma keeps_raise [hoare]: "keeps I (raise e)"
  by (simp add: keeps_def)

lemma keeps_gets [hoare]: "keeps I (gets f)"
  by (simp add: keeps_def)

lemma keeps_of_sum [hoare]: "keeps I (of_sum r)"
  by (simp add: keeps_def)

lemma keeps_modifyc [hoare]: "(\<And>s. I s \<Longrightarrow> I (f s)) \<Longrightarrow> keeps I (modifyc f)"
  by (simp add: keeps_def)

lemma keeps_bindc [hoare]:
  assumes "keeps I m" and "\<And>x. keeps I (f x)"
  shows "keeps I (bindc m f)"
  unfolding keeps_def
proof (intro allI impI)
  fix s assume "I s"
  with assms(1) have "I (snd (m s))" by (rule keepsD)
  with assms(2) show "I (snd (bindc m f s))"
    by (cases "m s") (auto simp: bindc_def keeps_def split: sum.splits)
qed

lemma keeps_thenc [hoare]: "keeps I m \<Longrightarrow> keeps I n \<Longrightarrow> keeps I (thenc m n)"
  by (simp add: thenc_def keeps_bindc)

lemma keeps_catchc [hoare]:
  assumes "keeps I m" and "\<And>e. keeps I (h e)"
  shows "keeps I (catchc m h)"
  unfolding keeps_def
proof (intro allI impI)
  fix s assume "I s"
  with assms(1) have "I (snd (m s))" by (rule keepsD)
  with assms(2) show "I (snd (catchc m h s))"
    by (cases "m s") (auto simp: catchc_def keeps_def split: sum.splits)
qed

lemma keeps_whenc [hoare]: "(b \<Longrightarrow> keeps I m) \<Longrightarrow> keeps I (whenc b m)"
  by (simp add: keeps_def whenc_def)

lemma keeps_if [hoare]:
  "(b \<Longrightarrow> keeps I m) \<Longrightarrow> (\<not> b \<Longrightarrow> keeps I n) \<Longrightarrow> keeps I (if b then m else n)"
  by simp

lemma keeps_seqc: "(\<And>m. m \<in> set ms \<Longrightarrow> keeps I m) \<Longrightarrow> keeps I (seqc ms)"
  by (induction ms) (simp_all add: keeps_ret keeps_thenc)

lemma keeps_case_option:
  "keeps I m \<Longrightarrow> (\<And>x. keeps I (f x)) \<Longrightarrow> keeps I (case z of None \<Rightarrow> m | Some x \<Rightarrow> f x)"
  by (cases z) simp_all

lemma keeps_case_list:
  "keeps I m \<Longrightarrow> (\<And>x xs. keeps I (f x xs)) \<Longrightarrow> keeps I (case z of [] \<Rightarrow> m | x # xs \<Rightarrow> f x xs)"
  by (cases z) simp_all

lemma keeps_case_sum:
  "(\<And>e. keeps I (f e)) \<Longrightarrow> (\<And>x. keeps I (g x)) \<Longrightarrow> keeps I (case z of Inl e \<Rightarrow> f e | Inr x \<Rightarrow> g x)"
  by (cases z) simp_all

lemma keeps_case_prod: "(\<And>a b. keeps I (f a b)) \<Longrightarrow> keeps I (case z of (a, b) \<Rightarrow> f a b)"
  by (cases z) simp

lemma keeps_of_sum_bind: "(\<And>x. r = Inr x \<Longrightarrow> keeps I (f x)) \<Longrightarrow> keeps I (bindc (of_sum r) f)"
  by (cases r) (simp_all add: keeps_def bindc_def of_sum_def)

lemma keeps_mapc [hoare]: "(\<And>x. x \<in> set xs \<Longrightarrow> keeps I (f x)) \<Longrightarrow> keeps I (mapc f xs)"
  by (induction xs) (auto intro!: hoare)

section \<open>Calls to the outside\<close>

text \<open>
  Executors act on clouds, directories and hosts. What such a call returns is not determined
  by the program, so it is an arbitrary function of the history of the calls made before it:
  an environment \<open>env\<close>. Every theorem that mentions one holds for all of them. A call appends
  itself to the history.
\<close>

type_synonym ('c, 'r) environment = "'c list \<Rightarrow> 'c \<Rightarrow> exn + 'r"

lemma fold_max_ge: "(n \<le> fold max xs (m::int)) \<longleftrightarrow> n \<le> m \<or> (\<exists>x \<in> set xs. n \<le> x)"
  by (induction xs arbitrary: m) (auto simp: le_max_iff_disj)

section \<open>What a computation returns\<close>

lemma bindc_returns: "bindc m f s = (Inr y, t) \<Longrightarrow> \<exists>x u. m s = (Inr x, u) \<and> f x u = (Inr y, t)"
  by (auto simp: bindc_apply split: prod.splits sum.splits)

lemma bindc_InrE:
  "bindc m f s = (Inr y, t) \<Longrightarrow> (\<And>x u. m s = (Inr x, u) \<Longrightarrow> f x u = (Inr y, t) \<Longrightarrow> P) \<Longrightarrow> P"
  by (blast dest: bindc_returns)

lemma caught_returns:
  "\<exists>r t. bindc (catchc m (\<lambda>e. ret (h e))) (\<lambda>r. ret (f r)) w = (Inr (f r), t)"
proof -
  obtain x u where "m w = (x, u)" by fastforce
  then show ?thesis by (cases x) (auto simp: comp_simps)
qed

lemma mapc_element: "mapc f xs s = (Inr ys, t) \<Longrightarrow> y \<in> set ys \<Longrightarrow> \<exists>x \<in> set xs. \<exists>u v. f x u = (Inr y, v)"
proof (induction xs arbitrary: s ys)
  case (Cons x xs)
  from Cons.prems(1) obtain z u zs where "f x s = (Inr z, u)" "mapc f xs u = (Inr zs, t)" "ys = z # zs"
    by (auto simp: bindc_apply split: prod.splits sum.splits)
  with Cons show ?case by fastforce
qed simp

text \<open>A property of every value that a computation can return.\<close>

definition yields :: "('a \<Rightarrow> bool) \<Rightarrow> ('s, 'a) comp \<Rightarrow> bool" where
  "yields Q m \<longleftrightarrow> (\<forall>s x t. m s = (Inr x, t) \<longrightarrow> Q x)"

named_theorems yielding \<open>what computations return\<close>

lemma yieldsD: "yields Q m \<Longrightarrow> m s = (Inr x, t) \<Longrightarrow> Q x"
  unfolding yields_def by blast

lemma yields_basic [yielding]: "Q x \<Longrightarrow> yields Q (ret x)" "yields Q (raise e)"
  by (simp_all add: yields_def)

lemma yields_bindc [yielding]: "(\<And>x. yields Q (f x)) \<Longrightarrow> yields Q (bindc m f)"
  unfolding yields_def by (blast dest: bindc_returns)

lemma yields_thenc [yielding]: "yields Q n \<Longrightarrow> yields Q (thenc m n)"
  unfolding thenc_def by (rule yields_bindc)

lemma yields_catchc [yielding]: "yields Q m \<Longrightarrow> (\<And>e. yields Q (h e)) \<Longrightarrow> yields Q (catchc m h)"
  unfolding yields_def catchc_def by (auto split: prod.splits sum.splits)

lemma yields_if [yielding]: "(b \<Longrightarrow> yields Q m) \<Longrightarrow> (\<not> b \<Longrightarrow> yields Q n) \<Longrightarrow> yields Q (if b then m else n)"
  by simp

text \<open>A computation whose exceptions are all caught returns.\<close>

definition always_returns :: "('s, 'a) comp \<Rightarrow> bool" where
  "always_returns m \<longleftrightarrow> (\<forall>s. \<exists>x t. m s = (Inr x, t))"

lemma always_returns_catchc: "(\<And>e. always_returns (h e)) \<Longrightarrow> always_returns (catchc m h)"
  unfolding always_returns_def
proof
  fix s
  assume h: "\<And>e. \<forall>s. \<exists>x t. h e s = (Inr x, t)"
  obtain z u where "m s = (z, u)" by fastforce
  with h show "\<exists>x t. catchc m h s = (Inr x, t)" by (cases z) (simp_all add: catchc_apply)
qed

lemma always_returns_basic: "always_returns (ret x)" "always_returns (gets f)" "always_returns (modifyc g)"
  by (simp_all add: always_returns_def)

lemma always_returns_bindc: "always_returns m \<Longrightarrow> (\<And>x. always_returns (f x)) \<Longrightarrow> always_returns (bindc m f)"
  unfolding always_returns_def
proof
  fix s
  assume "\<forall>s. \<exists>x t. m s = (Inr x, t)" and f: "\<And>x. \<forall>s. \<exists>y t. f x s = (Inr y, t)"
  then obtain x u where "m s = (Inr x, u)" by blast
  with f show "\<exists>y t. bindc m f s = (Inr y, t)" by (simp add: bindc_apply)
qed

lemma always_returns_mapc: "(\<And>x. x \<in> set xs \<Longrightarrow> always_returns (f x)) \<Longrightarrow> always_returns (mapc f xs)"
  by (induction xs) (auto intro!: always_returns_bindc always_returns_basic)

lemma mapc_yields:
  "mapc f xs s = (Inr ys, t) \<Longrightarrow> (\<And>x. x \<in> set xs \<Longrightarrow> yields (Q x) (f x)) \<Longrightarrow> list_all2 Q xs ys"
proof (induction xs arbitrary: s ys)
  case (Cons x xs)
  from Cons.prems(1) obtain z u zs where "f x s = (Inr z, u)" "mapc f xs u = (Inr zs, t)" "ys = z # zs"
    by (auto simp: bindc_apply split: prod.splits sum.splits)
  with Cons show ?case by (auto dest: yieldsD)
qed simp

end
