(* ===== verification/Models.thy ===== *)
theory Models
  imports Prelude
begin

text \<open>
  The data model (\<open>backend/app/models\<close>): the enumerations and the rows of the tables that
  the control plane reads and writes, the \<open>world\<close> the request handlers and workflows run in,
  and the access to its tables.

  Conventions. An identifier is the text of a UUID. \<open>ChangeType\<close> and \<open>ConnectorType\<close> are
  \<open>str\<close> enumerations whose members compare and hash as their value, so they are strings. JSON
  columns are \<open>pydict\<close>s. A time is a number of microseconds; \<open>clock\<close> is what
  \<open>datetime.now\<close> returns during one handler. Columns that no modelled operation reads or
  writes (titles, comments, passwords) are left out of the records.
\<close>

type_synonym uuid = string

section \<open>Enumerations\<close>

datatype change_request_status =
    CRS_draft | CRS_planned | CRS_safety_review | CRS_awaiting_approval | CRS_approved
  | CRS_executing | CRS_verifying | CRS_completed | CRS_failed | CRS_rolled_back
  | CRS_rollback_partial | CRS_rollback_failed | CRS_manual_recovery_required
  | CRS_rejected | CRS_cancelled | CRS_queued_for_maintenance | CRS_preflight_running
  | CRS_preflight_failed | CRS_batch_running | CRS_batch_aborted
  | CRS_completed_with_errors | CRS_paused | CRS_rolled_back_with_warnings

datatype execution_status =
    ES_pending | ES_running | ES_completed | ES_failed | ES_rolling_back | ES_rolled_back

datatype risk_level = RL_low | RL_medium | RL_high | RL_critical

datatype user_role = UR_admin | UR_security_operator | UR_approver | UR_auditor

datatype approval_decision = AD_approved | AD_rejected

datatype environment_kind = Env_dev | Env_staging | Env_prod

datatype criticality = Crit_low | Crit_medium | Crit_high | Crit_critical

datatype verification_status =
    VS_passed | VS_failed | VS_unsupported | VS_manual_required | VS_skipped_development_only

text \<open>The value of a member, and the enumeration called on a value, which raises
  \<open>ValueError\<close> when no member has it.\<close>

fun change_request_status_value :: "change_request_status \<Rightarrow> string" where
  "change_request_status_value CRS_draft = ''draft''"
| "change_request_status_value CRS_planned = ''planned''"
| "change_request_status_value CRS_safety_review = ''safety_review''"
| "change_request_status_value CRS_awaiting_approval = ''awaiting_approval''"
| "change_request_status_value CRS_approved = ''approved''"
| "change_request_status_value CRS_executing = ''executing''"
| "change_request_status_value CRS_verifying = ''verifying''"
| "change_request_status_value CRS_completed = ''completed''"
| "change_request_status_value CRS_failed = ''failed''"
| "change_request_status_value CRS_rolled_back = ''rolled_back''"
| "change_request_status_value CRS_rollback_partial = ''rollback_partial''"
| "change_request_status_value CRS_rollback_failed = ''rollback_failed''"
| "change_request_status_value CRS_manual_recovery_required = ''manual_recovery_required''"
| "change_request_status_value CRS_rejected = ''rejected''"
| "change_request_status_value CRS_cancelled = ''cancelled''"
| "change_request_status_value CRS_queued_for_maintenance = ''queued_for_maintenance''"
| "change_request_status_value CRS_preflight_running = ''preflight_running''"
| "change_request_status_value CRS_preflight_failed = ''preflight_failed''"
| "change_request_status_value CRS_batch_running = ''batch_running''"
| "change_request_status_value CRS_batch_aborted = ''batch_aborted''"
| "change_request_status_value CRS_completed_with_errors = ''completed_with_errors''"
| "change_request_status_value CRS_paused = ''paused''"
| "change_request_status_value CRS_rolled_back_with_warnings = ''rolled_back_with_warnings''"

definition all_change_request_status :: "change_request_status list" where
  "all_change_request_status =
     [CRS_draft, CRS_planned, CRS_safety_review, CRS_awaiting_approval, CRS_approved,
      CRS_executing, CRS_verifying, CRS_completed, CRS_failed, CRS_rolled_back,
      CRS_rollback_partial, CRS_rollback_failed, CRS_manual_recovery_required,
      CRS_rejected, CRS_cancelled, CRS_queued_for_maintenance, CRS_preflight_running,
      CRS_preflight_failed, CRS_batch_running, CRS_batch_aborted,
      CRS_completed_with_errors, CRS_paused, CRS_rolled_back_with_warnings]"

definition change_request_status_of :: "string \<Rightarrow> exn + change_request_status" where
  "change_request_status_of v =
     (case List.find (\<lambda>s. change_request_status_value s = v) all_change_request_status of
        Some s \<Rightarrow> Inr s
      | None \<Rightarrow> Inl (Exn ValueError (v @ '' is not a valid ChangeRequestStatus'')))"

fun execution_status_value :: "execution_status \<Rightarrow> string" where
  "execution_status_value ES_pending = ''pending''"
| "execution_status_value ES_running = ''running''"
| "execution_status_value ES_completed = ''completed''"
| "execution_status_value ES_failed = ''failed''"
| "execution_status_value ES_rolling_back = ''rolling_back''"
| "execution_status_value ES_rolled_back = ''rolled_back''"

definition execution_status_of :: "string \<Rightarrow> exn + execution_status" where
  "execution_status_of v =
     (case List.find (\<lambda>s. execution_status_value s = v)
        [ES_pending, ES_running, ES_completed, ES_failed, ES_rolling_back, ES_rolled_back] of
        Some s \<Rightarrow> Inr s
      | None \<Rightarrow> Inl (Exn ValueError (v @ '' is not a valid ExecutionStatus'')))"

lemma change_request_status_roundtrip [simp]:
  "change_request_status_of (change_request_status_value s) = Inr s"
  by (cases s) (simp_all add: change_request_status_of_def all_change_request_status_def)

lemma execution_status_roundtrip [simp]:
  "execution_status_of (execution_status_value s) = Inr s"
  by (cases s) (simp_all add: execution_status_of_def)

lemma execution_status_of_cases:
  "execution_status_of v = Inr s \<Longrightarrow> v = execution_status_value s"
  by (auto simp: execution_status_of_def split: if_splits)

text \<open>Risk levels are ordered from low to critical (the order of \<open>_RISK_ORDER\<close>).\<close>

fun risk_rank :: "risk_level \<Rightarrow> nat" where
  "risk_rank RL_low = 0"
| "risk_rank RL_medium = 1"
| "risk_rank RL_high = 2"
| "risk_rank RL_critical = 3"

lemma risk_rank_inj: "risk_rank a = risk_rank b \<Longrightarrow> a = b"
  by (cases a; cases b) simp_all

instantiation risk_level :: linorder
begin

definition less_eq_risk_level :: "risk_level \<Rightarrow> risk_level \<Rightarrow> bool" where
  "less_eq_risk_level a b \<longleftrightarrow> risk_rank a \<le> risk_rank b"

definition less_risk_level :: "risk_level \<Rightarrow> risk_level \<Rightarrow> bool" where
  "less_risk_level a b \<longleftrightarrow> risk_rank a < risk_rank b"

instance
  by standard (auto simp: less_eq_risk_level_def less_risk_level_def intro: risk_rank_inj)

end

fun risk_level_value :: "risk_level \<Rightarrow> string" where
  "risk_level_value RL_low = ''low''"
| "risk_level_value RL_medium = ''medium''"
| "risk_level_value RL_high = ''high''"
| "risk_level_value RL_critical = ''critical''"

text \<open>\<open>str(change_type)\<close>: a member of a \<open>str\<close> and \<open>Enum\<close> mixin prints as its qualified
  name, unlike \<open>change_type.value\<close>.\<close>

definition str_change_type :: "string \<Rightarrow> string" where
  "str_change_type ct = ''ChangeType.'' @ ct"

section \<open>Rows\<close>

record user =
  user_id :: uuid
  user_organization_id :: uuid
  user_role :: user_role

text \<open>The values of \<open>ConnectorType\<close>, kept as strings: the code compares and prints values. Calling
  the enum on any other text raises.\<close>

definition connector_types :: "string list" where
  "connector_types =
     [''aws'', ''azure'', ''cloudflare'', ''okta'', ''paloalto'', ''ssh'', ''active_directory'',
      ''crowdstrike'', ''tenable'', ''nexplane_agent'', ''gcp'', ''runzero'', ''wiz'',
      ''entra_id'', ''azure_ad'', ''sentinelone'', ''defender_endpoint'', ''hashicorp_vault'',
      ''github'', ''kubernetes'', ''snyk'', ''qualys'', ''terraform'', ''ansible'',
      ''cloudformation'', ''pulumi'', ''helm'', ''bicep'', ''checkov'', ''saltstack'',
      ''chef_inspec'', ''jira'', ''pagerduty'', ''servicenow'', ''splunk'', ''datadog'',
      ''zscaler'', ''google_workspace'', ''tailscale'', ''terraform_local'', ''ansible_local'',
      ''oci'', ''ldap'', ''vault'', ''keycloak'', ''gitea'', ''wazuh'', ''falco'', ''infisical'',
      ''freeipa'', ''gitlab'', ''teleport'', ''opnsense'', ''step_ca'', ''postgres'', ''redis'',
      ''mongodb'', ''nessus'', ''openvas'', ''elastic'', ''winrm'', ''sccm'', ''intune'',
      ''jamf'', ''micromdm'', ''wufb'', ''laps'', ''bind_dns'', ''godaddy'', ''slack'',
      ''jfrog'', ''smtp'', ''santa_sync_server'']"

definition connector_type_of :: "string \<Rightarrow> exn + string" where
  "connector_type_of v =
     (if v \<in> set connector_types then Inr v
      else Inl (Exn ValueError (v @ '' is not a valid ConnectorType'')))"

record connector =
  connector_id :: uuid
  connector_organization_id :: uuid
  connector_type :: string
  connector_created_at :: int

record asset =
  asset_id :: uuid
  asset_organization_id :: uuid
  asset_name :: string
  asset_type :: string
  asset_environment :: environment_kind
  asset_criticality :: criticality
  asset_tags :: "string list"
  asset_connectors :: "connector list"
  asset_connector_id :: "uuid option"
  asset_metadata :: pydict

record change_request =
  cr_id :: uuid
  cr_organization_id :: uuid
  cr_requester_id :: uuid
  cr_change_type :: string
  cr_target_asset_ids :: "uuid list"
  cr_desired_outcome :: pydict
  cr_risk_level :: risk_level
  cr_status :: change_request_status
  cr_verification_status :: "verification_status option"
  cr_source :: "string option"
  cr_snapshot_before :: bool
  cr_verification_checks :: "pydict list"
  cr_priority :: string
  cr_stateful_approved_at :: "int option"
  cr_execute_at :: "int option"
  cr_application_sequence :: "int option"
  cr_applied_at :: "int option"
  cr_updated_at :: int
  cr_created_at :: int
  cr_scheduled_rollback_cr_id :: "uuid option"

record approval =
  ap_change_request_id :: uuid
  ap_approver :: user
  ap_decision :: approval_decision

record execution_run =
  run_id :: uuid
  run_change_request_id :: uuid
  run_workflow_id :: string
  run_status :: execution_status
  run_started_at :: int
  run_completed_at :: "int option"
  run_result :: pydict

record change_plan =
  plan_change_request_id :: uuid
  plan_generated_steps :: "pydict list"
  plan_preflight_checks :: "pydict list"
  plan_blast_radius :: pydict
  plan_rollback_plan :: pydict
  plan_verification_plan :: pydict

record freeze_window =
  fz_id :: uuid
  fz_start_at :: int
  fz_end_at :: int
  fz_emergency_bypass_role :: string

text \<open>\<open>mw_applies_to_tags = None\<close> is the SQL NULL that means every asset.\<close>

record maintenance_window =
  mw_id :: int
  mw_organization_id :: uuid
  mw_name :: string
  mw_cron_schedule :: string
  mw_duration_minutes :: int
  mw_applies_to_tags :: "string list option"
  mw_enabled :: bool
  mw_enforcement :: string

record audit_event =
  ev_organization_id :: uuid
  ev_type :: string
  ev_actor_id :: "uuid option"
  ev_change_request_id :: "uuid option"

section \<open>The world\<close>

text \<open>
  Calls that leave the program. \<open>Call_execute\<close> and \<open>Call_rollback\<close> are the \<open>execute\<close> and
  \<open>rollback\<close> functions of an executor module (connector type, action, parameters, and for
  \<open>execute\<close> the assets, for \<open>rollback\<close> the stored result; the connector used).
  \<open>Call_service\<close> is any other service of the backend that the modelled code calls for its
  effect (notifications, discovery, drift anchors, findings), with the change request.
\<close>

datatype ext_call =
    Call_execute string string pydict "uuid list" "uuid option"
  | Call_rollback string string pydict pydict "uuid option"
  | Call_service string pydict

type_synonym env = "(ext_call, pydict) environment"

text \<open>Work handed to the event loop by \<open>asyncio.create_task\<close> and \<open>ensure_future\<close>, to run after
  the handler has returned.\<close>

datatype task =
    Task_workflow uuid uuid uuid
  | Task_resume uuid
  | Task_rollback uuid uuid
  | Task_cr_failed uuid uuid
  | Task_project_rollback uuid

section \<open>Projects\<close>

text \<open>\<open>models/project.py\<close> and \<open>models/project_rollback.py\<close>: the change requests of a project in
  order, and the rollbacks of a project with their steps.\<close>

datatype project_status = PS_draft | PS_in_progress | PS_completed | PS_cancelled | PS_rolling_back

datatype project_rollback_status =
    PR_pending | PR_running | PR_paused | PR_awaiting_user | PR_completed | PR_failed

datatype project_rollback_trigger = PT_manual | PT_execution_failure | PT_soak_health_check

datatype rollback_step_status =
    RS_pending | RS_running | RS_skipped | RS_completed | RS_failed | RS_awaiting_user

datatype rollback_kind = RK_standard | RK_reconstitution | RK_permanent_no_backup

record project =
  project_id :: uuid
  project_organization_id :: uuid
  project_status :: project_status

record project_member =
  member_project_id :: uuid
  member_change_request_id :: uuid
  member_sequence_order :: int

record project_rollback =
  rollback_id :: uuid
  rollback_project_id :: uuid
  rollback_status :: project_rollback_status
  rollback_trigger :: project_rollback_trigger
  rollback_triggered_by_user_id :: "uuid option"
  rollback_triggered_by_cr_id :: "uuid option"
  rollback_current_step :: int
  rollback_notes :: "string option"
  rollback_created_at :: int
  rollback_started_at :: "int option"
  rollback_paused_at :: "int option"
  rollback_completed_at :: "int option"

record project_rollback_step =
  step_id :: uuid
  step_rollback_id :: uuid
  step_change_request_id :: uuid
  step_sequence_order :: int
  step_status :: rollback_step_status
  step_kind :: rollback_kind
  step_backup_cr_id :: "uuid option"
  step_started_at :: "int option"
  step_completed_at :: "int option"
  step_result :: "pydict option"

section \<open>The database\<close>

record world =
  w_crs :: "change_request list"
  w_runs :: "execution_run list"
  w_plans :: "change_plan list"
  w_approvals :: "approval list"
  w_assets :: "asset list"
  w_connectors :: "connector list"
  w_users :: "user list"
  w_freezes :: "freeze_window list"
  w_windows :: "maintenance_window list"
  w_projects :: "project list"
  w_members :: "project_member list"
  w_rollbacks :: "project_rollback list"
  w_steps :: "project_rollback_step list"
  w_audit :: "audit_event list"
  w_calls :: "ext_call list"
  w_tasks :: "task list"
  w_clock :: int

type_synonym 'a prog = "(world, 'a) comp"

text \<open>One database session: \<open>get_db\<close> commits when the handler returns and rolls back when it
  raises, which undoes every write but not the calls already made to the outside.\<close>

definition transact :: "'a prog \<Rightarrow> 'a prog" where
  "transact m = (\<lambda>w. case m w of (Inl e, t) \<Rightarrow> (Inl e, w\<lparr>w_calls := w_calls t\<rparr>) | r \<Rightarrow> r)"

definition schedule_task :: "task \<Rightarrow> unit prog" where
  "schedule_task t = modifyc (\<lambda>w. w\<lparr>w_tasks := w_tasks w @ [t]\<rparr>)"

section \<open>Tables\<close>

text \<open>A table is a list of rows with a key; a stored row replaces the row with its key.\<close>

definition lookup_row :: "('r \<Rightarrow> 'k) \<Rightarrow> 'r list \<Rightarrow> 'k \<Rightarrow> 'r option" where
  "lookup_row key rows k = List.find (\<lambda>r. key r = k) rows"

definition store_row :: "('r \<Rightarrow> 'k) \<Rightarrow> 'r \<Rightarrow> 'r list \<Rightarrow> 'r list" where
  "store_row key r rows = map (\<lambda>q. if key q = key r then r else q) rows"

lemma lookup_row_key: "lookup_row key rows k = Some r \<Longrightarrow> key r = k"
  by (auto simp: lookup_row_def find_Some_iff)

lemma lookup_row_in: "lookup_row key rows k = Some r \<Longrightarrow> r \<in> set rows"
  by (auto simp: lookup_row_def find_Some_iff)

lemma lookup_store_row:
  "lookup_row key (store_row key r rows) k =
     (if k = key r then (if lookup_row key rows k = None then None else Some r)
      else lookup_row key rows k)"
  by (induction rows) (auto simp: lookup_row_def store_row_def)

lemma store_row_keys [simp]: "map key (store_row key r rows) = map key rows"
  by (induction rows) (auto simp: store_row_def)

text \<open>\<open>keyed_store\<close> is what the services rely on when they read a row, change it and commit:
  the row they read back is the one they wrote, and no other row changes.\<close>

locale keyed_store =
  fixes fetch :: "'d \<Rightarrow> 'k \<Rightarrow> 'r option"
    and commit :: "'r \<Rightarrow> 'd \<Rightarrow> 'd"
    and key :: "'r \<Rightarrow> 'k"
  assumes fetch_key: "fetch d k = Some r \<Longrightarrow> key r = k"
    and fetch_commit_same: "fetch d (key r) \<noteq> None \<Longrightarrow> fetch (commit r d) (key r) = Some r"
    and fetch_commit_other: "k \<noteq> key r \<Longrightarrow> fetch (commit r d) k = fetch d k"
    and commit_absent: "fetch d (key r) = None \<Longrightarrow> fetch (commit r d) (key r) = None"
begin

text \<open>\<open>row = db.get(k); if row: row = f(row); db.commit()\<close>\<close>

definition update_at :: "'k \<Rightarrow> ('r \<Rightarrow> 'r) \<Rightarrow> 'd \<Rightarrow> 'd" where
  "update_at k f d = (case fetch d k of None \<Rightarrow> d | Some r \<Rightarrow> commit (f r) d)"

lemma fetch_update_at:
  assumes "\<And>r. key (f r) = key r"
  shows "fetch (update_at k f d) k' = (if k' = k then map_option f (fetch d k) else fetch d k')"
proof (cases "fetch d k")
  case None
  then show ?thesis by (simp add: update_at_def)
next
  case (Some r)
  then have kr: "key (f r) = k" using assms fetch_key by simp
  then show ?thesis
    using Some fetch_commit_same [of d "f r"] fetch_commit_other [of k' "f r" d]
    by (auto simp: update_at_def)
qed

lemma update_at_twice_fetch:
  assumes "\<And>r. key (f r) = key r" and "\<And>r. key (g r) = key r"
  shows "fetch (update_at k g (update_at k f d)) k = map_option (g \<circ> f) (fetch d k)"
  by (simp add: fetch_update_at assms option.map_comp)

lemma update_at_commute_fetch:
  assumes "\<And>r. key (f r) = key r" and "\<And>r. key (g r) = key r" and "k \<noteq> l"
  shows "fetch (update_at k f (update_at l g d)) m = fetch (update_at l g (update_at k f d)) m"
  using assms by (simp add: fetch_update_at)

end

definition get_cr :: "world \<Rightarrow> uuid \<Rightarrow> change_request option" where
  "get_cr w i = lookup_row cr_id (w_crs w) i"

definition put_cr :: "change_request \<Rightarrow> world \<Rightarrow> world" where
  "put_cr c w = w\<lparr>w_crs := store_row cr_id c (w_crs w)\<rparr>"

definition get_run :: "world \<Rightarrow> uuid \<Rightarrow> execution_run option" where
  "get_run w i = lookup_row run_id (w_runs w) i"

definition put_run :: "execution_run \<Rightarrow> world \<Rightarrow> world" where
  "put_run r w = w\<lparr>w_runs := store_row run_id r (w_runs w)\<rparr>"

definition get_plan :: "world \<Rightarrow> uuid \<Rightarrow> change_plan option" where
  "get_plan w i = lookup_row plan_change_request_id (w_plans w) i"

interpretation cr_table: keyed_store get_cr put_cr cr_id
  by unfold_locales
    (auto simp: get_cr_def put_cr_def lookup_store_row dest: lookup_row_key)

interpretation run_table: keyed_store get_run put_run run_id
  by unfold_locales
    (auto simp: get_run_def put_run_def lookup_store_row dest: lookup_row_key)

text \<open>\<open>upd_cr i f\<close> and \<open>upd_run i f\<close>: load the row by id, change it, commit.\<close>

definition upd_cr :: "uuid \<Rightarrow> (change_request \<Rightarrow> change_request) \<Rightarrow> world \<Rightarrow> world" where
  "upd_cr i f w = (case get_cr w i of None \<Rightarrow> w | Some c \<Rightarrow> put_cr (f c) w)"

definition upd_run :: "uuid \<Rightarrow> (execution_run \<Rightarrow> execution_run) \<Rightarrow> world \<Rightarrow> world" where
  "upd_run i f w = (case get_run w i of None \<Rightarrow> w | Some r \<Rightarrow> put_run (f r) w)"

lemma upd_cr_update_at: "upd_cr = cr_table.update_at"
  by (intro ext) (simp add: upd_cr_def cr_table.update_at_def)

lemma upd_run_update_at: "upd_run = run_table.update_at"
  by (intro ext) (simp add: upd_run_def run_table.update_at_def)

lemma get_cr_upd_cr:
  "(\<And>c. cr_id (f c) = cr_id c) \<Longrightarrow>
   get_cr (upd_cr i f w) j = (if j = i then map_option f (get_cr w i) else get_cr w j)"
  by (simp add: upd_cr_update_at cr_table.fetch_update_at)

lemma get_run_upd_run:
  "(\<And>r. run_id (f r) = run_id r) \<Longrightarrow>
   get_run (upd_run i f w) j = (if j = i then map_option f (get_run w i) else get_run w j)"
  by (simp add: upd_run_update_at run_table.fetch_update_at)

lemma get_run_upd_cr [simp]: "get_run (upd_cr i f w) j = get_run w j"
  by (simp add: upd_cr_def put_cr_def get_run_def split: option.splits)

lemma get_cr_upd_run [simp]: "get_cr (upd_run i f w) j = get_cr w j"
  by (simp add: upd_run_def put_run_def get_cr_def split: option.splits)

lemma upd_cr_frame [simp]:
  "w_runs (upd_cr i f w) = w_runs w" "w_plans (upd_cr i f w) = w_plans w"
  "w_approvals (upd_cr i f w) = w_approvals w" "w_assets (upd_cr i f w) = w_assets w"
  "w_connectors (upd_cr i f w) = w_connectors w" "w_audit (upd_cr i f w) = w_audit w"
  "w_calls (upd_cr i f w) = w_calls w" "w_clock (upd_cr i f w) = w_clock w"
  "w_tasks (upd_cr i f w) = w_tasks w" "w_users (upd_cr i f w) = w_users w"
  "w_freezes (upd_cr i f w) = w_freezes w" "w_windows (upd_cr i f w) = w_windows w"
  "w_projects (upd_cr i f w) = w_projects w" "w_members (upd_cr i f w) = w_members w"
  "w_rollbacks (upd_cr i f w) = w_rollbacks w" "w_steps (upd_cr i f w) = w_steps w"
  by (simp_all add: upd_cr_def put_cr_def split: option.splits)

lemma upd_run_frame [simp]:
  "w_crs (upd_run i f w) = w_crs w" "w_plans (upd_run i f w) = w_plans w"
  "w_approvals (upd_run i f w) = w_approvals w" "w_assets (upd_run i f w) = w_assets w"
  "w_connectors (upd_run i f w) = w_connectors w" "w_audit (upd_run i f w) = w_audit w"
  "w_calls (upd_run i f w) = w_calls w" "w_clock (upd_run i f w) = w_clock w"
  "w_tasks (upd_run i f w) = w_tasks w" "w_users (upd_run i f w) = w_users w"
  "w_freezes (upd_run i f w) = w_freezes w" "w_windows (upd_run i f w) = w_windows w"
  "w_projects (upd_run i f w) = w_projects w" "w_members (upd_run i f w) = w_members w"
  "w_rollbacks (upd_run i f w) = w_rollbacks w" "w_steps (upd_run i f w) = w_steps w"
  by (simp_all add: upd_run_def put_run_def split: option.splits)

text \<open>Reads do not depend on the audit log, the call history or the clock.\<close>

lemma get_frame [simp]:
  "get_cr (w\<lparr>w_audit := a\<rparr>) i = get_cr w i" "get_cr (w\<lparr>w_calls := c\<rparr>) i = get_cr w i"
  "get_cr (w\<lparr>w_runs := r\<rparr>) i = get_cr w i" "get_cr (w\<lparr>w_approvals := p\<rparr>) i = get_cr w i"
  "get_cr (w\<lparr>w_plans := q\<rparr>) i = get_cr w i" "get_cr (w\<lparr>w_tasks := ts\<rparr>) i = get_cr w i"
  "get_run (w\<lparr>w_audit := a\<rparr>) i = get_run w i" "get_run (w\<lparr>w_calls := c\<rparr>) i = get_run w i"
  "get_run (w\<lparr>w_crs := r'\<rparr>) i = get_run w i" "get_run (w\<lparr>w_approvals := p\<rparr>) i = get_run w i"
  "get_run (w\<lparr>w_plans := q\<rparr>) i = get_run w i" "get_run (w\<lparr>w_tasks := ts\<rparr>) i = get_run w i"
  by (simp_all add: get_cr_def get_run_def)

text \<open>\<open>order_by(started_at.desc()).limit(1)\<close>: the most recent of the rows selected. Rows with
  the same start time keep the order of the table.\<close>

fun latest_run :: "execution_run list \<Rightarrow> execution_run option" where
  "latest_run [] = None"
| "latest_run (r # rs) =
     (case latest_run rs of
        None \<Rightarrow> Some r
      | Some q \<Rightarrow> Some (if run_started_at q > run_started_at r then q else r))"

lemma latest_run_None [simp]: "latest_run rs = None \<longleftrightarrow> rs = []"
  by (induction rs) (auto split: option.splits)

lemma latest_run_in: "latest_run rs = Some r \<Longrightarrow> r \<in> set rs"
  by (induction rs arbitrary: r) (auto split: option.splits if_splits)

lemma latest_run_max:
  "latest_run rs = Some r \<Longrightarrow> q \<in> set rs \<Longrightarrow> run_started_at q \<le> run_started_at r"
proof (induction rs arbitrary: r q)
  case Nil
  then show ?case by simp
next
  case (Cons a rs)
  show ?case
  proof (cases "latest_run rs")
    case None
    then show ?thesis using Cons.prems by auto
  next
    case (Some b)
    with Cons.IH [OF Some] Cons.prems show ?thesis
      by (force split: if_splits)
  qed
qed

definition runs_of :: "world \<Rightarrow> uuid \<Rightarrow> execution_run list" where
  "runs_of w i = filter (\<lambda>r. run_change_request_id r = i) (w_runs w)"

section \<open>Elementary effects\<close>

text \<open>\<open>record_event\<close> (\<open>services/audit_service.py\<close>) appends one row to the audit log. The
  payload, which nothing reads back, is left out.\<close>

definition record_event :: "uuid \<Rightarrow> string \<Rightarrow> uuid option \<Rightarrow> uuid option \<Rightarrow> unit prog" where
  "record_event org ty actor cr =
     modifyc (\<lambda>w. w\<lparr>w_audit := w_audit w @
       [\<lparr>ev_organization_id = org, ev_type = ty, ev_actor_id = actor,
         ev_change_request_id = cr\<rparr>]\<rparr>)"

text \<open>A call to the outside: its result depends on the calls made before it.\<close>

definition call :: "env \<Rightarrow> ext_call \<Rightarrow> pydict prog" where
  "call env c = (\<lambda>w. (env (w_calls w) c, w\<lparr>w_calls := w_calls w @ [c]\<rparr>))"

definition audit_types :: "world \<Rightarrow> string list" where
  "audit_types w = map ev_type (w_audit w)"

lemma keeps_record_event:
  "(\<And>w e. I w \<Longrightarrow> I (w\<lparr>w_audit := w_audit w @ [e]\<rparr>)) \<Longrightarrow> keeps I (record_event org ty a c)"
  by (simp add: record_event_def keeps_modifyc)

lemma keeps_call:
  "(\<And>w. I w \<Longrightarrow> I (w\<lparr>w_calls := w_calls w @ [c]\<rparr>)) \<Longrightarrow> keeps I (call env c)"
  by (simp add: call_def keeps_def)

end
