(* ===== verification/Catalog.thy ===== *)
theory Catalog
  imports Models "HOL-Library.AList"
begin

text \<open>
  The action catalog (\<open>backend/app/connectors/catalog_service.py\<close>). A \<open>catalog_file\<close> is one
  parsed JSON file of the catalog directories, which are data and so a parameter; loading gates,
  merges and indexes them as the constructor does. Importing an executor module is the parameter
  \<open>module_system\<close>; what the planner reads of a module is an \<open>exec_module\<close>.
\<close>

record catalog_file =
  cf_connector_type :: string
  cf_actions :: "pydict list"

record action_option =
  ao_connector_type :: string
  ao_action_id :: string
  ao_action_def :: pydict
  ao_execution_tier :: int

record catalog =
  cat_actions :: "(string \<times> pydict list) list"
  cat_raw :: "(string \<times> catalog_file) list"
  cat_generic :: "(string \<times> action_option list) list"

record exec_module =
  em_has_execute :: bool
  em_has_rollback :: bool
  em_rollback_capability :: "string option"
  em_rollback_reason :: "string option"

text \<open>\<open>ms_commercial\<close> is the commercial executor directory, when one is configured.\<close>

record module_system =
  ms_import :: "string \<Rightarrow> exec_module option"
  ms_commercial :: "(string \<Rightarrow> string \<Rightarrow> exec_module option) option"

definition empty_catalog :: catalog where
  "empty_catalog = \<lparr>cat_actions = [], cat_raw = [], cat_generic = []\<rparr>"

definition alist_or :: "('k \<times> 'v) list \<Rightarrow> 'k \<Rightarrow> 'v \<Rightarrow> 'v" where
  "alist_or d k v = (case map_of d k of None \<Rightarrow> v | Some w \<Rightarrow> w)"

section \<open>Loading\<close>

text \<open>Commercial actions that change something must be smoke verified.\<close>

definition smoke_gated :: "pydict \<Rightarrow> bool" where
  "smoke_gated a \<longleftrightarrow> dget a ''domain'' = Some (PStr ''commercial'') \<and>
     \<not> truthy (dget_or a ''read_only'' (PBool True)) \<and>
     \<not> truthy (dget_or a ''smoke_verified'' (PBool False))"

fun int_or :: "pyval \<Rightarrow> int \<Rightarrow> int" where
  "int_or (PInt i) _ = i"
| "int_or _ n = n"

definition action_id_of :: "pydict \<Rightarrow> exn + string" where
  "action_id_of a = (case dget a ''action_id'' of
     Some (PStr s) \<Rightarrow> Inr s
   | _ \<Rightarrow> Inl (Exn KeyError ''action_id''))"

definition generic_action_of :: "pydict \<Rightarrow> string option" where
  "generic_action_of a = (case dget a ''generic_action'' of
     Some (PStr g) \<Rightarrow> if g = [] then None else Some g
   | _ \<Rightarrow> None)"

definition option_of :: "string \<Rightarrow> pydict \<Rightarrow> exn + action_option" where
  "option_of ct a = (case action_id_of a of
     Inl e \<Rightarrow> Inl e
   | Inr i \<Rightarrow> Inr \<lparr>ao_connector_type = ct, ao_action_id = i, ao_action_def = a,
       ao_execution_tier = int_or (dget_or a ''execution_tier'' (PInt 99)) 99\<rparr>)"

fun index_actions ::
  "string \<Rightarrow> pydict list \<Rightarrow> (string \<times> action_option list) list \<Rightarrow>
   exn + (string \<times> action_option list) list" where
  "index_actions ct [] idx = Inr idx"
| "index_actions ct (a # as) idx =
     (case option_of ct a of
        Inl e \<Rightarrow> Inl e
      | Inr opt \<Rightarrow>
          index_actions ct as
            (case generic_action_of a of
               None \<Rightarrow> idx
             | Some g \<Rightarrow> AList.update g (alist_or idx g [] @ [opt]) idx))"

definition load_file :: "catalog_file \<Rightarrow> catalog \<Rightarrow> exn + catalog" where
  "load_file f cat =
     (let ct = cf_connector_type f;
          actions = filter (\<lambda>a. \<not> smoke_gated a) (cf_actions f)
      in case index_actions ct actions (cat_generic cat) of
           Inl e \<Rightarrow> Inl e
         | Inr idx \<Rightarrow>
             Inr \<lparr>cat_actions = AList.update ct (alist_or (cat_actions cat) ct [] @ actions)
                    (cat_actions cat),
                  cat_raw = AList.update ct f (cat_raw cat), cat_generic = idx\<rparr>)"

fun load_files :: "catalog_file list \<Rightarrow> catalog \<Rightarrow> exn + catalog" where
  "load_files [] cat = Inr cat"
| "load_files (f # fs) cat =
     (case load_file f cat of Inl e \<Rightarrow> Inl e | Inr c \<Rightarrow> load_files fs c)"

text \<open>The constructor: the core directory, then the commercial one, then one stable sort of
  every index entry by tier.\<close>

definition load_catalog :: "catalog_file list \<Rightarrow> catalog_file list \<Rightarrow> exn + catalog" where
  "load_catalog core commercial =
     (case load_files core empty_catalog of
        Inl e \<Rightarrow> Inl e
      | Inr c1 \<Rightarrow>
          (case load_files commercial c1 of
             Inl e \<Rightarrow> Inl e
           | Inr c2 \<Rightarrow>
               Inr (c2\<lparr>cat_generic :=
                 map (\<lambda>(g, os). (g, sort_key ao_execution_tier os)) (cat_generic c2)\<rparr>)))"

section \<open>Queries\<close>

definition applicable_types :: "pydict \<Rightarrow> pyval list" where
  "applicable_types a =
     (case dget_or a ''applicable_asset_types'' (PList []) of PList xs \<Rightarrow> xs | _ \<Rightarrow> [])"

definition get_options_for_action ::
  "catalog \<Rightarrow> string \<Rightarrow> string list option \<Rightarrow> action_option list" where
  "get_options_for_action cat g asset_types =
     (let options = alist_or (cat_generic cat) g []
      in case asset_types of
           None \<Rightarrow> options
         | Some ts \<Rightarrow>
             filter (\<lambda>opt. list_ex (\<lambda>t. PStr t \<in> set (applicable_types (ao_action_def opt))) ts) options)"

fun find_action :: "pydict list \<Rightarrow> string \<Rightarrow> exn + pydict" where
  "find_action [] i = Inl (Exn KeyError ''Action not found in connector'')"
| "find_action (a # as) i =
     (case action_id_of a of
        Inl e \<Rightarrow> Inl e
      | Inr j \<Rightarrow> if j = i then Inr a else find_action as i)"

definition get_action_def :: "catalog \<Rightarrow> string \<Rightarrow> string \<Rightarrow> exn + pydict" where
  "get_action_def cat ct i = find_action (alist_or (cat_actions cat) ct []) i"

definition list_connector_types :: "catalog \<Rightarrow> string list" where
  "list_connector_types cat = map fst (cat_actions cat)"

definition list_generic_actions :: "catalog \<Rightarrow> string option \<Rightarrow> string list" where
  "list_generic_actions cat action_type =
     (case action_type of
        None \<Rightarrow> map fst (cat_generic cat)
      | Some t \<Rightarrow>
          map fst (filter (\<lambda>(g, os).
            list_ex (\<lambda>opt. dget (ao_action_def opt) ''action_type'' = Some (PStr t)) os)
            (cat_generic cat)))"

definition get_connector_catalog :: "catalog \<Rightarrow> string \<Rightarrow> exn + catalog_file" where
  "get_connector_catalog cat ct = (case map_of (cat_raw cat) ct of
     None \<Rightarrow> Inl (Exn KeyError ''Connector type not found in catalog'')
   | Some f \<Rightarrow> Inr f)"

definition list_all_actions :: "catalog \<Rightarrow> pydict list" where
  "list_all_actions cat =
     concat (map (\<lambda>(ct, as). map (\<lambda>a. dmerge [(''connector_type'', PStr ct)] a) as)
       (cat_actions cat))"

section \<open>Executors\<close>

fun split_on :: "char \<Rightarrow> string \<Rightarrow> string list" where
  "split_on c [] = [[]]"
| "split_on c (x # xs) =
     (if x = c then [] # split_on c xs
      else case split_on c xs of [] \<Rightarrow> [[x]] | w # ws \<Rightarrow> (x # w) # ws)"

definition starts_with :: "string \<Rightarrow> string \<Rightarrow> bool" where
  "starts_with s p \<longleftrightarrow> take (length p) s = p"

definition load_commercial_executor :: "module_system \<Rightarrow> string \<Rightarrow> exn + exec_module" where
  "load_commercial_executor ms r =
     (case split_on (CHR ''.'') r of
        [p, ct, m] \<Rightarrow>
          if p \<noteq> ''commercial'' then Inl (Exn ValueError ''Invalid commercial executor reference'')
          else (case ms_commercial ms of
                  None \<Rightarrow> Inl (Exn ImportError ''no commercial catalog dir configured'')
                | Some lookup \<Rightarrow>
                    (case lookup ct m of
                       None \<Rightarrow> Inl (Exn ImportError ''Commercial executor file not found'')
                     | Some em \<Rightarrow> Inr em))
      | _ \<Rightarrow> Inl (Exn ValueError ''Invalid commercial executor reference''))"

definition get_executor ::
  "module_system \<Rightarrow> catalog \<Rightarrow> string \<Rightarrow> string \<Rightarrow> exn + exec_module" where
  "get_executor ms cat ct i =
     (case get_action_def cat ct i of
        Inl e \<Rightarrow> Inl e
      | Inr a \<Rightarrow>
          (let r = (case dget_or a ''executor'' (PStr []) of PStr s \<Rightarrow> s | _ \<Rightarrow> [])
           in if starts_with r ''commercial.'' then load_commercial_executor ms r
              else if length (split_on (CHR ''.'') r) < 2
              then Inl (Exn ValueError ''Invalid executor reference'')
              else (case ms_import ms r of
                      None \<Rightarrow> Inl (Exn ImportError ''Executor module not found'')
                    | Some em \<Rightarrow> Inr em)))"

section \<open>What the catalog holds\<close>

lemma alist_or_update: "alist_or (AList.update k v d) k' w = (if k' = k then v else alist_or d k' w)"
  by (simp add: alist_or_def update_conv')

lemma alist_or_map_snd:
  "alist_or (map (\<lambda>(g, os). (g, f os)) d) k (f v) = f (alist_or d k v)"
  by (induction d) (auto simp: alist_or_def)

text \<open>The options a list of files contributes for a generic action, in file order.\<close>

definition file_options :: "string \<Rightarrow> catalog_file \<Rightarrow> action_option list" where
  "file_options g f =
     concat (map (\<lambda>a. case option_of (cf_connector_type f) a of Inl _ \<Rightarrow> [] | Inr opt \<Rightarrow> [opt])
       (filter (\<lambda>a. \<not> smoke_gated a \<and> generic_action_of a = Some g) (cf_actions f)))"

lemma index_actions_options:
  "index_actions ct as idx = Inr idx' \<Longrightarrow>
   alist_or idx' g [] = alist_or idx g [] @
     concat (map (\<lambda>a. case option_of ct a of Inl _ \<Rightarrow> [] | Inr opt \<Rightarrow> [opt])
       (filter (\<lambda>a. generic_action_of a = Some g) as))"
proof (induction as arbitrary: idx)
  case Nil
  then show ?case by simp
next
  case (Cons a as)
  then obtain opt where opt: "option_of ct a = Inr opt"
    by (auto split: sum.splits)
  have "index_actions ct as (case generic_action_of a of None \<Rightarrow> idx
      | Some g \<Rightarrow> AList.update g (alist_or idx g [] @ [opt]) idx) = Inr idx'"
    using Cons.prems opt by simp
  from Cons.IH [OF this] show ?case
    by (cases "generic_action_of a") (auto simp: opt alist_or_update)
qed

lemma load_file_options:
  "load_file f cat = Inr cat' \<Longrightarrow>
   alist_or (cat_generic cat') g [] = alist_or (cat_generic cat) g [] @ file_options g f"
  by (auto simp: load_file_def Let_def file_options_def conj_commute
      dest!: index_actions_options [where g = g] split: sum.splits)

lemma load_files_options:
  "load_files fs cat = Inr cat' \<Longrightarrow>
   alist_or (cat_generic cat') g [] =
     alist_or (cat_generic cat) g [] @ concat (map (file_options g) fs)"
  by (induction fs arbitrary: cat)
    (auto split: sum.splits dest: load_file_options [where g = g])

lemma load_catalog_options:
  assumes "load_catalog core commercial = Inr cat"
  shows "get_options_for_action cat g None =
      sort_key ao_execution_tier (concat (map (file_options g) (core @ commercial)))"
proof -
  obtain c1 c2 where 1: "load_files core empty_catalog = Inr c1"
    and 2: "load_files commercial c1 = Inr c2"
    and cat: "cat = c2\<lparr>cat_generic :=
      map (\<lambda>(g, os). (g, sort_key ao_execution_tier os)) (cat_generic c2)\<rparr>"
    using assms by (auto simp: load_catalog_def split: sum.splits)
  have "alist_or (cat_generic cat) g [] = sort_key ao_execution_tier (alist_or (cat_generic c2) g [])"
    using alist_or_map_snd [of "sort_key ao_execution_tier" "cat_generic c2" g "[]"]
    by (simp add: cat)
  then show ?thesis
    using load_files_options [OF 1, of g] load_files_options [OF 2, of g]
    by (simp add: get_options_for_action_def empty_catalog_def alist_or_def)
qed

lemma file_options_iff:
  "opt \<in> set (file_options g f) \<longleftrightarrow>
     (\<exists>a \<in> set (cf_actions f). \<not> smoke_gated a \<and> generic_action_of a = Some g \<and>
        option_of (cf_connector_type f) a = Inr opt)"
  by (auto simp: file_options_def split: sum.splits)

lemma option_of_fields:
  "option_of ct a = Inr opt \<Longrightarrow> ao_action_def opt = a \<and> ao_connector_type opt = ct"
  by (auto simp: option_of_def split: sum.splits)

text \<open>The actions of a connector type are the ungated ones of its files, in file order.\<close>

definition file_actions :: "string \<Rightarrow> catalog_file \<Rightarrow> pydict list" where
  "file_actions ct f =
     (if cf_connector_type f = ct then filter (\<lambda>a. \<not> smoke_gated a) (cf_actions f) else [])"

lemma load_files_actions:
  "load_files fs cat = Inr cat' \<Longrightarrow>
   alist_or (cat_actions cat') ct [] =
     alist_or (cat_actions cat) ct [] @ concat (map (file_actions ct) fs)"
  by (induction fs arbitrary: cat)
    (auto simp: load_file_def Let_def alist_or_update file_actions_def split: sum.splits)

lemma load_catalog_actions:
  "load_catalog core commercial = Inr cat \<Longrightarrow>
   alist_or (cat_actions cat) ct [] = concat (map (file_actions ct) (core @ commercial))"
  by (auto simp: load_catalog_def empty_catalog_def alist_or_def split: sum.splits
      dest!: load_files_actions [where ct = ct])

lemma find_action_in: "find_action as i = Inr a \<Longrightarrow> a \<in> set as \<and> action_id_of a = Inr i"
  by (induction as) (auto split: sum.splits if_splits)


definition example_action :: "string \<Rightarrow> int \<Rightarrow> pydict" where
  "example_action i tier =
     [(''action_id'', PStr i), (''generic_action'', PStr ''restart''),
      (''execution_tier'', PInt tier), (''executor'', PStr (''aws.'' @ i))]"

definition example_gated_action :: pydict where
  "example_gated_action =
     [(''action_id'', PStr ''wipe''), (''generic_action'', PStr ''restart''),
      (''domain'', PStr ''commercial''), (''read_only'', PBool False)]"

definition example_files :: "catalog_file list" where
  "example_files =
     [\<lparr>cf_connector_type = ''aws'', cf_actions = [example_action ''ssh_restart'' 5, example_gated_action]\<rparr>,
      \<lparr>cf_connector_type = ''k8s'', cf_actions = [example_action ''pod_restart'' 3]\<rparr>]"

definition example_catalog :: catalog where
  "example_catalog =
     \<lparr>cat_actions = [(''aws'', [example_action ''ssh_restart'' 5]), (''k8s'', [example_action ''pod_restart'' 3])],
      cat_raw = [(''aws'', hd example_files), (''k8s'', last example_files)],
      cat_generic = [(''restart'',
        [\<lparr>ao_connector_type = ''k8s'', ao_action_id = ''pod_restart'',
          ao_action_def = example_action ''pod_restart'' 3, ao_execution_tier = 3\<rparr>,
         \<lparr>ao_connector_type = ''aws'', ao_action_id = ''ssh_restart'',
          ao_action_def = example_action ''ssh_restart'' 5, ao_execution_tier = 5\<rparr>])]\<rparr>"

lemma example_catalog: "load_catalog example_files [] = Inr example_catalog"
  by (simp add: load_catalog_def example_files_def example_catalog_def load_file_def
      smoke_gated_def example_action_def example_gated_action_def empty_catalog_def option_of_def
      action_id_of_def generic_action_of_def alist_or_def Let_def insort_key.simps)


text \<open>options by tier. The options of a generic action come safest tier first, and they are
  exactly the ungated actions of the catalog files that name the generic action, kept when they
  apply to one of the asset types asked for.\<close>

theorem catalog_options_sorted_complete:
  assumes "load_catalog core commercial = Inr cat"
  shows "sorted (map ao_execution_tier (get_options_for_action cat g ts)) \<and>
         (opt \<in> set (get_options_for_action cat g ts) \<longleftrightarrow>
            (\<exists>f \<in> set (core @ commercial). \<exists>a \<in> set (cf_actions f).
               \<not> smoke_gated a \<and> generic_action_of a = Some g \<and>
               option_of (cf_connector_type f) a = Inr opt \<and>
               (\<forall>types. ts = Some types \<longrightarrow> (\<exists>t \<in> set types. PStr t \<in> set (applicable_types a)))))"
proof -
  have all: "get_options_for_action cat g None =
      sort_key ao_execution_tier (concat (map (file_options g) (core @ commercial)))"
    by (rule load_catalog_options [OF assms])
  have ts: "get_options_for_action cat g ts = filter (\<lambda>opt. \<forall>types. ts = Some types \<longrightarrow>
      (\<exists>t \<in> set types. PStr t \<in> set (applicable_types (ao_action_def opt))))
      (get_options_for_action cat g None)"
    by (cases ts) (auto simp: get_options_for_action_def Let_def list_ex_iff)
  have "sorted (map ao_execution_tier (get_options_for_action cat g ts))"
    unfolding ts all by (intro sorted_filter) simp
  moreover have "opt \<in> set (get_options_for_action cat g ts) \<longleftrightarrow>
      (\<exists>f \<in> set (core @ commercial). \<exists>a \<in> set (cf_actions f).
         \<not> smoke_gated a \<and> generic_action_of a = Some g \<and>
         option_of (cf_connector_type f) a = Inr opt \<and>
         (\<forall>types. ts = Some types \<longrightarrow> (\<exists>t \<in> set types. PStr t \<in> set (applicable_types a))))"
    unfolding ts all
    by (auto simp: file_options_iff dest: option_of_fields)
  ultimately show ?thesis by blast
qed

theorem catalog_options_witness:
  "sorted (map ao_execution_tier (get_options_for_action example_catalog ''restart'' None)) \<and>
   map ao_action_id (get_options_for_action example_catalog ''restart'' None) =
     [''pod_restart'', ''ssh_restart'']"
  using catalog_options_sorted_complete [OF example_catalog, of "''restart''" None]
  by (simp add: example_catalog_def get_options_for_action_def alist_or_def)

end
