(* ===== verification/Texts.thy ===== *)
theory Texts
  imports Catalog
begin

text \<open>
  The text operations of the standard library that the executors use, on strings as sequences of
  bytes: \<open>in\<close>, \<open>lower\<close> and \<open>strip\<close> (for ASCII letters and ASCII white space), \<open>bytes.decode\<close>, and
  base64 as the \<open>binascii\<close> module does it.
\<close>

section \<open>Substrings, case and white space\<close>

fun is_infix_of :: "string \<Rightarrow> string \<Rightarrow> bool" where
  "is_infix_of p [] = (p = [])"
| "is_infix_of p (x # xs) = (starts_with (x # xs) p \<or> is_infix_of p xs)"

lemma starts_with_self [simp]: "starts_with s s"
  by (simp add: starts_with_def)

lemma is_infix_of_self [simp]: "is_infix_of s s"
  by (cases s) simp_all

definition lower_char :: "char \<Rightarrow> char" where
  "lower_char c = (let n = of_char c :: nat in if 65 \<le> n \<and> n \<le> 90 then char_of (n + 32) else c)"

definition lower :: "string \<Rightarrow> string" where
  "lower s = map lower_char s"

definition is_space :: "char \<Rightarrow> bool" where
  "is_space c \<longleftrightarrow> (let n = of_char c :: nat in (9 \<le> n \<and> n \<le> 13) \<or> (28 \<le> n \<and> n \<le> 32))"

definition strip :: "string \<Rightarrow> string" where
  "strip s = rev (dropWhile is_space (rev (dropWhile is_space s)))"

section \<open>UTF-8\<close>

definition continuation :: "nat \<Rightarrow> bool" where
  "continuation b \<longleftrightarrow> 128 \<le> b \<and> b < 192"

fun utf8_valid :: "nat list \<Rightarrow> bool" where
  "utf8_valid [] = True"
| "utf8_valid (a # r) =
     (if a < 128 then utf8_valid r
      else case r of
        [] \<Rightarrow> False
      | b # r1 \<Rightarrow>
          if 194 \<le> a \<and> a < 224 then continuation b \<and> utf8_valid r1
          else (case r1 of
            [] \<Rightarrow> False
          | c # r2 \<Rightarrow>
              if a = 224 then 160 \<le> b \<and> b < 192 \<and> continuation c \<and> utf8_valid r2
              else if a = 237 then 128 \<le> b \<and> b < 160 \<and> continuation c \<and> utf8_valid r2
              else if 225 \<le> a \<and> a < 240 then continuation b \<and> continuation c \<and> utf8_valid r2
              else (case r2 of
                [] \<Rightarrow> False
              | d # r3 \<Rightarrow>
                  (a = 240 \<and> 144 \<le> b \<and> b < 192 \<or> 241 \<le> a \<and> a < 244 \<and> continuation b \<or>
                   a = 244 \<and> 128 \<le> b \<and> b < 144) \<and>
                  continuation c \<and> continuation d \<and> utf8_valid r3)))"

definition decode_utf8 :: "string \<Rightarrow> exn + string" where
  "decode_utf8 s =
     (if utf8_valid (map of_char s) then Inr s else Inl (Exn ValueError ''invalid utf-8''))"

section \<open>Base64\<close>

definition b64_alphabet :: string where
  "b64_alphabet = ''ABCDEFGHIJKLMNOPQRSTUVWXYZabcdefghijklmnopqrstuvwxyz0123456789+/''"

definition b64_char :: "nat \<Rightarrow> char" where
  "b64_char v = b64_alphabet ! v"

definition b64_value :: "char \<Rightarrow> nat option" where
  "b64_value c = map_of (zip b64_alphabet [0..<64]) c"

fun b64encode :: "string \<Rightarrow> string" where
  "b64encode [] = []"
| "b64encode [x] =
     (let a = of_char x :: nat in [b64_char (a div 4), b64_char (a mod 4 * 16), CHR ''='', CHR ''=''])"
| "b64encode [x, y] =
     (let a = of_char x :: nat; b = of_char y :: nat
      in [b64_char (a div 4), b64_char (a mod 4 * 16 + b div 16), b64_char (b mod 16 * 4), CHR ''=''])"
| "b64encode (x # y # z # r) =
     (let a = of_char x :: nat; b = of_char y :: nat; c = of_char z :: nat
      in [b64_char (a div 4), b64_char (a mod 4 * 16 + b div 16), b64_char (b mod 16 * 4 + c div 64),
          b64_char (c mod 64)] @ b64encode r)"

definition cons_byte :: "nat \<Rightarrow> exn + string \<Rightarrow> exn + string" where
  "cons_byte n r = (case r of Inl e \<Rightarrow> Inl e | Inr s \<Rightarrow> Inr (char_of n # s))"

text \<open>\<open>binascii.a2b_base64\<close> in its lenient mode: characters outside the alphabet are skipped, and
  padding that completes a group ends the input. The arguments are the position in the group, the bits
  left over, and the padding seen.\<close>

fun b64scan :: "nat \<Rightarrow> nat \<Rightarrow> nat \<Rightarrow> string \<Rightarrow> exn + string" where
  "b64scan q l p [] =
     (if q = 0 then Inr [] else Inl (Exn ValueError ''Incorrect padding''))"
| "b64scan q l p (c # cs) =
     (if c = CHR ''='' then
        (if 2 \<le> q \<and> 4 \<le> q + (p + 1) then Inr []
         else b64scan q l (if 2 \<le> q then p + 1 else p) cs)
      else case b64_value c of
        None \<Rightarrow> b64scan q l p cs
      | Some v \<Rightarrow>
          if q = 0 then b64scan 1 v 0 cs
          else if q = 1 then cons_byte (l * 4 + v div 16) (b64scan 2 (v mod 16) 0 cs)
          else if q = 2 then cons_byte (l * 16 + v div 4) (b64scan 3 (v mod 4) 0 cs)
          else cons_byte (l * 64 + v) (b64scan 0 0 0 cs))"

definition b64decode :: "string \<Rightarrow> exn + string" where
  "b64decode s = b64scan 0 0 0 s"

lemma b64_char_value:
  assumes "v < 64" shows "b64_value (b64_char v) = Some v" "b64_char v \<noteq> CHR ''=''"
proof -
  have "list_all (\<lambda>v. b64_value (b64_char v) = Some v \<and> b64_char v \<noteq> CHR ''='') [0..<64]"
    by code_simp
  with assms show "b64_value (b64_char v) = Some v" "b64_char v \<noteq> CHR ''=''"
    by (simp_all add: list_all_iff)
qed

lemma of_char_less: "(of_char c :: nat) < 256"
  using of_char_mod_256 [of c, where 'a = nat] by (metis mod_less_divisor zero_less_numeral)

lemma bits:
  fixes n :: nat
  assumes "n < 256"
  shows "n div 4 < 64" "n div 16 < 16" "n div 64 < 4" "n div 16 div 16 = 0" "n div 16 mod 16 = n div 16"
    "n div 64 div 4 = 0" "n div 64 mod 4 = n div 64"
  using assms by (simp_all add: div_less_iff_less_mult div_eq_0_iff)

lemma sextets:
  fixes m n :: nat
  shows "m mod 4 * 16 < 64" "m mod 16 * 4 < 64" "n < 256 \<Longrightarrow> m mod 4 * 16 + n div 16 < 64"
    "n < 256 \<Longrightarrow> m mod 16 * 4 + n div 64 < 64"
proof -
  have less: "m mod 4 < 4" "m mod 16 < 16" by simp_all
  then show "m mod 4 * 16 < 64" "m mod 16 * 4 < 64" by linarith+
  assume "n < 256"
  from less bits(2,3) [OF this] show "m mod 4 * 16 + n div 16 < 64" "m mod 16 * 4 + n div 64 < 64"
    by linarith+
qed

lemma b64_roundtrip: "b64decode (b64encode s) = Inr s"
  unfolding b64decode_def
  by (induction s rule: b64encode.induct)
    (simp_all add: Let_def b64_char_value sextets bits of_char_less cons_byte_def)

section \<open>Parts of a text\<close>

text \<open>\<open>partition\<close> and \<open>rpartition\<close>: the parts before and after the first or the last separator, and whether
  there is one.\<close>

definition partition_at :: "char \<Rightarrow> string \<Rightarrow> string \<times> bool \<times> string" where
  "partition_at c s =
     (let h = takeWhile (\<lambda>x. x \<noteq> c) s
      in if length h = length s then (s, False, []) else (h, True, drop (length h + 1) s))"

definition rpartition_at :: "char \<Rightarrow> string \<Rightarrow> string \<times> bool \<times> string" where
  "rpartition_at c s =
     (let t = takeWhile (\<lambda>x. x \<noteq> c) (rev s)
      in if length t = length s then ([], False, s)
         else (take (length s - length t - 1) s, True, rev t))"

lemma partition_at_found: "c \<notin> set h \<Longrightarrow> partition_at c (h @ c # t) = (h, True, t)"
proof -
  assume "c \<notin> set h"
  then have "takeWhile (\<lambda>x. x \<noteq> c) (h @ c # t) = h" by (induction h) auto
  then show ?thesis by (simp add: partition_at_def Let_def)
qed

lemma rpartition_at_found:
  assumes "c \<notin> set t"
  shows "rpartition_at c (h @ c # t) = (h, True, t)"
proof -
  have "takeWhile (\<lambda>x. x \<noteq> c) (u @ c # rev h) = u" if "c \<notin> set u" for u
    using that by (induction u) auto
  with assms have "takeWhile (\<lambda>x. x \<noteq> c) (rev (h @ c # t)) = rev t" by simp
  then show ?thesis by (simp add: rpartition_at_def Let_def)
qed

section \<open>Numbers\<close>

definition digit_value :: "char \<Rightarrow> int option" where
  "digit_value c = (let n = of_char c :: nat in if 48 \<le> n \<and> n \<le> 57 then Some (int n - 48) else None)"

text \<open>\<open>int(s)\<close>: digits, with single underscores between them.\<close>

fun digits_of :: "bool \<Rightarrow> int \<Rightarrow> string \<Rightarrow> int option" where
  "digits_of after_digit n [] = (if after_digit then Some n else None)"
| "digits_of after_digit n (c # cs) =
     (if c = CHR ''_'' \<and> after_digit then digits_of False n cs
      else case digit_value c of None \<Rightarrow> None | Some d \<Rightarrow> digits_of True (n * 10 + d) cs)"

definition int_of_text :: "string \<Rightarrow> exn + int" where
  "int_of_text s =
     (let t = strip s;
          r = (case t of
                 [] \<Rightarrow> None
               | c # cs \<Rightarrow>
                   if c = CHR ''-'' then map_option uminus (digits_of False 0 cs)
                   else if c = CHR ''+'' then digits_of False 0 cs
                   else digits_of False 0 t)
      in case r of None \<Rightarrow> Inl (Exn ValueError ''invalid literal for int()'') | Some i \<Rightarrow> Inr i)"

text \<open>What \<open>str\<close> writes, \<open>int\<close> reads.\<close>

lemma digit_value_nth: "d < 10 \<Longrightarrow> digit_value (''0123456789'' ! d) = Some (int d)"
  by (auto simp: digit_value_def less_Suc_eq numeral_eq_Suc)

lemma digit_not_underscore: "d < 10 \<Longrightarrow> ''0123456789'' ! d \<noteq> CHR ''_''"
  by (auto simp: less_Suc_eq numeral_eq_Suc)

lemma digits_of_append:
  "digits_of b n s = Some m \<Longrightarrow> s \<noteq> [] \<Longrightarrow> d < 10 \<Longrightarrow>
   digits_of b n (s @ [''0123456789'' ! d]) = Some (m * 10 + int d)"
proof (induction b n s rule: digits_of.induct)
  case (2 b n c cs)
  then show ?case
    by (cases cs) (auto simp: digit_value_nth digit_not_underscore split: if_splits option.splits)
qed simp

lemma digits_of_string_of_nat: "digits_of False 0 (string_of_nat n) = Some (int n)"
proof (induction n rule: string_of_nat.induct)
  case (1 n)
  show ?case
  proof (cases "n < 10")
    case True
    then show ?thesis
      by (simp add: string_of_nat.simps [of n] digit_value_nth digit_not_underscore)
  next
    case False
    have "string_of_nat (n div 10) \<noteq> []" by (subst string_of_nat.simps) simp
    with False "1.IH" digits_of_append [of False 0 "string_of_nat (n div 10)" _ "n mod 10"]
    have "digits_of False 0 (string_of_nat n) = Some (int (n div 10) * 10 + int (n mod 10))"
      by (simp add: string_of_nat.simps [of n])
    then show ?thesis by (simp add: zdiv_int zmod_int)
  qed
qed

lemma string_of_nat_digits: "set (string_of_nat n) \<subseteq> set ''0123456789''"
proof (induction n rule: string_of_nat.induct)
  case (1 n)
  have "n mod 10 < length ''0123456789''" "n < 10 \<Longrightarrow> n < length ''0123456789''" by simp_all
  then have "''0123456789'' ! (n mod 10) \<in> set ''0123456789''" "n < 10 \<Longrightarrow> ''0123456789'' ! n \<in> set ''0123456789''"
    by (blast intro: nth_mem)+
  with "1.IH" show ?case by (subst string_of_nat.simps) auto
qed

end
