(* ===== verification/Safety.thy ===== *)
theory Safety
  imports Models
begin

text \<open>
  The safety engine (\<open>backend/app/services/safety_engine.py\<close>): the risk score of a change
  request, the issues that block it, the approvals each risk level needs and the adjustment
  for raw remote execution. \<open>score_change_request\<close> runs the code's sections in their order
  on the four accumulators of the source; a section that would raise in Python raises here.
  The texts of risk factor descriptions are left out.
\<close>

section \<open>Static tables\<close>

definition approved_command_templates :: "string list" where
  "approved_command_templates =
     [''restart_service'', ''check_disk_usage'', ''rotate_log'', ''flush_dns_cache'',
      ''collect_support_bundle'']"

definition implicit_rollback_types :: "string list" where
  "implicit_rollback_types =
     [''ec2_stop'', ''ec2_start'', ''ec2_reboot'', ''ec2_stop_start'', ''ec2_launch'',
      ''ssm_command'', ''key_pair_create'', ''tailscale_join'', ''tailscale_remove'',
      ''tailscale_generate_auth_key'', ''deploy_nexplane_agent'', ''terraform_local_apply'',
      ''ansible_local_playbook'', ''snapshot_asset'', ''security_group_update'',
      ''iam_user_create'', ''s3_bucket_create'', ''s3_bucket_delete'',
      ''s3_lifecycle_configure'', ''route53_zone_create'', ''route53_record_upsert'',
      ''route53_record_delete'', ''cloudwatch_alarm_create'', ''cloudwatch_alarm_delete'',
      ''rds_instance_create'', ''rds_instance_delete'', ''rds_snapshot_create'',
      ''promote_db_replica'', ''verify_backup'', ''block_s3_public_access'',
      ''restore_s3_public_access'', ''capture_instance_state'', ''attach_iam_policy'',
      ''detach_iam_policy'', ''disable_iam_user'', ''enable_iam_user'', ''rotate_iam_key'',
      ''put_bucket_policy'', ''tag_resource'', ''remove_nexplane_agent'',
      ''dr_dns_failover_route53'', ''rds_replica_create'', ''gcp_firewall_create'',
      ''gcp_firewall_delete'', ''gcp_block_public_bucket_access'',
      ''gcp_disable_service_account'', ''gcp_rotate_service_account_key'',
      ''azure_update_nsg_rule'', ''azure_restore_nsg_rule'',
      ''azure_disable_public_blob_access'', ''azure_enable_public_blob_access'',
      ''azure_rotate_storage_key'', ''gce_instance_create'', ''gce_instance_delete'',
      ''gce_stop'', ''gce_start'', ''gce_instance_reboot'', ''gce_disk_snapshot'',
      ''azure_vm_create'', ''azure_vm_delete'', ''azure_vm_stop'', ''azure_vm_start'',
      ''azure_vm_reboot'', ''azure_vm_snapshot'', ''azure_vnet_create'', ''azure_vnet_delete'',
      ''azure_role_assignment_create'', ''azure_role_assignment_delete'',
      ''azure_blob_container_create'', ''azure_blob_container_delete'',
      ''azure_dns_zone_create'', ''azure_dns_zone_delete'', ''azure_dns_record_create'',
      ''azure_dns_record_delete'', ''azure_managed_identity_create'',
      ''azure_managed_identity_delete'', ''azure_metric_alert_create'',
      ''azure_metric_alert_delete'', ''azure_sql_server_create'', ''azure_sql_server_delete'',
      ''azure_sql_database_create'', ''azure_sql_database_delete'',
      ''azure_storage_account_create'', ''azure_storage_account_delete'',
      ''oci_instance_create'', ''oci_instance_stop'', ''oci_instance_start'',
      ''oci_instance_reboot'', ''oci_instance_delete'', ''oci_block_volume_snapshot'',
      ''oci_vcn_create'', ''oci_subnet_create'', ''oci_bucket_create'', ''oci_bucket_delete'',
      ''oci_bucket_lifecycle_set'', ''oci_bucket_block_public'', ''oci_block_volume_create'',
      ''oci_block_volume_attach'', ''oci_block_volume_detach'', ''oci_block_volume_delete'',
      ''oci_block_volume_backup'', ''oci_security_list_add_rule'',
      ''oci_security_list_remove_rule'', ''oci_nsg_create'', ''oci_nsg_delete'',
      ''oci_nsg_rule_add'', ''oci_nsg_rule_remove'', ''oci_load_balancer_create'',
      ''oci_load_balancer_delete'', ''oci_backend_set_create'', ''oci_listener_create'',
      ''oci_dns_zone_create'', ''oci_dns_record_upsert'', ''oci_iam_user_create'',
      ''oci_iam_user_delete'', ''oci_iam_user_disable'', ''oci_iam_user_enable'',
      ''oci_iam_group_create'', ''oci_iam_group_delete'', ''oci_iam_policy_create'',
      ''oci_iam_policy_delete'', ''oci_vault_secret_create'', ''oci_vault_secret_delete'',
      ''oci_compartment_create'', ''oci_compartment_delete'', ''agent_linux_patch'',
      ''agent_ossecurity'', ''agent_linuxauth'', ''agent_crossplatform'', ''agent_compliance'',
      ''agent_forensics'', ''agent_fleet'', ''agent_backup'', ''agent_reboot'',
      ''agent_credrotation'', ''agent_iac'', ''agent_linuxupgrade'', ''agent_win_patch'',
      ''agent_winharden'', ''alb_create'', ''alb_delete'', ''target_group_create'',
      ''target_group_delete'', ''listener_create'', ''listener_modify'', ''listener_delete'',
      ''register_targets'', ''deregister_targets'', ''agent_appdiscovery'',
      ''agent_containerize_build'', ''k8s_workload_deploy'', ''agent_containerize_retire'',
      ''agent_containerize_auto'', ''ssh_containerize_workload'', ''agent_os_upgrade'',
      ''oci_adb_create'', ''oci_adb_stop'', ''oci_adb_start'', ''oci_adb_delete'',
      ''oci_adb_backup'', ''oci_mysql_create'', ''oci_mysql_stop'', ''oci_mysql_start'',
      ''oci_mysql_delete'', ''oci_alarm_create'', ''oci_alarm_delete'', ''oci_logging_enable'',
      ''configure_seccomp'', ''configure_apparmor'', ''configure_selinux'',
      ''configure_ebpf_network'', ''configure_ebpf_lsm'', ''promote_ebpf_policy'',
      ''apply_sysctl_hardening'', ''deploy_auditd_rules'', ''setup_file_integrity_monitoring'',
      ''discover_applications'', ''deep_discover'', ''collect_forensics'', ''harden_ssh'',
      ''configure_ntp'', ''config_syslog'', ''estimate_size'', ''audit_software_inventory'',
      ''audit_cis_compliance'', ''db_major_version_upgrade'', ''k8s_cluster_upgrade'',
      ''windows_os_upgrade'', ''elasticsearch_upgrade'', ''opensearch_upgrade'',
      ''kafka_zk_to_kraft_bridge'', ''rabbitmq_upgrade'', ''java_runtime_upgrade'',
      ''python_runtime_upgrade'', ''ad_dc_parallel_upgrade'', ''linux_parallel_upgrade'',
      ''windows_parallel_migration'', ''ecs_rolling_deploy'',
      ''aws_account_baseline_monitoring'', ''gcp_account_baseline_monitoring'',
      ''azure_account_baseline_monitoring'', ''oci_account_baseline_monitoring'']"

section \<open>Scoring\<close>

record risk_factor =
  rf_name :: string
  rf_score :: int

record safety_review =
  sr_risk_level :: risk_level
  sr_risk_score :: int
  sr_risk_factors :: "risk_factor list"
  sr_blocking_issues :: "string list"
  sr_warnings :: "string list"

definition is_blocked :: "safety_review \<Rightarrow> bool" where
  "is_blocked r \<longleftrightarrow> length (sr_blocking_issues r) > 0"

text \<open>The local variables of \<open>score_change_request\<close>.\<close>

record score_acc =
  acc_score :: int
  acc_factors :: "risk_factor list"
  acc_blocking :: "string list"
  acc_warnings :: "string list"

definition score_to_level :: "int \<Rightarrow> risk_level" where
  "score_to_level score =
     (if score \<ge> 90 then RL_critical else if score \<ge> 60 then RL_high
      else if score \<ge> 30 then RL_medium else RL_low)"

definition add_factor :: "string \<Rightarrow> int \<Rightarrow> score_acc \<Rightarrow> score_acc" where
  "add_factor name n a =
     a\<lparr>acc_score := acc_score a + n,
       acc_factors := acc_factors a @ [\<lparr>rf_name = name, rf_score = n\<rparr>]\<rparr>"

definition add_blocking :: "string \<Rightarrow> score_acc \<Rightarrow> score_acc" where
  "add_blocking msg a = a\<lparr>acc_blocking := acc_blocking a @ [msg]\<rparr>"

definition add_warning :: "string \<Rightarrow> score_acc \<Rightarrow> score_acc" where
  "add_warning msg a = a\<lparr>acc_warnings := acc_warnings a @ [msg]\<rparr>"

definition prod_assets :: "asset list \<Rightarrow> asset list" where
  "prod_assets assets = filter (\<lambda>a. asset_environment a = Env_prod) assets"

definition critical_assets :: "asset list \<Rightarrow> asset list" where
  "critical_assets assets = filter (\<lambda>a. asset_criticality a = Crit_critical) assets"

definition high_assets :: "asset list \<Rightarrow> asset list" where
  "high_assets assets = filter (\<lambda>a. asset_criticality a = Crit_high) assets"

definition score_assets :: "asset list \<Rightarrow> score_acc \<Rightarrow> score_acc" where
  "score_assets assets a =
     (let a1 = (if prod_assets assets \<noteq> []
                then add_factor ''production_environment'' (30 * int (length (prod_assets assets))) a
                else a)
      in if critical_assets assets \<noteq> []
         then add_factor ''critical_asset'' (35 * int (length (critical_assets assets))) a1
         else if high_assets assets \<noteq> []
         then add_factor ''high_criticality_asset'' (20 * int (length (high_assets assets))) a1
         else a1)"

text \<open>\<open>template_id not in APPROVED_COMMAND_TEMPLATES\<close>: looking a list or a dictionary up in a
  dictionary raises \<open>TypeError\<close>; any other value that is not a template name is absent.\<close>

fun approved_template :: "pyval \<Rightarrow> exn + bool" where
  "approved_template (PStr s) = Inr (s \<in> set approved_command_templates)"
| "approved_template (PList _) = Inl (Exn TypeError ''unhashable type: list'')"
| "approved_template (PDict _) = Inl (Exn TypeError ''unhashable type: dict'')"
| "approved_template _ = Inr False"

definition unapproved_template_issue :: string where
  "unapproved_template_issue =
     ''Remote command requests must use an approved command template. Available templates: '' @
     ''restart_service, check_disk_usage, rotate_log, flush_dns_cache, collect_support_bundle''"

definition freeform_issue :: string where
  "freeform_issue =
     ''Freeform shell commands are not permitted. Use a parameterized template.''"

definition score_command :: "change_request \<Rightarrow> score_acc \<Rightarrow> exn + score_acc" where
  "score_command cr a =
     (if cr_change_type cr = ''remote_command'' then
        (let desired = cr_desired_outcome cr;
             template_id = dget_or desired ''template_id'' PNone
         in if \<not> truthy template_id then Inr (add_blocking unapproved_template_issue a)
            else case approved_template template_id of
              Inl e \<Rightarrow> Inl e
            | Inr ok \<Rightarrow>
                Inr (if \<not> ok then add_blocking unapproved_template_issue a
                     else if truthy (dget_or desired ''freeform_command'' PNone)
                     then add_blocking freeform_issue a
                     else add_factor ''remote_command_execution'' 25 a))
      else if cr_change_type cr = ''ssm_command'' then
        Inr (add_factor ''ssm_command_execution'' 20 a)
      else Inr a)"

definition score_microsegmentation :: "change_request \<Rightarrow> score_acc \<Rightarrow> score_acc" where
  "score_microsegmentation cr a =
     (if cr_change_type cr = ''microsegmentation_policy'' then
        (let a1 = add_factor ''microsegmentation_policy'' 20 a
         in if length (cr_target_asset_ids cr) > 10
            then add_factor ''large_blast_radius'' 25 a1 else a1)
      else a)"

definition score_warnings :: "change_request \<Rightarrow> asset list \<Rightarrow> score_acc \<Rightarrow> score_acc" where
  "score_warnings cr assets a =
     (let a1 = (if cr_change_type cr = ''security_group_update'' \<and> prod_assets assets \<noteq> []
                then add_warning (''Security group changes in production require careful '' @
                       ''verification of inbound/outbound rules.'') a
                else a)
      in if cr_change_type cr = ''key_rotation''
         then add_warning (''Ensure all consumers of the rotated key are updated before '' @
                ''revoking the old key.'') a1
         else a1)"

definition rollback_required_issue :: string where
  "rollback_required_issue =
     ''A rollback strategy is required for changes targeting production or critical assets.''"

definition score_rollback :: "change_request \<Rightarrow> asset list \<Rightarrow> score_acc \<Rightarrow> score_acc" where
  "score_rollback cr assets a =
     (if \<not> truthy (dget_or (cr_desired_outcome cr) ''rollback_strategy'' PNone) \<and>
         cr_change_type cr \<notin> set implicit_rollback_types
      then (let a1 = add_factor ''no_rollback_strategy'' 30 a
            in if prod_assets assets \<noteq> [] \<or> critical_assets assets \<noteq> []
               then add_blocking rollback_required_issue a1 else a1)
      else a)"

definition score_discount :: "asset list \<Rightarrow> int \<Rightarrow> int" where
  "score_discount assets score =
     (let dev_staging_only =
            list_all (\<lambda>a. asset_environment a = Env_dev \<or> asset_environment a = Env_staging) assets;
          low_med_crit =
            list_all (\<lambda>a. asset_criticality a = Crit_low \<or> asset_criticality a = Crit_medium) assets
      in if dev_staging_only \<and> low_med_crit \<and> assets = [] then max (score - 20) 0 else score)"

definition score_change_request :: "change_request \<Rightarrow> asset list \<Rightarrow> exn + safety_review" where
  "score_change_request cr assets =
     (let a0 = \<lparr>acc_score = 0, acc_factors = [], acc_blocking = [], acc_warnings = []\<rparr>;
          a1 = score_assets assets a0
      in case score_command cr a1 of
           Inl e \<Rightarrow> Inl e
         | Inr a2 \<Rightarrow>
             (let a3 = score_microsegmentation cr a2;
                  a4 = score_warnings cr assets a3;
                  a5 = score_rollback cr assets a4;
                  score = score_discount assets (acc_score a5)
              in Inr \<lparr>sr_risk_level = score_to_level score, sr_risk_score = score,
                      sr_risk_factors = acc_factors a5, sr_blocking_issues = acc_blocking a5,
                      sr_warnings = acc_warnings a5\<rparr>))"

section \<open>Approval requirements\<close>

record approval_requirement =
  req_min_approvals :: nat
  req_required_roles :: "user_role list"
  req_must_include :: "user_role list option"
  req_no_auto_execute :: bool

fun approval_requirements :: "risk_level \<Rightarrow> approval_requirement" where
  "approval_requirements RL_low =
     \<lparr>req_min_approvals = 1, req_required_roles = [UR_security_operator, UR_admin],
      req_must_include = None, req_no_auto_execute = False\<rparr>"
| "approval_requirements RL_medium =
     \<lparr>req_min_approvals = 1, req_required_roles = [UR_approver, UR_admin],
      req_must_include = None, req_no_auto_execute = False\<rparr>"
| "approval_requirements RL_high =
     \<lparr>req_min_approvals = 2, req_required_roles = [UR_approver, UR_admin],
      req_must_include = Some [UR_approver, UR_admin], req_no_auto_execute = False\<rparr>"
| "approval_requirements RL_critical =
     \<lparr>req_min_approvals = 2, req_required_roles = [UR_approver, UR_admin],
      req_must_include = Some [UR_approver, UR_admin], req_no_auto_execute = True\<rparr>"

record approval_check =
  ac_satisfied :: bool
  ac_approvals_received :: nat
  ac_approvals_required :: nat
  ac_no_auto_execute :: bool

definition approver_roles :: "approval list \<Rightarrow> user_role list" where
  "approver_roles approved =
     (let roles = map (\<lambda>a. user_role (ap_approver a)) approved
      in if UR_admin \<in> set roles then roles @ [UR_approver, UR_security_operator] else roles)"

definition check_approval_requirements :: "risk_level \<Rightarrow> approval list \<Rightarrow> approval_check" where
  "check_approval_requirements rl approvals =
     (let approved_decisions = filter (\<lambda>a. ap_decision a = AD_approved) approvals;
          roles = approver_roles approved_decisions;
          req = approval_requirements rl;
          effective_min = (if UR_admin \<in> set roles then 1 else req_min_approvals req);
          met = (length approved_decisions \<ge> effective_min);
          met1 = (if met \<and> req_must_include req = None then
                    (if req_required_roles req \<noteq> [] \<and>
                        \<not> list_ex (\<lambda>r. r \<in> set roles) (req_required_roles req)
                     then False else met)
                  else met);
          met2 = (case req_must_include req of
                    None \<Rightarrow> met1
                  | Some must \<Rightarrow> (if list_ex (\<lambda>r. r \<notin> set roles) must then False else met1))
      in \<lparr>ac_satisfied = met2, ac_approvals_received = length approved_decisions,
          ac_approvals_required = req_min_approvals req,
          ac_no_auto_execute = req_no_auto_execute req\<rparr>)"

section \<open>Adjustment for the execution plan\<close>

text \<open>\<open>s.get("execution_tier", 1)\<close>, compared by \<open>max\<close>: the tiers of a generated plan are
  integers.\<close>

definition step_tier :: "pydict \<Rightarrow> int" where
  "step_tier s = (case dget s ''execution_tier'' of Some (PInt i) \<Rightarrow> i | _ \<Rightarrow> 1)"

definition adjust_for_execution_plan :: "safety_review \<Rightarrow> pydict list \<Rightarrow> safety_review" where
  "adjust_for_execution_plan r steps =
     (let max_tier = (case steps of [] \<Rightarrow> 1 | s # ss \<Rightarrow> fold max (map step_tier ss) (step_tier s))
      in if max_tier < 5 then r
         else (let new_score = sr_risk_score r + 25
               in r\<lparr>sr_risk_score := new_score, sr_risk_level := score_to_level new_score,
                    sr_risk_factors := sr_risk_factors r @
                      [\<lparr>rf_name = ''raw_remote_command_tier'', rf_score = 25\<rparr>]\<rparr>))"

section \<open>Accounting of the score\<close>

text \<open>Every section adds to the score exactly what it adds to the factors, and never a
  negative amount.\<close>

definition accounted :: "score_acc \<Rightarrow> bool" where
  "accounted a \<longleftrightarrow> acc_score a = sum_list (map rf_score (acc_factors a)) \<and>
     (\<forall>f \<in> set (acc_factors a). 0 \<le> rf_score f)"

lemma accounted_add_factor [simp]: "accounted a \<Longrightarrow> 0 \<le> n \<Longrightarrow> accounted (add_factor name n a)"
  by (auto simp: accounted_def add_factor_def)

lemma accounted_add_blocking [simp]: "accounted (add_blocking m a) = accounted a"
  by (simp add: accounted_def add_blocking_def)

lemma accounted_add_warning [simp]: "accounted (add_warning m a) = accounted a"
  by (simp add: accounted_def add_warning_def)

lemma accounted_sections:
  "accounted a \<Longrightarrow> accounted (score_assets assets a)"
  "accounted a \<Longrightarrow> score_command cr a = Inr b \<Longrightarrow> accounted b"
  "accounted a \<Longrightarrow> accounted (score_microsegmentation cr a)"
  "accounted a \<Longrightarrow> accounted (score_warnings cr assets a)"
  "accounted a \<Longrightarrow> accounted (score_rollback cr assets a)"
  by (auto simp: score_assets_def score_command_def score_microsegmentation_def
        score_warnings_def score_rollback_def Let_def split: if_splits sum.splits)

lemma accounted_nonneg: "accounted a \<Longrightarrow> 0 \<le> acc_score a"
  by (auto simp: accounted_def intro!: sum_list_nonneg)

text \<open>The issues each section adds.\<close>

lemma blocking_add [simp]:
  "acc_blocking (add_factor name n a) = acc_blocking a"
  "acc_blocking (add_warning m a) = acc_blocking a"
  "acc_blocking (add_blocking m a) = acc_blocking a @ [m]"
  by (simp_all add: add_factor_def add_warning_def add_blocking_def)

lemma blocking_unchanged [simp]:
  "acc_blocking (score_assets assets a) = acc_blocking a"
  "acc_blocking (score_microsegmentation cr a) = acc_blocking a"
  "acc_blocking (score_warnings cr assets a) = acc_blocking a"
  by (auto simp: score_assets_def score_microsegmentation_def score_warnings_def Let_def)

text \<open>The two reasons for which a change request is blocked.\<close>

definition command_refused :: "change_request \<Rightarrow> bool" where
  "command_refused cr \<longleftrightarrow> cr_change_type cr = ''remote_command'' \<and>
     ((\<forall>s \<in> set approved_command_templates.
         dget (cr_desired_outcome cr) ''template_id'' \<noteq> Some (PStr s)) \<or>
      truthy (dget_or (cr_desired_outcome cr) ''freeform_command'' PNone))"

definition rollback_missing :: "change_request \<Rightarrow> asset list \<Rightarrow> bool" where
  "rollback_missing cr assets \<longleftrightarrow>
     \<not> truthy (dget_or (cr_desired_outcome cr) ''rollback_strategy'' PNone) \<and>
     cr_change_type cr \<notin> set implicit_rollback_types \<and>
     (\<exists>a \<in> set assets. asset_environment a = Env_prod \<or> asset_criticality a = Crit_critical)"

lemma prod_or_critical_nonempty:
  "(prod_assets assets \<noteq> [] \<or> critical_assets assets \<noteq> []) \<longleftrightarrow>
   (\<exists>a \<in> set assets. asset_environment a = Env_prod \<or> asset_criticality a = Crit_critical)"
  by (auto simp: prod_assets_def critical_assets_def filter_empty_conv)

lemma approved_template_True:
  "approved_template v = Inr True \<longleftrightarrow> (\<exists>s \<in> set approved_command_templates. v = PStr s)"
  by (cases v) auto

lemma approved_template_nonempty: "[] \<notin> set approved_command_templates"
  by (simp add: approved_command_templates_def)

lemma score_command_blocking:
  assumes "score_command cr a = Inr b"
  shows "acc_blocking b \<noteq> acc_blocking a \<longleftrightarrow> command_refused cr"
    and "\<exists>ms. acc_blocking b = acc_blocking a @ ms"
proof -
  let ?t = "dget_or (cr_desired_outcome cr) ''template_id'' PNone"
  have tmpl: "(\<exists>s \<in> set approved_command_templates.
                 dget (cr_desired_outcome cr) ''template_id'' = Some (PStr s)) \<longleftrightarrow>
              truthy ?t \<and> approved_template ?t = Inr True"
    using approved_template_nonempty
    by (auto simp: dget_or_def approved_template_True split: option.splits)
  show "acc_blocking b \<noteq> acc_blocking a \<longleftrightarrow> command_refused cr"
    using assms tmpl
    by (auto simp: score_command_def command_refused_def Let_def split: if_splits sum.splits)
  show "\<exists>ms. acc_blocking b = acc_blocking a @ ms"
    using assms by (auto simp: score_command_def Let_def split: if_splits sum.splits)
qed

lemma score_rollback_blocking:
  "acc_blocking (score_rollback cr assets a) =
     acc_blocking a @ (if rollback_missing cr assets then [rollback_required_issue] else [])"
  using prod_or_critical_nonempty [of assets]
  by (auto simp: score_rollback_def rollback_missing_def Let_def)

text \<open>risk accounting. The score of a review is the sum of the scores of the factors it
  lists, less the discount of twenty that the code gives only when the request targets no
  asset at all; the level is the level of that score and the score is never negative.\<close>

theorem risk_score_accounts_for_factors:
  assumes "score_change_request cr assets = Inr r"
  shows "sr_risk_score r = (let total = sum_list (map rf_score (sr_risk_factors r))
                            in if assets = [] then max (total - 20) 0 else total) \<and>
         sr_risk_level r = score_to_level (sr_risk_score r) \<and> 0 \<le> sr_risk_score r"
proof -
  let ?a0 = "\<lparr>acc_score = 0, acc_factors = [], acc_blocking = [], acc_warnings = []\<rparr>"
  obtain a2 where a2: "score_command cr (score_assets assets ?a0) = Inr a2"
    using assms by (auto simp: score_change_request_def Let_def split: sum.splits)
  define a5 where
    "a5 = score_rollback cr assets (score_warnings cr assets (score_microsegmentation cr a2))"
  have "accounted ?a0" by (simp add: accounted_def)
  then have acc: "accounted a5"
    using a2 accounted_sections by (metis a5_def)
  have r: "r = \<lparr>sr_risk_level = score_to_level (score_discount assets (acc_score a5)),
      sr_risk_score = score_discount assets (acc_score a5), sr_risk_factors = acc_factors a5,
      sr_blocking_issues = acc_blocking a5, sr_warnings = acc_warnings a5\<rparr>"
    using assms a2 by (simp add: score_change_request_def Let_def a5_def)
  have level: "sr_risk_level r = score_to_level (sr_risk_score r)" by (simp add: r)
  have "acc_score a5 = sum_list (map rf_score (acc_factors a5))"
    using acc by (simp add: accounted_def)
  then have "sr_risk_score r = (let total = sum_list (map rf_score (sr_risk_factors r))
                            in if assets = [] then max (total - 20) 0 else total)"
    by (simp add: r score_discount_def Let_def)
  moreover have "0 \<le> sr_risk_score r"
    using accounted_nonneg [OF acc] by (simp add: r score_discount_def Let_def)
  ultimately show ?thesis using level by blast
qed

definition example_cr :: change_request where
  "example_cr =
     \<lparr>cr_id = ''cr-1'', cr_organization_id = ''org'', cr_requester_id = ''u-1'',
      cr_change_type = ''dns_update'', cr_target_asset_ids = [''a-1''],
      cr_desired_outcome = [], cr_risk_level = RL_medium, cr_status = CRS_draft,
      cr_verification_status = None, cr_source = None, cr_snapshot_before = False,
      cr_verification_checks = [], cr_priority = ''normal'', cr_stateful_approved_at = None,
      cr_execute_at = None, cr_application_sequence = None, cr_applied_at = None,
      cr_updated_at = 0, cr_created_at = 0, cr_scheduled_rollback_cr_id = None\<rparr>"

definition example_asset :: asset where
  "example_asset =
     \<lparr>asset_id = ''a-1'', asset_organization_id = ''org'', asset_name = ''db'', asset_type = ''server'',
      asset_environment = Env_prod, asset_criticality = Crit_low, asset_tags = [],
      asset_connectors = [], asset_connector_id = None, asset_metadata = []\<rparr>"

definition example_review :: safety_review where
  "example_review =
     \<lparr>sr_risk_level = RL_high, sr_risk_score = 60,
      sr_risk_factors = [\<lparr>rf_name = ''production_environment'', rf_score = 30\<rparr>,
                         \<lparr>rf_name = ''no_rollback_strategy'', rf_score = 30\<rparr>],
      sr_blocking_issues = [rollback_required_issue], sr_warnings = []\<rparr>"

lemma dns_update_not_implicit: "''dns_update'' \<notin> set implicit_rollback_types"
  by (simp add: implicit_rollback_types_def)

lemma example_review:
  "score_change_request example_cr [example_asset] = Inr example_review"
  by (simp add: score_change_request_def example_cr_def example_asset_def example_review_def
      score_assets_def prod_assets_def critical_assets_def high_assets_def score_command_def
      score_microsegmentation_def score_warnings_def score_rollback_def score_discount_def
      add_factor_def add_blocking_def score_to_level_def Let_def dns_update_not_implicit)

theorem risk_score_accounts_for_factors_witness:
  "sr_risk_score example_review = 60 \<and> sr_risk_level example_review = score_to_level 60"
  using risk_score_accounts_for_factors [OF example_review]
  by (simp add: example_review_def)

text \<open>what blocks a plan. A review blocks exactly when the request is a remote command
  without an approved template or with a freeform command, or when a request that targets a
  production or critical asset names no rollback strategy and its type has no implicit
  one.\<close>

theorem blocked_iff:
  assumes "score_change_request cr assets = Inr r"
  shows "is_blocked r \<longleftrightarrow> command_refused cr \<or> rollback_missing cr assets"
proof -
  let ?a0 = "\<lparr>acc_score = 0, acc_factors = [], acc_blocking = [], acc_warnings = []\<rparr>"
  obtain a2 where a2: "score_command cr (score_assets assets ?a0) = Inr a2"
    using assms by (auto simp: score_change_request_def Let_def split: sum.splits)
  have b2: "acc_blocking a2 \<noteq> [] \<longleftrightarrow> command_refused cr"
    using score_command_blocking(1) [OF a2] by simp
  have "sr_blocking_issues r =
      acc_blocking a2 @ (if rollback_missing cr assets then [rollback_required_issue] else [])"
    using assms a2
    by (auto simp: score_change_request_def Let_def score_rollback_blocking)
  with b2 show ?thesis by (simp add: is_blocked_def)
qed

theorem blocked_iff_witness: "is_blocked example_review \<and> rollback_missing example_cr [example_asset]"
proof -
  have "\<not> command_refused example_cr" by (simp add: command_refused_def example_cr_def)
  moreover have "is_blocked example_review" by (simp add: is_blocked_def example_review_def)
  ultimately show ?thesis using blocked_iff [OF example_review] by simp
qed

section \<open>Who can approve what\<close>

definition approved_by_role :: "user_role \<Rightarrow> approval list \<Rightarrow> bool" where
  "approved_by_role role approvals \<longleftrightarrow>
     (\<exists>a \<in> set approvals. ap_decision a = AD_approved \<and> user_role (ap_approver a) = role)"

lemma approver_roles_mem:
  "r \<in> set (approver_roles xs) \<longleftrightarrow>
     (\<exists>a \<in> set xs. user_role (ap_approver a) = r) \<or>
     (r \<in> {UR_approver, UR_security_operator} \<and> (\<exists>a \<in> set xs. user_role (ap_approver a) = UR_admin))"
proof -
  have "UR_admin \<in> set (map (\<lambda>a. user_role (ap_approver a)) xs) \<longleftrightarrow>
      (\<exists>a \<in> set xs. user_role (ap_approver a) = UR_admin)"
    by force
  then show ?thesis by (auto simp: approver_roles_def Let_def)
qed

lemma approved_roles:
  "r \<in> set (approver_roles (filter (\<lambda>a. ap_decision a = AD_approved) approvals)) \<longleftrightarrow>
     approved_by_role r approvals \<or>
     (r \<in> {UR_approver, UR_security_operator} \<and> approved_by_role UR_admin approvals)"
  by (auto simp: approver_roles_mem approved_by_role_def)

lemma approved_by_role_nonempty:
  "approved_by_role r approvals \<Longrightarrow>
     Suc 0 \<le> length (filter (\<lambda>a. ap_decision a = AD_approved) approvals)"
  by (fastforce simp: approved_by_role_def filter_empty_conv Suc_le_eq length_greater_0_conv)


section \<open>Raw remote execution\<close>

lemma score_to_level_mono: "a \<le> b \<Longrightarrow> score_to_level a \<le> score_to_level b"
  by (auto simp: score_to_level_def less_eq_risk_level_def)

text \<open>the adjustment for raw remote execution. It adds twenty-five to the score and the
  factor that accounts for it exactly when some step of the plan uses tier five or above, and
  it never lowers the risk level of a review whose level matches its score.\<close>

theorem adjust_for_execution_plan_correct:
  assumes "sr_risk_level r = score_to_level (sr_risk_score r)"
  shows "sr_risk_score (adjust_for_execution_plan r steps) =
           sr_risk_score r + (if \<exists>s \<in> set steps. 5 \<le> step_tier s then 25 else 0) \<and>
         sr_risk_level r \<le> sr_risk_level (adjust_for_execution_plan r steps) \<and>
         sum_list (map rf_score (sr_risk_factors (adjust_for_execution_plan r steps))) -
           sr_risk_score (adjust_for_execution_plan r steps) =
         sum_list (map rf_score (sr_risk_factors r)) - sr_risk_score r"
proof -
  have tier: "(case steps of [] \<Rightarrow> 1 | s # ss \<Rightarrow> fold max (map step_tier ss) (step_tier s)) < 5
      \<longleftrightarrow> \<not> (\<exists>s \<in> set steps. 5 \<le> step_tier s)"
    by (cases steps) (auto simp: not_le [symmetric] fold_max_ge)
  have "sr_risk_level r \<le> sr_risk_level (adjust_for_execution_plan r steps)"
    using assms by (auto simp: adjust_for_execution_plan_def Let_def intro!: score_to_level_mono)
  with tier show ?thesis
    by (auto simp: adjust_for_execution_plan_def Let_def)
qed

theorem adjust_for_execution_plan_witness:
  "sr_risk_score (adjust_for_execution_plan example_review [[(''execution_tier'', PInt 5)]]) = 85"
  using adjust_for_execution_plan_correct
    [of example_review "[[(''execution_tier'', PInt 5)]]"]
  by (simp add: example_review_def score_to_level_def step_tier_def)

end
