(* ===== verification/Planning.thy ===== *)
theory Planning
  imports Safety Catalog
begin

text \<open>
  The planning engine (\<open>backend/app/services/planning_engine.py\<close>): from a change request, its
  assets and its safety review to the steps, checks and rollback plan of a change plan. The JSON
  definitions of the change types are data and so the parameter \<open>defs\<close>; the catalog and the
  importer are those of theory Catalog. Texts meant for people (the intent summary of a cluster
  upgrade, the wording of errors) are left out or shortened.
\<close>

section \<open>Parameters of a step\<close>

definition resolvers :: "pydict \<Rightarrow> (string \<times> pydict) list" where
  "resolvers desired =
    [
     (''capture_dns_record'',
       [(''record_name'', dget_or desired ''record_name'' (PStr [])),
        (''record_type'', dget_or desired ''record_type'' (PStr ''A''))]),
     (''validate_dns_target'',
       [(''new_value'', dget_or desired ''new_value'' (PStr []))]),
     (''wait_dns_propagation'',
       [(''ttl'', dget_or desired ''ttl'' (PInt 300))]),
     (''restore_dns_record'',
       [(''record_name'', dget_or desired ''record_name'' (PStr []))]),
     (''health_check'',
       [(''instance_name'', dget_or desired ''instance_name'' (PStr [])),
        (''zone'', dget_or desired ''zone'' (PStr [])),
        (''instance_id'', dget_or desired ''instance_id'' (PStr [])),
        (''vm_name'', dget_or desired ''vm_name'' (dget_or desired ''instance_name'' (PStr []))),
        (''resource_group'', dget_or desired ''resource_group'' (PStr []))]),
     (''wait_vm_state'',
       [(''vm_name'', dget_or desired ''vm_name'' (dget_or desired ''instance_name'' (PStr []))),
        (''resource_group'', dget_or desired ''resource_group'' (PStr [])),
        (''target_state'', dget_or desired ''target_state'' (PStr ''running''))]),
     (''capture_vm_state'',
       [(''vm_name'', dget_or desired ''vm_name'' (dget_or desired ''instance_name'' (PStr []))),
        (''resource_group'', dget_or desired ''resource_group'' (PStr []))]),
     (''create_snapshot'',
       [(''snapshot_tag'', dget_or desired ''snapshot_tag'' (PStr ''nexplane-managed'')),
        (''volume_id'', dget_or desired ''volume_id'' (PStr [])),
        (''instance_id'', dget_or desired ''instance_id'' (PStr []))]),
     (''create_ebs_snapshot'',
       [(''volume_id'', PStr []),
        (''backup_name'', dget_or desired ''snapshot_tag'' (PStr ''nexplane-pre-stop''))]),
     (''verify_snapshot'',
       []),
     (''export_security_group'',
       [(''group_id'', dget_or desired ''group_id'' (PStr []))]),
     (''validate_security_rules'',
       [(''rules'', dget_or desired ''rules'' (PList []))]),
     (''update_security_group'',
       [(''group_id'', dget_or desired ''group_id'' (PStr [])),
        (''rules'', dget_or desired ''rules'' (PList []))]),
     (''restore_security_group'',
       []),
     (''generate_key'',
       [(''service'', dget_or desired ''service'' (PStr [])),
        (''key_type'', dget_or desired ''key_type'' (PStr ''api_key''))]),
     (''distribute_key'',
       [(''consumers'', dget_or desired ''consumers'' (PList []))]),
     (''verify_consumers'',
       [(''consumers'', dget_or desired ''consumers'' (PList []))]),
     (''schedule_revoke'',
       [(''grace_period_hours'', dget_or desired ''grace_period_hours'' (PInt 24))]),
     (''cancel_revoke'',
       []),
     (''check_prerequisites'',
       []),
     (''download_package'',
       [(''agent_type'', dget_or desired ''agent_type'' (PStr [])),
        (''agent_version'', dget_or desired ''agent_version'' (PStr ''8.12.0''))]),
     (''install_agent'',
       [(''agent_type'', dget_or desired ''agent_type'' (PStr [])),
        (''agent_config'', dget_or desired ''agent_config'' (PDict []))]),
     (''uninstall_agent'',
       []),
     (''start_service'',
       [(''agent_type'', dget_or desired ''agent_type'' (PStr []))]),
     (''validate_template'',
       [(''template_id'', dget_or desired ''template_id'' (PStr [])),
        (''parameters'', dget_or desired ''parameters'' (PDict []))]),
     (''execute_template'',
       [(''template_id'', dget_or desired ''template_id'' (PStr [])),
        (''parameters'', dget_or desired ''parameters'' (PDict []))]),
     (''collect_output'',
       []),
     (''analyze_flows'',
       []),
     (''generate_diff'',
       [(''policy_rules'', dget_or desired ''policy_rules'' (PList []))]),
     (''stage_policy'',
       [(''policy_rules'', dget_or desired ''policy_rules'' (PList [])),
        (''critical_flows'', dget_or desired ''critical_flows'' (PList []))]),
     (''remove_staged_policy'',
       []),
     (''validate_staged'',
       [(''critical_flows'', dget_or desired ''critical_flows'' (PList []))]),
     (''capture_instance_state'',
       [(''instance_id'', dget_or desired ''instance_id'' (PStr [])),
        (''instance_name'', dget_or desired ''instance_name'' (PStr [])),
        (''zone'', dget_or desired ''zone'' (PStr []))]),
     (''stop_instance'',
       [(''instance_id'', dget_or desired ''instance_id'' (PStr [])),
        (''instance_name'', dget_or desired ''instance_name'' (PStr [])),
        (''zone'', dget_or desired ''zone'' (PStr []))]),
     (''start_instance'',
       [(''instance_id'', dget_or desired ''instance_id'' (PStr [])),
        (''instance_name'', dget_or desired ''instance_name'' (PStr [])),
        (''zone'', dget_or desired ''zone'' (PStr []))]),
     (''reboot_instance'',
       [(''instance_id'', dget_or desired ''instance_id'' (PStr [])),
        (''instance_name'', dget_or desired ''instance_name'' (PStr [])),
        (''zone'', dget_or desired ''zone'' (PStr []))]),
     (''terminate_instance'',
       [(''instance_id'', dget_or desired ''instance_id'' (PStr [])),
        (''instance_name'', dget_or desired ''instance_name'' (PStr [])),
        (''zone'', dget_or desired ''zone'' (PStr [])),
        (''confirm_terminate'', dget_or desired ''confirm_terminate'' (PBool False))]),
     (''wait_instance_state'',
       [(''instance_id'', dget_or desired ''instance_id'' (PStr [])),
        (''instance_name'', dget_or desired ''instance_name'' (PStr [])),
        (''zone'', dget_or desired ''zone'' (PStr [])),
        (''target_state'', dget_or desired ''target_state'' (PStr ''running''))]),
     (''resolve_launch_config'',
       [(''mode'', dget_or desired ''mode'' (PStr ''quick'')),
        (''name'', dget_or desired ''name'' (PStr ''nexplane-instance'')),
        (''os'', dget_or desired ''os'' (PStr ''amazon_linux'')),
        (''source_instance_id'', dget_or desired ''source_instance_id'' (PNone)),
        (''ami_id'', dget_or desired ''ami_id'' (PNone)),
        (''instance_type'', dget_or desired ''instance_type'' (PNone)),
        (''subnet_id'', dget_or desired ''subnet_id'' (PNone)),
        (''security_group_ids'', dget_or desired ''security_group_ids'' (PList [])),
        (''iam_instance_profile'', dget_or desired ''iam_instance_profile'' (PStr [])),
        (''key_name'', dget_or desired ''key_name'' (PStr []))]),
     (''launch_instance'',
       [(''ami_id'', dget_or desired ''ami_id'' (PStr [])),
        (''instance_type'', dget_or desired ''instance_type'' (PStr [])),
        (''subnet_id'', dget_or desired ''subnet_id'' (PStr [])),
        (''security_group_ids'', dget_or desired ''security_group_ids'' (PList [])),
        (''name'', dget_or desired ''name'' (PStr ''nexplane-instance'')),
        (''iam_instance_profile'', dget_or desired ''iam_instance_profile'' (PStr [])),
        (''key_name'', dget_or desired ''key_name'' (PStr []))]),
     (''create_key_pair'',
       [(''key_name'', dget_or desired ''key_name'' (PStr ''nexplane-key''))]),
     (''delete_key_pair'',
       [(''key_name'', dget_or desired ''key_name'' (PStr []))]),
     (''run_ssm_command'',
       [(''instance_id'', dget_or desired ''instance_id'' (PStr [])),
        (''document_name'', dget_or desired ''document_name'' (PStr ''AWS-RunShellScript'')),
        (''parameters'', PDict [(''commands'', PList [dget_or desired ''command'' (PStr ''echo hello'')])])]),
     (''tailscale_join'',
       [(''instance_id'', dget_or desired ''instance_id'' (PStr [])),
        (''auth_key'', dget_or desired ''auth_key'' (PStr [])),
        (''hostname'', dget_or desired ''hostname'' (PStr []))]),
     (''tailscale_remove'',
       [(''instance_id'', dget_or desired ''instance_id'' (PStr []))]),
     (''tailscale_generate_auth_key'',
       [(''expiry_seconds'', dget_or desired ''expiry_seconds'' (PInt 86400)),
        (''reusable'', dget_or desired ''reusable'' (PBool False)),
        (''ephemeral'', dget_or desired ''ephemeral'' (PBool False)),
        (''tags'', dget_or desired ''tags'' (PList [])),
        (''force_generate'', dget_or desired ''force_generate'' (PBool False))]),
     (''deploy_nexplane_agent'',
       [(''instance_id'', dget_or desired ''instance_id'' (PStr [])),
        (''nexplane_url'', dget_or desired ''nexplane_url'' (PStr [])),
        (''nexplane_secret'', dget_or desired ''nexplane_secret'' (PStr [])),
        (''hostname'', dget_or desired ''hostname'' (PStr [])),
        (''download_url'', dget_or desired ''download_url'' (PStr []))]),
     (''remove_nexplane_agent'',
       [(''instance_id'', dget_or desired ''instance_id'' (PStr []))]),
     (''terraform_plan_local'',
       [(''tf_content'', dget_or desired ''tf_content'' (PStr [])),
        (''working_dir'', dget_or desired ''working_dir'' (PStr []))]),
     (''terraform_apply_local'',
       [(''working_dir'', dget_or desired ''working_dir'' (PStr [])),
        (''plan_file'', dget_or desired ''plan_file'' (PStr []))]),
     (''terraform_destroy_local'',
       [(''working_dir'', dget_or desired ''working_dir'' (PStr [])),
        (''cleanup_dir'', dget_or desired ''cleanup_dir'' (PBool True))]),
     (''ansible_check_local'',
       [(''instance_id'', dget_or desired ''instance_id'' (PStr [])),
        (''playbook_content'', dget_or desired ''playbook_content'' (PStr [])),
        (''extra_vars'', dget_or desired ''extra_vars'' (PDict []))]),
     (''ansible_run_local'',
       [(''instance_id'', dget_or desired ''instance_id'' (PStr [])),
        (''playbook_content'', dget_or desired ''playbook_content'' (PStr [])),
        (''extra_vars'', dget_or desired ''extra_vars'' (PDict []))])
    ]"

definition desired_meta_keys :: "string list" where
  "desired_meta_keys = [''rollback_strategy'', ''rollback_connector_type'']"

definition resolve_parameters :: "string \<Rightarrow> pydict \<Rightarrow> pydict" where
  "resolve_parameters generic_action desired =
     (case map_of (resolvers desired) generic_action of
        Some ps \<Rightarrow> ps
      | None \<Rightarrow> filter (\<lambda>(k, v). k \<notin> set desired_meta_keys) desired)"

section \<open>What an executor declares\<close>

definition validate_rollback_capability :: "exec_module \<Rightarrow> exn + string option" where
  "validate_rollback_capability em =
     (case em_rollback_capability em of
        None \<Rightarrow> Inr None
      | Some c \<Rightarrow>
          if c \<notin> {''full'', ''irreversible''}
          then Inl (Exn ValueError ''ROLLBACK_CAPABILITY is not a valid value'')
          else if c = ''irreversible'' then
            (case em_rollback_reason em of
               None \<Rightarrow> Inl (Exn ValueError ''ROLLBACK_REASON missing'')
             | Some r \<Rightarrow>
                 if r = [] then Inl (Exn ValueError ''ROLLBACK_REASON missing'')
                 else Inr (Some (''This step cannot be rolled back: '' @ r)))
          else Inr None)"

definition plan_blocked :: "string \<Rightarrow> exn" where
  "plan_blocked msg = Exn PlanBlockedError msg"

definition validate_executor_contract ::
  "module_system \<Rightarrow> catalog \<Rightarrow> string \<Rightarrow> string \<Rightarrow> exn + string option" where
  "validate_executor_contract ms cat ct i =
     (case get_executor ms cat ct i of
        Inl e \<Rightarrow>
          if exn_kind e = ImportError then Inl (plan_blocked ''Executor module not found'') else Inl e
      | Inr em \<Rightarrow>
          if \<not> (em_has_execute em \<and> em_has_rollback em)
          then Inl (plan_blocked ''ExecutorProtocol contract violated'')
          else (case validate_rollback_capability em of
                  Inl e \<Rightarrow>
                    if exn_kind e = ValueError then Inl (plan_blocked (exn_text e)) else Inl e
                | Inr warning \<Rightarrow> Inr warning))"

section \<open>Resolving a step\<close>

definition is_upper :: "char \<Rightarrow> bool" where
  "is_upper c \<longleftrightarrow> 65 \<le> (of_char c :: nat) \<and> (of_char c :: nat) \<le> 90"

definition is_lower :: "char \<Rightarrow> bool" where
  "is_lower c \<longleftrightarrow> 97 \<le> (of_char c :: nat) \<and> (of_char c :: nat) \<le> 122"

definition to_upper :: "char \<Rightarrow> char" where
  "to_upper c = (if is_lower c then char_of ((of_char c :: nat) - 32) else c)"

definition to_lower :: "char \<Rightarrow> char" where
  "to_lower c = (if is_upper c then char_of ((of_char c :: nat) + 32) else c)"

fun title_from :: "bool \<Rightarrow> string \<Rightarrow> string" where
  "title_from _ [] = []"
| "title_from in_word (c # cs) =
     (if in_word then to_lower c else to_upper c) # title_from (is_upper c \<or> is_lower c) cs"

text \<open>\<open>s.replace("_", " ").title()\<close> on ASCII text.\<close>

definition display_title :: "string \<Rightarrow> string" where
  "display_title s = title_from False (map (\<lambda>c. if c = CHR ''_'' then CHR '' '' else c) s)"

text \<open>The first connector of each type over all assets, by type.\<close>

fun connectors_by_type :: "connector list \<Rightarrow> (string \<times> connector) list" where
  "connectors_by_type [] = []"
| "connectors_by_type (c # cs) =
     (connector_type c, c) # filter (\<lambda>(t, _). t \<noteq> connector_type c) (connectors_by_type cs)"

definition option_entry :: "action_option \<Rightarrow> pyval" where
  "option_entry opt = PDict
     [(''connector_type'', PStr (ao_connector_type opt)), (''action_id'', PStr (ao_action_id opt)),
      (''execution_tier'', PInt (ao_execution_tier opt))]"

definition step_parameters :: "pydict \<Rightarrow> string \<Rightarrow> pydict \<Rightarrow> exn + pydict" where
  "step_parameters step_def generic_action desired =
     (case dget_or step_def ''param_overrides'' (PDict []) of
        PDict over \<Rightarrow> Inr (dmerge (resolve_parameters generic_action desired) over)
      | _ \<Rightarrow> Inl (Exn TypeError ''param_overrides is not a mapping''))"

text \<open>The options of a step, narrowed to a connector type named by the request or, failing that,
  to the types of the assets' connectors, and sorted by tier.\<close>

definition step_options ::
  "catalog \<Rightarrow> string \<Rightarrow> pydict \<Rightarrow> asset list \<Rightarrow> action_option list" where
  "step_options cat generic_action desired assets =
     (let by_type = connectors_by_type (concat (map asset_connectors assets));
          locked_connector_type = dget_or desired ''_locked_connector_type'' PNone;
          options0 = get_options_for_action cat generic_action (Some (map asset_type assets));
          options1 = (if options0 = [] then get_options_for_action cat generic_action None
                      else options0);
          options2 =
            (if truthy locked_connector_type then
               filter (\<lambda>opt. PStr (ao_connector_type opt) = locked_connector_type) options1
             else if by_type \<noteq> [] then
               (let narrowed = filter (\<lambda>opt. ao_connector_type opt \<in> set (map fst by_type)) options1
                in if narrowed \<noteq> [] then narrowed else options1)
             else options1)
      in sort_key ao_execution_tier options2)"

definition unresolved_step :: "nat \<Rightarrow> string \<Rightarrow> pydict \<Rightarrow> pydict" where
  "unresolved_step n generic_action params =
     [(''step_number'', PInt (int n)), (''name'', PStr (display_title generic_action)),
      (''description'', PStr (''No connector found for action '' @ generic_action)),
      (''generic_action'', PStr generic_action), (''connector_type'', PStr ''unknown''),
      (''action_id'', PStr generic_action), (''execution_tier'', PInt 99),
      (''connector_options'', PList []), (''parameters'', PDict params),
      (''rollback_action'', PNone), (''rollback_connector_type'', PNone),
      (''connector_id'', PNone), (''estimated_duration_seconds'', PInt 30),
      (''blast_radius_hint'', PNone)]"

text \<open>The contract check of \<open>_resolve_step\<close>: a module that cannot be imported is only a warning
  here.\<close>

definition step_warning :: "module_system \<Rightarrow> catalog \<Rightarrow> action_option \<Rightarrow> exn + string option" where
  "step_warning ms cat best =
     (case get_executor ms cat (ao_connector_type best) (ao_action_id best) of
        Inl e \<Rightarrow>
          if exn_kind e = ImportError then Inr (Some ''Executor module not found'') else Inl e
      | Inr em \<Rightarrow>
          if \<not> (em_has_execute em \<and> em_has_rollback em)
          then Inl (Exn ValueError ''ExecutorProtocol contract violated'')
          else validate_rollback_capability em)"

definition step_connector :: "pydict \<Rightarrow> asset list \<Rightarrow> action_option \<Rightarrow> pyval" where
  "step_connector desired assets best =
     (let by_type = connectors_by_type (concat (map asset_connectors assets));
          locked_connector_id = dget_or desired ''_locked_connector_id'' PNone
      in if truthy locked_connector_id then locked_connector_id
         else case map_of by_type (ao_connector_type best) of
           Some c \<Rightarrow> PStr (connector_id c)
         | None \<Rightarrow> PNone)"

definition resolved_step ::
  "nat \<Rightarrow> string \<Rightarrow> action_option list \<Rightarrow> action_option \<Rightarrow> pydict \<Rightarrow> pyval \<Rightarrow> string option \<Rightarrow> pydict"
where
  "resolved_step n generic_action options best params conn warning =
     (let action_def = ao_action_def best;
          rollback_action = dget_or action_def ''rollback_action'' PNone
      in [(''step_number'', PInt (int n)),
          (''name'', dget_or action_def ''display_name'' (PStr (display_title generic_action))),
          (''description'', dget_or action_def ''description'' (PStr [])),
          (''generic_action'', PStr generic_action),
          (''connector_type'', PStr (ao_connector_type best)),
          (''action_id'', PStr (ao_action_id best)),
          (''execution_tier'', PInt (ao_execution_tier best)),
          (''connector_options'', PList (map option_entry options)),
          (''parameters'', PDict params),
          (''rollback_action'', rollback_action),
          (''rollback_connector_type'',
             if truthy rollback_action then PStr (ao_connector_type best) else PNone),
          (''connector_id'', conn),
          (''estimated_duration_seconds'',
             dget_or action_def ''estimated_duration_seconds'' (PInt 30)),
          (''blast_radius_hint'', dget_or action_def ''blast_radius_hint'' PNone)] @
         (case warning of None \<Rightarrow> [] | Some m \<Rightarrow> [(''rollback_warning'', PStr m)]))"

definition resolve_step ::
  "module_system \<Rightarrow> catalog \<Rightarrow> asset list \<Rightarrow> pydict \<Rightarrow> pydict \<Rightarrow> nat \<Rightarrow> exn + pydict" where
  "resolve_step ms cat assets desired step_def n =
     (case dget step_def ''generic_action'' of
        Some (PStr generic_action) \<Rightarrow>
          (case step_options cat generic_action desired assets of
             [] \<Rightarrow>
               (case step_parameters step_def generic_action desired of
                  Inl e \<Rightarrow> Inl e
                | Inr params \<Rightarrow> Inr (unresolved_step n generic_action params))
           | best # rest \<Rightarrow>
               (case step_warning ms cat best of
                  Inl e \<Rightarrow> Inl e
                | Inr warning \<Rightarrow>
                    (case step_parameters step_def generic_action desired of
                       Inl e \<Rightarrow> Inl e
                     | Inr params \<Rightarrow>
                         Inr (resolved_step n generic_action (best # rest) best params
                                (step_connector desired assets best) warning))))
      | _ \<Rightarrow> Inl (Exn KeyError ''generic_action''))"

fun resolve_steps ::
  "module_system \<Rightarrow> catalog \<Rightarrow> asset list \<Rightarrow> pydict \<Rightarrow> pyval list \<Rightarrow> nat \<Rightarrow> exn + pydict list" where
  "resolve_steps ms cat assets desired [] n = Inr []"
| "resolve_steps ms cat assets desired (d # ds) n =
     (case as_dict d of
        Inl e \<Rightarrow> Inl e
      | Inr step_def \<Rightarrow>
          (case resolve_step ms cat assets desired step_def n of
             Inl e \<Rightarrow> Inl e
           | Inr s \<Rightarrow>
               (case resolve_steps ms cat assets desired ds (Suc n) of
                  Inl e \<Rightarrow> Inl e
                | Inr ss \<Rightarrow> Inr (s # ss))))"

section \<open>The rest of the plan\<close>

record plan_data =
  pd_generated_steps :: "pydict list"
  pd_preflight_checks :: "pydict list"
  pd_blast_radius :: pydict
  pd_rollback_plan :: pydict
  pd_verification_plan :: pydict

fun environment_value :: "environment_kind \<Rightarrow> string" where
  "environment_value Env_dev = ''dev''"
| "environment_value Env_staging = ''staging''"
| "environment_value Env_prod = ''prod''"

fun criticality_value :: "criticality \<Rightarrow> string" where
  "criticality_value Crit_low = ''low''"
| "criticality_value Crit_medium = ''medium''"
| "criticality_value Crit_high = ''high''"
| "criticality_value Crit_critical = ''critical''"

text \<open>\<open>list({...})\<close> over a set has no defined order; here it is that of last occurrence.\<close>

definition calculate_blast_radius :: "asset list \<Rightarrow> safety_review \<Rightarrow> pydict list \<Rightarrow> pydict" where
  "calculate_blast_radius assets safety steps =
     (let envs = remdups (map (\<lambda>a. environment_value (asset_environment a)) assets);
          has_irreversible = list_ex (\<lambda>s. truthy (dget_or s ''rollback_warning'' PNone)) steps;
          rollback_available = (\<not> has_irreversible \<and> sr_risk_level safety \<noteq> RL_critical)
      in [(''affected_assets'', PList (map (\<lambda>a. PDict
             [(''id'', PStr (asset_id a)), (''name'', PStr (asset_name a)),
              (''type'', PStr (asset_type a)),
              (''env'', PStr (environment_value (asset_environment a))),
              (''criticality'', PStr (criticality_value (asset_criticality a)))]) assets)),
          (''affected_environments'', PList (map PStr envs)),
          (''estimated_impact'',
             PStr (''Risk level: '' @ risk_level_value (sr_risk_level safety) @ ''. Score: '' @
                   string_of_int (sr_risk_score safety) @ ''.'')),
          (''affected_services'', PList []),
          (''recovery_time_estimate'', PStr ''5-30 minutes''),
          (''rollback_available'', PBool rollback_available)])"

definition rollback_strategies :: "(string \<times> (string \<times> bool)) list" where
  "rollback_strategies =
     [(''dns_update'', (''restore_previous_record'', True)),
      (''snapshot_asset'', (''rollback_unavailable'', False)),
      (''security_group_update'', (''restore_rule_snapshot'', True)),
      (''key_rotation'', (''cancel_revocation'', True)),
      (''telemetry_agent_deploy'', (''uninstall_agent'', True)),
      (''remote_command'', (''manual'', False)),
      (''microsegmentation_policy'', (''remove_staged_policy'', True)),
      (''ec2_stop'', (''start_instance'', True)),
      (''ec2_start'', (''stop_instance'', True)),
      (''ec2_reboot'', (''none'', False)),
      (''ec2_stop_start'', (''stop_if_running'', True)),
      (''ec2_launch'', (''terminate_instance'', True)),
      (''ec2_terminate'', (''manual'', False))]"

definition generate_rollback_plan :: "string \<Rightarrow> pydict" where
  "generate_rollback_plan ct =
     (let (strategy, automatic) =
            (case map_of rollback_strategies ct of None \<Rightarrow> (''manual'', False) | Some x \<Rightarrow> x)
      in [(''strategy'', PStr strategy), (''description'', PStr (''Rollback via '' @ strategy)),
          (''estimated_duration_seconds'', PInt 30), (''automatic'', PBool automatic)])"

text \<open>The names in a change type definition are strings.\<close>

fun name_of :: "pyval \<Rightarrow> string" where
  "name_of (PStr s) = s"
| "name_of _ = []"

definition generate_preflight_checks :: "pydict \<Rightarrow> exn + pydict list" where
  "generate_preflight_checks change_def =
     (case as_list (dget_or change_def ''preflight_checks'' (PList [])) of
        Inl e \<Rightarrow> Inl e
      | Inr names \<Rightarrow>
          Inr (map (\<lambda>v. [(''name'', v), (''description'', PStr (display_title (name_of v))),
                          (''check_type'', PStr ''standard''), (''expected_result'', PStr ''pass'')])
                 names))"

definition generate_verification_plan :: "pydict \<Rightarrow> exn + pydict" where
  "generate_verification_plan change_def =
     (case as_list (dget_or change_def ''verification_methods'' (PList [PStr ''api_check''])) of
        Inl e \<Rightarrow> Inl e
      | Inr methods \<Rightarrow>
          Inr [(''checks'', PList (map (\<lambda>v. PDict
                  [(''name'', v), (''description'', PStr (''Verify via '' @ name_of v)),
                   (''method'', v)]) methods)),
               (''success_criteria'', PStr ''All verification checks must pass'')])"

section \<open>Validation of orchestrated changes\<close>

definition valid_scopes :: "string list" where
  "valid_scopes = [''aws'', ''kubernetes'', ''nexplane_agent'']"

fun invalid_scope :: "pyval list \<Rightarrow> exn option" where
  "invalid_scope [] = None"
| "invalid_scope (PStr s # vs) =
     (if s \<in> set valid_scopes then invalid_scope vs
      else Some (Exn ValueError ''Invalid scan_scope entry''))"
| "invalid_scope (PList _ # vs) = Some (Exn TypeError ''unhashable type: list'')"
| "invalid_scope (PDict _ # vs) = Some (Exn TypeError ''unhashable type: dict'')"
| "invalid_scope (_ # vs) = Some (Exn ValueError ''Invalid scan_scope entry'')"

definition validate_credential_rotation_fanout_fields :: "pydict \<Rightarrow> exn option" where
  "validate_credential_rotation_fanout_fields desired =
     (case dget_or desired ''search_terms'' PNone of
        PList (t # ts) \<Rightarrow>
          (case dget_or desired ''scan_scope'' PNone of
             PList (sc # scs) \<Rightarrow>
               (case invalid_scope (sc # scs) of
                  Some e \<Rightarrow> Some e
                | None \<Rightarrow>
                    if \<not> truthy (dget_or desired ''rotate'' PNone) \<and>
                       \<not> truthy (dget_or desired ''new_value'' PNone)
                    then Some (Exn ValueError ''new_value is required when rotate is not specified'')
                    else None)
           | _ \<Rightarrow> Some (Exn ValueError ''scan_scope must be a non-empty list''))
      | _ \<Rightarrow> Some (Exn ValueError ''search_terms must be a non-empty list''))"

definition certificate_rotation_errors :: "pydict \<Rightarrow> string list" where
  "certificate_rotation_errors desired =
     (if truthy (dget_or desired ''subject'' PNone) then []
      else [''certificate_rotation requires subject'']) @
     (if dget_or desired ''trigger_reason'' (PStr []) \<in> {PStr ''scheduled'', PStr ''compromise''}
      then [] else [''trigger_reason must be scheduled or compromise'']) @
     (if truthy (dget_or desired ''scan_scope'' PNone) then []
      else [''scan_scope must be a non-empty list''])"

definition validate_certificate_rotation_fields :: "pydict \<Rightarrow> exn option" where
  "validate_certificate_rotation_fields desired =
     (case certificate_rotation_errors desired of
        [] \<Rightarrow> None
      | e # es \<Rightarrow> Some (plan_blocked (concat (e # es))))"

section \<open>Generating the plan\<close>

text \<open>Looking an action up by values of the request: only strings can name one, and a list or a
  dictionary cannot be a key at all.\<close>

fun get_action_def_val :: "catalog \<Rightarrow> pyval \<Rightarrow> pyval \<Rightarrow> exn + (string \<times> string \<times> pydict)" where
  "get_action_def_val cat (PStr ct) (PStr i) =
     (case get_action_def cat ct i of Inl e \<Rightarrow> Inl e | Inr a \<Rightarrow> Inr (ct, i, a))"
| "get_action_def_val cat (PList _) _ = Inl (Exn TypeError ''unhashable type: list'')"
| "get_action_def_val cat (PDict _) _ = Inl (Exn TypeError ''unhashable type: dict'')"
| "get_action_def_val cat _ _ = Inl (Exn KeyError ''Action not found in connector'')"

definition lookup_action :: "catalog \<Rightarrow> pydict \<Rightarrow> exn + (string \<times> string \<times> pydict)" where
  "lookup_action cat spec =
     (case get_action_def_val cat (dget_or spec ''connector_type'' (PStr []))
             (dget_or spec ''action_id'' (PStr [])) of
        Inl e \<Rightarrow>
          if exn_kind e = KeyError then Inl (plan_blocked ''Unknown catalog action'') else Inl e
      | Inr r \<Rightarrow> Inr r)"

definition catalog_step :: "nat \<Rightarrow> string \<Rightarrow> string \<Rightarrow> pyval \<Rightarrow> pydict \<Rightarrow> pydict" where
  "catalog_step n ct i params action_def =
     [(''step_number'', PInt (int n)), (''connector_type'', PStr ct), (''action_id'', PStr i),
      (''parameters'', params), (''purpose'', PStr ''execute''),
      (''options'', PList [PDict [(''connector_type'', PStr ct), (''action_id'', PStr i),
         (''execution_tier'', PInt 0)]]),
      (''rollback_connector_type'', dget_or action_def ''rollback_connector_type'' PNone),
      (''rollback_action_id'', dget_or action_def ''rollback_action'' PNone)]"

definition with_warning :: "string option \<Rightarrow> pydict \<Rightarrow> pydict" where
  "with_warning w step = (case w of None \<Rightarrow> step | Some m \<Rightarrow> dput step ''rollback_warning'' (PStr m))"

text \<open>\<open>desired.get("params", {}) or {}\<close>.\<close>

definition or_empty_dict :: "pyval \<Rightarrow> pyval" where
  "or_empty_dict v = (if truthy v then v else PDict [])"

definition plan_catalog_action ::
  "module_system \<Rightarrow> catalog \<Rightarrow> asset list \<Rightarrow> safety_review \<Rightarrow> pydict \<Rightarrow> exn + plan_data" where
  "plan_catalog_action ms cat assets safety desired =
     (case lookup_action cat desired of
        Inl e \<Rightarrow> Inl e
      | Inr (ct, i, action_def) \<Rightarrow>
          (case validate_executor_contract ms cat ct i of
             Inl e \<Rightarrow> Inl e
           | Inr warning \<Rightarrow>
               (let step = with_warning warning
                      (catalog_step 1 ct i (or_empty_dict (dget_or desired ''params'' (PDict [])))
                        action_def)
                in Inr \<lparr>pd_generated_steps = [step], pd_preflight_checks = [],
                        pd_blast_radius = calculate_blast_radius assets safety [step],
                        pd_rollback_plan = [], pd_verification_plan = []\<rparr>)))"

text \<open>First all actions are looked up, then the executors of the named ones are checked.\<close>

fun workflow_steps :: "catalog \<Rightarrow> pyval list \<Rightarrow> nat \<Rightarrow> exn + (string \<times> string \<times> pydict) list" where
  "workflow_steps cat [] n = Inr []"
| "workflow_steps cat (v # vs) n =
     (case as_dict v of
        Inl e \<Rightarrow> Inl e
      | Inr spec \<Rightarrow>
          (case lookup_action cat spec of
             Inl e \<Rightarrow> Inl e
           | Inr (ct, i, action_def) \<Rightarrow>
               (case workflow_steps cat vs (Suc n) of
                  Inl e \<Rightarrow> Inl e
                | Inr rest \<Rightarrow>
                    Inr ((ct, i, catalog_step n ct i (dget_or spec ''params'' (PDict [])) action_def)
                         # rest))))"

fun check_workflow_steps ::
  "module_system \<Rightarrow> catalog \<Rightarrow> (string \<times> string \<times> pydict) list \<Rightarrow> exn + pydict list" where
  "check_workflow_steps ms cat [] = Inr []"
| "check_workflow_steps ms cat ((ct, i, step) # rest) =
     (if ct \<noteq> [] \<and> i \<noteq> [] then
        (case validate_executor_contract ms cat ct i of
           Inl e \<Rightarrow> Inl e
         | Inr warning \<Rightarrow>
             (case check_workflow_steps ms cat rest of
                Inl e \<Rightarrow> Inl e
              | Inr ss \<Rightarrow> Inr (with_warning warning step # ss)))
      else (case check_workflow_steps ms cat rest of Inl e \<Rightarrow> Inl e | Inr ss \<Rightarrow> Inr (step # ss)))"

definition plan_catalog_workflow ::
  "module_system \<Rightarrow> catalog \<Rightarrow> asset list \<Rightarrow> safety_review \<Rightarrow> pydict \<Rightarrow> exn + plan_data" where
  "plan_catalog_workflow ms cat assets safety desired =
     (let steps_spec = dget_or desired ''steps'' (PList [])
      in if \<not> truthy steps_spec
         then Inl (plan_blocked ''catalog_workflow requires at least one step'')
         else case as_list steps_spec of
           Inl e \<Rightarrow> Inl e
         | Inr specs \<Rightarrow>
             (case workflow_steps cat specs 1 of
                Inl e \<Rightarrow> Inl e
              | Inr found \<Rightarrow>
                  (case check_workflow_steps ms cat found of
                     Inl e \<Rightarrow> Inl e
                   | Inr steps \<Rightarrow>
                       Inr \<lparr>pd_generated_steps = steps, pd_preflight_checks = [],
                            pd_blast_radius = calculate_blast_radius assets safety steps,
                            pd_rollback_plan = [], pd_verification_plan = []\<rparr>)))"

definition plan_credential_rotation ::
  "catalog \<Rightarrow> asset list \<Rightarrow> safety_review \<Rightarrow> pydict \<Rightarrow> exn + plan_data" where
  "plan_credential_rotation cat assets safety desired =
     (let steps_spec = dget_or desired ''steps'' (PList [])
      in if \<not> truthy steps_spec
         then Inl (plan_blocked ''credential_rotation requires at least one step'')
         else case as_list steps_spec of
           Inl e \<Rightarrow> Inl e
         | Inr specs \<Rightarrow>
             (case workflow_steps cat specs 1 of
                Inl e \<Rightarrow> Inl e
              | Inr _ \<Rightarrow>
                  Inr \<lparr>pd_generated_steps = [], pd_preflight_checks = [],
                       pd_blast_radius = calculate_blast_radius assets safety [],
                       pd_rollback_plan = [], pd_verification_plan = []\<rparr>))"

definition plan_certificate_rotation ::
  "asset list \<Rightarrow> safety_review \<Rightarrow> pydict \<Rightarrow> exn + plan_data" where
  "plan_certificate_rotation assets safety desired =
     (case validate_certificate_rotation_fields desired of
        Some e \<Rightarrow> Inl e
      | None \<Rightarrow>
          Inr \<lparr>pd_generated_steps = [],
               pd_preflight_checks =
                 [[(''name'', PStr ''step_ca_connector_required''),
                   (''description'',
                      PStr ''A step_ca connector must be configured for this organization''),
                   (''check_type'', PStr ''connector_exists''),
                   (''connector_type'', PStr ''step_ca''), (''expected_result'', PStr ''pass'')]],
               pd_blast_radius = calculate_blast_radius assets safety [],
               pd_rollback_plan = [], pd_verification_plan = []\<rparr>)"

definition plan_credential_rotation_fanout ::
  "asset list \<Rightarrow> safety_review \<Rightarrow> pydict \<Rightarrow> exn + plan_data" where
  "plan_credential_rotation_fanout assets safety desired =
     (case validate_credential_rotation_fanout_fields desired of
        Some e \<Rightarrow> if exn_kind e = ValueError then Inl (plan_blocked (exn_text e)) else Inl e
      | None \<Rightarrow>
          Inr \<lparr>pd_generated_steps =
                 [[(''step_number'', PInt 1), (''connector_type'', PStr ''internal''),
                   (''action_id'', PStr ''credential_rotation_fanout''),
                   (''parameters'', PDict desired), (''purpose'', PStr ''orchestrate'')]],
               pd_preflight_checks = [],
               pd_blast_radius = calculate_blast_radius assets safety [],
               pd_rollback_plan = [], pd_verification_plan = []\<rparr>)"

definition plan_k8s_cluster_upgrade ::
  "asset list \<Rightarrow> safety_review \<Rightarrow> pydict \<Rightarrow> exn + plan_data" where
  "plan_k8s_cluster_upgrade assets safety desired =
     (if \<not> truthy (dget_or desired ''target_version'' (PStr []))
      then Inl (plan_blocked ''k8s_cluster_upgrade requires target_version in desired_outcome'')
      else if dget_or desired ''node_pool_strategy'' (PStr ''rolling'') \<notin>
              {PStr ''rolling'', PStr ''blue_green''}
      then Inl (plan_blocked ''node_pool_strategy must be rolling or blue_green'')
      else Inr \<lparr>pd_generated_steps = [],
                pd_preflight_checks =
                  [[(''name'', PStr ''k8s_cluster_reachable''),
                    (''description'',
                       PStr ''Kubernetes cluster must be reachable via the attached connector''),
                    (''check_type'', PStr ''connector_reachable''),
                    (''expected_result'', PStr ''pass'')]],
                pd_blast_radius = calculate_blast_radius assets safety [],
                pd_rollback_plan =
                  [(''rollback_capability'', PStr ''partial''),
                   (''note'', PStr ''Node pools reversible; control plane irreversible'')],
                pd_verification_plan =
                  [(''phase'', PStr ''verify''),
                   (''checks'', PList [PStr ''node_versions'', PStr ''system_pods'',
                      PStr ''workload_health''])]\<rparr>)"

definition plan_from_definition ::
  "module_system \<Rightarrow> catalog \<Rightarrow> (string \<Rightarrow> pydict option) \<Rightarrow> string \<Rightarrow> asset list \<Rightarrow> safety_review \<Rightarrow>
   pydict \<Rightarrow> exn + plan_data" where
  "plan_from_definition ms cat defs ct assets safety desired =
     (case defs ct of
        None \<Rightarrow> Inl (Exn OtherError ''FileNotFoundError'')
      | Some change_def \<Rightarrow>
          (case dget change_def ''steps'' of
             Some (PList ds) \<Rightarrow>
               (case resolve_steps ms cat assets desired ds 1 of
                  Inl e \<Rightarrow> Inl e
                | Inr steps \<Rightarrow>
                    (case generate_preflight_checks change_def of
                       Inl e \<Rightarrow> Inl e
                     | Inr checks \<Rightarrow>
                         (case generate_verification_plan change_def of
                            Inl e \<Rightarrow> Inl e
                          | Inr verification \<Rightarrow>
                              Inr \<lparr>pd_generated_steps = steps, pd_preflight_checks = checks,
                                   pd_blast_radius = calculate_blast_radius assets safety steps,
                                   pd_rollback_plan = generate_rollback_plan ct,
                                   pd_verification_plan = verification\<rparr>)))
           | _ \<Rightarrow> Inl (Exn KeyError ''steps'')))"

definition generate_plan ::
  "module_system \<Rightarrow> catalog \<Rightarrow> (string \<Rightarrow> pydict option) \<Rightarrow> change_request \<Rightarrow> asset list \<Rightarrow>
   safety_review \<Rightarrow> exn + plan_data" where
  "generate_plan ms cat defs cr assets safety =
     (let ct = cr_change_type cr; desired = cr_desired_outcome cr
      in if ct = ''catalog_action'' then plan_catalog_action ms cat assets safety desired
         else if ct = ''catalog_workflow'' then plan_catalog_workflow ms cat assets safety desired
         else if ct = ''credential_rotation'' then plan_credential_rotation cat assets safety desired
         else if ct = ''certificate_rotation'' then plan_certificate_rotation assets safety desired
         else if ct = ''credential_rotation_fanout''
         then plan_credential_rotation_fanout assets safety desired
         else if ct = ''k8s_cluster_upgrade'' then plan_k8s_cluster_upgrade assets safety desired
         else plan_from_definition ms cat defs ct assets safety desired)"

section \<open>The steps of a plan\<close>

lemma step_options_sorted:
  "sorted (map ao_execution_tier (step_options cat g desired assets))"
  by (simp add: step_options_def Let_def)

lemma resolve_steps_length:
  "resolve_steps ms cat assets desired ds n = Inr ss \<Longrightarrow> length ss = length ds"
  by (induction ds arbitrary: n ss) (auto split: sum.splits)

lemma resolve_steps_nth:
  assumes "resolve_steps ms cat assets desired ds n = Inr ss" and "k < length ss"
  shows "\<exists>step_def. ds ! k = PDict step_def \<and>
    resolve_step ms cat assets desired step_def (n + k) = Inr (ss ! k)"
  using assms
proof (induction ds arbitrary: n k ss)
  case Nil
  then show ?case by simp
next
  case (Cons d ds)
  obtain step_def s rest where d: "as_dict d = Inr step_def"
    and s: "resolve_step ms cat assets desired step_def n = Inr s"
    and rest: "resolve_steps ms cat assets desired ds (Suc n) = Inr rest"
    and ss: "ss = s # rest"
    using Cons.prems by (auto split: sum.splits)
  from d have "d = PDict step_def" by (auto simp: as_dict_def split: pyval.splits)
  then show ?case
    using Cons.IH [OF rest] Cons.prems(2) s ss by (cases k) auto
qed

text \<open>A resolved step: numbered, and of the safest tier among the options it records.\<close>

definition safest_step :: "nat \<Rightarrow> pydict \<Rightarrow> bool" where
  "safest_step n s \<longleftrightarrow> dget s ''step_number'' = Some (PInt (int n)) \<and>
     (\<exists>options tier. dget s ''connector_options'' = Some (PList (map option_entry options)) \<and>
        dget s ''execution_tier'' = Some (PInt tier) \<and>
        (\<forall>opt \<in> set options. tier \<le> ao_execution_tier opt) \<and>
        (options = [] \<longrightarrow> dget s ''connector_type'' = Some (PStr ''unknown'')))"

lemma resolve_step_safest:
  assumes "resolve_step ms cat assets desired step_def n = Inr s"
  shows "safest_step n s"
proof -
  obtain g where g: "dget step_def ''generic_action'' = Some (PStr g)"
    using assms by (auto simp: resolve_step_def split: option.splits pyval.splits)
  show ?thesis
  proof (cases "step_options cat g desired assets")
    case Nil
    then obtain params where "s = unresolved_step n g params"
      using assms g by (auto simp: resolve_step_def split: sum.splits)
    then show ?thesis by (simp add: safest_step_def unresolved_step_def exI [of _ "[]"])
  next
    case (Cons best rest)
    then obtain params conn warning where
      s: "s = resolved_step n g (best # rest) best params conn warning"
      using assms g by (auto simp: resolve_step_def split: sum.splits)
    have "\<forall>opt \<in> set (best # rest). ao_execution_tier best \<le> ao_execution_tier opt"
      using step_options_sorted [of cat g desired assets] Cons by auto
    then show ?thesis
      unfolding safest_step_def
      by (intro conjI exI [of _ "best # rest"] exI [of _ "ao_execution_tier best"])
        (simp_all add: s resolved_step_def Let_def)
  qed
qed


definition example_modules :: module_system where
  "example_modules =
     \<lparr>ms_import = (\<lambda>r. Some \<lparr>em_has_execute = True, em_has_rollback = True,
        em_rollback_capability = Some ''irreversible'', em_rollback_reason = Some ''restart''\<rparr>),
      ms_commercial = None\<rparr>"

definition example_restart :: pydict where
  "example_restart = [(''steps'', PList [PDict [(''generic_action'', PStr ''restart'')]])]"

definition example_step :: pydict where
  "example_step =
     resolved_step 1 ''restart'' (get_options_for_action example_catalog ''restart'' None)
       (hd (get_options_for_action example_catalog ''restart'' None)) [] PNone
       (Some ''This step cannot be rolled back: restart'')"

lemma example_options:
  "step_options example_catalog ''restart'' [] [] =
     get_options_for_action example_catalog ''restart'' None"
  by (simp add: step_options_def get_options_for_action_def example_catalog_def alist_or_def
      applicable_types_def example_action_def Let_def insort_key.simps)

lemma example_resolve:
  "resolve_step example_modules example_catalog [] [] [(''generic_action'', PStr ''restart'')] 1 =
     Inr example_step"
  unfolding resolve_step_def
  by (simp add: example_options)
    (simp add: get_options_for_action_def example_catalog_def alist_or_def step_warning_def
      get_executor_def get_action_def_def action_id_of_def example_action_def starts_with_def
      example_modules_def validate_rollback_capability_def step_parameters_def
      resolve_parameters_def resolvers_def dmerge_def step_connector_def example_step_def Let_def)


section \<open>Executors of planned actions\<close>

definition reviewed_executor :: "module_system \<Rightarrow> catalog \<Rightarrow> pydict \<Rightarrow> bool" where
  "reviewed_executor ms cat s \<longleftrightarrow>
     (\<exists>ct i. dget s ''connector_type'' = Some (PStr ct) \<and> dget s ''action_id'' = Some (PStr i) \<and>
        (ct \<noteq> [] \<and> i \<noteq> [] \<longrightarrow>
          (\<exists>em. get_executor ms cat ct i = Inr em \<and> em_has_execute em \<and> em_has_rollback em \<and>
             (truthy (dget_or s ''rollback_warning'' PNone) \<longleftrightarrow>
                em_rollback_capability em = Some ''irreversible''))))"

lemma validate_rollback_capability_ok:
  "validate_rollback_capability em = Inr w \<Longrightarrow>
   (w \<noteq> None \<longleftrightarrow> em_rollback_capability em = Some ''irreversible'') \<and> w \<noteq> Some []"
  by (auto simp: validate_rollback_capability_def split: option.splits if_splits)

lemma validate_executor_contract_ok:
  "validate_executor_contract ms cat ct i = Inr w \<Longrightarrow>
   (\<exists>em. get_executor ms cat ct i = Inr em \<and> em_has_execute em \<and> em_has_rollback em \<and>
      (w \<noteq> None \<longleftrightarrow> em_rollback_capability em = Some ''irreversible'')) \<and> w \<noteq> Some []"
  by (auto simp: validate_executor_contract_def split: sum.splits if_splits
      dest: validate_rollback_capability_ok)

lemma catalog_step_get:
  "dget (catalog_step n ct i params a) ''connector_type'' = Some (PStr ct)"
  "dget (catalog_step n ct i params a) ''action_id'' = Some (PStr i)"
  "dget (catalog_step n ct i params a) ''rollback_warning'' = None"
  by (simp_all add: catalog_step_def)

lemma reviewed_with_warning:
  assumes "validate_executor_contract ms cat ct i = Inr w"
    and "dget s ''connector_type'' = Some (PStr ct)" and "dget s ''action_id'' = Some (PStr i)"
    and "dget s ''rollback_warning'' = None"
  shows "reviewed_executor ms cat (with_warning w s)"
proof -
  from validate_executor_contract_ok [OF assms(1)] obtain em where
    em: "get_executor ms cat ct i = Inr em" "em_has_execute em" "em_has_rollback em"
      "w \<noteq> None \<longleftrightarrow> em_rollback_capability em = Some ''irreversible''" and w: "w \<noteq> Some []"
    by blast
  have "truthy (dget_or (with_warning w s) ''rollback_warning'' PNone) \<longleftrightarrow> w \<noteq> None"
    using w assms(4) by (cases w) (auto simp: with_warning_def dget_or_def)
  then show ?thesis
    unfolding reviewed_executor_def
    using em assms by (cases w) (auto simp: with_warning_def)
qed

definition step_matches :: "string \<times> string \<times> pydict \<Rightarrow> bool" where
  "step_matches x \<longleftrightarrow> (case x of (ct, i, s) \<Rightarrow> dget s ''connector_type'' = Some (PStr ct) \<and>
     dget s ''action_id'' = Some (PStr i) \<and> dget s ''rollback_warning'' = None)"

lemma workflow_steps_match:
  "workflow_steps cat vs n = Inr found \<Longrightarrow> list_all step_matches found"
  by (induction vs arbitrary: n found)
    (auto simp: step_matches_def catalog_step_get split: sum.splits)

lemma check_workflow_steps_reviewed:
  "check_workflow_steps ms cat found = Inr steps \<Longrightarrow> list_all step_matches found \<Longrightarrow>
   list_all (reviewed_executor ms cat) steps"
proof (induction found arbitrary: steps)
  case Nil
  then show ?case by simp
next
  case (Cons x rest)
  obtain ct i s where x: "x = (ct, i, s)" by (cases x) auto
  obtain ss where rest: "check_workflow_steps ms cat rest = Inr ss"
    using Cons.prems(1) by (auto simp: x split: sum.splits if_splits)
  have tail: "list_all (reviewed_executor ms cat) ss"
    using Cons.IH [OF rest] Cons.prems(2) by simp
  show ?case
  proof (cases "ct \<noteq> [] \<and> i \<noteq> []")
    case True
    then obtain w where "validate_executor_contract ms cat ct i = Inr w"
      and "steps = with_warning w s # ss"
      using Cons.prems(1) rest by (auto simp: x split: sum.splits)
    then show ?thesis
      using reviewed_with_warning Cons.prems(2) tail by (auto simp: x step_matches_def)
  next
    case False
    then have "steps = s # ss" using Cons.prems(1) rest by (auto simp: x)
    moreover have "reviewed_executor ms cat s"
      using False Cons.prems(2) by (auto simp: x step_matches_def reviewed_executor_def)
    ultimately show ?thesis using tail by simp
  qed
qed

lemma plan_catalog_reviewed:
  "plan_catalog_action ms cat assets safety desired = Inr pd \<Longrightarrow>
   list_all (reviewed_executor ms cat) (pd_generated_steps pd)"
  "plan_catalog_workflow ms cat assets safety desired = Inr pd \<Longrightarrow>
   list_all (reviewed_executor ms cat) (pd_generated_steps pd)"
proof -
  show "list_all (reviewed_executor ms cat) (pd_generated_steps pd)"
    if "plan_catalog_action ms cat assets safety desired = Inr pd"
    using that
    by (auto simp: plan_catalog_action_def Let_def catalog_step_get split: sum.splits
        intro!: reviewed_with_warning [OF _ catalog_step_get])
  show "list_all (reviewed_executor ms cat) (pd_generated_steps pd)"
    if "plan_catalog_workflow ms cat assets safety desired = Inr pd"
    using that
    by (auto simp: plan_catalog_workflow_def Let_def split: sum.splits if_splits
        dest: workflow_steps_match check_workflow_steps_reviewed)
qed

text \<open>C4: catalog plans use reviewed executors. Every step of a plan for a catalog action or a
  catalog workflow that names its connector type and action has an importable executor with
  both an execute and a rollback function; the step carries a rollback warning exactly when
  the executor declares itself irreversible, and the plan promises a rollback exactly when no
  step carries such a warning and the risk is not critical.\<close>

theorem catalog_plans_reviewed:
  assumes "generate_plan ms cat defs cr assets safety = Inr pd"
    and "cr_change_type cr \<in> {''catalog_action'', ''catalog_workflow''}"
  shows "(\<forall>s \<in> set (pd_generated_steps pd). reviewed_executor ms cat s) \<and>
         dget (pd_blast_radius pd) ''rollback_available'' =
           Some (PBool ((\<forall>s \<in> set (pd_generated_steps pd).
              \<not> truthy (dget_or s ''rollback_warning'' PNone)) \<and> sr_risk_level safety \<noteq> RL_critical))"
proof -
  let ?d = "cr_desired_outcome cr"
  from assms have plan: "plan_catalog_action ms cat assets safety ?d = Inr pd \<or>
      plan_catalog_workflow ms cat assets safety ?d = Inr pd"
    by (auto simp: generate_plan_def Let_def split: if_splits)
  then have "list_all (reviewed_executor ms cat) (pd_generated_steps pd)"
    by (auto dest: plan_catalog_reviewed)
  moreover have "pd_blast_radius pd = calculate_blast_radius assets safety (pd_generated_steps pd)"
    using plan
    by (auto simp: plan_catalog_action_def plan_catalog_workflow_def Let_def
        split: sum.splits if_splits)
  ultimately show ?thesis
    by (auto simp: list_all_iff calculate_blast_radius_def Let_def list_ex_iff)
qed

definition example_catalog_cr :: change_request where
  "example_catalog_cr = example_cr\<lparr>cr_change_type := ''catalog_action'',
     cr_desired_outcome := [(''connector_type'', PStr ''aws''), (''action_id'', PStr ''ssh_restart'')]\<rparr>"

definition example_catalog_step :: pydict where
  "example_catalog_step =
     catalog_step 1 ''aws'' ''ssh_restart'' (PDict []) (example_action ''ssh_restart'' 5) @
     [(''rollback_warning'', PStr ''This step cannot be rolled back: restart'')]"

theorem catalog_plans_reviewed_witness:
  "reviewed_executor example_modules example_catalog example_catalog_step"
proof -
  have "generate_plan example_modules example_catalog (\<lambda>_. None) example_catalog_cr [] example_review =
      Inr \<lparr>pd_generated_steps = [example_catalog_step], pd_preflight_checks = [],
        pd_blast_radius = calculate_blast_radius [] example_review [example_catalog_step],
        pd_rollback_plan = [], pd_verification_plan = []\<rparr>"
    by (simp add: generate_plan_def example_catalog_cr_def plan_catalog_action_def lookup_action_def
        get_action_def_def example_catalog_def alist_or_def action_id_of_def example_action_def
        validate_executor_contract_def get_executor_def starts_with_def example_modules_def
        validate_rollback_capability_def with_warning_def catalog_step_def or_empty_dict_def
        example_catalog_step_def Let_def)
  from catalog_plans_reviewed [OF this] show ?thesis
    by (simp add: example_catalog_cr_def)
qed

end
