(* ===== verification/Offboard.thy ===== *)
theory Offboard
  imports Models
begin

text \<open>
  The plan builder of user offboarding (\<open>connectors/executors/offboard_user/__init__.py\<close>):
  from the identity connectors on which the account was found to the ordered steps of the
  change.
\<close>

record resolved_connector =
  rc_connector_id :: string
  rc_connector_type :: string
  rc_asset_id :: "string option"
  rc_account_identifier :: pyval

definition session_revoke_types :: "string list" where
  "session_revoke_types = [''okta'', ''entra_id'', ''google_workspace'']"

definition account_disable_types :: "string list" where
  "account_disable_types = [''active_directory'', ''okta'', ''entra_id'', ''google_workspace'']"

definition removal_types :: "string list" where
  "removal_types = [''github'', ''slack'']"

definition verify_types :: "string list" where
  "verify_types =
     [''active_directory'', ''okta'', ''entra_id'', ''google_workspace'', ''github'', ''slack'',
      ''crowdstrike'']"

text \<open>\<open>str(c["asset_id"]) if c.get("asset_id") else None\<close>.\<close>

definition asset_param :: "resolved_connector \<Rightarrow> pyval" where
  "asset_param c = (case rc_asset_id c of
     None \<Rightarrow> PNone | Some a \<Rightarrow> if a = [] then PNone else PStr a)"

definition revoke_step :: "pyval \<Rightarrow> resolved_connector \<Rightarrow> pydict" where
  "revoke_step email c =
     (let ct = rc_connector_type c
      in [(''name'', PStr (''Revoke '' @ ct @ '' sessions'')),
          (''action_id'', PStr (''revoke_'' @ ct @ ''_sessions'')), (''connector_type'', PStr ct),
          (''connector_id'', PStr (rc_connector_id c)),
          (''parameters'', PDict [(''target_email'', email), (''asset_id'', asset_param c)]),
          (''phase'', PInt 1), (''rollback_action_id'', PNone), (''status'', PStr ''pending'')])"

definition disable_step :: "pyval \<Rightarrow> resolved_connector \<Rightarrow> pydict" where
  "disable_step email c =
     (let ct = rc_connector_type c
      in [(''name'', PStr (''Disable '' @ ct @ '' account'')),
          (''action_id'', PStr (''disable_'' @ ct @ ''_account'')), (''connector_type'', PStr ct),
          (''connector_id'', PStr (rc_connector_id c)),
          (''parameters'', PDict [(''target_email'', email), (''asset_id'', asset_param c)]),
          (''phase'', PInt 2), (''rollback_action_id'', PStr (''enable_'' @ ct @ ''_account'')),
          (''rollback_connector_type'', PStr ct), (''status'', PStr ''pending'')])"

definition remove_step :: "pyval \<Rightarrow> resolved_connector \<Rightarrow> pydict" where
  "remove_step email c =
     (let ct = rc_connector_type c
      in [(''name'', PStr (''Remove from '' @ ct)),
          (''action_id'', PStr (''remove_'' @ ct @ ''_member'')), (''connector_type'', PStr ct),
          (''connector_id'', PStr (rc_connector_id c)),
          (''parameters'', PDict [(''target_email'', email), (''asset_id'', asset_param c)]),
          (''phase'', PInt 3), (''rollback_action_id'', PStr (''reinstate_'' @ ct @ ''_member'')),
          (''rollback_connector_type'', PStr ct), (''status'', PStr ''pending'')])"

definition isolate_step :: "pyval \<Rightarrow> resolved_connector \<Rightarrow> pydict" where
  "isolate_step email c =
     [(''name'', PStr ''Isolate CrowdStrike-managed endpoints''),
      (''action_id'', PStr ''isolate_crowdstrike_endpoints''),
      (''connector_type'', PStr ''crowdstrike''), (''connector_id'', PStr (rc_connector_id c)),
      (''parameters'', PDict [(''target_email'', email)]), (''phase'', PInt 4),
      (''rollback_action_id'', PStr ''lift_crowdstrike_isolation''),
      (''rollback_connector_type'', PStr ''crowdstrike''), (''status'', PStr ''pending'')]"

definition verify_step :: "pyval \<Rightarrow> resolved_connector \<Rightarrow> pydict" where
  "verify_step email c =
     (let ct = rc_connector_type c
      in [(''name'', PStr (''Verify '' @ ct @ '' account disabled'')),
          (''action_id'', PStr (''verify_'' @ ct @ ''_disabled'')), (''connector_type'', PStr ct),
          (''connector_id'', PStr (rc_connector_id c)),
          (''parameters'', PDict [(''target_email'', email), (''connector_type'', PStr ct),
             (''account_identifier'', rc_account_identifier c)]),
          (''phase'', PInt 5), (''rollback_action_id'', PNone), (''status'', PStr ''pending'')])"

definition report_step :: "pyval \<Rightarrow> pydict \<Rightarrow> pydict" where
  "report_step email payload =
     [(''name'', PStr ''Generate offboarding report''),
      (''action_id'', PStr ''generate_offboarding_report''),
      (''connector_type'', PStr ''offboard_user''), (''connector_id'', PNone),
      (''parameters'', PDict
         [(''target_email'', email), (''reason'', dget_or payload ''reason'' PNone),
          (''notify_manager'', dget_or payload ''notify_manager'' (PBool True)),
          (''manager_email'', dget_or payload ''manager_email'' PNone),
          (''discovery_manifest'', dget_or payload ''_discovery_manifest'' (PList []))]),
      (''phase'', PInt 6), (''rollback_action_id'', PNone), (''status'', PStr ''pending'')]"

text \<open>The loop of phase 5 over the connectors of the action steps, with its set of connectors
  already seen.\<close>

fun verify_steps :: "pyval \<Rightarrow> resolved_connector list \<Rightarrow> string list \<Rightarrow> pydict list" where
  "verify_steps email [] seen = []"
| "verify_steps email (c # cs) seen =
     (if rc_connector_id c \<in> set seen \<or> rc_connector_type c \<notin> set verify_types
      then verify_steps email cs seen
      else verify_step email c # verify_steps email cs (rc_connector_id c # seen))"

definition of_types :: "string list \<Rightarrow> resolved_connector list \<Rightarrow> resolved_connector list" where
  "of_types ts cs = filter (\<lambda>c. rc_connector_type c \<in> set ts) cs"

text \<open>\<open>_action_connectors\<close>: the connectors of phases 2 to 4, in the order of their steps.\<close>

definition action_connectors :: "pydict \<Rightarrow> resolved_connector list \<Rightarrow> resolved_connector list" where
  "action_connectors payload cs =
     of_types account_disable_types cs @ of_types removal_types cs @
     (if truthy (dget_or payload ''isolate_endpoints'' PNone) then of_types [''crowdstrike''] cs
      else [])"

fun number_steps :: "nat \<Rightarrow> pydict list \<Rightarrow> pydict list" where
  "number_steps n [] = []"
| "number_steps n (s # ss) = dput s ''step_number'' (PInt (int n)) # number_steps (Suc n) ss"

text \<open>\<open>payload["target_email"]\<close> raises when absent; the last step always reads it.\<close>

definition build_plan :: "pydict \<Rightarrow> resolved_connector list \<Rightarrow> exn + pydict list" where
  "build_plan payload cs =
     (case dget payload ''target_email'' of
        None \<Rightarrow> Inl (Exn KeyError ''target_email'')
      | Some email \<Rightarrow>
          Inr (number_steps 1
            (map (revoke_step email) (of_types session_revoke_types cs) @
             map (disable_step email) (of_types account_disable_types cs) @
             map (remove_step email) (of_types removal_types cs) @
             (if truthy (dget_or payload ''isolate_endpoints'' PNone)
              then map (isolate_step email) (of_types [''crowdstrike''] cs) else []) @
             verify_steps email (action_connectors payload cs) [] @
             [report_step email payload])))"

section \<open>The shape of the plan\<close>

definition step_phase :: "pydict \<Rightarrow> int" where
  "step_phase s = (case dget s ''phase'' of Some (PInt i) \<Rightarrow> i | _ \<Rightarrow> 0)"

definition step_conn :: "pydict \<Rightarrow> pyval option" where
  "step_conn s = dget s ''connector_id''"

definition step_key :: "pydict \<Rightarrow> int \<times> pyval option" where
  "step_key s = (step_phase s, step_conn s)"

lemma step_key_simps [simp]:
  "step_key (revoke_step e c) = (1, Some (PStr (rc_connector_id c)))"
  "step_key (disable_step e c) = (2, Some (PStr (rc_connector_id c)))"
  "step_key (remove_step e c) = (3, Some (PStr (rc_connector_id c)))"
  "step_key (isolate_step e c) = (4, Some (PStr (rc_connector_id c)))"
  "step_key (verify_step e c) = (5, Some (PStr (rc_connector_id c)))"
  "step_key (report_step e p) = (6, Some PNone)"
  by (simp_all add: step_key_def step_phase_def step_conn_def revoke_step_def disable_step_def
      remove_step_def isolate_step_def verify_step_def report_step_def Let_def)

lemma number_steps_keys [simp]: "map step_key (number_steps n ss) = map step_key ss"
  by (induction ss arbitrary: n) (simp_all add: step_key_def step_phase_def step_conn_def)

lemma number_steps_length [simp]: "length (number_steps n ss) = length ss"
  by (induction ss arbitrary: n) simp_all

lemma number_steps_number:
  "k < length ss \<Longrightarrow> dget (number_steps n ss ! k) ''step_number'' = Some (PInt (int (n + k)))"
  by (induction ss arbitrary: n k) (auto simp: nth_Cons split: nat.splits)

lemma verify_steps_keys:
  "list_all (\<lambda>c. rc_connector_type c \<in> set verify_types) cs \<Longrightarrow>
   distinct (map step_key (verify_steps email cs seen)) \<and>
   set (map step_key (verify_steps email cs seen)) =
     (\<lambda>i. (5, Some (PStr i))) ` (rc_connector_id ` set cs - set seen)"
proof (induction cs arbitrary: seen)
  case Nil
  then show ?case by simp
next
  case (Cons c cs)
  show ?case
  proof (cases "rc_connector_id c \<in> set seen")
    case True
    then show ?thesis using Cons by auto
  next
    case False
    from Cons have "distinct (map step_key (verify_steps email cs (rc_connector_id c # seen))) \<and>
      set (map step_key (verify_steps email cs (rc_connector_id c # seen))) =
        (\<lambda>i. (5, Some (PStr i))) ` (rc_connector_id ` set cs - set (rc_connector_id c # seen))"
      by simp
    then show ?thesis using False Cons.prems by auto
  qed
qed

lemma action_connectors_verified:
  "list_all (\<lambda>c. rc_connector_type c \<in> set verify_types) (action_connectors payload cs)"
  by (auto simp: action_connectors_def of_types_def account_disable_types_def removal_types_def
      verify_types_def list_all_iff)

text \<open>The keys of a plan, phase by phase.\<close>

lemma build_plan_keys:
  assumes "build_plan payload cs = Inr steps"
  obtains email ss where "steps = number_steps 1 ss"
    and "map step_key ss =
      map (\<lambda>c. (1, Some (PStr (rc_connector_id c)))) (of_types session_revoke_types cs) @
      map (\<lambda>c. (2, Some (PStr (rc_connector_id c)))) (of_types account_disable_types cs) @
      map (\<lambda>c. (3, Some (PStr (rc_connector_id c)))) (of_types removal_types cs) @
      (if truthy (dget_or payload ''isolate_endpoints'' PNone)
       then map (\<lambda>c. (4, Some (PStr (rc_connector_id c)))) (of_types [''crowdstrike''] cs) else []) @
      map step_key (verify_steps email (action_connectors payload cs) []) @ [(6, Some PNone)]"
  using assms by (auto simp: build_plan_def comp_def split: option.splits)

text \<open>C5: the offboarding plan. The steps are numbered from one and ordered by phase, with the
  report last, and phase five verifies exactly the connectors on which phases two to four act,
  each of them once.\<close>

theorem offboard_plan_verified:
  assumes "build_plan payload cs = Inr steps"
  shows "sorted (map step_phase steps) \<and>
         (\<forall>k < length steps. dget (steps ! k) ''step_number'' = Some (PInt (int (Suc k)))) \<and>
         step_phase (last steps) = 6 \<and>
         distinct (map step_conn (filter (\<lambda>s. step_phase s = 5) steps)) \<and>
         set (map step_conn (filter (\<lambda>s. step_phase s = 5) steps)) =
           set (map step_conn (filter (\<lambda>s. step_phase s \<in> {2, 3, 4}) steps))"
proof -
  obtain email ss where ss: "steps = number_steps 1 ss" and keys: "map step_key ss =
      map (\<lambda>c. (1, Some (PStr (rc_connector_id c)))) (of_types session_revoke_types cs) @
      map (\<lambda>c. (2, Some (PStr (rc_connector_id c)))) (of_types account_disable_types cs) @
      map (\<lambda>c. (3, Some (PStr (rc_connector_id c)))) (of_types removal_types cs) @
      (if truthy (dget_or payload ''isolate_endpoints'' PNone)
       then map (\<lambda>c. (4, Some (PStr (rc_connector_id c)))) (of_types [''crowdstrike''] cs) else []) @
      map step_key (verify_steps email (action_connectors payload cs) []) @ [(6, Some PNone)]"
    by (rule build_plan_keys [OF assms])
  define V where "V = map step_key (verify_steps email (action_connectors payload cs) [])"
  have V: "distinct V"
    "set V = (\<lambda>i. (5, Some (PStr i))) ` rc_connector_id ` set (action_connectors payload cs)"
    using verify_steps_keys [OF action_connectors_verified, of email payload cs "[]"]
    by (auto simp: V_def)
  then have V5: "\<forall>k \<in> set V. fst k = 5" by auto
  then have V5s: "map fst V = replicate (length V) 5"
    by (simp add: map_replicate_const [symmetric])
  note keys = keys [folded V_def]
  have sk: "map step_key steps = map step_key ss" by (simp add: ss)
  have phases: "map step_phase steps = map fst (map step_key steps)"
    by (simp add: step_key_def)
  have filt: "map step_conn (filter (\<lambda>s. P (step_phase s)) steps) =
      map snd (filter (\<lambda>k. P (fst k)) (map step_key steps))" for P
    by (induction steps) (simp_all add: step_key_def)
  have "sorted (map step_phase steps)"
    unfolding phases sk keys
    using V5 by (cases "truthy (dget_or payload ''isolate_endpoints'' PNone)")
      (auto simp: V5s sorted_append comp_def map_replicate_const)
  moreover have "\<forall>k < length steps. dget (steps ! k) ''step_number'' = Some (PInt (int (Suc k)))"
    by (simp add: ss number_steps_number)
  moreover have "step_phase (last steps) = 6"
  proof -
    have "last (map step_key steps) = (6, Some PNone)" by (simp add: sk keys)
    moreover have "steps \<noteq> []" using sk keys by auto
    ultimately show ?thesis by (simp add: last_map step_key_def)
  qed
  moreover have five: "filter (\<lambda>k. fst k = 5) (map step_key steps) = V"
    unfolding sk keys using V5 by (simp add: filter_id_conv filter_map comp_def)
  moreover have "distinct (map snd V)"
    unfolding distinct_map
  proof (intro conjI inj_onI)
    fix x y assume "x \<in> set V" "y \<in> set V" "snd x = snd y"
    with V5 show "x = y" by (metis prod_eqI)
  qed (rule V(1))
  moreover have "snd ` set V = snd ` {k \<in> set (map step_key steps). fst k \<in> {2, 3, 4}}"
  proof -
    have "{k \<in> set (map step_key steps). fst k \<in> {2, 3, 4}} =
        (\<lambda>c. (2, Some (PStr (rc_connector_id c)))) ` set (of_types account_disable_types cs) \<union>
        (\<lambda>c. (3, Some (PStr (rc_connector_id c)))) ` set (of_types removal_types cs) \<union>
        (if truthy (dget_or payload ''isolate_endpoints'' PNone)
         then (\<lambda>c. (4, Some (PStr (rc_connector_id c)))) ` set (of_types [''crowdstrike''] cs) else {})"
      unfolding sk keys using V5 by auto
    then show ?thesis
      unfolding V(2) action_connectors_def by (auto simp: image_Un image_image)
  qed
  ultimately show ?thesis
    unfolding filt [of "\<lambda>p. p = 5"] filt [of "\<lambda>p. p \<in> {2, 3, 4}"] five by simp
qed

definition example_payload :: pydict where
  "example_payload = [(''target_email'', PStr ''a@b.c'')]"

definition example_connectors :: "resolved_connector list" where
  "example_connectors =
     [\<lparr>rc_connector_id = ''c1'', rc_connector_type = ''okta'', rc_asset_id = None,
        rc_account_identifier = PStr ''u1''\<rparr>,
      \<lparr>rc_connector_id = ''c2'', rc_connector_type = ''github'', rc_asset_id = None,
        rc_account_identifier = PStr ''u2''\<rparr>]"

theorem offboard_plan_verified_witness:
  "map step_key (projr (build_plan example_payload example_connectors)) =
     [(1, Some (PStr ''c1'')), (2, Some (PStr ''c1'')), (3, Some (PStr ''c2'')),
      (5, Some (PStr ''c1'')), (5, Some (PStr ''c2'')), (6, Some PNone)] \<and>
   sorted (map step_phase (projr (build_plan example_payload example_connectors)))"
proof -
  obtain steps where steps: "build_plan example_payload example_connectors = Inr steps"
    by (simp add: build_plan_def example_payload_def)
  then have "map step_key steps =
     [(1, Some (PStr ''c1'')), (2, Some (PStr ''c1'')), (3, Some (PStr ''c2'')),
      (5, Some (PStr ''c1'')), (5, Some (PStr ''c2'')), (6, Some PNone)]"
    by (auto simp: build_plan_def example_payload_def example_connectors_def of_types_def
        session_revoke_types_def account_disable_types_def removal_types_def verify_types_def
        action_connectors_def simp del: number_steps.simps)
  then show ?thesis
    using offboard_plan_verified [OF steps] steps by simp
qed

end
