(* ===== verification/Windows.thy ===== *)
theory Windows
  imports Models
begin

text \<open>
  When changes may run: the freeze check of \<open>backend/app/compliance/freeze.py\<close> and the
  maintenance windows of \<open>routers/maintenance_windows.py\<close> and
  \<open>services/maintenance_window_service.py\<close>. The cron library is the parameter \<open>cron\<close>: for an
  expression and a time, the previous and the next occurrence, or the exception of a bad
  expression. Times are microseconds.
\<close>

section \<open>Change freezes\<close>

text \<open>\<open>getattr(current_user, "roles", []) or []\<close>: the class \<open>User\<close> has a column \<open>role\<close> and no
  attribute \<open>roles\<close>, so this is the default.\<close>

definition user_roles :: "user \<Rightarrow> string list" where
  "user_roles u = []"

definition active_freeze :: "world \<Rightarrow> freeze_window option" where
  "active_freeze w =
     List.find (\<lambda>f. fz_start_at f \<le> w_clock w \<and> w_clock w \<le> fz_end_at f) (w_freezes w)"

definition log_freeze_bypass :: "user \<Rightarrow> freeze_window \<Rightarrow> string \<Rightarrow> unit prog" where
  "log_freeze_bypass user freeze justification =
     catchc (record_event (user_organization_id user) ''change_freeze.bypassed''
               (Some (user_id user)) None)
       (\<lambda>_. ret ())"

definition require_no_active_freeze :: "string option \<Rightarrow> user \<Rightarrow> unit prog" where
  "require_no_active_freeze justification user =
     bindc (gets active_freeze) (\<lambda>active.
       case active of
         None \<Rightarrow> ret ()
       | Some f \<Rightarrow>
           if fz_emergency_bypass_role f \<notin> set (user_roles user)
           then raise (Exn (HTTPException 423) ''change_freeze_active'')
           else (case justification of
                   None \<Rightarrow> raise (Exn (HTTPException 422) ''X-Emergency-Justification header required'')
                 | Some j \<Rightarrow>
                     if j = [] then raise (Exn (HTTPException 422) ''X-Emergency-Justification header required'')
                     else log_freeze_bypass user f j))"

lemma active_freeze_Some_iff:
  "(\<exists>f. active_freeze w = Some f) \<longleftrightarrow>
     (\<exists>f \<in> set (w_freezes w). fz_start_at f \<le> w_clock w \<and> w_clock w \<le> fz_end_at f)"
  by (cases "active_freeze w") (auto simp: active_freeze_def find_None_iff find_Some_iff)

text \<open>No user passes an active freeze; without one every user does, and nothing changes.\<close>

lemma require_no_active_freeze_eq:
  "require_no_active_freeze j u w =
     (if active_freeze w = None then (Inr (), w)
      else (Inl (Exn (HTTPException 423) ''change_freeze_active''), w))"
  by (auto simp: require_no_active_freeze_def user_roles_def split: option.splits)

section \<open>Maintenance windows\<close>

type_synonym cron = "string \<Rightarrow> int \<Rightarrow> exn + int"

definition minutes :: "int \<Rightarrow> int" where
  "minutes n = n * 60000000"

text \<open>\<open>_check_window_open\<close>: whether the window is open now and, if not, when it opens next.
  A cron expression that cannot be read counts as closed.\<close>

definition check_window_open :: "cron \<Rightarrow> cron \<Rightarrow> maintenance_window \<Rightarrow> int \<Rightarrow> bool \<times> int option" where
  "check_window_open prev next window now =
     (if \<not> mw_enabled window then (False, None)
      else case prev (mw_cron_schedule window) now of
        Inl _ \<Rightarrow> (False, None)
      | Inr last_open \<Rightarrow>
          (let window_close = last_open + minutes (mw_duration_minutes window)
           in if last_open \<le> now \<and> now \<le> window_close then (True, None)
              else case next (mw_cron_schedule window) now of
                Inl _ \<Rightarrow> (False, None)
              | Inr next_open \<Rightarrow> (False, Some next_open)))"

fun is_window_open_for_org ::
  "cron \<Rightarrow> cron \<Rightarrow> maintenance_window list \<Rightarrow> string set \<Rightarrow> int \<Rightarrow> bool" where
  "is_window_open_for_org prev next [] atags now = False"
| "is_window_open_for_org prev next (w # ws) atags now =
     (if \<not> mw_enabled w then is_window_open_for_org prev next ws atags now
      else if \<not> fst (check_window_open prev next w now)
      then is_window_open_for_org prev next ws atags now
      else case mw_applies_to_tags w of
        None \<Rightarrow> True
      | Some tags \<Rightarrow>
          if list_ex (\<lambda>t. t \<in> atags) tags then True
          else is_window_open_for_org prev next ws atags now)"

text \<open>\<open>is_in_maintenance_window\<close>: the first enabled window of the given enforcement that covers
  these tags and in which the current time lies. Windows of every organization are read.\<close>

fun first_active_window ::
  "cron \<Rightarrow> maintenance_window list \<Rightarrow> string list \<Rightarrow> int \<Rightarrow> maintenance_window option" where
  "first_active_window prev [] atags now = None"
| "first_active_window prev (w # ws) atags now =
     (let window_tags = (case mw_applies_to_tags w of None \<Rightarrow> [] | Some ts \<Rightarrow> ts)
      in if window_tags \<noteq> [] \<and> \<not> list_ex (\<lambda>t. t \<in> set atags) window_tags
         then first_active_window prev ws atags now
         else case prev (mw_cron_schedule w) now of
           Inl _ \<Rightarrow> first_active_window prev ws atags now
         | Inr prev_start \<Rightarrow>
             if now - prev_start \<le> minutes (mw_duration_minutes w) then Some w
             else first_active_window prev ws atags now)"

definition is_in_maintenance_window ::
  "cron \<Rightarrow> string list \<Rightarrow> string \<Rightarrow> maintenance_window option prog" where
  "is_in_maintenance_window prev atags enforcement =
     gets (\<lambda>w. first_active_window prev
       (filter (\<lambda>m. mw_enabled m \<and> mw_enforcement m = enforcement) (w_windows w))
       atags (w_clock w))"

section \<open>What the windows decide\<close>

definition window_open :: "cron \<Rightarrow> maintenance_window \<Rightarrow> int \<Rightarrow> bool" where
  "window_open prev m now \<longleftrightarrow>
     (\<exists>p. prev (mw_cron_schedule m) now = Inr p \<and> p \<le> now \<and>
          now \<le> p + minutes (mw_duration_minutes m))"

definition window_covers :: "maintenance_window \<Rightarrow> string set \<Rightarrow> bool" where
  "window_covers m tags \<longleftrightarrow>
     (case mw_applies_to_tags m of None \<Rightarrow> True | Some ts \<Rightarrow> set ts \<inter> tags \<noteq> {})"

lemma check_window_open_iff:
  "fst (check_window_open prev next m now) \<longleftrightarrow> mw_enabled m \<and> window_open prev m now"
  by (auto simp: check_window_open_def window_open_def Let_def split: sum.splits)

lemma is_window_open_iff:
  "is_window_open_for_org prev next ws tags now \<longleftrightarrow>
     (\<exists>m \<in> set ws. mw_enabled m \<and> window_open prev m now \<and> window_covers m tags)"
proof (induction ws)
  case Nil
  then show ?case by simp
next
  case (Cons a ws)
  show ?case
    by (cases "mw_applies_to_tags a")
      (auto simp: Cons.IH check_window_open_iff window_covers_def list_ex_iff)
qed

lemma first_active_window_None:
  "first_active_window prev ws tags now = None \<longleftrightarrow>
     (\<forall>m \<in> set ws. (mw_applies_to_tags m \<in> {None, Some []} \<or> window_covers m (set tags)) \<longrightarrow>
        (\<forall>p. prev (mw_cron_schedule m) now = Inr p \<longrightarrow>
           minutes (mw_duration_minutes m) < now - p))"
proof (induction ws)
  case Nil
  then show ?case by simp
next
  case (Cons a ws)
  have covers: "(mw_applies_to_tags a \<in> {None, Some []} \<or> window_covers a (set tags)) \<longleftrightarrow>
      \<not> ((case mw_applies_to_tags a of None \<Rightarrow> [] | Some ts \<Rightarrow> ts) \<noteq> [] \<and>
         \<not> list_ex (\<lambda>t. t \<in> set tags) (case mw_applies_to_tags a of None \<Rightarrow> [] | Some ts \<Rightarrow> ts))"
    by (cases "mw_applies_to_tags a") (auto simp: window_covers_def list_ex_iff)
  show ?case
    unfolding list.set ball_simps covers
    by (cases "prev (mw_cron_schedule a) now") (auto simp: Let_def Cons.IH)
qed

text \<open>An asset inside a window that its tags match and that opened at or before now is found by
  the execution check exactly when the approval check would call the window open: the two
  readers of the table give an open window opposite meanings.\<close>

lemma open_window_found:
  assumes "m \<in> set ws" and "window_open prev m now" and "window_covers m (set tags)"
  shows "first_active_window prev ws tags now \<noteq> None"
proof -
  obtain p where "prev (mw_cron_schedule m) now = Inr p"
    and "now \<le> p + minutes (mw_duration_minutes m)"
    using assms(2) by (auto simp: window_open_def)
  then have "\<not> minutes (mw_duration_minutes m) < now - p" by simp
  with assms(1,3) \<open>prev (mw_cron_schedule m) now = Inr p\<close> show ?thesis
    unfolding first_active_window_None by blast
qed

end
