(* ===== verification/Handlers.thy ===== *)
theory Handlers
  imports Planning Offboard Windows
begin

text \<open>
  The endpoints of a change request (\<open>backend/app/routers/change_requests.py\<close>), plan generation
  (\<open>services/change_plan_service.py\<close>) and the single entry point of execution
  (\<open>services/change_execution_service.py\<close>). A handler is a program on the world for one user;
  ids that the code draws with \<open>uuid4\<close> are arguments. Every handler is one database transaction.
  Work that the code hands to the event loop becomes a task of the world.
\<close>

record config =
  cfg_modules :: module_system
  cfg_catalog :: catalog
  cfg_defs :: "string \<Rightarrow> pydict option"
  cfg_cron_prev :: cron
  cfg_cron_next :: cron

section \<open>Common steps\<close>

definition require :: "bool \<Rightarrow> nat \<Rightarrow> string \<Rightarrow> unit prog" where
  "require b code msg = (if b then ret () else raise (Exn (HTTPException code) msg))"

definition get_cr_or_404 :: "uuid \<Rightarrow> uuid \<Rightarrow> change_request prog" where
  "get_cr_or_404 i org =
     (\<lambda>w. case get_cr w i of
        None \<Rightarrow> (Inl (Exn (HTTPException 404) ''Change request not found''), w)
      | Some c \<Rightarrow>
          if cr_organization_id c = org then (Inr c, w)
          else (Inl (Exn (HTTPException 404) ''Change request not found''), w))"

definition is_approver :: "user \<Rightarrow> bool" where
  "is_approver u \<longleftrightarrow> user_role u = UR_approver \<or> user_role u = UR_admin"

definition set_status :: "uuid \<Rightarrow> change_request_status \<Rightarrow> unit prog" where
  "set_status i s = modifyc (\<lambda>w. upd_cr i (\<lambda>c. c\<lparr>cr_status := s, cr_updated_at := w_clock w\<rparr>) w)"

text \<open>The same without the time stamp, as the bulk operations write it.\<close>

definition set_status_only :: "uuid \<Rightarrow> change_request_status \<Rightarrow> unit prog" where
  "set_status_only i s = modifyc (upd_cr i (\<lambda>c. c\<lparr>cr_status := s\<rparr>))"

text \<open>Ids in the JSON column that name an asset.\<close>

definition real_ids :: "uuid list \<Rightarrow> uuid list" where
  "real_ids = filter (\<lambda>a. a \<noteq> ''None'')"

definition assets_with_ids :: "world \<Rightarrow> uuid list \<Rightarrow> asset list" where
  "assets_with_ids w ids = filter (\<lambda>a. asset_id a \<in> set ids) (w_assets w)"

section \<open>Plan generation\<close>

definition offboard_discovery_types :: "string list" where
  "offboard_discovery_types =
     [''active_directory'', ''okta'', ''entra_id'', ''google_workspace'', ''github'', ''slack'',
      ''crowdstrike'']"

text \<open>One discovery per identity connector of the organization; a failed one is an entry of the
  manifest that found nothing. The code runs them at the same time and reads the results in
  order.\<close>

definition discover_on :: "env \<Rightarrow> pyval \<Rightarrow> connector \<Rightarrow> pydict prog" where
  "discover_on env target_email c =
     (let entry = (\<lambda>found ident details.
            [(''connector_id'', PStr (connector_id c)), (''connector_type'', PStr (connector_type c)),
             (''found'', found), (''account_identifier'', ident), (''details'', details)])
      in catchc
           (bindc (call env (Call_service ''discover_accounts''
               [(''target_email'', target_email), (''connector_type'', PStr (connector_type c)),
                (''connector_id'', PStr (connector_id c))]))
             (\<lambda>r. ret (entry (dget_or r ''found'' (PBool False))
                (dget_or r ''account_identifier'' PNone) (dget_or r ''details'' (PDict [])))))
           (\<lambda>e. ret (entry (PBool False) PNone (PDict [(''error'', PStr (exn_text e))]))))"

definition run_offboard_discovery :: "env \<Rightarrow> pyval \<Rightarrow> uuid \<Rightarrow> pydict list prog" where
  "run_offboard_discovery env target_email org =
     bindc (gets (\<lambda>w. filter (\<lambda>c. connector_organization_id c = org \<and>
         connector_type c \<in> set offboard_discovery_types) (w_connectors w)))
       (mapc (discover_on env target_email))"

definition entry_text :: "pydict \<Rightarrow> string \<Rightarrow> string" where
  "entry_text r k = (case dget_or r k (PStr []) of PStr s \<Rightarrow> s | _ \<Rightarrow> [])"

definition resolved_of :: "pydict \<Rightarrow> resolved_connector" where
  "resolved_of r =
     \<lparr>rc_connector_id = entry_text r ''connector_id'',
      rc_connector_type = entry_text r ''connector_type'', rc_asset_id = None,
      rc_account_identifier = dget_or r ''account_identifier'' PNone\<rparr>"

definition plan_offboard_user ::
  "env \<Rightarrow> change_request \<Rightarrow> asset list \<Rightarrow> safety_review \<Rightarrow> plan_data prog" where
  "plan_offboard_user env cr assets safety =
     (let desired = cr_desired_outcome cr;
          target_email = dget_or desired ''target_email'' PNone
      in if \<not> truthy target_email
         then raise (plan_blocked ''offboard_user requires target_email in desired_outcome'')
         else bindc (run_offboard_discovery env target_email (cr_organization_id cr)) (\<lambda>manifest.
           let discovered = filter (\<lambda>r. truthy (dget_or r ''found'' PNone)) manifest
           in if discovered = [] then raise (plan_blocked ''No accounts found'')
              else bindc (of_sum (build_plan
                       (dput desired ''_discovery_manifest'' (PList (map PDict manifest)))
                       (map resolved_of discovered))) (\<lambda>steps.
                ret \<lparr>pd_generated_steps = steps, pd_preflight_checks = [],
                     pd_blast_radius = calculate_blast_radius assets safety steps,
                     pd_rollback_plan =
                       [(''rollback_capability'', PStr ''full''),
                        (''filo_order'',
                           PStr ''phases 4, 3, 2, 1; phases 5 and 6 have no rollback'')],
                     pd_verification_plan =
                       [(''phase'', PInt 5),
                        (''checks'', PList [PDict
                           [(''name'', PStr ''account_disabled_per_connector''),
                            (''description'', PStr (''Verify account is disabled across all '' @
                               ''connected identity systems''))]])]\<rparr>)))"

definition plan_row :: "uuid \<Rightarrow> plan_data \<Rightarrow> change_plan" where
  "plan_row i pd =
     \<lparr>plan_change_request_id = i, plan_generated_steps = pd_generated_steps pd,
      plan_preflight_checks = pd_preflight_checks pd, plan_blast_radius = pd_blast_radius pd,
      plan_rollback_plan = pd_rollback_plan pd, plan_verification_plan = pd_verification_plan pd\<rparr>"

text \<open>Update the plan of the change request or add one.\<close>

definition save_plan :: "change_plan \<Rightarrow> world \<Rightarrow> world" where
  "save_plan p w =
     (if get_plan w (plan_change_request_id p) = None then w\<lparr>w_plans := w_plans w @ [p]\<rparr>
      else w\<lparr>w_plans := store_row plan_change_request_id p (w_plans w)\<rparr>)"

definition plan_cr :: "config \<Rightarrow> env \<Rightarrow> change_request \<Rightarrow> (change_plan \<times> safety_review) prog" where
  "plan_cr cfg env cr =
     bindc (gets (\<lambda>w. assets_with_ids w (real_ids (cr_target_asset_ids cr)))) (\<lambda>assets.
     bindc (of_sum (score_change_request cr assets)) (\<lambda>safety.
       if is_blocked safety then raise (plan_blocked (concat (sr_blocking_issues safety)))
       else bindc
         (if cr_change_type cr = ''offboard_user'' then plan_offboard_user env cr assets safety
          else of_sum (generate_plan (cfg_modules cfg) (cfg_catalog cfg) (cfg_defs cfg) cr assets safety))
         (\<lambda>pd.
           thenc (modifyc (save_plan (plan_row (cr_id cr) pd)))
           (thenc (modifyc (\<lambda>w. upd_cr (cr_id cr) (\<lambda>c. c\<lparr>cr_risk_level := sr_risk_level safety,
                cr_status := CRS_planned, cr_updated_at := w_clock w\<rparr>) w))
             (ret (plan_row (cr_id cr) pd, safety))))))"

section \<open>Creating and listing\<close>

record change_request_create =
  crc_change_type :: string
  crc_target_asset_ids :: "uuid list"
  crc_desired_outcome :: pydict
  crc_access_expiry :: "int option"

text \<open>A new row with the defaults of the model; \<open>requester_id\<close> and \<open>organization_id\<close> are declared
  \<open>nullable=False\<close>, so an insert without them is an integrity error.\<close>

definition insert_cr :: "uuid option \<Rightarrow> uuid option \<Rightarrow> (uuid \<Rightarrow> uuid \<Rightarrow> change_request) \<Rightarrow> unit prog" where
  "insert_cr org requester row =
     (case org of
        None \<Rightarrow> raise (Exn OtherError ''IntegrityError: organization_id'')
      | Some org' \<Rightarrow>
          (case requester of
             None \<Rightarrow> raise (Exn OtherError ''IntegrityError: requester_id'')
           | Some u \<Rightarrow> modifyc (\<lambda>w. w\<lparr>w_crs := w_crs w @ [row org' u]\<rparr>)))"

definition new_cr ::
  "uuid \<Rightarrow> string \<Rightarrow> uuid list \<Rightarrow> pydict \<Rightarrow> change_request_status \<Rightarrow> int \<Rightarrow> uuid \<Rightarrow> uuid \<Rightarrow>
   change_request" where
  "new_cr i ct targets desired status now org requester =
     \<lparr>cr_id = i, cr_organization_id = org, cr_requester_id = requester, cr_change_type = ct,
      cr_target_asset_ids = targets, cr_desired_outcome = desired, cr_risk_level = RL_medium,
      cr_status = status, cr_verification_status = None, cr_source = None,
      cr_snapshot_before = False, cr_verification_checks = [], cr_priority = ''normal'',
      cr_stateful_approved_at = None, cr_execute_at = None, cr_application_sequence = None,
      cr_applied_at = None, cr_updated_at = now, cr_created_at = now,
      cr_scheduled_rollback_cr_id = None\<rparr>"

text \<open>\<open>schedule_reversal_cr\<close> (\<open>services/scheduled_cr_service.py\<close>): an approved change request, to
  run later, that sets no requester. The delay, a number of hours with a fraction in the code, is in
  microseconds here, as in \<open>crc_access_expiry\<close>.\<close>

definition schedule_reversal_cr ::
  "uuid \<Rightarrow> pydict \<Rightarrow> uuid list \<Rightarrow> int \<Rightarrow> string \<Rightarrow> uuid option \<Rightarrow> uuid prog" where
  "schedule_reversal_cr i params targets execute_after ct org =
     transact (bindc (gets w_clock) (\<lambda>now.
       thenc (insert_cr org None (\<lambda>org' u.
          (new_cr i ct targets (dput params ''_auto_reversal'' (PBool True)) CRS_approved now org' u)
            \<lparr>cr_execute_at := Some (now + execute_after)\<rparr>))
         (ret i)))"

definition list_change_requests ::
  "change_request_status option \<Rightarrow> risk_level option \<Rightarrow> string option \<Rightarrow> uuid option \<Rightarrow> user \<Rightarrow>
   change_request list prog" where
  "list_change_requests status risk ct asset user =
     gets (\<lambda>w.
       let q0 = filter (\<lambda>c. cr_organization_id c = user_organization_id user) (w_crs w);
           q1 = (case status of None \<Rightarrow> q0 | Some s \<Rightarrow> filter (\<lambda>c. cr_status c = s) q0);
           q2 = (case risk of None \<Rightarrow> q1 | Some r \<Rightarrow> filter (\<lambda>c. cr_risk_level c = r) q1);
           q3 = (case ct of None \<Rightarrow> q2 | Some t \<Rightarrow> filter (\<lambda>c. cr_change_type c = t) q2);
           crs = sort_key (\<lambda>c. - cr_created_at c) q3
       in case asset of None \<Rightarrow> crs | Some a \<Rightarrow> filter (\<lambda>c. a \<in> set (cr_target_asset_ids c)) crs)"

text \<open>The request is committed before its reversal is scheduled; a failure to schedule is logged
  and dropped.\<close>

definition create_change_request ::
  "uuid \<Rightarrow> uuid \<Rightarrow> change_request_create \<Rightarrow> user \<Rightarrow> unit prog" where
  "create_change_request i reversal_id body user =
     thenc (transact
       (bindc (gets w_clock) (\<lambda>now.
        thenc (insert_cr (Some (user_organization_id user)) (Some (user_id user))
          (new_cr i (crc_change_type body) (crc_target_asset_ids body) (crc_desired_outcome body)
             CRS_draft now))
         (record_event (user_organization_id user) ''change_request.created''
            (Some (user_id user)) (Some i)))))
       (case crc_access_expiry body of
          None \<Rightarrow> ret ()
        | Some expiry \<Rightarrow>
            whenc (expiry > 0)
              (catchc
                (bindc (schedule_reversal_cr reversal_id (crc_desired_outcome body)
                    (crc_target_asset_ids body) expiry (crc_change_type body @ ''_rollback'')
                    (Some (user_organization_id user)))
                  (\<lambda>rid. modifyc (upd_cr i (\<lambda>c. c\<lparr>cr_scheduled_rollback_cr_id := Some rid\<rparr>))))
                (\<lambda>_. ret ())))"

record batch_create_item =
  bci_change_type :: string
  bci_target_asset_ids :: "uuid list"
  bci_desired_outcome :: pydict
  bci_snapshot_before :: bool
  bci_verification_checks :: "pydict list"

definition batch_create_change_requests :: "(uuid \<times> batch_create_item) list \<Rightarrow> user \<Rightarrow> uuid list prog" where
  "batch_create_change_requests items user =
     transact (bindc (gets w_clock) (\<lambda>now.
       thenc (seqc (map (\<lambda>(i, item).
           insert_cr (Some (user_organization_id user)) (Some (user_id user)) (\<lambda>org u.
             (new_cr i (bci_change_type item) (bci_target_asset_ids item) (bci_desired_outcome item)
               CRS_draft now org u)
               \<lparr>cr_snapshot_before := bci_snapshot_before item,
                cr_verification_checks := bci_verification_checks item\<rparr>)) items))
         (ret (map fst items))))"

section \<open>Planning, submitting, deciding\<close>

definition generate_change_plan :: "config \<Rightarrow> env \<Rightarrow> uuid \<Rightarrow> user \<Rightarrow> change_plan prog" where
  "generate_change_plan cfg env i user =
     transact (bindc (get_cr_or_404 i (user_organization_id user)) (\<lambda>cr.
       thenc (require (cr_status cr = CRS_draft \<or> cr_status cr = CRS_planned) 400
                ''Cannot plan a change request in this status'')
       (thenc (modifyc (\<lambda>w. w\<lparr>w_approvals :=
                 filter (\<lambda>a. ap_change_request_id a \<noteq> cr_id cr) (w_approvals w)\<rparr>))
       (bindc (catchc (plan_cr cfg env cr)
                 (\<lambda>e. if exn_kind e = PlanBlockedError
                      then raise (Exn (HTTPException 422) (exn_text e)) else raise e))
         (\<lambda>(plan, safety).
           thenc (record_event (user_organization_id user) ''change_plan.generated''
                    (Some (user_id user)) (Some (cr_id cr)))
             (ret plan))))))"

definition submit_for_approval :: "env \<Rightarrow> uuid \<Rightarrow> user \<Rightarrow> unit prog" where
  "submit_for_approval env i user =
     transact (bindc (get_cr_or_404 i (user_organization_id user)) (\<lambda>cr.
       thenc (require (cr_status cr = CRS_planned) 400 ''Change request must be in planned status'')
       (bindc (gets (\<lambda>w. get_plan w (cr_id cr))) (\<lambda>plan.
        thenc (require (plan \<noteq> None) 400 ''No change plan exists. Generate a plan first.'')
       (thenc (set_status (cr_id cr) CRS_awaiting_approval)
       (thenc (record_event (user_organization_id user) ''change_request.submitted_for_approval''
                 (Some (user_id user)) (Some (cr_id cr)))
       (bindc (gets (\<lambda>w. filter (\<lambda>u. user_organization_id u = cr_organization_id cr \<and>
                  is_approver u) (w_users w))) (\<lambda>approvers.
        if approvers \<noteq> [] then
          thenc (call env (Call_service ''notification.emit''
             [(''event_type'', PStr ''cr.awaiting_approval''), (''resource_id'', PStr (cr_id cr)),
              (''recipients'', PList (map (\<lambda>u. PStr (user_id u)) approvers))])) (ret ())
        else ret ()))))))))"

text \<open>The maintenance windows of the approver's organization decide whether an approved request
  waits.\<close>

definition approved_status :: "config \<Rightarrow> uuid \<Rightarrow> change_request \<Rightarrow> world \<Rightarrow> change_request_status" where
  "approved_status cfg org cr w =
     (let windows = filter (\<lambda>m. mw_organization_id m = org \<and> mw_enabled m) (w_windows w)
      in if windows \<noteq> [] \<and>
            \<not> is_window_open_for_org (cfg_cron_prev cfg) (cfg_cron_next cfg) windows
               (set (concat (map asset_tags (assets_with_ids w (real_ids (cr_target_asset_ids cr))))))
               (w_clock w)
         then CRS_queued_for_maintenance else CRS_approved)"

definition approvals_of :: "world \<Rightarrow> uuid \<Rightarrow> approval list" where
  "approvals_of w i = filter (\<lambda>a. ap_change_request_id a = i) (w_approvals w)"

fun decision_value :: "approval_decision \<Rightarrow> string" where
  "decision_value AD_approved = ''approved''"
| "decision_value AD_rejected = ''rejected''"

text \<open>\<open>scalar_one_or_none\<close> raises when the query finds more than one row.\<close>

definition no_earlier_decision :: "uuid \<Rightarrow> user \<Rightarrow> unit prog" where
  "no_earlier_decision i user =
     bindc (gets (\<lambda>w. filter (\<lambda>a. user_id (ap_approver a) = user_id user) (approvals_of w i)))
       (\<lambda>existing. case existing of
          [] \<Rightarrow> ret ()
        | [_] \<Rightarrow> raise (Exn (HTTPException 400) ''You have already submitted an approval decision'')
        | _ \<Rightarrow> raise (Exn OtherError ''MultipleResultsFound''))"

definition approve_change_request ::
  "config \<Rightarrow> string option \<Rightarrow> approval_decision \<Rightarrow> uuid \<Rightarrow> user \<Rightarrow> unit prog" where
  "approve_change_request cfg justification decision i user =
     transact (thenc (require_no_active_freeze justification user)
     (bindc (get_cr_or_404 i (user_organization_id user)) (\<lambda>cr.
       thenc (require (cr_status cr = CRS_awaiting_approval) 400 ''Change request is not awaiting approval'')
       (thenc (require (is_approver user) 403 ''Only approvers and admins can approve change requests'')
       (thenc (no_earlier_decision (cr_id cr) user)
       (thenc (modifyc (\<lambda>w. w\<lparr>w_approvals := w_approvals w @
                 [\<lparr>ap_change_request_id = cr_id cr, ap_approver = user, ap_decision = decision\<rparr>]\<rparr>))
       (bindc (gets (\<lambda>w. check_approval_requirements (cr_risk_level cr) (approvals_of w (cr_id cr))))
         (\<lambda>req_check.
           thenc (whenc (decision = AD_approved \<and> ac_satisfied req_check)
                    (bindc (gets (approved_status cfg (user_organization_id user) cr))
                      (set_status (cr_id cr))))
             (record_event (user_organization_id user)
                (''change_request.'' @ decision_value decision)
                (Some (user_id user)) (Some (cr_id cr)))))))))))"

definition reject_change_request :: "uuid \<Rightarrow> user \<Rightarrow> unit prog" where
  "reject_change_request i user =
     transact (bindc (get_cr_or_404 i (user_organization_id user)) (\<lambda>cr.
       thenc (require (cr_status cr = CRS_awaiting_approval) 400 ''Change request is not awaiting approval'')
       (thenc (require (is_approver user) 403 ''Only approvers and admins can reject change requests'')
       (thenc (modifyc (\<lambda>w. w\<lparr>w_approvals := w_approvals w @
                 [\<lparr>ap_change_request_id = cr_id cr, ap_approver = user, ap_decision = AD_rejected\<rparr>]\<rparr>))
       (thenc (set_status (cr_id cr) CRS_rejected)
         (record_event (user_organization_id user) ''change_request.rejected''
            (Some (user_id user)) (Some (cr_id cr))))))))"

definition cancelable_statuses :: "change_request_status list" where
  "cancelable_statuses =
     [CRS_draft, CRS_planned, CRS_awaiting_approval, CRS_approved, CRS_queued_for_maintenance]"

definition cancel_change_request :: "uuid \<Rightarrow> user \<Rightarrow> unit prog" where
  "cancel_change_request i user =
     transact (bindc (get_cr_or_404 i (user_organization_id user)) (\<lambda>cr.
       thenc (require (cr_status cr \<in> set cancelable_statuses) 400
                ''Cannot cancel a change request in this status'')
       (thenc (require (cr_requester_id cr = user_id user \<or> is_approver user) 403
                ''Only the requester, approvers, or admins can cancel a change request'')
       (thenc (set_status (cr_id cr) CRS_rejected)
         (record_event (user_organization_id user) ''change_request.cancelled''
            (Some (user_id user)) (Some (cr_id cr)))))))"

text \<open>One id of a bulk decision: whether the request was decided.\<close>

definition bulk_decide :: "string \<Rightarrow> user \<Rightarrow> uuid \<Rightarrow> bool prog" where
  "bulk_decide decision user i =
     bindc (gets (\<lambda>w. get_cr w i)) (\<lambda>found.
       case found of
         None \<Rightarrow> ret False
       | Some cr \<Rightarrow>
           if cr_organization_id cr = user_organization_id user \<and> cr_status cr = CRS_awaiting_approval
           then if cr_risk_level cr = RL_critical \<and> decision = ''approved'' then ret False
                else if decision = ''approved'' then thenc (set_status_only i CRS_approved) (ret True)
                else thenc (set_status_only i CRS_rejected) (ret True)
           else ret False)"

definition bulk_approve :: "uuid list \<Rightarrow> string \<Rightarrow> user \<Rightarrow> uuid list prog" where
  "bulk_approve ids decision user =
     transact (thenc (require (is_approver user) 403 ''Approver role required'')
       (bindc (mapc (\<lambda>i. bindc (bulk_decide decision user i) (\<lambda>b. ret (i, b))) ids)
         (\<lambda>rs. ret (map fst (filter snd rs)))))"

definition cleanup_stuck_change_requests :: "user \<Rightarrow> uuid list prog" where
  "cleanup_stuck_change_requests user =
     transact (thenc (require (user_role user = UR_admin) 403 ''Insufficient permissions'')
       (\<lambda>w. let stuck = (\<lambda>c. cr_status c \<in> {CRS_executing, CRS_verifying} \<and>
                 cr_organization_id c = user_organization_id user)
            in (Inr (map cr_id (filter stuck (w_crs w))),
                w\<lparr>w_crs := map (\<lambda>c. if stuck c
                   then c\<lparr>cr_status := CRS_failed, cr_updated_at := w_clock w\<rparr> else c) (w_crs w)\<rparr>)))"

section \<open>Execution\<close>

definition executable_statuses :: "change_request_status list" where
  "executable_statuses = [CRS_approved]"

definition valid_sources :: "string list" where
  "valid_sources =
     [''manual'', ''scheduled'', ''recurring_job'', ''maintenance_window_release'', ''api'',
      ''ai_assisted'']"

definition new_run :: "uuid \<Rightarrow> uuid \<Rightarrow> string \<Rightarrow> execution_status \<Rightarrow> int \<Rightarrow> execution_run" where
  "new_run rid i workflow_id status now =
     \<lparr>run_id = rid, run_change_request_id = i, run_workflow_id = workflow_id, run_status = status,
      run_started_at = now, run_completed_at = None, run_result = []\<rparr>"

definition add_run :: "execution_run \<Rightarrow> unit prog" where
  "add_run r = modifyc (\<lambda>w. w\<lparr>w_runs := w_runs w @ [r]\<rparr>)"

text \<open>\<open>ChangeExecutionService.start\<close>. The eight hexadecimal digits of the workflow id come from the
  run's own fresh id.\<close>

definition start_execution :: "uuid \<Rightarrow> uuid \<Rightarrow> uuid \<Rightarrow> string \<Rightarrow> uuid prog" where
  "start_execution rid i actor source =
     transact (bindc (gets (\<lambda>w. get_cr w i)) (\<lambda>found.
       case found of
         None \<Rightarrow> raise (Exn (HTTPException 404) ''Change request not found'')
       | Some cr \<Rightarrow>
           thenc (require (cr_status cr \<in> set executable_statuses) 400 ''Cannot execute CR in this status'')
           (thenc (require (source \<in> set valid_sources) 400 ''Unknown execution source'')
           (bindc (gets w_clock) (\<lambda>now.
            thenc (add_run (new_run rid (cr_id cr) (''wf-cr-'' @ cr_id cr @ ''-'' @ take 8 rid)
                     ES_pending now))
           (thenc (record_event (cr_organization_id cr) ''execution.initiated'' (Some actor)
                     (Some (cr_id cr)))
           (thenc (schedule_task (Task_workflow (cr_id cr) (cr_organization_id cr) actor))
             (ret rid))))))))"

text \<open>Hard windows, asset by asset.\<close>

fun check_hard_windows :: "config \<Rightarrow> uuid list \<Rightarrow> unit prog" where
  "check_hard_windows cfg [] = ret ()"
| "check_hard_windows cfg (a # as) =
     bindc (gets (\<lambda>w. case lookup_row asset_id (w_assets w) a of
         None \<Rightarrow> [] | Some x \<Rightarrow> asset_tags x)) (\<lambda>tags.
     bindc (is_in_maintenance_window (cfg_cron_prev cfg) tags ''hard'') (\<lambda>blocking.
       if blocking \<noteq> None then raise (Exn (HTTPException 423) ''maintenance_window'')
       else check_hard_windows cfg as))"

definition execute_change_request ::
  "config \<Rightarrow> string option \<Rightarrow> uuid \<Rightarrow> uuid \<Rightarrow> user \<Rightarrow> uuid prog" where
  "execute_change_request cfg justification rid i user =
     transact (thenc (require_no_active_freeze justification user)
     (bindc (get_cr_or_404 i (user_organization_id user)) (\<lambda>cr.
       thenc (require (cr_status cr = CRS_approved) 400 ''Change request must be approved before execution'')
       (thenc (if cr_risk_level cr = RL_critical then
                 bindc (gets (\<lambda>w. check_approval_requirements (cr_risk_level cr) (approvals_of w (cr_id cr))))
                   (\<lambda>req_check. require (\<not> ac_no_auto_execute req_check) 400
                      ''Critical risk changes require manual execution authorization'')
               else ret ())
       (thenc (whenc (cr_priority cr \<noteq> ''emergency'')
                 (check_hard_windows cfg (real_ids (cr_target_asset_ids cr))))
         (start_execution rid (cr_id cr) (user_id user) ''manual''))))))"

section \<open>Manual rollback\<close>

text \<open>Later changes on the same assets that are still applied: the query of the FILO check.\<close>

definition blocking_crs :: "world \<Rightarrow> uuid \<Rightarrow> change_request \<Rightarrow> uuid list" where
  "blocking_crs w org cr =
     (case cr_application_sequence cr of
        None \<Rightarrow> []
      | Some n \<Rightarrow>
          if cr_target_asset_ids cr = [] then []
          else map cr_id (sort_key (\<lambda>c. case cr_application_sequence c of None \<Rightarrow> 0 | Some m \<Rightarrow> m)
                 (filter (\<lambda>c. cr_organization_id c = org \<and> cr_id c \<noteq> cr_id cr \<and>
                    (case cr_application_sequence c of None \<Rightarrow> False | Some m \<Rightarrow> m > n) \<and>
                    cr_status c = CRS_completed \<and>
                    list_ex (\<lambda>a. a \<in> set (cr_target_asset_ids cr)) (cr_target_asset_ids c))
                   (w_crs w))))"

datatype rollback_response = Rollback_started uuid | Rollback_conflict "uuid list"

definition manual_rollback :: "uuid \<Rightarrow> uuid \<Rightarrow> uuid \<Rightarrow> user \<Rightarrow> rollback_response prog" where
  "manual_rollback wf_uuid rid i user =
     transact (bindc (get_cr_or_404 i (user_organization_id user)) (\<lambda>cr.
       thenc (require (cr_status cr \<in> {CRS_completed, CRS_failed, CRS_paused}) 400
                ''Can only manually roll back completed, failed, or paused change requests'')
       (thenc (require (is_approver user) 403 ''Only admins and approvers can initiate manual rollback'')
       (bindc (gets (\<lambda>w. blocking_crs w (user_organization_id user) cr)) (\<lambda>blocking.
          if blocking \<noteq> [] then ret (Rollback_conflict blocking)
          else bindc (gets (\<lambda>w. runs_of w (cr_id cr))) (\<lambda>runs.
            let completed = latest_run (filter (\<lambda>r. run_status r = ES_completed) runs);
                latest = (case completed of None \<Rightarrow> latest_run runs | Some r \<Rightarrow> Some r)
            in thenc (require (latest \<noteq> None) 400 ''No execution run found to roll back'')
               (bindc (gets w_clock) (\<lambda>now.
                thenc (add_run (new_run rid (cr_id cr) (''wf-rollback-'' @ cr_id cr @ ''-'' @ wf_uuid)
                         ES_rolling_back now))
               (thenc (set_status (cr_id cr) CRS_executing)
               (thenc (record_event (user_organization_id user) ''rollback.manual_initiated''
                         (Some (user_id user)) (Some (cr_id cr)))
               (thenc (schedule_task (Task_rollback (cr_id cr) rid))
                  (ret (Rollback_started rid)))))))))))))"

section \<open>Resuming a paused change\<close>

text \<open>The common head of the resume endpoints: the row is locked and the change type, the status
  and the role are checked in this order.\<close>

definition paused_cr :: "string list \<Rightarrow> uuid \<Rightarrow> user \<Rightarrow> change_request prog" where
  "paused_cr types i user =
     bindc (get_cr_or_404 i (user_organization_id user)) (\<lambda>cr.
       thenc (require (cr_change_type cr \<in> set types) 400 ''not valid for this change type'')
       (thenc (require (cr_status cr = CRS_paused) 400 ''CR must be paused'')
       (thenc (require (is_approver user) 403 ''Only admins and approvers'')
         (ret cr))))"

definition latest_run_or_404 :: "uuid \<Rightarrow> execution_run prog" where
  "latest_run_or_404 i =
     bindc (gets (\<lambda>w. latest_run (runs_of w i))) (\<lambda>r.
       case r of None \<Rightarrow> raise (Exn (HTTPException 404) ''No execution run found'') | Some run \<Rightarrow> ret run)"

definition set_run_result :: "uuid \<Rightarrow> pydict \<Rightarrow> unit prog" where
  "set_run_result rid d = modifyc (upd_run rid (\<lambda>r. r\<lparr>run_result := d\<rparr>))"

definition set_run_status :: "uuid \<Rightarrow> execution_status \<Rightarrow> unit prog" where
  "set_run_status rid s = modifyc (upd_run rid (\<lambda>r. r\<lparr>run_status := s\<rparr>))"

text \<open>The first failed step gets a new status and loses its error: whether there was one, and the
  steps.\<close>

fun mark_first_failed :: "string \<Rightarrow> pyval list \<Rightarrow> exn + (bool \<times> pyval list)" where
  "mark_first_failed new [] = Inr (False, [])"
| "mark_first_failed new (v # vs) =
     (case as_dict v of
        Inl e \<Rightarrow> Inl e
      | Inr step \<Rightarrow>
          if dget_or step ''status'' PNone = PStr ''failed''
          then Inr (True, PDict (dput (dput step ''status'' (PStr new)) ''error'' PNone) # vs)
          else (case mark_first_failed new vs of
                  Inl e \<Rightarrow> Inl e
                | Inr (b, ws) \<Rightarrow> Inr (b, v # ws)))"

fun any_status :: "pyval list \<Rightarrow> pyval list \<Rightarrow> exn + bool" where
  "any_status statuses [] = Inr False"
| "any_status statuses (v # vs) =
     (case as_dict v of
        Inl e \<Rightarrow> Inl e
      | Inr step \<Rightarrow>
          if dget_or step ''status'' PNone \<in> set statuses then Inr True else any_status statuses vs)"

definition retry_step :: "uuid \<Rightarrow> user \<Rightarrow> unit prog" where
  "retry_step i user =
     transact (bindc (paused_cr [''credential_rotation''] i user) (\<lambda>cr.
       bindc (latest_run_or_404 i) (\<lambda>run.
       bindc (of_sum (as_list (dget_or (run_result run) ''steps'' (PList [])))) (\<lambda>steps.
       bindc (of_sum (mark_first_failed ''pending'' steps)) (\<lambda>(reset, steps').
         thenc (require reset 409 ''No failed step found to retry'')
         (thenc (set_run_result (run_id run) [(''steps'', PList steps')])
         (thenc (set_status i CRS_executing)
           (schedule_task (Task_resume i)))))))))"

definition skip_step :: "uuid \<Rightarrow> user \<Rightarrow> unit prog" where
  "skip_step i user =
     transact (bindc (paused_cr [''credential_rotation''] i user) (\<lambda>cr.
       bindc (latest_run_or_404 i) (\<lambda>run.
       bindc (of_sum (as_list (dget_or (run_result run) ''steps'' (PList [])))) (\<lambda>steps.
       bindc (of_sum (mark_first_failed ''skipped'' steps)) (\<lambda>(skipped, steps').
         thenc (require skipped 409 ''No failed step found to skip'')
         (thenc (set_run_result (run_id run) [(''steps'', PList steps')])
         (bindc (of_sum (any_status [PStr ''pending'', PStr ''executing''] steps')) (\<lambda>has_more.
            if \<not> has_more then
              thenc (set_status i CRS_completed) (set_run_status (run_id run) ES_completed)
            else thenc (set_status i CRS_executing) (schedule_task (Task_resume i))))))))))"

definition resume_node_upgrade :: "uuid \<Rightarrow> user \<Rightarrow> unit prog" where
  "resume_node_upgrade i user =
     transact (bindc (paused_cr [''k8s_cluster_upgrade''] i user) (\<lambda>cr.
       thenc (set_status i CRS_executing) (schedule_task (Task_resume i))))"

definition remove_keys :: "string list \<Rightarrow> pydict \<Rightarrow> pydict" where
  "remove_keys ks d = filter (\<lambda>(k, _). k \<notin> set ks) d"

text \<open>The first paused pool, or the one paused at the node asked for, skips that node.\<close>

fun skip_paused_pool :: "pyval \<Rightarrow> pyval list \<Rightarrow> exn + (bool \<times> pyval list)" where
  "skip_paused_pool target [] = Inr (False, [])"
| "skip_paused_pool target (v # vs) =
     (case as_dict v of
        Inl e \<Rightarrow> Inl e
      | Inr pool \<Rightarrow>
          if dget_or pool ''result'' PNone = PStr ''paused'' \<and>
             (target = PNone \<or> dget_or pool ''paused_at_node'' PNone = target)
          then (case dget_or pool ''skipped_nodes'' (PList []) of
                  PList nodes \<Rightarrow>
                    Inr (True, PDict (remove_keys [''paused_at_node'', ''drain_error'', ''pdb_violations'']
                      (dput (dput pool ''skipped_nodes''
                         (PList (nodes @ [dget_or pool ''paused_at_node'' PNone])))
                         ''result'' (PStr ''pending''))) # vs)
                | _ \<Rightarrow> Inl (Exn TypeError ''can only concatenate list to list''))
          else (case skip_paused_pool target vs of
                  Inl e \<Rightarrow> Inl e
                | Inr (b, ws) \<Rightarrow> Inr (b, v # ws)))"

definition skip_node :: "uuid \<Rightarrow> pydict \<Rightarrow> user \<Rightarrow> unit prog" where
  "skip_node i body user =
     transact (bindc (paused_cr [''k8s_cluster_upgrade''] i user) (\<lambda>cr.
       bindc (latest_run_or_404 i) (\<lambda>run.
       bindc (of_sum (as_list (dget_or (run_result run) ''node_pools'' (PList [])))) (\<lambda>pools.
       bindc (of_sum (skip_paused_pool (dget_or body ''node_name'' PNone) pools)) (\<lambda>(skipped, pools').
         thenc (require skipped 409 ''No paused node found to skip'')
         (thenc (set_run_result (run_id run)
                   (dput (dput (run_result run) ''node_pools'' (PList pools'))
                      ''paused'' (PBool False)))
         (thenc (set_status i CRS_executing)
           (schedule_task (Task_resume i)))))))))"

text \<open>Every item whose verification has not succeeded gets the new verify result.\<close>

fun redo_verify :: "pyval \<Rightarrow> pyval list \<Rightarrow> exn + (bool \<times> pyval list)" where
  "redo_verify new [] = Inr (False, [])"
| "redo_verify new (v # vs) =
     (case as_dict v of
        Inl e \<Rightarrow> Inl e
      | Inr dep \<Rightarrow>
          (case as_dict (or_empty_dict (dget_or dep ''verify_result'' PNone)) of
             Inl e \<Rightarrow> Inl e
           | Inr vr \<Rightarrow>
               (let failed = \<not> truthy (dget_or vr ''success'' PNone)
                in case redo_verify new vs of
                     Inl e \<Rightarrow> Inl e
                   | Inr (b, ws) \<Rightarrow>
                       Inr (failed \<or> b,
                            (if failed then PDict (dput dep ''verify_result'' new) else v) # ws))))"

definition verify_list_key :: "change_request \<Rightarrow> string" where
  "verify_list_key cr =
     (if cr_change_type cr = ''credential_rotation_fanout'' then ''consumers'' else ''dependents'')"

definition retry_verify :: "uuid \<Rightarrow> user \<Rightarrow> unit prog" where
  "retry_verify i user =
     transact (bindc (paused_cr [''certificate_rotation'', ''credential_rotation_fanout'',
                                 ''k8s_cluster_upgrade''] i user) (\<lambda>cr.
       bindc (latest_run_or_404 i) (\<lambda>run.
       bindc (of_sum (as_list (dget_or (run_result run) (verify_list_key cr) (PList [])))) (\<lambda>items.
       bindc (of_sum (redo_verify PNone items)) (\<lambda>(reset, items').
         thenc (require reset 409 ''No failed verify result found to retry'')
         (thenc (set_run_result (run_id run)
                   (dput (dput (run_result run) (verify_list_key cr) (PList items'))
                      ''paused'' (PBool False)))
         (thenc (set_run_status (run_id run) ES_running)
         (thenc (set_status i CRS_executing)
           (schedule_task (Task_resume i))))))))))"

definition skipped_verify :: pyval where
  "skipped_verify = PDict [(''success'', PBool True), (''skipped'', PBool True),
     (''fingerprint'', PNone), (''error'', PNone)]"

definition skip_verify :: "uuid \<Rightarrow> user \<Rightarrow> unit prog" where
  "skip_verify i user =
     transact (bindc (paused_cr [''certificate_rotation'', ''credential_rotation_fanout''] i user) (\<lambda>cr.
       bindc (latest_run_or_404 i) (\<lambda>run.
       bindc (of_sum (as_list (dget_or (run_result run) (verify_list_key cr) (PList [])))) (\<lambda>items.
       bindc (of_sum (redo_verify skipped_verify items)) (\<lambda>(skipped, items').
         thenc (require skipped 409 ''No failed verify result found to skip'')
         (thenc (set_run_result (run_id run)
                   (dput (dput (run_result run) (verify_list_key cr) (PList items'))
                      ''paused'' (PBool False)))
         (thenc (set_run_status (run_id run) ES_completed)
           (set_status i CRS_completed))))))))"

definition confirm_stateful :: "uuid \<Rightarrow> user \<Rightarrow> unit prog" where
  "confirm_stateful i user =
     transact (bindc (get_cr_or_404 i (user_organization_id user)) (\<lambda>cr.
       thenc (require (cr_change_type cr = ''agent_containerize_auto'') 400
                ''confirm-stateful is only valid for agent_containerize_auto change requests'')
       (thenc (require (cr_status cr \<notin> {CRS_completed, CRS_failed, CRS_rolled_back}) 400
                ''Cannot confirm stateful gate on a terminal CR'')
         (if cr_stateful_approved_at cr \<noteq> None then ret ()
          else thenc (modifyc (\<lambda>w. upd_cr i (\<lambda>c. c\<lparr>cr_stateful_approved_at := Some (w_clock w)\<rparr>) w))
            (record_event (user_organization_id user) ''containerize_auto.stateful_confirmed''
               (Some (user_id user)) (Some (cr_id cr)))))))"

section \<open>Requests\<close>

text \<open>One constructor per endpoint that changes state; the ids drawn by the code come first.\<close>

datatype request =
    Create uuid uuid change_request_create
  | Batch_create "(uuid \<times> batch_create_item) list"
  | Plan uuid
  | Submit uuid
  | Approve "string option" approval_decision uuid
  | Reject uuid
  | Cancel uuid
  | Bulk_approve "uuid list" string
  | Cleanup_stuck
  | Execute "string option" uuid uuid
  | Rollback uuid uuid uuid
  | Retry_step uuid
  | Skip_step uuid
  | Resume_node_upgrade uuid
  | Skip_node uuid pydict
  | Retry_verify uuid
  | Skip_verify uuid
  | Confirm_stateful uuid

definition voidc :: "'a prog \<Rightarrow> unit prog" where
  "voidc m = bindc m (\<lambda>_. ret ())"

fun handle :: "config \<Rightarrow> env \<Rightarrow> request \<Rightarrow> user \<Rightarrow> unit prog" where
  "handle cfg env (Create i rid body) user = create_change_request i rid body user"
| "handle cfg env (Batch_create items) user = voidc (batch_create_change_requests items user)"
| "handle cfg env (Plan i) user = voidc (generate_change_plan cfg env i user)"
| "handle cfg env (Submit i) user = submit_for_approval env i user"
| "handle cfg env (Approve j d i) user = approve_change_request cfg j d i user"
| "handle cfg env (Reject i) user = reject_change_request i user"
| "handle cfg env (Cancel i) user = cancel_change_request i user"
| "handle cfg env (Bulk_approve ids d) user = voidc (bulk_approve ids d user)"
| "handle cfg env Cleanup_stuck user = voidc (cleanup_stuck_change_requests user)"
| "handle cfg env (Execute j rid i) user = voidc (execute_change_request cfg j rid i user)"
| "handle cfg env (Rollback u rid i) user = voidc (manual_rollback u rid i user)"
| "handle cfg env (Retry_step i) user = retry_step i user"
| "handle cfg env (Skip_step i) user = skip_step i user"
| "handle cfg env (Resume_node_upgrade i) user = resume_node_upgrade i user"
| "handle cfg env (Skip_node i body) user = skip_node i body user"
| "handle cfg env (Retry_verify i) user = retry_verify i user"
| "handle cfg env (Skip_verify i) user = skip_verify i user"
| "handle cfg env (Confirm_stateful i) user = confirm_stateful i user"

end
