(* ===== verification/Actions.thy ===== *)
theory Actions
  imports Catalog Texts Handlers
begin

text \<open>
  Running one catalog action (\<open>services/connector_service.py\<close>) and finding the connector to run
  it with. An \<open>integration\<close> is what the services reach outside the database: the executor
  modules, the catalog, the connectors whose stored credentials do not decrypt, the decrypted credentials
  of the others (empty for a connector without any), and what the X.509 library reads from a certificate: its fingerprint
  (\<open>_pem_fingerprint\<close>) and its expiry, if it parses. The
  inventory row that an executor may ask for (\<open>_auto_asset\<close>) is written by a service call.
\<close>

record integration =
  ig_modules :: module_system
  ig_catalog :: catalog
  ig_unreadable :: "uuid \<Rightarrow> exn option"
  ig_credentials :: "uuid \<Rightarrow> pydict"
  ig_fingerprint :: "string \<Rightarrow> string"
  ig_not_after :: "string \<Rightarrow> int option"

section \<open>Reading steps\<close>

text \<open>\<open>d[k]\<close>.\<close>

definition dindex :: "pydict \<Rightarrow> string \<Rightarrow> exn + pyval" where
  "dindex d k = (case dget d k of None \<Rightarrow> Inl (Exn KeyError k) | Some v \<Rightarrow> Inr v)"

text \<open>A connector type or an action id read from JSON. A value that is no string is in no catalog
  and is no connector type, and neither is the empty string.\<close>

definition text_of :: "pyval \<Rightarrow> string" where
  "text_of v = (case v of PStr s \<Rightarrow> s | _ \<Rightarrow> [])"

lemma dindex_Inr [simp]: "dindex d k = Inr v \<longleftrightarrow> dget d k = Some v"
  by (simp add: dindex_def split: option.splits)

lemma text_of_PStr [simp]: "text_of (PStr s) = s"
  by (simp add: text_of_def)

text \<open>\<open>v or w\<close>.\<close>

definition por :: "pyval \<Rightarrow> pyval \<Rightarrow> pyval" where
  "por v w = (if truthy v then v else w)"

section \<open>Connectors\<close>

text \<open>\<open>order_by(created_at.desc()).limit(1)\<close>.\<close>

fun latest_by :: "('a \<Rightarrow> int) \<Rightarrow> 'a list \<Rightarrow> 'a option" where
  "latest_by key [] = None"
| "latest_by key (x # xs) =
     (case latest_by key xs of
        None \<Rightarrow> Some x
      | Some y \<Rightarrow> Some (if key y > key x then y else x))"

lemma latest_by_None [simp]: "latest_by key xs = None \<longleftrightarrow> xs = []"
  by (induction xs) (auto split: option.splits)

lemma latest_by_in: "latest_by key xs = Some x \<Longrightarrow> x \<in> set xs"
  by (induction xs arbitrary: x) (auto split: option.splits if_splits)

lemma latest_by_max: "latest_by key xs = Some x \<Longrightarrow> y \<in> set xs \<Longrightarrow> key y \<le> key x"
  by (induction xs arbitrary: x y) (force split: option.splits if_splits)+

definition connectors_of :: "world \<Rightarrow> uuid \<Rightarrow> string \<Rightarrow> connector list" where
  "connectors_of w org ct =
     filter (\<lambda>c. connector_organization_id c = org \<and> connector_type c = ct) (w_connectors w)"

definition attach_credentials :: "integration \<Rightarrow> connector \<Rightarrow> unit prog" where
  "attach_credentials ig c =
     (case ig_unreadable ig (connector_id c) of None \<Rightarrow> ret () | Some e \<Rightarrow> raise e)"

text \<open>\<open>_resolve_connector\<close>: the newest connector of the type in the organization. Any failure of the
  lookup is logged and gives no connector.\<close>

definition resolve_connector :: "integration \<Rightarrow> string \<Rightarrow> uuid \<Rightarrow> connector option prog" where
  "resolve_connector ig ct org =
     catchc
       (bindc (of_sum (connector_type_of ct)) (\<lambda>ct_enum.
        bindc (gets (\<lambda>w. latest_by connector_created_at (connectors_of w org ct_enum))) (\<lambda>found.
          case found of
            None \<Rightarrow> ret None
          | Some c \<Rightarrow> thenc (attach_credentials ig c) (ret (Some c)))))
       (\<lambda>_. ret None)"

section \<open>One action\<close>

definition upsert_auto_asset :: "env \<Rightarrow> pyval \<Rightarrow> connector \<Rightarrow> pydict prog" where
  "upsert_auto_asset env payload c =
     call env (Call_service ''upsert_auto_asset''
       [(''payload'', payload), (''organization_id'', PStr (connector_organization_id c)),
        (''connector_id'', PStr (connector_id c))])"

definition run_executor ::
  "integration \<Rightarrow> env \<Rightarrow> string \<Rightarrow> string \<Rightarrow> pydict \<Rightarrow> uuid list \<Rightarrow> connector option \<Rightarrow> pydict prog" where
  "run_executor ig env ct action params assets conn =
     bindc (catchc (of_sum (get_executor (ig_modules ig) (ig_catalog ig) ct action))
              (\<lambda>e. if exn_kind e \<in> {KeyError, ImportError, ValueError}
                   then raise (Exn ConnectorError (exn_text e)) else raise e)) (\<lambda>executor.
       if em_has_execute executor
       then call env (Call_execute ct action params assets (map_option connector_id conn))
       else raise (Exn AttributeError ''module has no attribute execute''))"

text \<open>\<open>execute_action\<close>. Its callers give a database session whenever they have a connector.\<close>

definition execute_action ::
  "integration \<Rightarrow> env \<Rightarrow> string \<Rightarrow> string \<Rightarrow> pydict \<Rightarrow> uuid list \<Rightarrow> connector option \<Rightarrow> pydict prog" where
  "execute_action ig env ct action params assets conn =
     thenc (case conn of None \<Rightarrow> ret () | Some c \<Rightarrow> attach_credentials ig c)
     (bindc (run_executor ig env ct action params assets conn) (\<lambda>result.
        case conn of
          None \<Rightarrow> ret result
        | Some c \<Rightarrow>
            (case dget result ''_auto_asset'' of
               None \<Rightarrow> ret result
             | Some payload \<Rightarrow>
                 bindc (upsert_auto_asset env payload c) (\<lambda>asset.
                   ret (dput (remove_keys [''_auto_asset''] result) ''_auto_asset_id''
                          (dget_or asset ''id'' PNone))))))"

section \<open>Checks\<close>

text \<open>Preflight and verification checks of the plan: every check that has a name (and, to verify, a
  description) passes.\<close>

fun passed_checks ::
  "string list \<Rightarrow> (pydict \<Rightarrow> string) \<Rightarrow> pydict list \<Rightarrow> exn + pyval list" where
  "passed_checks keys detail [] = Inr []"
| "passed_checks keys detail (c # cs) =
     (case List.find (\<lambda>k. dget c k = None) keys of
        Some k \<Rightarrow> Inl (Exn KeyError k)
      | None \<Rightarrow>
          (case passed_checks keys detail cs of
             Inl e \<Rightarrow> Inl e
           | Inr rs \<Rightarrow>
               Inr (PDict [(''name'', dget_or c ''name'' PNone), (''passed'', PBool True),
                           (''detail'', PStr (detail c))] # rs)))"

definition run_preflight_checks :: "pydict list \<Rightarrow> exn + pydict" where
  "run_preflight_checks checks =
     (case passed_checks [''name''] (\<lambda>_. ''Check passed'') checks of
        Inl e \<Rightarrow> Inl e
      | Inr rs \<Rightarrow> Inr [(''all_passed'', PBool True), (''results'', PList rs)])"

fun as_dicts :: "pyval list \<Rightarrow> exn + pydict list" where
  "as_dicts [] = Inr []"
| "as_dicts (v # vs) =
     (case as_dict v of
        Inl e \<Rightarrow> Inl e
      | Inr d \<Rightarrow> (case as_dicts vs of Inl e \<Rightarrow> Inl e | Inr ds \<Rightarrow> Inr (d # ds)))"

lemma as_dicts_map [simp]: "as_dicts (map PDict ds) = Inr ds"
  by (induction ds) simp_all

definition run_verification_checks :: "pydict \<Rightarrow> exn + pydict" where
  "run_verification_checks verification_plan =
     (case as_list (dget_or verification_plan ''checks'' (PList [])) of
        Inl e \<Rightarrow> Inl e
      | Inr vs \<Rightarrow>
          (case as_dicts vs of
             Inl e \<Rightarrow> Inl e
           | Inr checks \<Rightarrow>
               (case passed_checks [''name'', ''description'']
                       (\<lambda>c. ''Mock verification passed: '' @
                          text_of (dget_or c ''description'' PNone)) checks of
                  Inl e \<Rightarrow> Inl e
                | Inr rs \<Rightarrow>
                    Inr [(''all_passed'', PBool True), (''results'', PList rs),
                         (''success_criteria'',
                            dget_or verification_plan ''success_criteria'' (PStr []))])))"

section \<open>What an action does to the world\<close>

text \<open>The connector that \<open>resolve_connector\<close> finds; looking it up changes nothing.\<close>

definition found_connector :: "integration \<Rightarrow> connector list \<Rightarrow> string \<Rightarrow> uuid \<Rightarrow> connector option" where
  "found_connector ig conns ct org =
     (if ct \<notin> set connector_types then None
      else case latest_by connector_created_at
              (filter (\<lambda>c. connector_organization_id c = org \<and> connector_type c = ct) conns) of
             None \<Rightarrow> None
           | Some c \<Rightarrow> if ig_unreadable ig (connector_id c) = None then Some c else None)"

lemma resolve_connector_apply [comp_simps]:
  "resolve_connector ig ct org w = (Inr (found_connector ig (w_connectors w) ct org), w)"
  by (auto simp: resolve_connector_def found_connector_def connectors_of_def connector_type_of_def
      attach_credentials_def comp_simps split: option.splits)

lemma found_connector_of:
  "found_connector ig conns ct org = Some c \<Longrightarrow>
   c \<in> set conns \<and> connector_organization_id c = org \<and> connector_type c = ct"
  by (auto simp: found_connector_def split: if_splits option.splits dest!: latest_by_in)

text \<open>The calls of one action: none when its executor or credentials are missing, else one call of
  the executor and perhaps one of the inventory.\<close>

definition action_calls ::
  "string \<Rightarrow> string \<Rightarrow> pydict \<Rightarrow> uuid list \<Rightarrow> connector option \<Rightarrow> ext_call list \<Rightarrow> bool" where
  "action_calls ct action params assets conn cs \<longleftrightarrow>
     cs = [] \<or>
     cs = [Call_execute ct action params assets (map_option connector_id conn)] \<or>
     (\<exists>p. cs = [Call_execute ct action params assets (map_option connector_id conn),
                 Call_service ''upsert_auto_asset'' p])"

definition with_calls :: "ext_call list \<Rightarrow> world \<Rightarrow> world" where
  "with_calls cs w = w\<lparr>w_calls := w_calls w @ cs\<rparr>"

lemma with_calls_frame [simp]:
  "get_cr (with_calls cs w) = get_cr w" "get_run (with_calls cs w) = get_run w"
  "w_connectors (with_calls cs w) = w_connectors w" "w_runs (with_calls cs w) = w_runs w"
  "w_crs (with_calls cs w) = w_crs w" "w_clock (with_calls cs w) = w_clock w"
  "w_audit (with_calls cs w) = w_audit w" "w_tasks (with_calls cs w) = w_tasks w"
  "w_plans (with_calls cs w) = w_plans w" "w_assets (with_calls cs w) = w_assets w"
  "w_calls (with_calls cs w) = w_calls w @ cs" "with_calls [] w = w"
  by (auto simp: with_calls_def get_cr_def get_run_def)

lemma with_calls_with_calls [simp]: "with_calls cs (with_calls ds w) = with_calls (ds @ cs) w"
  by (simp add: with_calls_def)

lemma call_apply [comp_simps]: "call env c w = (env (w_calls w) c, with_calls [c] w)"
  by (simp add: call_def with_calls_def)

lemma run_executor_calls:
  "run_executor ig env ct action params assets conn w = (x, t) \<Longrightarrow>
   (\<exists>e. x = Inl e \<and> t = w) \<or>
   t = with_calls [Call_execute ct action params assets (map_option connector_id conn)] w \<and>
   x = env (w_calls w) (Call_execute ct action params assets (map_option connector_id conn))"
  by (auto simp: run_executor_def comp_simps split: sum.splits if_splits)

lemma execute_action_calls:
  assumes "execute_action ig env ct action params assets conn w = (x, t)"
  shows "\<exists>cs. t = with_calls cs w \<and> action_calls ct action params assets conn cs \<and>
           (cs = [] \<longrightarrow> isl x)"
proof (cases "\<exists>e. run_executor ig env ct action params assets conn w = (Inl e, w)")
  case True
  then show ?thesis using assms
    by (intro exI [of _ "[]"])
      (auto simp: execute_action_def attach_credentials_def comp_simps action_calls_def
         split: option.splits)
next
  case False
  let ?c = "Call_execute ct action params assets (map_option connector_id conn)"
  obtain y u where run: "run_executor ig env ct action params assets conn w = (y, u)" by fastforce
  with False run_executor_calls [OF run] have u: "u = with_calls [?c] w" by auto
  show ?thesis
  proof (cases "\<exists>e. (case conn of None \<Rightarrow> ret () | Some c \<Rightarrow> attach_credentials ig c) w = (Inl e, w)")
    case True
    with assms show ?thesis
      by (intro exI [of _ "[]"]) (auto simp: execute_action_def comp_simps action_calls_def)
  next
    case False
    then have "(case conn of None \<Rightarrow> ret () | Some c \<Rightarrow> attach_credentials ig c) w = (Inr (), w)"
      by (auto simp: attach_credentials_def split: option.splits)
    with assms run u show ?thesis
      by (cases y)
        (auto simp: execute_action_def upsert_auto_asset_def comp_simps action_calls_def
          split: option.splits sum.splits)
  qed
qed

end
