(* ===== verification/Unwind.thy ===== *)
theory Unwind
  imports Prelude
begin

text \<open>
  The contract of a rollback that unwinds a stack of applied items, last in first out: credential
  rotations, fan-outs and change plans each undo their items one by one and go on after a
  failure. What an item's undoing promises is the locale \<open>filo_unwind\<close>; that the whole
  unwinding visits every item once, in reverse order, and ends, is proved here once.
\<close>

text \<open>\<open>history\<close> is the calls made to the outside, \<open>view\<close> the part of the state that undoing an
  item leaves alone, \<open>good\<close> the items that the forward execution can have stored, and \<open>shape\<close>
  what the calls and the result of undoing one item can be.\<close>

locale filo_unwind =
  fixes undo :: "'i \<Rightarrow> ('s, 'r) comp"
    and history :: "'s \<Rightarrow> 'c list"
    and view :: "'s \<Rightarrow> 'v"
    and good :: "'i \<Rightarrow> bool"
    and shape :: "'v \<Rightarrow> 'i \<Rightarrow> 'c list \<Rightarrow> 'r \<Rightarrow> bool"
  assumes undo_returns:
    "good i \<Longrightarrow> \<exists>r cs t. undo i s = (Inr r, t) \<and> history t = history s @ cs \<and>
       view t = view s \<and> shape (view s) i cs r"
begin

text \<open>Forwards over any list of items.\<close>

lemma undo_all:
  "list_all good items \<Longrightarrow>
   \<exists>rs css t. mapc undo items s = (Inr rs, t) \<and> history t = history s @ concat css \<and>
     view t = view s \<and> length rs = length items \<and> length css = length items \<and>
     (\<forall>k < length items. shape (view s) (items ! k) (css ! k) (rs ! k))"
proof (induction items arbitrary: s)
  case Nil
  show ?case by (rule exI [of _ "[]"], rule exI [of _ "[]"]) simp
next
  case (Cons i items)
  from Cons.prems have "good i" and rest: "list_all good items" by auto
  from undo_returns [OF \<open>good i\<close>, of s] obtain r cs u
    where u: "undo i s = (Inr r, u)" "history u = history s @ cs" "view u = view s"
      and sh: "shape (view s) i cs r" by blast
  from Cons.IH [OF rest, of u] obtain rs css t
    where t: "mapc undo items u = (Inr rs, t)" "history t = history u @ concat css"
        "view t = view u" "length rs = length items" "length css = length items"
      and sh': "\<forall>k < length items. shape (view u) (items ! k) (css ! k) (rs ! k)" by blast
  have "mapc undo (i # items) s = (Inr (r # rs), t)"
    using u(1) t(1) by (simp add: bindc_apply)
  moreover have "history t = history s @ concat (cs # css)" using u t by simp
  moreover have "\<forall>k < length (i # items).
      shape (view s) ((i # items) ! k) ((cs # css) ! k) ((r # rs) ! k)"
    using sh sh' u(3) by (auto simp: less_Suc_eq_0_disj)
  ultimately show ?case using u(3) t(3-5)
    by (intro exI [of _ "r # rs"] exI [of _ "cs # css"] exI [of _ t]) simp
qed

text \<open>The unwinding: item \<open>k\<close> is undone after every item stacked on it.\<close>

lemma unwind:
  assumes "list_all good items"
  shows "\<exists>rs css t. mapc undo (rev items) s = (Inr rs, t) \<and> history t = history s @ concat css \<and>
     view t = view s \<and> length rs = length items \<and> length css = length items \<and>
     (\<forall>k < length items.
        shape (view s) (items ! k) (css ! (length items - Suc k)) (rs ! (length items - Suc k)))"
proof -
  have "list_all good (rev items)" using assms by simp
  from undo_all [OF this, of s] obtain rs css t
    where t: "mapc undo (rev items) s = (Inr rs, t)" "history t = history s @ concat css"
        "view t = view s" "length rs = length items" "length css = length items"
      and sh: "\<forall>k < length items. shape (view s) (rev items ! k) (css ! k) (rs ! k)" by auto
  have "shape (view s) (items ! k) (css ! (length items - Suc k)) (rs ! (length items - Suc k))"
    if "k < length items" for k
    using sh [rule_format, of "length items - Suc k"] that by (simp add: rev_nth)
  with t show ?thesis by blast
qed

lemma unwind_keeps:
  assumes "list_all good items" and "mapc undo (rev items) s = (x, t)"
  shows "isl x = False" and "view t = view s" and "\<exists>cs. history t = history s @ cs"
  using unwind [OF assms(1), of s] assms(2) by auto

end

end
