(* ===== verification/Lifecycle.thy ===== *)
theory Lifecycle
  imports Handlers
begin

text \<open>
  What the endpoints do to change requests. \<open>lifecycle_step\<close> is the abstract state machine of a
  change request as seen by the endpoints; \<open>effect\<close> says that every request moves between the
  table of change requests before and after only along its edges, changes no field that
  identifies a request, and leaves the requests of other organizations alone. \<open>leads\<close> is the
  judgement that carries the proofs: from a table the program, if it returns, ends in a table
  that satisfies the postcondition.
\<close>

section \<open>The state machine\<close>

inductive lifecycle_step :: "change_request_status \<Rightarrow> change_request_status \<Rightarrow> bool" where
  plan: "s \<in> {CRS_draft, CRS_planned} \<Longrightarrow> lifecycle_step s CRS_planned"
| submit: "lifecycle_step CRS_planned CRS_awaiting_approval"
| approve: "lifecycle_step CRS_awaiting_approval CRS_approved"
| queue: "lifecycle_step CRS_awaiting_approval CRS_queued_for_maintenance"
| reject: "lifecycle_step CRS_awaiting_approval CRS_rejected"
| cancel: "s \<in> set cancelable_statuses \<Longrightarrow> lifecycle_step s CRS_rejected"
| cleanup: "s \<in> {CRS_executing, CRS_verifying} \<Longrightarrow> lifecycle_step s CRS_failed"
| rollback: "s \<in> {CRS_completed, CRS_failed, CRS_paused} \<Longrightarrow> lifecycle_step s CRS_executing"
| skip_rest: "lifecycle_step CRS_paused CRS_completed"

inductive_simps lifecycle_from_terminal:
  "lifecycle_step CRS_rejected t" "lifecycle_step CRS_cancelled t"
  "lifecycle_step CRS_rolled_back t" "lifecycle_step CRS_rollback_failed t"
  "lifecycle_step CRS_queued_for_maintenance t" "lifecycle_step CRS_approved t"

inductive_cases lifecycle_to_approvedE: "lifecycle_step s CRS_approved"

text \<open>One request, before and after: the same identity, and a status reached by at most one
  edge into the given set.\<close>

definition same_identity :: "change_request \<Rightarrow> change_request \<Rightarrow> bool" where
  "same_identity c c' \<longleftrightarrow> cr_id c' = cr_id c \<and> cr_organization_id c' = cr_organization_id c \<and>
     cr_requester_id c' = cr_requester_id c \<and> cr_change_type c' = cr_change_type c \<and>
     cr_target_asset_ids c' = cr_target_asset_ids c \<and>
     cr_desired_outcome c' = cr_desired_outcome c \<and>
     cr_application_sequence c' = cr_application_sequence c"

definition evolves ::
  "change_request_status set \<Rightarrow> change_request \<Rightarrow> change_request \<Rightarrow> bool" where
  "evolves S c c' \<longleftrightarrow> same_identity c c' \<and>
     (cr_status c' = cr_status c \<or>
      lifecycle_step (cr_status c) (cr_status c') \<and> cr_status c' \<in> S)"

type_synonym cr_view = "uuid \<Rightarrow> change_request option"

fun row_effect ::
  "uuid \<Rightarrow> change_request_status set \<Rightarrow> change_request option \<Rightarrow> change_request option \<Rightarrow> bool"
where
  "row_effect org S (Some c) (Some c') \<longleftrightarrow>
     evolves S c c' \<and> (cr_organization_id c \<noteq> org \<longrightarrow> c' = c)"
| "row_effect org S None (Some c') \<longleftrightarrow>
     cr_status c' = CRS_draft \<and> cr_organization_id c' = org \<and> cr_application_sequence c' = None"
| "row_effect org S (Some c) None \<longleftrightarrow> False"
| "row_effect org S None None \<longleftrightarrow> True"

definition effect :: "uuid \<Rightarrow> change_request_status set \<Rightarrow> cr_view \<Rightarrow> cr_view \<Rightarrow> bool" where
  "effect org S G G' \<longleftrightarrow> (\<forall>j. row_effect org S (G j) (G' j))"

lemma same_identity_refl [simp]: "same_identity c c"
  by (simp add: same_identity_def)

lemma evolves_refl [simp]: "evolves S c c"
  by (simp add: evolves_def)

lemma row_effect_refl [simp]: "row_effect org S z z"
  by (cases z) simp_all

lemma effect_refl [simp]: "effect org S G G"
  by (simp add: effect_def)

text \<open>One row of the caller's organization changed.\<close>

lemma effect_upd:
  assumes "G i = Some c" and "cr_organization_id c = org" and "evolves S c c'"
  shows "effect org S G (G(i \<mapsto> c'))"
  using assms by (auto simp: effect_def)

section \<open>Programs that leave the table alone\<close>

definition frame :: "'a prog \<Rightarrow> bool" where
  "frame m \<longleftrightarrow> (\<forall>G. keeps (\<lambda>w. get_cr w = G) m)"

named_theorems framed \<open>programs that do not change change requests\<close>

lemma frame_apply: "frame m \<Longrightarrow> get_cr (snd (m w)) = get_cr w"
  by (simp add: frame_def keeps_def)

lemma frameI: "(\<And>w. get_cr (snd (m w)) = get_cr w) \<Longrightarrow> frame m"
  by (simp add: frame_def keeps_def)

lemma get_cr_w_crs: "w_crs w = w_crs w' \<Longrightarrow> get_cr w = get_cr w'"
  by (simp add: get_cr_def fun_eq_iff)

lemma frame_basic [framed]:
  "frame (ret x)" "frame (raise e)" "frame (gets f)" "frame (of_sum z)" "frame (require b c msg)"
  "frame (record_event org ty a cr)" "frame (call env k)" "frame (schedule_task t)"
  "frame (add_run r)" "frame (set_run_result rid d)" "frame (set_run_status rid st)"
  "frame (get_cr_or_404 i org)"
  by (auto intro!: frameI get_cr_w_crs
      simp: require_def record_event_def call_def schedule_task_def add_run_def set_run_result_def
        set_run_status_def get_cr_or_404_def split: option.splits)

lemma frame_modifyc [framed]: "(\<And>w. w_crs (f w) = w_crs w) \<Longrightarrow> frame (modifyc f)"
  by (auto intro!: frameI get_cr_w_crs)

lemma frame_bindc [framed]: "frame m \<Longrightarrow> (\<And>x. frame (f x)) \<Longrightarrow> frame (bindc m f)"
  by (simp add: frame_def keeps_bindc)

lemma frame_thenc [framed]: "frame m \<Longrightarrow> frame n \<Longrightarrow> frame (thenc m n)"
  by (simp add: frame_def keeps_thenc)

lemma frame_catchc [framed]: "frame m \<Longrightarrow> (\<And>e. frame (h e)) \<Longrightarrow> frame (catchc m h)"
  by (simp add: frame_def keeps_catchc)

lemma frame_whenc [framed]: "(b \<Longrightarrow> frame m) \<Longrightarrow> frame (whenc b m)"
  by (simp add: frame_def keeps_whenc)

lemma frame_if [framed]: "(b \<Longrightarrow> frame m) \<Longrightarrow> (\<not> b \<Longrightarrow> frame n) \<Longrightarrow> frame (if b then m else n)"
  by simp

lemma frame_mapc [framed]: "(\<And>x. frame (f x)) \<Longrightarrow> frame (mapc f xs)"
  by (induction xs) (auto intro!: framed)

lemma frame_transact [framed]:
  assumes "frame m"
  shows "frame (transact m)"
proof (rule frameI)
  fix w
  show "get_cr (snd (transact m w)) = get_cr w"
  proof (cases "m w")
    case (Pair r t)
    with frame_apply [OF assms, of w] show ?thesis
      by (cases r) (auto simp: transact_def intro!: get_cr_w_crs)
  qed
qed

section \<open>The judgement\<close>

lemma get_cr_id: "get_cr w i = Some c \<Longrightarrow> cr_id c = i"
  by (rule cr_table.fetch_key)

definition leads :: "cr_view \<Rightarrow> 'a prog \<Rightarrow> (cr_view \<Rightarrow> bool) \<Rightarrow> bool" where
  "leads G m Q \<longleftrightarrow> (\<forall>w x t. get_cr w = G \<longrightarrow> m w = (Inr x, t) \<longrightarrow> Q (get_cr t))"

named_theorems led \<open>rules of the leads judgement\<close>

lemma leads_ret [led]: "Q G \<Longrightarrow> leads G (ret x) Q"
  by (simp add: leads_def)

lemma leads_raise [led]: "leads G (raise e) Q"
  by (simp add: leads_def)

lemma leads_frame: "frame m \<Longrightarrow> Q G \<Longrightarrow> leads G m Q"
  unfolding leads_def by (metis frame_apply snd_conv)

lemma leads_bindc_frame:
  assumes "frame m" and "\<And>x. leads G (f x) Q"
  shows "leads G (bindc m f) Q"
  unfolding leads_def
proof (intro allI impI)
  fix w y t assume "get_cr w = G" and run: "bindc m f w = (Inr y, t)"
  from run obtain x u where "m w = (Inr x, u)" and fu: "f x u = (Inr y, t)"
    by (auto simp: bindc_apply split: prod.splits sum.splits)
  then have "get_cr u = G" using frame_apply [OF assms(1), of w] \<open>get_cr w = G\<close> by simp
  with assms(2) fu show "Q (get_cr t)" by (auto simp: leads_def)
qed

lemma leads_thenc_frame: "frame m \<Longrightarrow> leads G n Q \<Longrightarrow> leads G (thenc m n) Q"
  unfolding thenc_def by (rule leads_bindc_frame)

lemma leads_require [led]: "(b \<Longrightarrow> leads G n Q) \<Longrightarrow> leads G (thenc (require b code msg) n) Q"
  by (cases b) (auto simp: require_def leads_def thenc_def)

lemma leads_get [led]:
  assumes "\<And>cr. G i = Some cr \<Longrightarrow> cr_id cr = i \<Longrightarrow> cr_organization_id cr = org \<Longrightarrow> leads G (f cr) Q"
  shows "leads G (bindc (get_cr_or_404 i org) f) Q"
  using assms
  by (auto simp: leads_def bindc_apply get_cr_or_404_def dest: get_cr_id
      split: option.splits if_splits)

lemma leads_modify_then:
  assumes "\<And>w. get_cr w = G \<Longrightarrow> leads (get_cr (f w)) n Q"
  shows "leads G (thenc (modifyc f) n) Q"
  using assms by (auto simp: leads_def)

lemma leads_modify [led]: "(\<And>w. get_cr w = G \<Longrightarrow> Q (get_cr (f w))) \<Longrightarrow> leads G (modifyc f) Q"
  by (auto simp: leads_def)

lemma leads_if [led]:
  "(b \<Longrightarrow> leads G m Q) \<Longrightarrow> (\<not> b \<Longrightarrow> leads G n Q) \<Longrightarrow> leads G (if b then m else n) Q"
  by simp

lemma leads_option [led]:
  "(z = None \<Longrightarrow> leads G m Q) \<Longrightarrow> (\<And>x. z = Some x \<Longrightarrow> leads G (f x) Q) \<Longrightarrow>
   leads G (case z of None \<Rightarrow> m | Some x \<Rightarrow> f x) Q"
  by (cases z) simp_all

lemma leads_whenc_then:
  "(b \<Longrightarrow> leads G (thenc m n) Q) \<Longrightarrow> (\<not> b \<Longrightarrow> leads G n Q) \<Longrightarrow> leads G (thenc (whenc b m) n) Q"
  by (cases b) (simp_all add: whenc_def)

lemma leads_transact: "leads G m Q \<Longrightarrow> leads G (transact m) Q"
  by (auto simp: leads_def transact_def split: prod.splits sum.splits)

lemma leads_voidc: "leads G m Q \<Longrightarrow> leads G (voidc m) Q"
  by (auto simp: leads_def voidc_def bindc_apply split: prod.splits sum.splits)

text \<open>Writing a row that exists.\<close>

lemma get_cr_upd:
  "get_cr w i = Some c \<Longrightarrow> (\<And>c. cr_id (f c) = cr_id c) \<Longrightarrow> get_cr (upd_cr i f w) = (get_cr w)(i \<mapsto> f c)"
  by (rule ext) (simp add: get_cr_upd_cr)

lemma leads_set_status_then:
  assumes "G i = Some c" and "\<And>now. leads (G(i \<mapsto> c\<lparr>cr_status := s, cr_updated_at := now\<rparr>)) n Q"
  shows "leads G (thenc (set_status i s) n) Q"
  unfolding set_status_def
  by (rule leads_modify_then) (use assms in \<open>simp add: get_cr_upd\<close>)

lemma leads_set_status:
  assumes "G i = Some c" and "\<And>now. Q (G(i \<mapsto> c\<lparr>cr_status := s, cr_updated_at := now\<rparr>))"
  shows "leads G (set_status i s) Q"
  unfolding set_status_def
  by (rule leads_modify) (use assms in \<open>simp add: get_cr_upd\<close>)

lemma effect_status:
  assumes "G i = Some c" and "cr_organization_id c = org"
    and "s = cr_status c \<or> lifecycle_step (cr_status c) s \<and> s \<in> S"
  shows "effect org S G (G(i \<mapsto> c\<lparr>cr_status := s, cr_updated_at := now\<rparr>))"
  using assms by (intro effect_upd [where c = c]) (auto simp: evolves_def same_identity_def)

lemma leads_gets:
  assumes "\<And>w. get_cr w = G \<Longrightarrow> leads G (f (g w)) Q"
  shows "leads G (bindc (gets g) f) Q"
  unfolding leads_def
proof (intro allI impI)
  fix w x t assume "get_cr w = G" "bindc (gets g) f w = (Inr x, t)"
  with assms [of w] show "Q (get_cr t)" by (simp add: leads_def)
qed

lemma leads_then_frame:
  assumes "leads G m Q" and "frame n"
  shows "leads G (thenc m n) Q"
  unfolding leads_def
proof (intro allI impI)
  fix w y t assume "get_cr w = G" and run: "thenc m n w = (Inr y, t)"
  from run obtain x u where mu: "m w = (Inr x, u)" and nu: "n u = (Inr y, t)"
    by (auto simp: thenc_apply split: prod.splits sum.splits)
  have "Q (get_cr u)" using assms(1) mu \<open>get_cr w = G\<close> by (auto simp: leads_def)
  then show "Q (get_cr t)" using frame_apply [OF assms(2), of u] nu by simp
qed

lemma leads_weaken: "leads G m R \<Longrightarrow> (\<And>G'. R G' \<Longrightarrow> Q G') \<Longrightarrow> leads G m Q"
  unfolding leads_def by blast

section \<open>Each endpoint\<close>

text \<open>The common end of a handler: one status written, then bookkeeping.\<close>

lemma leads_finish:
  assumes "G (cr_id cr) = Some cr" and "cr_organization_id cr = org"
    and "s = cr_status cr \<or> lifecycle_step (cr_status cr) s \<and> s \<in> S" and "frame n"
  shows "leads G (thenc (set_status (cr_id cr) s) n) (effect org S G)"
  using assms
  by (intro leads_then_frame leads_set_status [where c = cr]) (auto intro: effect_status)

lemma lookup_row_append:
  "lookup_row key (rows @ [r]) k =
     (case lookup_row key rows k of Some q \<Rightarrow> Some q | None \<Rightarrow> if key r = k then Some r else None)"
  by (induction rows) (auto simp: lookup_row_def)

lemma effect_new:
  assumes "get_cr w = G" and "cr_status c = CRS_draft" and "cr_organization_id c = org"
    and "effect org S G0 G" and "cr_application_sequence c = None"
  shows "effect org S G0 (get_cr (w\<lparr>w_crs := w_crs w @ [c]\<rparr>))"
proof -
  have find: "get_cr (w\<lparr>w_crs := w_crs w @ [c]\<rparr>) j =
      (case G j of Some d \<Rightarrow> Some d | None \<Rightarrow> if cr_id c = j then Some c else None)" for j
    by (simp add: assms(1) [symmetric] get_cr_def lookup_row_append)
  show ?thesis
    unfolding effect_def find
  proof
    fix j
    have "row_effect org S (G0 j) (G j)" using assms(4) by (simp add: effect_def)
    then show "row_effect org S (G0 j)
        (case G j of Some d \<Rightarrow> Some d | None \<Rightarrow> if cr_id c = j then Some c else None)"
      using assms(2,3,5) by (cases "G j"; cases "G0 j") auto
  qed
qed

lemma leads_submit: "leads G (submit_for_approval env i user) (effect (user_organization_id user) {CRS_awaiting_approval} G)"
  unfolding submit_for_approval_def
  by (intro leads_transact leads_get leads_require leads_gets leads_finish framed)
    (auto intro: lifecycle_step.intros)

lemma leads_reject: "leads G (reject_change_request i user) (effect (user_organization_id user) {CRS_rejected} G)"
  unfolding reject_change_request_def
  by (intro leads_transact leads_get leads_require leads_finish
      leads_thenc_frame [OF frame_modifyc] framed)
    (auto intro: lifecycle_step.intros)

lemma leads_cancel: "leads G (cancel_change_request i user) (effect (user_organization_id user) {CRS_rejected} G)"
  unfolding cancel_change_request_def
  by (intro leads_transact leads_get leads_require leads_finish framed)
    (auto intro: lifecycle_step.intros)

lemma leads_whenc: "(b \<Longrightarrow> leads G m Q) \<Longrightarrow> (\<not> b \<Longrightarrow> Q G) \<Longrightarrow> leads G (whenc b m) Q"
  by (cases b) (simp_all add: whenc_def leads_ret)

lemma leads_prod: "(\<And>a b. z = (a, b) \<Longrightarrow> leads G (f a b) Q) \<Longrightarrow> leads G (case z of (a, b) \<Rightarrow> f a b) Q"
  by (cases z) simp

lemma leads_bindc_then_frame:
  assumes "leads G m Q" and "\<And>x. frame (f x)"
  shows "leads G (bindc m f) Q"
  unfolding leads_def
proof (intro allI impI)
  fix w y t assume "get_cr w = G" and run: "bindc m f w = (Inr y, t)"
  from run obtain x u where mu: "m w = (Inr x, u)" and fu: "f x u = (Inr y, t)"
    by (auto simp: bindc_apply split: prod.splits sum.splits)
  have "Q (get_cr u)" using assms(1) mu \<open>get_cr w = G\<close> by (auto simp: leads_def)
  then show "Q (get_cr t)" using frame_apply [OF assms(2), of x u] fu by simp
qed

lemma leads_catchc_raise:
  assumes "leads G m Q" and "\<And>e w. \<exists>e'. h e w = (Inl e', w)"
  shows "leads G (catchc m h) Q"
  unfolding leads_def
proof (intro allI impI)
  fix w x t assume "get_cr w = G" and run: "catchc m h w = (Inr x, t)"
  obtain r u where mu: "m w = (r, u)" by (cases "m w")
  show "Q (get_cr t)"
  proof (cases r)
    case (Inl e)
    then show ?thesis using run mu assms(2) [of e u] by (auto simp: catchc_apply)
  next
    case (Inr y)
    then show ?thesis
      using run mu assms(1) \<open>get_cr w = G\<close> by (auto simp: catchc_apply leads_def)
  qed
qed

lemma frame_freeze [framed]: "frame (require_no_active_freeze j user)"
  by (rule frameI) (simp add: require_no_active_freeze_eq)

lemma frame_case_list [framed]:
  "frame m \<Longrightarrow> (\<And>x xs. frame (f x xs)) \<Longrightarrow> frame (case z of [] \<Rightarrow> m | x # xs \<Rightarrow> f x xs)"
  by (cases z) simp_all

lemma frame_no_earlier_decision [framed]: "frame (no_earlier_decision i user)"
  unfolding no_earlier_decision_def by (intro framed)

lemma approved_status_cases: "approved_status cfg org cr w \<in> {CRS_approved, CRS_queued_for_maintenance}"
  by (simp add: approved_status_def Let_def)

lemma leads_approve:
  "leads G (approve_change_request cfg j d i user) (effect (user_organization_id user) {CRS_approved, CRS_queued_for_maintenance} G)"
  unfolding approve_change_request_def
proof (intro leads_transact leads_thenc_frame [OF frame_freeze] leads_get leads_require
    leads_thenc_frame [OF frame_no_earlier_decision] leads_thenc_frame [OF frame_modifyc] leads_gets
    leads_then_frame leads_whenc framed)
  fix cr w w'
  assume "G i = Some cr" "cr_id cr = i" "cr_organization_id cr = user_organization_id user"
    and "cr_status cr = CRS_awaiting_approval"
  then show "leads G (set_status (cr_id cr) (approved_status cfg (user_organization_id user) cr w'))
      (effect (user_organization_id user) {CRS_approved, CRS_queued_for_maintenance} G)"
    using approved_status_cases [of cfg "user_organization_id user" cr w']
    by (intro leads_set_status [where c = cr] effect_status) (auto intro: lifecycle_step.intros)
qed simp_all

lemma frame_discovery [framed]: "frame (run_offboard_discovery env e org)"
  unfolding run_offboard_discovery_def discover_on_def Let_def by (intro framed)

lemma frame_plan_offboard [framed]: "frame (plan_offboard_user env cr assets safety)"
  unfolding plan_offboard_user_def Let_def by (intro framed)

lemma save_plan_crs [simp]: "w_crs (save_plan p w) = w_crs w"
  by (simp add: save_plan_def)

lemma leads_plan_cr:
  assumes "G (cr_id cr) = Some cr" and "cr_organization_id cr = org"
    and "cr_status cr \<in> {CRS_draft, CRS_planned}"
  shows "leads G (plan_cr cfg env cr) (effect org {CRS_planned} G)"
  unfolding plan_cr_def
proof (intro leads_gets leads_bindc_frame [OF frame_basic(4)] leads_if leads_raise
    leads_bindc_frame [OF frame_if] framed)
  fix safety pd
  let ?f = "\<lambda>now c. c\<lparr>cr_risk_level := sr_risk_level safety, cr_status := CRS_planned,
    cr_updated_at := now\<rparr>"
  have "effect org {CRS_planned} G (G(cr_id cr \<mapsto> ?f now cr))" for now
    using assms by (intro effect_upd [where c = cr])
      (auto simp: evolves_def same_identity_def intro: lifecycle_step.intros)
  then have step: "get_cr w = G \<Longrightarrow> effect org {CRS_planned} G (get_cr (upd_cr (cr_id cr) (?f now) w))" for w now
    using assms(1) by (simp add: get_cr_upd)
  show "leads G (thenc (modifyc (save_plan (plan_row (cr_id cr) pd)))
      (thenc (modifyc (\<lambda>w. upd_cr (cr_id cr) (?f (w_clock w)) w))
        (ret (plan_row (cr_id cr) pd, safety)))) (effect org {CRS_planned} G)"
    by (rule leads_thenc_frame [OF frame_modifyc], simp, rule leads_modify_then, rule leads_ret)
      (rule step)
qed

lemma leads_plan: "leads G (generate_change_plan cfg env i user) (effect (user_organization_id user) {CRS_planned} G)"
  unfolding generate_change_plan_def
  by (intro leads_transact leads_get leads_require leads_thenc_frame [OF frame_modifyc]
      leads_bindc_then_frame leads_catchc_raise leads_plan_cr)
    (auto split: prod.splits intro!: framed)

text \<open>Creation. The reversal that \<open>create\<close> tries to schedule is never stored.\<close>

lemma schedule_reversal_fails:
  "org \<noteq> None \<Longrightarrow> schedule_reversal_cr i params targets after ct org w =
     (Inl (Exn OtherError ''IntegrityError: requester_id''), w)"
  by (cases org) (simp_all add: schedule_reversal_cr_def transact_def insert_cr_def thenc_def)

lemma frame_reversal: "frame (catchc (bindc (schedule_reversal_cr i ps ts n ct (Some org)) f) (\<lambda>_. ret ()))"
  by (rule frameI) (simp add: catchc_apply bindc_apply schedule_reversal_fails)

lemma leads_insert:
  assumes "effect org S G0 G" and "cr_status (row org u) = CRS_draft"
    and "cr_organization_id (row org u) = org" and "cr_application_sequence (row org u) = None"
  shows "leads G (insert_cr (Some org) (Some u) row) (effect org S G0)"
  unfolding insert_cr_def option.case
  by (rule leads_modify) (use assms in \<open>simp add: effect_new\<close>)

lemma leads_create: "leads G (create_change_request i rid body user) (effect (user_organization_id user) {} G)"
  unfolding create_change_request_def
proof (intro leads_then_frame leads_transact leads_gets leads_insert frame_basic)
  show "frame (case crc_access_expiry body of None \<Rightarrow> ret ()
      | Some expiry \<Rightarrow> whenc (expiry > 0) (catchc
          (bindc (schedule_reversal_cr rid (crc_desired_outcome body) (crc_target_asset_ids body)
             expiry (crc_change_type body @ ''_rollback'') (Some (user_organization_id user)))
            (\<lambda>rid. modifyc (upd_cr i (\<lambda>c. c\<lparr>cr_scheduled_rollback_cr_id := Some rid\<rparr>))))
          (\<lambda>_. ret ())))"
    by (cases "crc_access_expiry body") (simp_all add: framed frame_whenc frame_reversal)
qed (simp_all add: new_cr_def)

lemma leads_seq_insert:
  assumes "\<And>x. x \<in> set xs \<Longrightarrow> \<exists>row. f x = insert_cr (Some org) (Some u) row \<and>
      cr_status (row org u) = CRS_draft \<and> cr_organization_id (row org u) = org \<and>
      cr_application_sequence (row org u) = None"
    and "effect org S G0 G"
  shows "leads G (seqc (map f xs)) (effect org S G0)"
  using assms
proof (induction xs arbitrary: G)
  case Nil
  then show ?case unfolding list.map seqc.simps by (intro leads_ret)
next
  case (Cons x xs)
  then obtain row where row: "f x = insert_cr (Some org) (Some u) row"
    "cr_status (row org u) = CRS_draft" "cr_organization_id (row org u) = org"
    "cr_application_sequence (row org u) = None"
    by (meson list.set_intros(1))
  have "leads G (thenc (modifyc (\<lambda>w. w\<lparr>w_crs := w_crs w @ [row org u]\<rparr>)) (seqc (map f xs))) (effect org S G0)"
    by (rule leads_modify_then, rule Cons.IH)
      (use Cons.prems row in \<open>auto intro: effect_new\<close>)
  then show ?case unfolding list.map seqc.simps row(1) insert_cr_def option.case .
qed

lemma leads_batch: "leads G (batch_create_change_requests items user) (effect (user_organization_id user) {} G)"
  unfolding batch_create_change_requests_def
  by (intro leads_transact leads_gets leads_then_frame leads_seq_insert [where u = "user_id user"] framed)
    (auto simp: new_cr_def)

text \<open>A bulk decision changes a request at most once, out of \<open>awaiting_approval\<close>.\<close>

definition bulk_row :: "uuid \<Rightarrow> change_request option \<Rightarrow> change_request option \<Rightarrow> bool" where
  "bulk_row org z z' \<longleftrightarrow> z' = z \<or>
     (\<exists>c s. z = Some c \<and> cr_organization_id c = org \<and> cr_status c = CRS_awaiting_approval \<and>
        (s = CRS_approved \<and> cr_risk_level c \<noteq> RL_critical \<or> s = CRS_rejected) \<and>
        z' = Some (c\<lparr>cr_status := s\<rparr>))"

definition bulk_effect :: "uuid \<Rightarrow> cr_view \<Rightarrow> cr_view \<Rightarrow> bool" where
  "bulk_effect org G G' \<longleftrightarrow> (\<forall>j. bulk_row org (G j) (G' j))"

lemma bulk_row_step:
  assumes "bulk_row org z (Some c)" and "cr_organization_id c = org"
    and "cr_status c = CRS_awaiting_approval"
    and "s = CRS_approved \<and> cr_risk_level c \<noteq> RL_critical \<or> s = CRS_rejected"
  shows "bulk_row org z (Some (c\<lparr>cr_status := s\<rparr>))"
proof -
  have "z = Some c" using assms(1,3) by (auto simp: bulk_row_def)
  then show ?thesis unfolding bulk_row_def using assms(2-4) by blast
qed

lemma bulk_effect_step:
  assumes "bulk_effect org G0 G" and "G i = Some c" and "cr_organization_id c = org"
    and "cr_status c = CRS_awaiting_approval"
    and "s = CRS_approved \<and> cr_risk_level c \<noteq> RL_critical \<or> s = CRS_rejected"
  shows "bulk_effect org G0 (G(i \<mapsto> c\<lparr>cr_status := s\<rparr>))"
  unfolding bulk_effect_def
proof
  fix j
  have "bulk_row org (G0 j) (G j)" using assms(1) by (simp add: bulk_effect_def)
  then show "bulk_row org (G0 j) ((G(i \<mapsto> c\<lparr>cr_status := s\<rparr>)) j)"
    using bulk_row_step [of org "G0 i" c s] assms(2-5) by auto
qed

lemma leads_set_status_only:
  assumes "G i = Some c" and "leads (G(i \<mapsto> c\<lparr>cr_status := s\<rparr>)) n Q"
  shows "leads G (thenc (set_status_only i s) n) Q"
  unfolding set_status_only_def
  by (rule leads_modify_then) (use assms in \<open>simp add: get_cr_upd\<close>)

lemma leads_bulk_decide:
  assumes "bulk_effect (user_organization_id user) G0 G"
  shows "leads G (bulk_decide decision user i) (bulk_effect (user_organization_id user) G0)"
  unfolding bulk_decide_def
proof (rule leads_gets)
  fix w assume w: "get_cr w = G"
  show "leads G (case get_cr w i of None \<Rightarrow> ret False
      | Some cr \<Rightarrow> if cr_organization_id cr = user_organization_id user \<and> cr_status cr = CRS_awaiting_approval
          then if cr_risk_level cr = RL_critical \<and> decision = ''approved'' then ret False
               else if decision = ''approved'' then thenc (set_status_only i CRS_approved) (ret True)
               else thenc (set_status_only i CRS_rejected) (ret True)
          else ret False) (bulk_effect (user_organization_id user) G0)"
    unfolding w
  proof (intro leads_option leads_if leads_ret)
    fix cr assume cr: "G i = Some cr" "cr_organization_id cr = user_organization_id user \<and>
      cr_status cr = CRS_awaiting_approval"
    show "leads G (thenc (set_status_only i CRS_approved) (ret True)) (bulk_effect (user_organization_id user) G0)"
      if "\<not> (cr_risk_level cr = RL_critical \<and> decision = ''approved'')" "decision = ''approved''"
      using that cr
      by (intro leads_set_status_only [where c = cr] leads_ret bulk_effect_step [OF assms]) auto
    show "leads G (thenc (set_status_only i CRS_rejected) (ret True)) (bulk_effect (user_organization_id user) G0)"
      using cr
      by (intro leads_set_status_only [where c = cr] leads_ret bulk_effect_step [OF assms]) auto
  qed (simp_all add: assms)
qed

lemma leads_bindc:
  assumes "leads G m R" and "\<And>x G'. R G' \<Longrightarrow> leads G' (f x) Q"
  shows "leads G (bindc m f) Q"
  unfolding leads_def
proof (intro allI impI)
  fix w y t assume "get_cr w = G" and run: "bindc m f w = (Inr y, t)"
  from run obtain x u where mu: "m w = (Inr x, u)" and fu: "f x u = (Inr y, t)"
    by (auto simp: bindc_apply split: prod.splits sum.splits)
  have "R (get_cr u)" using assms(1) mu \<open>get_cr w = G\<close> by (auto simp: leads_def)
  with assms(2) fu show "Q (get_cr t)" by (auto simp: leads_def)
qed

lemma leads_mapc:
  assumes "\<And>x G. I G \<Longrightarrow> leads G (f x) I" and "I G"
  shows "leads G (mapc f xs) I"
  using assms(2)
proof (induction xs arbitrary: G)
  case Nil
  then show ?case unfolding mapc.simps by (intro leads_ret)
next
  case (Cons x xs)
  show ?case
    unfolding mapc.simps
    by (rule leads_bindc [OF assms(1) [OF Cons.prems]], rule leads_bindc_then_frame)
      (auto intro: Cons.IH framed)
qed

lemma bulk_effect_effect: "bulk_effect org G G' \<Longrightarrow> effect org {CRS_approved, CRS_rejected} G G'"
  unfolding bulk_effect_def effect_def
proof
  fix j assume "\<forall>j. bulk_row org (G j) (G' j)"
  then have "bulk_row org (G j) (G' j)" by blast
  then show "row_effect org {CRS_approved, CRS_rejected} (G j) (G' j)"
    by (auto simp: bulk_row_def evolves_def same_identity_def intro: lifecycle_step.intros)
qed

lemma leads_bulk:
  "leads G (bulk_approve ids decision user) (bulk_effect (user_organization_id user) G)"
  unfolding bulk_approve_def
  by (intro leads_transact leads_require leads_bindc_then_frame leads_mapc leads_bulk_decide framed)
    (simp_all add: bulk_effect_def bulk_row_def)

lemma find_map_same_key:
  "(\<And>r. key (f r) = key r) \<Longrightarrow> lookup_row key (map f rows) k = map_option f (lookup_row key rows k)"
  by (induction rows) (simp_all add: lookup_row_def)

lemma leads_cleanup:
  "leads G (cleanup_stuck_change_requests user) (effect (user_organization_id user) {CRS_failed} G)"
proof -
  define stuck where "stuck = (\<lambda>c :: change_request. cr_status c \<in> {CRS_executing, CRS_verifying} \<and>
    cr_organization_id c = user_organization_id user)"
  define fix1 where "fix1 = (\<lambda>now c. if stuck c then c\<lparr>cr_status := CRS_failed, cr_updated_at := now\<rparr> else c)"
  have "get_cr (w\<lparr>w_crs := map (fix1 (w_clock w)) (w_crs w)\<rparr>) j =
      map_option (fix1 (w_clock w)) (get_cr w j)" for w j
    by (simp add: get_cr_def find_map_same_key fix1_def)
  moreover have "row_effect (user_organization_id user) {CRS_failed} z (map_option (fix1 now) z)" for z now
    by (cases z) (auto simp: fix1_def stuck_def evolves_def same_identity_def intro: lifecycle_step.intros)
  ultimately show ?thesis
    unfolding cleanup_stuck_change_requests_def stuck_def [symmetric] fix1_def
    by (intro leads_transact leads_require) (auto simp: leads_def effect_def Let_def)
qed

section \<open>Execution, rollback and resumption\<close>

lemma frame_check_hard_windows [framed]: "frame (check_hard_windows cfg ids)"
proof (induction ids)
  case Nil
  then show ?case unfolding check_hard_windows.simps by (intro framed)
next
  case (Cons a ids)
  then show ?case
    unfolding check_hard_windows.simps is_in_maintenance_window_def by (intro framed)
qed

lemma frame_case_option [framed]:
  "frame m \<Longrightarrow> (\<And>x. frame (f x)) \<Longrightarrow> frame (case z of None \<Rightarrow> m | Some x \<Rightarrow> f x)"
  by (cases z) simp_all

lemma frame_start_execution [framed]: "frame (start_execution rid i actor source)"
  unfolding start_execution_def by (intro framed)

lemma leads_execute:
  "leads G (execute_change_request cfg j rid i user) (effect (user_organization_id user) {} G)"
  unfolding execute_change_request_def by (rule leads_frame) (intro framed, simp)

lemma leads_rollback:
  "leads G (manual_rollback u rid i user) (effect (user_organization_id user) {CRS_executing} G)"
  unfolding manual_rollback_def Let_def
  by (intro leads_transact leads_get leads_require leads_gets leads_if leads_ret leads_finish
      leads_thenc_frame [OF frame_basic(9)] framed)
    (auto intro: lifecycle_step.intros)

lemma leads_paused:
  assumes "\<And>cr. G i = Some cr \<Longrightarrow> cr_organization_id cr = user_organization_id user \<Longrightarrow>
      cr_status cr = CRS_paused \<Longrightarrow> cr_change_type cr \<in> set types \<Longrightarrow> is_approver user \<Longrightarrow> leads G (f cr) Q"
  shows "leads G (bindc (paused_cr types i user) f) Q"
proof -
  have "leads G (bindc (get_cr_or_404 i (user_organization_id user)) (\<lambda>cr.
      thenc (require (cr_change_type cr \<in> set types) 400 ''not valid for this change type'')
      (thenc (require (cr_status cr = CRS_paused) 400 ''CR must be paused'')
      (thenc (require (is_approver user) 403 ''Only admins and approvers'') (f cr))))) Q"
    by (intro leads_get leads_require) (rule assms)
  then show ?thesis
    by (simp add: paused_cr_def bindc_assoc thenc_def cong: if_cong)
qed

lemma frame_latest_run [framed]: "frame (latest_run_or_404 i)"
  unfolding latest_run_or_404_def by (rule frameI) (simp split: option.splits)

text \<open>The status of a paused request written before bookkeeping.\<close>

lemma leads_resume:
  assumes "G i = Some cr" and "cr_organization_id cr = org" and "cr_status cr = CRS_paused"
    and "s \<in> {CRS_executing, CRS_completed} \<inter> S"
  shows "leads G (set_status i s) (effect org S G)"
  using assms
  by (intro leads_set_status [where c = cr] effect_status) (auto intro: lifecycle_step.intros)

lemma leads_resumes:
  "leads G (retry_step i user) (effect (user_organization_id user) {CRS_executing} G)"
  "leads G (skip_step i user) (effect (user_organization_id user) {CRS_executing, CRS_completed} G)"
  "leads G (resume_node_upgrade i user) (effect (user_organization_id user) {CRS_executing} G)"
  "leads G (skip_node i body user) (effect (user_organization_id user) {CRS_executing} G)"
  "leads G (retry_verify i user) (effect (user_organization_id user) {CRS_executing} G)"
  "leads G (skip_verify i user) (effect (user_organization_id user) {CRS_completed} G)"
  unfolding retry_step_def skip_step_def resume_node_upgrade_def skip_node_def retry_verify_def
    skip_verify_def
  by (intro leads_transact leads_paused leads_bindc_frame [OF frame_latest_run]
      leads_bindc_frame [OF frame_basic(4)] leads_prod leads_require leads_if
      leads_thenc_frame [OF frame_basic(10)] leads_thenc_frame [OF frame_basic(11)]
      leads_then_frame leads_resume framed; simp)+

lemma leads_confirm:
  "leads G (confirm_stateful i user) (effect (user_organization_id user) {} G)"
  unfolding confirm_stateful_def
proof (intro leads_transact leads_get leads_require leads_if leads_ret leads_then_frame framed leads_modify)
  fix cr w
  assume cr: "G i = Some cr" "cr_id cr = i" "cr_organization_id cr = user_organization_id user"
    and w: "get_cr w = G"
  show "effect (user_organization_id user) {} G
      (get_cr (upd_cr i (\<lambda>c. c\<lparr>cr_stateful_approved_at := Some (w_clock w)\<rparr>) w))"
    using cr w by (auto simp: get_cr_upd evolves_def same_identity_def intro!: effect_upd)
qed simp_all

section \<open>All endpoints\<close>

text \<open>The statuses an endpoint can give to an existing request.\<close>

fun reach_of :: "request \<Rightarrow> change_request_status set" where
  "reach_of (Plan i) = {CRS_planned}"
| "reach_of (Submit i) = {CRS_awaiting_approval}"
| "reach_of (Approve j d i) = {CRS_approved, CRS_queued_for_maintenance}"
| "reach_of (Reject i) = {CRS_rejected}"
| "reach_of (Cancel i) = {CRS_rejected}"
| "reach_of (Bulk_approve ids d) = {CRS_approved, CRS_rejected}"
| "reach_of Cleanup_stuck = {CRS_failed}"
| "reach_of (Rollback u rid i) = {CRS_executing}"
| "reach_of (Retry_step i) = {CRS_executing}"
| "reach_of (Skip_step i) = {CRS_executing, CRS_completed}"
| "reach_of (Resume_node_upgrade i) = {CRS_executing}"
| "reach_of (Skip_node i body) = {CRS_executing}"
| "reach_of (Retry_verify i) = {CRS_executing}"
| "reach_of (Skip_verify i) = {CRS_completed}"
| "reach_of _ = {}"

lemma transact_fails: "transact m w = (Inl e, t) \<Longrightarrow> t = w\<lparr>w_calls := w_calls t\<rparr>"
  by (auto simp: transact_def split: prod.splits sum.splits)

lemma voidc_fails: "voidc m w = (Inl e, t) \<longleftrightarrow> m w = (Inl e, t)"
  by (auto simp: voidc_def bindc_apply split: prod.splits sum.splits)

lemma create_fails:
  assumes "create_change_request i rid body user w = (Inl e, t)"
  shows "t = w\<lparr>w_calls := w_calls t\<rparr>"
proof -
  have "\<exists>u. (case crc_access_expiry body of None \<Rightarrow> ret ()
      | Some expiry \<Rightarrow> whenc (expiry > 0) (catchc
          (bindc (schedule_reversal_cr rid (crc_desired_outcome body) (crc_target_asset_ids body)
             expiry (crc_change_type body @ ''_rollback'') (Some (user_organization_id user)))
            (\<lambda>rid. modifyc (upd_cr i (\<lambda>c. c\<lparr>cr_scheduled_rollback_cr_id := Some rid\<rparr>))))
          (\<lambda>_. ret ()))) v = (Inr (), u)" for v
    by (cases "crc_access_expiry body")
      (simp_all add: whenc_apply catchc_apply bindc_apply schedule_reversal_fails)
  then show ?thesis
    using assms unfolding create_change_request_def thenc_apply
    by (auto split: prod.splits sum.splits intro: transact_fails)
      (metis Pair_inject sum.distinct(1))
qed

lemma handle_fails:
  assumes "handle cfg env req user w = (Inl e, t)"
  shows "t = w\<lparr>w_calls := w_calls t\<rparr>"
  using assms
  by (cases req)
    (auto simp: voidc_fails batch_create_change_requests_def generate_change_plan_def
      submit_for_approval_def approve_change_request_def reject_change_request_def
      cancel_change_request_def bulk_approve_def cleanup_stuck_change_requests_def
      execute_change_request_def manual_rollback_def retry_step_def skip_step_def
      resume_node_upgrade_def skip_node_def retry_verify_def skip_verify_def confirm_stateful_def
      dest: create_fails intro: transact_fails)

lemma leads_handle: "leads G (handle cfg env req user) (effect (user_organization_id user) (reach_of req) G)"
  by (cases req)
    (auto intro: leads_voidc leads_create leads_batch leads_plan leads_submit leads_approve
      leads_reject leads_cancel leads_weaken [OF leads_bulk bulk_effect_effect] leads_cleanup
      leads_execute leads_rollback leads_resumes leads_confirm)

lemma handle_effect:
  assumes "handle cfg env req user w = (r, t)"
  shows "effect (user_organization_id user) (reach_of req) (get_cr w) (get_cr t) \<and>
         (\<forall>e. r = Inl e \<longrightarrow> t = w\<lparr>w_calls := w_calls t\<rparr>)"
proof (cases r)
  case (Inl e)
  then have "t = w\<lparr>w_calls := w_calls t\<rparr>" using assms handle_fails by blast
  then have "get_cr t = get_cr w" by (metis get_frame(2) ext)
  then show ?thesis using \<open>t = w\<lparr>w_calls := w_calls t\<rparr>\<close> by simp
next
  case (Inr x)
  then show ?thesis
    using assms leads_handle [of "get_cr w" cfg env req user] by (auto simp: leads_def)
qed

text \<open>C6: endpoints refine the lifecycle. Whatever an endpoint returns or raises, every change
  request that existed is still there with the same identity (id, organization, requester,
  type, targets, desired outcome, rollback sequence), its status is unchanged or moved along
  one edge of the lifecycle into a status this endpoint may give, requests of other organizations are
  untouched, and new requests are drafts of the caller's organization that are not on the rollback
  stack. If the endpoint raises, nothing in the database has
  changed.\<close>

theorem endpoints_refine_lifecycle:
  assumes "handle cfg env req user w = (r, t)"
  shows "effect (user_organization_id user) (reach_of req) (get_cr w) (get_cr t) \<and>
         (\<forall>e. r = Inl e \<longrightarrow> t = w\<lparr>w_calls := w_calls t\<rparr>)"
  by (rule handle_effect [OF assms])

definition example_user :: "user_role \<Rightarrow> user" where
  "example_user role = \<lparr>user_id = ''u-1'', user_organization_id = ''org'', user_role = role\<rparr>"

definition example_world :: "change_request list \<Rightarrow> world" where
  "example_world crs =
     \<lparr>w_crs = crs, w_runs = [], w_plans = [], w_approvals = [], w_assets = [], w_connectors = [],
      w_users = [], w_freezes = [], w_windows = [], w_projects = [], w_members = [],
      w_rollbacks = [], w_steps = [], w_audit = [],
      w_calls = [], w_tasks = [], w_clock = 0\<rparr>"

definition example_config :: config where
  "example_config =
     \<lparr>cfg_modules = example_modules, cfg_catalog = example_catalog, cfg_defs = (\<lambda>_. None),
      cfg_cron_prev = (\<lambda>_ _. Inr 0), cfg_cron_next = (\<lambda>_ _. Inr 0)\<rparr>"

definition example_env :: env where
  "example_env = (\<lambda>_ _. Inr [])"

theorem endpoints_refine_lifecycle_witness:
  "effect ''org'' {CRS_rejected}
     (get_cr (example_world [example_cr\<lparr>cr_status := CRS_awaiting_approval\<rparr>]))
     (get_cr (snd (handle example_config example_env (Reject (cr_id example_cr))
        (example_user UR_approver) (example_world [example_cr\<lparr>cr_status := CRS_awaiting_approval\<rparr>])))) \<and>
   map_option cr_status (get_cr (snd (handle example_config example_env (Reject (cr_id example_cr))
        (example_user UR_approver) (example_world [example_cr\<lparr>cr_status := CRS_awaiting_approval\<rparr>])))
        (cr_id example_cr)) = Some CRS_rejected"
proof -
  let ?w = "example_world [example_cr\<lparr>cr_status := CRS_awaiting_approval\<rparr>]"
  obtain r t where run: "handle example_config example_env (Reject (cr_id example_cr))
      (example_user UR_approver) ?w = (r, t)" by fastforce
  have "map_option cr_status (get_cr t (cr_id example_cr)) = Some CRS_rejected"
    using run
    by (simp add: reject_change_request_def transact_def comp_simps get_cr_or_404_def get_cr_def
        lookup_row_def example_world_def example_cr_def example_user_def require_def is_approver_def
        set_status_def upd_cr_def put_cr_def store_row_def record_event_def)
      (auto simp: lookup_row_def)
  then show ?thesis
    using endpoints_refine_lifecycle [OF run] run by (simp add: example_user_def)
qed

section \<open>Who lets a change through\<close>

definition decide :: "uuid \<Rightarrow> user \<Rightarrow> approval_decision \<Rightarrow> world \<Rightarrow> world" where
  "decide i user d w = w\<lparr>w_approvals := w_approvals w @
     [\<lparr>ap_change_request_id = i, ap_approver = user, ap_decision = d\<rparr>]\<rparr>"

lemma get_cr_decide [simp]: "get_cr (decide i user d w) = get_cr w"
  by (rule get_cr_w_crs) (simp add: decide_def)

lemma clock_decide [simp]: "w_clock (decide i user d w) = w_clock w"
  by (simp add: decide_def)

text \<open>What a successful approval found and did.\<close>

lemma no_earlier_decision_cases:
  "no_earlier_decision i user w = (Inr (), w) \<or> (\<exists>e. no_earlier_decision i user w = (Inl e, w))"
  by (auto simp: no_earlier_decision_def split: list.splits)

lemma approve_success:
  assumes "approve_change_request cfg j d i user w = (Inr (), t)"
  obtains cr where "active_freeze w = None" "get_cr w i = Some cr" "is_approver user"
    "cr_organization_id cr = user_organization_id user" "cr_status cr = CRS_awaiting_approval"
    "get_cr t = (if d = AD_approved \<and>
         ac_satisfied (check_approval_requirements (cr_risk_level cr) (approvals_of (decide i user d w) i))
       then (get_cr w)(i \<mapsto> cr\<lparr>cr_status := approved_status cfg (user_organization_id user) cr
              (decide i user d w), cr_updated_at := w_clock w\<rparr>)
       else get_cr w)"
proof -
  obtain cr where cr: "active_freeze w = None" "get_cr w i = Some cr" "is_approver user"
    "cr_organization_id cr = user_organization_id user" "cr_status cr = CRS_awaiting_approval"
    and id: "cr_id cr = i" and clean: "no_earlier_decision i user w = (Inr (), w)"
    using assms no_earlier_decision_cases [of i user w] get_cr_id [of w i]
    by (auto simp: approve_change_request_def transact_def thenc_apply bindc_apply require_def
        require_no_active_freeze_eq get_cr_or_404_def split: option.splits if_splits)
  let ?w = "decide i user d w"
  have "get_cr t = get_cr (snd (thenc (whenc (d = AD_approved \<and> ac_satisfied
      (check_approval_requirements (cr_risk_level cr) (approvals_of ?w i)))
      (bindc (gets (approved_status cfg (user_organization_id user) cr)) (set_status i)))
      (record_event (user_organization_id user) (''change_request.'' @ decision_value d)
        (Some (user_id user)) (Some i)) ?w))"
    using assms cr id clean
    by (simp add: approve_change_request_def transact_def thenc_apply bindc_apply require_def
        require_no_active_freeze_eq get_cr_or_404_def decide_def split: prod.splits sum.splits)
  also have "\<dots> = (if d = AD_approved \<and>
         ac_satisfied (check_approval_requirements (cr_risk_level cr) (approvals_of ?w i))
       then (get_cr w)(i \<mapsto> cr\<lparr>cr_status := approved_status cfg (user_organization_id user) cr ?w,
              cr_updated_at := w_clock w\<rparr>)
       else get_cr w)"
  proof -
    have audit: "get_cr (u\<lparr>w_audit := x\<rparr>) = get_cr u" for u x
      by (rule get_cr_w_crs) simp
    show ?thesis
      using cr(2) by (auto simp: thenc_apply whenc_apply set_status_def record_event_def audit get_cr_upd)
  qed
  finally show ?thesis using that cr by blast
qed

lemma bulk_approve_authority:
  assumes "bulk_approve ids decision user w = (Inr x, t)"
  shows "is_approver user"
  using assms
  by (auto simp: bulk_approve_def transact_def thenc_apply require_def split: if_splits)

lemma bulk_decide_rejects:
  assumes "decision \<noteq> ''approved''"
  shows "leads G (bulk_approve ids decision user)
    (\<lambda>G'. \<forall>j c. G' j = Some c \<longrightarrow> cr_status c = CRS_approved \<longrightarrow> G j = Some c)"
proof -
  define I where "I = (\<lambda>G'. \<forall>j c. G' j = Some c \<longrightarrow> cr_status c = CRS_approved \<longrightarrow> G j = Some c)"
  have "leads G' (bulk_decide decision user i) I" if "I G'" for G' i
    unfolding bulk_decide_def
  proof (rule leads_gets)
    fix w assume w: "get_cr w = G'"
    show "leads G' (case get_cr w i of None \<Rightarrow> ret False
      | Some cr \<Rightarrow> if cr_organization_id cr = user_organization_id user \<and> cr_status cr = CRS_awaiting_approval
          then if cr_risk_level cr = RL_critical \<and> decision = ''approved'' then ret False
               else if decision = ''approved'' then thenc (set_status_only i CRS_approved) (ret True)
               else thenc (set_status_only i CRS_rejected) (ret True)
          else ret False) I"
      unfolding w using that assms
      by (intro leads_option leads_if leads_ret leads_set_status_only)
        (auto simp: I_def intro: leads_ret)
  qed
  then have "leads G (bulk_approve ids decision user) I"
    unfolding bulk_approve_def
    by (intro leads_transact leads_require leads_bindc_then_frame leads_mapc framed) (auto simp: I_def)
  then show ?thesis by (simp add: I_def)
qed


definition awaiting_cr :: change_request where
  "awaiting_cr = example_cr\<lparr>cr_status := CRS_awaiting_approval\<rparr>"

lemma bulk_example:
  "bulk_approve [cr_id example_cr] ''approved'' (example_user UR_approver) (example_world [awaiting_cr]) =
     (Inr [cr_id example_cr], example_world [example_cr\<lparr>cr_status := CRS_approved\<rparr>])"
  by (simp add: bulk_approve_def transact_def comp_simps bulk_decide_def awaiting_cr_def get_cr_def
      lookup_row_def example_world_def example_cr_def example_user_def require_def is_approver_def
      set_status_only_def upd_cr_def put_cr_def store_row_def)


section \<open>The gate of execution\<close>

definition hard_blocked :: "config \<Rightarrow> world \<Rightarrow> uuid \<Rightarrow> bool" where
  "hard_blocked cfg w a \<longleftrightarrow>
     first_active_window (cfg_cron_prev cfg)
       (filter (\<lambda>m. mw_enabled m \<and> mw_enforcement m = ''hard'') (w_windows w))
       (case lookup_row asset_id (w_assets w) a of None \<Rightarrow> [] | Some x \<Rightarrow> asset_tags x)
       (w_clock w) \<noteq> None"

lemma check_hard_windows_eq:
  "check_hard_windows cfg ids w =
     (if \<exists>a \<in> set ids. hard_blocked cfg w a
      then (Inl (Exn (HTTPException 423) ''maintenance_window''), w) else (Inr (), w))"
  by (induction ids) (auto simp: is_in_maintenance_window_def hard_blocked_def)

definition may_execute :: "config \<Rightarrow> uuid \<Rightarrow> user \<Rightarrow> world \<Rightarrow> bool" where
  "may_execute cfg i user w \<longleftrightarrow> active_freeze w = None \<and>
     (\<exists>cr. get_cr w i = Some cr \<and> cr_organization_id cr = user_organization_id user \<and>
        cr_status cr = CRS_approved \<and> cr_risk_level cr \<noteq> RL_critical \<and>
        (cr_priority cr = ''emergency'' \<or>
         (\<forall>a \<in> set (real_ids (cr_target_asset_ids cr)). \<not> hard_blocked cfg w a)))"

definition started :: "uuid \<Rightarrow> uuid \<Rightarrow> user \<Rightarrow> world \<Rightarrow> world" where
  "started rid i user w =
     w\<lparr>w_runs := w_runs w @
          [new_run rid i (''wf-cr-'' @ i @ ''-'' @ take 8 rid) ES_pending (w_clock w)],
       w_audit := w_audit w @
          [\<lparr>ev_organization_id = user_organization_id user, ev_type = ''execution.initiated'',
            ev_actor_id = Some (user_id user), ev_change_request_id = Some i\<rparr>],
       w_tasks := w_tasks w @ [Task_workflow i (user_organization_id user) (user_id user)]\<rparr>"

lemma start_execution_eq:
  "start_execution rid i actor source w =
     (case get_cr w i of
        None \<Rightarrow> (Inl (Exn (HTTPException 404) ''Change request not found''), w)
      | Some cr \<Rightarrow>
          if cr_status cr \<noteq> CRS_approved
          then (Inl (Exn (HTTPException 400) ''Cannot execute CR in this status''), w)
          else if source \<notin> set valid_sources
          then (Inl (Exn (HTTPException 400) ''Unknown execution source''), w)
          else (Inr rid, w\<lparr>w_runs := w_runs w @
                   [new_run rid i (''wf-cr-'' @ i @ ''-'' @ take 8 rid) ES_pending (w_clock w)],
                 w_audit := w_audit w @
                   [\<lparr>ev_organization_id = cr_organization_id cr, ev_type = ''execution.initiated'',
                     ev_actor_id = Some actor, ev_change_request_id = Some i\<rparr>],
                 w_tasks := w_tasks w @ [Task_workflow i (cr_organization_id cr) actor]\<rparr>))"
  using get_cr_id [of w i]
  by (auto simp: start_execution_def transact_def thenc_def bindc_apply require_def
      executable_statuses_def add_run_def record_event_def schedule_task_def split: option.splits)

lemma execute_eq:
  "execute_change_request cfg j rid i user w =
     (if may_execute cfg i user w then (Inr rid, started rid i user w)
      else (fst (execute_change_request cfg j rid i user w), w)) \<and>
   (\<not> may_execute cfg i user w \<longrightarrow> (\<exists>e. fst (execute_change_request cfg j rid i user w) = Inl e))"
proof (cases "get_cr w i")
  case None
  then show ?thesis
    by (simp add: execute_change_request_def transact_def thenc_def bindc_apply may_execute_def
        require_no_active_freeze_eq get_cr_or_404_def)
next
  case (Some cr)
  then show ?thesis
    using get_cr_id [OF Some]
    by (auto simp: execute_change_request_def transact_def thenc_def bindc_apply require_def
        require_no_active_freeze_eq get_cr_or_404_def may_execute_def whenc_def started_def
        check_hard_windows_eq start_execution_eq valid_sources_def check_approval_requirements_def
        Let_def)
qed


definition approved_world :: "maintenance_window list \<Rightarrow> world" where
  "approved_world ms =
     (example_world [example_cr\<lparr>cr_status := CRS_approved\<rparr>])\<lparr>w_windows := ms\<rparr>"


text \<open>windows have two opposite meanings. While a hard window of the organization without tags
  is open, an approval leaves the request approved, yet the execute endpoint refuses it unless
  it is an emergency; while every enabled window of the organization is closed, an approval
  queues the request instead of approving it. So the moments at which the window lets an
  approval through are moments at which it blocks the execution.\<close>

theorem hard_window_blocks_what_it_approves:
  assumes "m \<in> set (w_windows w)" and "mw_enabled m" and "mw_enforcement m = ''hard''"
    and "mw_organization_id m = user_organization_id user" and "mw_applies_to_tags m = None"
    and "get_cr w i = Some cr" and "real_ids (cr_target_asset_ids cr) \<noteq> []"
    and "cr_priority cr \<noteq> ''emergency''"
  shows "(window_open (cfg_cron_prev cfg) m (w_clock w) \<longrightarrow>
            approved_status cfg (user_organization_id user) cr w = CRS_approved \<and>
            (\<exists>e. execute_change_request cfg j rid i user w = (Inl e, w))) \<and>
         ((\<forall>m' \<in> set (w_windows w). mw_organization_id m' = user_organization_id user \<longrightarrow>
              mw_enabled m' \<longrightarrow> \<not> window_open (cfg_cron_prev cfg) m' (w_clock w)) \<longrightarrow>
            approved_status cfg (user_organization_id user) cr w = CRS_queued_for_maintenance)"
proof -
  have covers: "window_covers m tags" for tags using assms(5) by (simp add: window_covers_def)
  have "approved_status cfg (user_organization_id user) cr w = CRS_approved"
    if "window_open (cfg_cron_prev cfg) m (w_clock w)"
    using that assms(1,2,4) covers by (auto simp: approved_status_def Let_def is_window_open_iff)
  moreover have "\<exists>e. execute_change_request cfg j rid i user w = (Inl e, w)"
    if "window_open (cfg_cron_prev cfg) m (w_clock w)"
  proof -
    have "hard_blocked cfg w a" for a
      unfolding hard_blocked_def
      by (rule open_window_found [of m]) (use that assms covers in auto)
    then have "\<not> may_execute cfg i user w"
      using assms(6-8) by (auto simp: may_execute_def)
    then show ?thesis using execute_eq [of cfg j rid i user w] by (metis prod.collapse snd_conv)
  qed
  moreover have "approved_status cfg (user_organization_id user) cr w = CRS_queued_for_maintenance"
    if "\<forall>m' \<in> set (w_windows w). mw_organization_id m' = user_organization_id user \<longrightarrow>
        mw_enabled m' \<longrightarrow> \<not> window_open (cfg_cron_prev cfg) m' (w_clock w)"
    using that assms(1,2,4)
    by (auto simp: approved_status_def Let_def is_window_open_iff filter_empty_conv)
  ultimately show ?thesis by blast
qed

definition example_window :: maintenance_window where
  "example_window =
     \<lparr>mw_id = 1, mw_organization_id = ''org'', mw_name = ''nightly'', mw_cron_schedule = ''0 2 * * *'',
      mw_duration_minutes = 60, mw_applies_to_tags = None, mw_enabled = True,
      mw_enforcement = ''hard''\<rparr>"

theorem hard_window_blocks_what_it_approves_witness:
  "\<exists>e. execute_change_request example_config None ''r-1'' (cr_id example_cr) (example_user UR_admin)
     (approved_world [example_window]) = (Inl e, approved_world [example_window])"
proof -
  have "get_cr (approved_world [example_window]) (cr_id example_cr) =
      Some (example_cr\<lparr>cr_status := CRS_approved\<rparr>)"
    by (simp add: approved_world_def example_world_def get_cr_def lookup_row_def example_cr_def)
  moreover have "window_open (cfg_cron_prev example_config) example_window
      (w_clock (approved_world [example_window]))"
    by (simp add: window_open_def example_config_def example_window_def approved_world_def
        example_world_def minutes_def)
  ultimately show ?thesis
    using hard_window_blocks_what_it_approves [of example_window "approved_world [example_window]"
        "example_user UR_admin" "cr_id example_cr" "example_cr\<lparr>cr_status := CRS_approved\<rparr>"
        example_config None "''r-1''"]
    by (simp add: approved_world_def example_window_def example_user_def example_cr_def real_ids_def)
qed

section \<open>Scheduled reversals\<close>

text \<open>access expiry is lost. Creating a request with an access expiry stores the draft and its
  audit event and nothing else: the reversal lacks the mandatory requester, its insert fails and
  the failure is dropped, so no reversal is ever stored or linked.\<close>

theorem reversal_never_scheduled:
  "create_change_request i reversal_id body user w =
     (Inr (), w\<lparr>w_crs := w_crs w @
          [new_cr i (crc_change_type body) (crc_target_asset_ids body) (crc_desired_outcome body)
             CRS_draft (w_clock w) (user_organization_id user) (user_id user)],
        w_audit := w_audit w @
          [\<lparr>ev_organization_id = user_organization_id user, ev_type = ''change_request.created'',
            ev_actor_id = Some (user_id user), ev_change_request_id = Some i\<rparr>]\<rparr>)"
  by (cases "crc_access_expiry body")
    (simp_all add: create_change_request_def thenc_def bindc_apply transact_def insert_cr_def
      record_event_def whenc_def catchc_apply schedule_reversal_fails)

section \<open>Order of manual rollbacks\<close>

text \<open>A later change that is still applied on a shared asset.\<close>

definition applied_after :: "uuid \<Rightarrow> change_request \<Rightarrow> change_request \<Rightarrow> bool" where
  "applied_after org cr c \<longleftrightarrow> cr_organization_id c = org \<and> cr_id c \<noteq> cr_id cr \<and>
     cr_status c = CRS_completed \<and> set (cr_target_asset_ids c) \<inter> set (cr_target_asset_ids cr) \<noteq> {} \<and>
     (\<exists>m n. cr_application_sequence c = Some m \<and> cr_application_sequence cr = Some n \<and> n < m)"

lemma blocking_crs_set:
  "set (blocking_crs w org cr) = cr_id ` {c \<in> set (w_crs w). applied_after org cr c}"
proof (cases "cr_application_sequence cr")
  case None
  then show ?thesis by (auto simp: blocking_crs_def applied_after_def)
next
  case (Some n)
  have "(\<exists>a \<in> set (cr_target_asset_ids c). a \<in> set (cr_target_asset_ids cr)) \<longleftrightarrow>
      set (cr_target_asset_ids c) \<inter> set (cr_target_asset_ids cr) \<noteq> {}" for c :: change_request
    by auto
  then show ?thesis
    by (auto simp: blocking_crs_def Some applied_after_def list_ex_iff image_iff split: option.splits)
qed

lemma manual_rollback_answer:
  assumes "manual_rollback u rid i user w = (Inr x, t)"
  obtains cr where "get_cr w i = Some cr" "cr_organization_id cr = user_organization_id user"
    "cr_status cr \<in> {CRS_completed, CRS_failed, CRS_paused}" "is_approver user"
    "blocking_crs w (user_organization_id user) cr \<noteq> [] \<longrightarrow>
       x = Rollback_conflict (blocking_crs w (user_organization_id user) cr) \<and> t = w"
    "blocking_crs w (user_organization_id user) cr = [] \<longrightarrow> x = Rollback_started rid \<and>
       runs_of w i \<noteq> [] \<and> w_tasks t = w_tasks w @ [Task_rollback i rid] \<and>
       map_option cr_status (get_cr t i) = Some CRS_executing"
proof -
  obtain cr where cr: "get_cr w i = Some cr" "cr_organization_id cr = user_organization_id user"
    "cr_status cr \<in> {CRS_completed, CRS_failed, CRS_paused}" "is_approver user"
    using assms
    by (auto simp: manual_rollback_def transact_def thenc_apply bindc_apply require_def
        get_cr_or_404_def split: option.splits if_splits)
  let ?runs = "runs_of w i"
  let ?latest = "case latest_run (filter (\<lambda>r. run_status r = ES_completed) ?runs) of
    None \<Rightarrow> latest_run ?runs | Some r \<Rightarrow> Some r"
  have latest: "?latest \<noteq> None \<longleftrightarrow> ?runs \<noteq> []"
    by (auto simp del: not_None_eq split: option.split dest: latest_run_in)
  have id: "cr_id cr = i" using cr(1) by (rule get_cr_id)
  have conflict: "x = Rollback_conflict (blocking_crs w (user_organization_id user) cr) \<and> t = w"
    if "blocking_crs w (user_organization_id user) cr \<noteq> []"
    using assms cr that
    by (auto simp: manual_rollback_def transact_def thenc_apply bindc_apply require_def
        get_cr_or_404_def)
  have start: "x = Rollback_started rid \<and> runs_of w i \<noteq> [] \<and>
      w_tasks t = w_tasks w @ [Task_rollback i rid] \<and>
      map_option cr_status (get_cr t i) = Some CRS_executing"
    if "blocking_crs w (user_organization_id user) cr = []"
  proof (cases "?latest = None")
    case True
    then show ?thesis
      using assms cr that id
      by (simp add: manual_rollback_def transact_def thenc_apply bindc_apply require_def
          get_cr_or_404_def Let_def)
  next
    case False
    have "get_cr (w\<lparr>w_runs := rs, w_audit := a, w_tasks := ts\<rparr>) = get_cr w" for w rs a ts
      by (rule get_cr_w_crs) simp
    have frame: "get_cr (upd_cr i f (w\<lparr>w_runs := rs\<rparr>)\<lparr>w_audit := a, w_tasks := ts\<rparr>) i =
        map_option f (get_cr w i)" if "\<And>c. cr_id (f c) = cr_id c" for f rs a ts
      using that by (simp add: get_cr_upd_cr)
    from False latest have "runs_of w i \<noteq> []" by simp
    then show ?thesis
      using assms cr that id False frame
      by (auto simp: manual_rollback_def transact_def thenc_apply bindc_apply require_def
          get_cr_or_404_def Let_def add_run_def set_status_def record_event_def schedule_task_def
          get_cr_upd_cr)
  qed
  from that [OF cr] conflict start show ?thesis by blast
qed

text \<open>C9: first applied, last rolled back. The rollback endpoint starts a rollback only for a
  request of the caller's organization that is completed, failed or paused and has a run, and
  then only if no change applied later on a shared asset is still applied; otherwise it lists
  exactly those changes and changes nothing.\<close>

theorem manual_rollback_order:
  assumes "manual_rollback u rid i user w = (Inr x, t)"
  shows "\<exists>cr. get_cr w i = Some cr \<and> is_approver user \<and>
           cr_status cr \<in> {CRS_completed, CRS_failed, CRS_paused} \<and>
           (case x of
              Rollback_started rid' \<Rightarrow>
                rid' = rid \<and> \<not> (\<exists>c \<in> set (w_crs w). applied_after (user_organization_id user) cr c) \<and>
                runs_of w i \<noteq> [] \<and> w_tasks t = w_tasks w @ [Task_rollback i rid] \<and>
                map_option cr_status (get_cr t i) = Some CRS_executing
            | Rollback_conflict ids \<Rightarrow>
                t = w \<and> ids \<noteq> [] \<and>
                set ids = cr_id ` {c \<in> set (w_crs w). applied_after (user_organization_id user) cr c})"
proof -
  from assms obtain cr where cr: "get_cr w i = Some cr"
    "cr_organization_id cr = user_organization_id user"
    "cr_status cr \<in> {CRS_completed, CRS_failed, CRS_paused}" "is_approver user"
    and conflict: "blocking_crs w (user_organization_id user) cr \<noteq> [] \<longrightarrow>
       x = Rollback_conflict (blocking_crs w (user_organization_id user) cr) \<and> t = w"
    and start: "blocking_crs w (user_organization_id user) cr = [] \<longrightarrow> x = Rollback_started rid \<and>
       runs_of w i \<noteq> [] \<and> w_tasks t = w_tasks w @ [Task_rollback i rid] \<and>
       map_option cr_status (get_cr t i) = Some CRS_executing"
    by (rule manual_rollback_answer)
  note ids = blocking_crs_set [of w "user_organization_id user" cr]
  show ?thesis
  proof (cases "blocking_crs w (user_organization_id user) cr = []")
    case True
    then have "\<not> (\<exists>c \<in> set (w_crs w). applied_after (user_organization_id user) cr c)"
      using ids by auto
    then show ?thesis using cr start True by auto
  next
    case False
    then show ?thesis using cr conflict False ids by auto
  qed
qed

definition applied_cr :: "uuid \<Rightarrow> int \<Rightarrow> change_request" where
  "applied_cr i n = example_cr\<lparr>cr_id := i, cr_status := CRS_completed,
     cr_application_sequence := Some n\<rparr>"

theorem manual_rollback_order_witness:
  "fst (manual_rollback ''u'' ''r-2'' ''first'' (example_user UR_admin)
      (example_world [applied_cr ''first'' 1, applied_cr ''second'' 2])) =
     Inr (Rollback_conflict [''second'']) \<and>
   (\<exists>cr. get_cr (example_world [applied_cr ''first'' 1, applied_cr ''second'' 2]) ''first'' = Some cr \<and>
      cr_status cr \<in> {CRS_completed, CRS_failed, CRS_paused})"
proof -
  let ?w = "example_world [applied_cr ''first'' 1, applied_cr ''second'' 2]"
  have "manual_rollback ''u'' ''r-2'' ''first'' (example_user UR_admin) ?w =
      (Inr (Rollback_conflict [''second'']), ?w)"
    by (simp add: manual_rollback_def transact_def thenc_apply bindc_apply require_def
        get_cr_or_404_def get_cr_def lookup_row_def example_world_def applied_cr_def example_cr_def
        example_user_def is_approver_def blocking_crs_def insort_key.simps)
  with manual_rollback_order [OF this] show ?thesis by auto
qed

end
