(* ===== verification/CredRotation.thy ===== *)
theory CredRotation
  imports Actions Unwind Lifecycle
begin

text \<open>
  Credential rotations (\<open>services/credential_rotation_executor.py\<close>): the serial execution of the
  steps of a change request, kept in the result of its run so that a paused rotation resumes
  where it stopped, and the unwinding of the completed steps in reverse order. \<open>filo_unwind\<close> is
  the contract that the rollbacks of the program share.
\<close>

section \<open>Steps\<close>

definition init_step :: "nat \<Rightarrow> pydict \<Rightarrow> exn + pydict" where
  "init_step i s =
     (case dindex s ''connector_type'' of
        Inl e \<Rightarrow> Inl e
      | Inr ct \<Rightarrow>
          (case dindex s ''action_id'' of
             Inl e \<Rightarrow> Inl e
           | Inr action \<Rightarrow>
               Inr [(''index'', PInt (int i)),
                    (''label'', dget_or s ''label'' (PStr (''Step '' @ string_of_nat (i + 1)))),
                    (''connector_type'', ct), (''action_id'', action),
                    (''params'', dget_or s ''params'' (PDict [])),
                    (''status'', PStr ''pending''), (''result'', PNone), (''error'', PNone)]))"

fun init_steps :: "nat \<Rightarrow> pyval list \<Rightarrow> exn + pyval list" where
  "init_steps i [] = Inr []"
| "init_steps i (v # vs) =
     (case as_dict v of
        Inl e \<Rightarrow> Inl e
      | Inr s \<Rightarrow>
          (case init_step i s of
             Inl e \<Rightarrow> Inl e
           | Inr step \<Rightarrow>
               (case init_steps (i + 1) vs of
                  Inl e \<Rightarrow> Inl e
                | Inr steps \<Rightarrow> Inr (PDict step # steps))))"

section \<open>Execution\<close>

text \<open>The run to work on: the newest one that is running or pending, or else the newest.\<close>

definition rotation_run :: "world \<Rightarrow> uuid \<Rightarrow> execution_run option" where
  "rotation_run w i =
     (case latest_run (filter (\<lambda>r. run_status r \<in> {ES_running, ES_pending}) (runs_of w i)) of
        Some r \<Rightarrow> Some r
      | None \<Rightarrow> latest_run (runs_of w i))"

definition current_steps :: "change_request \<Rightarrow> execution_run option \<Rightarrow> exn + pyval list" where
  "current_steps cr run =
     (let stored = dget_or (case run of None \<Rightarrow> [] | Some r \<Rightarrow> run_result r) ''steps'' PNone
      in if truthy stored then as_list stored
         else (case as_list (dget_or (cr_desired_outcome cr) ''steps'' (PList [])) of
                 Inl e \<Rightarrow> Inl e
               | Inr desired \<Rightarrow> init_steps 0 desired))"

text \<open>\<open>run.result = {"steps": steps}\<close> and commit, if there is a run.\<close>

definition persist_steps :: "uuid option \<Rightarrow> pyval list \<Rightarrow> unit prog" where
  "persist_steps run steps =
     (case run of None \<Rightarrow> ret () | Some r \<Rightarrow> set_run_result r [(''steps'', PList steps)])"

definition attempt_step :: "integration \<Rightarrow> env \<Rightarrow> uuid \<Rightarrow> pydict \<Rightarrow> pydict prog" where
  "attempt_step ig env org step =
     bindc (of_sum (dindex step ''connector_type'')) (\<lambda>ct.
     bindc (resolve_connector ig (text_of ct) org) (\<lambda>conn.
     bindc (of_sum (dindex step ''action_id'')) (\<lambda>action.
     bindc (of_sum (dindex step ''params'')) (\<lambda>params.
     bindc (of_sum (as_dict params)) (\<lambda>ps.
       execute_action ig env (text_of ct) (text_of action) ps [] conn)))))"

text \<open>What the log line of a failed step reads from it; the index is returned.\<close>

definition failed_step_index :: "pydict \<Rightarrow> exn + pyval" where
  "failed_step_index step =
     (case (dindex step ''index'', dindex step ''connector_type'', dindex step ''action_id'') of
        (Inl e, _, _) \<Rightarrow> Inl e
      | (_, Inl e, _) \<Rightarrow> Inl e
      | (_, _, Inl e) \<Rightarrow> Inl e
      | (Inr i, Inr _, Inr _) \<Rightarrow> Inr i)"

datatype step_outcome = Step_done pydict | Step_failed exn

definition try_step :: "integration \<Rightarrow> env \<Rightarrow> uuid \<Rightarrow> pydict \<Rightarrow> step_outcome prog" where
  "try_step ig env org step =
     catchc (bindc (attempt_step ig env org step) (\<lambda>r. ret (Step_done r)))
       (\<lambda>e. ret (Step_failed e))"

definition due_statuses :: "pyval list" where
  "due_statuses = [PStr ''pending'', PStr ''executing'']"

definition with_status :: "pydict \<Rightarrow> string \<Rightarrow> pydict" where
  "with_status step s = dput step ''status'' (PStr s)"

definition completed_step :: "pydict \<Rightarrow> pydict \<Rightarrow> pydict" where
  "completed_step step r = dput (with_status step ''completed'') ''result'' (PDict r)"

definition failed_step :: "pydict \<Rightarrow> exn \<Rightarrow> pydict" where
  "failed_step step e = dput (with_status step ''failed'') ''error'' (PStr (exn_text e))"

text \<open>The loop over the steps, with the steps behind and the steps ahead: the steps at the end, and
  the index of the step it paused at.\<close>

fun run_steps ::
  "integration \<Rightarrow> env \<Rightarrow> change_request \<Rightarrow> uuid option \<Rightarrow> pyval list \<Rightarrow> pyval list \<Rightarrow>
   (pyval list \<times> pyval option) prog" where
  "run_steps ig env cr run done [] = ret (done, None)"
| "run_steps ig env cr run done (v # vs) =
     bindc (of_sum (as_dict v)) (\<lambda>step.
     bindc (of_sum (dindex step ''status'')) (\<lambda>status.
       if status \<notin> set due_statuses then run_steps ig env cr run (done @ [v]) vs
       else
         thenc (persist_steps run (done @ PDict (with_status step ''executing'') # vs))
         (bindc (try_step ig env (cr_organization_id cr) (with_status step ''executing''))
           (\<lambda>out. case out of
              Step_done r \<Rightarrow>
                thenc (persist_steps run (done @ PDict (completed_step step r) # vs))
                  (run_steps ig env cr run (done @ [PDict (completed_step step r)]) vs)
            | Step_failed e \<Rightarrow>
                bindc (of_sum (failed_step_index step)) (\<lambda>index.
                thenc (persist_steps run (done @ PDict (failed_step step e) # vs))
                (thenc (set_status (cr_id cr) CRS_paused)
                  (ret (done @ PDict (failed_step step e) # vs, Some index))))))))"

definition complete_rotation_run :: "uuid \<Rightarrow> pydict \<Rightarrow> unit prog" where
  "complete_rotation_run i step_state =
     modifyc (\<lambda>w.
       case latest_run (filter (\<lambda>r. run_status r \<in> {ES_running, ES_pending}) (runs_of w i)) of
         None \<Rightarrow> w
       | Some r \<Rightarrow> upd_run (run_id r) (\<lambda>r. r\<lparr>run_status := ES_completed,
             run_result := [(''execution'', PDict step_state)],
             run_completed_at := Some (w_clock w)\<rparr>) w)"

definition get_cr_one :: "uuid \<Rightarrow> change_request prog" where
  "get_cr_one i =
     (\<lambda>w. (case get_cr w i of
             None \<Rightarrow> Inl (Exn NoResultFound ''No row was found when one was required'')
           | Some cr \<Rightarrow> Inr cr, w))"

definition execute_steps :: "integration \<Rightarrow> env \<Rightarrow> uuid \<Rightarrow> pydict prog" where
  "execute_steps ig env i =
     bindc (get_cr_one i) (\<lambda>cr.
     bindc (gets (\<lambda>w. rotation_run w i)) (\<lambda>run.
     bindc (of_sum (current_steps cr run)) (\<lambda>steps.
     bindc (run_steps ig env cr (map_option run_id run) [] steps) (\<lambda>(steps', paused).
       case paused of
         Some index \<Rightarrow>
           ret [(''steps'', PList steps'), (''paused'', PBool True), (''current_step'', index)]
       | None \<Rightarrow>
           thenc (set_status i CRS_completed)
           (thenc (complete_rotation_run i [(''steps'', PList steps')])
             (ret [(''steps'', PList steps')]))))))"

section \<open>Rollback\<close>

text \<open>The steps of a stored result: at its top level while the rotation runs or is paused, under
  \<open>execution\<close> once it is completed.\<close>

definition stored_steps :: "pydict \<Rightarrow> exn + pyval list" where
  "stored_steps result =
     (if truthy (dget_or result ''steps'' PNone) then as_list (dget_or result ''steps'' PNone)
      else (case as_dict (dget_or result ''execution'' (PDict [])) of
              Inl e \<Rightarrow> Inl e
            | Inr d \<Rightarrow> as_list (dget_or d ''steps'' (PList []))))"

definition rolled_back_error :: "string \<Rightarrow> pydict" where
  "rolled_back_error msg = [(''rolled_back'', PBool False), (''error'', PStr msg)]"

definition call_rollback ::
  "env \<Rightarrow> string \<Rightarrow> string \<Rightarrow> pydict \<Rightarrow> connector option \<Rightarrow> pydict prog" where
  "call_rollback env ct action step conn =
     catchc
       (bindc (of_sum (as_dict (dget_or step ''params'' (PDict [])))) (\<lambda>params.
        bindc (of_sum (as_dict (por (dget_or step ''result'' PNone) (PDict [])))) (\<lambda>result.
          call env (Call_rollback ct action params result (map_option connector_id conn)))))
       (\<lambda>e. ret (rolled_back_error (exn_text e)))"

definition run_rollback ::
  "integration \<Rightarrow> env \<Rightarrow> string \<Rightarrow> string \<Rightarrow> pydict \<Rightarrow> connector option \<Rightarrow> pydict prog" where
  "run_rollback ig env ct action step conn =
     (case get_executor (ig_modules ig) (ig_catalog ig) ct action of
        Inl e \<Rightarrow> ret (rolled_back_error (''Cannot load executor: '' @ exn_text e))
      | Inr m \<Rightarrow>
          if em_has_rollback m then call_rollback env ct action step conn
          else ret [(''rolled_back'', PBool False), (''reason'', PStr ''no_rollback_function'')])"

definition rollback_step :: "integration \<Rightarrow> env \<Rightarrow> uuid \<Rightarrow> pydict \<Rightarrow> pydict prog" where
  "rollback_step ig env org step =
     bindc (of_sum (dindex step ''connector_type'')) (\<lambda>ct.
     bindc (of_sum (dindex step ''action_id'')) (\<lambda>action.
     bindc (resolve_connector ig (text_of ct) org) (\<lambda>conn.
     bindc (run_rollback ig env (text_of ct) (text_of action) step conn) (\<lambda>rb_result.
     bindc (of_sum (dindex step ''index'')) (\<lambda>index.
       ret [(''index'', index), (''label'', dget_or step ''label'' (PStr [])),
            (''rollback_result'', PDict rb_result)])))))"

definition step_rolled_back :: "pydict \<Rightarrow> bool" where
  "step_rolled_back r =
     (case dget r ''rollback_result'' of
        Some (PDict rb) \<Rightarrow> truthy (dget_or rb ''rolled_back'' (PBool False))
      | _ \<Rightarrow> False)"

definition is_completed_step :: "pydict \<Rightarrow> bool" where
  "is_completed_step s \<longleftrightarrow> dget_or s ''status'' PNone = PStr ''completed''"

definition execute_filo_rollback :: "integration \<Rightarrow> env \<Rightarrow> uuid \<Rightarrow> pydict \<Rightarrow> pydict prog" where
  "execute_filo_rollback ig env i execution_result =
     bindc (of_sum (stored_steps execution_result)) (\<lambda>values.
     bindc (of_sum (as_dicts values)) (\<lambda>steps.
     bindc (get_cr_one i) (\<lambda>cr.
     bindc (mapc (rollback_step ig env (cr_organization_id cr))
              (rev (filter is_completed_step steps))) (\<lambda>rollback_steps.
       let all_ok = list_all step_rolled_back rollback_steps
       in ret [(''rollback_steps'', PList (map PDict rollback_steps)),
               (''all_rolled_back'', PBool all_ok),
               (''has_warnings'', PBool (\<not> all_ok \<and> rollback_steps \<noteq> []))]))))"

section \<open>The rollback unwinds the completed steps\<close>

text \<open>The call that undoes a step: one, with the parameters and the result the step ran with, unless
  the executor is missing or has no rollback.\<close>

definition rollback_args :: "pydict \<Rightarrow> (pydict \<times> pydict) option" where
  "rollback_args step =
     (case as_dict (dget_or step ''params'' (PDict [])) of
        Inl e \<Rightarrow> None
      | Inr params \<Rightarrow>
          (case as_dict (por (dget_or step ''result'' PNone) (PDict [])) of
             Inl e \<Rightarrow> None
           | Inr result \<Rightarrow> Some (params, result)))"

definition rollback_trace :: "integration \<Rightarrow> connector list \<Rightarrow> uuid \<Rightarrow> pydict \<Rightarrow> ext_call list" where
  "rollback_trace ig conns org step =
     (let ct = text_of (dget_or step ''connector_type'' PNone);
          action = text_of (dget_or step ''action_id'' PNone)
      in case get_executor (ig_modules ig) (ig_catalog ig) ct action of
           Inl e \<Rightarrow> []
         | Inr m \<Rightarrow>
             (case rollback_args step of
                None \<Rightarrow> []
              | Some (params, result) \<Rightarrow>
                  if em_has_rollback m
                  then [Call_rollback ct action params result
                          (map_option connector_id (found_connector ig conns ct org))]
                  else []))"

text \<open>A step as \<open>init_steps\<close> makes it and execution keeps it.\<close>

definition rotation_step :: "pydict \<Rightarrow> bool" where
  "rotation_step step \<longleftrightarrow>
     list_all (\<lambda>k. dget step k \<noteq> None)
       [''index'', ''connector_type'', ''action_id'', ''params'', ''status'']"

definition unwound_step ::
  "integration \<Rightarrow> uuid \<Rightarrow> world \<Rightarrow> pydict \<Rightarrow> ext_call list \<Rightarrow> pydict \<Rightarrow> bool" where
  "unwound_step ig org w step cs r \<longleftrightarrow>
     cs = rollback_trace ig (w_connectors w) org step \<and> dget r ''index'' = dget step ''index'' \<and>
     (step_rolled_back r \<longrightarrow> cs \<noteq> [])"

definition rest_of_world :: "world \<Rightarrow> world" where
  "rest_of_world w = w\<lparr>w_calls := []\<rparr>"

lemma rest_of_world_with_calls [simp]: "rest_of_world (with_calls cs w) = rest_of_world w"
  by (simp add: rest_of_world_def with_calls_def)

lemma rest_of_world_connectors [simp]: "w_connectors (rest_of_world w) = w_connectors w"
  by (simp add: rest_of_world_def)

lemma rest_of_world_eqD: "rest_of_world w = rest_of_world v \<Longrightarrow> w = v\<lparr>w_calls := w_calls w\<rparr>"
  by (cases w; cases v) (simp add: rest_of_world_def)

lemma call_rollback_None:
  "rollback_args step = None \<Longrightarrow>
   \<exists>e. call_rollback env ct action step conn w = (Inr (rolled_back_error e), w)"
  by (auto simp: call_rollback_def rollback_args_def comp_simps split: sum.splits)

lemma call_rollback_Some:
  "rollback_args step = Some (p, r) \<Longrightarrow>
   \<exists>rb. call_rollback env ct action step conn w =
     (Inr rb, with_calls [Call_rollback ct action p r (map_option connector_id conn)] w)"
  by (auto simp: call_rollback_def rollback_args_def comp_simps split: sum.splits)

lemma run_rollback_returns:
  assumes "dget step ''connector_type'' = Some ct" "dget step ''action_id'' = Some action"
  shows "\<exists>rb. run_rollback ig env (text_of ct) (text_of action) step
       (found_connector ig (w_connectors w) (text_of ct) org) w =
       (Inr rb, with_calls (rollback_trace ig (w_connectors w) org step) w) \<and>
     (truthy (dget_or rb ''rolled_back'' (PBool False)) \<longrightarrow>
        rollback_trace ig (w_connectors w) org step \<noteq> [])"
proof (cases "get_executor (ig_modules ig) (ig_catalog ig) (text_of ct) (text_of action)")
  case (Inl e)
  then show ?thesis using assms
    by (auto simp: run_rollback_def rollback_trace_def dget_or_def rolled_back_error_def)
next
  case m: (Inr m)
  have keys: "dget_or step ''connector_type'' PNone = ct" "dget_or step ''action_id'' PNone = action"
    using assms by (simp_all add: dget_or_def)
  let ?conn = "found_connector ig (w_connectors w) (text_of ct) org"
  show ?thesis
  proof (cases "rollback_args step")
    case None
    from call_rollback_None [OF this, of env "text_of ct" "text_of action" ?conn w]
    show ?thesis using keys m None
      by (auto simp: run_rollback_def rollback_trace_def Let_def rolled_back_error_def)
  next
    case (Some pr)
    then obtain p r where pr: "rollback_args step = Some (p, r)" by (cases pr) simp
    from call_rollback_Some [OF this, of env "text_of ct" "text_of action" ?conn w]
    show ?thesis using keys m pr
      by (auto simp: run_rollback_def rollback_trace_def Let_def)
  qed
qed

lemma rollback_step_returns:
  assumes "rotation_step step"
  shows "\<exists>r cs. rollback_step ig env org step w = (Inr r, with_calls cs w) \<and>
           unwound_step ig org (rest_of_world w) step cs r"
proof -
  from assms obtain ct action index
    where keys: "dget step ''connector_type'' = Some ct" "dget step ''action_id'' = Some action"
      "dget step ''index'' = Some index" by (auto simp: rotation_step_def)
  let ?cs = "rollback_trace ig (w_connectors w) org step"
  from run_rollback_returns [OF keys(1,2), of ig env w org] obtain rb
    where rb: "run_rollback ig env (text_of ct) (text_of action) step
         (found_connector ig (w_connectors w) (text_of ct) org) w = (Inr rb, with_calls ?cs w)"
      and ok: "truthy (dget_or rb ''rolled_back'' (PBool False)) \<longrightarrow> ?cs \<noteq> []" by blast
  let ?r = "[(''index'', index), (''label'', dget_or step ''label'' (PStr [])),
            (''rollback_result'', PDict rb)]"
  have "rollback_step ig env org step w = (Inr ?r, with_calls ?cs w)"
    using keys rb by (simp add: rollback_step_def comp_simps dindex_def)
  moreover have "unwound_step ig org (rest_of_world w) step ?cs ?r"
    using ok keys by (simp add: unwound_step_def step_rolled_back_def)
  ultimately show ?thesis by blast
qed

interpretation rotation: filo_unwind "rollback_step ig env org" w_calls rest_of_world rotation_step
    "unwound_step ig org" for ig env org
proof
  fix step w assume "rotation_step step"
  from rollback_step_returns [OF this, of ig env org w]
  show "\<exists>r cs t. rollback_step ig env org step w = (Inr r, t) \<and> w_calls t = w_calls w @ cs \<and>
      rest_of_world t = rest_of_world w \<and> unwound_step ig org (rest_of_world w) step cs r"
    by fastforce
qed

lemma world_extends:
  "rest_of_world t = rest_of_world w \<Longrightarrow> w_calls t = w_calls w @ cs \<Longrightarrow> t = with_calls cs w"
  by (cases t; cases w) (simp add: rest_of_world_def with_calls_def)

lemma list_eq_map_nth:
  "length css = length xs \<Longrightarrow> (\<And>k. k < length xs \<Longrightarrow> css ! k = f (xs ! k)) \<Longrightarrow> css = map f xs"
  by (simp add: list_eq_iff_nth_eq)

lemma filo_rollback_unwinds:
  assumes "stored_steps result = Inr values" and "as_dicts values = Inr steps"
    and good: "list_all rotation_step (filter is_completed_step steps)"
    and cr: "get_cr w i = Some cr"
  defines "undone \<equiv> rev (filter is_completed_step steps)"
  shows "\<exists>rs. execute_filo_rollback ig env i result w =
     (Inr [(''rollback_steps'', PList (map PDict rs)),
           (''all_rolled_back'', PBool (list_all step_rolled_back rs)),
           (''has_warnings'', PBool (\<not> list_all step_rolled_back rs))],
      with_calls (concat (map (rollback_trace ig (w_connectors w) (cr_organization_id cr)) undone)) w) \<and>
     length rs = length undone \<and>
     (\<forall>k < length undone. dget (rs ! k) ''index'' = dget (undone ! k) ''index'' \<and>
        (step_rolled_back (rs ! k) \<longrightarrow>
           rollback_trace ig (w_connectors w) (cr_organization_id cr) (undone ! k) \<noteq> []))"
proof -
  let ?org = "cr_organization_id cr"
  have "list_all rotation_step undone" using good by (simp add: undone_def)
  from rotation.undo_all [OF this, of ig env ?org w] obtain rs css t
    where run: "mapc (rollback_step ig env ?org) undone w = (Inr rs, t)"
      and calls: "w_calls t = w_calls w @ concat css" and rest: "rest_of_world t = rest_of_world w"
      and len: "length rs = length undone" "length css = length undone"
      and sh: "\<And>k. k < length undone \<Longrightarrow>
        unwound_step ig ?org (rest_of_world w) (undone ! k) (css ! k) (rs ! k)" by blast
  have css: "css = map (rollback_trace ig (w_connectors w) ?org) undone"
    by (rule list_eq_map_nth) (use len sh in \<open>simp_all add: unwound_step_def\<close>)
  have t: "t = with_calls (concat css) w" by (rule world_extends [OF rest calls])
  have empty: "rs = [] \<Longrightarrow> list_all step_rolled_back rs" by simp
  have "execute_filo_rollback ig env i result w =
     (Inr [(''rollback_steps'', PList (map PDict rs)),
           (''all_rolled_back'', PBool (list_all step_rolled_back rs)),
           (''has_warnings'', PBool (\<not> list_all step_rolled_back rs))], t)"
    using assms(1,2) cr run empty
    by (auto simp: execute_filo_rollback_def bindc_apply get_cr_one_def undone_def Let_def)
  with t css len(1) sh show ?thesis by (intro exI [of _ rs]) (simp add: unwound_step_def)
qed

text \<open>C11: Rolling back a credential rotation undoes exactly the completed steps, last first: one call
  of the executor's rollback per step, with the parameters and the result the step ran with, or
  none where the executor is missing or has no rollback. It ends whatever the executors answer,
  touches nothing else in the database, reports one entry per undone step in that order, counts a
  step as rolled back only if it was called, and warns exactly when some step was not.\<close>

theorem rotation_rollback_reverse:
  assumes "stored_steps result = Inr values" and "as_dicts values = Inr steps"
    and "list_all rotation_step (filter is_completed_step steps)"
    and "get_cr w i = Some cr"
  shows "\<exists>rs. execute_filo_rollback ig env i result w =
     (Inr [(''rollback_steps'', PList (map PDict rs)),
           (''all_rolled_back'', PBool (list_all step_rolled_back rs)),
           (''has_warnings'', PBool (\<not> list_all step_rolled_back rs))],
      with_calls (concat (map (rollback_trace ig (w_connectors w) (cr_organization_id cr))
        (rev (filter is_completed_step steps)))) w) \<and>
     length rs = length (filter is_completed_step steps) \<and>
     (\<forall>k < length rs.
        dget (rs ! k) ''index'' = dget (rev (filter is_completed_step steps) ! k) ''index'' \<and>
        (step_rolled_back (rs ! k) \<longrightarrow>
           rollback_trace ig (w_connectors w) (cr_organization_id cr)
             (rev (filter is_completed_step steps) ! k) \<noteq> []))"
  using filo_rollback_unwinds [OF assms, of ig env] by auto

section \<open>The execution is serial\<close>

text \<open>The abstract rotation: what becomes of the steps, the calls made, and where it paused. Settled
  steps are passed over, due steps are run in order, the first failure ends it. \<open>tr\<close> is what the
  calls of one step can be.\<close>

inductive rotates ::
  "(pydict \<Rightarrow> ext_call list \<Rightarrow> bool) \<Rightarrow> pyval list \<Rightarrow> pyval list \<Rightarrow> ext_call list \<Rightarrow> nat option \<Rightarrow> bool"
  for tr where
    rotates_end: "rotates tr [] [] [] None"
  | rotates_settled:
      "dget step ''status'' = Some st \<Longrightarrow> st \<notin> set due_statuses \<Longrightarrow> rotates tr vs ws cs p \<Longrightarrow>
       rotates tr (PDict step # vs) (PDict step # ws) cs (map_option Suc p)"
  | rotates_done:
      "dget step ''status'' = Some st \<Longrightarrow> st \<in> set due_statuses \<Longrightarrow> tr step ds \<Longrightarrow> ds \<noteq> [] \<Longrightarrow>
       rotates tr vs ws cs p \<Longrightarrow>
       rotates tr (PDict step # vs) (PDict (completed_step step r) # ws) (ds @ cs) (map_option Suc p)"
  | rotates_pause:
      "dget step ''status'' = Some st \<Longrightarrow> st \<in> set due_statuses \<Longrightarrow> tr step ds \<Longrightarrow>
       rotates tr (PDict step # vs) (PDict (failed_step step e) # vs) ds (Some 0)"

inductive_cases rotates_NilE: "rotates tr [] ws cs p"
inductive_cases rotates_ConsE: "rotates tr (v # vs) ws cs p"

text \<open>The calls of a step: those of its action, with the connector found for its type.\<close>

definition step_calls :: "integration \<Rightarrow> connector list \<Rightarrow> uuid \<Rightarrow> pydict \<Rightarrow> ext_call list \<Rightarrow> bool" where
  "step_calls ig conns org step cs \<longleftrightarrow>
     cs = [] \<or>
     (\<exists>ps. dget step ''params'' = Some (PDict ps) \<and>
        action_calls (text_of (dget_or step ''connector_type'' PNone))
          (text_of (dget_or step ''action_id'' PNone)) ps []
          (found_connector ig conns (text_of (dget_or step ''connector_type'' PNone)) org) cs)"

definition rotation_value :: "pyval \<Rightarrow> bool" where
  "rotation_value v \<longleftrightarrow> (\<exists>step. v = PDict step \<and> rotation_step step)"

lemma as_dict_Inr [simp]: "as_dict v = Inr d \<longleftrightarrow> v = PDict d"
  by (cases v) (auto simp: as_dict_def)

lemma attempt_step_calls:
  assumes "rotation_step step"
    and run: "attempt_step ig env org (with_status step ''executing'') w = (x, t)"
  shows "\<exists>cs. t = with_calls cs w \<and> step_calls ig (w_connectors w) org step cs \<and> (cs = [] \<longrightarrow> isl x)"
proof -
  from assms(1) obtain ct action params
    where keys: "dget step ''connector_type'' = Some ct" "dget step ''action_id'' = Some action"
      "dget step ''params'' = Some params" by (auto simp: rotation_step_def)
  show ?thesis
  proof (cases "as_dict params")
    case (Inl e)
    with run keys have "x = Inl e \<and> t = w"
      by (simp add: attempt_step_def with_status_def dindex_def comp_simps)
    then have "t = w" "isl x" by simp_all
    then show ?thesis by (intro exI [of _ "[]"]) (simp add: step_calls_def)
  next
    case (Inr ps)
    with run keys have "execute_action ig env (text_of ct) (text_of action) ps []
        (found_connector ig (w_connectors w) (text_of ct) org) w = (x, t)"
      by (auto simp: attempt_step_def with_status_def dindex_def comp_simps)
    from execute_action_calls [OF this] keys Inr show ?thesis
      by (auto simp: step_calls_def dget_or_def)
  qed
qed

lemma try_step_calls:
  assumes "rotation_step step"
  shows "\<exists>out cs. try_step ig env org (with_status step ''executing'') w = (Inr out, with_calls cs w) \<and>
     step_calls ig (w_connectors w) org step cs \<and> (cs = [] \<longrightarrow> (\<exists>e. out = Step_failed e))"
proof -
  obtain x t where run: "attempt_step ig env org (with_status step ''executing'') w = (x, t)"
    by fastforce
  from attempt_step_calls [OF assms this] obtain cs
    where "t = with_calls cs w" "step_calls ig (w_connectors w) org step cs" "cs = [] \<longrightarrow> isl x" by blast
  with run show ?thesis by (cases x) (auto simp: try_step_def comp_simps)
qed

text \<open>The writes of the loop as functions of the world.\<close>

definition store_steps :: "uuid option \<Rightarrow> pyval list \<Rightarrow> world \<Rightarrow> world" where
  "store_steps run steps w =
     (case run of None \<Rightarrow> w | Some r \<Rightarrow> upd_run r (\<lambda>q. q\<lparr>run_result := [(''steps'', PList steps)]\<rparr>) w)"

definition mark_status :: "uuid \<Rightarrow> change_request_status \<Rightarrow> world \<Rightarrow> world" where
  "mark_status i st w = upd_cr i (\<lambda>c. c\<lparr>cr_status := st, cr_updated_at := w_clock w\<rparr>) w"

lemma set_status_mark: "set_status i st = modifyc (mark_status i st)"
  by (rule ext) (simp add: set_status_def mark_status_def)

lemma persist_steps_store: "persist_steps run steps = modifyc (store_steps run steps)"
  by (rule ext) (simp add: persist_steps_def store_steps_def set_run_result_def split: option.split)

lemma store_row_twice:
  "key r' = key r \<Longrightarrow> store_row key r' (store_row key r rows) = store_row key r' rows"
  by (simp add: store_row_def)

lemma upd_run_twice:
  assumes "\<And>r. run_id (f r) = run_id r" "\<And>r. run_id (g r) = run_id r"
  shows "upd_run i g (upd_run i f w) = upd_run i (g \<circ> f) w"
proof (cases "get_run w i")
  case None
  then show ?thesis by (simp add: upd_run_def)
next
  case (Some r)
  have "get_run (upd_run i f w) i = Some (f r)" using Some assms by (simp add: get_run_upd_run)
  then have "upd_run i g (upd_run i f w) = put_run (g (f r)) (put_run (f r) w)"
    using Some by (simp add: upd_run_def)
  also have "\<dots> = put_run (g (f r)) w" using assms by (simp add: put_run_def store_row_twice)
  finally show ?thesis using Some by (simp add: upd_run_def)
qed

lemma upd_run_with_calls: "upd_run i f (with_calls cs w) = with_calls cs (upd_run i f w)"
  by (simp add: upd_run_def put_run_def split: option.split) (simp add: with_calls_def)

lemma upd_cr_with_calls: "upd_cr i f (with_calls cs w) = with_calls cs (upd_cr i f w)"
  by (simp add: upd_cr_def put_cr_def split: option.split) (simp add: with_calls_def)

lemma store_steps_with_calls [simp]:
  "store_steps run steps (with_calls cs w) = with_calls cs (store_steps run steps w)"
  by (simp add: store_steps_def upd_run_with_calls split: option.split)

lemma store_steps_twice [simp]:
  "store_steps run steps (store_steps run steps' w) = store_steps run steps w"
  by (simp add: store_steps_def upd_run_twice comp_def split: option.split)

lemma store_steps_frame [simp]:
  "w_connectors (store_steps run steps w) = w_connectors w"
  "w_calls (store_steps run steps w) = w_calls w" "w_clock (store_steps run steps w) = w_clock w"
  "get_cr (store_steps run steps w) i = get_cr w i"
  by (simp_all add: store_steps_def split: option.split)

lemma mark_status_frame [simp]:
  "w_connectors (mark_status i st w) = w_connectors w" "w_calls (mark_status i st w) = w_calls w"
  "w_clock (mark_status i st w) = w_clock w" "w_runs (mark_status i st w) = w_runs w"
  "get_run (mark_status i st w) r = get_run w r"
  by (simp_all add: mark_status_def)

lemma mark_status_with_calls [simp]:
  "mark_status i st (with_calls cs w) = with_calls cs (mark_status i st w)"
  by (simp add: mark_status_def upd_cr_with_calls)

lemma get_cr_mark_status [simp]:
  "get_cr (mark_status i st w) j =
     (if j = i then map_option (\<lambda>c. c\<lparr>cr_status := st, cr_updated_at := w_clock w\<rparr>) (get_cr w i)
      else get_cr w j)"
  by (simp add: mark_status_def get_cr_upd_cr)

definition due :: "pyval \<Rightarrow> bool" where
  "due v \<longleftrightarrow> (\<exists>step st. v = PDict step \<and> dget step ''status'' = Some st \<and> st \<in> set due_statuses)"

lemma due_PDict [simp]:
  "due (PDict step) \<longleftrightarrow> (\<exists>st. dget step ''status'' = Some st \<and> st \<in> set due_statuses)"
  by (simp add: due_def)

definition step_index :: "pyval \<Rightarrow> pyval" where
  "step_index v = (case v of PDict step \<Rightarrow> dget_or step ''index'' PNone | _ \<Rightarrow> PNone)"

lemma rotates_settled_steps:
  "rotates tr vs ws cs p \<Longrightarrow> \<not> list_ex due vs \<Longrightarrow> ws = vs \<and> cs = [] \<and> p = None"
  by (induction rule: rotates.induct) auto

text \<open>The world after the loop.\<close>

definition rotated_world ::
  "change_request \<Rightarrow> uuid option \<Rightarrow> pyval list \<Rightarrow> pyval list \<Rightarrow> ext_call list \<Rightarrow> nat option \<Rightarrow>
   world \<Rightarrow> world" where
  "rotated_world cr run vs steps cs p w =
     (let u = with_calls cs (if list_ex due vs then store_steps run steps w else w)
      in case p of None \<Rightarrow> u | Some _ \<Rightarrow> mark_status (cr_id cr) CRS_paused u)"

lemma run_steps_rotates:
  assumes "list_all rotation_value vs"
  shows "\<exists>ws cs p.
     run_steps ig env cr run done vs w =
       (Inr (done @ ws, map_option (\<lambda>n. step_index (vs ! n)) p),
        rotated_world cr run vs (done @ ws) cs p w) \<and>
     rotates (step_calls ig (w_connectors w) (cr_organization_id cr)) vs ws cs p"
  using assms
proof (induction vs arbitrary: "done" w)
  case Nil
  have "rotates (step_calls ig (w_connectors w) (cr_organization_id cr)) [] [] [] None"
    by (rule rotates_end)
  then show ?case
    by (intro exI [of _ "[]"] exI [of _ None]) (simp add: rotated_world_def)
next
  case (Cons v vs)
  let ?tr = "step_calls ig (w_connectors w) (cr_organization_id cr)"
  from Cons.prems obtain step where v: "v = PDict step" and ok: "rotation_step step"
    by (auto simp: rotation_value_def)
  from ok obtain st index ct action where st: "dget step ''status'' = Some st"
    and keys: "dget step ''index'' = Some index" "dget step ''connector_type'' = Some ct"
      "dget step ''action_id'' = Some action"
    by (auto simp: rotation_step_def)
  show ?case
  proof (cases "st \<in> set due_statuses")
    case False
    from Cons.IH [of "done @ [v]" w] Cons.prems obtain ws cs p
      where run: "run_steps ig env cr run (done @ [v]) vs w =
          (Inr ((done @ [v]) @ ws, map_option (\<lambda>n. step_index (vs ! n)) p),
           rotated_world cr run vs ((done @ [v]) @ ws) cs p w)"
        and rot: "rotates ?tr vs ws cs p" by auto
    from run False st v
    have "run_steps ig env cr run done (v # vs) w =
        (Inr (done @ v # ws, map_option (\<lambda>n. step_index ((v # vs) ! n)) (map_option Suc p)),
         rotated_world cr run (v # vs) (done @ v # ws) cs (map_option Suc p) w)"
      by (cases p) (simp_all add: comp_simps rotated_world_def dindex_def)
    moreover have "rotates ?tr (v # vs) (v # ws) cs (map_option Suc p)"
      unfolding v by (rule rotates_settled [where tr = ?tr, OF st False rot])
    ultimately show ?thesis by blast
  next
    case True
    let ?u = "store_steps run (done @ PDict (with_status step ''executing'') # vs) w"
    from try_step_calls [OF ok, of ig env "cr_organization_id cr" ?u] obtain out ds
      where tried: "try_step ig env (cr_organization_id cr) (with_status step ''executing'') ?u =
          (Inr out, with_calls ds ?u)"
        and ds: "?tr step ds" and none: "ds = [] \<longrightarrow> (\<exists>e. out = Step_failed e)" by auto
    show ?thesis
    proof (cases out)
      case (Step_failed e)
      have "run_steps ig env cr run done (v # vs) w =
          (Inr (done @ PDict (failed_step step e) # vs, Some index),
           rotated_world cr run (v # vs) (done @ PDict (failed_step step e) # vs) ds (Some 0) w)"
        using True st v keys tried Step_failed
        by (simp add: comp_simps rotated_world_def dindex_def failed_step_index_def
            persist_steps_store set_status_mark)
      moreover have "rotates ?tr (v # vs) (PDict (failed_step step e) # vs) ds (Some 0)"
        unfolding v by (rule rotates_pause [where tr = ?tr, OF st True ds])
      moreover have "step_index ((v # vs) ! 0) = index"
        using v keys by (simp add: step_index_def dget_or_def)
      ultimately show ?thesis
        by (intro exI [of _ "PDict (failed_step step e) # vs"] exI [of _ ds] exI [of _ "Some 0"])
          (simp del: run_steps.simps)
    next
      case (Step_done r)
      with none have "ds \<noteq> []" by auto
      let ?c = "PDict (completed_step step r)"
      let ?w = "with_calls ds (store_steps run (done @ ?c # vs) w)"
      from Cons.IH [of "done @ [?c]" ?w] Cons.prems obtain ws cs p
        where run: "run_steps ig env cr run (done @ [?c]) vs ?w =
            (Inr ((done @ [?c]) @ ws, map_option (\<lambda>n. step_index (vs ! n)) p),
             rotated_world cr run vs ((done @ [?c]) @ ws) cs p ?w)"
          and rot: "rotates ?tr vs ws cs p" by auto
      have world: "rotated_world cr run vs ((done @ [?c]) @ ws) cs p ?w =
          rotated_world cr run (v # vs) (done @ ?c # ws) (ds @ cs) (map_option Suc p) w"
        using rotates_settled_steps [OF rot] True st v
        by (cases "list_ex due vs"; cases p) (simp_all add: rotated_world_def)
      have "run_steps ig env cr run done (v # vs) w =
          (Inr (done @ ?c # ws, map_option (\<lambda>n. step_index ((v # vs) ! n)) (map_option Suc p)),
           rotated_world cr run (v # vs) (done @ ?c # ws) (ds @ cs) (map_option Suc p) w)"
        using True st v tried Step_done run world
        by (cases p) (simp_all add: comp_simps dindex_def persist_steps_store)
      moreover have "rotates ?tr (v # vs) (?c # ws) (ds @ cs) (map_option Suc p)"
        unfolding v by (rule rotates_done [where tr = ?tr, OF st True ds \<open>ds \<noteq> []\<close> rot])
      ultimately show ?thesis by blast
    qed
  qed
qed

text \<open>What becomes of the step at position \<open>m\<close> when the rotation pauses at \<open>p\<close>: settled steps and
  those after the pause stay as they were, the step paused at has failed, the others completed.\<close>

definition step_fate :: "nat option \<Rightarrow> nat \<Rightarrow> pyval \<Rightarrow> pyval \<Rightarrow> bool" where
  "step_fate p m v v' \<longleftrightarrow>
     (if \<not> due v \<or> (case p of None \<Rightarrow> False | Some n \<Rightarrow> n < m) then v' = v
      else if p = Some m then \<exists>step e. v = PDict step \<and> v' = PDict (failed_step step e)
      else \<exists>step r. v = PDict step \<and> v' = PDict (completed_step step r))"

text \<open>The steps that were tried, in order.\<close>

definition attempted :: "pyval list \<Rightarrow> nat option \<Rightarrow> pyval list" where
  "attempted vs p = filter due (case p of None \<Rightarrow> vs | Some n \<Rightarrow> take (Suc n) vs)"

definition calls_in_order ::
  "(pydict \<Rightarrow> ext_call list \<Rightarrow> bool) \<Rightarrow> pyval list \<Rightarrow> ext_call list \<Rightarrow> bool" where
  "calls_in_order tr vs cs \<longleftrightarrow>
     (\<exists>css. cs = concat css \<and> list_all2 (\<lambda>v ds. \<exists>step. v = PDict step \<and> tr step ds) vs css)"

lemma calls_in_order_Nil [simp]: "calls_in_order tr [] []"
  by (simp add: calls_in_order_def)

lemma calls_in_order_Cons:
  "tr step ds \<Longrightarrow> calls_in_order tr vs cs \<Longrightarrow> calls_in_order tr (PDict step # vs) (ds @ cs)"
  unfolding calls_in_order_def
  by (elim exE conjE, rule_tac x = "ds # css" in exI) simp

lemma step_fate_Suc [simp]: "step_fate (map_option Suc p) (Suc m) v v' = step_fate p m v v'"
  by (cases p) (simp_all add: step_fate_def)

lemma attempted_Cons [simp]:
  "attempted (v # vs) (map_option Suc p) = (if due v then v # attempted vs p else attempted vs p)"
  by (cases p) (simp_all add: attempted_def)

lemma rotates_pointwise:
  "rotates tr vs ws cs p \<Longrightarrow>
   length ws = length vs \<and> (\<forall>m < length vs. step_fate p m (vs ! m) (ws ! m)) \<and>
   calls_in_order tr (attempted vs p) cs \<and> (\<forall>n. p = Some n \<longrightarrow> n < length vs \<and> due (vs ! n))"
proof (induction rule: rotates.induct)
  case rotates_end
  show ?case by (simp add: attempted_def)
next
  case (rotates_settled step st vs ws cs p)
  then show ?case
    by (auto simp: less_Suc_eq_0_disj split: option.splits) (auto simp: step_fate_def)
next
  case (rotates_done step st ds vs ws cs p r)
  then show ?case
    by (auto simp: less_Suc_eq_0_disj intro!: calls_in_order_Cons)
      (auto simp: step_fate_def split: option.splits)
next
  case (rotates_pause step st ds vs e)
  from calls_in_order_Cons [where tr = tr, OF rotates_pause(3) calls_in_order_Nil]
    rotates_pause(1,2)
  have "calls_in_order tr (attempted (PDict step # vs) (Some 0)) ds" by (simp add: attempted_def)
  with rotates_pause show ?case
    by (auto simp: step_fate_def less_Suc_eq_0_disj)
qed

definition rotation_answer :: "pyval list \<Rightarrow> pyval list \<Rightarrow> nat option \<Rightarrow> pydict" where
  "rotation_answer vs ws p =
     (case p of
        None \<Rightarrow> [(''steps'', PList ws)]
      | Some n \<Rightarrow> [(''steps'', PList ws), (''paused'', PBool True),
                   (''current_step'', step_index (vs ! n))])"

definition rotation_status :: "nat option \<Rightarrow> change_request_status" where
  "rotation_status p = (case p of None \<Rightarrow> CRS_completed | Some _ \<Rightarrow> CRS_paused)"

lemma complete_rotation_run_apply:
  "\<exists>u. complete_rotation_run i d w = (Inr (), u) \<and> w_calls u = w_calls w \<and> get_cr u = get_cr w"
  by (auto simp: complete_rotation_run_def fun_eq_iff split: option.splits)

lemma execute_steps_rotates:
  assumes cr: "get_cr w i = Some cr"
    and steps: "current_steps cr (rotation_run w i) = Inr vs" and ok: "list_all rotation_value vs"
  shows "\<exists>ws cs p t. execute_steps ig env i w = (Inr (rotation_answer vs ws p), t) \<and>
     rotates (step_calls ig (w_connectors w) (cr_organization_id cr)) vs ws cs p \<and>
     w_calls t = w_calls w @ cs \<and>
     get_cr t i = Some (cr\<lparr>cr_status := rotation_status p, cr_updated_at := w_clock w\<rparr>)"
proof -
  have id: "cr_id cr = i" using cr by (rule cr_table.fetch_key)
  let ?run = "map_option run_id (rotation_run w i)"
  from run_steps_rotates [OF ok, of ig env cr ?run "[]" w] obtain ws cs p
    where run: "run_steps ig env cr ?run [] vs w =
        (Inr (ws, map_option (\<lambda>n. step_index (vs ! n)) p), rotated_world cr ?run vs ws cs p w)"
      and rot: "rotates (step_calls ig (w_connectors w) (cr_organization_id cr)) vs ws cs p"
    by auto
  show ?thesis
  proof (cases p)
    case (Some n)
    with cr steps run id have "execute_steps ig env i w =
        (Inr (rotation_answer vs ws p), rotated_world cr ?run vs ws cs p w)"
      by (simp add: execute_steps_def comp_simps get_cr_one_def rotation_answer_def)
    with rot cr id Some show ?thesis
      by (intro exI [of _ ws] exI [of _ cs] exI [of _ p])
        (simp add: rotated_world_def rotation_status_def)
  next
    case None
    let ?u = "mark_status i CRS_completed (rotated_world cr ?run vs ws cs p w)"
    from complete_rotation_run_apply [of i "[(''steps'', PList ws)]" ?u] obtain t
      where t: "complete_rotation_run i [(''steps'', PList ws)] ?u = (Inr (), t)"
        "w_calls t = w_calls ?u" "get_cr t = get_cr ?u" by blast
    with cr steps run None have "execute_steps ig env i w = (Inr (rotation_answer vs ws p), t)"
      by (simp add: execute_steps_def comp_simps get_cr_one_def rotation_answer_def set_status_mark)
    with rot cr None t(2,3) show ?thesis
      by (intro exI [of _ ws] exI [of _ cs] exI [of _ p] exI [of _ t])
        (simp add: rotated_world_def rotation_status_def)
  qed
qed


text \<open>A rotation of two steps whose second call fails.\<close>

definition example_integration :: integration where
  "example_integration =
     \<lparr>ig_modules = example_modules, ig_catalog = example_catalog, ig_unreadable = (\<lambda>_. None),
      ig_credentials = (\<lambda>_. [(''kubeconfig'', PStr ''yaml'')]), ig_fingerprint = (\<lambda>pem. pem),
      ig_not_after = (\<lambda>_. Some 0)\<rparr>"

definition example_rotation_step :: "nat \<Rightarrow> string \<Rightarrow> string \<Rightarrow> pydict" where
  "example_rotation_step i ct action =
     [(''index'', PInt (int i)), (''label'', PStr ''rotate''), (''connector_type'', PStr ct),
      (''action_id'', PStr action), (''params'', PDict []), (''status'', PStr ''pending''),
      (''result'', PNone), (''error'', PNone)]"

definition example_rotation :: "pyval list" where
  "example_rotation =
     [PDict (example_rotation_step 0 ''aws'' ''ssh_restart''),
      PDict (example_rotation_step 1 ''kubernetes'' ''pod_restart'')]"

definition rotation_cr :: "pyval list \<Rightarrow> change_request" where
  "rotation_cr steps = example_cr\<lparr>cr_change_type := ''credential_rotation'',
     cr_desired_outcome := [(''steps'', PList steps)], cr_status := CRS_executing\<rparr>"

definition rotation_desired :: "pyval list" where
  "rotation_desired =
     [PDict [(''label'', PStr ''rotate''), (''connector_type'', PStr ''aws''),
             (''action_id'', PStr ''ssh_restart'')],
      PDict [(''label'', PStr ''rotate''), (''connector_type'', PStr ''kubernetes''),
             (''action_id'', PStr ''pod_restart'')]]"

lemma example_rotation_ok: "list_all rotation_value example_rotation"
  by (simp add: example_rotation_def rotation_value_def rotation_step_def example_rotation_step_def)

lemma example_current_steps:
  "current_steps (rotation_cr rotation_desired) (rotation_run (example_world [c]) i) =
     Inr example_rotation"
  by (simp add: current_steps_def rotation_run_def runs_of_def example_world_def rotation_cr_def
      rotation_desired_def init_step_def dindex_def example_rotation_def example_rotation_step_def)

lemma example_get_cr: "get_cr (example_world [c]) (cr_id c) = Some c"
  by (simp add: get_cr_def lookup_row_def example_world_def)

lemma rotation_cr_id [simp]: "cr_id (rotation_cr steps) = ''cr-1''"
  by (simp add: rotation_cr_def example_cr_def)

definition example_pause :: "pyval list" where
  "example_pause =
     [PDict (completed_step (example_rotation_step 0 ''aws'' ''ssh_restart'') []),
      PDict (failed_step (example_rotation_step 1 ''kubernetes'' ''pod_restart'')
        (Exn ConnectorError ''Action not found in connector''))]"

text \<open>The second step names a connector type the catalog does not have, so it pauses there.\<close>

lemma example_rotation_answer:
  "fst (execute_steps example_integration example_env ''cr-1''
     (example_world [rotation_cr rotation_desired])) =
   Inr (rotation_answer example_rotation example_pause (Some 1))"
  by code_simp


text \<open>Rolling the paused rotation back undoes its first step.\<close>

theorem rotation_rollback_witness:
  "\<exists>rs. execute_filo_rollback example_integration example_env ''cr-1''
       [(''steps'', PList example_pause)] (example_world [rotation_cr rotation_desired]) =
     (Inr [(''rollback_steps'', PList (map PDict rs)),
           (''all_rolled_back'', PBool (list_all step_rolled_back rs)),
           (''has_warnings'', PBool (\<not> list_all step_rolled_back rs))],
      with_calls [Call_rollback ''aws'' ''ssh_restart'' [] [] None]
        (example_world [rotation_cr rotation_desired])) \<and>
     length rs = 1"
proof -
  let ?cr = "rotation_cr rotation_desired"
  let ?w = "example_world [?cr]"
  let ?steps = "[completed_step (example_rotation_step 0 ''aws'' ''ssh_restart'') [],
      failed_step (example_rotation_step 1 ''kubernetes'' ''pod_restart'')
        (Exn ConnectorError ''Action not found in connector'')]"
  have stored: "stored_steps [(''steps'', PList example_pause)] = Inr example_pause"
    by (simp add: stored_steps_def example_pause_def)
  have dicts: "as_dicts example_pause = Inr ?steps" by (simp add: example_pause_def)
  have completed: "filter is_completed_step ?steps = [hd ?steps]"
    by (simp add: is_completed_step_def completed_step_def failed_step_def with_status_def)
  have good: "list_all rotation_step (filter is_completed_step ?steps)"
    unfolding completed
    by (simp add: rotation_step_def completed_step_def with_status_def example_rotation_step_def)
  have cr: "get_cr ?w ''cr-1'' = Some ?cr" using example_get_cr [of ?cr] by simp
  have trace: "rollback_trace example_integration (w_connectors ?w) (cr_organization_id ?cr) (hd ?steps) =
      [Call_rollback ''aws'' ''ssh_restart'' [] [] None]"
    by code_simp
  from rotation_rollback_reverse [OF stored dicts good cr, of example_integration example_env]
  show ?thesis unfolding completed using trace by auto
qed

end
