(* ===== verification/Fanout.thy ===== *)
theory Fanout
  imports CredRotation
begin

text \<open>
  Credential rotation fan-outs (\<open>services/credential_rotation_fanout_executor.py\<close>): rotate a
  credential, scan for its consumers, push the new value to each, and scan again. The phase and
  the consumers are kept in the result of the run, so a paused fan-out resumes in its phase. The
  scan and update functions of the surfaces are services outside; they get the parameters the
  code builds for them and the connector.
\<close>

section \<open>Connectors\<close>

text \<open>The first connector with credentials, or else the first one. Attaching credentials that do not
  decrypt raises.\<close>

fun pick_connector :: "integration \<Rightarrow> connector option \<Rightarrow> connector list \<Rightarrow> connector option prog" where
  "pick_connector ig first [] = ret first"
| "pick_connector ig first (c # cs) =
     thenc (attach_credentials ig c)
       (if ig_credentials ig (connector_id c) \<noteq> [] then ret (Some c)
        else pick_connector ig (case first of None \<Rightarrow> Some c | Some f \<Rightarrow> Some f) cs)"

definition load_connector_by_type :: "integration \<Rightarrow> string \<Rightarrow> uuid \<Rightarrow> connector option prog" where
  "load_connector_by_type ig ct org =
     bindc (of_sum (connector_type_of ct)) (\<lambda>ct_enum.
     bindc (gets (\<lambda>w. connectors_of w org ct_enum)) (pick_connector ig None))"

text \<open>The connectors loaded during one execution.\<close>

type_synonym connector_cache = "(string \<times> connector option) list"

definition cached_connector ::
  "integration \<Rightarrow> string \<Rightarrow> uuid \<Rightarrow> connector_cache \<Rightarrow> (connector option \<times> connector_cache) prog" where
  "cached_connector ig ct org cache =
     (case map_of cache ct of
        Some c \<Rightarrow> ret (c, cache)
      | None \<Rightarrow>
          bindc (load_connector_by_type ig ct org) (\<lambda>c. ret (c, cache @ [(ct, c)])))"

section \<open>Scanning\<close>

definition scan_functions :: "string \<Rightarrow> string list" where
  "scan_functions scope =
     (if scope = ''aws''
      then [''scan_lambda_env_vars'', ''scan_ecs_task_defs'', ''scan_ssm_parameters_metadata'']
      else if scope = ''kubernetes'' then [''scan_configmaps'', ''scan_deployment_env'']
      else [])"

definition scan_with :: "env \<Rightarrow> pyval \<Rightarrow> uuid \<Rightarrow> connector \<Rightarrow> string \<Rightarrow> pyval list prog" where
  "scan_with env search_terms i c fn =
     catchc
       (bindc (call env (Call_service fn
           [(''search_terms'', search_terms), (''change_request_id'', PStr i),
            (''organization_id'', PStr (connector_organization_id c)),
            (''connector_id'', PStr (connector_id c))])) (\<lambda>r.
          of_sum (as_list (dget_or r ''hits'' (PList [])))))
       (\<lambda>_. ret [])"

definition run_scan_for_scope ::
  "integration \<Rightarrow> env \<Rightarrow> pyval \<Rightarrow> uuid \<Rightarrow> uuid \<Rightarrow> pyval \<Rightarrow> pyval list prog" where
  "run_scan_for_scope ig env search_terms i org scope =
     bindc (load_connector_by_type ig (text_of scope) org) (\<lambda>conn.
       case conn of
         None \<Rightarrow> ret []
       | Some c \<Rightarrow>
           bindc (mapc (scan_with env search_terms i c) (scan_functions (text_of scope)))
             (\<lambda>hits. ret (concat hits)))"

definition scan_all ::
  "integration \<Rightarrow> env \<Rightarrow> pyval \<Rightarrow> uuid \<Rightarrow> uuid \<Rightarrow> pyval list \<Rightarrow> pyval list prog" where
  "scan_all ig env search_terms i org scopes =
     bindc (mapc (run_scan_for_scope ig env search_terms i org) scopes) (\<lambda>hits. ret (concat hits))"

definition consumer_of :: "uuid \<Rightarrow> nat \<Rightarrow> pydict \<Rightarrow> exn + pydict" where
  "consumer_of org i hit =
     (case as_dict (dget_or hit ''consumer_identity'' (PDict [])) of
        Inl e \<Rightarrow> Inl e
      | Inr identity \<Rightarrow>
          Inr [(''index'', PInt (int i)), (''surface'', dget_or hit ''surface'' (PStr [])),
               (''location'', dget_or hit ''location'' (PStr [])),
               (''matched_term'', dget_or hit ''matched_term'' (PStr [])),
               (''surface_metadata'', dget_or identity ''surface_metadata'' (PDict [])),
               (''_org_id'', PStr org), (''update_result'', PNone), (''verify_result'', PNone),
               (''rollback_result'', PNone)])"

fun consumers_of :: "uuid \<Rightarrow> nat \<Rightarrow> pyval list \<Rightarrow> exn + pydict list" where
  "consumers_of org i [] = Inr []"
| "consumers_of org i (v # vs) =
     (case as_dict v of
        Inl e \<Rightarrow> Inl e
      | Inr hit \<Rightarrow>
          (case consumer_of org i hit of
             Inl e \<Rightarrow> Inl e
           | Inr c \<Rightarrow>
               (case consumers_of org (i + 1) vs of Inl e \<Rightarrow> Inl e | Inr cs \<Rightarrow> Inr (c # cs))))"

section \<open>Updating a consumer\<close>

definition aws_scan_surfaces :: "string list" where
  "aws_scan_surfaces = [''aws_lambda_env'', ''aws_ecs_task_def_env'', ''aws_ssm_parameter'']"

definition surface_connector_type :: "string \<Rightarrow> string" where
  "surface_connector_type surface =
     (if surface \<in> set aws_scan_surfaces then ''aws'' else ''kubernetes'')"

definition update_functions :: "(string \<times> string) list" where
  "update_functions =
     [(''aws_lambda_env'', ''update_lambda_env_var''),
      (''aws_ecs_task_def_env'', ''update_ecs_task_def_env''),
      (''aws_ssm_parameter'', ''update_ssm_parameter_value''),
      (''k8s_configmap'', ''update_configmap_value''),
      (''k8s_deployment_env'', ''update_deployment_env_var'')]"

definition rollback_functions :: "(string \<times> string) list" where
  "rollback_functions =
     [(''aws_lambda_env'', ''rollback_lambda_env_var''),
      (''aws_ecs_task_def_env'', ''rollback_ecs_task_def_env''),
      (''aws_ssm_parameter'', ''rollback_ssm_parameter_value''),
      (''k8s_configmap'', ''rollback_configmap_value''),
      (''k8s_deployment_env'', ''rollback_deployment_env_var'')]"

text \<open>\<open>if old in d and new not in d: d[new] = d.pop(old)\<close>.\<close>

definition rename_key :: "string \<Rightarrow> string \<Rightarrow> pydict \<Rightarrow> pydict" where
  "rename_key old new d =
     (case dget d old of
        Some v \<Rightarrow> if dget d new = None then dput (remove_keys [old] d) new v else d
      | None \<Rightarrow> d)"

definition update_params :: "string \<Rightarrow> pydict \<Rightarrow> pyval \<Rightarrow> pyval \<Rightarrow> pydict" where
  "update_params surface meta old_value new_value =
     (let params = dmerge meta [(''old_value'', old_value), (''new_value'', new_value)]
      in if surface = ''k8s_configmap''
         then rename_key ''data_key'' ''key'' (rename_key ''name'' ''configmap_name'' params)
         else if surface = ''k8s_deployment_env'' \<or> surface = ''k8s_deployment_spec''
         then rename_key ''name'' ''deployment_name'' params
         else params)"

definition error_result :: "string \<Rightarrow> pydict" where
  "error_result msg = [(''status'', PStr ''error''), (''error'', PStr msg)]"

definition call_update :: "env \<Rightarrow> string \<Rightarrow> pydict \<Rightarrow> connector \<Rightarrow> pydict prog" where
  "call_update env surface params c =
     (case map_of update_functions surface of
        None \<Rightarrow> ret [(''status'', PStr ''skipped''), (''reason'', PStr (''unknown surface: '' @ surface))]
      | Some fn \<Rightarrow>
          catchc (call env (Call_service fn
              [(''parameters'', PDict params), (''connector_id'', PStr (connector_id c))]))
            (\<lambda>e. ret (error_result (exn_text e))))"

definition update_consumer ::
  "integration \<Rightarrow> env \<Rightarrow> pyval \<Rightarrow> pydict \<Rightarrow> connector_cache \<Rightarrow> (pydict \<times> connector_cache) prog" where
  "update_consumer ig env new_value consumer cache =
     bindc (of_sum (dindex consumer ''surface'')) (\<lambda>surface.
     bindc (of_sum (dindex consumer ''matched_term'')) (\<lambda>old_value.
     bindc (of_sum (dindex consumer ''_org_id'')) (\<lambda>org_id.
     bindc (cached_connector ig (surface_connector_type (text_of surface)) (text_of org_id) cache)
       (\<lambda>(conn, cache').
         case conn of
           None \<Rightarrow> ret (error_result (''No '' @ surface_connector_type (text_of surface) @
                         '' connector found''), cache')
         | Some c \<Rightarrow>
             bindc (of_sum (as_dict (dget_or consumer ''surface_metadata'' (PDict [])))) (\<lambda>meta.
             bindc (call_update env (text_of surface)
                      (update_params (text_of surface) meta old_value new_value) c)
               (\<lambda>result. ret (result, cache')))))))"

text \<open>The pending consumers are updated one by one; the others are kept.\<close>

fun update_pending ::
  "integration \<Rightarrow> env \<Rightarrow> pyval \<Rightarrow> connector_cache \<Rightarrow> pydict list \<Rightarrow> pydict list prog" where
  "update_pending ig env new_value cache [] = ret []"
| "update_pending ig env new_value cache (c # cs) =
     (if truthy (dget_or c ''update_result'' PNone)
      then bindc (update_pending ig env new_value cache cs) (\<lambda>cs'. ret (c # cs'))
      else bindc (update_consumer ig env new_value c cache) (\<lambda>(result, cache').
           bindc (of_sum (as_dict (dget_or c ''surface_metadata'' (PDict [])))) (\<lambda>meta.
           bindc (of_sum (dindex c ''matched_term'')) (\<lambda>old_value.
           bindc (update_pending ig env new_value cache' cs) (\<lambda>cs'.
             ret (dput (dput c ''update_result'' (PDict result)) ''update_params''
                    (PDict (dmerge meta [(''old_value'', old_value), (''new_value'', new_value)]))
                  # cs'))))))"

section \<open>Phases\<close>

text \<open>The status of a consumer's update, as the dictionaries the update functions return have it.\<close>

definition update_status :: "pydict \<Rightarrow> pyval" where
  "update_status c =
     (case dget_or c ''update_result'' PNone of PDict r \<Rightarrow> dget_or r ''status'' PNone | _ \<Rightarrow> PNone)"

definition fanout_result :: "pydict list \<Rightarrow> pyval \<Rightarrow> string \<Rightarrow> bool \<Rightarrow> pydict" where
  "fanout_result consumers rotation_result phase paused =
     [(''phase'', PStr phase), (''rotation_result'', rotation_result),
      (''consumers'', PList (map PDict consumers)), (''paused'', PBool paused),
      (''has_warnings'', PBool (list_ex
         (\<lambda>c. update_status c \<notin> {PNone, PStr ''updated'', PStr ''skipped''}) consumers))]"

definition fanout_run :: "uuid \<Rightarrow> uuid \<Rightarrow> execution_run prog" where
  "fanout_run fresh i =
     bindc (gets (\<lambda>w. latest_run (filter (\<lambda>r. run_status r = ES_running) (runs_of w i)))) (\<lambda>found.
       case found of
         Some r \<Rightarrow> ret r
       | None \<Rightarrow>
           bindc (gets w_clock) (\<lambda>now.
             let r = new_run fresh i (''cred-fanout-'' @ i) ES_running now
             in thenc (add_run r) (ret r)))"

text \<open>The rotation, if one is asked for: its result and the value to push. A failed rotation is
  recorded and the fan-out goes on with the value it had.\<close>

definition rotate_credential ::
  "integration \<Rightarrow> env \<Rightarrow> uuid \<Rightarrow> uuid \<Rightarrow> pydict \<Rightarrow> pydict \<Rightarrow> pyval \<Rightarrow> (pydict \<times> pyval) prog" where
  "rotate_credential ig env i org desired spec new_value =
     bindc (of_sum (dindex spec ''connector_type'')) (\<lambda>ct.
     bindc (load_connector_by_type ig (text_of ct) org) (\<lambda>conn.
     catchc
       (bindc (of_sum (dindex spec ''action_id'')) (\<lambda>action.
        bindc (of_sum (as_dict (dget_or spec ''params'' (PDict [])))) (\<lambda>params.
        bindc (execute_action ig env (text_of ct) (text_of action) params [] conn) (\<lambda>r.
          let v = dget_or r ''new_value'' PNone
          in if truthy v
             then thenc (modifyc (upd_cr i (\<lambda>c. c\<lparr>cr_desired_outcome := dput desired ''new_value'' v\<rparr>)))
                    (ret (r, v))
             else ret (r, new_value)))))
       (\<lambda>e. ret ([(''error'', PStr (exn_text e)), (''success'', PBool False)], new_value))))"

definition mark_verified :: "pyval list \<Rightarrow> pydict \<Rightarrow> pydict" where
  "mark_verified remaining c =
     (if dget_or c ''verify_result'' PNone = PNone
      then let still_present = dget_or c ''location'' PNone \<in> set remaining
           in dput c ''verify_result'' (PDict [(''success'', PBool (\<not> still_present)),
                (''still_present'', PBool still_present)])
      else c)"

definition verify_failed :: "pydict \<Rightarrow> bool" where
  "verify_failed c =
     (case dget_or c ''verify_result'' (PDict []) of
        PDict r \<Rightarrow> \<not> truthy (dget_or r ''success'' (PBool True))
      | _ \<Rightarrow> False)"

definition pause_fanout :: "uuid \<Rightarrow> uuid \<Rightarrow> pydict \<Rightarrow> pydict prog" where
  "pause_fanout rid i result =
     thenc (set_run_result rid result) (thenc (set_status i CRS_paused) (ret result))"

definition verify_fanout ::
  "integration \<Rightarrow> env \<Rightarrow> uuid \<Rightarrow> uuid \<Rightarrow> uuid \<Rightarrow> pyval \<Rightarrow> pyval list \<Rightarrow> pydict list \<Rightarrow> pyval \<Rightarrow>
   pydict prog" where
  "verify_fanout ig env rid i org search_terms scopes consumers rotation_result =
     bindc (scan_all ig env search_terms i org scopes) (\<lambda>hits.
     bindc (of_sum (as_dicts hits)) (\<lambda>remaining.
       let locations = map (\<lambda>h. dget_or h ''location'' (PStr [])) remaining;
           consumers' = map (mark_verified locations) consumers
       in if list_ex verify_failed consumers'
          then pause_fanout rid i (fanout_result consumers' rotation_result ''verify'' True)
          else let result = fanout_result consumers' rotation_result ''completed'' False
               in thenc (modifyc (\<lambda>w. upd_run rid (\<lambda>r. r\<lparr>run_result := result,
                     run_status := ES_completed, run_completed_at := Some (w_clock w)\<rparr>) w))
                    (ret result)))"

definition update_fanout ::
  "integration \<Rightarrow> env \<Rightarrow> uuid \<Rightarrow> uuid \<Rightarrow> uuid \<Rightarrow> pyval \<Rightarrow> pyval list \<Rightarrow> pydict list \<Rightarrow> pyval \<Rightarrow>
   pyval \<Rightarrow> pydict prog" where
  "update_fanout ig env rid i org search_terms scopes consumers rotation_result new_value =
     bindc (update_pending ig env new_value [] consumers) (\<lambda>consumers'.
       if list_ex (\<lambda>c. update_status c = PStr ''error'') consumers'
       then pause_fanout rid i (fanout_result consumers' rotation_result ''update'' True)
       else thenc (set_run_result rid (fanout_result consumers' rotation_result ''verify'' False))
         (verify_fanout ig env rid i org search_terms scopes consumers' rotation_result))"

definition scan_fanout ::
  "integration \<Rightarrow> env \<Rightarrow> uuid \<Rightarrow> uuid \<Rightarrow> uuid \<Rightarrow> pyval \<Rightarrow> pyval list \<Rightarrow> pyval \<Rightarrow> pydict list prog" where
  "scan_fanout ig env rid i org search_terms scopes rotation_result =
     bindc (scan_all ig env search_terms i org scopes) (\<lambda>hits.
     bindc (of_sum (consumers_of org 0 hits)) (\<lambda>consumers.
       thenc (set_run_result rid (fanout_result consumers rotation_result ''update'' False))
         (ret consumers)))"

text \<open>\<open>execute_credential_rotation_fanout\<close>. A run that is only flushed is lost when the session ends
  in an error before its first commit: the first commit is after the rotation if there is one,
  else after the scan.\<close>

definition execute_credential_rotation_fanout ::
  "integration \<Rightarrow> env \<Rightarrow> uuid \<Rightarrow> uuid \<Rightarrow> pydict prog" where
  "execute_credential_rotation_fanout ig env fresh i =
     bindc (get_cr_one i) (\<lambda>cr.
       let org = cr_organization_id cr; desired = cr_desired_outcome cr;
           search_terms = dget_or desired ''search_terms'' (PList []);
           rotate_spec = dget_or desired ''rotate'' PNone
       in bindc (of_sum (as_list (dget_or desired ''scan_scope'' (PList [])))) (\<lambda>scopes.
       bindc (gets (\<lambda>w. case latest_run (filter (\<lambda>r. run_status r = ES_running) (runs_of w i)) of
            None \<Rightarrow> [] | Some r \<Rightarrow> run_result r)) (\<lambda>prior.
       bindc (of_sum (as_list (dget_or prior ''consumers'' (PList [])))) (\<lambda>values.
       bindc (of_sum (as_dicts values)) (\<lambda>prior_consumers.
       let phase = dget_or prior ''phase'' (PStr []);
           prior_rotation = dget_or prior ''rotation_result'' (PDict []);
           new_value0 = dget_or desired ''new_value'' (PStr []);
           rotates = truthy rotate_spec \<and>
             phase \<notin> {PStr ''scan'', PStr ''update'', PStr ''verify''};
           rotation = bindc (fanout_run fresh i) (\<lambda>run.
             bindc (of_sum (as_dict rotate_spec)) (\<lambda>spec.
             bindc (rotate_credential ig env i org desired spec new_value0) (\<lambda>(result, new_value).
             thenc (set_run_result (run_id run)
                      (fanout_result prior_consumers (PDict result) ''scan'' False))
               (ret (run_id run, PDict result, new_value)))));
           scan = (\<lambda>rid rotation_result new_value.
             bindc (scan_fanout ig env rid i org search_terms scopes rotation_result) (\<lambda>consumers.
               ret (consumers, rid, rotation_result, new_value)));
           update = (\<lambda>(consumers, rid, rotation_result, new_value).
             update_fanout ig env rid i org search_terms scopes consumers rotation_result new_value)
       in if rotates then
            bindc (transact rotation) (\<lambda>(rid, rotation_result, new_value).
            bindc (transact (scan rid rotation_result new_value)) update)
          else if phase \<in> {PStr [], PStr ''scan''} then
            bindc (transact (bindc (fanout_run fresh i)
                     (\<lambda>run. scan (run_id run) prior_rotation new_value0))) update
          else bindc (fanout_run fresh i) (\<lambda>run.
            if phase = PStr ''update''
            then update (prior_consumers, run_id run, prior_rotation, new_value0)
            else if phase = PStr ''verify''
            then verify_fanout ig env (run_id run) i org search_terms scopes prior_consumers
                   prior_rotation
            else ret (fanout_result prior_consumers prior_rotation (text_of phase) False)))))))"

section \<open>Rollback\<close>

definition call_rollback_function ::
  "env \<Rightarrow> string \<Rightarrow> pyval \<Rightarrow> pyval \<Rightarrow> connector \<Rightarrow> pydict prog" where
  "call_rollback_function env surface params rollback_data c =
     (case map_of rollback_functions surface of
        None \<Rightarrow> ret [(''rolled_back'', PBool False),
                     (''reason'', PStr (''unknown surface: '' @ surface))]
      | Some fn \<Rightarrow>
          catchc (call env (Call_service fn
              [(''parameters'', params), (''rollback_data'', rollback_data),
               (''connector_id'', PStr (connector_id c))]))
            (\<lambda>e. ret (rolled_back_error (exn_text e))))"

text \<open>\<open>{"status": "rolled_back" or "success"}\<close> is read as rolled back.\<close>

definition normalize_rollback :: "pydict \<Rightarrow> pydict" where
  "normalize_rollback r =
     (if dget r ''rolled_back'' = None
      then dput r ''rolled_back''
        (PBool (dget_or r ''status'' (PStr []) \<in> {PStr ''rolled_back'', PStr ''success''}))
      else r)"

definition rollback_consumer ::
  "integration \<Rightarrow> env \<Rightarrow> pydict \<Rightarrow> connector_cache \<Rightarrow> (pydict \<times> connector_cache) prog" where
  "rollback_consumer ig env consumer cache =
     bindc (of_sum (dindex consumer ''surface'')) (\<lambda>surface.
     bindc (of_sum (as_dict (dget_or consumer ''update_result'' (PDict [])))) (\<lambda>update_result.
       let rollback_data = dget_or update_result ''rollback_data'' (PDict [])
       in if \<not> truthy rollback_data
          then ret ([(''rolled_back'', PBool False), (''reason'', PStr ''no rollback_data'')], cache)
          else
            bindc (of_sum (dindex consumer ''_org_id'')) (\<lambda>org_id.
            bindc (cached_connector ig (surface_connector_type (text_of surface)) (text_of org_id) cache)
              (\<lambda>(conn, cache').
                case conn of
                  None \<Rightarrow> ret (rolled_back_error (''No '' @ surface_connector_type (text_of surface) @
                              '' connector found''), cache')
                | Some c \<Rightarrow>
                    bindc (call_rollback_function env (text_of surface)
                       (dget_or consumer ''update_params'' (PDict [])) rollback_data c)
                      (\<lambda>r. ret (normalize_rollback r, cache'))))))"

text \<open>The rollback of one consumer, on the cache and the world: the consumer with its result, and
  whether it gives a warning.\<close>

definition unwind_consumer ::
  "integration \<Rightarrow> env \<Rightarrow> pydict \<Rightarrow> (connector_cache \<times> world, pydict \<times> bool) comp" where
  "unwind_consumer ig env consumer =
     (\<lambda>(cache, w).
       if update_status consumer \<noteq> PStr ''updated''
       then (Inr (dput consumer ''rollback_result'' (PDict [(''rolled_back'', PBool True),
                    (''note'', PStr ''not updated, nothing to roll back'')]), False), cache, w)
       else (case rollback_consumer ig env consumer cache w of
               (Inl e, t) \<Rightarrow> (Inl e, cache, t)
             | (Inr (r, cache'), t) \<Rightarrow>
                 (Inr (dput consumer ''rollback_result'' (PDict r),
                       \<not> truthy (dget_or r ''rolled_back'' (PBool False))), cache', t)))"

definition execute_fanout_rollback :: "integration \<Rightarrow> env \<Rightarrow> pydict \<Rightarrow> pydict prog" where
  "execute_fanout_rollback ig env execution_result =
     bindc (of_sum (as_list (dget_or execution_result ''consumers'' (PList [])))) (\<lambda>values.
     bindc (of_sum (as_dicts values)) (\<lambda>consumers.
       \<lambda>w. case mapc (unwind_consumer ig env) (rev consumers) ([], w) of
         (Inl e, (_, t)) \<Rightarrow> (Inl e, t)
       | (Inr results, (_, t)) \<Rightarrow>
           (Inr [(''consumers'', PList (rev (map (PDict \<circ> fst) results))),
                 (''rotation_result'', dget_or execution_result ''rotation_result'' (PDict [])),
                 (''has_warnings'', PBool (list_ex snd results))], t)))"

section \<open>The rollback unwinds the updated consumers\<close>

text \<open>What undoing a consumer calls: nothing unless it was updated; else at most the rollback function
  of its surface, once, with what its update returned. A warning says that it was not undone.\<close>

definition rollback_call :: "pydict \<Rightarrow> ext_call \<Rightarrow> bool" where
  "rollback_call consumer c \<longleftrightarrow>
     (\<exists>surface update_result fn conn.
        dget consumer ''surface'' = Some surface \<and>
        dget consumer ''update_result'' = Some (PDict update_result) \<and>
        map_of rollback_functions (text_of surface) = Some fn \<and>
        c = Call_service fn
          [(''parameters'', dget_or consumer ''update_params'' (PDict [])),
           (''rollback_data'', dget_or update_result ''rollback_data'' (PDict [])),
           (''connector_id'', PStr conn)])"

definition unwound_consumer :: "pydict \<Rightarrow> ext_call list \<Rightarrow> pydict \<times> bool \<Rightarrow> bool" where
  "unwound_consumer consumer cs r \<longleftrightarrow>
     (\<exists>v. fst r = dput consumer ''rollback_result'' v) \<and>
     (if update_status consumer = PStr ''updated''
      then (cs = [] \<and> snd r) \<or> (\<exists>c. cs = [c] \<and> rollback_call consumer c)
      else cs = [] \<and> \<not> snd r)"

definition consumer_ok :: "integration \<Rightarrow> pydict \<Rightarrow> bool" where
  "consumer_ok ig consumer \<longleftrightarrow>
     (\<forall>c. ig_unreadable ig c = None) \<and>
     dget consumer ''surface'' \<noteq> None \<and> dget consumer ''_org_id'' \<noteq> None"

lemma pick_connector_returns:
  "(\<And>c. ig_unreadable ig c = None) \<Longrightarrow> \<exists>x. pick_connector ig first cs w = (Inr x, w)"
  by (induction cs arbitrary: first) (auto simp: attach_credentials_def comp_simps)

lemma connector_type_of_surface [simp]:
  "connector_type_of (surface_connector_type s) = Inr (surface_connector_type s)"
  by (auto simp: connector_type_of_def surface_connector_type_def connector_types_def)

lemma load_connector_returns:
  "(\<And>c. ig_unreadable ig c = None) \<Longrightarrow>
   \<exists>x. load_connector_by_type ig (surface_connector_type s) org w = (Inr x, w)"
  using pick_connector_returns by (fastforce simp: load_connector_by_type_def comp_simps)

lemma cached_connector_returns:
  assumes "\<And>c. ig_unreadable ig c = None"
  shows "\<exists>x cache'. cached_connector ig (surface_connector_type s) org cache w = (Inr (x, cache'), w)"
proof (cases "map_of cache (surface_connector_type s)")
  case None
  from load_connector_returns [of ig s org w, OF assms] None show ?thesis
    by (auto simp: cached_connector_def comp_simps)
next
  case (Some c)
  then show ?thesis by (simp add: cached_connector_def)
qed

lemma call_rollback_function_calls:
  "\<exists>r. call_rollback_function env s params data c w =
     (Inr r, with_calls (case map_of rollback_functions s of
        None \<Rightarrow> []
      | Some fn \<Rightarrow> [Call_service fn [(''parameters'', params), (''rollback_data'', data),
                      (''connector_id'', PStr (connector_id c))]]) w) \<and>
     (map_of rollback_functions s = None \<longrightarrow>
        dget r ''rolled_back'' = Some (PBool False))"
  by (cases "map_of rollback_functions s")
    (auto simp: call_rollback_function_def comp_simps split: sum.splits)

lemma with_calls_inject [simp]: "with_calls cs w = with_calls ds w \<longleftrightarrow> cs = ds"
  by (metis append_same_eq same_append_eq with_calls_frame(11))

lemma updated_result:
  "update_status c = PStr s \<Longrightarrow> \<exists>r. dget c ''update_result'' = Some (PDict r)"
  by (auto simp: update_status_def dget_or_def split: option.splits pyval.splits)

lemma rollback_consumer_calls:
  assumes ok: "consumer_ok ig consumer" and up: "update_status consumer = PStr ''updated''"
  shows "\<exists>r cache' cs. rollback_consumer ig env consumer cache w = (Inr (r, cache'), with_calls cs w) \<and>
     (cs = [] \<and> \<not> truthy (dget_or r ''rolled_back'' (PBool False)) \<or>
      (\<exists>c. cs = [c] \<and> rollback_call consumer c))"
proof -
  from updated_result [OF up] obtain u where u: "dget consumer ''update_result'' = Some (PDict u)" by blast
  from ok obtain surface org where keys: "dget consumer ''surface'' = Some surface"
      "dget consumer ''_org_id'' = Some org" by (auto simp: consumer_ok_def)
  note simps = rollback_consumer_def comp_simps dindex_def Let_def
  have u_or: "dget_or consumer ''update_result'' d = PDict u" for d using u by (simp add: dget_or_def)
  show ?thesis
  proof (cases "truthy (dget_or u ''rollback_data'' (PDict []))")
    case False
    then show ?thesis using keys u_or
      by (intro exI exI [of _ "[]"] conjI disjI1) (simp_all add: simps)+
  next
    case True
    from ok have "\<And>c. ig_unreadable ig c = None" by (simp add: consumer_ok_def)
    from cached_connector_returns [OF this, of "text_of surface" "text_of org" cache w]
    obtain conn cache' where load: "cached_connector ig (surface_connector_type (text_of surface))
        (text_of org) cache w = (Inr (conn, cache'), w)" by blast
    show ?thesis
    proof (cases conn)
      case None
      then show ?thesis using keys u_or True load
        by (intro exI exI [of _ "[]"] conjI disjI1) (simp_all add: simps rolled_back_error_def)+
    next
      case (Some c)
      from call_rollback_function_calls [of env "text_of surface"
          "dget_or consumer ''update_params'' (PDict [])" "dget_or u ''rollback_data'' (PDict [])" c w]
      show ?thesis using keys u u_or True load Some
        by (cases "map_of rollback_functions (text_of surface)")
          (auto simp: simps normalize_rollback_def rollback_call_def dget_or_def [of _ "''rolled_back''"])
    qed
  qed
qed

lemma unwind_consumer_returns:
  assumes "consumer_ok ig consumer"
  shows "\<exists>r cs cache'. unwind_consumer ig env consumer (cache, w) =
     (Inr r, cache', with_calls cs w) \<and> unwound_consumer consumer cs r"
proof (cases "update_status consumer = PStr ''updated''")
  case False
  then show ?thesis
    by (intro exI exI [of _ "[]"] exI [of _ cache] conjI)
      (auto simp: unwind_consumer_def unwound_consumer_def)
next
  case True
  from rollback_consumer_calls [OF assms True, of env cache w] obtain r cache' cs
    where run: "rollback_consumer ig env consumer cache w = (Inr (r, cache'), with_calls cs w)"
      and calls: "cs = [] \<and> \<not> truthy (dget_or r ''rolled_back'' (PBool False)) \<or>
        (\<exists>c. cs = [c] \<and> rollback_call consumer c)" by blast
  from run True calls show ?thesis
    by (intro exI conjI) (auto simp: unwind_consumer_def unwound_consumer_def)
qed

interpretation fanout: filo_unwind "unwind_consumer ig env" "\<lambda>s. w_calls (snd s)"
    "\<lambda>s. rest_of_world (snd s)" "consumer_ok ig" "\<lambda>_. unwound_consumer" for ig env
proof
  fix consumer and s :: "connector_cache \<times> world"
  assume "consumer_ok ig consumer"
  from unwind_consumer_returns [OF this, of env "fst s" "snd s"]
  show "\<exists>r cs t. unwind_consumer ig env consumer s = (Inr r, t) \<and>
      w_calls (snd t) = w_calls (snd s) @ cs \<and>
      rest_of_world (snd t) = rest_of_world (snd s) \<and> unwound_consumer consumer cs r"
    by fastforce
qed

lemma fanout_rollback_unwinds:
  assumes "as_list (dget_or result ''consumers'' (PList [])) = Inr values"
    and "as_dicts values = Inr consumers" and ok: "list_all (consumer_ok ig) consumers"
  shows "\<exists>rs css. execute_fanout_rollback ig env result w =
     (Inr [(''consumers'', PList (map (PDict \<circ> fst) rs)),
           (''rotation_result'', dget_or result ''rotation_result'' (PDict [])),
           (''has_warnings'', PBool (list_ex snd rs))],
      with_calls (concat (rev css)) w) \<and>
     length rs = length consumers \<and> length css = length consumers \<and>
     (\<forall>k < length consumers. unwound_consumer (consumers ! k) (css ! k) (rs ! k))"
proof -
  from fanout.unwind [OF ok, of env "([], w)"] obtain rs css t
    where run: "mapc (unwind_consumer ig env) (rev consumers) ([], w) = (Inr rs, t)"
      and calls: "w_calls (snd t) = w_calls w @ concat css"
      and rest: "rest_of_world (snd t) = rest_of_world w"
      and len: "length rs = length consumers" "length css = length consumers"
      and each: "\<And>k. k < length consumers \<Longrightarrow> unwound_consumer (consumers ! k)
          (css ! (length consumers - Suc k)) (rs ! (length consumers - Suc k))" by auto
  have "snd t = with_calls (concat css) w" by (rule world_extends [OF rest calls])
  with assms(1,2) run have "execute_fanout_rollback ig env result w =
     (Inr [(''consumers'', PList (map (PDict \<circ> fst) (rev rs))),
           (''rotation_result'', dget_or result ''rotation_result'' (PDict [])),
           (''has_warnings'', PBool (list_ex snd (rev rs)))],
      with_calls (concat (rev (rev css))) w)"
    by (cases t) (simp add: execute_fanout_rollback_def bindc_apply rev_map)
  moreover have "unwound_consumer (consumers ! k) (rev css ! k) (rev rs ! k)"
    if "k < length consumers" for k
    using each [OF that] that len by (simp add: rev_nth)
  ultimately show ?thesis using len by (intro exI [of _ "rev rs"] exI [of _ "rev css"]) simp
qed

text \<open>Rolling back a fan-out visits its consumers in the reverse order of their updates. Only
  consumers whose update succeeded are undone, each by at most one call, of the rollback function
  of its surface with the data its update returned; every other consumer is left alone and counts
  as rolled back. It ends whatever the surfaces answer, changes nothing else in the database, and
  a consumer that was updated but could not be called is a warning.\<close>

theorem fanout_rollback_reverse:
  assumes "as_list (dget_or result ''consumers'' (PList [])) = Inr values"
    and "as_dicts values = Inr consumers" and "list_all (consumer_ok ig) consumers"
  shows "\<exists>rs css. execute_fanout_rollback ig env result w =
     (Inr [(''consumers'', PList (map (PDict \<circ> fst) rs)),
           (''rotation_result'', dget_or result ''rotation_result'' (PDict [])),
           (''has_warnings'', PBool (list_ex snd rs))],
      with_calls (concat (rev css)) w) \<and>
     length rs = length consumers \<and> length css = length consumers \<and>
     (\<forall>k < length consumers. unwound_consumer (consumers ! k) (css ! k) (rs ! k))"
  by (rule fanout_rollback_unwinds [OF assms])

definition example_consumer :: "string \<Rightarrow> string \<Rightarrow> pydict" where
  "example_consumer surface st =
     [(''surface'', PStr surface), (''location'', PStr ''fn-1''), (''matched_term'', PStr ''old''),
      (''_org_id'', PStr ''org''),
      (''update_result'', PDict [(''status'', PStr st),
         (''rollback_data'', PDict [(''old_value'', PStr ''old'')])])]"

definition example_fanout :: "pydict list" where
  "example_fanout =
     [example_consumer ''aws_lambda_env'' ''updated'', example_consumer ''k8s_configmap'' ''error'',
      example_consumer ''aws_ssm_parameter'' ''updated'']"

definition fanout_world :: world where
  "fanout_world = (example_world [])\<lparr>w_connectors :=
     [\<lparr>connector_id = ''c-1'', connector_organization_id = ''org'', connector_type = ''aws'',
       connector_created_at = 0\<rparr>]\<rparr>"

lemma example_fanout_ok: "list_all (consumer_ok example_integration) example_fanout"
  by (simp add: example_fanout_def example_consumer_def consumer_ok_def example_integration_def)

lemma example_fanout_calls:
  "map (\<lambda>c. case c of Call_service fn _ \<Rightarrow> fn | _ \<Rightarrow> []) (w_calls (snd (execute_fanout_rollback
      example_integration example_env
      [(''consumers'', PList (map PDict example_fanout))] fanout_world))) =
   [''rollback_ssm_parameter_value'', ''rollback_lambda_env_var'']"
  by code_simp

theorem fanout_rollback_reverse_witness:
  "\<exists>css rs. w_calls (snd (execute_fanout_rollback example_integration example_env
      [(''consumers'', PList (map PDict example_fanout))] fanout_world)) = concat (rev css) \<and>
    length css = 3 \<and> (\<forall>k < 3. unwound_consumer (example_fanout ! k) (css ! k) (rs ! k)) \<and>
    map (\<lambda>c. case c of Call_service fn _ \<Rightarrow> fn | _ \<Rightarrow> []) (concat (rev css)) =
      [''rollback_ssm_parameter_value'', ''rollback_lambda_env_var'']"
proof -
  let ?result = "[(''consumers'', PList (map PDict example_fanout))]"
  have stored: "as_list (dget_or ?result ''consumers'' (PList [])) = Inr (map PDict example_fanout)"
    by simp
  have dicts: "as_dicts (map PDict example_fanout) = Inr example_fanout"
    by (simp add: example_fanout_def)
  from fanout_rollback_reverse [OF stored dicts example_fanout_ok, of example_env fanout_world]
  obtain rs css where
      t: "w_calls (snd (execute_fanout_rollback example_integration example_env ?result fanout_world)) =
        w_calls fanout_world @ concat (rev css)"
      and len: "length css = length example_fanout"
      and each: "\<forall>k < length example_fanout. unwound_consumer (example_fanout ! k) (css ! k) (rs ! k)"
    by auto
  have "w_calls fanout_world = []" by (simp add: fanout_world_def example_world_def)
  moreover have "length example_fanout = 3" by (simp add: example_fanout_def)
  ultimately show ?thesis using t len each example_fanout_calls
    by (intro exI [of _ css] exI [of _ rs]) simp
qed

end
