(* ===== verification/KubePreflight.thy ===== *)
theory KubePreflight
  imports CredRotation Complex_Main
begin

text \<open>
  The checks before a cluster upgrade (\<open>services/k8s_preflight.py\<close>): the version path, the APIs that the
  target version removes, and the headroom to drain nodes. What the clients answer is a dictionary with
  the fields the code reads. Floating-point quantities are exact rationals; the texts in the detail of the
  headroom are left out.
\<close>

section \<open>Versions\<close>

definition lstrip_v :: "string \<Rightarrow> string" where
  "lstrip_v s = dropWhile (\<lambda>c. c = CHR ''v'') s"

definition minor_of :: "string \<Rightarrow> exn + int" where
  "minor_of version =
     (case split_on (CHR ''.'') (lstrip_v version) of
        _ # m # _ \<Rightarrow> int_of_text m
      | _ \<Rightarrow> Inl (Exn OtherError ''list index out of range''))"

definition stable_patch :: "(string \<times> string) list" where
  "stable_patch =
     [(''1.28'', ''1.28.13''), (''1.29'', ''1.29.4''), (''1.30'', ''1.30.3''), (''1.31'', ''1.31.1''),
      (''1.32'', ''1.32.0'')]"

definition resolve_patch_version :: "string \<Rightarrow> string" where
  "resolve_patch_version target =
     (let parts = split_on (CHR ''.'') target
      in if length parts = 3 then target
         else (let key = (case parts of a # b # _ \<Rightarrow> a @ ''.'' @ b | _ \<Rightarrow> concat parts)
               in case map_of stable_patch key of Some v \<Rightarrow> v | None \<Rightarrow> key @ ''.0''))"

section \<open>Removed APIs\<close>

definition removed_apis :: "(int \<times> (string \<times> string \<times> string \<times> string) list) list" where
  "removed_apis =
     [(22, [(''extensions'', ''v1beta1'', ''Ingress'', ''networking.k8s.io/v1''),
            (''batch'', ''v1beta1'', ''CronJob'', ''batch/v1''),
            (''policy'', ''v1beta1'', ''PodSecurityPolicy'', ''removed - use OPA/Kyverno'')]),
      (25, [(''policy'', ''v1beta1'', ''PodDisruptionBudget'', ''policy/v1''),
            (''discovery.k8s.io'', ''v1beta1'', ''EndpointSlice'', ''discovery.k8s.io/v1'')]),
      (26, [(''autoscaling'', ''v2beta2'', ''HorizontalPodAutoscaler'', ''autoscaling/v2'')]),
      (29, [(''flowcontrol.apiserver.k8s.io'', ''v1beta2'', ''FlowSchema'', ''flowcontrol.apiserver.k8s.io/v1''),
            (''flowcontrol.apiserver.k8s.io'', ''v1beta2'', ''PriorityLevelConfiguration'',
             ''flowcontrol.apiserver.k8s.io/v1'')]),
      (32, [(''resource.k8s.io'', ''v1alpha2'', ''ResourceClaim'', ''resource.k8s.io/v1beta1'')])]"

definition kind_to_plural :: "(string \<times> string) list" where
  "kind_to_plural =
     [(''Ingress'', ''ingresses''), (''CronJob'', ''cronjobs''),
      (''PodSecurityPolicy'', ''podsecuritypolicies''), (''PodDisruptionBudget'', ''poddisruptionbudgets''),
      (''EndpointSlice'', ''endpointslices''), (''HorizontalPodAutoscaler'', ''horizontalpodautoscalers''),
      (''FlowSchema'', ''flowschemas''), (''PriorityLevelConfiguration'', ''prioritylevelconfigurations''),
      (''ResourceClaim'', ''resourceclaims'')]"

definition plural_of :: "string \<Rightarrow> string" where
  "plural_of kind = (case map_of kind_to_plural kind of Some p \<Rightarrow> p | None \<Rightarrow> lower kind @ ''s'')"

text \<open>\<open>i.get('metadata', {}).get(...)\<close> of one object found.\<close>

definition affected_resource :: "pyval \<Rightarrow> exn + pyval" where
  "affected_resource item =
     (case as_dict item of
        Inl e \<Rightarrow> Inl e
      | Inr d \<Rightarrow>
          (case as_dict (dget_or d ''metadata'' (PDict [])) of
             Inl e \<Rightarrow> Inl e
           | Inr meta \<Rightarrow>
               Inr (PStr (text_of (dget_or meta ''namespace'' (PStr ''cluster'')) @ ''/'' @
                          text_of (dget_or meta ''name'' (PStr ''?''))))))"

fun sum_list_of :: "('a \<Rightarrow> exn + 'b) \<Rightarrow> 'a list \<Rightarrow> exn + 'b list" where
  "sum_list_of f [] = Inr []"
| "sum_list_of f (x # xs) =
     (case f x of
        Inl e \<Rightarrow> Inl e
      | Inr y \<Rightarrow> (case sum_list_of f xs of Inl e \<Rightarrow> Inl e | Inr ys \<Rightarrow> Inr (y # ys)))"

text \<open>One removed API: the entry if objects of it exist; a query that fails is only logged.\<close>

definition scan_removed_api ::
  "env \<Rightarrow> string \<times> string \<times> string \<times> string \<Rightarrow> pyval list prog" where
  "scan_removed_api env api =
     (case api of (grp, version, kind, replacement) \<Rightarrow>
        catchc
          (bindc (call env (Call_service ''list_cluster_custom_object''
              [(''group'', PStr grp), (''version'', PStr version), (''plural'', PStr (plural_of kind))]))
             (\<lambda>resp.
              let items = dget_or resp ''items'' (PList [])
              in if truthy items then
                   bindc (of_sum (as_list items)) (\<lambda>vs.
                   bindc (of_sum (sum_list_of affected_resource vs)) (\<lambda>affected.
                     ret [PDict [(''api'', PStr (grp @ ''/'' @ version @ ''/'' @ kind)),
                                 (''replacement'', PStr replacement),
                                 (''affected_resources'', PList affected)]]))
                 else ret []))
          (\<lambda>_. ret []))"

definition scan_removed_apis :: "env \<Rightarrow> int \<Rightarrow> pyval list prog" where
  "scan_removed_apis env minor =
     (case map_of removed_apis minor of
        None \<Rightarrow> ret []
      | Some apis \<Rightarrow> bindc (mapc (scan_removed_api env) apis) (\<lambda>found. ret (concat found)))"

section \<open>Headroom\<close>

definition ends_with :: "string \<Rightarrow> string \<Rightarrow> bool" where
  "ends_with s suffix \<longleftrightarrow> length suffix \<le> length s \<and> drop (length s - length suffix) s = suffix"

definition strip_suffix :: "string \<Rightarrow> string \<Rightarrow> string" where
  "strip_suffix s suffix = take (length s - length suffix) s"

text \<open>\<open>float(s)\<close> of unsigned decimal notation.\<close>

definition decimal_of :: "string \<Rightarrow> exn + rat" where
  "decimal_of s =
     (let bad = Inl (Exn ValueError ''could not convert string to float'')
      in case split_on (CHR ''.'') (strip s) of
           [i] \<Rightarrow> (case int_of_text i of Inr n \<Rightarrow> Inr (of_int n) | Inl _ \<Rightarrow> bad)
         | [i, f] \<Rightarrow>
             (case (int_of_text i, digits_of False 0 f) of
                (Inr n, Some d) \<Rightarrow> Inr (of_int n + of_int d / 10 ^ length f)
              | _ \<Rightarrow> bad)
         | _ \<Rightarrow> bad)"

definition parse_cpu :: "string \<Rightarrow> exn + rat" where
  "parse_cpu val =
     (if ends_with val ''m''
      then (case decimal_of (strip_suffix val ''m'') of Inl e \<Rightarrow> Inl e | Inr r \<Rightarrow> Inr (r / 1000))
      else decimal_of val)"

definition mem_suffixes :: "(string \<times> int) list" where
  "mem_suffixes =
     [(''Ki'', 1024), (''Mi'', 1024 ^ 2), (''Gi'', 1024 ^ 3), (''Ti'', 1024 ^ 4),
      (''K'', 1000), (''M'', 1000 ^ 2), (''G'', 1000 ^ 3)]"

definition parse_memory_bytes :: "string \<Rightarrow> exn + int" where
  "parse_memory_bytes val =
     (case List.find (\<lambda>(suffix, _). ends_with val suffix) mem_suffixes of
        None \<Rightarrow> int_of_text val
      | Some (suffix, multiplier) \<Rightarrow>
          (case int_of_text (strip_suffix val suffix) of
             Inl e \<Rightarrow> Inl e | Inr n \<Rightarrow> Inr (n * multiplier)))"

definition is_ready :: "pydict \<Rightarrow> bool" where
  "is_ready node \<longleftrightarrow>
     (case dget_or node ''conditions'' (PList []) of
        PList cs \<Rightarrow> list_ex (\<lambda>c. case c of
            PDict d \<Rightarrow> dget d ''type'' = Some (PStr ''Ready'') \<and> dget d ''status'' = Some (PStr ''True'')
          | _ \<Rightarrow> False) cs
      | _ \<Rightarrow> False)"

definition allocatable :: "string \<Rightarrow> pydict \<Rightarrow> string" where
  "allocatable k node =
     (case dget_or node ''allocatable'' (PDict []) of
        PDict d \<Rightarrow> text_of (dget_or d k (PStr ''0'')) | _ \<Rightarrow> ''0'')"

text \<open>The fraction of a total that is left when \<open>max_unavailable\<close> average nodes are drained.\<close>

definition spare_fraction :: "rat \<Rightarrow> int \<Rightarrow> int \<Rightarrow> rat" where
  "spare_fraction amount ready max_unavailable =
     (let drain = amount / of_int ready * of_int max_unavailable
      in if amount > 0 then (amount - drain) / amount else 0)"

definition headroom :: "pydict list \<Rightarrow> int \<Rightarrow> exn + bool" where
  "headroom nodes max_unavailable =
     (let ready = filter is_ready nodes; n = int (length ready)
      in case sum_list_of (\<lambda>d. parse_cpu (allocatable ''cpu'' d)) ready of
           Inl e \<Rightarrow> Inl e
         | Inr cpus \<Rightarrow>
             (case sum_list_of (\<lambda>d. parse_memory_bytes (allocatable ''memory'' d)) ready of
                Inl e \<Rightarrow> Inl e
              | Inr mems \<Rightarrow>
                  Inr (ready = [] \<or>
                       15 / 100 \<le> spare_fraction (sum_list cpus) n max_unavailable \<and>
                       15 / 100 \<le> spare_fraction (of_int (sum_list mems)) n max_unavailable)))"

definition py_int :: "pyval \<Rightarrow> exn + int" where
  "py_int v =
     (case v of
        PInt i \<Rightarrow> Inr i
      | PBool b \<Rightarrow> Inr (if b then 1 else 0)
      | PStr s \<Rightarrow> int_of_text s
      | _ \<Rightarrow> Inl (Exn TypeError ''int() argument must be a string or a number''))"

definition items_of :: "pydict \<Rightarrow> exn + pydict list" where
  "items_of r =
     (case as_list (dget_or r ''items'' (PList [])) of Inl e \<Rightarrow> Inl e | Inr vs \<Rightarrow> as_dicts vs)"

definition list_node :: "env \<Rightarrow> pydict \<Rightarrow> pydict list prog" where
  "list_node env args = bindc (call env (Call_service ''list_node'' args)) (\<lambda>r. of_sum (items_of r))"

definition check_headroom :: "env \<Rightarrow> pydict \<Rightarrow> bool prog" where
  "check_headroom env desired =
     bindc (of_sum (py_int (dget_or desired ''max_unavailable'' (PInt 1)))) (\<lambda>max_unavailable.
       if dget_or desired ''node_pool_strategy'' (PStr ''rolling'') = PStr ''blue_green'' then ret True
       else catchc
              (bindc (list_node env []) (\<lambda>nodes. of_sum (headroom nodes max_unavailable)))
              (\<lambda>_. ret True))"

section \<open>The checks\<close>

record preflight_result =
  pf_version_valid :: bool
  pf_version_error :: "string option"
  pf_target_patch_version :: string
  pf_deprecated_apis :: "pyval list"
  pf_headroom_ok :: bool

definition pf_passed :: "preflight_result \<Rightarrow> bool" where
  "pf_passed pf \<longleftrightarrow> pf_version_valid pf \<and> pf_deprecated_apis pf = []"

definition invalid_version :: "string \<Rightarrow> preflight_result" where
  "invalid_version msg =
     \<lparr>pf_version_valid = False, pf_version_error = Some msg, pf_target_patch_version = [],
      pf_deprecated_apis = [], pf_headroom_ok = True\<rparr>"

definition run_preflight :: "env \<Rightarrow> string \<Rightarrow> string \<Rightarrow> pydict \<Rightarrow> preflight_result prog" where
  "run_preflight env current target desired =
     (case (minor_of current, minor_of target) of
        (Inr cur_minor, Inr tgt_minor) \<Rightarrow>
          if tgt_minor \<noteq> cur_minor + 1
          then ret (invalid_version (if tgt_minor \<le> cur_minor then ''Version downgrade detected''
                                     else ''Version skip detected''))
          else bindc (scan_removed_apis env tgt_minor) (\<lambda>deprecated.
               bindc (check_headroom env desired) (\<lambda>ok.
                 ret \<lparr>pf_version_valid = True, pf_version_error = None,
                      pf_target_patch_version = resolve_patch_version target,
                      pf_deprecated_apis = deprecated, pf_headroom_ok = ok\<rparr>))
      | _ \<Rightarrow> ret (invalid_version ''Could not parse version strings''))"

section \<open>What the checks let through\<close>

text \<open>An upgrade goes to the next minor version only. Checks that pass, whatever the cluster answers,
  have read both version numbers, the target is one minor version above the current one, no removed API
  is in use, and the target patch version is the one resolved from the request.\<close>

theorem preflight_passes_next_minor:
  assumes "run_preflight env current target desired w = (Inr pf, t)" and "pf_passed pf"
  shows "\<exists>m. minor_of current = Inr m \<and> minor_of target = Inr (m + 1) \<and>
    pf_deprecated_apis pf = [] \<and> pf_target_patch_version pf = resolve_patch_version target"
  using assms
  by (auto simp: run_preflight_def pf_passed_def invalid_version_def comp_simps
      split: sum.splits if_splits prod.splits)

lemma spare_fraction_nodes:
  assumes "0 < amount" and "0 < n"
  shows "15 / 100 \<le> spare_fraction amount n m \<longleftrightarrow> 20 * m \<le> 17 * n"
proof -
  have n: "(0 :: rat) < of_int n" using assms(2) by simp
  have "spare_fraction amount n m = 1 - of_int m / of_int n"
    using assms n by (simp add: spare_fraction_def field_simps)
  also have "(15 :: rat) / 100 \<le> 1 - of_int m / of_int n \<longleftrightarrow> (of_int m :: rat) / of_int n \<le> 17 / 20" by linarith
  also have "\<dots> \<longleftrightarrow> (20 * of_int m :: rat) \<le> 17 * of_int n"
    using n by (simp add: field_simps)
  also have "\<dots> \<longleftrightarrow> (of_int (20 * m) :: rat) \<le> of_int (17 * n)" by simp
  finally show ?thesis by (simp only: of_int_le_iff)
qed

text \<open>The headroom check counts nodes and nothing else. On ready nodes with some processor and memory,
  it is the comparison of the nodes that may be unavailable with 85 per cent of the ready ones: the sizes
  of the nodes and what runs on them make no difference.\<close>

theorem headroom_counts_nodes:
  assumes "sum_list_of (\<lambda>d. parse_cpu (allocatable ''cpu'' d)) (filter is_ready nodes) = Inr cpus"
    and "sum_list_of (\<lambda>d. parse_memory_bytes (allocatable ''memory'' d)) (filter is_ready nodes) = Inr mems"
    and "0 < sum_list cpus" and "0 < sum_list mems"
  shows "headroom nodes m = Inr (20 * m \<le> 17 * int (length (filter is_ready nodes)))"
proof -
  have "filter is_ready nodes \<noteq> []" using assms(1,3) by auto
  then have n: "0 < int (length (filter is_ready nodes))" by simp
  have mems: "(0 :: rat) < of_int (sum_list mems)" using assms(4) by simp
  show ?thesis
    by (simp only: headroom_def assms(1,2) Let_def sum.case \<open>filter is_ready nodes \<noteq> []\<close>
        spare_fraction_nodes [OF assms(3) n] spare_fraction_nodes [OF mems n] simp_thms)
qed

definition example_node :: "string \<Rightarrow> string \<Rightarrow> pyval" where
  "example_node name version = PDict
     [(''name'', PStr name), (''labels'', PDict []), (''kubelet_version'', PStr version),
      (''conditions'', PList [PDict [(''type'', PStr ''Ready''), (''status'', PStr ''True'')]]),
      (''allocatable'', PDict [(''cpu'', PStr ''1930m''), (''memory'', PStr ''7Gi'')])]"

definition kube_env :: "pyval list \<Rightarrow> env" where
  "kube_env nodes cs c =
     (case c of
        Call_service name a \<Rightarrow>
          if name = ''list_node'' then Inr [(''items'', PList nodes)]
          else if name = ''read_node''
          then (case nodes of PDict d # _ \<Rightarrow> Inr d | _ \<Rightarrow> Inr [])
          else if name = ''kubectl_drain'' then Inr [(''returncode'', PInt 0)]
          else if name = ''get_code'' then Inr [(''git_version'', PStr ''v1.28.8'')]
          else if name = ''docker_exec'' then Inr [(''returncode'', PInt 0)]
          else Inr []
      | _ \<Rightarrow> Inr [])"

theorem preflight_passes_next_minor_witness:
  "\<exists>pf t. run_preflight (kube_env [example_node ''n-1'' ''v1.28.8'']) ''v1.28.8'' ''1.29'' [] (example_world []) =
       (Inr pf, t) \<and> pf_target_patch_version pf = ''1.29.4''"
proof -
  let ?run = "run_preflight (kube_env [example_node ''n-1'' ''v1.28.8'']) ''v1.28.8'' ''1.29'' [] (example_world [])"
  have "case fst ?run of Inr pf \<Rightarrow> pf_passed pf | Inl _ \<Rightarrow> False" by code_simp
  then obtain pf t where run: "?run = (Inr pf, t)" "pf_passed pf"
    by (cases ?run) (auto split: sum.splits)
  have "resolve_patch_version ''1.29'' = ''1.29.4''" by code_simp
  with preflight_passes_next_minor [OF run] run(1) show ?thesis by auto
qed

theorem headroom_counts_nodes_witness:
  "headroom [[(''conditions'', PList [PDict [(''type'', PStr ''Ready''), (''status'', PStr ''True'')]]),
      (''allocatable'', PDict [(''cpu'', PStr ''4''), (''memory'', PStr ''16Gi'')])]] 1 = Inr False"
proof -
  let ?nodes = "[[(''conditions'', PList [PDict [(''type'', PStr ''Ready''), (''status'', PStr ''True'')]]),
      (''allocatable'', PDict [(''cpu'', PStr ''4''), (''memory'', PStr ''16Gi'')])]] :: pydict list"
  have "length (filter is_ready ?nodes) = 1"
    "sum_list_of (\<lambda>d. parse_cpu (allocatable ''cpu'' d)) (filter is_ready ?nodes) = Inr [4]"
    "sum_list_of (\<lambda>d. parse_memory_bytes (allocatable ''memory'' d)) (filter is_ready ?nodes) = Inr [17179869184]"
    by code_simp+
  with headroom_counts_nodes [of ?nodes "[4]" "[17179869184]" 1] show ?thesis by simp
qed

end
