(* ===== verification/CertRotation.thy ===== *)
theory CertRotation
  imports CredRotation "HOL-Library.AList" "HOL-Library.Multiset"
begin

text \<open>
  Certificate rotations (\<open>services/certificate_rotation_executor.py\<close>): scan the inventory for the
  dependents of a certificate, snapshot what they serve, issue a new certificate, push it to each
  dependent and verify it; the state of every dependent is kept in the result of the run, so that a
  paused rotation resumes with the dependents that are left. TLS probes, the certificate authority
  and the clients of Kubernetes are calls to the environment; what the X.509 library reads from a
  certificate is part of the integration. The result of an executor is a dictionary.
\<close>

section \<open>Scan\<close>

text \<open>Labels and subjects in the metadata of an asset that are not of the expected type count as absent.\<close>

text \<open>\<open>x in scope or not scope\<close>.\<close>

definition in_scope :: "string \<Rightarrow> pyval \<Rightarrow> exn + bool" where
  "in_scope x scope =
     (if \<not> truthy scope then Inr True
      else case scope of
        PList vs \<Rightarrow> Inr (PStr x \<in> set vs)
      | PStr s \<Rightarrow> Inr (is_infix_of x s)
      | PDict d \<Rightarrow> Inr (dget d x \<noteq> None)
      | _ \<Rightarrow> Inl (Exn TypeError ''argument is not iterable''))"

text \<open>The subject and the alternative names, lower-cased (\<open>t.lower()\<close>); a name that is no string has
  no \<open>lower\<close>.\<close>

fun lower_terms :: "pyval list \<Rightarrow> exn + string list" where
  "lower_terms [] = Inr []"
| "lower_terms (v # vs) =
     (case v of
        PStr s \<Rightarrow> (case lower_terms vs of Inl e \<Rightarrow> Inl e | Inr ts \<Rightarrow> Inr (lower s # ts))
      | _ \<Rightarrow> Inl (Exn AttributeError ''object has no attribute lower''))"

definition elements_of :: "pyval \<Rightarrow> exn + pyval list" where
  "elements_of v =
     (case v of
        PList vs \<Rightarrow> Inr vs
      | PStr s \<Rightarrow> Inr (map (\<lambda>c. PStr [c]) s)
      | PDict d \<Rightarrow> Inr (map (\<lambda>(k, _). PStr k) d)
      | _ \<Rightarrow> Inl (Exn TypeError ''object is not iterable''))"

definition search_terms_of :: "pydict \<Rightarrow> exn + string list" where
  "search_terms_of desired =
     (let subject = dget_or desired ''subject'' (PStr [])
      in case elements_of (por (dget_or desired ''san'' PNone) (PList [subject])) of
           Inl e \<Rightarrow> Inl e
         | Inr vs \<Rightarrow> lower_terms (subject # vs))"

definition matches_host :: "string list \<Rightarrow> asset \<Rightarrow> bool" where
  "matches_host terms a \<longleftrightarrow>
     list_ex (\<lambda>t. is_infix_of t (lower (asset_name a)) \<or> is_infix_of (lower (asset_name a)) t) terms"

definition matches_subject :: "string list \<Rightarrow> pyval \<Rightarrow> bool" where
  "matches_subject terms v \<longleftrightarrow>
     (case v of PStr s \<Rightarrow> s \<noteq> [] \<and> list_ex (\<lambda>t. is_infix_of t (lower s)) terms | _ \<Rightarrow> False)"

definition metadata_dict :: "pydict \<Rightarrow> string \<Rightarrow> pydict" where
  "metadata_dict meta k = (case dget_or meta k PNone of PDict d \<Rightarrow> d | _ \<Rightarrow> [])"

definition k8s_subject :: "asset \<Rightarrow> pyval" where
  "k8s_subject a =
     por (dget_or (metadata_dict (asset_metadata a) ''labels'') ''cert-subject'' (PStr []))
       (dget_or (asset_metadata a) ''cert_subject'' (PStr []))"

definition dependent_tail :: "string \<Rightarrow> asset \<Rightarrow> pydict" where
  "dependent_tail ct a =
     [(''connector_type'', PStr ct),
      (''connector_id'', PStr (case asset_connector_id a of None \<Rightarrow> [] | Some c \<Rightarrow> c)),
      (''asset_id'', PStr (asset_id a)), (''snapshot'', PNone), (''snapshot_fingerprint'', PNone),
      (''update_result'', PNone), (''verify_result'', PNone), (''rollback_result'', PNone)]"

definition host_dependent :: "asset \<Rightarrow> pydict" where
  "host_dependent a =
     [(''type'', PStr ''host''), (''host'', PStr (asset_name a)),
      (''port'', dget_or (asset_metadata a) ''port'' (PInt 443))] @ dependent_tail ''nexplane_agent'' a"

definition k8s_dependent :: "asset \<Rightarrow> pydict" where
  "k8s_dependent a =
     [(''type'', PStr ''k8s_secret''),
      (''namespace'', dget_or (asset_metadata a) ''namespace'' (PStr ''default'')),
      (''name'', PStr (asset_name a))] @ dependent_tail ''kubernetes'' a"

definition aws_dependent :: "asset \<Rightarrow> pydict" where
  "aws_dependent a =
     [(''type'', PStr ''aws_secret''), (''secret_id'', PStr (asset_name a))] @ dependent_tail ''aws'' a"

definition assets_of_type :: "world \<Rightarrow> uuid \<Rightarrow> string \<Rightarrow> asset list" where
  "assets_of_type w org ty =
     filter (\<lambda>a. asset_organization_id a = org \<and> asset_type a = ty) (w_assets w)"

definition found_dependents ::
  "world \<Rightarrow> uuid \<Rightarrow> string list \<Rightarrow> bool \<Rightarrow> bool \<Rightarrow> bool \<Rightarrow> pydict list" where
  "found_dependents w org terms hosts k8s aws =
     (if hosts then map host_dependent (filter (matches_host terms) (assets_of_type w org ''server''))
      else []) @
     (if k8s then map k8s_dependent (filter (\<lambda>a. matches_subject terms (k8s_subject a))
                        (assets_of_type w org ''k8s_secret'')) else []) @
     (if aws then map aws_dependent (filter (\<lambda>a. matches_subject terms
                        (dget_or (asset_metadata a) ''cert_subject'' (PStr [])))
                        (assets_of_type w org ''aws_secret'')) else [])"

definition number_dependents :: "pydict list \<Rightarrow> pydict list" where
  "number_dependents ds = map (\<lambda>(i, d). (''index'', PInt (int i)) # d) (enumerate 0 ds)"

definition scan_dependents :: "pydict \<Rightarrow> uuid \<Rightarrow> pydict list prog" where
  "scan_dependents desired org =
     bindc (of_sum (search_terms_of desired)) (\<lambda>terms.
       let scope = por (dget_or desired ''scan_scope'' PNone) (PList [])
       in bindc (of_sum (in_scope ''nexplane_agent'' scope)) (\<lambda>agent.
          bindc (of_sum (in_scope ''aws'' scope)) (\<lambda>aws.
          bindc (of_sum (in_scope ''kubernetes'' scope)) (\<lambda>k8s.
            gets (\<lambda>w. number_dependents (found_dependents w org terms (agent \<or> aws) k8s aws))))))"

section \<open>Connectors and clients\<close>

text \<open>\<open>_load_connector\<close>: the recorded connector, or else the first of the type, in the organization if
  one is given.\<close>

definition load_connector ::
  "integration \<Rightarrow> pyval \<Rightarrow> pyval \<Rightarrow> uuid option \<Rightarrow> connector option prog" where
  "load_connector ig ct cid org =
     bindc (gets (\<lambda>w. if truthy cid then lookup_row connector_id (w_connectors w) (text_of cid)
                      else None)) (\<lambda>recorded.
     bindc (case recorded of
         Some c \<Rightarrow> ret (Some c)
       | None \<Rightarrow>
           if truthy ct
           then bindc (of_sum (connector_type_of (text_of ct))) (\<lambda>ty.
                  gets (\<lambda>w. List.find (\<lambda>c. connector_type c = ty \<and>
                     (case org of None \<Rightarrow> True | Some og \<Rightarrow> connector_organization_id c = og))
                     (w_connectors w)))
           else ret None) (\<lambda>found.
       case found of
         None \<Rightarrow> ret None
       | Some c \<Rightarrow> thenc (attach_credentials ig c) (ret (Some c))))"

definition load_step_ca_connector :: "integration \<Rightarrow> uuid \<Rightarrow> connector option prog" where
  "load_step_ca_connector ig org =
     bindc (gets (\<lambda>w. List.find (\<lambda>c. connector_organization_id c = org \<and> connector_type c = ''step_ca'')
                        (w_connectors w))) (\<lambda>found.
       case found of
         None \<Rightarrow> ret None
       | Some c \<Rightarrow> thenc (attach_credentials ig c) (ret (Some c)))"

definition connector_arg :: "connector option \<Rightarrow> pyval" where
  "connector_arg conn = (case conn of None \<Rightarrow> PNone | Some c \<Rightarrow> PStr (connector_id c))"

text \<open>\<open>mod = catalog.get_executor(...); await mod.execute(...)\<close>.\<close>

definition execute_module ::
  "integration \<Rightarrow> env \<Rightarrow> string \<Rightarrow> string \<Rightarrow> pydict \<Rightarrow> uuid list \<Rightarrow> connector option \<Rightarrow> pydict prog" where
  "execute_module ig env ct action params assets conn =
     bindc (of_sum (get_executor (ig_modules ig) (ig_catalog ig) ct action)) (\<lambda>m.
       if em_has_execute m
       then call env (Call_execute ct action params assets (map_option connector_id conn))
       else raise (Exn AttributeError ''module has no attribute execute''))"

text \<open>The stored configuration of a cluster, as YAML or as base64 of it.\<close>

definition kubeconfig_yaml :: "pyval \<Rightarrow> pyval" where
  "kubeconfig_yaml v =
     (case v of
        PStr s \<Rightarrow>
          (case b64decode s of
             Inl _ \<Rightarrow> v
           | Inr raw \<Rightarrow> (case decode_utf8 raw of Inl _ \<Rightarrow> v | Inr yaml \<Rightarrow> PStr yaml))
      | _ \<Rightarrow> v)"

definition get_k8s_clients :: "env \<Rightarrow> pydict \<Rightarrow> unit prog" where
  "get_k8s_clients env creds =
     (let kubeconfig = dget_or creds ''kubeconfig'' (PStr [])
      in if \<not> truthy kubeconfig then raise (Exn ValueError ''kubeconfig is required in credentials'')
         else bindc (call env (Call_service ''load_kube_config''
                  [(''config_dict'', kubeconfig_yaml kubeconfig), (''context'', dget_or creds ''context'' PNone)]))
                (\<lambda>_. ret ()))"

text \<open>Whether there are clients for a connector.\<close>

definition get_k8s_client :: "integration \<Rightarrow> env \<Rightarrow> connector option \<Rightarrow> bool prog" where
  "get_k8s_client ig env conn =
     (let creds = (case conn of None \<Rightarrow> [] | Some c \<Rightarrow> ig_credentials ig (connector_id c));
          kubeconfig = dget_or creds ''kubeconfig'' (PStr [])
      in if \<not> truthy kubeconfig then ret False
         else thenc (get_k8s_clients env [(''kubeconfig'', kubeconfig)]) (ret True))"

definition secret_args :: "pydict \<Rightarrow> exn + pydict" where
  "secret_args dep =
     (case dindex dep ''name'' of
        Inl e \<Rightarrow> Inl e
      | Inr n \<Rightarrow> Inr [(''name'', n), (''namespace'', dget_or dep ''namespace'' (PStr ''default''))])"

text \<open>The data of the secret, by its keys.\<close>

definition read_secret :: "env \<Rightarrow> pydict \<Rightarrow> pydict prog" where
  "read_secret env dep =
     bindc (of_sum (secret_args dep)) (\<lambda>args.
     bindc (call env (Call_service ''read_namespaced_secret'' args)) (\<lambda>secret.
       of_sum (as_dict (por (dget_or secret ''data'' PNone) (PDict [])))))"

definition patch_secret :: "env \<Rightarrow> pydict \<Rightarrow> pyval \<Rightarrow> unit prog" where
  "patch_secret env dep data =
     bindc (of_sum (secret_args dep)) (\<lambda>args.
     bindc (call env (Call_service ''patch_namespaced_secret'' (args @ [(''data'', data)]))) (\<lambda>_.
       ret ()))"

text \<open>\<open>_tls_probe_pem\<close>: the certificate served, or nothing on any failure.\<close>

definition tls_probe :: "env \<Rightarrow> pyval \<Rightarrow> pyval \<Rightarrow> pyval prog" where
  "tls_probe env host port =
     catchc
       (bindc (call env (Call_service ''tls_handshake'' [(''host'', host), (''port'', port)]))
          (\<lambda>r. ret (dget_or r ''pem'' PNone)))
       (\<lambda>_. ret PNone)"

definition get_secret_value :: "integration \<Rightarrow> env \<Rightarrow> pydict \<Rightarrow> connector option \<Rightarrow> pydict prog" where
  "get_secret_value ig env dep conn =
     bindc (of_sum (get_executor (ig_modules ig) (ig_catalog ig) ''aws'' ''get_secret_value'')) (\<lambda>_.
     bindc (of_sum (dindex dep ''secret_id'')) (\<lambda>sid.
       execute_module ig env ''aws'' ''get_secret_value'' [(''secret_id'', sid)] [] conn))"

section \<open>Snapshot\<close>

definition snapshot_host :: "integration \<Rightarrow> env \<Rightarrow> pydict \<Rightarrow> pydict prog" where
  "snapshot_host ig env dep =
     bindc (of_sum (dindex dep ''host'')) (\<lambda>host.
     bindc (tls_probe env host (dget_or dep ''port'' (PInt 443))) (\<lambda>pem.
       ret (if truthy pem
            then dput (dput dep ''snapshot'' pem) ''snapshot_fingerprint''
                   (PStr (ig_fingerprint ig (text_of pem)))
            else dput dep ''snapshot'' PNone)))"

definition connector_of_dependent ::
  "integration \<Rightarrow> uuid option \<Rightarrow> pydict \<Rightarrow> connector option prog" where
  "connector_of_dependent ig org dep =
     bindc (of_sum (dindex dep ''connector_type'')) (\<lambda>ct.
       load_connector ig ct (dget_or dep ''connector_id'' PNone) org)"

definition snapshot_dependent :: "integration \<Rightarrow> env \<Rightarrow> uuid \<Rightarrow> pydict \<Rightarrow> pydict prog" where
  "snapshot_dependent ig env org dep =
     catchc
       (bindc (of_sum (dindex dep ''type'')) (\<lambda>ty.
          if ty = PStr ''host'' then snapshot_host ig env dep
          else if ty = PStr ''k8s_secret'' then
            bindc (connector_of_dependent ig (Some org) dep) (\<lambda>conn.
              if conn = None then ret (dput dep ''snapshot'' PNone)
              else bindc (get_k8s_client ig env conn) (\<lambda>clients.
                if clients then bindc (read_secret env dep) (\<lambda>d. ret (dput dep ''snapshot'' (PDict d)))
                else ret (dput dep ''snapshot'' PNone)))
          else if ty = PStr ''aws_secret'' then
            bindc (connector_of_dependent ig (Some org) dep) (\<lambda>conn.
              if conn = None then ret (dput dep ''snapshot'' PNone)
              else bindc (get_secret_value ig env dep conn) (\<lambda>r.
                ret (dput dep ''snapshot'' (por (dget_or r ''secret_string'' PNone)
                                                (dget_or r ''value'' PNone)))))
          else ret dep))
       (\<lambda>_. ret (dput dep ''snapshot'' PNone))"

section \<open>Rotate\<close>

definition rotate_certificate :: "integration \<Rightarrow> env \<Rightarrow> pydict \<Rightarrow> connector option \<Rightarrow> pydict prog" where
  "rotate_certificate ig env desired conn =
     bindc (call env (Call_service ''get_step_ca_client'' [(''connector'', connector_arg conn)])) (\<lambda>_.
     bindc (of_sum (dindex desired ''subject'')) (\<lambda>subject.
     bindc (call env (Call_service ''issue_certificate''
        [(''subject'', subject), (''san'', por (dget_or desired ''san'' PNone) (PList [subject])),
         (''not_after'', dget_or desired ''not_after'' (PStr ''720h''))])) (\<lambda>files.
     bindc (gets w_clock) (\<lambda>now.
       let cert = text_of (dget_or files ''cert'' PNone)
       in ret [(''subject'', subject), (''fingerprint'', PStr (ig_fingerprint ig cert)),
               (''cert_pem'', PStr cert), (''key_pem'', PStr (text_of (dget_or files ''key'' PNone))),
               (''issued_at'', PInt now)]))))"

section \<open>Update\<close>

text \<open>\<open>v[k]\<close> of a stored value.\<close>

definition vindex :: "pyval \<Rightarrow> string \<Rightarrow> exn + pyval" where
  "vindex v k =
     (case v of PDict d \<Rightarrow> dindex d k | _ \<Rightarrow> Inl (Exn TypeError ''object is not subscriptable''))"

definition update_error :: "string \<Rightarrow> pydict" where
  "update_error msg = [(''success'', PBool False), (''error'', PStr msg)]"

text \<open>\<open>.encode()\<close> of a PEM text.\<close>

definition encode_of :: "pyval \<Rightarrow> exn + string" where
  "encode_of v = (case v of PStr s \<Rightarrow> Inr s | _ \<Rightarrow> Inl (Exn AttributeError ''no attribute encode''))"

definition tls_data :: "pyval \<Rightarrow> exn + pyval" where
  "tls_data rotation =
     (case vindex rotation ''cert_pem'' of
        Inl e \<Rightarrow> Inl e
      | Inr c \<Rightarrow>
          (case encode_of c of
             Inl e \<Rightarrow> Inl e
           | Inr cert \<Rightarrow>
               (case vindex rotation ''key_pem'' of
                  Inl e \<Rightarrow> Inl e
                | Inr k \<Rightarrow>
                    (case encode_of k of
                       Inl e \<Rightarrow> Inl e
                     | Inr key \<Rightarrow>
                         Inr (PDict [(''tls.crt'', PStr (b64encode cert)),
                                     (''tls.key'', PStr (b64encode key))])))))"

definition push_host :: "integration \<Rightarrow> env \<Rightarrow> pyval \<Rightarrow> pydict \<Rightarrow> connector option \<Rightarrow> pydict prog" where
  "push_host ig env rotation dep conn =
     bindc (of_sum (dindex dep ''connector_type'')) (\<lambda>ct.
       if ct = PStr ''nexplane_agent'' then
         bindc (of_sum (vindex rotation ''cert_pem'')) (\<lambda>cert.
         bindc (of_sum (vindex rotation ''key_pem'')) (\<lambda>key.
           execute_module ig env ''nexplane_agent'' ''manage_tls_certificates''
             [(''cert_pem'', cert), (''key_pem'', key),
              (''reload_command'', dget_or dep ''reload_command'' (PStr ''nginx -s reload''))]
             [text_of (dget_or dep ''asset_id'' (PStr []))] conn))
       else
         bindc (of_sum (vindex rotation ''subject'')) (\<lambda>subject.
           execute_module ig env ''step_ca'' ''rotate_certificate''
             [(''subject'', subject), (''deploy_via_ssm'', PBool True),
              (''instance_id'', dget_or dep ''asset_id'' (PStr []))] [] conn))"

definition push_certificate ::
  "integration \<Rightarrow> env \<Rightarrow> pyval \<Rightarrow> pydict \<Rightarrow> connector option \<Rightarrow> pydict prog" where
  "push_certificate ig env rotation dep conn =
     bindc (of_sum (dindex dep ''type'')) (\<lambda>ty.
       if ty = PStr ''host'' then push_host ig env rotation dep conn
       else if ty = PStr ''k8s_secret'' then
         bindc (get_k8s_client ig env conn) (\<lambda>clients.
           if \<not> clients then ret (update_error ''No kubeconfig available'')
           else bindc (of_sum (tls_data rotation)) (\<lambda>data.
             thenc (patch_secret env dep data) (ret [(''success'', PBool True)])))
       else if ty = PStr ''aws_secret'' then
         bindc (of_sum (dindex dep ''secret_id'')) (\<lambda>sid.
         bindc (of_sum (vindex rotation ''cert_pem'')) (\<lambda>cert.
           execute_module ig env ''aws'' ''rotate_secrets_manager_secret''
             [(''secret_id'', sid), (''new_value'', cert)] [] conn))
       else ret (update_error ''Unknown dependent type''))"

definition update_dependent :: "integration \<Rightarrow> env \<Rightarrow> pyval \<Rightarrow> pydict \<Rightarrow> pydict prog" where
  "update_dependent ig env rotation dep =
     bindc (catchc
         (bindc (connector_of_dependent ig None dep) (push_certificate ig env rotation dep))
         (\<lambda>e. ret (update_error (exn_text e)))) (\<lambda>r.
       ret (dput dep ''update_result'' (PDict r)))"

section \<open>Verify\<close>

definition verify_result :: "bool \<Rightarrow> pyval \<Rightarrow> pyval \<Rightarrow> pydict" where
  "verify_result ok fingerprint error =
     [(''success'', PBool ok), (''fingerprint'', fingerprint), (''error'', error)]"

definition strip_of :: "pyval \<Rightarrow> exn + string" where
  "strip_of v = (case v of PStr s \<Rightarrow> Inr (strip s) | _ \<Rightarrow> Inl (Exn AttributeError ''no attribute strip''))"

text \<open>\<open>rotation_result["cert_pem"].strip() in stored.strip()\<close>.\<close>

definition holds_certificate :: "pyval \<Rightarrow> pyval \<Rightarrow> exn + bool" where
  "holds_certificate rotation stored =
     (case vindex rotation ''cert_pem'' of
        Inl e \<Rightarrow> Inl e
      | Inr c \<Rightarrow>
          (case strip_of c of
             Inl e \<Rightarrow> Inl e
           | Inr cert \<Rightarrow> (case strip_of stored of Inl e \<Rightarrow> Inl e | Inr s \<Rightarrow> Inr (is_infix_of cert s))))"

definition verify_host :: "integration \<Rightarrow> env \<Rightarrow> pyval \<Rightarrow> pydict \<Rightarrow> pydict prog" where
  "verify_host ig env rotation dep =
     bindc (of_sum (dindex dep ''host'')) (\<lambda>host.
     bindc (tls_probe env host (dget_or dep ''port'' (PInt 443))) (\<lambda>pem.
       if truthy pem then
         (let served = PStr (ig_fingerprint ig (text_of pem))
          in bindc (of_sum (vindex rotation ''fingerprint'')) (\<lambda>expected.
               ret (if served = expected then verify_result True served PNone
                    else verify_result False served (PStr ''Fingerprint mismatch''))))
       else ret (verify_result False PNone (PStr ''TLS probe returned no cert''))))"

text \<open>The text under \<open>tls.crt\<close>.\<close>

definition stored_pem :: "pydict \<Rightarrow> exn + string" where
  "stored_pem data =
     (case dget_or data ''tls.crt'' (PStr []) of
        PStr raw \<Rightarrow>
          if raw = [] then Inr []
          else (case b64decode raw of Inl e \<Rightarrow> Inl e | Inr bytes \<Rightarrow> decode_utf8 bytes)
      | v \<Rightarrow> if truthy v then Inl (Exn TypeError ''a bytes-like object is required'') else Inr [])"

definition verify_k8s :: "integration \<Rightarrow> env \<Rightarrow> pyval \<Rightarrow> pydict \<Rightarrow> pydict prog" where
  "verify_k8s ig env rotation dep =
     bindc (connector_of_dependent ig None dep) (\<lambda>conn.
     bindc (if conn = None then ret False else get_k8s_client ig env conn) (\<lambda>clients.
       if \<not> clients then ret (verify_result False PNone (PStr ''No K8s client''))
       else bindc (read_secret env dep) (\<lambda>data.
         bindc (of_sum (stored_pem data)) (\<lambda>pem.
         bindc (of_sum (holds_certificate rotation (PStr pem))) (\<lambda>ok.
           ret (if ok then verify_result True PNone PNone
                else verify_result False PNone
                  (PStr ''Secret tls.crt does not match new cert PEM'')))))))"

definition verify_aws :: "integration \<Rightarrow> env \<Rightarrow> pyval \<Rightarrow> pydict \<Rightarrow> pydict prog" where
  "verify_aws ig env rotation dep =
     bindc (connector_of_dependent ig None dep) (\<lambda>conn.
     bindc (get_secret_value ig env dep conn) (\<lambda>r.
       let stored = por (por (dget_or r ''secret_string'' PNone) (dget_or r ''value'' (PStr []))) (PStr [])
       in bindc (of_sum (holds_certificate rotation stored)) (\<lambda>ok.
            ret (if ok then verify_result True PNone PNone
                 else verify_result False PNone
                   (PStr ''Secret value does not match new cert PEM'')))))"

definition verify_dependent :: "integration \<Rightarrow> env \<Rightarrow> pyval \<Rightarrow> pydict \<Rightarrow> pydict prog" where
  "verify_dependent ig env rotation dep =
     bindc (catchc
         (bindc (of_sum (dindex dep ''type'')) (\<lambda>ty.
            if ty = PStr ''host'' then verify_host ig env rotation dep
            else if ty = PStr ''k8s_secret'' then verify_k8s ig env rotation dep
            else if ty = PStr ''aws_secret'' then verify_aws ig env rotation dep
            else ret (verify_result False PNone (PStr ''Unknown type''))))
         (\<lambda>e. ret (verify_result False PNone (PStr (exn_text e))))) (\<lambda>r.
       ret (dput dep ''verify_result'' (PDict r)))"

section \<open>The rotation\<close>

text \<open>A result that executors and probes have left on a dependent; \<open>None\<close> and no result read as empty.\<close>

definition result_on :: "string \<Rightarrow> pydict \<Rightarrow> pydict" where
  "result_on k dep = (case dget_or dep k PNone of PDict r \<Rightarrow> r | _ \<Rightarrow> [])"

definition has_result :: "string \<Rightarrow> pydict \<Rightarrow> bool" where
  "has_result k dep \<longleftrightarrow> truthy (dget_or dep k PNone)"

definition verified :: "pydict \<Rightarrow> bool" where
  "verified dep \<longleftrightarrow> truthy (dget_or (result_on ''verify_result'' dep) ''success'' PNone)"

definition update_succeeded :: "pydict \<Rightarrow> bool" where
  "update_succeeded r =
     (if dget r ''success'' \<noteq> None then truthy (dget_or r ''success'' PNone)
      else if dget r ''applied'' \<noteq> None then truthy (dget_or r ''applied'' PNone)
      else True)"

definition update_failed :: "pydict \<Rightarrow> bool" where
  "update_failed dep \<longleftrightarrow>
     has_result ''update_result'' dep \<and> \<not> update_succeeded (result_on ''update_result'' dep)"

definition certificate_result :: "pydict list \<Rightarrow> pyval \<Rightarrow> string \<Rightarrow> bool \<Rightarrow> pydict" where
  "certificate_result deps rotation phase paused =
     [(''phase'', PStr phase), (''dependents'', PList (map PDict deps)), (''rotation_result'', rotation),
      (''rollback_strategy'', PNone),
      (''has_warnings'', PBool (list_ex (\<lambda>d. has_result ''verify_result'' d \<and> \<not> verified d) deps)),
      (''paused'', PBool paused)]"

definition phase_state :: "string \<Rightarrow> pydict list \<Rightarrow> pyval \<Rightarrow> pydict" where
  "phase_state phase deps rotation =
     [(''phase'', PStr phase), (''dependents'', PList (map PDict deps)), (''rotation_result'', rotation)]"

definition persist :: "uuid option \<Rightarrow> pydict \<Rightarrow> unit prog" where
  "persist run d = (case run of None \<Rightarrow> ret () | Some r \<Rightarrow> set_run_result r d)"

definition dependent_index :: "pydict \<Rightarrow> exn + int" where
  "dependent_index dep =
     (case dindex dep ''index'' of
        Inl e \<Rightarrow> Inl e
      | Inr (PInt i) \<Rightarrow> Inr i
      | Inr _ \<Rightarrow> Inl (Exn TypeError ''index is no number''))"

fun index_dependents :: "pydict list \<Rightarrow> (int \<times> pydict) list \<Rightarrow> exn + (int \<times> pydict) list" where
  "index_dependents [] merged = Inr merged"
| "index_dependents (d # ds) merged =
     (case dependent_index d of
        Inl e \<Rightarrow> Inl e
      | Inr i \<Rightarrow> index_dependents ds (AList.update i d merged))"

definition merge_by_index :: "pydict list \<Rightarrow> pydict list \<Rightarrow> exn + pydict list" where
  "merge_by_index existing new_items =
     (case index_dependents (existing @ new_items) [] of
        Inl e \<Rightarrow> Inl e
      | Inr merged \<Rightarrow> Inr (map snd (sort_key fst merged)))"

definition no_snapshot :: "pydict \<Rightarrow> bool" where
  "no_snapshot dep \<longleftrightarrow> dget_or dep ''snapshot'' PNone = PNone"

definition scan_phase :: "pydict \<Rightarrow> uuid \<Rightarrow> uuid option \<Rightarrow> pydict list \<Rightarrow> pydict list prog" where
  "scan_phase desired org run deps =
     (if deps \<noteq> [] then ret deps
      else bindc (scan_dependents desired org) (\<lambda>found.
        thenc (persist run (phase_state ''scan'' found PNone)) (ret found)))"

definition snapshot_phase ::
  "integration \<Rightarrow> env \<Rightarrow> uuid \<Rightarrow> uuid option \<Rightarrow> pyval \<Rightarrow> pydict list \<Rightarrow> pydict list prog" where
  "snapshot_phase ig env org run rotation deps =
     (if deps \<noteq> [] \<and> list_all no_snapshot deps
      then bindc (mapc (snapshot_dependent ig env org) deps) (\<lambda>deps'.
        thenc (persist run (phase_state ''snapshot'' deps' rotation)) (ret deps'))
      else ret deps)"

text \<open>The inventory row of the new certificate is written on a best-effort basis.\<close>

definition rotate_phase ::
  "integration \<Rightarrow> env \<Rightarrow> uuid \<Rightarrow> pydict \<Rightarrow> uuid \<Rightarrow> uuid option \<Rightarrow> pydict list \<Rightarrow> pyval \<Rightarrow> pyval prog" where
  "rotate_phase ig env i desired org run deps rotation =
     (if truthy rotation then ret rotation
      else bindc (load_step_ca_connector ig org) (\<lambda>conn.
        bindc (rotate_certificate ig env desired conn) (\<lambda>r.
        thenc (persist run (phase_state ''rotate'' deps (PDict r)))
        (thenc (catchc (bindc (call env (Call_service ''certificate_inventory''
                   [(''change_request_id'', PStr i), (''organization_id'', PStr org),
                    (''rotation_result'', PDict r)])) (\<lambda>_. ret ())) (\<lambda>_. ret ()))
          (ret (PDict r))))))"

definition update_phase ::
  "integration \<Rightarrow> env \<Rightarrow> uuid option \<Rightarrow> pyval \<Rightarrow> pydict list \<Rightarrow> pydict list prog" where
  "update_phase ig env run rotation deps =
     (let pending = filter (\<lambda>d. \<not> has_result ''update_result'' d) deps
      in if pending = [] then ret deps
         else bindc (mapc (update_dependent ig env rotation) pending) (\<lambda>updated.
           bindc (of_sum (merge_by_index (filter (has_result ''update_result'') deps) updated)) (\<lambda>deps'.
             thenc (persist run (phase_state ''update'' deps' rotation)) (ret deps'))))"

text \<open>\<open>asyncio.sleep\<close> takes a number.\<close>

definition check_timeout :: "pyval \<Rightarrow> exn + unit" where
  "check_timeout v =
     (case v of PInt _ \<Rightarrow> Inr () | PBool _ \<Rightarrow> Inr () | _ \<Rightarrow> Inl (Exn TypeError ''timeout is no number''))"

definition verify_phase ::
  "integration \<Rightarrow> env \<Rightarrow> uuid option \<Rightarrow> pyval \<Rightarrow> pyval \<Rightarrow> pydict list \<Rightarrow> pydict list prog" where
  "verify_phase ig env run timeout rotation deps =
     (if list_all (has_result ''verify_result'') deps then ret deps
      else thenc (of_sum (check_timeout timeout))
        (bindc (mapc (verify_dependent ig env rotation)
                  (filter (\<lambda>d. \<not> has_result ''verify_result'' d) deps)) (\<lambda>checked.
         bindc (of_sum (merge_by_index (filter (has_result ''verify_result'') deps) checked)) (\<lambda>deps'.
           thenc (persist run (phase_state ''verify'' deps' rotation)) (ret deps')))))"

definition complete_certificate_run :: "uuid \<Rightarrow> uuid option \<Rightarrow> pydict \<Rightarrow> unit prog" where
  "complete_certificate_run i run result =
     thenc (set_status i CRS_completed)
       (case run of
          None \<Rightarrow> ret ()
        | Some rid \<Rightarrow> modifyc (upd_run rid (\<lambda>r. r\<lparr>run_status := ES_completed, run_result := result\<rparr>)))"

definition finish_certificate_rotation ::
  "uuid \<Rightarrow> uuid option \<Rightarrow> pyval \<Rightarrow> pydict list \<Rightarrow> pydict prog" where
  "finish_certificate_rotation i run rotation deps =
     (let paused = list_ex (\<lambda>d. \<not> verified d) deps;
          result = certificate_result deps rotation ''verify'' paused
      in thenc (whenc (\<not> paused) (complete_certificate_run i run result)) (ret result))"

definition rotate_dependents ::
  "integration \<Rightarrow> env \<Rightarrow> change_request \<Rightarrow> execution_run option \<Rightarrow> pydict list \<Rightarrow> pydict prog" where
  "rotate_dependents ig env cr found stored =
     (let i = cr_id cr; desired = cr_desired_outcome cr; org = cr_organization_id cr;
          run = map_option run_id found;
          rotation0 = dget_or (case found of None \<Rightarrow> [] | Some r \<Rightarrow> run_result r) ''rotation_result'' PNone
      in bindc (scan_phase desired org run stored) (\<lambda>scanned.
         bindc (snapshot_phase ig env org run rotation0 scanned) (\<lambda>kept.
         bindc (rotate_phase ig env i desired org run kept rotation0) (\<lambda>rotation.
         bindc (update_phase ig env run rotation kept) (\<lambda>updated.
           if list_ex update_failed updated
           then ret (certificate_result updated rotation ''update'' True)
           else bindc (verify_phase ig env run
                         (dget_or desired ''verify_timeout_seconds'' (PInt 10)) rotation updated)
                  (finish_certificate_rotation i run rotation))))))"

definition stored_dependents :: "execution_run option \<Rightarrow> exn + pydict list" where
  "stored_dependents found =
     (case as_list (por (dget_or (case found of None \<Rightarrow> [] | Some r \<Rightarrow> run_result r) ''dependents'' PNone)
                      (PList [])) of
        Inl e \<Rightarrow> Inl e
      | Inr values \<Rightarrow> as_dicts values)"

definition execute_certificate_rotation :: "integration \<Rightarrow> env \<Rightarrow> uuid \<Rightarrow> pydict prog" where
  "execute_certificate_rotation ig env i =
     bindc (get_cr_one i) (\<lambda>cr.
     bindc (gets (\<lambda>w. rotation_run w i)) (\<lambda>found.
     bindc (of_sum (stored_dependents found)) (\<lambda>stored.
       rotate_dependents ig env cr found stored)))"

section \<open>Rollback\<close>

definition has_24h_remaining :: "integration \<Rightarrow> int \<Rightarrow> pyval \<Rightarrow> bool" where
  "has_24h_remaining ig now pem =
     (case pem of
        PStr s \<Rightarrow> (case ig_not_after ig s of None \<Rightarrow> False | Some expiry \<Rightarrow> expiry - now > 86400)
      | _ \<Rightarrow> False)"

fun any_restorable :: "integration \<Rightarrow> int \<Rightarrow> pydict list \<Rightarrow> exn + bool" where
  "any_restorable ig now [] = Inr False"
| "any_restorable ig now (d # ds) =
     (case dindex d ''type'' of
        Inl e \<Rightarrow> Inl e
      | Inr ty \<Rightarrow>
          if ty = PStr ''host'' \<and> has_result ''snapshot'' d \<and> has_result ''snapshot_fingerprint'' d \<and>
             has_24h_remaining ig now (dget_or d ''snapshot'' PNone)
          then Inr True else any_restorable ig now ds)"

definition rollback_strategy :: "integration \<Rightarrow> int \<Rightarrow> pydict \<Rightarrow> pydict list \<Rightarrow> exn + string" where
  "rollback_strategy ig now desired deps =
     (if dget_or desired ''trigger_reason'' (PStr ''scheduled'') = PStr ''compromise''
      then Inr ''reissue''
      else case any_restorable ig now deps of
             Inl e \<Rightarrow> Inl e
           | Inr b \<Rightarrow> Inr (if b then ''restore'' else ''reissue''))"

definition initial_step :: "int \<Rightarrow> string \<Rightarrow> pydict" where
  "initial_step i strategy =
     [(''index'', PInt i), (''strategy'', PStr strategy), (''rolled_back'', PBool False),
      (''error'', PNone)]"

definition step_error :: "pydict \<Rightarrow> string \<Rightarrow> pydict" where
  "step_error step msg = dput step ''error'' (PStr msg)"

definition step_done :: "pydict \<Rightarrow> pyval \<Rightarrow> pydict" where
  "step_done step r = dput (dput step ''rollback_result'' r) ''rolled_back'' (PBool True)"

text \<open>A fresh certificate, issued and pushed to one dependent: what the push answered.\<close>

definition reissue_to :: "integration \<Rightarrow> env \<Rightarrow> pydict \<Rightarrow> uuid \<Rightarrow> pydict \<Rightarrow> pydict prog" where
  "reissue_to ig env desired org dep =
     bindc (load_step_ca_connector ig org) (\<lambda>conn.
     bindc (rotate_certificate ig env desired conn) (\<lambda>rotation.
     bindc (update_dependent ig env (PDict rotation) dep) (\<lambda>fresh.
       ret (result_on ''update_result'' fresh))))"

definition with_reissue :: "pydict \<Rightarrow> pydict \<Rightarrow> pyval \<Rightarrow> string \<Rightarrow> pydict" where
  "with_reissue step r ok msg =
     (let step' = dput (dput step ''rollback_result'' (PDict r)) ''rolled_back'' ok
      in if truthy ok then step' else dput step' ''error'' (dget_or r ''error'' (PStr msg)))"

definition restore_host ::
  "integration \<Rightarrow> env \<Rightarrow> pydict \<Rightarrow> uuid \<Rightarrow> pydict \<Rightarrow> pydict \<Rightarrow> connector option \<Rightarrow> pydict prog" where
  "restore_host ig env desired org step dep conn =
     (if has_result ''snapshot_key'' dep then
        bindc (execute_module ig env ''nexplane_agent'' ''manage_tls_certificates''
            [(''cert_pem'', dget_or dep ''snapshot'' PNone),
             (''key_pem'', dget_or dep ''snapshot_key'' PNone),
             (''reload_command'', dget_or dep ''reload_command'' (PStr ''nginx -s reload''))]
            [text_of (dget_or dep ''asset_id'' (PStr []))] conn) (\<lambda>r.
          ret (step_done step (PDict r)))
      else
        (let step' = dput step ''strategy'' (PStr ''reissue'')
         in catchc
              (bindc (reissue_to ig env desired org dep) (\<lambda>r.
                 ret (with_reissue step' r (PBool (update_succeeded r))
                        ''Re-issue fallback failed (no snapshot_key)'')))
              (\<lambda>e. ret (step_error step' (exn_text e)))))"

definition restore_k8s :: "integration \<Rightarrow> env \<Rightarrow> pydict \<Rightarrow> pydict \<Rightarrow> connector option \<Rightarrow> pydict prog" where
  "restore_k8s ig env step dep conn =
     bindc (if conn = None then ret False else get_k8s_client ig env conn) (\<lambda>clients.
       if \<not> clients
       then ret (dput (step_error step ''No K8s client for rollback'') ''rolled_back'' (PBool True))
       else thenc (patch_secret env dep (dget_or dep ''snapshot'' PNone))
              (ret (step_done step (PDict [(''success'', PBool True)]))))"

definition restore_dependent ::
  "integration \<Rightarrow> env \<Rightarrow> pydict \<Rightarrow> uuid \<Rightarrow> pydict \<Rightarrow> pydict \<Rightarrow> connector option \<Rightarrow> pydict prog" where
  "restore_dependent ig env desired org step dep conn =
     bindc (of_sum (dindex dep ''type'')) (\<lambda>ty.
       if ty = PStr ''host'' then restore_host ig env desired org step dep conn
       else if ty = PStr ''k8s_secret'' then restore_k8s ig env step dep conn
       else if ty = PStr ''aws_secret'' then
         bindc (of_sum (dindex dep ''secret_id'')) (\<lambda>sid.
         bindc (execute_module ig env ''aws'' ''rotate_secrets_manager_secret''
            [(''secret_id'', sid), (''new_value'', dget_or dep ''snapshot'' PNone)] [] conn) (\<lambda>r.
           ret (step_done step (PDict r))))
       else ret (step_error step ''Cannot restore unknown type''))"

definition rollback_dependent ::
  "integration \<Rightarrow> env \<Rightarrow> pydict \<Rightarrow> uuid \<Rightarrow> string \<Rightarrow> pydict \<Rightarrow> pydict prog" where
  "rollback_dependent ig env desired org strategy dep =
     bindc (of_sum (dependent_index dep)) (\<lambda>i.
       let step = initial_step i strategy
       in catchc
            (bindc (connector_of_dependent ig None dep) (\<lambda>conn.
               if strategy = ''restore'' \<and> has_result ''snapshot'' dep
               then restore_dependent ig env desired org step dep conn
               else bindc (reissue_to ig env desired org dep) (\<lambda>r.
                      ret (with_reissue step r (dget_or r ''success'' (PBool False)) ''Re-issue failed''))))
            (\<lambda>e. ret (step_error step (exn_text e))))"

fun indexed :: "pydict list \<Rightarrow> exn + (int \<times> pydict) list" where
  "indexed [] = Inr []"
| "indexed (d # ds) =
     (case dependent_index d of
        Inl e \<Rightarrow> Inl e
      | Inr i \<Rightarrow> (case indexed ds of Inl e \<Rightarrow> Inl e | Inr xs \<Rightarrow> Inr ((i, d) # xs)))"

text \<open>\<open>sorted(dependents, key=..., reverse=True)\<close> keeps the order of equal keys.\<close>

definition from_last :: "(int \<times> pydict) list \<Rightarrow> pydict list" where
  "from_last xs = map snd (sort_key (\<lambda>(i, _). - i) xs)"

definition execute_certificate_rollback :: "integration \<Rightarrow> env \<Rightarrow> uuid \<Rightarrow> pydict \<Rightarrow> pydict prog" where
  "execute_certificate_rollback ig env i execution_result =
     bindc (get_cr_one i) (\<lambda>cr.
     bindc (of_sum (as_list (dget_or execution_result ''dependents'' (PList [])))) (\<lambda>values.
     bindc (of_sum (as_dicts values)) (\<lambda>deps.
     bindc (gets w_clock) (\<lambda>now.
     bindc (of_sum (rollback_strategy ig now (cr_desired_outcome cr) deps)) (\<lambda>strategy.
     bindc (of_sum (indexed deps)) (\<lambda>xs.
     bindc (mapc (rollback_dependent ig env (cr_desired_outcome cr) (cr_organization_id cr) strategy)
              (from_last xs)) (\<lambda>steps.
       let all_ok = list_all (\<lambda>s. truthy (dget_or s ''rolled_back'' PNone)) steps
       in ret [(''rollback_steps'', PList (map PDict steps)), (''all_rolled_back'', PBool all_ok),
               (''has_warnings'', PBool (\<not> all_ok)), (''rollback_strategy'', PStr strategy)])))))))"

section \<open>Merging by index\<close>

text \<open>The last dependent of a list that has an index.\<close>

fun last_with_index :: "int \<Rightarrow> pydict list \<Rightarrow> pydict option" where
  "last_with_index i [] = None"
| "last_with_index i (d # ds) =
     (case last_with_index i ds of
        Some x \<Rightarrow> Some x
      | None \<Rightarrow> if dependent_index d = Inr i then Some d else None)"

lemma last_with_index_in: "last_with_index i ds = Some d \<Longrightarrow> d \<in> set ds \<and> dependent_index d = Inr i"
  by (induction ds) (auto split: option.splits if_splits)

lemma last_with_index_None: "last_with_index i ds = None \<longleftrightarrow> (\<forall>d \<in> set ds. dependent_index d \<noteq> Inr i)"
  by (induction ds) (auto split: option.splits if_splits)

lemma last_with_index_append:
  "last_with_index i (as @ bs) =
     (case last_with_index i bs of Some x \<Rightarrow> Some x | None \<Rightarrow> last_with_index i as)"
  by (induction as) (auto split: option.splits)

lemma index_dependents_lookup:
  "index_dependents ds m = Inr m' \<Longrightarrow>
     map_of m' i = (case last_with_index i ds of Some d \<Rightarrow> Some d | None \<Rightarrow> map_of m i)"
proof (induction ds arbitrary: m)
  case (Cons d ds)
  from Cons.prems obtain j where j: "dependent_index d = Inr j"
    and rest: "index_dependents ds (AList.update j d m) = Inr m'"
    by (auto split: sum.splits)
  from Cons.IH [OF rest] j show ?case by (auto simp: update_conv' split: option.splits)
qed simp

lemma index_dependents_distinct:
  "index_dependents ds m = Inr m' \<Longrightarrow> distinct (map fst m) \<Longrightarrow> distinct (map fst m')"
  by (induction ds arbitrary: m) (auto simp: distinct_update split: sum.splits)

lemma map_of_in_distinct: "distinct (map fst m) \<Longrightarrow> (i, d) \<in> set m \<longleftrightarrow> map_of m i = Some d"
  by (auto simp: map_of_eq_Some_iff)

lemma merge_by_index_ok:
  assumes "merge_by_index old new = Inr ds"
  shows "d \<in> set ds \<longleftrightarrow> (\<exists>i. last_with_index i (old @ new) = Some d)"
    and "\<exists>is. map dependent_index ds = map Inr is \<and> sorted is \<and> distinct is"
proof -
  from assms obtain m where m: "index_dependents (old @ new) [] = Inr m"
    and ds: "ds = map snd (sort_key fst m)"
    by (auto simp: merge_by_index_def split: sum.splits)
  have lookup: "map_of m i = last_with_index i (old @ new)" for i
    using index_dependents_lookup [OF m, of i] by (simp split: option.splits)
  have dist: "distinct (map fst m)" using index_dependents_distinct [OF m] by simp
  show "d \<in> set ds \<longleftrightarrow> (\<exists>i. last_with_index i (old @ new) = Some d)"
    using map_of_in_distinct [OF dist] lookup by (force simp: ds image_iff)
  let ?is = "map fst (sort_key fst m)"
  have "dependent_index (snd p) = Inr (fst p)" if "p \<in> set m" for p
    using that map_of_in_distinct [OF dist, of "fst p" "snd p"] lookup last_with_index_in by auto
  then have "map dependent_index ds = map Inr ?is" by (simp add: ds)
  moreover have "distinct ?is"
    using dist by (metis distinct_map distinct_sort set_sort)
  ultimately show "\<exists>is. map dependent_index ds = map Inr is \<and> sorted is \<and> distinct is"
    using sorted_sort_key by blast
qed

lemma merge_by_index_in: "merge_by_index old new = Inr ds \<Longrightarrow> set ds \<subseteq> set old \<union> set new"
  using last_with_index_in by (fastforce simp: merge_by_index_ok(1))

lemma merge_by_index_keeps:
  assumes "merge_by_index old new = Inr ds" and "d \<in> set old" and "dependent_index d = Inr i"
    and "\<forall>e \<in> set old. dependent_index e = Inr i \<longrightarrow> e = d"
    and "\<forall>e \<in> set new. dependent_index e \<noteq> Inr i"
  shows "d \<in> set ds"
proof -
  have "last_with_index i new = None" using assms(5) by (simp add: last_with_index_None)
  moreover have "last_with_index i old \<noteq> None" using assms(2,3) by (auto simp: last_with_index_None)
  then have "last_with_index i old = Some d" using assms(4) last_with_index_in by fastforce
  ultimately have "last_with_index i (old @ new) = Some d" by (simp add: last_with_index_append)
  then show ?thesis using merge_by_index_ok(1) [OF assms(1)] by blast
qed

section \<open>A rotation leaves the request alone until it completes it\<close>

lemma frame_connectors [framed]:
  "frame (attach_credentials ig c)" "frame (load_connector ig ct cid org)"
  "frame (load_step_ca_connector ig og)" "frame (connector_of_dependent ig org dep)"
  unfolding connector_of_dependent_def load_connector_def load_step_ca_connector_def attach_credentials_def
  by (intro framed frame_case_option)+

lemma frame_clients [framed]:
  "frame (execute_module ig env ct action params assets conn)" "frame (get_k8s_client ig env conn)"
  "frame (read_secret env dep)" "frame (patch_secret env dep data)" "frame (tls_probe env host port)"
  "frame (get_secret_value ig env dep conn)" "frame (rotate_certificate ig env desired conn)"
  unfolding execute_module_def get_k8s_client_def get_k8s_clients_def read_secret_def patch_secret_def tls_probe_def
    get_secret_value_def rotate_certificate_def Let_def
  by (intro framed)+

lemma frame_dependents [framed]:
  "frame (snapshot_dependent ig env og dep)" "frame (update_dependent ig env rotation dep)"
  "frame (verify_dependent ig env rotation dep)"
  unfolding snapshot_dependent_def snapshot_host_def update_dependent_def push_certificate_def push_host_def
    verify_dependent_def verify_host_def verify_k8s_def verify_aws_def Let_def
  by (intro framed)+

lemma frame_persist [framed]: "frame (persist run d)"
  unfolding persist_def by (intro framed frame_case_option)

lemma frame_phases [framed]:
  "frame (scan_phase desired og run deps)" "frame (snapshot_phase ig env og run rotation deps)"
  "frame (rotate_phase ig env i desired og run deps rotation)" "frame (update_phase ig env run rotation deps)"
  "frame (verify_phase ig env run timeout rotation deps)"
  unfolding scan_phase_def scan_dependents_def snapshot_phase_def rotate_phase_def update_phase_def
    verify_phase_def Let_def
  by (intro framed)+

lemma frame_certificate_rollback: "frame (execute_certificate_rollback ig env i r)"
proof -
  have "frame (get_cr_one i)" by (rule frameI) (simp add: get_cr_one_def)
  then show ?thesis
    unfolding execute_certificate_rollback_def rollback_dependent_def restore_dependent_def restore_host_def
      restore_k8s_def reissue_to_def Let_def
    by (intro framed)
qed

section \<open>What the phases leave on the dependents\<close>

lemma update_dependent_returns:
  "\<exists>r t. update_dependent ig env rotation dep w = (Inr (dput dep ''update_result'' (PDict r)), t)"
  unfolding update_dependent_def by (rule caught_returns)

lemma verify_dependent_returns:
  "\<exists>r t. verify_dependent ig env rotation dep w = (Inr (dput dep ''verify_result'' (PDict r)), t)"
  unfolding verify_dependent_def by (rule caught_returns)

text \<open>Keys that a phase does not write.\<close>

lemma dget_or_put: "dget_or (dput d k v) k' x = (if k' = k then v else dget_or d k' x)"
  by (simp add: dget_or_def dget_dput)

lemma dependent_index_put [simp]: "k \<noteq> ''index'' \<Longrightarrow> dependent_index (dput d k v) = dependent_index d"
  by (simp add: dependent_index_def dindex_def dget_dput)

lemma update_failed_put [simp]: "update_failed (dput d ''verify_result'' v) = update_failed d"
  by (simp add: update_failed_def has_result_def result_on_def dget_or_put)

lemma verify_phase_outcome:
  assumes "verify_phase ig env run timeout rotation deps w = (Inr deps', t)"
    and "\<not> list_ex update_failed deps"
  shows "\<not> list_ex update_failed deps'"
proof (cases "list_all (has_result ''verify_result'') deps")
  case False
  with assms(1) obtain checked u where
    run: "mapc (verify_dependent ig env rotation) (filter (\<lambda>d. \<not> has_result ''verify_result'' d) deps) w = (Inr checked, u)"
    and merge: "merge_by_index (filter (has_result ''verify_result'') deps) checked = Inr deps'"
    by (auto simp: verify_phase_def comp_simps split: prod.splits sum.splits)
  have "\<not> update_failed d" if "d \<in> set checked" for d
  proof -
    from mapc_element [OF run that] obtain x u v where "x \<in> set deps"
      "verify_dependent ig env rotation x u = (Inr d, v)" by auto
    with verify_dependent_returns [of ig env rotation x u] assms(2) show ?thesis
      by (auto simp: list_ex_iff)
  qed
  with merge_by_index_in [OF merge] assms(2) show ?thesis by (auto simp: list_ex_iff)
qed (use assms in \<open>simp add: verify_phase_def\<close>)

lemma get_cr_complete_certificate_run:
  "get_cr w i = Some cr \<Longrightarrow>
   get_cr (snd (complete_certificate_run i run r w)) i =
     Some (cr\<lparr>cr_status := CRS_completed, cr_updated_at := w_clock w\<rparr>)"
  by (cases run) (simp_all add: complete_certificate_run_def set_status_def comp_simps get_cr_upd_cr)

section \<open>The outcome of a rotation\<close>

lemma frame_returns: "frame m \<Longrightarrow> m w = (x, t) \<Longrightarrow> get_cr t = get_cr w"
  using frame_apply [of m w] by simp

lemma finish_certificate_outcome:
  assumes "finish_certificate_rotation i run rotation deps w = (Inr r, t)" and "get_cr w i = Some cr"
  shows "r = certificate_result deps rotation ''verify'' (list_ex (\<lambda>d. \<not> verified d) deps)"
    and "list_ex (\<lambda>d. \<not> verified d) deps \<Longrightarrow> get_cr t = get_cr w"
    and "\<not> list_ex (\<lambda>d. \<not> verified d) deps \<Longrightarrow>
      get_cr t i = Some (cr\<lparr>cr_status := CRS_completed, cr_updated_at := w_clock w\<rparr>)"
proof -
  have step: "complete_certificate_run i run x w = (Inr (), snd (complete_certificate_run i run x w))" for x
    by (cases run) (simp_all add: complete_certificate_run_def set_status_def comp_simps)
  have upd: "complete_certificate_run i run x w = (Inr (), u) \<Longrightarrow>
      get_cr u i = Some (cr\<lparr>cr_status := CRS_completed, cr_updated_at := w_clock w\<rparr>)" for x u
    using get_cr_complete_certificate_run [OF assms(2), of run x] by simp
  show "r = certificate_result deps rotation ''verify'' (list_ex (\<lambda>d. \<not> verified d) deps)"
    and "list_ex (\<lambda>d. \<not> verified d) deps \<Longrightarrow> get_cr t = get_cr w"
    and "\<not> list_ex (\<lambda>d. \<not> verified d) deps \<Longrightarrow>
      get_cr t i = Some (cr\<lparr>cr_status := CRS_completed, cr_updated_at := w_clock w\<rparr>)"
    using assms step upd
    by (auto simp: finish_certificate_rotation_def Let_def thenc_apply whenc_def split: prod.splits sum.splits if_splits)
qed

text \<open>A run of the rotation that returns, phase by phase.\<close>

lemma certificate_phases:
  assumes "execute_certificate_rotation ig env i w = (Inr r, t)"
  obtains cr run timeout rotation updated u where "get_cr w i = Some cr" "get_cr u = get_cr w"
    "(if list_ex update_failed updated
      then ret (certificate_result updated rotation ''update'' True)
      else bindc (verify_phase ig env run timeout rotation updated)
             (finish_certificate_rotation i run rotation)) u = (Inr r, t)"
proof -
  from assms obtain cr stored where cr: "get_cr w i = Some cr"
    and go: "rotate_dependents ig env cr (rotation_run w i) stored w = (Inr r, t)"
    by (auto simp: execute_certificate_rotation_def get_cr_one_def comp_simps
        split: option.splits sum.splits prod.splits)
  have id: "cr_id cr = i" using cr by (rule cr_table.fetch_key)
  from go show ?thesis
    unfolding rotate_dependents_def Let_def id
    by (elim bindc_InrE)
      (rule that [OF cr], auto dest!: frame_returns [OF frame_phases(1)] frame_returns [OF frame_phases(2)]
        frame_returns [OF frame_phases(3)] frame_returns [OF frame_phases(4)])
qed

text \<open>C16: A certificate rotation completes a change exactly when every dependent took the new
  certificate and serves it. When the rotation returns, its result holds the dependents; either it is
  not paused, no update failed, every dependent is verified and the request is completed, or it is
  paused because an update failed or a dependent is not verified, and no change request was touched.\<close>

theorem certificate_completes_only_verified:
  assumes "execute_certificate_rotation ig env i w = (Inr r, t)"
  shows "\<exists>deps. dget r ''dependents'' = Some (PList (map PDict deps)) \<and>
     (if list_ex update_failed deps \<or> list_ex (\<lambda>d. \<not> verified d) deps
      then dget r ''paused'' = Some (PBool True) \<and> get_cr t = get_cr w
      else dget r ''paused'' = Some (PBool False) \<and>
        map_option cr_status (get_cr t i) = Some CRS_completed)"
proof -
  from assms obtain cr run timeout rotation updated u
    where cr: "get_cr w i = Some cr" and same: "get_cr u = get_cr w"
      and go: "(if list_ex update_failed updated
      then ret (certificate_result updated rotation ''update'' True)
      else bindc (verify_phase ig env run timeout rotation updated)
             (finish_certificate_rotation i run rotation)) u = (Inr r, t)"
    by (rule certificate_phases)
  show ?thesis
  proof (cases "list_ex update_failed updated")
    case True
    with go same show ?thesis by (intro exI [of _ updated]) (auto simp: certificate_result_def)
  next
    case False
    with go obtain checked v
      where verify: "verify_phase ig env run timeout rotation updated u = (Inr checked, v)"
        and finish: "finish_certificate_rotation i run rotation checked v = (Inr r, t)"
      by (auto elim: bindc_InrE)
    have v: "get_cr v = get_cr w" using frame_returns [OF frame_phases(5) verify] same by simp
    with cr have "get_cr v i = Some cr" by simp
    from finish_certificate_outcome [OF finish this] v verify_phase_outcome [OF verify False] show ?thesis
      by (intro exI [of _ checked]) (simp add: certificate_result_def)
  qed
qed

section \<open>Resuming a rotation\<close>

text \<open>Dependents as the scan numbers them: each has an index of its own.\<close>

definition well_indexed :: "pydict list \<Rightarrow> bool" where
  "well_indexed deps \<longleftrightarrow>
     list_all (\<lambda>d. case dependent_index d of Inl _ \<Rightarrow> False | Inr _ \<Rightarrow> True) deps \<and>
     distinct (map dependent_index deps)"

lemma well_indexed_same: "well_indexed deps \<Longrightarrow> d \<in> set deps \<Longrightarrow> e \<in> set deps \<Longrightarrow>
   dependent_index d = dependent_index e \<Longrightarrow> d = e"
  by (auto simp: well_indexed_def distinct_map inj_on_def)

lemma well_indexed_index: "well_indexed deps \<Longrightarrow> d \<in> set deps \<Longrightarrow> \<exists>i. dependent_index d = Inr i"
  by (cases "dependent_index d") (auto simp: well_indexed_def list_all_iff)

lemma merge_well_indexed: "merge_by_index old new = Inr ds \<Longrightarrow> well_indexed ds"
proof -
  assume "merge_by_index old new = Inr ds"
  then obtain "is" where eq: "map dependent_index ds = map Inr is" and "distinct is"
    using merge_by_index_ok(2) by blast
  then have "distinct (map dependent_index ds)" by (simp add: distinct_map inj_on_def)
  moreover have "\<exists>i. dependent_index d = Inr i" if "d \<in> set ds" for d
  proof -
    have "dependent_index d \<in> set (map Inr is)" using that eq [symmetric] by simp
    then show ?thesis by auto
  qed
  ultimately show ?thesis by (fastforce simp: well_indexed_def list_all_iff)
qed

text \<open>A phase that works on the dependents without a result keeps the others.\<close>

lemma redo_keeps:
  assumes "mapc f (filter (\<lambda>d. \<not> p d) deps) w = (Inr new, u)"
    and "\<forall>x s y t. f x s = (Inr y, t) \<longrightarrow> dependent_index y = dependent_index x"
    and "merge_by_index (filter p deps) new = Inr deps'"
    and "well_indexed deps" and "d \<in> set deps" and "p d"
  shows "d \<in> set deps'"
proof -
  obtain i where i: "dependent_index d = Inr i" using well_indexed_index assms(4,5) by blast
  have "dependent_index e \<noteq> Inr i" if "e \<in> set new" for e
  proof
    assume e: "dependent_index e = Inr i"
    from mapc_element [OF assms(1) that] obtain x s t where x: "x \<in> set deps" "\<not> p x" "f x s = (Inr e, t)"
      by auto
    from assms(2) x(3) e i have "dependent_index x = dependent_index d" by metis
    from well_indexed_same [OF assms(4) x(1) assms(5) this] x(2) assms(6) show False by simp
  qed
  moreover have "d \<in> set (filter p deps)" using assms(5,6) by simp
  moreover have "e = d" if "e \<in> set (filter p deps)" "dependent_index e = Inr i" for e
    using well_indexed_same [OF assms(4) _ assms(5)] that i by auto
  ultimately show ?thesis using merge_by_index_keeps [OF assms(3) _ i] by blast
qed

lemma update_dependent_index:
  "\<forall>x s y t. update_dependent ig env rotation x s = (Inr y, t) \<longrightarrow> dependent_index y = dependent_index x"
proof (intro allI impI)
  fix x s y t
  assume "update_dependent ig env rotation x s = (Inr y, t)"
  with update_dependent_returns [of ig env rotation x s] show "dependent_index y = dependent_index x" by auto
qed

lemma verify_dependent_index:
  "\<forall>x s y t. verify_dependent ig env rotation x s = (Inr y, t) \<longrightarrow> dependent_index y = dependent_index x"
proof (intro allI impI)
  fix x s y t
  assume "verify_dependent ig env rotation x s = (Inr y, t)"
  with verify_dependent_returns [of ig env rotation x s] show "dependent_index y = dependent_index x" by auto
qed

lemma update_phase_keeps:
  assumes "update_phase ig env run rotation deps w = (Inr deps', t)" and "well_indexed deps"
  shows "well_indexed deps'" "d \<in> set deps \<Longrightarrow> has_result ''update_result'' d \<Longrightarrow> d \<in> set deps'"
proof -
  have "well_indexed deps' \<and> (d \<in> set deps \<longrightarrow> has_result ''update_result'' d \<longrightarrow> d \<in> set deps')"
  proof (cases "filter (\<lambda>d. \<not> has_result ''update_result'' d) deps = []")
    case False
    with assms(1) obtain new u where
      new: "mapc (update_dependent ig env rotation) (filter (\<lambda>d. \<not> has_result ''update_result'' d) deps) w = (Inr new, u)"
      and merge: "merge_by_index (filter (has_result ''update_result'') deps) new = Inr deps'"
      by (auto simp: update_phase_def Let_def comp_simps split: prod.splits sum.splits)
    show ?thesis using redo_keeps [OF new update_dependent_index merge assms(2)] merge_well_indexed [OF merge] by blast
  qed (use assms in \<open>simp add: update_phase_def\<close>)
  then show "well_indexed deps'" "d \<in> set deps \<Longrightarrow> has_result ''update_result'' d \<Longrightarrow> d \<in> set deps'"
    by blast+
qed

lemma verify_phase_keeps:
  assumes "verify_phase ig env run timeout rotation deps w = (Inr deps', t)" and "well_indexed deps"
    and "d \<in> set deps" and "has_result ''verify_result'' d"
  shows "d \<in> set deps'"
proof (cases "list_all (has_result ''verify_result'') deps")
  case False
  with assms(1) obtain new u where
    new: "mapc (verify_dependent ig env rotation) (filter (\<lambda>d. \<not> has_result ''verify_result'' d) deps) w = (Inr new, u)"
    and merge: "merge_by_index (filter (has_result ''verify_result'') deps) new = Inr deps'"
    by (auto simp: verify_phase_def comp_simps split: prod.splits sum.splits)
  show ?thesis by (rule redo_keeps [OF new verify_dependent_index merge assms(2-4)])
qed (use assms in \<open>simp add: verify_phase_def\<close>)

lemma finish_certificate_dependents:
  "finish_certificate_rotation i run rotation deps w = (Inr r, t) \<Longrightarrow>
   dget r ''dependents'' = Some (PList (map PDict deps)) \<and> dget r ''rotation_result'' = Some rotation"
  by (auto simp: finish_certificate_rotation_def Let_def certificate_result_def comp_simps
      split: prod.splits sum.splits)

lemma rotate_dependents_resumes:
  assumes go: "rotate_dependents ig env cr found stored w = (Inr r, t)"
    and rotation: "truthy (dget_or (case found of None \<Rightarrow> [] | Some r \<Rightarrow> run_result r) ''rotation_result'' PNone)"
    and stored: "well_indexed stored" "\<not> list_all no_snapshot stored"
    and d: "d \<in> set stored" "has_result ''update_result'' d" "has_result ''verify_result'' d"
  shows "\<exists>deps. dget r ''dependents'' = Some (PList (map PDict deps)) \<and> d \<in> set deps \<and>
    dget r ''rotation_result'' =
      Some (dget_or (case found of None \<Rightarrow> [] | Some r \<Rightarrow> run_result r) ''rotation_result'' PNone)"
proof -
  let ?run = "map_option run_id found"
    and ?rotation = "dget_or (case found of None \<Rightarrow> [] | Some r \<Rightarrow> run_result r) ''rotation_result'' PNone"
  from d(1) have "stored \<noteq> []" by auto
  with go stored(2) rotation obtain updated u where
    update: "update_phase ig env ?run ?rotation stored w = (Inr updated, u)"
    and rest: "(if list_ex update_failed updated
       then ret (certificate_result updated ?rotation ''update'' True)
       else bindc (verify_phase ig env ?run (dget_or (cr_desired_outcome cr) ''verify_timeout_seconds'' (PInt 10))
              ?rotation updated) (finish_certificate_rotation (cr_id cr) ?run ?rotation)) u = (Inr r, t)"
    unfolding rotate_dependents_def Let_def
    by (elim bindc_InrE) (simp add: scan_phase_def snapshot_phase_def rotate_phase_def)
  note kept = update_phase_keeps [OF update stored(1)]
  show ?thesis
  proof (cases "list_ex update_failed updated")
    case True
    with rest kept(2) [OF d(1,2)] show ?thesis
      by (intro exI [of _ updated]) (auto simp: certificate_result_def)
  next
    case False
    with rest obtain checked v where
      verify: "verify_phase ig env ?run (dget_or (cr_desired_outcome cr) ''verify_timeout_seconds'' (PInt 10))
        ?rotation updated u = (Inr checked, v)"
      and finish: "finish_certificate_rotation (cr_id cr) ?run ?rotation checked v = (Inr r, t)"
      by (auto elim: bindc_InrE)
    from verify_phase_keeps [OF verify kept(1) kept(2) [OF d(1,2)] d(3)]
      finish_certificate_dependents [OF finish] show ?thesis by blast
  qed
qed

text \<open>A paused certificate rotation resumes with what is left. If the run has issued its
  certificate, holds dependents with indices of their own and at least one snapshot, then a rotation
  that returns keeps the issued certificate and every dependent that was updated and verified,
  unchanged.\<close>

theorem certificate_resume_keeps_settled:
  assumes "execute_certificate_rotation ig env i w = (Inr r, t)"
    and "rotation_run w i = Some run" and "stored_dependents (Some run) = Inr stored"
    and "dget (run_result run) ''rotation_result'' = Some rotation" and "truthy rotation"
    and "well_indexed stored" and "\<not> list_all no_snapshot stored"
    and "d \<in> set stored" and "has_result ''update_result'' d" and "has_result ''verify_result'' d"
  shows "\<exists>deps. dget r ''dependents'' = Some (PList (map PDict deps)) \<and> d \<in> set deps \<and>
    dget r ''rotation_result'' = Some rotation"
proof -
  from assms(1-3) obtain cr where "rotate_dependents ig env cr (Some run) stored w = (Inr r, t)"
    by (auto simp: execute_certificate_rotation_def get_cr_one_def comp_simps split: option.splits)
  from rotate_dependents_resumes [OF this _ assms(6-10)] assms(4,5) show ?thesis
    by (simp add: dget_or_def)
qed

lemma snapshot_dependent_index:
  "yields (\<lambda>y. dependent_index y = dependent_index x) (snapshot_dependent ig env og x)"
  unfolding snapshot_dependent_def snapshot_host_def Let_def
  by (intro yielding) (simp_all add: dependent_index_def dindex_def dget_dput)

lemma number_dependents_indexed: "well_indexed (number_dependents ds)"
proof -
  have index: "dependent_index ((''index'', PInt j) # d) = Inr j" for j d
    by (simp add: dependent_index_def dindex_def)
  have "map dependent_index (number_dependents ds) = map (\<lambda>n. Inr (int n)) [0..<length ds]"
    by (rule nth_equalityI) (simp_all add: number_dependents_def nth_enumerate_eq index)
  then have "distinct (map dependent_index (number_dependents ds))" by (simp add: distinct_map inj_on_def)
  moreover have "list_all (\<lambda>d. case dependent_index d of Inl _ \<Rightarrow> False | Inr _ \<Rightarrow> True) (number_dependents ds)"
    by (auto simp: list_all_iff number_dependents_def index)
  ultimately show ?thesis by (simp add: well_indexed_def)
qed

lemma well_indexed_cong:
  "list_all2 (\<lambda>x y. dependent_index y = dependent_index x) xs ys \<Longrightarrow> well_indexed xs \<Longrightarrow> well_indexed ys"
proof -
  assume rel: "list_all2 (\<lambda>x y. dependent_index y = dependent_index x) xs ys" and xs: "well_indexed xs"
  have eq: "map dependent_index ys = map dependent_index xs"
    using rel by (auto simp: list_all2_conv_all_nth intro: nth_equalityI)
  have all: "list_all (\<lambda>d. case dependent_index d of Inl _ \<Rightarrow> False | Inr _ \<Rightarrow> True) zs =
      list_all (\<lambda>x. case x of Inl _ \<Rightarrow> False | Inr _ \<Rightarrow> True) (map dependent_index zs)" for zs
    by (simp add: list.pred_map comp_def)
  from xs show ?thesis unfolding well_indexed_def all eq .
qed

lemma scan_phase_indexed:
  "scan_phase desired og run deps w = (Inr deps', t) \<Longrightarrow> well_indexed deps \<Longrightarrow> well_indexed deps'"
  by (auto simp: scan_phase_def scan_dependents_def Let_def number_dependents_indexed comp_simps
      split: if_splits prod.splits sum.splits)

lemma snapshot_phase_indexed:
  assumes "snapshot_phase ig env og run rotation deps w = (Inr deps', t)" and "well_indexed deps"
  shows "well_indexed deps'"
proof (cases "deps \<noteq> [] \<and> list_all no_snapshot deps")
  case True
  with assms(1) obtain u where "mapc (snapshot_dependent ig env og) deps w = (Inr deps', u)"
    by (auto simp: snapshot_phase_def comp_simps split: prod.splits sum.splits)
  from mapc_yields [OF this snapshot_dependent_index] assms(2) show ?thesis by (rule well_indexed_cong)
qed (use assms in \<open>auto simp: snapshot_phase_def\<close>)

lemma verify_phase_indexed:
  "verify_phase ig env run timeout rotation deps w = (Inr deps', t) \<Longrightarrow> well_indexed deps \<Longrightarrow> well_indexed deps'"
  by (auto simp: verify_phase_def comp_simps dest: merge_well_indexed
      split: if_splits prod.splits sum.splits)


section \<open>A secret that was written reads back verified\<close>

text \<open>What the last patch of a secret wrote, in a history of calls.\<close>

fun stored_data :: "ext_call list \<Rightarrow> pydict \<Rightarrow> pyval option" where
  "stored_data [] args = None"
| "stored_data (c # cs) args =
     (case stored_data cs args of
        Some v \<Rightarrow> Some v
      | None \<Rightarrow>
          (case c of
             Call_service name a \<Rightarrow>
               if name = ''patch_namespaced_secret'' \<and> a \<noteq> [] \<and> butlast a = args
               then Some (snd (last a)) else None
           | _ \<Rightarrow> None))"

lemma stored_data_append:
  "stored_data (cs @ ds) a = (case stored_data ds a of Some v \<Rightarrow> Some v | None \<Rightarrow> stored_data cs a)"
  by (induction cs) (auto split: option.splits)

lemma load_connector_same:
  "load_connector ig ct cid org w = (x, w) \<Longrightarrow>
   load_connector ig ct cid org (with_calls cs w) = (x, with_calls cs w)"
  by (cases org)
    (auto simp: load_connector_def attach_credentials_def comp_simps with_calls_frame
      split: option.splits sum.splits if_splits)

lemma connector_of_dependent_same:
  assumes "connector_of_dependent ig org dep w = (Inr c, w)"
  shows "connector_of_dependent ig org (dput dep ''update_result'' v) (with_calls cs w) =
    (Inr c, with_calls cs w)"
  using assms
  by (cases "dindex dep ''connector_type''")
    (auto simp: connector_of_dependent_def dget_or_put dindex_def dget_dput comp_simps
      intro: load_connector_same split: option.splits)

lemma stored_pem_of_update: "decode_utf8 cert = Inr cert \<Longrightarrow>
   stored_pem [(''tls.crt'', PStr (b64encode cert)), (''tls.key'', k)] = Inr cert"
  using b64_roundtrip [of cert]
  by (auto simp: stored_pem_def dget_or_def dget_def b64decode_def split: if_splits)

text \<open>A certificate pushed to a Kubernetes secret verifies. On a cluster that answers and reads back
  what was last patched, an update of a secret dependent followed by its verification succeeds: the
  base64 data written and the text read, decoded and compared are inverse to each other.\<close>

theorem k8s_secret_update_verifies:
  assumes "dget dep ''type'' = Some (PStr ''k8s_secret'')" and "dget dep ''name'' = Some n"
    and "connector_of_dependent ig None dep w = (Inr (Some c), w)"
    and "vindex rotation ''cert_pem'' = Inr (PStr cert)" and "vindex rotation ''key_pem'' = Inr (PStr key)"
    and "decode_utf8 cert = Inr cert"
    and "truthy (dget_or (ig_credentials ig (connector_id c)) ''kubeconfig'' PNone)"
    and "\<And>cs a. \<exists>r. env cs (Call_service ''load_kube_config'' a) = Inr r"
    and "\<And>cs a. \<exists>r. env cs (Call_service ''patch_namespaced_secret'' a) = Inr r"
    and "\<And>cs a v. stored_data cs a = Some v \<Longrightarrow>
      env cs (Call_service ''read_namespaced_secret'' a) = Inr [(''data'', v)]"
  shows "\<exists>d t d' t'. update_dependent ig env rotation dep w = (Inr d, t) \<and>
    verify_dependent ig env rotation d t = (Inr d', t') \<and> verified d'"
proof -
  let ?args = "[(''name'', n), (''namespace'', dget_or dep ''namespace'' (PStr ''default''))]"
    and ?data = "PDict [(''tls.crt'', PStr (b64encode cert)), (''tls.key'', PStr (b64encode key))]"
    and ?client = "Call_service ''load_kube_config''
      [(''config_dict'', kubeconfig_yaml (dget_or (ig_credentials ig (connector_id c)) ''kubeconfig'' (PStr []))),
       (''context'', PNone)]"
    and ?d = "dput dep ''update_result'' (PDict [(''success'', PBool True)])"
  let ?patch = "Call_service ''patch_namespaced_secret'' (?args @ [(''data'', ?data)])"
  let ?t = "with_calls [?client, ?patch] w"
  have config: "dget_or (ig_credentials ig (connector_id c)) ''kubeconfig'' (PStr []) =
      dget_or (ig_credentials ig (connector_id c)) ''kubeconfig'' PNone"
    using assms(7) by (auto simp: dget_or_def split: option.splits)
  have client: "get_k8s_client ig env (Some c) u = (Inr True, with_calls [?client] u)" for u
    using assms(7) assms(8) [of "w_calls u" "[(''config_dict'', kubeconfig_yaml (dget_or (ig_credentials ig (connector_id c)) ''kubeconfig'' PNone)),
       (''context'', PNone)]"]
    by (auto simp: get_k8s_client_def get_k8s_clients_def config call_apply comp_simps)
  have args: "secret_args dep = Inr ?args" "secret_args ?d = Inr ?args"
    using assms(2) by (simp_all add: secret_args_def dindex_def dget_dput dget_or_put)
  have data: "tls_data rotation = Inr ?data"
    using assms(4,5) by (simp add: tls_data_def encode_of_def)
  obtain r where patch: "env (w_calls (with_calls [?client] w)) ?patch = Inr r" using assms(9) by blast
  have "patch_secret env dep ?data (with_calls [?client] w) = (Inr (), ?t)"
    using patch by (simp add: patch_secret_def args call_apply comp_simps)
  then have update: "update_dependent ig env rotation dep w = (Inr ?d, ?t)"
    using assms(1,3) by (simp add: update_dependent_def push_certificate_def dindex_def client data comp_simps)
  have "stored_data (w_calls (with_calls [?client] ?t)) ?args = Some ?data"
    by (simp add: with_calls_def stored_data_append)
  from assms(10) [OF this] obtain u where read: "read_secret env ?d (with_calls [?client] ?t) =
      (Inr [(''tls.crt'', PStr (b64encode cert)), (''tls.key'', PStr (b64encode key))], u)"
    by (simp add: read_secret_def args call_apply comp_simps por_def dget_or_def dget_def)
  have holds: "holds_certificate rotation (PStr cert) = Inr True"
    using assms(4) by (simp add: holds_certificate_def strip_of_def)
  have conn: "connector_of_dependent ig None ?d ?t = (Inr (Some c), ?t)"
    by (rule connector_of_dependent_same [OF assms(3)])
  have "verify_k8s ig env rotation ?d ?t = (Inr (verify_result True PNone PNone), u)"
    unfolding verify_k8s_def bindc_apply [of "connector_of_dependent ig None ?d"] conn
    using read client [of ?t] stored_pem_of_update [OF assms(6)] holds by (simp add: bindc_apply)
  then have "verify_dependent ig env rotation ?d ?t =
      (Inr (dput ?d ''verify_result'' (PDict (verify_result True PNone PNone))), u)"
    using assms(1) by (simp add: verify_dependent_def dindex_def dget_dput comp_simps)
  moreover have "verified (dput ?d ''verify_result'' (PDict (verify_result True PNone PNone)))"
    by (simp add: verified_def result_on_def dget_or_put verify_result_def)
  ultimately show ?thesis using update by blast
qed

section \<open>The connector a certificate is pushed with\<close>

text \<open>A dependent without a recorded connector is updated with the connector of any organization.
  The new certificate of an AWS secret goes through the first connector of that type in the whole table,
  whoever owns it.\<close>

theorem certificate_push_ignores_organization:
  assumes "dget dep ''type'' = Some (PStr ''aws_secret'')" and "dget dep ''secret_id'' = Some sid"
    and "dget dep ''connector_type'' = Some (PStr ''aws'')" and "\<not> truthy (dget_or dep ''connector_id'' PNone)"
    and "List.find (\<lambda>c. connector_type c = ''aws'') (w_connectors w) = Some c"
    and "ig_unreadable ig (connector_id c) = None" and "vindex rotation ''cert_pem'' = Inr cert"
    and "get_executor (ig_modules ig) (ig_catalog ig) ''aws'' ''rotate_secrets_manager_secret'' = Inr m"
    and "em_has_execute m"
  shows "w_calls (snd (update_dependent ig env rotation dep w)) = w_calls w @
    [Call_execute ''aws'' ''rotate_secrets_manager_secret'' [(''secret_id'', sid), (''new_value'', cert)] []
       (Some (connector_id c))]"
proof -
  have "connector_of_dependent ig None dep w = (Inr (Some c), w)"
    using assms(3-6) by (simp add: connector_of_dependent_def load_connector_def attach_credentials_def
        dindex_def connector_type_of_def connector_types_def comp_simps)
  then show ?thesis
    using assms(1,2,7-9)
    by (simp add: update_dependent_def push_certificate_def execute_module_def dindex_def call_apply comp_simps
        with_calls_def split: sum.splits)
qed

section \<open>The rollback goes from the last dependent to the first\<close>

lemma indexed_zip: "map dependent_index deps = map Inr is \<Longrightarrow> indexed deps = Inr (zip is deps)"
  by (induction deps arbitrary: "is") (auto simp: Cons_eq_map_conv)

lemma sort_down: "map fst (sort_key (\<lambda>(i, _). - i) (xs :: (int \<times> 'a) list)) = rev (sort (map fst xs))"
proof -
  let ?L = "sort_key (\<lambda>(i, _). - i) xs"
  have "sorted (map (\<lambda>(i, _). - i) ?L)" by (rule sorted_sort_key)
  then have "sorted (rev (map fst ?L))"
    by (simp add: sorted_wrt_rev sorted_wrt_map case_prod_beta)
  moreover have "mset ?L = mset xs" by simp
  then have "mset (rev (map fst ?L)) = mset (map fst xs)" by (metis mset_map mset_rev)
  ultimately have "sort (map fst xs) = rev (map fst ?L)" by (intro properties_for_sort) simp_all
  then show ?thesis by simp
qed

lemma caught_value: "\<exists>x t. catchc m (\<lambda>e. ret (h e)) w = (Inr x, t)"
proof -
  obtain z u where "m w = (z, u)" by fastforce
  then show ?thesis by (cases z) (simp_all add: comp_simps)
qed

lemma rollback_dependent_returns:
  assumes "dependent_index dep = Inr i"
  shows "\<exists>s t. rollback_dependent ig env desired og strategy dep w = (Inr s, t)"
  unfolding rollback_dependent_def assms bindc_of_Inr Let_def
  by (rule caught_value)

lemma rollback_dependent_yields:
  assumes "dependent_index dep = Inr i"
  shows "yields (\<lambda>s. dget s ''index'' = Some (PInt i)) (rollback_dependent ig env desired og strategy dep)"
  unfolding rollback_dependent_def assms bindc_of_Inr restore_dependent_def restore_host_def restore_k8s_def Let_def
  by (intro yielding)
    (simp_all add: initial_step_def step_error_def step_done_def with_reissue_def Let_def dget_dput)

lemma any_restorable_returns:
  "list_all (\<lambda>d. dget d ''type'' \<noteq> None) deps \<Longrightarrow> \<exists>b. any_restorable ig now deps = Inr b"
  by (induction deps) (auto simp: dindex_def split: option.splits)

text \<open>The rollback of a certificate rotation visits every dependent, from the last index to the
  first, and always answers. For dependents that have a type and an index, it returns one step for
  each, in descending order of the indices, whatever the authorities, executors and clusters answer or
  raise; it warns exactly if a step is not rolled back, and touches no change request.\<close>

theorem certificate_rollback_descends:
  assumes "get_cr w i = Some cr"
    and "dget result ''dependents'' = Some (PList (map PDict deps))"
    and "list_all (\<lambda>d. dget d ''type'' \<noteq> None) deps"
    and "map dependent_index deps = map Inr is"
  shows "\<exists>r t steps. execute_certificate_rollback ig env i result w = (Inr r, t) \<and>
    dget r ''rollback_steps'' = Some (PList (map PDict steps)) \<and>
    map (\<lambda>s. dget s ''index'') steps = map (\<lambda>j. Some (PInt j)) (rev (sort is)) \<and>
    dget r ''has_warnings'' =
      Some (PBool (list_ex (\<lambda>s. \<not> truthy (dget_or s ''rolled_back'' PNone)) steps)) \<and>
    get_cr t = get_cr w"
proof -
  obtain b where "any_restorable ig (w_clock w) deps = Inr b"
    using any_restorable_returns [OF assms(3)] by blast
  then obtain strategy where strategy:
      "rollback_strategy ig (w_clock w) (cr_desired_outcome cr) deps = Inr strategy"
    by (cases "dget_or (cr_desired_outcome cr) ''trigger_reason'' (PStr ''scheduled'') = PStr ''compromise''")
      (simp_all add: rollback_strategy_def)
  let ?L = "from_last (zip is deps)"
    and ?f = "rollback_dependent ig env (cr_desired_outcome cr) (cr_organization_id cr) strategy"
  have L: "\<exists>i. dependent_index d = Inr i" if "d \<in> set ?L" for d
  proof -
    from that have "d \<in> set deps" by (auto simp: from_last_def dest: set_zip_rightD)
    then have "dependent_index d \<in> set (map Inr is)" using assms(4) [symmetric] by simp
    then show ?thesis by auto
  qed
  obtain steps u where steps: "mapc ?f ?L w = (Inr steps, u)"
    using always_returns_mapc [of ?L ?f] rollback_dependent_returns L
    unfolding always_returns_def by metis
  have "list_all2 (\<lambda>d s. \<forall>i. dependent_index d = Inr i \<longrightarrow> dget s ''index'' = Some (PInt i)) ?L steps"
  proof (rule mapc_yields [OF steps])
    fix d assume "d \<in> set ?L"
    with L obtain i where "dependent_index d = Inr i" by blast
    with rollback_dependent_yields [OF this] show "yields (\<lambda>s. \<forall>i. dependent_index d = Inr i \<longrightarrow>
        dget s ''index'' = Some (PInt i)) (?f d)"
      by simp
  qed
  then have indices: "map (\<lambda>s. dget s ''index'') steps =
      map (\<lambda>d. case dependent_index d of Inr i \<Rightarrow> Some (PInt i) | Inl _ \<Rightarrow> None) ?L"
    using L by (auto simp: list_all2_conv_all_nth list_eq_iff_nth_eq) (metis nth_mem sum.simps(6))
  have "map dependent_index ?L = map Inr (rev (sort is))"
  proof -
    have "length is = length deps" using map_eq_imp_length_eq [OF assms(4)] by simp
    then have "map fst (sort_key (\<lambda>(i, _). - i) (zip is deps)) = rev (sort is)"
      by (simp add: sort_down)
    moreover have "dependent_index (snd p) = Inr (fst p)" if "p \<in> set (zip is deps)" for p
      using that assms(4) by (auto simp: set_zip list_eq_iff_nth_eq)
    ultimately show ?thesis by (simp add: from_last_def flip: \<open>_ = rev (sort is)\<close>)
  qed
  note sorted = this
  let ?index = "\<lambda>x :: exn + int. case x of Inr i \<Rightarrow> Some (PInt i) | Inl _ \<Rightarrow> None"
  have "map (\<lambda>s. dget s ''index'') steps = map ?index (map dependent_index ?L)"
    by (simp add: indices)
  then have "map (\<lambda>s. dget s ''index'') steps = map (\<lambda>j. Some (PInt j)) (rev (sort is))"
    unfolding sorted by simp
  moreover have "as_dicts (map PDict deps) = Inr deps" by simp
  then have run: "execute_certificate_rollback ig env i result w =
    (Inr [(''rollback_steps'', PList (map PDict steps)),
          (''all_rolled_back'', PBool (list_all (\<lambda>s. truthy (dget_or s ''rolled_back'' PNone)) steps)),
          (''has_warnings'', PBool (\<not> list_all (\<lambda>s. truthy (dget_or s ''rolled_back'' PNone)) steps)),
          (''rollback_strategy'', PStr strategy)], u)"
    using assms(1,2) strategy steps
    by (simp add: execute_certificate_rollback_def get_cr_one_def indexed_zip [OF assms(4)] dget_or_def
        comp_simps Let_def)
  moreover have "get_cr u = get_cr w"
    using frame_returns [OF frame_certificate_rollback run] .
  ultimately show ?thesis
    by (intro exI [of _ u] exI [of _ steps] exI, intro conjI) (assumption | simp add: list_ex_iff list_all_iff)+
qed

section \<open>Examples\<close>

text \<open>A cluster that keeps what is patched, and an authority that issues certificates.\<close>

definition certificate_env :: env where
  "certificate_env cs c =
     (case c of
        Call_service name a \<Rightarrow>
          if name = ''read_namespaced_secret''
          then Inr [(''data'', case stored_data cs a of None \<Rightarrow> PNone | Some v \<Rightarrow> v)]
          else if name = ''issue_certificate'' then Inr [(''cert'', PStr ''PEM''), (''key'', PStr ''KEY'')]
          else Inr []
      | _ \<Rightarrow> Inr [])"

definition example_connector :: "uuid \<Rightarrow> uuid \<Rightarrow> string \<Rightarrow> connector" where
  "example_connector i og ct =
     \<lparr>connector_id = i, connector_organization_id = og, connector_type = ct, connector_created_at = 0\<rparr>"

definition secret_asset :: "uuid \<Rightarrow> asset" where
  "secret_asset i = example_asset\<lparr>asset_id := i, asset_name := ''tls'', asset_type := ''k8s_secret'',
     asset_metadata := [(''cert_subject'', PStr ''Svc'')]\<rparr>"

definition certificate_cr :: change_request where
  "certificate_cr = example_cr\<lparr>cr_change_type := ''certificate_rotation'',
     cr_desired_outcome := [(''subject'', PStr ''svc'')], cr_status := CRS_executing\<rparr>"

definition certificate_run :: "pydict list \<Rightarrow> execution_run" where
  "certificate_run deps =
     (new_run ''r-1'' ''cr-1'' ''wf-cr-1'' ES_running 0)\<lparr>run_result := phase_state ''update'' deps (PDict
        [(''subject'', PStr ''svc''), (''fingerprint'', PStr ''PEM''), (''cert_pem'', PStr ''PEM''),
         (''key_pem'', PStr ''KEY''), (''issued_at'', PInt 0)])\<rparr>"

definition certificate_world :: "execution_run list \<Rightarrow> world" where
  "certificate_world runs = (example_world [certificate_cr])\<lparr>w_runs := runs,
     w_assets := [secret_asset ''s-1'', secret_asset ''s-2''],
     w_connectors := [example_connector ''k-1'' ''org'' ''kubernetes'', example_connector ''ca'' ''org'' ''step_ca'']\<rparr>"

lemma certificate_example:
  "case fst (execute_certificate_rotation example_integration certificate_env ''cr-1'' (certificate_world [])) of
     Inr r \<Rightarrow> dget r ''paused'' = Some (PBool False) | Inl _ \<Rightarrow> False"
  by code_simp

theorem certificate_completes_only_verified_witness:
  "\<exists>r t deps. execute_certificate_rotation example_integration certificate_env ''cr-1'' (certificate_world []) =
       (Inr r, t) \<and> dget r ''dependents'' = Some (PList (map PDict deps)) \<and>
     \<not> list_ex (\<lambda>d. \<not> verified d) deps \<and> map_option cr_status (get_cr t ''cr-1'') = Some CRS_completed"
proof -
  obtain r t where run: "execute_certificate_rotation example_integration certificate_env ''cr-1''
      (certificate_world []) = (Inr r, t)" and "dget r ''paused'' = Some (PBool False)"
    using certificate_example by (auto simp: prod_eq_iff split: sum.splits)
  with certificate_completes_only_verified [OF run] show ?thesis by (auto split: if_splits)
qed

definition settled_dependent :: pydict where
  "settled_dependent = dput (dput (dput (hd (number_dependents [k8s_dependent (secret_asset ''s-1'')]))
     ''snapshot'' (PDict [(''tls.crt'', PStr ''T0xE'')])) ''update_result'' (PDict [(''success'', PBool True)]))
     ''verify_result'' (PDict [(''success'', PBool True)])"

definition half_rotated :: "pydict list" where
  "half_rotated = [settled_dependent, last (number_dependents
     [k8s_dependent (secret_asset ''s-1''), k8s_dependent (secret_asset ''s-2'')])]"

lemma half_rotated_example:
  "case fst (execute_certificate_rotation example_integration certificate_env ''cr-1''
       (certificate_world [certificate_run half_rotated])) of
     Inr r \<Rightarrow> dget r ''paused'' = Some (PBool False) | Inl _ \<Rightarrow> False"
  "well_indexed half_rotated" "\<not> list_all no_snapshot half_rotated"
  "has_result ''update_result'' settled_dependent" "has_result ''verify_result'' settled_dependent"
  "case rotation_run (certificate_world [certificate_run half_rotated]) ''cr-1'' of
     None \<Rightarrow> False | Some r \<Rightarrow> run_id r = ''r-1''"
  by code_simp+

theorem certificate_resume_keeps_settled_witness:
  "\<exists>r t deps. execute_certificate_rotation example_integration certificate_env ''cr-1''
       (certificate_world [certificate_run half_rotated]) = (Inr r, t) \<and>
     dget r ''dependents'' = Some (PList (map PDict deps)) \<and> settled_dependent \<in> set deps"
proof -
  let ?w = "certificate_world [certificate_run half_rotated]"
  obtain r t where run: "execute_certificate_rotation example_integration certificate_env ''cr-1'' ?w = (Inr r, t)"
    using half_rotated_example(1) by (auto simp: prod_eq_iff split: sum.splits)
  have found: "rotation_run ?w ''cr-1'' = Some (certificate_run half_rotated)"
    by (simp add: rotation_run_def runs_of_def certificate_world_def certificate_run_def new_run_def)
  obtain rotation where rotation: "dget (run_result (certificate_run half_rotated)) ''rotation_result'' = Some rotation"
    and "truthy rotation"
    by (simp add: certificate_run_def phase_state_def)
  moreover have "stored_dependents (Some (certificate_run half_rotated)) = Inr half_rotated"
    by (simp add: stored_dependents_def certificate_run_def phase_state_def half_rotated_def dget_or_def por_def)
  moreover have "settled_dependent \<in> set half_rotated" by (simp add: half_rotated_def)
  ultimately show ?thesis
    using certificate_resume_keeps_settled [OF run found] half_rotated_example(2-5) run by blast
qed

lemma certificate_env_laws:
  "\<exists>r. certificate_env cs (Call_service ''load_kube_config'' a) = Inr r"
  "\<exists>r. certificate_env cs (Call_service ''patch_namespaced_secret'' a) = Inr r"
  "stored_data cs a = Some v \<Longrightarrow>
     certificate_env cs (Call_service ''read_namespaced_secret'' a) = Inr [(''data'', v)]"
  by (simp_all add: certificate_env_def)

theorem k8s_secret_update_verifies_witness:
  "\<exists>d t d' t'. update_dependent example_integration certificate_env
       (PDict [(''cert_pem'', PStr ''PEM''), (''key_pem'', PStr ''KEY'')])
       (k8s_dependent (secret_asset ''s-1'')) (certificate_world []) = (Inr d, t) \<and>
     verify_dependent example_integration certificate_env
       (PDict [(''cert_pem'', PStr ''PEM''), (''key_pem'', PStr ''KEY'')]) d t = (Inr d', t') \<and> verified d'"
proof (rule k8s_secret_update_verifies [where n = "PStr ''tls''" and cert = "''PEM''" and key = "''KEY''"])
  show "connector_of_dependent example_integration None (k8s_dependent (secret_asset ''s-1''))
      (certificate_world []) = (Inr (Some (example_connector ''k-1'' ''org'' ''kubernetes'')), certificate_world [])"
    by (simp add: connector_of_dependent_def load_connector_def attach_credentials_def dindex_def k8s_dependent_def
        dependent_tail_def secret_asset_def example_asset_def certificate_world_def example_connector_def
        connector_type_of_def connector_types_def example_integration_def dget_or_def comp_simps)
qed (rule certificate_env_laws
    | simp add: k8s_dependent_def secret_asset_def vindex_def dindex_def decode_utf8_def certificate_env_laws(3) example_integration_def)+

definition secret_integration :: integration where
  "secret_integration = example_integration\<lparr>ig_catalog := example_catalog\<lparr>cat_actions :=
     [(''aws'', [example_action ''rotate_secrets_manager_secret'' 1])]\<rparr>\<rparr>"

theorem certificate_push_ignores_organization_witness:
  "connector_organization_id (example_connector ''x-1'' ''other'' ''aws'') = ''other'' \<and>
     w_calls (snd (update_dependent secret_integration certificate_env
       (PDict [(''cert_pem'', PStr ''PEM'')])
       (aws_dependent (secret_asset ''s-1''))
       ((certificate_world [])\<lparr>w_connectors := [example_connector ''x-1'' ''other'' ''aws'']\<rparr>))) =
     [Call_execute ''aws'' ''rotate_secrets_manager_secret'' [(''secret_id'', PStr ''tls''),
        (''new_value'', PStr ''PEM'')] [] (Some ''x-1'')]"
proof -
  let ?c = "example_connector ''x-1'' ''other'' ''aws''"
  let ?w = "(certificate_world [])\<lparr>w_connectors := [?c]\<rparr>"
  have "case get_executor (ig_modules secret_integration) (ig_catalog secret_integration) ''aws''
      ''rotate_secrets_manager_secret'' of Inr m \<Rightarrow> em_has_execute m | Inl _ \<Rightarrow> False"
    by code_simp
  then obtain m where m: "get_executor (ig_modules secret_integration) (ig_catalog secret_integration) ''aws''
      ''rotate_secrets_manager_secret'' = Inr m" "em_has_execute m" by (auto split: sum.splits)
  have "w_calls (snd (update_dependent secret_integration certificate_env (PDict [(''cert_pem'', PStr ''PEM'')])
      (aws_dependent (secret_asset ''s-1'')) ?w)) = w_calls ?w @
    [Call_execute ''aws'' ''rotate_secrets_manager_secret'' [(''secret_id'', PStr ''tls''),
        (''new_value'', PStr ''PEM'')] [] (Some (connector_id ?c))]"
    by (rule certificate_push_ignores_organization [OF _ _ _ _ _ _ _ m])
      (simp_all add: aws_dependent_def dependent_tail_def secret_asset_def example_asset_def
        example_connector_def vindex_def dindex_def dget_or_def secret_integration_def example_integration_def)
  moreover have "w_calls ?w = []" by (simp add: certificate_world_def example_world_def)
  moreover have "connector_id ?c = ''x-1''" "connector_organization_id ?c = ''other''"
    by (simp_all add: example_connector_def)
  ultimately show ?thesis by (simp only: append_Nil)
qed

theorem certificate_rollback_descends_witness:
  "\<exists>r t steps. execute_certificate_rollback example_integration certificate_env ''cr-1''
       [(''dependents'', PList (map PDict half_rotated))] (certificate_world []) = (Inr r, t) \<and>
     dget r ''rollback_steps'' = Some (PList (map PDict steps)) \<and>
     map (\<lambda>s. dget s ''index'') steps = [Some (PInt 1), Some (PInt 0)]"
proof -
  have cr: "get_cr (certificate_world []) ''cr-1'' = Some certificate_cr"
    by (simp add: certificate_world_def example_world_def get_cr_def lookup_row_def certificate_cr_def
        example_cr_def)
  have deps: "list_all (\<lambda>d. dget d ''type'' \<noteq> None) half_rotated"
    "map dependent_index half_rotated = map Inr [0, 1]"
    by code_simp+
  have sorted: "map (\<lambda>j. Some (PInt j)) (rev (sort [0, 1])) = [Some (PInt 1), Some (PInt 0)]" by simp
  have d: "dget [(''dependents'', PList (map PDict half_rotated))] ''dependents'' =
      Some (PList (map PDict half_rotated))" by simp
  from certificate_rollback_descends [OF cr d deps, of example_integration certificate_env]
  show ?thesis unfolding sorted
    by (elim exE conjE) (intro exI conjI, assumption+)
qed


end
