(* ===== verification/KubeUpgrade.thy ===== *)
theory KubeUpgrade
  imports KubePreflight CertRotation
begin

text \<open>
  Cluster upgrades (\<open>services/k8s_cluster_upgrade_executor.py\<close>): checks, the control plane of the
  provider, the nodes one at a time (cordon, disruption budgets, drain, wait, uncordon), verification;
  and the rollback, which uncordons the node at which an upgrade paused. The clients of the clusters and
  of the cloud providers are calls to the environment; sleeping between polls is left out, and the
  bounds of the poll loops are the ones of the code.
\<close>

section \<open>Results\<close>

definition rollback_note :: string where
  "rollback_note = ''Control plane upgrade is irreversible. Node pools can be restored to prior image version via FILO rollback.''"

definition build_initial_result :: "string \<Rightarrow> string \<Rightarrow> string \<Rightarrow> pyval \<Rightarrow> pyval \<Rightarrow> pydict" where
  "build_initial_result current target provider cluster_name cluster_id =
     [(''current_version'', PStr current), (''target_version'', PStr target), (''provider'', PStr provider),
      (''cluster_name'', cluster_name), (''cluster_id'', cluster_id), (''phase'', PStr ''preflight''),
      (''preflight'', PDict [(''version_valid'', PBool False), (''deprecated_apis'', PList []),
         (''headroom_ok'', PBool True), (''headroom_detail'', PDict [])]),
      (''control_plane'', PNone), (''node_pools'', PList []), (''verify'', PNone),
      (''rollback_capability'', PStr ''partial''), (''rollback_note'', PStr rollback_note)]"

definition preflight_dict :: "preflight_result \<Rightarrow> pydict" where
  "preflight_dict pf =
     [(''version_valid'', PBool (pf_version_valid pf)), (''deprecated_apis'', PList (pf_deprecated_apis pf)),
      (''headroom_ok'', PBool (pf_headroom_ok pf)), (''headroom_detail'', PDict [])] @
     (case pf_version_error pf of None \<Rightarrow> [] | Some e \<Rightarrow> [(''version_error'', PStr e)])"

definition phase_result :: "int \<Rightarrow> string option \<Rightarrow> pydict prog" where
  "phase_result since err =
     bindc (gets w_clock) (\<lambda>now.
       ret [(''started_at'', PInt since), (''completed_at'', PInt now),
            (''result'', PStr (if err = None then ''success'' else ''failed'')),
            (''error'', case err of None \<Rightarrow> PNone | Some e \<Rightarrow> PStr e)])"

section \<open>Control plane\<close>

text \<open>Poll a call at most \<open>n\<close> times until an answer decides.\<close>

fun poll :: "env \<Rightarrow> ext_call \<Rightarrow> (pydict \<Rightarrow> exn + string option option) \<Rightarrow> string \<Rightarrow> nat \<Rightarrow> string option prog" where
  "poll env c decided expired 0 = ret (Some expired)"
| "poll env c decided expired (Suc n) =
     bindc (call env c) (\<lambda>r.
     bindc (of_sum (decided r)) (\<lambda>d.
       case d of Some res \<Rightarrow> ret res | None \<Rightarrow> poll env c decided expired n))"

definition eks_decides :: "string \<Rightarrow> pydict \<Rightarrow> exn + string option option" where
  "eks_decides target desc =
     (case vindex (PDict desc) ''cluster'' of
        Inl e \<Rightarrow> Inl e
      | Inr cl \<Rightarrow>
          (case vindex cl ''status'' of
             Inl e \<Rightarrow> Inl e
           | Inr st \<Rightarrow>
               if st = PStr ''ACTIVE'' then
                 (case vindex cl ''version'' of
                    Inl e \<Rightarrow> Inl e | Inr v \<Rightarrow> Inr (if v = PStr target then Some None else None))
               else if st = PStr ''FAILED'' then Inr (Some (Some ''EKS cluster status FAILED''))
               else Inr None))"

text \<open>A failure of a call fails the phase.\<close>

definition guarded_phase :: "string option prog \<Rightarrow> pydict prog" where
  "guarded_phase m =
     bindc (gets w_clock) (\<lambda>since.
     bindc (catchc m (\<lambda>e. ret (Some (exn_text e)))) (phase_result since))"

definition upgrade_control_plane_eks :: "env \<Rightarrow> pyval \<Rightarrow> string \<Rightarrow> pydict prog" where
  "upgrade_control_plane_eks env cluster target =
     guarded_phase
       (bindc (call env (Call_service ''update_cluster_version''
           [(''name'', cluster), (''version'', PStr target)])) (\<lambda>_.
          poll env (Call_service ''describe_cluster'' [(''name'', cluster)]) (eks_decides target)
            ''Timeout waiting for EKS control plane upgrade (30 min)'' 60))"

definition gke_decides :: "pydict \<Rightarrow> exn + string option option" where
  "gke_decides op_latest =
     Inr (if dget op_latest ''status'' \<noteq> Some (PStr ''DONE'') then None
          else if truthy (dget_or op_latest ''error_code'' PNone)
          then Some (Some (text_of (dget_or op_latest ''error_message'' PNone)))
          else Some None)"

definition gke_cluster_path :: "pydict \<Rightarrow> pydict \<Rightarrow> pyval \<Rightarrow> string" where
  "gke_cluster_path creds sa_info cluster =
     ''projects/'' @ text_of (dget_or creds ''project_id'' (dget_or sa_info ''project_id'' (PStr []))) @
     ''/locations/'' @ text_of (dget_or creds ''location'' (PStr ''us-central1'')) @
     ''/clusters/'' @ text_of cluster"

definition upgrade_control_plane_gke :: "env \<Rightarrow> pyval \<Rightarrow> string \<Rightarrow> pydict \<Rightarrow> pydict prog" where
  "upgrade_control_plane_gke env cluster target creds =
     guarded_phase
       (bindc (of_sum (as_dict (dget_or creds ''service_account_json'' (PDict [])))) (\<lambda>sa_info.
        bindc (call env (Call_service ''gke_update_cluster''
           [(''name'', PStr (gke_cluster_path creds sa_info cluster)),
            (''desired_master_version'', PStr target)])) (\<lambda>op.
          poll env (Call_service ''get_operation'' [(''name'', dget_or op ''name'' PNone)]) gke_decides
            ''Timeout waiting for GKE control plane upgrade (30 min)'' 60)))"

definition kubeadm_command :: "nat \<Rightarrow> string \<Rightarrow> string" where
  "kubeadm_command i target =
     (if i = 0 then ''kubeadm upgrade apply v'' @ target @ '' --yes --force'' else ''kubeadm upgrade node'')"

text \<open>A kind cluster is driven through its container; on any other cluster the command is only logged.\<close>

fun upgrade_control_plane_nodes :: "env \<Rightarrow> pydict \<Rightarrow> string \<Rightarrow> nat \<Rightarrow> pydict list \<Rightarrow> string option prog" where
  "upgrade_control_plane_nodes env creds target i [] = ret None"
| "upgrade_control_plane_nodes env creds target i (node # nodes) =
     (if truthy (dget_or creds ''kind_cluster_name'' PNone) then
        bindc (call env (Call_service ''docker_exec''
            [(''container'', PStr (text_of (dget_or creds ''kind_cluster_name'' PNone) @ ''-control-plane'')),
             (''command'', PStr (kubeadm_command i target))])) (\<lambda>proc.
          if dget_or proc ''returncode'' PNone \<noteq> PInt 0
          then ret (Some (take 500 (text_of (dget_or proc ''stderr'' PNone))))
          else upgrade_control_plane_nodes env creds target (i + 1) nodes)
      else upgrade_control_plane_nodes env creds target (i + 1) nodes)"

definition upgrade_control_plane_self_hosted :: "env \<Rightarrow> string \<Rightarrow> pydict \<Rightarrow> pydict prog" where
  "upgrade_control_plane_self_hosted env target creds =
     guarded_phase
       (bindc (list_node env [(''label_selector'', PStr ''node-role.kubernetes.io/control-plane'')]) (\<lambda>nodes.
          if nodes = [] then ret (Some ''No control plane nodes found'')
          else upgrade_control_plane_nodes env creds target 0 nodes))"

definition run_control_plane_phase ::
  "env \<Rightarrow> string \<Rightarrow> pyval \<Rightarrow> string \<Rightarrow> pydict \<Rightarrow> pydict prog" where
  "run_control_plane_phase env provider cluster target creds =
     (if provider = ''eks'' then upgrade_control_plane_eks env cluster target
      else if provider = ''gke'' then upgrade_control_plane_gke env cluster target creds
      else if provider = ''self_hosted'' then upgrade_control_plane_self_hosted env target creds
      else bindc (gets w_clock) (\<lambda>now.
             phase_result now (Some (''Control plane upgrade not yet implemented for provider: '' @ provider))))"

section \<open>Nodes\<close>

definition patch_node :: "env \<Rightarrow> string \<Rightarrow> bool \<Rightarrow> pydict prog" where
  "patch_node env node unschedulable =
     call env (Call_service ''patch_node''
       [(''name'', PStr node), (''unschedulable'', PBool unschedulable)])"

definition blocks_disruption :: "pydict \<Rightarrow> bool" where
  "blocks_disruption p \<longleftrightarrow>
     por (dget_or p ''disruptions_allowed'' PNone) (PInt 0) \<in> {PInt 0, PBool False}"

definition budget_name :: "pydict \<Rightarrow> pyval" where
  "budget_name p =
     PStr (text_of (dget_or p ''namespace'' PNone) @ ''/'' @ text_of (dget_or p ''name'' PNone))"

text \<open>The disruption budgets that allow no disruption; a failure of the check is only logged.\<close>

definition pdb_violations :: "env \<Rightarrow> pyval list prog" where
  "pdb_violations env =
     catchc
       (bindc (call env (Call_service ''list_pod_disruption_budgets'' [])) (\<lambda>r.
        bindc (of_sum (items_of r)) (\<lambda>ps. ret (map budget_name (filter blocks_disruption ps)))))
       (\<lambda>_. ret [])"

text \<open>No client has the attribute that would name its configuration, so the drain is always given the
  file of the smoke tests.\<close>

definition drain_args :: "string \<Rightarrow> int \<Rightarrow> pydict" where
  "drain_args node timeout =
     [(''node'', PStr node), (''timeout'', PInt timeout),
      (''kubeconfig'', PStr ''/tmp/smoke-k8s-kubeconfig.yaml'')]"

text \<open>Drain a node: nothing, or the error.\<close>

definition drain_node :: "env \<Rightarrow> string \<Rightarrow> int \<Rightarrow> string option prog" where
  "drain_node env node timeout =
     catchc
       (bindc (call env (Call_service ''kubectl_drain'' (drain_args node timeout)))
          (\<lambda>proc. ret (if dget_or proc ''returncode'' PNone = PInt 0 then None
                       else Some (take 300 (text_of (dget_or proc ''stderr'' PNone))))))
       (\<lambda>e. ret (Some (exn_text e)))"

definition at_version :: "string \<Rightarrow> pydict \<Rightarrow> bool" where
  "at_version target node \<longleftrightarrow>
     starts_with (lstrip_v (text_of (dget_or node ''kubelet_version'' PNone))) (lstrip_v target)"

text \<open>At most sixty looks at the node; running out of them is no error.\<close>

fun wait_ready :: "env \<Rightarrow> string \<Rightarrow> string \<Rightarrow> nat \<Rightarrow> unit prog" where
  "wait_ready env node target 0 = ret ()"
| "wait_ready env node target (Suc n) =
     bindc (catchc (bindc (call env (Call_service ''read_node'' [(''name'', PStr node)]))
                      (\<lambda>d. ret (is_ready d \<and> at_version target d)))
              (\<lambda>_. ret False)) (\<lambda>ok.
       if ok then ret () else wait_ready env node target n)"

definition best_effort :: "pydict prog \<Rightarrow> unit prog" where
  "best_effort m = catchc (bindc m (\<lambda>_. ret ())) (\<lambda>_. ret ())"

datatype node_outcome =
    Node_upgraded | Cordon_failed string | Budget_blocks "pyval list" | Drain_failed string

definition upgrade_node :: "env \<Rightarrow> string \<Rightarrow> int \<Rightarrow> string \<Rightarrow> node_outcome prog" where
  "upgrade_node env target timeout node =
     bindc (catchc (bindc (patch_node env node True) (\<lambda>_. ret None)) (\<lambda>e. ret (Some (exn_text e)))) (\<lambda>cordon.
       case cordon of
         Some msg \<Rightarrow> ret (Cordon_failed msg)
       | None \<Rightarrow>
           bindc (pdb_violations env) (\<lambda>violations.
             if violations \<noteq> [] then ret (Budget_blocks violations)
             else bindc (drain_node env node timeout) (\<lambda>drain.
               case drain of
                 Some msg \<Rightarrow> ret (Drain_failed msg)
               | None \<Rightarrow>
                   thenc (wait_ready env node target 60)
                   (thenc (best_effort (patch_node env node False)) (ret Node_upgraded)))))"

definition pause_pool :: "pydict \<Rightarrow> string \<Rightarrow> pydict" where
  "pause_pool entry node =
     dput (dput entry ''result'' (PStr ''paused'')) ''paused_at_node'' (PStr node)"

definition count_upgraded :: "pydict \<Rightarrow> nat \<Rightarrow> pydict" where
  "count_upgraded entry n = dput entry ''nodes_upgraded'' (PInt (int n))"

fun roll_nodes :: "env \<Rightarrow> string \<Rightarrow> int \<Rightarrow> pydict \<Rightarrow> nat \<Rightarrow> string list \<Rightarrow> pydict prog" where
  "roll_nodes env target timeout entry n [] =
     bindc (gets w_clock) (\<lambda>now.
       ret (dput (dput (count_upgraded entry n) ''result'' (PStr ''success'')) ''completed_at'' (PInt now)))"
| "roll_nodes env target timeout entry n (node # nodes) =
     bindc (upgrade_node env target timeout node) (\<lambda>out.
       let entry' = count_upgraded entry n
       in case out of
            Node_upgraded \<Rightarrow> roll_nodes env target timeout entry (n + 1) nodes
          | Cordon_failed msg \<Rightarrow>
              ret (dput (dput entry' ''result'' (PStr ''failed'')) ''error''
                     (PStr (''Cordon '' @ node @ '' failed: '' @ msg)))
          | Budget_blocks violations \<Rightarrow>
              ret (pause_pool (dput entry' ''pdb_violations'' (PList violations)) node)
          | Drain_failed msg \<Rightarrow>
              ret (dput (pause_pool entry' node) ''drain_error'' (PStr msg)))"

definition upgrade_node_rolling ::
  "env \<Rightarrow> string list \<Rightarrow> string \<Rightarrow> pydict \<Rightarrow> pydict \<Rightarrow> pydict prog" where
  "upgrade_node_rolling env nodes target desired entry =
     bindc (of_sum (py_int (dget_or desired ''drain_timeout_seconds'' (PInt 300)))) (\<lambda>timeout.
       roll_nodes env target timeout
         (dput (dput (dput entry ''nodes_total'' (PInt (int (length nodes)))) ''nodes_failed'' (PInt 0))
            ''pdb_violations'' (PList []))
         0 nodes)"

section \<open>Verification\<close>

definition good_pod :: "pydict \<Rightarrow> bool" where
  "good_pod p \<longleftrightarrow> dget_or p ''phase'' PNone \<in> {PStr ''Running'', PStr ''Succeeded'', PNone}"

definition list_pods :: "env \<Rightarrow> pyval \<Rightarrow> pydict list prog" where
  "list_pods env namespace =
     bindc (call env (Call_service ''list_namespaced_pod'' [(''namespace'', namespace)]))
       (\<lambda>r. of_sum (items_of r))"

text \<open>What is read until something fails, and the failure.\<close>

record verify_state =
  vs_at_target :: nat
  vs_total :: nat
  vs_system :: bool
  vs_workload :: bool
  vs_error :: "string option"

definition verify_dict :: "verify_state \<Rightarrow> pydict" where
  "verify_dict v =
     [(''nodes_at_target_version'', PInt (int (vs_at_target v))), (''nodes_total'', PInt (int (vs_total v))),
      (''system_pods_ready'', PBool (vs_system v)), (''workload_health_ok'', PBool (vs_workload v)),
      (''error'', case vs_error v of None \<Rightarrow> PNone | Some e \<Rightarrow> PStr e),
      (''passed'', PBool (vs_system v \<and> vs_workload v \<and> vs_at_target v = vs_total v))]"

definition or_error :: "verify_state \<Rightarrow> verify_state prog \<Rightarrow> verify_state prog" where
  "or_error v m = catchc m (\<lambda>e. ret (v\<lparr>vs_error := Some (exn_text e)\<rparr>))"

definition run_verify_phase :: "env \<Rightarrow> string \<Rightarrow> pydict \<Rightarrow> pydict prog" where
  "run_verify_phase env target desired =
     (let v0 = \<lparr>vs_at_target = 0, vs_total = 0, vs_system = False, vs_workload = False, vs_error = None\<rparr>
      in bindc
           (or_error v0 (bindc (list_node env []) (\<lambda>nodes.
              let v1 = v0\<lparr>vs_total := length nodes, vs_at_target := length (filter (at_version target) nodes)\<rparr>
              in or_error v1 (bindc (list_pods env (PStr ''kube-system'')) (\<lambda>sys.
                   let v2 = v1\<lparr>vs_system := list_all good_pod sys\<rparr>
                   in or_error v2 (bindc (list_pods env
                          (dget_or desired ''health_check_namespace'' (PStr ''default''))) (\<lambda>ns.
                        ret (v2\<lparr>vs_workload := list_all good_pod ns\<rparr>))))))))
           (\<lambda>v. ret (verify_dict v)))"

section \<open>The upgrade\<close>

definition persist_result :: "uuid \<Rightarrow> pydict \<Rightarrow> unit prog" where
  "persist_result i result =
     modifyc (\<lambda>w. case latest_run (runs_of w i) of
       None \<Rightarrow> w | Some r \<Rightarrow> upd_run (run_id r) (\<lambda>r. r\<lparr>run_result := result\<rparr>) w)"

definition detect_provider :: "connector \<Rightarrow> string" where
  "detect_provider c =
     (if connector_type c = ''aws'' then ''eks''
      else if connector_type c = ''gcp'' then ''gke''
      else if connector_type c = ''azure'' then ''aks''
      else ''self_hosted'')"

definition failed_upgrade :: "string \<Rightarrow> pydict" where
  "failed_upgrade msg = [(''error'', PStr msg), (''failed'', PBool True)]"

definition discover_version :: "env \<Rightarrow> string prog" where
  "discover_version env =
     bindc (call env (Call_service ''get_code'' [])) (\<lambda>info.
       case dget_or info ''git_version'' PNone of
         PStr s \<Rightarrow> ret (lstrip_v s)
       | _ \<Rightarrow> raise (Exn AttributeError ''object has no attribute lstrip''))"

definition is_worker :: "pydict \<Rightarrow> bool" where
  "is_worker node \<longleftrightarrow>
     (case dget_or node ''labels'' PNone of
        PDict labels \<Rightarrow>
          \<not> list_ex (\<lambda>(l, _). starts_with l ''node-role.kubernetes.io/control-plane'') labels
      | _ \<Rightarrow> True)"

definition worker_names :: "pydict list \<Rightarrow> string list" where
  "worker_names nodes = map (\<lambda>d. text_of (dget_or d ''name'' PNone)) (filter is_worker nodes)"

definition new_pool :: "pyval \<Rightarrow> string \<Rightarrow> string \<Rightarrow> nat \<Rightarrow> int \<Rightarrow> pydict" where
  "new_pool cluster current target n now =
     [(''index'', PInt 0), (''pool_name'', PStr ''default-workers''), (''provider_id'', cluster),
      (''prior_image'', PStr current), (''target_image'', PStr target), (''nodes_total'', PInt (int n)),
      (''nodes_upgraded'', PInt 0), (''nodes_failed'', PInt 0), (''started_at'', PInt now),
      (''completed_at'', PNone), (''result'', PStr ''pending''), (''pdb_violations'', PList []),
      (''rollback_result'', PNone)]"

text \<open>Store the result with its pause and pause the request.\<close>

definition pause_upgrade :: "uuid \<Rightarrow> pydict \<Rightarrow> pydict prog" where
  "pause_upgrade i result =
     (let result' = dput result ''paused'' (PBool True)
      in thenc (persist_result i result') (thenc (set_status i CRS_paused) (ret result')))"

definition verify_upgrade :: "env \<Rightarrow> uuid \<Rightarrow> string \<Rightarrow> pydict \<Rightarrow> pydict \<Rightarrow> pydict prog" where
  "verify_upgrade env i target desired result0 =
     (let result = dput result0 ''phase'' (PStr ''verify'')
      in thenc (persist_result i result)
         (bindc (run_verify_phase env target desired) (\<lambda>verify.
            let result' = dput result ''verify'' (PDict verify)
            in if \<not> truthy (dget_or verify ''passed'' PNone) then pause_upgrade i result'
               else (let result'' = dput result' ''phase'' (PStr ''complete'')
                     in thenc (persist_result i result'') (ret result'')))))"

definition upgrade_pools ::
  "env \<Rightarrow> uuid \<Rightarrow> string \<Rightarrow> string \<Rightarrow> pyval \<Rightarrow> pydict \<Rightarrow> pydict \<Rightarrow> pydict prog" where
  "upgrade_pools env i current target cluster desired result0 =
     (let result = dput result0 ''phase'' (PStr ''node_pools'')
      in thenc (persist_result i result)
         (bindc (list_node env []) (\<lambda>nodes.
          bindc (gets w_clock) (\<lambda>now.
            let workers = worker_names nodes
            in bindc (upgrade_node_rolling env workers target desired
                        (new_pool cluster current target (length workers) now)) (\<lambda>pool.
                 let result' = dput result ''node_pools'' (PList [PDict pool])
                 in if dget_or pool ''result'' PNone = PStr ''paused'' then pause_upgrade i result'
                    else verify_upgrade env i target desired result')))))"

definition upgrade_cluster ::
  "env \<Rightarrow> uuid \<Rightarrow> string \<Rightarrow> pydict \<Rightarrow> pydict \<Rightarrow> string \<Rightarrow> preflight_result \<Rightarrow> pydict \<Rightarrow> pydict prog" where
  "upgrade_cluster env i provider creds desired current pf result0 =
     (let target = pf_target_patch_version pf;
          cluster = dget_or creds ''cluster_name'' (dget_or creds ''name'' (PStr ''unknown''));
          result = dput result0 ''target_version'' (PStr target)
      in if truthy (dget_or desired ''dry_run'' (PBool False))
         then (let r = dput (dput result ''phase'' (PStr ''preflight'')) ''dry_run'' (PBool True)
               in thenc (persist_result i r) (ret r))
         else (let r = dput result ''phase'' (PStr ''control_plane'')
               in thenc (persist_result i r)
                  (bindc (run_control_plane_phase env provider cluster target creds) (\<lambda>cp.
                     let r' = dput r ''control_plane'' (PDict cp)
                     in if dget_or cp ''result'' PNone \<noteq> PStr ''success''
                        then (let r'' = dput r' ''failed'' (PBool True)
                              in thenc (persist_result i r'') (ret r''))
                        else upgrade_pools env i current target cluster desired r'))))"

definition upgrade_with ::
  "integration \<Rightarrow> env \<Rightarrow> uuid \<Rightarrow> pydict \<Rightarrow> connector \<Rightarrow> pydict prog" where
  "upgrade_with ig env i desired conn =
     (let creds = ig_credentials ig (connector_id conn);
          target = text_of (dget_or desired ''target_version'' (PStr []));
          cluster = dget_or creds ''cluster_name'' (dget_or creds ''name'' (PStr ''unknown''));
          cluster_id = dget_or creds ''cluster_id'' cluster
      in bindc (catchc (bindc (get_k8s_clients env creds) (\<lambda>x. ret (Inr x))) (\<lambda>e. ret (Inl e))) (\<lambda>clients.
           case clients of
             Inl e \<Rightarrow> ret (failed_upgrade (''Failed to build k8s clients: '' @ exn_text e))
           | Inr _ \<Rightarrow>
               bindc (catchc (bindc (discover_version env) (\<lambda>x. ret (Inr x))) (\<lambda>e. ret (Inl e))) (\<lambda>version.
                 case version of
                   Inl e \<Rightarrow> ret (failed_upgrade (''Failed to discover cluster version: '' @ exn_text e))
                 | Inr current \<Rightarrow>
                     bindc (run_preflight env current target desired) (\<lambda>pf.
                       let result = dput (build_initial_result current target (detect_provider conn) cluster cluster_id)
                                      ''preflight'' (PDict (preflight_dict pf))
                       in if \<not> pf_passed pf
                          then (let r = dput result ''failed'' (PBool True)
                                in thenc (persist_result i r) (ret r))
                          else upgrade_cluster env i (detect_provider conn) creds desired current pf result))))"

definition execute_k8s_cluster_upgrade :: "integration \<Rightarrow> env \<Rightarrow> uuid \<Rightarrow> pydict prog" where
  "execute_k8s_cluster_upgrade ig env i =
     bindc (gets (\<lambda>w. get_cr w i)) (\<lambda>found.
       case found of
         None \<Rightarrow> ret (failed_upgrade (''CR '' @ i @ '' not found''))
       | Some cr \<Rightarrow>
           (let desired = cr_desired_outcome cr; cid = dget_or desired ''connector_id'' PNone
            in if \<not> truthy cid
               then ret (failed_upgrade ''desired_outcome.connector_id is required for k8s_cluster_upgrade'')
               else case cid of
                 PStr c \<Rightarrow>
                   bindc (gets (\<lambda>w. lookup_row connector_id (w_connectors w) c)) (\<lambda>conn.
                     case conn of
                       None \<Rightarrow> ret (failed_upgrade (''Connector '' @ c @ '' not found''))
                     | Some c \<Rightarrow> thenc (attach_credentials ig c) (upgrade_with ig env i desired c))
               | _ \<Rightarrow> ret (failed_upgrade ''Invalid connector_id'')))"

section \<open>Rollback\<close>

definition pool_index :: "pydict \<Rightarrow> int" where
  "pool_index p = (case dget_or p ''index'' (PInt 0) of PInt i \<Rightarrow> i | _ \<Rightarrow> 0)"

definition pools_to_undo :: "pydict list \<Rightarrow> pydict list" where
  "pools_to_undo pools =
     sort_key (\<lambda>p. - pool_index p)
       (filter (\<lambda>p. dget_or p ''result'' PNone \<in> {PStr ''success'', PStr ''paused''}) pools)"

definition downgrade_warning :: "pyval \<Rightarrow> pydict \<Rightarrow> string option" where
  "downgrade_warning provider pool =
     (let warning = (\<lambda>name. name @ '' may reject downgrade to prior version '' @
                       text_of (dget_or pool ''prior_image'' (PStr [])))
      in if provider = PStr ''gke'' then Some (warning ''GKE'')
         else if provider = PStr ''aks'' then Some (warning ''AKS'')
         else None)"

text \<open>One pool: whether it warns, and its entry.\<close>

definition rollback_pool :: "env \<Rightarrow> pyval \<Rightarrow> pydict \<Rightarrow> (bool \<times> pydict) prog" where
  "rollback_pool env provider pool =
     (let name = dget_or pool ''pool_name'' (PStr ''unknown''); node = dget_or pool ''paused_at_node'' PNone
      in if truthy node then
           catchc
             (bindc (patch_node env (text_of node) False) (\<lambda>_.
                ret (False, [(''pool'', name), (''uncordoned'', node)])))
             (\<lambda>e. ret (True, [(''pool'', name), (''uncordon_error'', PStr (exn_text e))]))
         else
           (let entry = [(''pool'', name), (''prior_image'', dget_or pool ''prior_image'' (PStr [])),
                         (''rolled_back'', PBool True),
                         (''note'', PStr (''Node image rollback is provider-specific; nodes left at current version '' @
                           ''if cloud provider does not support downgrade''))]
            in ret (case downgrade_warning provider pool of
                      Some w \<Rightarrow> (True, entry @ [(''warning'', PStr w)])
                    | None \<Rightarrow> (False, entry))))"

definition rollback_credentials :: "integration \<Rightarrow> pyval \<Rightarrow> pydict prog" where
  "rollback_credentials ig cid =
     (if truthy cid then
        catchc
          (bindc (gets (\<lambda>w. lookup_row connector_id (w_connectors w) (text_of cid))) (\<lambda>found.
             case found of
               None \<Rightarrow> ret []
             | Some c \<Rightarrow> thenc (attach_credentials ig c) (ret (ig_credentials ig (connector_id c)))))
          (\<lambda>_. ret [])
      else ret [])"

definition undo_pools :: "env \<Rightarrow> pyval \<Rightarrow> pydict list \<Rightarrow> pydict prog" where
  "undo_pools env provider pools =
     bindc (mapc (rollback_pool env provider) pools) (\<lambda>rs.
       ret [(''rollback_note'', PStr rollback_note), (''pools_rolled_back'', PList (map (PDict \<circ> snd) rs)),
            (''has_warnings'', PBool (list_ex fst rs))])"

definition rollback_request :: "integration \<Rightarrow> env \<Rightarrow> pydict \<Rightarrow> pydict list \<Rightarrow> change_request \<Rightarrow> pydict prog" where
  "rollback_request ig env execution_result pools cr =
     bindc (rollback_credentials ig
         (por (dget_or (cr_desired_outcome cr) ''connector_id'' PNone)
            (dget_or execution_result ''connector_id'' PNone))) (\<lambda>creds.
     bindc (catchc (thenc (get_k8s_clients env creds) (ret None)) (\<lambda>e. ret (Some (exn_text e)))) (\<lambda>failed.
       case failed of
         Some msg \<Rightarrow>
           ret [(''error'', PStr (''Could not build k8s clients for rollback: '' @ msg)),
                (''has_warnings'', PBool True)]
       | None \<Rightarrow> undo_pools env (dget_or execution_result ''provider'' (PStr ''unknown'')) pools))"

definition rollback_pools :: "integration \<Rightarrow> env \<Rightarrow> uuid \<Rightarrow> pydict \<Rightarrow> pydict list \<Rightarrow> pydict prog" where
  "rollback_pools ig env i execution_result pools =
     (if pools = []
      then ret [(''rollback_note'', PStr rollback_note), (''pools_rolled_back'', PList []),
                (''has_warnings'', PBool False)]
      else bindc (gets (\<lambda>w. get_cr w i)) (\<lambda>found.
        case found of
          None \<Rightarrow> ret [(''error'', PStr (''CR '' @ i @ '' not found during rollback'')),
                       (''has_warnings'', PBool True)]
        | Some cr \<Rightarrow> rollback_request ig env execution_result pools cr))"

definition execute_k8s_cluster_upgrade_rollback ::
  "integration \<Rightarrow> env \<Rightarrow> uuid \<Rightarrow> pydict \<Rightarrow> pydict prog" where
  "execute_k8s_cluster_upgrade_rollback ig env i execution_result =
     bindc (of_sum (as_list (dget_or execution_result ''node_pools'' (PList [])))) (\<lambda>values.
     bindc (of_sum (as_dicts values)) (\<lambda>pools.
       rollback_pools ig env i execution_result (pools_to_undo pools)))"

section \<open>The calls that a computation makes\<close>

text \<open>A computation that only calls: what it returns and the calls that it adds.\<close>

definition makes_calls :: "'a prog \<Rightarrow> (exn + 'a \<Rightarrow> ext_call list \<Rightarrow> bool) \<Rightarrow> bool" where
  "makes_calls m Q \<longleftrightarrow> (\<forall>w. \<exists>cs. snd (m w) = with_calls cs w \<and> Q (fst (m w)) cs)"

lemma makes_callsD:
  "makes_calls m Q \<Longrightarrow> m w = (r, t) \<Longrightarrow> \<exists>cs. t = with_calls cs w \<and> Q r cs"
  unfolding makes_calls_def by (metis fst_conv snd_conv)

lemma makes_calls_weaken:
  "makes_calls m P \<Longrightarrow> (\<And>r cs. P r cs \<Longrightarrow> Q r cs) \<Longrightarrow> makes_calls m Q"
  unfolding makes_calls_def by blast

lemma makes_calls_ret: "Q (Inr x) [] \<Longrightarrow> makes_calls (ret x) Q"
  unfolding makes_calls_def by (auto intro!: exI [of _ "[]"])

lemma makes_calls_of_sum: "Q r [] \<Longrightarrow> makes_calls (of_sum r) Q"
  unfolding makes_calls_def by (auto intro!: exI [of _ "[]"])

lemma makes_calls_gets: "(\<And>x. Q (Inr x) []) \<Longrightarrow> makes_calls (gets f) Q"
  unfolding makes_calls_def by (auto intro!: exI [of _ "[]"])

lemma makes_calls_call: "makes_calls (call env c) (\<lambda>r cs. cs = [c])"
  unfolding makes_calls_def by (auto simp: call_apply)

lemma makes_calls_bindc:
  assumes m: "makes_calls m P" and f: "\<And>x. makes_calls (f x) (R x)"
    and stop: "\<And>e cs. P (Inl e) cs \<Longrightarrow> Q (Inl e) cs"
    and go: "\<And>x r as bs. P (Inr x) as \<Longrightarrow> R x r bs \<Longrightarrow> Q r (as @ bs)"
  shows "makes_calls (bindc m f) Q"
  unfolding makes_calls_def
proof
  fix w
  obtain r t where run: "m w = (r, t)" by fastforce
  with m obtain as where as: "t = with_calls as w" "P r as" by (blast dest: makes_callsD)
  show "\<exists>cs. snd (bindc m f w) = with_calls cs w \<and> Q (fst (bindc m f w)) cs"
  proof (cases r)
    case (Inl e)
    with run as stop show ?thesis by (auto simp: bindc_apply)
  next
    case (Inr x)
    obtain r' t' where run': "f x t = (r', t')" by fastforce
    with f [of x] obtain bs where "t' = with_calls bs t" "R x r' bs" by (blast dest: makes_callsD)
    with run as Inr run' go show ?thesis by (auto simp: bindc_apply intro!: exI [of _ "as @ bs"])
  qed
qed

lemma makes_calls_catchc:
  assumes m: "makes_calls m P" and h: "\<And>e. makes_calls (h e) (R e)"
    and ok: "\<And>x cs. P (Inr x) cs \<Longrightarrow> Q (Inr x) cs"
    and handled: "\<And>e r as bs. P (Inl e) as \<Longrightarrow> R e r bs \<Longrightarrow> Q r (as @ bs)"
  shows "makes_calls (catchc m h) Q"
  unfolding makes_calls_def
proof
  fix w
  obtain r t where run: "m w = (r, t)" by fastforce
  with m obtain as where as: "t = with_calls as w" "P r as" by (blast dest: makes_callsD)
  show "\<exists>cs. snd (catchc m h w) = with_calls cs w \<and> Q (fst (catchc m h w)) cs"
  proof (cases r)
    case (Inr x)
    with run as ok show ?thesis by (auto simp: catchc_apply)
  next
    case (Inl e)
    obtain r' t' where run': "h e t = (r', t')" by fastforce
    with h [of e] obtain bs where "t' = with_calls bs t" "R e r' bs" by (blast dest: makes_callsD)
    with run as Inl run' handled show ?thesis by (auto simp: catchc_apply intro!: exI [of _ "as @ bs"])
  qed
qed

text \<open>A guarded computation returns, with the calls it made.\<close>

lemma makes_calls_guarded:
  assumes "makes_calls m (\<lambda>r cs. Q cs)" and "\<And>e. \<exists>x. h e = ret x"
  shows "makes_calls (catchc m h) (\<lambda>r cs. (\<exists>x. r = Inr x) \<and> Q cs)"
proof (rule makes_calls_catchc [OF assms(1)])
  fix e
  obtain x where "h e = ret x" using assms(2) by blast
  then show "makes_calls (h e) (\<lambda>r cs. (\<exists>x. r = Inr x) \<and> cs = [])" by (simp add: makes_calls_ret)
qed auto

section \<open>One node at a time\<close>

text \<open>The nodes that the calls have asked to cordon and not to uncordon since.\<close>

definition cordon_call :: "ext_call \<Rightarrow> (string \<times> bool) option" where
  "cordon_call c =
     (case c of
        Call_service s args \<Rightarrow>
          if s = ''patch_node''
          then Some (text_of (dget_or args ''name'' PNone), truthy (dget_or args ''unschedulable'' PNone))
          else None
      | _ \<Rightarrow> None)"

definition cordon_step :: "ext_call \<Rightarrow> string set \<Rightarrow> string set" where
  "cordon_step c ns =
     (case cordon_call c of
        None \<Rightarrow> ns | Some (n, down) \<Rightarrow> if down then insert n ns else ns - {n})"

definition cordoned :: "ext_call list \<Rightarrow> string set" where
  "cordoned cs = fold cordon_step cs {}"

definition quiet :: "ext_call list \<Rightarrow> bool" where
  "quiet cs \<longleftrightarrow> (\<forall>c \<in> set cs. cordon_call c = None)"

definition patch_call :: "string \<Rightarrow> bool \<Rightarrow> ext_call" where
  "patch_call n down = Call_service ''patch_node'' [(''name'', PStr n), (''unschedulable'', PBool down)]"

text \<open>Every moment of the calls has at most one node cordoned.\<close>

definition one_at_a_time :: "ext_call list \<Rightarrow> bool" where
  "one_at_a_time cs \<longleftrightarrow> (\<forall>k \<le> length cs. card (cordoned (take k cs)) \<le> 1)"

lemma cordon_patch_call [simp]: "cordon_call (patch_call n down) = Some (n, down)"
  by (simp add: cordon_call_def patch_call_def)

lemma fold_quiet: "quiet cs \<Longrightarrow> fold cordon_step cs ns = ns"
  unfolding quiet_def by (induction cs arbitrary: ns) (auto simp: cordon_step_def)

lemma quiet_take: "quiet cs \<Longrightarrow> quiet (take k cs)"
  unfolding quiet_def by (meson in_set_takeD)

lemma quiet_append [simp]: "quiet (cs @ ds) \<longleftrightarrow> quiet cs \<and> quiet ds"
  unfolding quiet_def by auto

lemma quiet_Nil [simp]: "quiet []"
  unfolding quiet_def by simp

lemma quiet_service: "s \<noteq> ''patch_node'' \<Longrightarrow> quiet [Call_service s args]"
  by (simp add: quiet_def cordon_call_def)

lemma cordoned_opened: "quiet qs \<Longrightarrow> cordoned (patch_call n True # qs) = {n}"
  by (simp add: cordoned_def cordon_step_def fold_quiet)

lemma cordoned_closed: "quiet qs \<Longrightarrow> cordoned (patch_call n True # qs @ [patch_call n False]) = {}"
  by (simp add: cordoned_def cordon_step_def fold_quiet)

lemma cordoned_after: "cordoned as = {} \<Longrightarrow> cordoned (as @ bs) = cordoned bs"
  by (simp add: cordoned_def)

lemma one_at_a_time_Nil [simp]: "one_at_a_time []"
  by (simp add: one_at_a_time_def cordoned_def)

lemma one_at_a_time_opened: "quiet qs \<Longrightarrow> one_at_a_time (patch_call n True # qs)"
  unfolding one_at_a_time_def
proof (intro allI impI)
  fix k assume "quiet qs"
  then show "card (cordoned (take k (patch_call n True # qs))) \<le> 1"
    by (cases k) (simp_all add: cordoned_opened quiet_take, simp add: cordoned_def)
qed

lemma one_at_a_time_snoc:
  "one_at_a_time cs \<Longrightarrow> card (cordoned (cs @ [c])) \<le> 1 \<Longrightarrow> one_at_a_time (cs @ [c])"
  unfolding one_at_a_time_def by (auto simp: le_Suc_eq)

lemma one_at_a_time_append:
  assumes "one_at_a_time as" "cordoned as = {}" "one_at_a_time bs"
  shows "one_at_a_time (as @ bs)"
  unfolding one_at_a_time_def
proof (intro allI impI)
  fix k assume "k \<le> length (as @ bs)"
  show "card (cordoned (take k (as @ bs))) \<le> 1"
  proof (cases "k \<le> length as")
    case True
    with assms(1) show ?thesis by (simp add: one_at_a_time_def)
  next
    case False
    with assms(3) \<open>k \<le> length (as @ bs)\<close> show ?thesis
      by (simp add: cordoned_after [OF assms(2)] one_at_a_time_def)
  qed
qed

lemma one_at_a_time_closed:
  "quiet qs \<Longrightarrow> one_at_a_time (patch_call n True # qs @ [patch_call n False])"
  using one_at_a_time_snoc [where c = "patch_call n False", OF one_at_a_time_opened [of qs n]]
  by (simp add: cordoned_closed)

text \<open>The calls of each step of a node.\<close>

lemma patch_node_calls: "makes_calls (patch_node env n down) (\<lambda>r cs. cs = [patch_call n down])"
  unfolding patch_node_def patch_call_def by (rule makes_calls_call)

lemma pdb_violations_calls:
  "makes_calls (pdb_violations env) (\<lambda>r cs. (\<exists>x. r = Inr x) \<and> quiet cs \<and> length cs = 1)"
  unfolding pdb_violations_def
proof (rule makes_calls_guarded)
  show "makes_calls (bindc (call env (Call_service ''list_pod_disruption_budgets'' []))
      (\<lambda>r. bindc (of_sum (items_of r)) (\<lambda>ps. ret (map budget_name (filter blocks_disruption ps)))))
      (\<lambda>r cs. quiet cs \<and> length cs = 1)"
    by (rule makes_calls_bindc [OF makes_calls_call
          makes_calls_bindc [where R = "\<lambda>_ r cs. cs = []" and Q = "\<lambda>r cs. cs = []",
            OF makes_calls_of_sum [where Q = "\<lambda>r cs. cs = []"]]])
      (auto intro: makes_calls_ret simp: quiet_service)
qed auto

lemma drain_node_calls:
  "makes_calls (drain_node env n timeout) (\<lambda>r cs. (\<exists>x. r = Inr x) \<and> quiet cs \<and> length cs = 1)"
  unfolding drain_node_def
proof (rule makes_calls_guarded)
  show "makes_calls (bindc (call env (Call_service ''kubectl_drain'' (drain_args n timeout)))
      (\<lambda>proc. ret (if dget_or proc ''returncode'' PNone = PInt 0 then None
                   else Some (take 300 (text_of (dget_or proc ''stderr'' PNone))))))
      (\<lambda>r cs. quiet cs \<and> length cs = 1)"
    by (rule makes_calls_bindc [OF makes_calls_call
          makes_calls_ret [where Q = "\<lambda>r cs. cs = []"]])
      (auto simp: quiet_service)
qed auto

lemma wait_ready_calls:
  "makes_calls (wait_ready env n target k) (\<lambda>r cs. (\<exists>x. r = Inr x) \<and> quiet cs \<and> length cs \<le> k)"
proof (induction k)
  case 0
  show ?case unfolding wait_ready.simps by (rule makes_calls_ret) simp
next
  case (Suc k)
  have look: "makes_calls (catchc (bindc (call env (Call_service ''read_node'' [(''name'', PStr n)]))
      (\<lambda>d. ret (is_ready d \<and> at_version target d))) (\<lambda>_. ret False))
      (\<lambda>r cs. (\<exists>x. r = Inr x) \<and> quiet cs \<and> length cs = 1)"
  proof (rule makes_calls_guarded)
    show "makes_calls (bindc (call env (Call_service ''read_node'' [(''name'', PStr n)]))
        (\<lambda>d. ret (is_ready d \<and> at_version target d))) (\<lambda>r cs. quiet cs \<and> length cs = 1)"
      by (rule makes_calls_bindc [OF makes_calls_call makes_calls_ret [where Q = "\<lambda>r cs. cs = []"]])
        (auto simp: quiet_service)
  qed auto
  show ?case unfolding wait_ready.simps
  proof (rule makes_calls_bindc [OF look])
    show "makes_calls (if ok then ret () else wait_ready env n target k)
        (\<lambda>r cs. (\<exists>x. r = Inr x) \<and> quiet cs \<and> length cs \<le> k)" for ok
      using Suc by (auto intro: makes_calls_ret)
  qed auto
qed

lemma best_effort_calls:
  "makes_calls (best_effort (patch_node env n down)) (\<lambda>r cs. (\<exists>x. r = Inr x) \<and> cs = [patch_call n down])"
  unfolding best_effort_def
proof (rule makes_calls_guarded)
  show "makes_calls (bindc (patch_node env n down) (\<lambda>_. ret ())) (\<lambda>r cs. cs = [patch_call n down])"
    by (rule makes_calls_bindc [OF patch_node_calls makes_calls_ret [where Q = "\<lambda>r cs. cs = []"]]) auto
qed auto


text \<open>The calls after the cordon: at most \<open>k\<close> that patch no node, and the uncordon of a node that
  was upgraded.\<close>

definition node_calls :: "string \<Rightarrow> nat \<Rightarrow> exn + node_outcome \<Rightarrow> ext_call list \<Rightarrow> bool" where
  "node_calls n k r cs \<longleftrightarrow>
     (\<exists>out qs. r = Inr out \<and> quiet qs \<and> length qs \<le> k \<and>
        cs = qs @ (if out = Node_upgraded then [patch_call n False] else []))"

lemma node_calls_after:
  "quiet as \<Longrightarrow> length as \<le> j \<Longrightarrow> node_calls n k r bs \<Longrightarrow> node_calls n (j + k) r (as @ bs)"
  unfolding node_calls_def by (metis add_mono append.assoc length_append quiet_append)

lemma makes_calls_quiet:
  assumes "makes_calls m (\<lambda>r cs. (\<exists>x. r = Inr x) \<and> quiet cs \<and> length cs \<le> j)"
    and "\<And>x. makes_calls (f x) (node_calls n k)" and "j + k = l"
  shows "makes_calls (bindc m f) (node_calls n l)"
  by (rule makes_calls_bindc [OF assms(1,2)]) (auto intro: node_calls_after simp flip: assms(3))

lemma node_calls_stop: "out \<noteq> Node_upgraded \<Longrightarrow> makes_calls (ret out) (node_calls n k)"
  by (rule makes_calls_ret) (simp add: node_calls_def)

lemma uncordoned_calls:
  "makes_calls (thenc (best_effort (patch_node env n False)) (ret Node_upgraded)) (node_calls n 0)"
  unfolding thenc_def
  by (rule makes_calls_bindc [OF best_effort_calls
        makes_calls_ret [where Q = "\<lambda>r cs. r = Inr Node_upgraded \<and> cs = []"]])
    (auto simp: node_calls_def)

lemma drained_calls:
  "makes_calls (case drain of Some msg \<Rightarrow> ret (Drain_failed msg)
     | None \<Rightarrow> thenc (wait_ready env n target 60)
          (thenc (best_effort (patch_node env n False)) (ret Node_upgraded))) (node_calls n 60)"
proof (cases drain)
  case None
  show ?thesis unfolding None option.case
    by (subst thenc_def, rule makes_calls_quiet [OF wait_ready_calls uncordoned_calls]) simp
qed (simp add: node_calls_stop)

lemma checked_calls:
  "makes_calls (if vs \<noteq> [] then ret (Budget_blocks vs)
     else bindc (drain_node env n timeout) (\<lambda>drain.
       case drain of Some msg \<Rightarrow> ret (Drain_failed msg)
       | None \<Rightarrow> thenc (wait_ready env n target 60)
            (thenc (best_effort (patch_node env n False)) (ret Node_upgraded)))) (node_calls n 61)"
proof (cases "vs = []")
  case True
  have drain: "makes_calls (drain_node env n timeout) (\<lambda>r cs. (\<exists>x. r = Inr x) \<and> quiet cs \<and> length cs \<le> 1)"
    by (rule makes_calls_weaken [OF drain_node_calls]) auto
  show ?thesis unfolding True
    by (simp only: simp_thms if_False, rule makes_calls_quiet [OF drain drained_calls]) simp
qed (simp add: node_calls_stop)

lemma upgrade_node_calls:
  "makes_calls (upgrade_node env target timeout n)
     (\<lambda>r cs. \<exists>bs. cs = patch_call n True # bs \<and> node_calls n 62 r bs)"
proof -
  have cordon: "makes_calls (catchc (bindc (patch_node env n True) (\<lambda>_. ret None))
      (\<lambda>e. ret (Some (exn_text e)))) (\<lambda>r cs. (\<exists>x. r = Inr x) \<and> cs = [patch_call n True])"
  proof (rule makes_calls_guarded)
    show "makes_calls (bindc (patch_node env n True) (\<lambda>_. ret (None :: string option)))
        (\<lambda>r cs. cs = [patch_call n True])"
      by (rule makes_calls_bindc [OF patch_node_calls makes_calls_ret [where Q = "\<lambda>r cs. cs = []"]]) auto
  qed auto
  have budgets: "makes_calls (pdb_violations env) (\<lambda>r cs. (\<exists>x. r = Inr x) \<and> quiet cs \<and> length cs \<le> 1)"
    by (rule makes_calls_weaken [OF pdb_violations_calls]) auto
  show ?thesis unfolding upgrade_node_def
  proof (rule makes_calls_bindc [OF cordon])
    show "makes_calls
        (case failed of Some msg \<Rightarrow> ret (Cordon_failed msg)
         | None \<Rightarrow> bindc (pdb_violations env) (\<lambda>vs.
             if vs \<noteq> [] then ret (Budget_blocks vs)
             else bindc (drain_node env n timeout) (\<lambda>drain.
               case drain of Some msg \<Rightarrow> ret (Drain_failed msg)
               | None \<Rightarrow> thenc (wait_ready env n target 60)
                    (thenc (best_effort (patch_node env n False)) (ret Node_upgraded)))))
        (node_calls n 62)" for failed
    proof (cases failed)
      case None
      show ?thesis unfolding None option.case
        by (rule makes_calls_quiet [OF budgets checked_calls]) simp
    qed (simp add: node_calls_stop)
  qed auto
qed


text \<open>How a pool ends, and the nodes it leaves cordoned.\<close>

definition pool_leaves :: "string list \<Rightarrow> pydict \<Rightarrow> string set \<Rightarrow> bool" where
  "pool_leaves nodes pool ns \<longleftrightarrow>
     dget pool ''result'' = Some (PStr ''success'') \<and> ns = {} \<or>
     (\<exists>n \<in> set nodes. ns = {n} \<and>
        (dget pool ''result'' = Some (PStr ''failed'') \<or>
         dget pool ''result'' = Some (PStr ''paused'') \<and> dget pool ''paused_at_node'' = Some (PStr n)))"

definition pool_calls :: "string list \<Rightarrow> exn + pydict \<Rightarrow> ext_call list \<Rightarrow> bool" where
  "pool_calls nodes r cs \<longleftrightarrow>
     one_at_a_time cs \<and> length cs \<le> 64 * length nodes \<and>
     (\<exists>pool. r = Inr pool \<and> pool_leaves nodes pool (cordoned cs))"

lemma pool_calls_stop:
  assumes "quiet qs" "length qs \<le> 62" "n \<in> set nodes"
    and "dget pool ''result'' = Some (PStr ''failed'') \<or>
      dget pool ''result'' = Some (PStr ''paused'') \<and> dget pool ''paused_at_node'' = Some (PStr n)"
  shows "pool_calls nodes (Inr pool) (patch_call n True # qs)"
proof -
  have "1 \<le> length nodes" using assms(3) by (cases nodes) auto
  with assms show ?thesis
    by (auto simp: pool_calls_def pool_leaves_def one_at_a_time_opened cordoned_opened)
qed

lemma pool_calls_next:
  assumes "quiet qs" "length qs \<le> 62" "pool_calls nodes r bs"
  shows "pool_calls (n # nodes) r (patch_call n True # qs @ patch_call n False # bs)"
proof -
  define as where "as = patch_call n True # qs @ [patch_call n False]"
  have as: "cordoned as = {}" "one_at_a_time as" "length as \<le> 64"
    using assms(1,2) by (simp_all add: as_def cordoned_closed one_at_a_time_closed)
  have "pool_calls (n # nodes) r (as @ bs)"
    using assms(3) as by (auto simp: pool_calls_def pool_leaves_def cordoned_after one_at_a_time_append)
  then show ?thesis by (simp add: as_def)
qed

lemma pool_calls_node:
  "node_calls n 62 (Inr out) bs \<Longrightarrow> out \<noteq> Node_upgraded \<Longrightarrow> n \<in> set nodes \<Longrightarrow>
   dget pool ''result'' = Some (PStr ''failed'') \<or>
     dget pool ''result'' = Some (PStr ''paused'') \<and> dget pool ''paused_at_node'' = Some (PStr n) \<Longrightarrow>
   pool_calls nodes (Inr pool) (patch_call n True # bs)"
  by (rule pool_calls_stop) (auto simp: node_calls_def)

lemma roll_nodes_calls: "makes_calls (roll_nodes env target timeout entry k nodes) (pool_calls nodes)"
proof (induction nodes arbitrary: entry k)
  case Nil
  show ?case unfolding roll_nodes.simps
    by (rule makes_calls_bindc [OF makes_calls_gets [where Q = "\<lambda>r cs. (\<exists>x. r = Inr x) \<and> cs = []"]
          makes_calls_ret [where Q = "pool_calls []"]])
      (auto simp: pool_calls_def pool_leaves_def cordoned_def)
next
  case (Cons n nodes)
  have next_node: "makes_calls
      (let entry' = count_upgraded entry k
       in case out of
            Node_upgraded \<Rightarrow> roll_nodes env target timeout entry (k + 1) nodes
          | Cordon_failed msg \<Rightarrow>
              ret (dput (dput entry' ''result'' (PStr ''failed'')) ''error''
                     (PStr (''Cordon '' @ n @ '' failed: '' @ msg)))
          | Budget_blocks violations \<Rightarrow>
              ret (pause_pool (dput entry' ''pdb_violations'' (PList violations)) n)
          | Drain_failed msg \<Rightarrow>
              ret (dput (pause_pool entry' n) ''drain_error'' (PStr msg)))
      (\<lambda>r bs. \<forall>as. node_calls n 62 (Inr out) as \<longrightarrow> pool_calls (n # nodes) r (patch_call n True # as @ bs))"
    for out
  proof (cases "out = Node_upgraded")
    case True
    show ?thesis unfolding True Let_def node_outcome.case
      by (rule makes_calls_weaken [OF Cons.IH]) (auto simp: node_calls_def intro: pool_calls_next)
  next
    case False
    then show ?thesis
      by (cases out) (auto simp: Let_def pause_pool_def intro!: makes_calls_ret pool_calls_node)
  qed
  show ?case unfolding roll_nodes.simps
    by (rule makes_calls_bindc [OF upgrade_node_calls next_node]) (auto simp: node_calls_def)
qed


text \<open>A rolling upgrade ends. It makes at most 64 calls for each node: cordon, budgets, drain, sixty
  looks at the node, and uncordon.\<close>

theorem rolling_calls_bounded:
  "length (w_calls (snd (upgrade_node_rolling env nodes target desired entry w))) \<le>
     length (w_calls w) + 64 * length nodes"
proof -
  have "makes_calls (upgrade_node_rolling env nodes target desired entry)
      (\<lambda>r cs. length cs \<le> 64 * length nodes)"
    unfolding upgrade_node_rolling_def
    by (rule makes_calls_bindc [OF makes_calls_of_sum [where Q = "\<lambda>r cs. cs = []"] roll_nodes_calls])
      (auto simp: pool_calls_def)
  then show ?thesis unfolding makes_calls_def by (metis add_left_mono length_append with_calls_frame(11))
qed


section \<open>Pauses and completion\<close>

text \<open>What holds of the value and the state when a computation returns, whatever the state before.\<close>

definition on_return :: "('a \<Rightarrow> world \<Rightarrow> bool) \<Rightarrow> 'a prog \<Rightarrow> bool" where
  "on_return Q m \<longleftrightarrow> (\<forall>w x t. m w = (Inr x, t) \<longrightarrow> Q x t)"

lemma on_returnD: "on_return Q m \<Longrightarrow> m w = (Inr x, t) \<Longrightarrow> Q x t"
  unfolding on_return_def by blast

lemma on_return_ret: "(\<And>t. Q x t) \<Longrightarrow> on_return Q (ret x)"
  by (simp add: on_return_def)

lemma on_return_yields: "yields R m \<Longrightarrow> (\<And>x. R x \<Longrightarrow> on_return Q (f x)) \<Longrightarrow> on_return Q (bindc m f)"
  unfolding on_return_def by (blast dest: bindc_returns yieldsD)

lemma on_return_bindc: "(\<And>x. on_return Q (f x)) \<Longrightarrow> on_return Q (bindc m f)"
  unfolding on_return_def by (blast dest: bindc_returns)

lemma on_return_thenc: "on_return Q m \<Longrightarrow> on_return Q (thenc n m)"
  unfolding thenc_def by (rule on_return_bindc)

lemma on_return_if: "(b \<Longrightarrow> on_return Q m) \<Longrightarrow> (\<not> b \<Longrightarrow> on_return Q n) \<Longrightarrow> on_return Q (if b then m else n)"
  by simp

text \<open>What an upgrade may report.\<close>

definition upgrade_report :: "uuid \<Rightarrow> pydict \<Rightarrow> world \<Rightarrow> bool" where
  "upgrade_report i r t \<longleftrightarrow>
     (dget r ''paused'' \<noteq> None \<longrightarrow> (\<forall>cr. get_cr t i = Some cr \<longrightarrow> cr_status cr = CRS_paused)) \<and>
     (dget r ''phase'' = Some (PStr ''complete'') \<longrightarrow>
        (\<exists>v. dget r ''verify'' = Some (PDict (verify_dict v)) \<and>
           vs_system v \<and> vs_workload v \<and> vs_at_target v = vs_total v))"

lemma verify_yields: "yields (\<lambda>d. \<exists>v. d = verify_dict v) (run_verify_phase env target desired)"
  unfolding run_verify_phase_def Let_def by (rule yields_bindc, rule yields_basic(1), rule exI, rule refl)

lemma paused_report:
  assumes "dget r ''phase'' \<noteq> Some (PStr ''complete'')"
  shows "on_return (upgrade_report i) (pause_upgrade i r)"
  using assms
  by (auto simp: on_return_def pause_upgrade_def Let_def thenc_apply persist_result_def set_status_def
      upgrade_report_def get_cr_upd_cr split: option.splits if_splits)

lemma passed_verify [simp]:
  "truthy (dget_or (verify_dict v) ''passed'' PNone) \<longleftrightarrow>
     vs_system v \<and> vs_workload v \<and> vs_at_target v = vs_total v"
  by (simp add: verify_dict_def)

lemma verify_report:
  assumes "dget r ''paused'' = None"
  shows "on_return (upgrade_report i) (verify_upgrade env i target desired r)"
  unfolding verify_upgrade_def Let_def
proof (intro on_return_thenc on_return_yields [OF verify_yields])
  fix d assume "\<exists>v. d = verify_dict v"
  then obtain v where d: "d = verify_dict v" by blast
  show "on_return (upgrade_report i)
      (if \<not> truthy (dget_or d ''passed'' PNone)
       then pause_upgrade i (dput (dput r ''phase'' (PStr ''verify'')) ''verify'' (PDict d))
       else thenc (persist_result i (dput (dput (dput r ''phase'' (PStr ''verify'')) ''verify'' (PDict d))
                ''phase'' (PStr ''complete'')))
              (ret (dput (dput (dput r ''phase'' (PStr ''verify'')) ''verify'' (PDict d))
                ''phase'' (PStr ''complete''))))"
    using assms by (intro on_return_if paused_report on_return_thenc on_return_ret)
      (auto simp: d upgrade_report_def)
qed

lemma plain_report:
  "dget r ''paused'' = None \<Longrightarrow> dget r ''phase'' \<noteq> Some (PStr ''complete'') \<Longrightarrow>
   on_return (upgrade_report i) (ret r)"
  by (rule on_return_ret) (simp add: upgrade_report_def)

lemma pools_report:
  "dget r ''paused'' = None \<Longrightarrow> on_return (upgrade_report i) (upgrade_pools env i current target cluster desired r)"
  unfolding upgrade_pools_def Let_def
  by (intro on_return_thenc on_return_bindc on_return_if paused_report verify_report) simp_all

lemma cluster_report:
  "dget r ''paused'' = None \<Longrightarrow>
   on_return (upgrade_report i) (upgrade_cluster env i provider creds desired current pf r)"
  unfolding upgrade_cluster_def Let_def
  by (intro on_return_thenc on_return_bindc on_return_if plain_report pools_report) simp_all

lemma initial_result_keys [simp]:
  "dget (build_initial_result a b c d e) ''paused'' = None"
  "dget (build_initial_result a b c d e) ''phase'' = Some (PStr ''preflight'')"
  by (simp_all add: build_initial_result_def)

lemma failed_report: "on_return (upgrade_report i) (ret (failed_upgrade msg))"
  by (rule plain_report) (simp_all add: failed_upgrade_def)

lemma upgrade_with_report: "on_return (upgrade_report i) (upgrade_with ig env i desired conn)"
  unfolding upgrade_with_def Let_def
  by (intro on_return_bindc)
    (auto split: sum.split intro!: failed_report on_return_bindc on_return_thenc plain_report cluster_report)

text \<open>A cluster upgrade is complete only when it is verified, and a pause reaches the request. A result
  in the phase complete carries a verification in which every node of the cluster is at the target version
  and the pods of the system and of the workload are healthy; when a result is paused, the change request is.\<close>

theorem cluster_upgrade_completes_only_verified:
  assumes "execute_k8s_cluster_upgrade ig env i w = (Inr r, t)"
  shows "(dget r ''paused'' \<noteq> None \<longrightarrow> (\<forall>cr. get_cr t i = Some cr \<longrightarrow> cr_status cr = CRS_paused)) \<and>
     (dget r ''phase'' = Some (PStr ''complete'') \<longrightarrow>
        (\<exists>v. dget r ''verify'' = Some (PDict (verify_dict v)) \<and>
           vs_system v \<and> vs_workload v \<and> vs_at_target v = vs_total v))"
proof -
  have "on_return (upgrade_report i) (execute_k8s_cluster_upgrade ig env i)"
    unfolding execute_k8s_cluster_upgrade_def Let_def
    by (intro on_return_bindc)
      (auto split: option.split pyval.split
        intro!: failed_report on_return_bindc on_return_thenc upgrade_with_report)
  from on_returnD [OF this assms] show ?thesis unfolding upgrade_report_def .
qed


section \<open>What a rollback releases\<close>

text \<open>The call that undoes a pool: uncordon the node at which it paused.\<close>

definition undo_calls :: "pydict \<Rightarrow> ext_call list" where
  "undo_calls pool =
     (let node = dget_or pool ''paused_at_node'' PNone
      in if truthy node then [patch_call (text_of node) False] else [])"

lemma makes_calls_if:
  "(b \<Longrightarrow> makes_calls m Q) \<Longrightarrow> (\<not> b \<Longrightarrow> makes_calls n Q) \<Longrightarrow> makes_calls (if b then m else n) Q"
  by simp

lemma uncordon_calls:
  "makes_calls (catchc (bindc (patch_node env n False) (\<lambda>_. ret x)) (\<lambda>e. ret (h e)))
     (\<lambda>r cs. (\<exists>x. r = Inr x) \<and> cs = [patch_call n False])"
proof (rule makes_calls_guarded)
  show "makes_calls (bindc (patch_node env n False) (\<lambda>_. ret x)) (\<lambda>r cs. cs = [patch_call n False])"
    by (rule makes_calls_bindc [OF patch_node_calls makes_calls_ret [where Q = "\<lambda>r cs. cs = []"]]) auto
qed auto

lemma rollback_pool_calls:
  "makes_calls (rollback_pool env provider pool) (\<lambda>r cs. (\<exists>x. r = Inr x) \<and> cs = undo_calls pool)"
proof (cases "truthy (dget_or pool ''paused_at_node'' PNone)")
  case True
  show ?thesis unfolding rollback_pool_def undo_calls_def Let_def if_P [OF True] by (rule uncordon_calls)
next
  case False
  show ?thesis unfolding rollback_pool_def undo_calls_def Let_def if_not_P [OF False]
    by (rule makes_calls_ret) simp
qed

lemma rollback_pools_calls:
  "makes_calls (mapc (rollback_pool env provider) pools)
     (\<lambda>r cs. (\<exists>x. r = Inr x) \<and> cs = concat (map undo_calls pools))"
proof (induction pools)
  case Nil
  show ?case unfolding mapc.simps by (rule makes_calls_ret) simp
next
  case (Cons pool pools)
  have rest: "makes_calls (bindc (mapc (rollback_pool env provider) pools) (\<lambda>ys. ret (y # ys)))
      (\<lambda>r cs. (\<exists>x. r = Inr x) \<and> cs = concat (map undo_calls pools))" for y
    by (rule makes_calls_bindc [OF Cons.IH
          makes_calls_ret [where Q = "\<lambda>r cs. (\<exists>x. r = Inr x) \<and> cs = []"]]) auto
  show ?case unfolding mapc.simps
    by (rule makes_calls_bindc [OF rollback_pool_calls rest]) auto
qed

lemma get_k8s_clients_quiet: "makes_calls (get_k8s_clients env creds) (\<lambda>r cs. quiet cs)"
proof -
  have "makes_calls (bindc (call env (Call_service ''load_kube_config''
      [(''config_dict'', kubeconfig_yaml (dget_or creds ''kubeconfig'' (PStr []))),
       (''context'', dget_or creds ''context'' PNone)])) (\<lambda>_. ret ())) (\<lambda>r cs. quiet cs)"
    by (rule makes_calls_bindc [OF makes_calls_call makes_calls_ret [where Q = "\<lambda>r cs. cs = []"]])
      (auto simp: quiet_service)
  moreover have "makes_calls (raise e) (\<lambda>r cs. quiet cs)" for e :: exn
    unfolding makes_calls_def by (auto intro!: exI [of _ "[]"])
  ultimately show ?thesis unfolding get_k8s_clients_def Let_def by (rule makes_calls_if [rotated])
qed

lemma rollback_credentials_silent: "makes_calls (rollback_credentials ig cid) (\<lambda>r cs. cs = [])"
  unfolding makes_calls_def
  by (auto simp: rollback_credentials_def attach_credentials_def comp_simps
      split: option.splits sum.splits prod.splits intro!: exI [of _ "[]"])

definition rollback_calls :: "pydict list \<Rightarrow> exn + pydict \<Rightarrow> ext_call list \<Rightarrow> bool" where
  "rollback_calls pools r cs \<longleftrightarrow>
     (\<forall>d. r = Inr d \<and> dget d ''error'' = None \<longrightarrow>
        (\<exists>qs. quiet qs \<and> cs = qs @ concat (map undo_calls pools)))"

lemma undo_pools_calls:
  "makes_calls (undo_pools env provider pools)
     (\<lambda>r cs. (\<exists>x. r = Inr x) \<and> cs = concat (map undo_calls pools))"
  unfolding undo_pools_def
  by (rule makes_calls_bindc [OF rollback_pools_calls
        makes_calls_ret [where Q = "\<lambda>r cs. (\<exists>x. r = Inr x) \<and> cs = []"]]) auto

lemma rollback_request_calls: "makes_calls (rollback_request ig env result pools cr) (rollback_calls pools)"
proof -
  have clients: "makes_calls (catchc (thenc (get_k8s_clients env creds) (ret None))
      (\<lambda>e. ret (Some (exn_text e)))) (\<lambda>r cs. (\<exists>x. r = Inr x) \<and> quiet cs)" for creds
  proof (rule makes_calls_guarded)
    show "makes_calls (thenc (get_k8s_clients env creds) (ret (None :: string option))) (\<lambda>r cs. quiet cs)"
      unfolding thenc_def
      by (rule makes_calls_bindc [OF get_k8s_clients_quiet makes_calls_ret [where Q = "\<lambda>r cs. cs = []"]]) auto
  qed auto
  have undone: "makes_calls
      (case failed of
         Some msg \<Rightarrow> ret [(''error'', PStr (''Could not build k8s clients for rollback: '' @ msg)),
                       (''has_warnings'', PBool True)]
       | None \<Rightarrow> undo_pools env provider pools)
      (\<lambda>r cs. \<forall>qs. quiet qs \<longrightarrow> rollback_calls pools r (qs @ cs))" for failed provider
  proof (cases failed)
    case None
    show ?thesis unfolding None option.case
      by (rule makes_calls_weaken [OF undo_pools_calls]) (auto simp: rollback_calls_def)
  qed (auto intro!: makes_calls_ret simp: rollback_calls_def)
  have opened: "makes_calls
      (bindc (catchc (thenc (get_k8s_clients env creds) (ret None)) (\<lambda>e. ret (Some (exn_text e)))) (\<lambda>failed.
         case failed of
           Some msg \<Rightarrow> ret [(''error'', PStr (''Could not build k8s clients for rollback: '' @ msg)),
                         (''has_warnings'', PBool True)]
         | None \<Rightarrow> undo_pools env (dget_or result ''provider'' (PStr ''unknown'')) pools))
      (rollback_calls pools)" for creds
    by (rule makes_calls_bindc [OF clients undone]) auto
  show ?thesis unfolding rollback_request_def
    by (rule makes_calls_bindc [OF rollback_credentials_silent opened]) (auto simp: rollback_calls_def)
qed

lemma rollback_pools_makes_calls:
  "makes_calls (rollback_pools ig env i result pools) (rollback_calls pools)"
proof (cases "pools = []")
  case True
  show ?thesis unfolding rollback_pools_def if_P [OF True]
    by (rule makes_calls_ret) (auto simp: rollback_calls_def True)
next
  case False
  have found: "makes_calls
      (case found of
         None \<Rightarrow> ret [(''error'', PStr (''CR '' @ i @ '' not found during rollback'')), (''has_warnings'', PBool True)]
       | Some cr \<Rightarrow> rollback_request ig env result pools cr) (rollback_calls pools)" for found
    by (cases found) (auto intro: makes_calls_ret rollback_request_calls simp: rollback_calls_def)
  show ?thesis unfolding rollback_pools_def if_not_P [OF False]
    by (rule makes_calls_bindc
          [OF makes_calls_gets [where Q = "\<lambda>r cs. (\<exists>x. r = Inr x) \<and> cs = []"] found]) auto
qed

lemma rollback_releases:
  assumes "pool_leaves nodes pool ns" "dget pool ''result'' \<noteq> Some (PStr ''failed'')" "[] \<notin> set nodes"
  shows "fold cordon_step (concat (map undo_calls (pools_to_undo [pool]))) ns = {}"
  using assms
  by (auto simp: pool_leaves_def pools_to_undo_def undo_calls_def dget_or_def cordon_step_def Let_def)



section \<open>Examples\<close>

text \<open>A cluster of two nodes of which the second does not drain.\<close>

definition stuck_env :: env where
  "stuck_env cs c =
     (case c of
        Call_service name a \<Rightarrow>
          if name = ''kubectl_drain'' \<and> dget a ''node'' = Some (PStr ''n-2'')
          then Inr [(''returncode'', PInt 1), (''stderr'', PStr ''timed out'')]
          else kube_env [example_node ''n-1'' ''v1.29.4'', example_node ''n-2'' ''v1.29.4''] cs c
      | _ \<Rightarrow> Inr [])"

definition example_pool :: pydict where
  "example_pool = new_pool (PStr ''prod'') ''1.28.8'' ''1.29.4'' 2 0"

lemma stuck_example:
  "case fst (upgrade_node_rolling stuck_env [''n-1'', ''n-2''] ''1.29.4'' [] example_pool (example_world [])) of
     Inr pool \<Rightarrow> dget pool ''result'' = Some (PStr ''paused'') \<and>
       dget pool ''paused_at_node'' = Some (PStr ''n-2'') \<and> dget pool ''nodes_upgraded'' = Some (PInt 1)
   | Inl _ \<Rightarrow> False"
  by code_simp


definition upgrade_cr :: change_request where
  "upgrade_cr = example_cr\<lparr>cr_change_type := ''k8s_cluster_upgrade'', cr_status := CRS_executing,
     cr_desired_outcome := [(''connector_id'', PStr ''k-1''), (''target_version'', PStr ''1.29'')]\<rparr>"

definition upgrade_world :: world where
  "upgrade_world = (example_world [upgrade_cr])\<lparr>
     w_connectors := [example_connector ''k-1'' ''org'' ''kubernetes'']\<rparr>"

text \<open>A cluster whose only node is of the control plane.\<close>

definition control_node :: "string \<Rightarrow> pyval" where
  "control_node version = PDict
     [(''name'', PStr ''cp-1''), (''labels'', PDict [(''node-role.kubernetes.io/control-plane'', PStr [])]),
      (''kubelet_version'', PStr version), (''conditions'', PList []), (''allocatable'', PDict [])]"

text \<open>What runs once the clients, the version and the checks are there.\<close>

lemma upgrade_after_checks:
  assumes "get_cr w i = Some cr" "dget (cr_desired_outcome cr) ''connector_id'' = Some (PStr c)" "c \<noteq> []"
    and "dget (cr_desired_outcome cr) ''target_version'' = Some (PStr target)"
    and "lookup_row connector_id (w_connectors w) c = Some conn" "ig_unreadable ig (connector_id conn) = None"
    and "get_k8s_clients env (ig_credentials ig (connector_id conn)) w = (Inr (), w1)"
    and "discover_version env w1 = (Inr current, w2)"
    and "run_preflight env current target (cr_desired_outcome cr) w2 = (Inr pf, w3)" "pf_passed pf"
  shows "execute_k8s_cluster_upgrade ig env i w =
    (let creds = ig_credentials ig (connector_id conn);
         cluster = dget_or creds ''cluster_name'' (dget_or creds ''name'' (PStr ''unknown''))
     in upgrade_cluster env i (detect_provider conn) creds (cr_desired_outcome cr) current pf
          (dput (build_initial_result current target (detect_provider conn) cluster
             (dget_or creds ''cluster_id'' cluster)) ''preflight'' (PDict (preflight_dict pf))) w3)"
  using assms
  by (simp add: execute_k8s_cluster_upgrade_def upgrade_with_def attach_credentials_def dget_or_def Let_def comp_simps)

definition upgrade_preflight :: preflight_result where
  "upgrade_preflight = \<lparr>pf_version_valid = True, pf_version_error = None, pf_target_patch_version = ''1.29.4'',
     pf_deprecated_apis = [], pf_headroom_ok = True\<rparr>"

definition upgrade_checked :: "env \<Rightarrow> world" where
  "upgrade_checked env =
     snd (run_preflight env ''1.28.8'' ''1.29'' (cr_desired_outcome upgrade_cr)
       (snd (discover_version env
         (snd (get_k8s_clients env (ig_credentials example_integration ''k-1'') upgrade_world)))))"

definition upgrade_checks_pass :: "env \<Rightarrow> bool" where
  "upgrade_checks_pass env \<longleftrightarrow>
     (let w1 = snd (get_k8s_clients env (ig_credentials example_integration ''k-1'') upgrade_world);
          w2 = snd (discover_version env w1)
      in fst (get_k8s_clients env (ig_credentials example_integration ''k-1'') upgrade_world) = Inr () \<and>
         fst (discover_version env w1) = Inr ''1.28.8'' \<and>
         fst (run_preflight env ''1.28.8'' ''1.29'' (cr_desired_outcome upgrade_cr) w2) = Inr upgrade_preflight)"

definition upgrade_rest :: "env \<Rightarrow> (exn + pydict) \<times> world" where
  "upgrade_rest env =
     upgrade_cluster env ''cr-1'' ''self_hosted'' (ig_credentials example_integration ''k-1'')
       (cr_desired_outcome upgrade_cr) ''1.28.8'' upgrade_preflight
       (dput (build_initial_result ''1.28.8'' ''1.29'' ''self_hosted'' (PStr ''unknown'') (PStr ''unknown''))
          ''preflight'' (PDict (preflight_dict upgrade_preflight))) (upgrade_checked env)"

lemma upgrade_runs:
  assumes "upgrade_checks_pass env"
  shows "execute_k8s_cluster_upgrade example_integration env ''cr-1'' upgrade_world = upgrade_rest env"
proof -
  let ?creds = "ig_credentials example_integration ''k-1''"
  obtain w1 where w1: "get_k8s_clients env ?creds upgrade_world = (Inr (), w1)"
    using assms by (cases "get_k8s_clients env ?creds upgrade_world") (simp add: upgrade_checks_pass_def Let_def)
  with assms obtain w2 where w2: "discover_version env w1 = (Inr ''1.28.8'', w2)"
    by (cases "discover_version env w1") (simp add: upgrade_checks_pass_def Let_def)
  with assms w1 obtain w3 where
    w3: "run_preflight env ''1.28.8'' ''1.29'' (cr_desired_outcome upgrade_cr) w2 = (Inr upgrade_preflight, w3)"
    by (cases "run_preflight env ''1.28.8'' ''1.29'' (cr_desired_outcome upgrade_cr) w2")
      (simp add: upgrade_checks_pass_def Let_def)
  have "upgrade_checked env = w3" using w1 w2 w3 by (simp add: upgrade_checked_def)
  then show ?thesis
    using upgrade_after_checks [where ig = example_integration and env = env and i = "''cr-1''" and
        cr = upgrade_cr and c = "''k-1''" and target = "''1.29''" and w = upgrade_world and
        conn = "example_connector ''k-1'' ''org'' ''kubernetes''" and pf = upgrade_preflight and current = "''1.28.8''", of w1 w2 w3]
      w1 w2 w3
    by (simp add: upgrade_rest_def upgrade_world_def upgrade_cr_def example_world_def get_cr_def lookup_row_def
        example_cr_def example_connector_def example_integration_def detect_provider_def upgrade_preflight_def
        pf_passed_def Let_def)
qed

lemma upgrade_example:
  "upgrade_checks_pass (kube_env [control_node ''v1.29.4''])"
  "case fst (upgrade_rest (kube_env [control_node ''v1.29.4''])) of
     Inr r \<Rightarrow> dget r ''phase'' = Some (PStr ''complete'') | Inl _ \<Rightarrow> False"
  by code_simp+

theorem cluster_upgrade_completes_only_verified_witness:
  "\<exists>r v. fst (execute_k8s_cluster_upgrade example_integration (kube_env [control_node ''v1.29.4'']) ''cr-1''
       upgrade_world) = Inr r \<and>
     dget r ''verify'' = Some (PDict (verify_dict v)) \<and> vs_at_target v = vs_total v"
proof -
  let ?m = "execute_k8s_cluster_upgrade example_integration (kube_env [control_node ''v1.29.4'']) ''cr-1'' upgrade_world"
  obtain r t where run: "?m = (Inr r, t)" and "dget r ''phase'' = Some (PStr ''complete'')"
    using upgrade_example(2) unfolding upgrade_runs [OF upgrade_example(1), symmetric]
    by (cases ?m) (auto split: sum.splits)
  with cluster_upgrade_completes_only_verified [OF run] show ?thesis by auto
qed

lemma stuck_rollback_example:
  "case fst (upgrade_node_rolling stuck_env [''n-1'', ''n-2''] ''1.29.4'' [] example_pool (example_world [])) of
     Inr pool \<Rightarrow>
       (case fst (execute_k8s_cluster_upgrade_rollback example_integration stuck_env ''cr-1''
              [(''node_pools'', PList [PDict pool])] upgrade_world) of
          Inr d \<Rightarrow> dget d ''error'' = None | Inl _ \<Rightarrow> False)
   | Inl _ \<Rightarrow> False"
  by code_simp


end
