(* ===== verification/Activities.thy ===== *)
theory Activities
  imports Fanout KubeUpgrade
begin

text \<open>
  The activities of the execution workflow (\<open>workflows/activities.py\<close>): loading the change
  request with its plan, the status updates (with the stamp of the rollback stack), the loop over
  the steps of a plan with the connector of each and the values carried from one step to the
  next, verification, the rollback of a plan, and the discovery after a completion. Every
  activity is its own database session. Executors that have an entry of their own instead of a
  catalog action (identity fan-outs, reference scans, image transfers, certificate rotations and
  cluster upgrades) are calls to the outside.
\<close>

section \<open>Loading and status updates\<close>

record workflow_data =
  wd_organization_id :: uuid
  wd_change_type :: string
  wd_desired_outcome :: pydict
  wd_target_asset_ids :: "uuid list"
  wd_risk_level :: risk_level
  wd_generated_steps :: "pydict list"
  wd_preflight_checks :: "pydict list"
  wd_rollback_plan :: pydict
  wd_verification_plan :: pydict
  wd_execution_run_id :: "uuid option"

definition workflow_data_of :: "change_request \<Rightarrow> change_plan option \<Rightarrow> execution_run option \<Rightarrow> workflow_data" where
  "workflow_data_of cr plan run =
     \<lparr>wd_organization_id = cr_organization_id cr, wd_change_type = cr_change_type cr,
      wd_desired_outcome = cr_desired_outcome cr, wd_target_asset_ids = cr_target_asset_ids cr,
      wd_risk_level = cr_risk_level cr,
      wd_generated_steps = (case plan of None \<Rightarrow> [] | Some p \<Rightarrow> plan_generated_steps p),
      wd_preflight_checks = (case plan of None \<Rightarrow> [] | Some p \<Rightarrow> plan_preflight_checks p),
      wd_rollback_plan = (case plan of None \<Rightarrow> [] | Some p \<Rightarrow> plan_rollback_plan p),
      wd_verification_plan = (case plan of None \<Rightarrow> [] | Some p \<Rightarrow> plan_verification_plan p),
      wd_execution_run_id = map_option run_id run\<rparr>"

definition load_change_request_and_plan :: "uuid \<Rightarrow> workflow_data prog" where
  "load_change_request_and_plan i =
     (\<lambda>w. (case get_cr w i of
             None \<Rightarrow> Inl (Exn ValueError (''ChangeRequest '' @ i @ '' not found''))
           | Some cr \<Rightarrow> Inr (workflow_data_of cr (get_plan w i) (latest_run (runs_of w i))), w))"

text \<open>The largest sequence number of the other change requests that share a target.\<close>

definition overlapping_sequences :: "world \<Rightarrow> change_request \<Rightarrow> int list" where
  "overlapping_sequences w cr =
     concat (map (\<lambda>c. case cr_application_sequence c of None \<Rightarrow> [] | Some n \<Rightarrow> [n])
       (filter (\<lambda>c. cr_id c \<noteq> cr_id cr \<and>
          list_ex (\<lambda>a. a \<in> set (cr_target_asset_ids cr)) (cr_target_asset_ids c)) (w_crs w)))"

definition next_sequence :: "world \<Rightarrow> change_request \<Rightarrow> int" where
  "next_sequence w cr =
     (case overlapping_sequences w cr of [] \<Rightarrow> 1 | n # ns \<Rightarrow> fold max ns n + 1)"

definition stamp_sequence :: "world \<Rightarrow> change_request \<Rightarrow> change_request" where
  "stamp_sequence w cr =
     (if cr_target_asset_ids cr = [] then cr
      else cr\<lparr>cr_application_sequence := Some (next_sequence w cr),
              cr_applied_at := Some (w_clock w)\<rparr>)"

text \<open>The one project a change request belongs to; a second one is an error that is swallowed.\<close>

definition project_of :: "world \<Rightarrow> uuid \<Rightarrow> uuid option" where
  "project_of w i =
     (case filter (\<lambda>m. member_change_request_id m = i) (w_members w) of
        [m] \<Rightarrow> Some (member_project_id m) | _ \<Rightarrow> None)"

definition notify_project :: "uuid \<Rightarrow> unit prog" where
  "notify_project i =
     bindc (gets (\<lambda>w. project_of w i)) (\<lambda>project. case project of
       None \<Rightarrow> ret () | Some p \<Rightarrow> schedule_task (Task_cr_failed p i))"

definition update_change_request_status :: "uuid \<Rightarrow> string \<Rightarrow> unit prog" where
  "update_change_request_status i status =
     thenc
       (\<lambda>w. case get_cr w i of
          None \<Rightarrow> (Inr (), w)
        | Some cr \<Rightarrow>
            (case change_request_status_of status of
               Inl e \<Rightarrow> (Inl e, w)
             | Inr st \<Rightarrow>
                 (let cr' = cr\<lparr>cr_status := st, cr_updated_at := w_clock w\<rparr>
                  in (Inr (), put_cr (if status = ''completed'' \<and> cr_application_sequence cr = None
                                      then stamp_sequence w cr' else cr') w))))
       (whenc (status = ''failed'') (notify_project i))"

definition update_execution_run_status :: "uuid \<Rightarrow> string \<Rightarrow> pydict \<Rightarrow> unit prog" where
  "update_execution_run_status r status result =
     (\<lambda>w. case get_run w r of
        None \<Rightarrow> (Inr (), w)
      | Some run \<Rightarrow>
          (case execution_status_of status of
             Inl e \<Rightarrow> (Inl e, w)
           | Inr st \<Rightarrow>
               (Inr (), put_run (run\<lparr>run_status := st, run_result := result,
                  run_completed_at := (if status \<in> {''completed'', ''failed'', ''rolled_back''}
                                       then Some (w_clock w) else run_completed_at run)\<rparr>) w)))"

section \<open>Connectors of a step\<close>

text \<open>\<open>str(v)\<close> of a step number.\<close>

fun str_of :: "pyval \<Rightarrow> string" where
  "str_of (PInt i) = string_of_int i"
| "str_of (PStr s) = s"
| "str_of PNone = ''None''"
| "str_of (PBool b) = (if b then ''True'' else ''False'')"
| "str_of _ = ''...''"

text \<open>The connector the plan names.\<close>

definition pinned_connector :: "integration \<Rightarrow> pydict \<Rightarrow> connector option prog" where
  "pinned_connector ig step =
     (let cid = dget_or step ''connector_id'' PNone
      in if \<not> truthy cid then ret None
         else bindc (gets (\<lambda>w. lookup_row connector_id (w_connectors w) (text_of cid))) (\<lambda>found.
           case found of
             None \<Rightarrow> ret None
           | Some c \<Rightarrow> thenc (attach_credentials ig c) (ret (Some c))))"

text \<open>A connector of the first target asset; any failure gives none.\<close>

definition asset_connector ::
  "integration \<Rightarrow> string \<Rightarrow> uuid list \<Rightarrow> uuid option \<Rightarrow> connector option prog" where
  "asset_connector ig ct asset_ids org =
     (case (asset_ids, org) of
        (a # _, Some org') \<Rightarrow>
          if ct = [] then ret None
          else catchc
            (bindc (of_sum (connector_type_of ct)) (\<lambda>ct_enum.
             bindc (gets (\<lambda>w. case lookup_row asset_id (w_assets w) a of
                 None \<Rightarrow> []
               | Some x \<Rightarrow> filter (\<lambda>c. connector_type c = ct_enum \<and>
                     connector_organization_id c = org') (asset_connectors x))) (\<lambda>found.
               case found of
                 [] \<Rightarrow> ret None
               | c # _ \<Rightarrow> thenc (attach_credentials ig c) (ret (Some c)))))
            (\<lambda>_. ret None)
      | _ \<Rightarrow> ret None)"

text \<open>The newest connector of the type in the organization of the change request. It is used even when
  its credentials do not decrypt: the assignment precedes the failure that is swallowed.\<close>

definition fallback_connector :: "uuid \<Rightarrow> string \<Rightarrow> connector option prog" where
  "fallback_connector i ct =
     (if ct \<in> {[], ''unknown''} then ret None
      else case connector_type_of ct of
        Inl e \<Rightarrow> ret None
      | Inr ct_enum \<Rightarrow>
          gets (\<lambda>w. case get_cr w i of
            None \<Rightarrow> None
          | Some cr \<Rightarrow>
              latest_by connector_created_at (connectors_of w (cr_organization_id cr) ct_enum)))"

definition or_else :: "connector option prog \<Rightarrow> connector option prog \<Rightarrow> connector option prog" where
  "or_else m n = bindc m (\<lambda>c. case c of None \<Rightarrow> n | Some _ \<Rightarrow> ret c)"

definition step_connector_of ::
  "integration \<Rightarrow> uuid \<Rightarrow> uuid list \<Rightarrow> uuid option \<Rightarrow> pydict \<Rightarrow> connector option prog" where
  "step_connector_of ig i asset_ids org step =
     (let ct = text_of (dget_or step ''connector_type'' (PStr []))
      in or_else (pinned_connector ig step)
           (or_else (asset_connector ig ct asset_ids org) (fallback_connector i ct)))"

definition known_type :: "string \<Rightarrow> connector option \<Rightarrow> string" where
  "known_type ct conn =
     (case conn of
        None \<Rightarrow> ct
      | Some c \<Rightarrow> if ct \<in> {[], ''unknown''} then connector_type c else ct)"

section \<open>Executing a plan\<close>

definition carry_into :: "pydict \<Rightarrow> pydict \<Rightarrow> pydict" where
  "carry_into carried plan_params =
     dmerge plan_params (filter (\<lambda>(k, _). \<not> truthy (dget_or plan_params k PNone)) carried)"

definition step_id_of :: "pydict \<Rightarrow> pyval" where
  "step_id_of step = PStr (''step_'' @ str_of (dget_or step ''step_number'' (PInt 0)))"

definition execution_parameters ::
  "uuid \<Rightarrow> uuid option \<Rightarrow> pydict \<Rightarrow> pydict \<Rightarrow> pydict \<Rightarrow> pydict" where
  "execution_parameters i org carried step plan_params =
     (let ps = dsetdefault (dsetdefault (carry_into carried plan_params) ''cr_id'' (PStr i))
                 ''step_id'' (step_id_of step)
      in case org of None \<Rightarrow> ps | Some r \<Rightarrow> dsetdefault ps ''org_id'' (PStr r))"

definition is_scalar :: "pyval \<Rightarrow> bool" where
  "is_scalar v = (case v of PNone \<Rightarrow> False | PDict _ \<Rightarrow> False | _ \<Rightarrow> True)"

text \<open>\<open>dict.update\<close> with the outputs of a step that did not report an error.\<close>

definition carry_outputs :: "pydict \<Rightarrow> pydict \<Rightarrow> pydict" where
  "carry_outputs result carried =
     (if dget result ''error'' = None
      then dmerge carried
             (filter (\<lambda>(k, v). k \<notin> {''action'', ''_auto_asset''} \<and> is_scalar v) result)
      else carried)"

definition stops_early :: "string \<Rightarrow> pydict \<Rightarrow> bool" where
  "stops_early action result \<longleftrightarrow>
     action = ''ad_dc_parallel_upgrade'' \<and>
     dget_or result ''status'' PNone \<in> {PStr ''completed'', PStr ''completed_no_demotion''}"

definition step_record :: "pyval \<Rightarrow> pydict \<Rightarrow> string \<Rightarrow> connector option \<Rightarrow> pydict \<Rightarrow> pydict" where
  "step_record number step ct conn result =
     [(''step_number'', number), (''generic_action'', dget_or step ''generic_action'' PNone),
      (''action_id'', dget_or step ''action_id'' (PStr [])), (''connector_type'', PStr ct),
      (''connector_id'', case conn of Some c \<Rightarrow> PStr (connector_id c)
                         | None \<Rightarrow> dget_or step ''connector_id'' PNone),
      (''result'', PDict result)]"

text \<open>One step: its record, and the result.\<close>

definition execute_plan_step ::
  "integration \<Rightarrow> env \<Rightarrow> uuid \<Rightarrow> uuid list \<Rightarrow> uuid option \<Rightarrow> pydict \<Rightarrow> pydict \<Rightarrow>
   (pydict \<times> pydict) prog" where
  "execute_plan_step ig env i asset_ids org carried step =
     bindc (of_sum (as_dict (dget_or step ''parameters'' (PDict [])))) (\<lambda>plan_params.
     bindc (step_connector_of ig i asset_ids org step) (\<lambda>conn.
       let ct = known_type (text_of (dget_or step ''connector_type'' (PStr []))) conn
       in bindc (execute_action ig env ct (text_of (dget_or step ''action_id'' (PStr [])))
                  (execution_parameters i org carried step plan_params) asset_ids conn) (\<lambda>result.
          bindc (of_sum (dindex step ''step_number'')) (\<lambda>number.
            ret (step_record number step ct conn result, result)))))"

fun execute_plan_steps ::
  "integration \<Rightarrow> env \<Rightarrow> uuid \<Rightarrow> uuid list \<Rightarrow> uuid option \<Rightarrow> pydict \<Rightarrow> pydict list \<Rightarrow>
   pydict list prog" where
  "execute_plan_steps ig env i asset_ids org carried [] = ret []"
| "execute_plan_steps ig env i asset_ids org carried (step # steps) =
     bindc (execute_plan_step ig env i asset_ids org carried step) (\<lambda>(rec, result).
       if stops_early (text_of (dget_or step ''action_id'' (PStr []))) result then ret [rec]
       else bindc (execute_plan_steps ig env i asset_ids org (carry_outputs result carried) steps)
              (\<lambda>recs. ret (rec # recs)))"

definition fan_out_change_types :: "string list" where
  "fan_out_change_types =
     [''emergency_user_lockout'', ''user_suspension'', ''enforce_mfa'', ''user_scope_reduction'']"

definition special_call :: "env \<Rightarrow> string \<Rightarrow> change_request \<Rightarrow> pydict prog" where
  "special_call env name cr =
     call env (Call_service name
       [(''change_request_id'', PStr (cr_id cr)), (''change_type'', PStr (cr_change_type cr)),
        (''parameters'', PDict (cr_desired_outcome cr)),
        (''asset_ids'', PList (map PStr (cr_target_asset_ids cr)))])"

definition activity_execute_change ::
  "integration \<Rightarrow> env \<Rightarrow> uuid \<Rightarrow> uuid \<Rightarrow> pydict list \<Rightarrow> uuid list \<Rightarrow> pydict prog" where
  "activity_execute_change ig env fresh i steps asset_ids =
     bindc (gets (\<lambda>w. get_cr w i)) (\<lambda>found.
       let ct = (case found of None \<Rightarrow> [] | Some cr \<Rightarrow> cr_change_type cr);
           plan = bindc (execute_plan_steps ig env i asset_ids
                     (map_option cr_organization_id found) [] steps)
                    (\<lambda>recs. ret [(''steps'', PList (map PDict recs))])
       in case found of
            None \<Rightarrow> plan
          | Some cr \<Rightarrow>
              if ct \<in> set fan_out_change_types then special_call env ''fan_out_executor.execute'' cr
              else if ct = ''scan_for_references'' then special_call env ''orchestrate_scan'' cr
              else if ct = ''credential_rotation'' then execute_steps ig env i
              else if ct = ''certificate_rotation''
                then execute_certificate_rotation ig env i
              else if ct = ''credential_rotation_fanout''
                then execute_credential_rotation_fanout ig env fresh i
              else if ct = ''k8s_cluster_upgrade''
                then execute_k8s_cluster_upgrade ig env i
              else if ct = ''container_image_transfer''
                then special_call env ''container_image_transfer.execute'' cr
              else plan)"

section \<open>Verification\<close>

definition verification_statuses :: "(string \<times> verification_status) list" where
  "verification_statuses =
     [(''passed'', VS_passed), (''failed'', VS_failed), (''unsupported'', VS_unsupported),
      (''manual_required'', VS_manual_required), (''skipped'', VS_skipped_development_only),
      (''skipped_development_only'', VS_skipped_development_only)]"

definition verification_status_of :: "pydict \<Rightarrow> verification_status" where
  "verification_status_of result =
     (case map_of verification_statuses
        (text_of (dget_or result ''status'' (PStr ''unsupported''))) of
        Some v \<Rightarrow> v | None \<Rightarrow> VS_unsupported)"

definition activity_run_verification :: "uuid \<Rightarrow> pydict \<Rightarrow> pydict prog" where
  "activity_run_verification i verification_plan =
     bindc (of_sum (run_verification_checks verification_plan)) (\<lambda>result.
       thenc (modifyc (upd_cr i (\<lambda>c. c\<lparr>cr_verification_status :=
                Some (verification_status_of result)\<rparr>)))
         (ret result))"

section \<open>Rolling a plan back\<close>

text \<open>\<open>execution_result.get("execution", {}).get("steps") or execution_result.get("steps") or []\<close>.\<close>

definition executed_steps :: "pydict \<Rightarrow> exn + pydict list" where
  "executed_steps result =
     (case as_dict (dget_or result ''execution'' (PDict [])) of
        Inl e \<Rightarrow> Inl e
      | Inr d \<Rightarrow>
          (case as_list (por (dget_or d ''steps'' PNone)
                          (por (dget_or result ''steps'' PNone) (PList []))) of
             Inl e \<Rightarrow> Inl e
           | Inr vs \<Rightarrow> as_dicts vs))"

text \<open>The results by step number; a later record of a number replaces an earlier one.\<close>

fun results_by_number :: "pydict list \<Rightarrow> (pyval \<times> pyval) list \<Rightarrow> exn + (pyval \<times> pyval) list" where
  "results_by_number [] acc = Inr acc"
| "results_by_number (r # rs) acc =
     (case dindex r ''step_number'' of
        Inl e \<Rightarrow> Inl e
      | Inr n \<Rightarrow> results_by_number rs ((n, dget_or r ''result'' (PDict [])) # acc))"

definition rollback_action_of :: "pydict \<Rightarrow> pyval" where
  "rollback_action_of step =
     por (dget_or step ''rollback_action'' PNone) (dget_or step ''rollback_action_id'' PNone)"

definition has_rollback :: "pydict \<Rightarrow> bool" where
  "has_rollback step \<longleftrightarrow>
     truthy (rollback_action_of step) \<and> truthy (dget_or step ''rollback_connector_type'' PNone)"

definition rollback_parameters :: "uuid \<Rightarrow> uuid option \<Rightarrow> pydict \<Rightarrow> pydict \<Rightarrow> pydict" where
  "rollback_parameters i org step prior =
     (let ps = dmerge prior
            [(''confirm_terminate'', PBool True), (''cr_id'', PStr i), (''step_id'', step_id_of step)]
      in case org of None \<Rightarrow> ps | Some r \<Rightarrow> dsetdefault ps ''org_id'' (PStr r))"

definition undo_plan_action ::
  "integration \<Rightarrow> env \<Rightarrow> string \<Rightarrow> string \<Rightarrow> pydict \<Rightarrow> pydict \<Rightarrow> connector option \<Rightarrow> pydict prog" where
  "undo_plan_action ig env ct action params prior conn =
     (case get_executor (ig_modules ig) (ig_catalog ig) ct action of
        Inr m \<Rightarrow>
          if em_has_rollback m
          then call env (Call_rollback ct action params prior (map_option connector_id conn))
          else bindc (of_sum (as_list (por (dget_or prior ''_asset_ids'' PNone) (PList [])))) (\<lambda>ids.
            execute_action ig env ct action params (map text_of ids) conn)
      | Inl e \<Rightarrow>
          bindc (of_sum (as_list (por (dget_or prior ''_asset_ids'' PNone) (PList [])))) (\<lambda>ids.
            execute_action ig env ct action params (map text_of ids) conn))"

text \<open>Inside the guarded part of a rollback step: delete the asset the step created, undo the step, and
  delete the asset of an instance it terminated.\<close>

definition undo_plan_step ::
  "integration \<Rightarrow> env \<Rightarrow> string \<Rightarrow> string \<Rightarrow> pydict \<Rightarrow> pydict \<Rightarrow> connector option \<Rightarrow> pydict prog" where
  "undo_plan_step ig env ct action params prior conn =
     (let auto_asset = dget_or prior ''_auto_asset_id'' PNone;
          instance_id = por (dget_or prior ''instance_id'' PNone) (dget_or params ''instance_id'' PNone)
      in thenc (if truthy auto_asset
                then thenc (call env (Call_service ''delete_auto_asset'' [(''asset_id'', auto_asset)])) (ret ())
                else ret ())
         (bindc (undo_plan_action ig env ct action params prior conn) (\<lambda>result.
          thenc (case conn of
                   Some c \<Rightarrow>
                     if action = ''terminate_instance'' \<and> truthy instance_id
                     then thenc (call env (Call_service ''delete_instance_assets''
                            [(''organization_id'', PStr (connector_organization_id c)),
                             (''instance_id'', instance_id)])) (ret ())
                     else ret ()
                 | None \<Rightarrow> ret ())
            (ret result))))"

definition rollback_plan_step ::
  "integration \<Rightarrow> env \<Rightarrow> uuid \<Rightarrow> (pyval \<times> pyval) list \<Rightarrow> pydict \<Rightarrow> pydict prog" where
  "rollback_plan_step ig env i results step =
     (let action = text_of (rollback_action_of step);
          ct0 = text_of (dget_or step ''rollback_connector_type'' PNone)
      in bindc (or_else (pinned_connector ig step) (fallback_connector i ct0)) (\<lambda>conn.
         bindc (of_sum (dindex step ''step_number'')) (\<lambda>number.
         bindc (of_sum (as_dict (case map_of results number of None \<Rightarrow> PDict [] | Some v \<Rightarrow> v))) (\<lambda>prior.
         bindc (gets (\<lambda>w. map_option cr_organization_id (get_cr w i))) (\<lambda>org.
         bindc (catchc (undo_plan_step ig env (known_type ct0 conn) action
                          (rollback_parameters i org step prior) prior conn)
                  (\<lambda>e. ret (rolled_back_error (exn_text e)))) (\<lambda>result.
           ret [(''step_number'', number), (''rollback_action'', rollback_action_of step),
                (''result'', PDict result)]))))))"

definition rollback_plan :: "integration \<Rightarrow> env \<Rightarrow> uuid \<Rightarrow> pydict list \<Rightarrow> pydict \<Rightarrow> pydict prog" where
  "rollback_plan ig env i steps execution_result =
     bindc (of_sum (executed_steps execution_result)) (\<lambda>recs.
     bindc (of_sum (results_by_number recs [])) (\<lambda>results.
     bindc (mapc (rollback_plan_step ig env i results) (filter has_rollback (rev steps))) (\<lambda>rs.
       ret [(''rollback_steps'', PList (map PDict rs))])))"

definition activity_execute_rollback ::
  "integration \<Rightarrow> env \<Rightarrow> uuid \<Rightarrow> pydict list \<Rightarrow> pydict \<Rightarrow> pydict prog" where
  "activity_execute_rollback ig env i steps execution_result =
     bindc (gets (\<lambda>w. get_cr w i)) (\<lambda>found.
       let special = (\<lambda>name cr result. call env (Call_service name
             [(''change_request_id'', PStr (cr_id cr)), (''parameters'', PDict (cr_desired_outcome cr)),
              (''execution_result'', result)]))
       in case found of
            None \<Rightarrow> rollback_plan ig env i steps execution_result
          | Some cr \<Rightarrow>
              if cr_change_type cr \<in> set fan_out_change_types
              then special ''fan_out_executor.rollback'' cr (PDict execution_result)
              else if cr_change_type cr = ''scan_for_references''
              then ret [(''status'', PStr ''no_op''),
                        (''note'', PStr ''scan_for_references has no rollback action'')]
              else if cr_change_type cr = ''container_image_transfer''
              then special ''container_image_transfer.rollback'' cr
                     (dget_or execution_result ''execution'' (PDict execution_result))
              else rollback_plan ig env i steps execution_result)"

section \<open>Discovery after a completion\<close>

definition change_type_discovery :: "(string \<times> (string \<times> string) list) list" where
  "change_type_discovery =
     [(''ec2_launch'', [(''aws'', ''discover_ec2_instances'')]),
      (''ec2_terminate'', [(''aws'', ''discover_ec2_instances'')]),
      (''ec2_stop'', [(''aws'', ''discover_ec2_instances'')]),
      (''ec2_start'', [(''aws'', ''discover_ec2_instances'')]),
      (''ec2_stop_start'', [(''aws'', ''discover_ec2_instances'')]),
      (''s3_block_public_access'', [(''aws'', ''discover_s3_buckets'')]),
      (''promote_db_replica'', [(''aws'', ''discover_rds_instances'')]),
      (''offboard_user'', [(''okta'', ''discover_users''), (''active_directory'', ''discover_identities'')]),
      (''onboard_user'', [(''okta'', ''discover_users''), (''active_directory'', ''discover_identities'')]),
      (''dns_update'', [(''cloudflare'', ''discover_dns_records'')]),
      (''dr_failover'', [(''cloudflare'', ''discover_dns_records'')])]"

definition plan_connector_ids :: "change_plan option \<Rightarrow> uuid list" where
  "plan_connector_ids plan =
     (case plan of
        None \<Rightarrow> []
      | Some p \<Rightarrow> rev (remdups (rev (map (\<lambda>s. text_of (dget_or s ''connector_id'' PNone))
          (filter (\<lambda>s. truthy (dget_or s ''connector_id'' PNone)) (plan_generated_steps p))))))"

text \<open>A connector of the type that the plan used, or else the first of the organization.\<close>

definition discovery_connector :: "world \<Rightarrow> change_request \<Rightarrow> uuid list \<Rightarrow> string \<Rightarrow> connector option" where
  "discovery_connector w cr ids ct =
     (case List.find (\<lambda>x. x \<noteq> None) (map (\<lambda>i. List.find (\<lambda>c. connector_id c = i \<and>
          connector_type c = ct) (w_connectors w)) ids) of
        Some (Some c) \<Rightarrow> Some c
      | _ \<Rightarrow> (case connectors_of w (cr_organization_id cr) ct of [] \<Rightarrow> None | c # _ \<Rightarrow> Some c))"

definition discover_candidate ::
  "integration \<Rightarrow> env \<Rightarrow> change_request \<Rightarrow> uuid list \<Rightarrow> string \<times> string \<Rightarrow> unit prog" where
  "discover_candidate ig env cr ids candidate =
     bindc (gets (\<lambda>w. discovery_connector w cr ids (fst candidate))) (\<lambda>conn.
       case conn of
         None \<Rightarrow> ret ()
       | Some c \<Rightarrow>
           (case get_action_def (ig_catalog ig) (fst candidate) (snd candidate) of
              Inl e \<Rightarrow> if exn_kind e = KeyError then ret () else raise e
            | Inr action_def \<Rightarrow>
                if dget_or action_def ''action_type'' PNone \<noteq> PStr ''ingest'' then ret ()
                else catchc (thenc (call env (Call_service ''ingest''
                       [(''action_id'', PStr (snd candidate)), (''connector_id'', PStr (connector_id c)),
                        (''organization_id'', PStr (cr_organization_id cr))])) (ret ()))
                     (\<lambda>_. ret ())))"

definition activity_post_completion_discovery :: "integration \<Rightarrow> env \<Rightarrow> uuid \<Rightarrow> unit prog" where
  "activity_post_completion_discovery ig env i =
     bindc (gets (\<lambda>w. get_cr w i)) (\<lambda>found.
     bindc (gets (\<lambda>w. plan_connector_ids (get_plan w i))) (\<lambda>ids.
       case found of
         None \<Rightarrow> ret ()
       | Some cr \<Rightarrow>
           seqc (map (discover_candidate ig env cr ids)
             (case map_of change_type_discovery (cr_change_type cr) of None \<Rightarrow> [] | Some cs \<Rightarrow> cs))))"

section \<open>The rollback of a plan unwinds its steps\<close>

text \<open>The calls that undo a step: an asset it created goes first, then its rollback (the executor's own,
  or the action run forwards), then the assets of an instance it terminated.\<close>

definition undo_action_calls ::
  "string \<Rightarrow> string \<Rightarrow> pydict \<Rightarrow> pydict \<Rightarrow> connector option \<Rightarrow> ext_call list \<Rightarrow> bool" where
  "undo_action_calls ct action params prior conn cs \<longleftrightarrow>
     cs = [Call_rollback ct action params prior (map_option connector_id conn)] \<or>
     (\<exists>ids. action_calls ct action params ids conn cs)"

definition inventory_calls :: "string \<Rightarrow> ext_call list \<Rightarrow> bool" where
  "inventory_calls name cs \<longleftrightarrow> cs = [] \<or> (\<exists>p. cs = [Call_service name p])"

definition undo_step_calls ::
  "string \<Rightarrow> string \<Rightarrow> pydict \<Rightarrow> pydict \<Rightarrow> connector option \<Rightarrow> ext_call list \<Rightarrow> bool" where
  "undo_step_calls ct action params prior conn cs \<longleftrightarrow>
     (\<exists>pre mid post. cs = pre @ mid @ post \<and> inventory_calls ''delete_auto_asset'' pre \<and>
        undo_action_calls ct action params prior conn mid \<and>
        inventory_calls ''delete_instance_assets'' post)"

lemma action_calls_Nil [simp]: "action_calls ct action params ids conn []"
  by (simp add: action_calls_def)

lemma inventory_calls_Nil [simp]: "inventory_calls name []"
  by (simp add: inventory_calls_def)

lemma undo_action_calls_Nil [simp]: "undo_action_calls ct action params prior conn []"
  by (simp add: undo_action_calls_def)

lemma undo_step_callsI:
  "inventory_calls ''delete_auto_asset'' pre \<Longrightarrow> undo_action_calls ct action params prior conn mid \<Longrightarrow>
   inventory_calls ''delete_instance_assets'' post \<Longrightarrow>
   undo_step_calls ct action params prior conn (pre @ mid @ post)"
  unfolding undo_step_calls_def by blast

lemma undo_plan_action_calls:
  assumes "undo_plan_action ig env ct action params prior conn w = (x, t)"
  shows "\<exists>cs. t = with_calls cs w \<and> undo_action_calls ct action params prior conn cs"
proof -
  have forward: "\<exists>cs. t = with_calls cs w \<and> undo_action_calls ct action params prior conn cs"
    if run: "bindc (of_sum (as_list (por (dget_or prior ''_asset_ids'' PNone) (PList [])))) (\<lambda>ids.
       execute_action ig env ct action params (map text_of ids) conn) w = (x, t)"
  proof (cases "as_list (por (dget_or prior ''_asset_ids'' PNone) (PList []))")
    case (Inl e)
    with run show ?thesis by (intro exI [of _ "[]"]) (simp add: comp_simps)
  next
    case (Inr ids)
    with run have "execute_action ig env ct action params (map text_of ids) conn w = (x, t)"
      by (simp add: comp_simps)
    from execute_action_calls [OF this] show ?thesis by (auto simp: undo_action_calls_def)
  qed
  show ?thesis
  proof (cases "get_executor (ig_modules ig) (ig_catalog ig) ct action")
    case (Inl e)
    with assms show ?thesis by (intro forward) (simp add: undo_plan_action_def)
  next
    case (Inr m)
    with assms forward show ?thesis
      by (cases "em_has_rollback m") (auto simp: undo_plan_action_def comp_simps undo_action_calls_def)
  qed
qed

lemma undo_plan_step_calls:
  assumes run: "undo_plan_step ig env ct action params prior conn w = (x, t)"
  shows "\<exists>cs. t = with_calls cs w \<and> undo_step_calls ct action params prior conn cs"
proof -
  let ?pre = "if truthy (dget_or prior ''_auto_asset_id'' PNone)
      then thenc (call env (Call_service ''delete_auto_asset''
             [(''asset_id'', dget_or prior ''_auto_asset_id'' PNone)])) (ret ()) else ret ()"
  obtain a u where pre: "?pre w = (a, u)" by fastforce
  then obtain cs where cs: "u = with_calls cs w" "inventory_calls ''delete_auto_asset'' cs"
    by (auto simp: comp_simps inventory_calls_def split: if_splits sum.splits
        intro: that [of "[]"])
  show ?thesis
  proof (cases a)
    case (Inl e)
    with run pre have "t = u" by (simp add: undo_plan_step_def Let_def thenc_apply)
    with cs undo_step_callsI [OF cs(2) undo_action_calls_Nil inventory_calls_Nil] show ?thesis
      by (intro exI [of _ cs]) simp
  next
    case (Inr _)
    obtain b v where mid: "undo_plan_action ig env ct action params prior conn u = (b, v)" by fastforce
    from undo_plan_action_calls [OF this] obtain ds
      where ds: "v = with_calls ds u" "undo_action_calls ct action params prior conn ds" by blast
    have "\<exists>es. t = with_calls es v \<and> inventory_calls ''delete_instance_assets'' es"
    proof (cases b)
      case (Inl e)
      with run pre Inr mid have "t = v" by (simp add: undo_plan_step_def Let_def comp_simps)
      then show ?thesis by (intro exI [of _ "[]"]) simp
    next
      case r: (Inr r)
      have none: "with_calls [] v = v" by simp
      from run pre Inr mid r show ?thesis
        by (cases "\<exists>c. conn = Some c \<and> action = ''terminate_instance'' \<and> truthy
              (por (dget_or prior ''instance_id'' PNone) (dget_or params ''instance_id'' PNone))")
          (auto simp: undo_plan_step_def Let_def comp_simps inventory_calls_def
            split: option.splits if_splits sum.splits intro: exI [of _ "[]"])
    qed
    then obtain es where es: "t = with_calls es v" "inventory_calls ''delete_instance_assets'' es"
      by blast
    from cs ds es undo_step_callsI [OF cs(2) ds(2) es(2)] show ?thesis
      by (intro exI [of _ "cs @ ds @ es"]) simp
  qed
qed

text \<open>What a plan step left behind: the result stored for its number, if it ran.\<close>

definition prior_result :: "(pyval \<times> pyval) list \<Rightarrow> pydict \<Rightarrow> pydict" where
  "prior_result results step =
     (case map_of results (dget_or step ''step_number'' PNone) of Some (PDict d) \<Rightarrow> d | _ \<Rightarrow> [])"

definition plan_step_ok :: "integration \<Rightarrow> (pyval \<times> pyval) list \<Rightarrow> pydict \<Rightarrow> bool" where
  "plan_step_ok ig results step \<longleftrightarrow>
     (\<forall>c. ig_unreadable ig c = None) \<and> dget step ''step_number'' \<noteq> None \<and>
     (case map_of results (dget_or step ''step_number'' PNone) of
        None \<Rightarrow> True | Some v \<Rightarrow> isl (as_dict v) = False)"

definition unwound_plan_step ::
  "uuid \<Rightarrow> (pyval \<times> pyval) list \<Rightarrow> world \<Rightarrow> pydict \<Rightarrow> ext_call list \<Rightarrow> pydict \<Rightarrow> bool" where
  "unwound_plan_step i results w step cs r \<longleftrightarrow>
     (\<exists>conn. undo_step_calls
        (known_type (text_of (dget_or step ''rollback_connector_type'' PNone)) conn)
        (text_of (rollback_action_of step))
        (rollback_parameters i (map_option cr_organization_id (get_cr w i)) step
           (prior_result results step))
        (prior_result results step) conn cs) \<and>
     dget r ''step_number'' = dget step ''step_number'' \<and>
     (\<exists>res. dget r ''result'' = Some (PDict res))"

lemma rest_of_world_get_cr [simp]: "get_cr (rest_of_world w) i = get_cr w i"
  by (simp add: rest_of_world_def)

lemma rollback_connector_returns:
  assumes "\<And>c. ig_unreadable ig c = None"
  shows "\<exists>conn. or_else (pinned_connector ig step) (fallback_connector i ct) w = (Inr conn, w)"
  using assms
  by (auto simp: or_else_def pinned_connector_def fallback_connector_def attach_credentials_def
      Let_def comp_simps split: option.splits sum.splits)

lemma rollback_plan_step_returns:
  assumes ok: "plan_step_ok ig results step"
  shows "\<exists>r cs. rollback_plan_step ig env i results step w = (Inr r, with_calls cs w) \<and>
     unwound_plan_step i results w step cs r"
proof -
  let ?ct = "text_of (dget_or step ''rollback_connector_type'' PNone)"
  let ?action = "text_of (rollback_action_of step)"
  let ?prior = "prior_result results step"
  let ?params = "rollback_parameters i (map_option cr_organization_id (get_cr w i)) step ?prior"
  from ok obtain number where number: "dget step ''step_number'' = Some number"
    and readable: "\<And>c. ig_unreadable ig c = None" by (auto simp: plan_step_ok_def)
  from number have number': "dget_or step ''step_number'' PNone = number" by (simp add: dget_or_def)
  have prior: "as_dict (case map_of results number of None \<Rightarrow> PDict [] | Some v \<Rightarrow> v) = Inr ?prior"
  proof (cases "map_of results number")
    case None
    then show ?thesis by (simp add: prior_result_def number')
  next
    case (Some v)
    with ok number' obtain d where "v = PDict d"
      by (cases "as_dict v") (auto simp: plan_step_ok_def)
    with Some number' show ?thesis by (simp add: prior_result_def)
  qed
  from rollback_connector_returns [of ig step i ?ct w, OF readable] obtain conn
    where conn: "or_else (pinned_connector ig step) (fallback_connector i ?ct) w = (Inr conn, w)"
    by blast
  obtain x t where undo: "undo_plan_step ig env (known_type ?ct conn) ?action ?params ?prior conn w = (x, t)"
    by fastforce
  from undo_plan_step_calls [OF this] obtain cs where t: "t = with_calls cs w"
    and cs: "undo_step_calls (known_type ?ct conn) ?action ?params ?prior conn cs" by blast
  have "\<exists>r. rollback_plan_step ig env i results step w = (Inr r, with_calls cs w) \<and>
      dget r ''step_number'' = Some number \<and> (\<exists>res. dget r ''result'' = Some (PDict res))"
    using number prior conn undo t
    by (cases x) (simp_all add: rollback_plan_step_def Let_def bindc_apply catchc_apply dindex_def)
  with cs number show ?thesis by (auto simp: unwound_plan_step_def)
qed

interpretation plan_rollback: filo_unwind "rollback_plan_step ig env i results" w_calls rest_of_world
    "plan_step_ok ig results" "unwound_plan_step i results" for ig env i results
proof
  fix step w assume "plan_step_ok ig results step"
  from rollback_plan_step_returns [OF this, of env i w]
  show "\<exists>r cs t. rollback_plan_step ig env i results step w = (Inr r, t) \<and> w_calls t = w_calls w @ cs \<and>
      rest_of_world t = rest_of_world w \<and> unwound_plan_step i results (rest_of_world w) step cs r"
    by (fastforce simp: unwound_plan_step_def)
qed

lemma rollback_plan_unwinds:
  assumes "executed_steps result = Inr recs" and "results_by_number recs [] = Inr results"
    and ok: "list_all (plan_step_ok ig results) (filter has_rollback steps)"
  defines "undone \<equiv> filter has_rollback steps"
  shows "\<exists>rs css. rollback_plan ig env i steps result w =
     (Inr [(''rollback_steps'', PList (map PDict rs))], with_calls (concat (rev css)) w) \<and>
     length rs = length undone \<and> length css = length undone \<and>
     (\<forall>k < length undone.
        unwound_plan_step i results w (undone ! k) (css ! k) (rs ! (length undone - Suc k)))"
proof -
  from ok have "list_all (plan_step_ok ig results) undone" by (simp add: undone_def)
  from plan_rollback.unwind [OF this, of env i w] obtain rs css t
    where run: "mapc (rollback_plan_step ig env i results) (rev undone) w = (Inr rs, t)"
      and calls: "w_calls t = w_calls w @ concat css" and rest: "rest_of_world t = rest_of_world w"
      and len: "length rs = length undone" "length css = length undone"
      and each: "\<And>k. k < length undone \<Longrightarrow> unwound_plan_step i results (rest_of_world w) (undone ! k)
          (css ! (length undone - Suc k)) (rs ! (length undone - Suc k))" by blast
  have "t = with_calls (concat css) w" by (rule world_extends [OF rest calls])
  with assms(1,2) run have "rollback_plan ig env i steps result w =
      (Inr [(''rollback_steps'', PList (map PDict rs))], with_calls (concat (rev (rev css))) w)"
    by (simp add: rollback_plan_def bindc_apply undone_def rev_filter)
  moreover have "unwound_plan_step i results w (undone ! k) (rev css ! k) (rs ! (length undone - Suc k))"
    if "k < length undone" for k
    using each [OF that] that len by (simp add: rev_nth unwound_plan_step_def)
  ultimately show ?thesis using len by (intro exI [of _ rs] exI [of _ "rev css"]) simp
qed

text \<open>Rolling a plan back undoes the steps that declare a rollback, last first. Each of them gets
  at most one rollback call, with the parameters rebuilt from the result recorded under its step
  number, apart from the removal of the asset it created and of an instance it terminated. A
  failing step is recorded and the unwinding goes on to the earlier ones; it reports one entry per
  step and changes nothing else in the database.\<close>

theorem plan_rollback_reverse:
  assumes "executed_steps result = Inr recs" and "results_by_number recs [] = Inr results"
    and "list_all (plan_step_ok ig results) (filter has_rollback steps)"
  shows "\<exists>rs css. rollback_plan ig env i steps result w =
     (Inr [(''rollback_steps'', PList (map PDict rs))], with_calls (concat (rev css)) w) \<and>
     length rs = length (filter has_rollback steps) \<and> length css = length rs \<and>
     (\<forall>k < length css. unwound_plan_step i results w (filter has_rollback steps ! k) (css ! k)
        (rs ! (length css - Suc k)))"
  using rollback_plan_unwinds [OF assms, of env i w] by fastforce

definition example_plan_step :: "int \<Rightarrow> string \<Rightarrow> string \<Rightarrow> pydict" where
  "example_plan_step n ct action =
     [(''step_number'', PInt n), (''connector_type'', PStr ct), (''action_id'', PStr action),
      (''parameters'', PDict []), (''rollback_connector_type'', PStr ct),
      (''rollback_action'', PStr action)]"

definition example_plan :: "pydict list" where
  "example_plan =
     [example_plan_step 1 ''aws'' ''ssh_restart'', example_plan_step 2 ''k8s'' ''pod_restart'']"

definition example_plan_result :: pydict where
  "example_plan_result =
     [(''steps'', PList [PDict [(''step_number'', PInt 1), (''result'', PDict [])],
                         PDict [(''step_number'', PInt 2), (''result'', PDict [])]])]"

lemma example_plan_calls:
  "map (\<lambda>c. case c of Call_rollback ct _ _ _ _ \<Rightarrow> ct | _ \<Rightarrow> []) (w_calls (snd (rollback_plan
      example_integration example_env ''cr-1'' example_plan example_plan_result (example_world [])))) =
   [''k8s'', ''aws'']"
  by code_simp

theorem plan_rollback_reverse_witness:
  "\<exists>rs css. rollback_plan example_integration example_env ''cr-1'' example_plan example_plan_result
       (example_world []) =
     (Inr [(''rollback_steps'', PList (map PDict rs))], with_calls (concat (rev css)) (example_world [])) \<and>
     length css = 2 \<and>
     map (\<lambda>c. case c of Call_rollback ct _ _ _ _ \<Rightarrow> ct | _ \<Rightarrow> []) (concat (rev css)) = [''k8s'', ''aws'']"
proof -
  let ?recs = "[[(''step_number'', PInt 1), (''result'', PDict [])],
      [(''step_number'', PInt 2), (''result'', PDict [])]]"
  let ?results = "[(PInt 2, PDict []), (PInt 1, PDict [])]"
  have recs: "executed_steps example_plan_result = Inr ?recs"
    by (simp add: executed_steps_def example_plan_result_def por_def)
  have results: "results_by_number ?recs [] = Inr ?results" by (simp add: dindex_def)
  have all: "filter has_rollback example_plan = example_plan"
    by (simp add: example_plan_def example_plan_step_def has_rollback_def rollback_action_of_def por_def)
  have ok: "list_all (plan_step_ok example_integration ?results) (filter has_rollback example_plan)"
    unfolding all
    by (simp add: example_plan_def plan_step_ok_def example_integration_def example_plan_step_def)
  from plan_rollback_reverse [OF recs results ok, of example_env "''cr-1''" "example_world []"]
  obtain rs css where t: "rollback_plan example_integration example_env ''cr-1'' example_plan
        example_plan_result (example_world []) =
      (Inr [(''rollback_steps'', PList (map PDict rs))], with_calls (concat (rev css)) (example_world []))"
    and len: "length css = length example_plan" by (auto simp: all)
  have none: "w_calls (example_world []) = []" by (simp add: example_world_def)
  from t none example_plan_calls
  have "map (\<lambda>c. case c of Call_rollback ct _ _ _ _ \<Rightarrow> ct | _ \<Rightarrow> []) (concat (rev css)) = [''k8s'', ''aws'']"
    by simp
  with t len show ?thesis
    by (intro exI [of _ rs] exI [of _ css]) (simp add: example_plan_def)
qed

end
