(* ===== verification/Rollback.thy ===== *)
theory Rollback
  imports Activities
begin

text \<open>
  The rollback of one change request (\<open>services/rollback_executor.py\<close>), which the manual rollback
  endpoint runs in the background: it finds the run to undo, dispatches on the change type, and
  derives the terminal status from the outcome of each step.
\<close>

section \<open>What to undo\<close>

text \<open>The newest completed run, or else the newest that is no rollback, or else the newest.\<close>

definition run_to_undo :: "world \<Rightarrow> uuid \<Rightarrow> execution_run option" where
  "run_to_undo w i =
     (let runs = runs_of w i
      in case latest_run (filter (\<lambda>r. run_status r = ES_completed) runs) of
           Some r \<Rightarrow> Some r
         | None \<Rightarrow>
             (case latest_run (filter (\<lambda>r. \<not> is_infix_of ''rollback'' (run_workflow_id r)) runs) of
                Some r \<Rightarrow> Some r
              | None \<Rightarrow> latest_run runs))"

section \<open>The executor fallback\<close>

text \<open>\<open>next((s.get(key) for s in steps if s.get(key)), None)\<close>.\<close>

definition first_field :: "string \<Rightarrow> pydict list \<Rightarrow> pyval" where
  "first_field key steps =
     (case List.find (\<lambda>s. truthy (dget_or s key PNone)) steps of
        None \<Rightarrow> PNone | Some s \<Rightarrow> dget_or s key PNone)"

definition common_types :: "string list" where
  "common_types =
     [''container_registry'', ''active_directory'', ''nexplane_agent'', ''aws'', ''azure_ad'', ''okta'']"

definition types_to_try :: "pyval \<Rightarrow> string list" where
  "types_to_try ct =
     (if truthy ct then [text_of ct] else []) @ filter (\<lambda>t. PStr t \<noteq> ct) common_types"

text \<open>The connector recorded when the step ran must still exist; without one, any connector of the type
  is used, and a failure to load it is only logged.\<close>

definition fallback_rollback_connector ::
  "integration \<Rightarrow> uuid \<Rightarrow> pyval \<Rightarrow> pyval \<Rightarrow> connector option prog" where
  "fallback_rollback_connector ig org cid ct =
     (if truthy cid then
        bindc (gets (\<lambda>w. lookup_row connector_id (w_connectors w) (str_of cid))) (\<lambda>found.
          case found of
            None \<Rightarrow> raise (Exn RuntimeError ''connector no longer exists'')
          | Some c \<Rightarrow> catchc (thenc (attach_credentials ig c) (ret (Some c)))
                        (\<lambda>e. if exn_kind e = RuntimeError then raise e else ret None))
      else if truthy ct then
        catchc
          (bindc (of_sum (connector_type_of (text_of ct))) (\<lambda>ct_enum.
           bindc (gets (\<lambda>w. connectors_of w org ct_enum)) (\<lambda>found.
             case found of
               [] \<Rightarrow> ret None
             | c # _ \<Rightarrow> thenc (attach_credentials ig c) (ret (Some c)))))
          (\<lambda>e. if exn_kind e = RuntimeError then raise e else ret None)
      else ret None)"

fun first_executor :: "integration \<Rightarrow> string list \<Rightarrow> string \<Rightarrow> (string \<times> exec_module) option" where
  "first_executor ig [] action = None"
| "first_executor ig (t # ts) action =
     (case get_executor (ig_modules ig) (ig_catalog ig) t action of
        Inr m \<Rightarrow> Some (t, m) | Inl _ \<Rightarrow> first_executor ig ts action)"

text \<open>The executor of the change type, or else of the action its steps recorded.\<close>

definition fallback_executor ::
  "integration \<Rightarrow> string list \<Rightarrow> string \<Rightarrow> pyval \<Rightarrow> (string \<times> string \<times> exec_module) option" where
  "fallback_executor ig types ct action =
     (case first_executor ig types ct of
        Some (t, m) \<Rightarrow> Some (t, ct, m)
      | None \<Rightarrow>
          if truthy action \<and> text_of action \<noteq> ct
          then map_option (\<lambda>(t, m). (t, text_of action, m)) (first_executor ig types (text_of action))
          else None)"

definition executor_fallback ::
  "integration \<Rightarrow> env \<Rightarrow> change_request \<Rightarrow> pydict \<Rightarrow> pydict prog" where
  "executor_fallback ig env cr execution_result =
     catchc
       (bindc (of_sum (executed_steps execution_result)) (\<lambda>steps.
          let ct = first_field ''connector_type'' steps;
              action = first_field ''action_id'' steps;
              change_type = (if cr_change_type cr = ''catalog_action'' \<and> truthy action
                             then text_of action else cr_change_type cr)
          in bindc (fallback_rollback_connector ig (cr_organization_id cr)
                      (first_field ''connector_id'' steps) ct) (\<lambda>conn.
             case fallback_executor ig (types_to_try ct) change_type action of
               None \<Rightarrow> ret [(''rolled_back'', PBool False),
                            (''reason'', PStr ''no_rollback_function_found'')]
             | Some (t, a, m) \<Rightarrow>
                 if \<not> em_has_rollback m
                 then ret [(''rolled_back'', PBool False),
                           (''reason'', PStr ''no_rollback_function_found'')]
                 else bindc (of_sum (as_dict
                        (case List.find (\<lambda>s. dget_or s ''step_number'' PNone = PInt 1) steps of
                           None \<Rightarrow> PDict execution_result
                         | Some s \<Rightarrow> dget_or s ''result'' (PDict [])))) (\<lambda>step1.
                      bindc (call env (Call_rollback t a (cr_desired_outcome cr) step1
                               (map_option connector_id conn))) (\<lambda>r.
                        ret (if dget r ''rolled_back'' = Some (PBool False)
                             then dput r ''_rollback_no_op'' (PBool True) else r))))))
       (\<lambda>e. ret [(''rolled_back'', PBool False), (''reason'', PStr (exn_text e))])"

section \<open>The terminal status\<close>

definition step_succeeded :: "pydict \<Rightarrow> bool" where
  "step_succeeded s = truthy (dget_or s ''success'' (PBool False))"

definition determine_rollback_status :: "pydict list \<Rightarrow> bool \<Rightarrow> change_request_status" where
  "determine_rollback_status step_results rollback_ran =
     (if \<not> rollback_ran \<or> step_results = [] then CRS_rollback_failed
      else if list_all step_succeeded step_results then CRS_rolled_back
      else if list_ex step_succeeded step_results then CRS_rollback_partial
      else CRS_rollback_failed)"

definition success_of_rollback_step :: "pydict \<Rightarrow> exn + pydict" where
  "success_of_rollback_step s =
     (case as_dict (dget_or s ''result'' (PDict [])) of
        Inl e \<Rightarrow> Inl e
      | Inr r \<Rightarrow> Inr [(''success'', PBool (dget r ''error'' = None))])"

fun map_sum_list :: "('a \<Rightarrow> exn + 'b) \<Rightarrow> 'a list \<Rightarrow> exn + 'b list" where
  "map_sum_list f [] = Inr []"
| "map_sum_list f (x # xs) =
     (case f x of
        Inl e \<Rightarrow> Inl e
      | Inr y \<Rightarrow> (case map_sum_list f xs of Inl e \<Rightarrow> Inl e | Inr ys \<Rightarrow> Inr (y # ys)))"

definition all_succeeded :: "pydict list" where
  "all_succeeded = [[(''success'', PBool True)]]"

text \<open>The outcomes in a result: its steps, or the steps of a plan rollback, where a step failed when its
  result has an error.\<close>

definition outcomes_of :: "pydict \<Rightarrow> exn + pydict list" where
  "outcomes_of result =
     (case executed_steps result of
        Inl e \<Rightarrow> Inl e
      | Inr steps \<Rightarrow>
          if steps \<noteq> [] then Inr steps
          else (case dget_or result ''rollback_steps'' PNone of
                  PList [] \<Rightarrow> Inr all_succeeded
                | PList vs \<Rightarrow>
                    (case as_dicts vs of
                       Inl e \<Rightarrow> Inl e | Inr rs \<Rightarrow> map_sum_list success_of_rollback_step rs)
                | _ \<Rightarrow> Inr []))"

text \<open>Steps that report a status instead.\<close>

definition normalize_outcomes :: "pydict list \<Rightarrow> pydict list" where
  "normalize_outcomes steps =
     (if steps \<noteq> [] \<and> list_all (\<lambda>s. dget s ''success'' = None) steps \<and>
         list_ex (\<lambda>s. dget s ''status'' \<noteq> None) steps
      then map (\<lambda>s. [(''success'', PBool (dget_or s ''status'' PNone = PStr ''ok''))]) steps
      else steps)"

definition rollback_outcome :: "pydict \<Rightarrow> exn + change_request_status" where
  "rollback_outcome result =
     (case outcomes_of result of
        Inl e \<Rightarrow> Inl e
      | Inr raw \<Rightarrow>
          (let steps = normalize_outcomes raw
           in if dget result ''rolled_back'' = Some (PBool True) \<and> steps = []
              then Inr (determine_rollback_status all_succeeded True)
              else if dget result ''rolled_back'' = Some (PBool False) \<and> steps = []
              then (if truthy (dget_or result ''_rollback_no_op'' PNone)
                    then Inr (determine_rollback_status all_succeeded True)
                    else Inr (determine_rollback_status steps False))
              else Inr (determine_rollback_status steps True)))"

section \<open>The rollback of a change request\<close>

text \<open>The rotations and the cluster upgrade unwind their own stack; a warning shows in the status.\<close>

definition finish_unwound :: "uuid \<Rightarrow> pydict \<Rightarrow> pydict prog" where
  "finish_unwound i result =
     thenc (set_status i (if truthy (dget_or result ''has_warnings'' PNone)
                          then CRS_rolled_back_with_warnings else CRS_rolled_back))
       (ret result)"

definition has_rollback_steps :: "pydict list \<Rightarrow> bool" where
  "has_rollback_steps steps \<longleftrightarrow> list_ex (\<lambda>s. truthy (rollback_action_of s)) steps"

definition execute_cr_rollback ::
  "integration \<Rightarrow> env \<Rightarrow> uuid \<Rightarrow> pydict option \<Rightarrow> pydict prog" where
  "execute_cr_rollback ig env i extra =
     bindc (get_cr_one i) (\<lambda>cr.
     bindc (gets (\<lambda>w. run_to_undo w i)) (\<lambda>latest.
     bindc (gets (\<lambda>w. get_plan w i)) (\<lambda>plan.
       let stored = (case latest of None \<Rightarrow> [] | Some r \<Rightarrow> run_result r);
           execution_result = (case extra of None \<Rightarrow> stored
             | Some x \<Rightarrow> if x = [] then stored else dmerge stored x);
           steps = (case plan of None \<Rightarrow> [] | Some p \<Rightarrow> plan_generated_steps p)
       in if cr_change_type cr = ''credential_rotation''
          then bindc (execute_filo_rollback ig env i execution_result) (finish_unwound i)
          else if cr_change_type cr = ''certificate_rotation''
          then bindc (bindc (of_sum (as_dict (dget_or execution_result ''execution'' (PDict execution_result))))
                        (execute_certificate_rollback ig env i))
                 (finish_unwound i)
          else if cr_change_type cr = ''k8s_cluster_upgrade''
          then bindc (execute_k8s_cluster_upgrade_rollback ig env i execution_result) (finish_unwound i)
          else if cr_change_type cr = ''credential_rotation_fanout''
          then bindc (execute_fanout_rollback ig env execution_result) (finish_unwound i)
          else
            bindc (if has_rollback_steps steps
                   then activity_execute_rollback ig env i steps execution_result
                   else executor_fallback ig env cr execution_result) (\<lambda>result.
            bindc (of_sum (rollback_outcome result)) (\<lambda>status.
              thenc (set_status i status) (ret result))))))"

text \<open>The background task of the manual rollback endpoint (\<open>_do_rollback\<close> in
  \<open>routers/change_requests.py\<close>).\<close>

definition finish_run :: "uuid \<Rightarrow> execution_status \<Rightarrow> pydict \<Rightarrow> unit prog" where
  "finish_run rid st result =
     modifyc (\<lambda>w. upd_run rid (\<lambda>r. r\<lparr>run_status := st, run_result := result,
        run_completed_at := Some (w_clock w)\<rparr>) w)"

definition do_rollback :: "integration \<Rightarrow> env \<Rightarrow> uuid \<Rightarrow> uuid \<Rightarrow> unit prog" where
  "do_rollback ig env i rid =
     catchc
       (bindc (execute_cr_rollback ig env i None) (finish_run rid ES_rolled_back))
       (\<lambda>e. thenc (finish_run rid ES_failed [(''error'', PStr (exn_text e))])
              (set_status_only i CRS_failed))"

section \<open>The status tells the outcome of the steps\<close>

definition ordinary_change :: "change_request \<Rightarrow> bool" where
  "ordinary_change cr \<longleftrightarrow>
     cr_change_type cr \<notin> {''credential_rotation'', ''certificate_rotation'',
       ''k8s_cluster_upgrade'', ''credential_rotation_fanout'', ''scan_for_references'',
       ''container_image_transfer''} \<and>
     cr_change_type cr \<notin> set fan_out_change_types"

text \<open>A rollback step counts as failed when its result has an error.\<close>

definition undo_failed :: "pydict \<Rightarrow> bool" where
  "undo_failed r \<longleftrightarrow>
     (\<exists>res. dget r ''result'' = Some (PDict res) \<and> dget res ''error'' \<noteq> None)"

definition plan_rollback_status :: "pydict list \<Rightarrow> change_request_status" where
  "plan_rollback_status rs =
     (if list_all (\<lambda>r. \<not> undo_failed r) rs then CRS_rolled_back
      else if list_ex (\<lambda>r. \<not> undo_failed r) rs then CRS_rollback_partial
      else CRS_rollback_failed)"

lemma success_of_steps:
  "list_all (\<lambda>r. \<exists>res. dget r ''result'' = Some (PDict res)) rs \<Longrightarrow>
   map_sum_list success_of_rollback_step rs =
     Inr (map (\<lambda>r. [(''success'', PBool (\<not> undo_failed r))]) rs)"
  by (induction rs) (auto simp: success_of_rollback_step_def dget_or_def undo_failed_def)

lemma rollback_outcome_of_plan:
  assumes "list_all (\<lambda>r. \<exists>res. dget r ''result'' = Some (PDict res)) rs"
  shows "rollback_outcome [(''rollback_steps'', PList (map PDict rs))] = Inr (plan_rollback_status rs)"
proof (cases rs)
  case Nil
  then show ?thesis
    by (simp add: rollback_outcome_def outcomes_of_def executed_steps_def por_def all_succeeded_def
        normalize_outcomes_def determine_rollback_status_def step_succeeded_def plan_rollback_status_def)
next
  case (Cons r rs')
  have "outcomes_of [(''rollback_steps'', PList (map PDict rs))] =
      Inr (map (\<lambda>r. [(''success'', PBool (\<not> undo_failed r))]) rs)"
    using success_of_steps [OF assms] Cons
    by (simp add: outcomes_of_def executed_steps_def por_def)
  moreover have "normalize_outcomes (map (\<lambda>r. [(''success'', PBool (\<not> undo_failed r))]) rs) =
      map (\<lambda>r. [(''success'', PBool (\<not> undo_failed r))]) rs"
    using Cons by (simp add: normalize_outcomes_def)
  ultimately show ?thesis using Cons
    by (auto simp: rollback_outcome_def determine_rollback_status_def step_succeeded_def
        plan_rollback_status_def list_all_iff list_ex_iff)
qed

text \<open>C12: Rolling back an ordinary change with a plan ends in \<open>rolled_back\<close> when no step that declares
  a rollback reports an error, in \<open>rollback_failed\<close> when every one does, and in
  \<open>rollback_partial\<close> otherwise, whatever the executors answer. (A step that answers
  \<open>rolled_back: False\<close> without an error counts as undone.)\<close>

theorem plan_rollback_status_truthful:
  assumes "get_cr w i = Some cr" and "ordinary_change cr"
    and "get_plan w i = Some plan" and "has_rollback_steps (plan_generated_steps plan)"
    and "executed_steps (case run_to_undo w i of None \<Rightarrow> [] | Some r \<Rightarrow> run_result r) = Inr recs"
    and "results_by_number recs [] = Inr results"
    and "list_all (plan_step_ok ig results) (filter has_rollback (plan_generated_steps plan))"
  shows "\<exists>rs cs. execute_cr_rollback ig env i None w =
     (Inr [(''rollback_steps'', PList (map PDict rs))],
      mark_status i (plan_rollback_status rs) (with_calls cs w)) \<and>
     length rs = length (filter has_rollback (plan_generated_steps plan))"
proof -
  let ?steps = "plan_generated_steps plan"
  let ?result = "case run_to_undo w i of None \<Rightarrow> [] | Some r \<Rightarrow> run_result r"
  from rollback_plan_unwinds [OF assms(5-7), of env i w] obtain rs css
    where run: "rollback_plan ig env i ?steps ?result w =
        (Inr [(''rollback_steps'', PList (map PDict rs))], with_calls (concat (rev css)) w)"
      and len: "length rs = length (filter has_rollback ?steps)"
      and each: "\<forall>k < length (filter has_rollback ?steps). unwound_plan_step i results w
          (filter has_rollback ?steps ! k) (css ! k) (rs ! (length (filter has_rollback ?steps) - Suc k))"
    by blast
  have "\<exists>res. dget (rs ! k) ''result'' = Some (PDict res)" if "k < length rs" for k
    using each [rule_format, of "length rs - Suc k"] that len by (simp add: unwound_plan_step_def)
  then have "list_all (\<lambda>r. \<exists>res. dget r ''result'' = Some (PDict res)) rs"
    by (simp add: list_all_length)
  note outcome = rollback_outcome_of_plan [OF this]
  have "activity_execute_rollback ig env i ?steps ?result w = rollback_plan ig env i ?steps ?result w"
    using assms(1,2) by (simp add: activity_execute_rollback_def ordinary_change_def Let_def)
  with assms(1-4) run outcome have "execute_cr_rollback ig env i None w =
     (Inr [(''rollback_steps'', PList (map PDict rs))],
      mark_status i (plan_rollback_status rs) (with_calls (concat (rev css)) w))"
    by (simp add: execute_cr_rollback_def bindc_apply thenc_apply get_cr_one_def ordinary_change_def
        Let_def set_status_mark)
  with len show ?thesis by blast
qed

text \<open>A fan-out that the workflow completed cannot be rolled back. Its consumers are stored under
  \<open>execution\<close>, where the rollback does not look: no consumer is touched, no call is made, and the
  request is marked \<open>rolled_back\<close> without a warning.\<close>

theorem completed_fanout_rollback_is_noop:
  assumes "get_cr w i = Some cr" and "cr_change_type cr = ''credential_rotation_fanout''"
    and "run_to_undo w i = Some run" and "run_result run = [(''execution'', PDict result)]"
  shows "execute_cr_rollback ig env i None w =
     (Inr [(''consumers'', PList []), (''rotation_result'', PDict []), (''has_warnings'', PBool False)],
      mark_status i CRS_rolled_back w)"
  using assms
  by (simp add: execute_cr_rollback_def bindc_apply thenc_apply get_cr_one_def Let_def
      execute_fanout_rollback_def finish_unwound_def set_status_mark)

text \<open>A cluster upgrade that the workflow completed is in the same position.\<close>

lemma completed_upgrade_rollback_is_noop:
  assumes "get_cr w i = Some cr" and "cr_change_type cr = ''k8s_cluster_upgrade''"
    and "run_to_undo w i = Some run" and "run_result run = [(''execution'', PDict result)]"
  shows "execute_cr_rollback ig env i None w =
     (Inr [(''rollback_note'', PStr rollback_note), (''pools_rolled_back'', PList []), (''has_warnings'', PBool False)],
      mark_status i CRS_rolled_back w)"
  using assms
  by (simp add: execute_cr_rollback_def bindc_apply thenc_apply get_cr_one_def Let_def
      execute_k8s_cluster_upgrade_rollback_def rollback_pools_def pools_to_undo_def finish_unwound_def
      set_status_mark)

text \<open>The background task of a manual rollback always ends, marks its run \<open>rolled_back\<close> exactly
  when the rollback returned a result (even one that left the request \<open>rollback_failed\<close> or
  \<open>rollback_partial\<close>) and \<open>failed\<close> when it raised, and keeps the status the rollback gave the
  request, except that an exception makes it \<open>failed\<close>.\<close>

theorem manual_rollback_run_status:
  assumes "execute_cr_rollback ig env i None w = (x, t)" and "get_run t rid = Some run"
    and "get_cr t i = Some cr"
  shows "\<exists>u run' cr'. do_rollback ig env i rid w = (Inr (), u) \<and>
     get_run u rid = Some run' \<and>
     run_status run' = (case x of Inl _ \<Rightarrow> ES_failed | Inr _ \<Rightarrow> ES_rolled_back) \<and>
     get_cr u i = Some cr' \<and>
     cr_status cr' = (case x of Inl _ \<Rightarrow> CRS_failed | Inr _ \<Rightarrow> cr_status cr) \<and>
     w_calls u = w_calls t"
  using assms
  by (cases x)
    (auto simp: do_rollback_def comp_simps finish_run_def set_status_only_def get_run_upd_run
      get_cr_upd_cr)

section \<open>A change with two steps, whose second step cannot be undone\<close>

definition rollback_run :: execution_run where
  "rollback_run = (new_run ''r-1'' ''cr-1'' ''wf-cr-1'' ES_completed 0)
     \<lparr>run_result := [(''execution'', PDict example_plan_result)]\<rparr>"

definition rollback_world :: world where
  "rollback_world = (example_world [example_cr\<lparr>cr_status := CRS_executing\<rparr>])
     \<lparr>w_runs := [rollback_run, new_run ''r-2'' ''cr-1'' ''wf-rollback-cr-1'' ES_rolling_back 1],
      w_plans := [\<lparr>plan_change_request_id = ''cr-1'', plan_generated_steps = example_plan,
         plan_preflight_checks = [], plan_blast_radius = [], plan_rollback_plan = [],
         plan_verification_plan = []\<rparr>]\<rparr>"

definition failing_k8s :: env where
  "failing_k8s = (\<lambda>_ c. case c of
     Call_rollback ct _ _ _ _ \<Rightarrow> if ct = ''k8s'' then Inl (Exn OtherError ''timeout'') else Inr []
   | _ \<Rightarrow> Inr [])"

lemma rollback_example_status:
  "map_option cr_status (get_cr (snd (execute_cr_rollback example_integration failing_k8s ''cr-1'' None
     rollback_world)) ''cr-1'') = Some CRS_rollback_partial"
  by code_simp

lemma rollback_example_world:
  "get_cr rollback_world ''cr-1'' = Some (example_cr\<lparr>cr_status := CRS_executing\<rparr>)"
  "run_to_undo rollback_world ''cr-1'' = Some rollback_run"
  "map_option plan_generated_steps (get_plan rollback_world ''cr-1'') = Some example_plan"
  "executed_steps (run_result rollback_run) =
     Inr [[(''step_number'', PInt 1), (''result'', PDict [])], [(''step_number'', PInt 2), (''result'', PDict [])]]"
  "ordinary_change (example_cr\<lparr>cr_status := CRS_executing\<rparr>)"
  "has_rollback_steps example_plan"
  by (simp_all add: rollback_world_def example_world_def get_cr_def lookup_row_def example_cr_def
      run_to_undo_def runs_of_def rollback_run_def new_run_def get_plan_def executed_steps_def
      example_plan_result_def por_def ordinary_change_def fan_out_change_types_def
      has_rollback_steps_def example_plan_def example_plan_step_def rollback_action_of_def)

lemma rollback_example_steps:
  "list_all (plan_step_ok example_integration [(PInt 2, PDict []), (PInt 1, PDict [])])
     (filter has_rollback example_plan)"
  by (simp add: example_plan_def example_plan_step_def plan_step_ok_def example_integration_def
      has_rollback_def rollback_action_of_def por_def)

theorem plan_rollback_status_witness:
  "\<exists>rs. length rs = 2 \<and> plan_rollback_status rs = CRS_rollback_partial \<and>
     fst (execute_cr_rollback example_integration failing_k8s ''cr-1'' None rollback_world) =
       Inr [(''rollback_steps'', PList (map PDict rs))]"
proof -
  obtain plan where plan: "get_plan rollback_world ''cr-1'' = Some plan"
      "plan_generated_steps plan = example_plan"
    using rollback_example_world(3) by auto
  let ?recs = "[[(''step_number'', PInt 1), (''result'', PDict [])],
      [(''step_number'', PInt 2), (''result'', PDict [])]]"
  have recs: "executed_steps (case run_to_undo rollback_world ''cr-1'' of None \<Rightarrow> []
      | Some r \<Rightarrow> run_result r) = Inr ?recs"
    by (simp add: rollback_example_world)
  have results: "results_by_number ?recs [] = Inr [(PInt 2, PDict []), (PInt 1, PDict [])]"
    by (simp add: dindex_def)
  have steps: "has_rollback_steps (plan_generated_steps plan)"
    and ok: "list_all (plan_step_ok example_integration [(PInt 2, PDict []), (PInt 1, PDict [])])
        (filter has_rollback (plan_generated_steps plan))"
    using plan rollback_example_world(6) rollback_example_steps by simp_all
  from plan_rollback_status_truthful [OF rollback_example_world(1) rollback_example_world(5) plan(1)
      steps recs results ok, of failing_k8s]
  obtain rs cs where run: "execute_cr_rollback example_integration failing_k8s ''cr-1'' None rollback_world =
      (Inr [(''rollback_steps'', PList (map PDict rs))],
       mark_status ''cr-1'' (plan_rollback_status rs) (with_calls cs rollback_world))"
    and len: "length rs = length (filter has_rollback (plan_generated_steps plan))" by blast
  from run rollback_example_status rollback_example_world(1)
  have "plan_rollback_status rs = CRS_rollback_partial" by simp
  moreover have "length rs = 2"
    using len plan(2)
    by (simp add: example_plan_def example_plan_step_def has_rollback_def rollback_action_of_def por_def)
  ultimately show ?thesis using run by (intro exI [of _ rs]) simp
qed

definition fanout_run_world :: world where
  "fanout_run_world = fanout_world
     \<lparr>w_crs := [example_cr\<lparr>cr_change_type := ''credential_rotation_fanout'', cr_status := CRS_executing\<rparr>],
      w_runs := [(new_run ''r-1'' ''cr-1'' ''wf-cr-1'' ES_completed 0)\<lparr>run_result :=
        [(''execution'', PDict [(''phase'', PStr ''completed''),
           (''consumers'', PList (map PDict example_fanout))])]\<rparr>]\<rparr>"

theorem completed_fanout_rollback_witness:
  "w_calls (snd (execute_cr_rollback example_integration example_env ''cr-1'' None fanout_run_world)) = [] \<and>
   map_option cr_status (get_cr (snd (execute_cr_rollback example_integration example_env ''cr-1'' None
     fanout_run_world)) ''cr-1'') = Some CRS_rolled_back"
proof -
  let ?cr = "example_cr\<lparr>cr_change_type := ''credential_rotation_fanout'', cr_status := CRS_executing\<rparr>"
  have cr: "get_cr fanout_run_world ''cr-1'' = Some ?cr"
    by (simp add: fanout_run_world_def get_cr_def lookup_row_def example_cr_def)
  have run: "run_to_undo fanout_run_world ''cr-1'' = Some ((new_run ''r-1'' ''cr-1'' ''wf-cr-1'' ES_completed 0)
      \<lparr>run_result := [(''execution'', PDict [(''phase'', PStr ''completed''),
           (''consumers'', PList (map PDict example_fanout))])]\<rparr>)"
    by (simp add: fanout_run_world_def run_to_undo_def runs_of_def new_run_def)
  have type: "cr_change_type ?cr = ''credential_rotation_fanout''" by simp
  have empty: "w_calls fanout_run_world = []"
    by (simp add: fanout_run_world_def fanout_world_def example_world_def)
  from completed_fanout_rollback_is_noop [OF cr type run, of "[(''phase'', PStr ''completed''),
           (''consumers'', PList (map PDict example_fanout))]" example_integration example_env]
  show ?thesis by (simp add: cr empty)
qed

theorem manual_rollback_run_status_witness:
  "\<exists>u run cr. do_rollback example_integration failing_k8s ''cr-1'' ''r-2'' rollback_world = (Inr (), u) \<and>
     get_run u ''r-2'' = Some run \<and> run_status run = ES_rolled_back \<and>
     get_cr u ''cr-1'' = Some cr \<and> cr_status cr = CRS_rollback_partial"
proof -
  obtain x t where run: "execute_cr_rollback example_integration failing_k8s ''cr-1'' None rollback_world = (x, t)"
    by fastforce
  have "map_option cr_status (get_cr t ''cr-1'') = Some CRS_rollback_partial"
    using rollback_example_status run by simp
  then obtain cr where cr: "get_cr t ''cr-1'' = Some cr" "cr_status cr = CRS_rollback_partial" by auto
  have "(case fst (execute_cr_rollback example_integration failing_k8s ''cr-1'' None rollback_world) of
      Inl _ \<Rightarrow> False | Inr _ \<Rightarrow> True)" by code_simp
  with run obtain r where x: "x = Inr r" by (cases x) auto
  have "(case get_run (snd (execute_cr_rollback example_integration failing_k8s ''cr-1'' None
      rollback_world)) ''r-2'' of None \<Rightarrow> False | Some _ \<Rightarrow> True)" by code_simp
  with run obtain run' where run': "get_run t ''r-2'' = Some run'" by (auto split: option.splits)
  from manual_rollback_run_status [OF run run' cr(1)] x cr(2) show ?thesis by auto
qed

end
