(* ===== verification/Workflow.thy ===== *)
theory Workflow
  imports Rollback
begin

text \<open>
  The execution workflow (\<open>workflows/execute_change_workflow.py\<close>) and its runner
  (\<open>workflows/runner.py\<close>): load, preflight, execute, verify, complete, with the branches of the
  change types that pause and the automatic rollback. Every activity commits for itself, so what
  was done before an exception stays done. The branches on \<open>snapshot_before\<close>,
  \<open>verification_checks\<close> and \<open>source\<close> are left out: the data the workflow loads has no such keys,
  so they are never taken.
\<close>

section \<open>Pieces\<close>

text \<open>Who runs the workflow, and on which run.\<close>

record workflow_run =
  wr_cr :: uuid
  wr_org :: uuid
  wr_actor :: uuid
  wr_run :: "uuid option"

definition audit :: "workflow_run \<Rightarrow> string \<Rightarrow> unit prog" where
  "audit wr ty = record_event (wr_org wr) ty (Some (wr_actor wr)) (Some (wr_cr wr))"

definition update_run :: "workflow_run \<Rightarrow> string \<Rightarrow> pydict \<Rightarrow> unit prog" where
  "update_run wr status result =
     (case wr_run wr of None \<Rightarrow> ret () | Some r \<Rightarrow> update_execution_run_status r status result)"

definition set_cr :: "workflow_run \<Rightarrow> string \<Rightarrow> unit prog" where
  "set_cr wr status = update_change_request_status (wr_cr wr) status"

text \<open>\<open>[c["name"] for c in checks]\<close>.\<close>

definition check_names :: "pydict list \<Rightarrow> exn + pyval list" where
  "check_names checks = map_sum_list (\<lambda>c. dindex c ''name'') checks"

section \<open>Endings\<close>

definition complete_change :: "workflow_run \<Rightarrow> pydict \<Rightarrow> unit prog" where
  "complete_change wr result =
     thenc (set_cr wr ''completed'')
     (thenc (update_run wr ''completed'' [(''execution'', PDict result)])
       (audit wr ''workflow.completed''))"

definition fail_change :: "workflow_run \<Rightarrow> pydict \<Rightarrow> unit prog" where
  "fail_change wr result =
     thenc (audit wr ''execution.failed'')
     (thenc (set_cr wr ''failed'')
       (update_run wr ''failed'' result))"

definition pause_change :: "workflow_run \<Rightarrow> pydict \<Rightarrow> unit prog" where
  "pause_change wr result =
     thenc (update_run wr ''running'' result)
     (thenc (audit wr ''execution.paused'')
       (set_cr wr ''paused''))"

text \<open>A credential rotation has set its own status when it paused.\<close>

definition after_credential_rotation :: "workflow_run \<Rightarrow> pydict \<Rightarrow> unit prog" where
  "after_credential_rotation wr result =
     (if truthy (dget_or result ''paused'' PNone)
      then thenc (update_run wr ''running'' result) (audit wr ''execution.paused'')
      else complete_change wr result)"

definition after_pausable :: "workflow_run \<Rightarrow> pydict \<Rightarrow> unit prog" where
  "after_pausable wr result =
     (if truthy (dget_or result ''paused'' PNone) then pause_change wr result
      else complete_change wr result)"

definition after_cluster_upgrade :: "workflow_run \<Rightarrow> pydict \<Rightarrow> unit prog" where
  "after_cluster_upgrade wr result =
     (if truthy (dget_or result ''paused'' PNone) then pause_change wr result
      else if truthy (dget_or result ''failed'' PNone)
      then thenc (update_run wr ''failed'' result) (set_cr wr ''failed'')
      else complete_change wr result)"

text \<open>A result, or the result of its first step, that says \<open>failed\<close>.\<close>

definition soft_failure :: "pydict \<Rightarrow> exn + bool" where
  "soft_failure result =
     (if dget result ''failed'' = Some (PBool True) then Inr True
      else case as_list (por (dget_or result ''steps'' PNone) (PList [])) of
        Inl e \<Rightarrow> Inl e
      | Inr [] \<Rightarrow> Inr False
      | Inr (v # _) \<Rightarrow>
          (case as_dict v of
             Inl e \<Rightarrow> Inl e
           | Inr s \<Rightarrow>
               Inr (case dget_or s ''result'' PNone of
                      PDict r \<Rightarrow> dget r ''failed'' = Some (PBool True) | _ \<Rightarrow> False)))"

section \<open>After the execution\<close>

text \<open>What the execution of some change types leaves in the inventory.\<close>

definition post_execution :: "env \<Rightarrow> workflow_data \<Rightarrow> pydict \<Rightarrow> unit prog" where
  "post_execution env data result =
     (let service = (\<lambda>name. thenc (call env (Call_service name
            [(''asset_ids'', PList (map PStr (wd_target_asset_ids data))),
             (''execution_result'', PDict result)])) (ret ()))
      in if wd_change_type data = ''agent_appdiscovery''
         then service ''write_discovered_apps_to_metadata''
         else if wd_change_type data = ''agent_containerize_build''
         then service ''write_build_result_to_metadata''
         else if wd_change_type data = ''agent_containerize_retire'' then service ''mark_asset_retired''
         else if wd_change_type data \<in> {''change_ip'', ''migrate_ip''}
         then service ''update_asset_ip_metadata''
         else if wd_change_type data = ''k8s_workload_deploy'' then service ''register_workload_asset''
         else ret ())"

definition quietly :: "unit prog \<Rightarrow> unit prog" where
  "quietly m = catchc m (\<lambda>_. ret ())"

definition notify_completed :: "env \<Rightarrow> string \<Rightarrow> uuid \<Rightarrow> unit prog" where
  "notify_completed env name i =
     quietly (thenc (call env (Call_service name [(''change_request_id'', PStr i)])) (ret ()))"

definition verification_passed ::
  "integration \<Rightarrow> env \<Rightarrow> workflow_run \<Rightarrow> pydict \<Rightarrow> pydict \<Rightarrow> unit prog" where
  "verification_passed ig env wr result verification =
     thenc (audit wr ''verification.passed'')
     (thenc (set_cr wr ''completed'')
     (thenc (update_run wr ''completed''
        [(''execution'', PDict result), (''verification'', PDict verification)])
     (thenc (audit wr ''workflow.completed'')
     (thenc (activity_post_completion_discovery ig env (wr_cr wr))
     (thenc (notify_completed env ''drift.on_cr_completed'' (wr_cr wr))
       (notify_completed env ''close_linked_findings'' (wr_cr wr)))))))"

text \<open>The outcome of the automatic rollback, from the steps it reports.\<close>

definition automatic_rollback_status :: "pydict \<Rightarrow> exn + change_request_status" where
  "automatic_rollback_status rollback =
     (case as_list (por (dget_or rollback ''rollback_steps'' PNone) (PList [])) of
        Inl e \<Rightarrow> Inl e
      | Inr vs \<Rightarrow>
          (case as_dicts vs of
             Inl e \<Rightarrow> Inl e
           | Inr raw \<Rightarrow>
               (case (if raw \<noteq> [] then map_sum_list success_of_rollback_step raw
                      else (case as_list (por (dget_or rollback ''steps'' PNone) (PList [])) of
                              Inl e \<Rightarrow> Inl e | Inr ss \<Rightarrow> as_dicts ss)) of
                  Inl e \<Rightarrow> Inl e
                | Inr steps \<Rightarrow>
                    Inr (determine_rollback_status steps
                      (steps \<noteq> [] \<or> truthy (dget_or rollback ''rolled_back'' (PBool True)))))))"

definition verification_failed ::
  "integration \<Rightarrow> env \<Rightarrow> workflow_run \<Rightarrow> workflow_data \<Rightarrow> pydict \<Rightarrow> unit prog" where
  "verification_failed ig env wr data result =
     thenc (audit wr ''verification.failed'')
     (thenc (audit wr ''rollback.started'')
     (thenc (update_run wr ''rolling_back'' [])
     (bindc (activity_execute_rollback ig env (wr_cr wr) (wd_generated_steps data) result) (\<lambda>rollback.
      bindc (of_sum (automatic_rollback_status rollback)) (\<lambda>st.
       thenc (set_cr wr (change_request_status_value st))
       (thenc (update_run wr (change_request_status_value st)
          [(''rollback'', PDict rollback), (''reason'', PStr ''verification_failed'')])
       (thenc (audit wr ''rollback.completed'')
         (audit wr ''workflow.completed''))))))))"

definition verify_change ::
  "integration \<Rightarrow> env \<Rightarrow> workflow_run \<Rightarrow> workflow_data \<Rightarrow> pydict \<Rightarrow> unit prog" where
  "verify_change ig env wr data result =
     thenc (post_execution env data result)
     (thenc (audit wr ''execution.completed'')
     (thenc (set_cr wr ''verifying'')
     (bindc (of_sum (as_list (dget_or (wd_verification_plan data) ''checks'' (PList [])))) (\<lambda>vs.
      bindc (of_sum (as_dicts vs)) (\<lambda>checks.
      bindc (of_sum (check_names checks)) (\<lambda>_.
       thenc (audit wr ''verification.started'')
       (bindc (activity_run_verification (wr_cr wr) (wd_verification_plan data)) (\<lambda>verification.
          if truthy (dget_or verification ''all_passed'' PNone)
          then verification_passed ig env wr result verification
          else verification_failed ig env wr data result))))))))"

definition after_execution ::
  "integration \<Rightarrow> env \<Rightarrow> workflow_run \<Rightarrow> workflow_data \<Rightarrow> pydict \<Rightarrow> unit prog" where
  "after_execution ig env wr data result =
     (let ct = wd_change_type data
      in if ct = ''credential_rotation'' then after_credential_rotation wr result
         else if ct = ''certificate_rotation'' \<or> ct = ''credential_rotation_fanout''
         then after_pausable wr result
         else if ct = ''k8s_cluster_upgrade'' then after_cluster_upgrade wr result
         else if ct = ''ad_dc_parallel_upgrade'' then complete_change wr result
         else bindc (of_sum (soft_failure result)) (\<lambda>failed.
           if failed
           then fail_change wr [(''execution'', PDict result), (''soft_failure'', PBool True)]
           else verify_change ig env wr data result))"

section \<open>The workflow\<close>

datatype execution_outcome = Executed pydict | Raised exn

definition execute_phase ::
  "integration \<Rightarrow> env \<Rightarrow> uuid \<Rightarrow> workflow_run \<Rightarrow> workflow_data \<Rightarrow> execution_outcome prog" where
  "execute_phase ig env fresh wr data =
     catchc
       (bindc (activity_execute_change ig env fresh (wr_cr wr) (wd_generated_steps data)
                 (wd_target_asset_ids data)) (\<lambda>r. ret (Executed r)))
       (\<lambda>e. ret (Raised e))"

definition failed_results :: "pydict \<Rightarrow> pyval list" where
  "failed_results checks =
     (case dget_or checks ''results'' PNone of
        PList vs \<Rightarrow> filter (\<lambda>v. case v of
            PDict r \<Rightarrow> \<not> truthy (dget_or r ''passed'' PNone) | _ \<Rightarrow> False) vs
      | _ \<Rightarrow> [])"

definition preflight_phase :: "workflow_run \<Rightarrow> workflow_data \<Rightarrow> bool prog" where
  "preflight_phase wr data =
     thenc (set_cr wr ''executing'')
     (bindc (of_sum (check_names (wd_preflight_checks data))) (\<lambda>_.
      thenc (audit wr ''preflight.started'')
      (bindc (of_sum (run_preflight_checks (wd_preflight_checks data))) (\<lambda>preflight.
        if \<not> truthy (dget_or preflight ''all_passed'' PNone)
        then thenc (audit wr ''preflight.failed'')
             (thenc (set_cr wr ''failed'')
             (thenc (update_run wr ''failed'' [(''reason'', PStr ''preflight_failed''),
                (''details'', PList (failed_results preflight))]) (ret False)))
        else thenc (audit wr ''preflight.passed'') (ret True)))))"

definition execute_change_workflow ::
  "integration \<Rightarrow> env \<Rightarrow> uuid \<Rightarrow> uuid \<Rightarrow> uuid \<Rightarrow> uuid \<Rightarrow> unit prog" where
  "execute_change_workflow ig env fresh i org actor =
     bindc (load_change_request_and_plan i) (\<lambda>data.
       let wr = \<lparr>wr_cr = i, wr_org = org, wr_actor = actor, wr_run = wd_execution_run_id data\<rparr>
       in thenc (audit wr ''workflow.started'')
          (bindc (preflight_phase wr data) (\<lambda>passed.
             if \<not> passed then ret ()
             else thenc (audit wr ''execution.started'')
               (bindc (execute_phase ig env fresh wr data) (\<lambda>out. case out of
                  Raised e \<Rightarrow> fail_change wr [(''error'', PStr (exn_text e))]
                | Executed result \<Rightarrow> after_execution ig env wr data result)))))"

text \<open>\<open>_run_with_error_capture\<close>: an exception of the workflow is logged and dropped.\<close>

definition run_workflow :: "integration \<Rightarrow> env \<Rightarrow> uuid \<Rightarrow> uuid \<Rightarrow> uuid \<Rightarrow> uuid \<Rightarrow> unit prog" where
  "run_workflow ig env fresh i org actor =
     quietly (execute_change_workflow ig env fresh i org actor)"

text \<open>\<open>_resume_execution\<close> (\<open>routers/change_requests.py\<close>).\<close>

definition resume_execution :: "integration \<Rightarrow> env \<Rightarrow> uuid \<Rightarrow> uuid \<Rightarrow> unit prog" where
  "resume_execution ig env fresh i =
     catchc
       (bindc (gets (\<lambda>w. map_option cr_change_type (get_cr w i))) (\<lambda>ct.
          if ct = Some ''credential_rotation_fanout''
          then voidc (execute_credential_rotation_fanout ig env fresh i)
          else voidc (execute_steps ig env i)))
       (\<lambda>_. set_status i CRS_failed)"

end
