(* ===== verification/Background.thy ===== *)
theory Background
  imports Workflow
begin

text \<open>
  What background work leaves alone. Executors, activities and rollbacks write the status and the result of
  requests and runs, and call the outside; they change neither what identifies a change request nor the
  projects. The locale \<open>background\<close> states what such a promise must allow, and derives it for every computation
  of the executors; it is used for the identity of the change requests and for the rows of the projects.
\<close>

section \<open>What identifies a change request\<close>

named_theorems steadied \<open>computations that keep what identifies the change requests\<close>

definition same_row :: "change_request \<Rightarrow> change_request \<Rightarrow> bool" where
  "same_row c c' \<longleftrightarrow> cr_id c' = cr_id c \<and> cr_organization_id c' = cr_organization_id c \<and>
     cr_change_type c' = cr_change_type c \<and> cr_target_asset_ids c' = cr_target_asset_ids c \<and>
     cr_application_sequence c' = cr_application_sequence c"

definition same_rows :: "cr_view \<Rightarrow> cr_view \<Rightarrow> bool" where
  "same_rows G G' \<longleftrightarrow> (\<forall>j. rel_option same_row (G j) (G' j))"

lemma same_row_refl [simp]: "same_row c c"
  by (simp add: same_row_def)

lemma same_rows_refl [simp]: "same_rows G G"
  by (simp add: same_rows_def option.rel_refl)

lemma same_rows_eq: "(\<And>j. G' j = G j) \<Longrightarrow> same_rows G G'"
  by (simp add: same_rows_def option.rel_refl)

lemma same_row_trans: "same_row a b \<Longrightarrow> same_row b c \<Longrightarrow> same_row a c"
  by (simp add: same_row_def)

lemma same_rows_trans:
  assumes "same_rows G G'" and "same_rows G' G''"
  shows "same_rows G G''"
  unfolding same_rows_def
proof
  fix j
  have "rel_option same_row (G j) (G' j)" "rel_option same_row (G' j) (G'' j)"
    using assms by (simp_all add: same_rows_def)
  then show "rel_option same_row (G j) (G'' j)"
    by (cases "G j"; cases "G' j"; cases "G'' j") (auto intro: same_row_trans)
qed

lemma same_rowsD: "same_rows G G' \<Longrightarrow> G j = Some c \<Longrightarrow> \<exists>c'. G' j = Some c' \<and> same_row c c'"
  unfolding same_rows_def by (metis option_rel_Some1)

lemma same_rowsD2: "same_rows G G' \<Longrightarrow> G' j = Some c' \<Longrightarrow> \<exists>c. G j = Some c \<and> same_row c c'"
  unfolding same_rows_def by (metis option_rel_Some2)


definition project_rows ::
  "world \<Rightarrow> project list \<times> project_member list \<times> project_rollback list \<times> project_rollback_step list" where
  "project_rows w = (w_projects w, w_members w, w_rollbacks w, w_steps w)"

lemma project_rows_with_calls [simp]: "project_rows (with_calls cs w) = project_rows w"
  by (simp add: project_rows_def with_calls_def)

lemma project_rows_upd [simp]:
  "project_rows (upd_cr i f w) = project_rows w" "project_rows (upd_run i g w) = project_rows w"
  by (simp_all add: project_rows_def)

section \<open>The promise\<close>

locale background =
  fixes kept :: "world \<Rightarrow> world \<Rightarrow> bool"
  assumes kept_trans: "kept u v \<Longrightarrow> kept v w \<Longrightarrow> kept u w"
    and kept_other: "w_crs t = w_crs w \<Longrightarrow> project_rows t = project_rows w \<Longrightarrow> kept w t"
    and kept_upd_cr: "(\<And>c. same_row c (f c)) \<Longrightarrow> kept w (upd_cr i f w)"
begin

lemma kept_refl: "kept w w"
  by (simp add: kept_other)

definition steady :: "'a prog \<Rightarrow> bool" where
  "steady m \<longleftrightarrow> (\<forall>w. kept w (snd (m w)))"

lemma steadyD: "steady m \<Longrightarrow> m w = (x, t) \<Longrightarrow> kept w t"
  unfolding steady_def by (metis snd_conv)

lemma steadyI: "(\<And>w. kept w (snd (m w))) \<Longrightarrow> steady m"
  by (simp add: steady_def)

lemma steady_run: "steady m \<Longrightarrow> kept v w \<Longrightarrow> kept v (snd (m w))"
  unfolding steady_def using kept_trans by blast

lemma steady_pure [steadied]:
  "steady (ret x)" "steady (raise e)" "steady (gets f)" "steady (of_sum r)"
  by (simp_all add: steady_def kept_refl)

lemma steady_bindc [steadied]: "steady m \<Longrightarrow> (\<And>x. steady (f x)) \<Longrightarrow> steady (bindc m f)"
  by (rule steadyI) (auto simp: bindc_def split: prod.splits sum.splits
      intro!: steady_run intro: steadyD)

lemma steady_thenc [steadied]: "steady m \<Longrightarrow> steady n \<Longrightarrow> steady (thenc m n)"
  unfolding thenc_def by (rule steady_bindc)

lemma steady_catchc [steadied]: "steady m \<Longrightarrow> (\<And>e. steady (h e)) \<Longrightarrow> steady (catchc m h)"
  by (rule steadyI) (auto simp: catchc_def split: prod.splits sum.splits
      intro!: steady_run intro: steadyD)

lemma steady_whenc [steadied]: "(b \<Longrightarrow> steady m) \<Longrightarrow> steady (whenc b m)"
  by (simp add: whenc_def steady_pure)

lemma steady_mapc [steadied]: "(\<And>x. steady (f x)) \<Longrightarrow> steady (mapc f xs)"
  by (induction xs) (simp_all add: steadied del: bindc_ret)

lemma steady_seqc [steadied]: "(\<And>m. m \<in> set ms \<Longrightarrow> steady m) \<Longrightarrow> steady (seqc ms)"
  by (induction ms) (simp_all add: steadied)

lemma steady_if [steadied]: "(b \<Longrightarrow> steady m) \<Longrightarrow> (\<not> b \<Longrightarrow> steady n) \<Longrightarrow> steady (if b then m else n)"
  by simp

lemma steady_case_option [steadied]:
  "(z = None \<Longrightarrow> steady m) \<Longrightarrow> (\<And>x. z = Some x \<Longrightarrow> steady (f x)) \<Longrightarrow>
   steady (case z of None \<Rightarrow> m | Some x \<Rightarrow> f x)"
  by (cases z) simp_all

lemma steady_case_prod [steadied]: "(\<And>a b. steady (f a b)) \<Longrightarrow> steady (case z of (a, b) \<Rightarrow> f a b)"
  by (cases z) simp

lemma steady_case_sum [steadied]:
  "(\<And>e. steady (f e)) \<Longrightarrow> (\<And>x. steady (g x)) \<Longrightarrow> steady (case z of Inl e \<Rightarrow> f e | Inr x \<Rightarrow> g x)"
  by (cases z) simp_all

lemma steady_case_list [steadied]:
  "steady m \<Longrightarrow> (\<And>x xs. steady (f x xs)) \<Longrightarrow> steady (case z of [] \<Rightarrow> m | x # xs \<Rightarrow> f x xs)"
  by (cases z) simp_all

lemma steady_case_pyval [steadied]:
  "steady a \<Longrightarrow> (\<And>x. steady (b x)) \<Longrightarrow> (\<And>x. steady (c x)) \<Longrightarrow> (\<And>x. steady (d x)) \<Longrightarrow>
   (\<And>x. steady (e x)) \<Longrightarrow> (\<And>x. steady (f x)) \<Longrightarrow>
   steady (case v of PNone \<Rightarrow> a | PBool x \<Rightarrow> b x | PInt x \<Rightarrow> c x | PStr x \<Rightarrow> d x | PList x \<Rightarrow> e x
     | PDict x \<Rightarrow> f x)"
  by (cases v) simp_all

lemma steady_transact [steadied]: "steady m \<Longrightarrow> steady (transact m)"
proof (rule steadyI)
  fix w assume "steady m"
  then show "kept w (snd (transact m w))"
    using steadyD [of m w] kept_other [of "w\<lparr>w_calls := cs\<rparr>" w for cs]
    by (auto simp: transact_def project_rows_def split: prod.splits sum.splits)
qed

lemma steady_modifyc:
  "(\<And>w. w_crs (f w) = w_crs w) \<Longrightarrow> (\<And>w. project_rows (f w) = project_rows w) \<Longrightarrow> steady (modifyc f)"
  by (simp add: steady_def kept_other)

lemma steady_upd_cr:
  "(\<And>w c. same_row c (f w c)) \<Longrightarrow> steady (modifyc (\<lambda>w. upd_cr i (f w) w))"
  by (rule steadyI) (simp add: kept_upd_cr)

lemma steady_basic [steadied]:
  "steady (record_event org ty a c)" "steady (call env ec)" "steady (schedule_task tk)"
  "steady (set_run_result r d)" "steady (set_run_status r es)" "steady (add_run run)"
  "steady (set_status i st)" "steady (set_status_only i st)" "steady (get_cr_one i)"
  "steady (finish_run r es d)" "steady (complete_rotation_run i d)" "steady (attach_credentials ig conn)"
proof -
  show "steady (set_status i st)"
    unfolding set_status_def by (rule steady_upd_cr) (simp add: same_row_def)
  show "steady (set_status_only i st)"
    unfolding set_status_only_def using steady_upd_cr [of "\<lambda>_ c. c\<lparr>cr_status := st\<rparr>" i]
    by (simp add: same_row_def)
qed (auto intro!: steadyI kept_other kept_refl simp: record_event_def call_apply schedule_task_def
    set_run_result_def set_run_status_def add_run_def get_cr_one_def finish_run_def with_calls_def
    complete_rotation_run_def attach_credentials_def project_rows_def split: option.splits)

section \<open>Every background computation is steady\<close>

lemma steady_resolve [steadied]: "steady (resolve_connector ig ct org)"
  by (rule steadyI) (simp add: resolve_connector_apply kept_refl)

lemma steady_execute_action [steadied]: "steady (execute_action ig env ct action params assets conn)"
  unfolding execute_action_def run_executor_def upsert_auto_asset_def by (intro steadied)

lemma steady_try_step [steadied]: "steady (try_step ig env org step)"
  unfolding try_step_def attempt_step_def by (intro steadied)

lemma steady_persist [steadied]: "steady (persist_steps run steps)"
  unfolding persist_steps_def by (intro steadied)

lemma steady_run_steps [steadied]: "steady (run_steps ig env cr run done vs)"
proof (induction vs arbitrary: "done")
  case Nil
  show ?case unfolding run_steps.simps by (rule steady_pure)
next
  case (Cons v vs)
  have step: "steady (case out of Step_done r \<Rightarrow> f r | Step_failed e \<Rightarrow> g e)"
    if "\<And>r. steady (f r)" "\<And>e. steady (g e)" for out and f g :: "_ \<Rightarrow> 'x prog"
    using that by (cases out) simp_all
  show ?case unfolding run_steps.simps by (intro steadied step Cons.IH)
qed

lemma steady_execute_steps [steadied]: "steady (execute_steps ig env i)"
  unfolding execute_steps_def by (intro steadied)

lemma steady_pick [steadied]: "steady (pick_connector ig first cs)"
  by (induction cs arbitrary: first) (simp_all add: steadied)

lemma steady_load_connector [steadied]: "steady (load_connector_by_type ig ct org)"
  unfolding load_connector_by_type_def by (intro steadied)

lemma steady_cached [steadied]: "steady (cached_connector ig ct org cache)"
  unfolding cached_connector_def by (intro steadied)

lemma steady_scan_all [steadied]: "steady (scan_all ig env terms i org scopes)"
  unfolding scan_all_def run_scan_for_scope_def scan_with_def by (intro steadied)

lemma steady_update_consumer [steadied]: "steady (update_consumer ig env v c cache)"
  unfolding update_consumer_def call_update_def by (intro steadied)

lemma steady_update_pending [steadied]: "steady (update_pending ig env v cache cs)"
proof (induction cs arbitrary: cache)
  case Nil
  show ?case unfolding update_pending.simps by (rule steady_pure)
next
  case (Cons c cs)
  show ?case unfolding update_pending.simps by (intro steadied Cons.IH)
qed

lemma steady_verify_fanout [steadied]: "steady (verify_fanout ig env rid i org terms scopes cs rr)"
proof -
  have "steady (modifyc (\<lambda>w. upd_run rid (\<lambda>r. r\<lparr>run_result := d, run_status := ES_completed,
      run_completed_at := Some (w_clock w)\<rparr>) w))" for d
    by (rule steady_modifyc) (simp_all add: project_rows_def)
  then show ?thesis
    unfolding verify_fanout_def pause_fanout_def Let_def by (intro steadied)
qed

lemma steady_update_fanout [steadied]: "steady (update_fanout ig env rid i org terms scopes cs rr v)"
  unfolding update_fanout_def pause_fanout_def by (intro steadied)

lemma steady_desired:
  "steady (modifyc (upd_cr i (\<lambda>c. c\<lparr>cr_desired_outcome := d\<rparr>)))"
  using steady_upd_cr [of "\<lambda>_ c. c\<lparr>cr_desired_outcome := d\<rparr>" i] by (simp add: same_row_def)

lemma steady_rotate [steadied]: "steady (rotate_credential ig env i org desired spec v)"
  unfolding rotate_credential_def Let_def by (intro steadied steady_desired)

lemma steady_fanout_run [steadied]: "steady (fanout_run fresh i)"
  unfolding fanout_run_def Let_def by (intro steadied)

lemma steady_fanout [steadied]: "steady (execute_credential_rotation_fanout ig env fresh i)"
  unfolding execute_credential_rotation_fanout_def scan_fanout_def Let_def by (intro steadied)

lemma steady_or_else [steadied]: "steady m \<Longrightarrow> steady n \<Longrightarrow> steady (or_else m n)"
  unfolding or_else_def by (intro steadied)

lemma steady_step_connectors [steadied]:
  "steady (pinned_connector ig step)" "steady (asset_connector ig ct ids org)"
  "steady (fallback_connector i ct)"
  unfolding pinned_connector_def asset_connector_def fallback_connector_def Let_def
  by (intro steadied; fail)+

lemma steady_execute_plan_steps [steadied]:
  "steady (execute_plan_steps ig env i ids org carried steps)"
proof (induction steps arbitrary: carried)
  case Nil
  show ?case unfolding execute_plan_steps.simps by (rule steady_pure)
next
  case (Cons step steps)
  show ?case
    unfolding execute_plan_steps.simps execute_plan_step_def step_connector_of_def Let_def
    by (intro steadied Cons.IH)
qed

lemma steady_complete_certificate [steadied]: "steady (complete_certificate_run i run result)"
proof -
  have "steady (modifyc (upd_run rid f))" for rid f
    by (rule steady_modifyc) (simp_all add: project_rows_def)
  then show ?thesis unfolding complete_certificate_run_def by (intro steadied)
qed

lemma steady_certificate_connectors [steadied]:
  "steady (load_connector ig ct cid org)" "steady (load_step_ca_connector ig og)"
  "steady (connector_of_dependent ig org dep)"
  unfolding connector_of_dependent_def load_connector_def load_step_ca_connector_def
  by (intro steadied)+

lemma steady_certificate_clients [steadied]:
  "steady (execute_module ig env ct action params assets conn)" "steady (get_k8s_clients env creds)"
  "steady (get_k8s_client ig env conn)" "steady (read_secret env dep)" "steady (patch_secret env dep data)"
  "steady (tls_probe env host port)" "steady (get_secret_value ig env dep conn)"
  "steady (rotate_certificate ig env desired conn)"
  unfolding execute_module_def get_k8s_client_def get_k8s_clients_def read_secret_def patch_secret_def
    tls_probe_def get_secret_value_def rotate_certificate_def Let_def
  by (intro steadied)+

lemma steady_certificate_dependents [steadied]:
  "steady (snapshot_dependent ig env og dep)" "steady (update_dependent ig env rotation dep)"
  "steady (verify_dependent ig env rotation dep)"
  unfolding snapshot_dependent_def snapshot_host_def update_dependent_def push_certificate_def push_host_def
    verify_dependent_def verify_host_def verify_k8s_def verify_aws_def Let_def
  by (intro steadied)+

lemma steady_certificate_phases [steadied]:
  "steady (scan_phase desired og run deps)" "steady (snapshot_phase ig env og run rotation deps)"
  "steady (rotate_phase ig env i desired og run deps rotation)" "steady (update_phase ig env run rotation deps)"
  "steady (verify_phase ig env run timeout rotation deps)"
  unfolding scan_phase_def scan_dependents_def snapshot_phase_def rotate_phase_def update_phase_def
    verify_phase_def persist_def Let_def
  by (intro steadied)+

lemma steady_certificate [steadied]: "steady (execute_certificate_rotation ig env i)"
  unfolding execute_certificate_rotation_def rotate_dependents_def finish_certificate_rotation_def Let_def
  by (intro steadied)

lemma steady_certificate_rollback [steadied]: "steady (execute_certificate_rollback ig env i r)"
  unfolding execute_certificate_rollback_def rollback_dependent_def restore_dependent_def restore_host_def
    restore_k8s_def reissue_to_def Let_def
  by (intro steadied)

lemma steady_makes_calls: "makes_calls m Q \<Longrightarrow> steady m"
  unfolding makes_calls_def
  by (rule steadyI) (metis kept_other with_calls_frame(5) project_rows_with_calls)

lemma steady_poll [steadied]: "steady (poll env c decided expired n)"
proof (induction n)
  case 0
  show ?case unfolding poll.simps by (rule steady_pure)
next
  case (Suc n)
  show ?case unfolding poll.simps by (intro steadied Suc.IH)
qed

lemma steady_control_plane_nodes [steadied]: "steady (upgrade_control_plane_nodes env creds target k nodes)"
proof (induction nodes arbitrary: k)
  case Nil
  show ?case unfolding upgrade_control_plane_nodes.simps by (rule steady_pure)
next
  case (Cons node nodes)
  show ?case unfolding upgrade_control_plane_nodes.simps by (intro steadied Cons.IH)
qed

lemma steady_phase_result [steadied]: "steady (phase_result since err)"
  unfolding phase_result_def by (intro steadied)

lemma steady_list_node [steadied]: "steady (list_node env args)" "steady (list_pods env namespace)"
  unfolding list_node_def list_pods_def by (intro steadied)+

lemma steady_control_plane [steadied]: "steady (run_control_plane_phase env provider cluster target creds)"
  unfolding run_control_plane_phase_def upgrade_control_plane_eks_def upgrade_control_plane_gke_def
    upgrade_control_plane_self_hosted_def guarded_phase_def
  by (intro steadied)

lemma steady_preflight [steadied]: "steady (run_preflight env current target desired)"
proof -
  have "steady (scan_removed_apis env m)" "steady (check_headroom env desired)" for m
    unfolding scan_removed_apis_def scan_removed_api_def check_headroom_def Let_def by (intro steadied)+
  then show ?thesis unfolding run_preflight_def by (auto intro!: steadied split: sum.split)
qed

lemma steady_rolling [steadied]: "steady (upgrade_node_rolling env nodes target desired entry)"
  unfolding upgrade_node_rolling_def by (intro steadied steady_makes_calls [OF roll_nodes_calls])

lemma steady_verify_cluster [steadied]: "steady (run_verify_phase env target desired)"
  unfolding run_verify_phase_def or_error_def Let_def by (intro steadied)

lemma steady_persist_result [steadied]: "steady (persist_result i r)"
  unfolding persist_result_def by (rule steady_modifyc) (simp_all add: project_rows_def split: option.split)

lemma steady_upgrade_cluster [steadied]:
  "steady (upgrade_cluster env i provider creds desired current pf result)"
  unfolding upgrade_cluster_def upgrade_pools_def verify_upgrade_def pause_upgrade_def Let_def
  by (intro steadied)

lemma steady_discover [steadied]: "steady (discover_version env)"
  unfolding discover_version_def by (intro steadied)

lemma steady_cluster_upgrade [steadied]: "steady (execute_k8s_cluster_upgrade ig env i)"
  unfolding execute_k8s_cluster_upgrade_def upgrade_with_def Let_def
  by (intro steadied steady_makes_calls [OF get_k8s_clients_quiet])

lemma steady_cluster_rollback [steadied]: "steady (execute_k8s_cluster_upgrade_rollback ig env i result)"
  unfolding execute_k8s_cluster_upgrade_rollback_def
  by (intro steadied steady_makes_calls [OF rollback_pools_makes_calls])

lemma steady_execute_change [steadied]: "steady (activity_execute_change ig env fresh i steps ids)"
  unfolding activity_execute_change_def special_call_def Let_def by (intro steadied)

lemma steady_run_verification [steadied]: "steady (activity_run_verification i plan)"
proof -
  have "steady (modifyc (upd_cr i (\<lambda>c. c\<lparr>cr_verification_status := v\<rparr>)))" for v
    using steady_upd_cr [of "\<lambda>_ c. c\<lparr>cr_verification_status := v\<rparr>" i] by (simp add: same_row_def)
  then show ?thesis unfolding activity_run_verification_def by (intro steadied)
qed

lemma steady_rollback_plan_step [steadied]: "steady (rollback_plan_step ig env i results step)"
  unfolding rollback_plan_step_def undo_plan_step_def undo_plan_action_def Let_def by (intro steadied)

lemma steady_execute_rollback [steadied]: "steady (activity_execute_rollback ig env i steps result)"
  unfolding activity_execute_rollback_def rollback_plan_def Let_def by (intro steadied)

lemma steady_discovery [steadied]: "steady (activity_post_completion_discovery ig env i)"
  unfolding activity_post_completion_discovery_def discover_candidate_def
  by (intro steadied) (auto intro!: steadied)

lemma steady_update_run_status [steadied]: "steady (update_execution_run_status r status result)"
  by (rule steadyI) (auto intro!: kept_other simp: update_execution_run_status_def put_run_def project_rows_def
      split: option.split sum.split)

lemma steady_notify_project [steadied]: "steady (notify_project i)"
  unfolding notify_project_def by (intro steadied)

lemma steady_load [steadied]: "steady (load_change_request_and_plan i)"
  by (simp add: steady_def load_change_request_and_plan_def kept_refl)

lemma steady_filo_rollback [steadied]: "steady (execute_filo_rollback ig env i result)"
  unfolding execute_filo_rollback_def rollback_step_def run_rollback_def call_rollback_def Let_def
  by (intro steadied)

lemma steady_rollback_consumer [steadied]: "steady (rollback_consumer ig env consumer cache)"
  unfolding rollback_consumer_def call_rollback_function_def Let_def by (intro steadied)

lemma unwind_consumer_rows:
  "kept v (snd s) \<Longrightarrow> kept v (snd (snd (unwind_consumer ig env c s)))"
  using steady_run [OF steady_rollback_consumer [of ig env c "fst s"], of v "snd s"]
  by (auto simp: unwind_consumer_def split: prod.splits sum.splits)

lemma mapc_unwind_rows:
  "kept v (snd s) \<Longrightarrow>
   kept v (snd (snd (mapc (unwind_consumer ig env) cs s)))"
proof (induction cs arbitrary: s)
  case Nil
  then show ?case by simp
next
  case (Cons c cs)
  have step: "kept v (snd (snd (unwind_consumer ig env c s)))"
    by (rule unwind_consumer_rows [OF Cons.prems])
  obtain x u where u: "unwind_consumer ig env c s = (x, u)"
    by (cases "unwind_consumer ig env c s") simp
  with step have "kept v (snd u)" by simp
  from Cons.IH [OF this] this u show ?case
    by (auto simp: bindc_apply split: prod.splits sum.splits)
qed

lemma steady_fanout_rollback [steadied]: "steady (execute_fanout_rollback ig env result)"
proof -
  have "steady (\<lambda>w. case mapc (unwind_consumer ig env) (rev consumers) ([], w) of
         (Inl e, (_, t)) \<Rightarrow> (Inl e, t)
       | (Inr results, (_, t)) \<Rightarrow>
           (Inr [(''consumers'', PList (rev (map (PDict \<circ> fst) results))),
                 (''rotation_result'', dget_or result ''rotation_result'' (PDict [])),
                 (''has_warnings'', PBool (list_ex snd results))], t))" for consumers
  proof (rule steadyI)
    fix w
    have "kept w (snd (snd (mapc (unwind_consumer ig env) (rev consumers) ([], w))))"
      by (rule mapc_unwind_rows) (simp add: kept_refl)
    then show "kept w (snd (case mapc (unwind_consumer ig env) (rev consumers) ([], w) of
         (Inl e, (_, t)) \<Rightarrow> (Inl e, t)
       | (Inr results, (_, t)) \<Rightarrow>
           (Inr [(''consumers'', PList (rev (map (PDict \<circ> fst) results))),
                 (''rotation_result'', dget_or result ''rotation_result'' (PDict [])),
                 (''has_warnings'', PBool (list_ex snd results))], t)))"
      by (auto split: prod.splits sum.splits)
  qed
  then show ?thesis unfolding execute_fanout_rollback_def by (intro steadied)
qed

lemma steady_executor_fallback [steadied]: "steady (executor_fallback ig env cr result)"
  unfolding executor_fallback_def fallback_rollback_connector_def Let_def
  by (intro steadied)

lemma steady_cr_rollback [steadied]: "steady (execute_cr_rollback ig env i extra)"
  unfolding execute_cr_rollback_def finish_unwound_def Let_def by (intro steadied)

lemma steady_do_rollback: "steady (do_rollback ig env i rid)"
  unfolding do_rollback_def by (intro steadied)

lemma steady_resume: "steady (resume_execution ig env fresh i)"
  unfolding resume_execution_def voidc_def by (intro steadied)

end

section \<open>What the executors keep\<close>

interpretation rows: background "\<lambda>w t. same_rows (get_cr w) (get_cr t)"
proof unfold_locales
  fix u v w :: world
  assume "same_rows (get_cr u) (get_cr v)" "same_rows (get_cr v) (get_cr w)"
  then show "same_rows (get_cr u) (get_cr w)" by (rule same_rows_trans)
next
  fix t w :: world assume "w_crs t = w_crs w"
  then have "get_cr t = get_cr w" by (rule get_cr_w_crs)
  then show "same_rows (get_cr w) (get_cr t)" by simp
next
  fix f :: "change_request \<Rightarrow> change_request" and w i
  assume f: "\<And>c. same_row c (f c)"
  then have id: "\<And>c. cr_id (f c) = cr_id c" by (simp add: same_row_def)
  have row: "rel_option same_row (get_cr w j) (get_cr (upd_cr i f w) j)" for j
    using f by (cases "get_cr w j") (auto simp: get_cr_upd_cr id)
  show "same_rows (get_cr w) (get_cr (upd_cr i f w))"
    unfolding same_rows_def using row by blast
qed

interpretation projects: background "\<lambda>w t. project_rows t = project_rows w"
  by unfold_locales simp_all

end
