(* ===== verification/ProjectRollback.thy ===== *)
theory ProjectRollback
  imports Background "HOL-Library.Product_Lexorder"
begin

text \<open>
  Rollbacks of a whole project (\<open>services/project_rollback_service.py\<close> and the endpoints of
  \<open>routers/projects.py\<close>): a rollback has one step for each completed change request of the project, in the
  reverse of the order of application; a background task runs the steps one after the other, waits for the
  user where one fails, and can be paused and resumed. What other tasks do between two steps is an argument
  of the run, since each step reads the rollback and itself again.
\<close>

section \<open>Backups of permanent changes\<close>

definition reconstitution_pairs :: "(string \<times> string list) list" where
  "reconstitution_pairs =
     [(''rotate_iam_key'', [''create_backup'', ''capture_instance_state'']),
      (''rotate_ssh_keys'', [''create_backup'']),
      (''gcp_rotate_service_account_key'', [''create_backup'']),
      (''azure_rotate_storage_key'', [''create_backup'']),
      (''rds_instance_delete'', [''rds_snapshot_create'']),
      (''ec2_terminate'', [''snapshot_asset'', ''capture_instance_state'']),
      (''iam_user_delete'', [''capture_instance_state''])]"

text \<open>\<open>str(cr.change_type)\<close> of a member of the enum \<open>ChangeType(str, enum.Enum)\<close>: the name with its class.\<close>

definition change_type_str :: "change_request \<Rightarrow> string" where
  "change_type_str cr = ''ChangeType.'' @ cr_change_type cr"

definition index_of_cr :: "uuid \<Rightarrow> change_request list \<Rightarrow> nat" where
  "index_of_cr i crs = length (takeWhile (\<lambda>c. cr_id c \<noteq> i) crs)"

text \<open>The newest completed backup before a change on one of its assets.\<close>

definition find_backup_cr :: "change_request \<Rightarrow> change_request list \<Rightarrow> change_request option" where
  "find_backup_cr cr crs =
     (let candidates = (case map_of reconstitution_pairs (change_type_str cr) of None \<Rightarrow> [] | Some cs \<Rightarrow> cs)
      in if candidates = [] then None
         else List.find
                (\<lambda>c. change_type_str c \<in> set candidates \<and> cr_status c = CRS_completed \<and>
                   list_ex (\<lambda>a. a \<in> set (cr_target_asset_ids cr)) (cr_target_asset_ids c))
                (rev (take (index_of_cr (cr_id cr) crs) crs)))"

type_synonym loaded_member = "project_member \<times> change_request"

text \<open>A warning names the change request without a backup.\<close>

definition build_preflight_warnings ::
  "loaded_member list \<Rightarrow> change_request list \<Rightarrow> string list \<Rightarrow> uuid list" where
  "build_preflight_warnings members crs permanent =
     map (\<lambda>(_, cr). cr_id cr)
       (filter (\<lambda>(_, cr). change_type_str cr \<in> set permanent \<and> find_backup_cr cr crs = None) members)"

definition kind_of_step :: "string list \<Rightarrow> change_request list \<Rightarrow> change_request \<Rightarrow> rollback_kind \<times> uuid option" where
  "kind_of_step permanent crs cr =
     (if change_type_str cr \<in> set permanent then
        (case find_backup_cr cr crs of
           Some b \<Rightarrow> (RK_reconstitution, Some (cr_id b))
         | None \<Rightarrow> (RK_permanent_no_backup, None))
      else (RK_standard, None))"

section \<open>Rows\<close>

definition get_project :: "world \<Rightarrow> uuid \<Rightarrow> project option" where
  "get_project w p = lookup_row project_id (w_projects w) p"

definition get_rollback :: "world \<Rightarrow> uuid \<Rightarrow> project_rollback option" where
  "get_rollback w r = lookup_row rollback_id (w_rollbacks w) r"

definition get_step :: "world \<Rightarrow> uuid \<Rightarrow> project_rollback_step option" where
  "get_step w s = lookup_row step_id (w_steps w) s"

definition upd_project :: "uuid \<Rightarrow> (project \<Rightarrow> project) \<Rightarrow> world \<Rightarrow> world" where
  "upd_project p f w = w\<lparr>w_projects := map (\<lambda>r. if project_id r = p then f r else r) (w_projects w)\<rparr>"

definition upd_rollback :: "uuid \<Rightarrow> (project_rollback \<Rightarrow> project_rollback) \<Rightarrow> world \<Rightarrow> world" where
  "upd_rollback i f w = w\<lparr>w_rollbacks := map (\<lambda>r. if rollback_id r = i then f r else r) (w_rollbacks w)\<rparr>"

definition upd_step :: "uuid \<Rightarrow> (project_rollback_step \<Rightarrow> project_rollback_step) \<Rightarrow> world \<Rightarrow> world" where
  "upd_step i f w = w\<lparr>w_steps := map (\<lambda>r. if step_id r = i then f r else r) (w_steps w)\<rparr>"

definition steps_of :: "world \<Rightarrow> uuid \<Rightarrow> project_rollback_step list" where
  "steps_of w i = sort_key step_sequence_order (filter (\<lambda>s. step_rollback_id s = i) (w_steps w))"

text \<open>The members of a project in order, each with its change request (a foreign key).\<close>

definition loaded_members :: "world \<Rightarrow> uuid \<Rightarrow> loaded_member list" where
  "loaded_members w p =
     List.map_filter (\<lambda>m. map_option (Pair m) (get_cr w (member_change_request_id m)))
       (sort_key member_sequence_order (filter (\<lambda>m. member_project_id m = p) (w_members w)))"

section \<open>Starting a rollback\<close>

text \<open>\<open>sorted(xs, key=key, reverse=True)\<close> keeps the order of equal elements.\<close>

definition sorted_reverse :: "('a \<Rightarrow> 'k::linorder) \<Rightarrow> 'a list \<Rightarrow> 'a list" where
  "sorted_reverse key xs = rev (sort_key key (rev xs))"

definition rollback_sort_key :: "loaded_member \<Rightarrow> int \<times> int" where
  "rollback_sort_key m =
     (case cr_application_sequence (snd m) of
        Some n \<Rightarrow> (1, n) | None \<Rightarrow> (0, member_sequence_order (fst m)))"

definition new_step ::
  "(nat \<Rightarrow> uuid) \<Rightarrow> uuid \<Rightarrow> string list \<Rightarrow> change_request list \<Rightarrow> nat \<times> loaded_member \<Rightarrow> project_rollback_step" where
  "new_step fresh rid permanent crs im =
     (case im of (i, m) \<Rightarrow>
        (case kind_of_step permanent crs (snd m) of (kind, backup) \<Rightarrow>
           \<lparr>step_id = fresh i, step_rollback_id = rid, step_change_request_id = cr_id (snd m),
            step_sequence_order = int i, step_status = RS_pending, step_kind = kind,
            step_backup_cr_id = backup, step_started_at = None, step_completed_at = None,
            step_result = None\<rparr>))"

definition new_steps ::
  "(nat \<Rightarrow> uuid) \<Rightarrow> uuid \<Rightarrow> string list \<Rightarrow> change_request list \<Rightarrow> loaded_member list \<Rightarrow> project_rollback_step list" where
  "new_steps fresh rid permanent crs ms = map (new_step fresh rid permanent crs) (enumerate 1 ms)"

definition new_rollback ::
  "uuid \<Rightarrow> uuid \<Rightarrow> project_rollback_status \<Rightarrow> project_rollback_trigger \<Rightarrow> uuid option \<Rightarrow> uuid option \<Rightarrow>
   string option \<Rightarrow> int \<Rightarrow> project_rollback" where
  "new_rollback rid p st trigger user cr notes now =
     \<lparr>rollback_id = rid, rollback_project_id = p, rollback_status = st, rollback_trigger = trigger,
      rollback_triggered_by_user_id = user, rollback_triggered_by_cr_id = cr, rollback_current_step = 0,
      rollback_notes = notes, rollback_created_at = now, rollback_started_at = None,
      rollback_paused_at = None, rollback_completed_at = None\<rparr>"

definition completed_members :: "loaded_member list \<Rightarrow> loaded_member list" where
  "completed_members = filter (\<lambda>(_, cr). cr_status cr = CRS_completed)"

definition eligible_members :: "uuid list option \<Rightarrow> loaded_member list \<Rightarrow> loaded_member list" where
  "eligible_members cr_ids ms =
     (case cr_ids of
        None \<Rightarrow> completed_members ms
      | Some ids \<Rightarrow> filter (\<lambda>(m, _). member_change_request_id m \<in> set ids) (completed_members ms))"

text \<open>\<open>initiate\<close>: the new id is \<open>fresh 0\<close>, those of the steps are \<open>fresh 1\<close>, \<open>fresh 2\<close>, and so on.\<close>

definition initiate ::
  "(nat \<Rightarrow> uuid) \<Rightarrow> string list \<Rightarrow> uuid \<Rightarrow> uuid \<Rightarrow> string option \<Rightarrow> uuid list option \<Rightarrow> (uuid \<times> uuid list) prog" where
  "initiate fresh permanent p user notes cr_ids =
     bindc (gets (\<lambda>w. loaded_members w p)) (\<lambda>ms.
       let eligible = eligible_members cr_ids ms;
           crs = map snd ms;
           warnings = build_preflight_warnings eligible crs permanent;
           rid = fresh 0;
           steps = new_steps fresh rid permanent crs (sorted_reverse rollback_sort_key eligible)
       in thenc (modifyc (\<lambda>w. w\<lparr>w_rollbacks := w_rollbacks w @
                    [new_rollback rid p PR_pending PT_manual (Some user) None notes (w_clock w)],
                  w_steps := w_steps w @ steps\<rparr>))
          (thenc (modifyc (upd_project p (\<lambda>r. r\<lparr>project_status := PS_rolling_back\<rparr>)))
          (thenc (schedule_task (Task_project_rollback rid))
             (ret (rid, warnings)))))"

definition initiate_auto :: "uuid \<Rightarrow> uuid \<Rightarrow> uuid \<Rightarrow> project_rollback_trigger \<Rightarrow> uuid prog" where
  "initiate_auto rid p cr trigger =
     thenc (modifyc (\<lambda>w. w\<lparr>w_rollbacks := w_rollbacks w @
         [new_rollback rid p PR_awaiting_user trigger None (Some cr) None (w_clock w)]\<rparr>))
       (ret rid)"

definition active_statuses :: "project_rollback_status list" where
  "active_statuses = [PR_running, PR_paused, PR_awaiting_user]"

definition active_rollbacks :: "world \<Rightarrow> uuid \<Rightarrow> project_rollback list" where
  "active_rollbacks w p =
     filter (\<lambda>r. rollback_project_id r = p \<and> rollback_status r \<in> set active_statuses) (w_rollbacks w)"

definition on_cr_failed :: "uuid \<Rightarrow> uuid \<Rightarrow> uuid \<Rightarrow> unit prog" where
  "on_cr_failed rid p cr =
     bindc (gets (\<lambda>w. active_rollbacks w p)) (\<lambda>existing.
       case existing of
         [] \<Rightarrow> thenc (initiate_auto rid p cr PT_execution_failure) (ret ())
       | [_] \<Rightarrow> ret ()
       | _ \<Rightarrow> raise (Exn OtherError ''Multiple rows were found when one or none was required''))"

section \<open>Pausing, resuming, deciding\<close>

definition pause_rollback_row :: "uuid \<Rightarrow> unit prog" where
  "pause_rollback_row i =
     modifyc (\<lambda>w. upd_rollback i (\<lambda>r. r\<lparr>rollback_status := PR_paused, rollback_paused_at := Some (w_clock w)\<rparr>) w)"

text \<open>The steps of a rollback that was made without: in plan order.\<close>

definition populate_steps_for_auto_rollback ::
  "(nat \<Rightarrow> uuid) \<Rightarrow> string list \<Rightarrow> project_rollback \<Rightarrow> unit prog" where
  "populate_steps_for_auto_rollback fresh permanent r =
     bindc (gets (\<lambda>w. (get_project w (rollback_project_id r), loaded_members w (rollback_project_id r)))) (\<lambda>(found, ms).
       case found of
         None \<Rightarrow> ret ()
       | Some p \<Rightarrow>
           thenc (modifyc (\<lambda>w. w\<lparr>w_steps := w_steps w @
               new_steps fresh (rollback_id r) permanent (map snd ms)
                 (sorted_reverse (\<lambda>m. member_sequence_order (fst m)) (completed_members ms))\<rparr>))
             (modifyc (upd_project (project_id p) (\<lambda>r. r\<lparr>project_status := PS_rolling_back\<rparr>))))"

definition resume :: "(nat \<Rightarrow> uuid) \<Rightarrow> string list \<Rightarrow> uuid \<Rightarrow> unit prog" where
  "resume fresh permanent i =
     bindc (gets (\<lambda>w. (get_rollback w i, steps_of w i))) (\<lambda>(found, steps).
       case found of
         None \<Rightarrow> raise (Exn NoResultFound ''No row was found when one was required'')
       | Some r \<Rightarrow>
           thenc (whenc (steps = []) (populate_steps_for_auto_rollback fresh permanent r))
           (thenc (modifyc (upd_rollback i (\<lambda>r. r\<lparr>rollback_status := PR_running, rollback_paused_at := None\<rparr>)))
             (schedule_task (Task_project_rollback i))))"

definition decide_step :: "int \<Rightarrow> string \<Rightarrow> project_rollback_step \<Rightarrow> project_rollback_step" where
  "decide_step now action s =
     (if action = ''skip'' then
        s\<lparr>step_status := RS_skipped, step_result := Some [(''decision'', PStr ''skipped_by_user'')],
          step_completed_at := Some now\<rparr>
      else if action = ''mark_done'' then
        s\<lparr>step_status := RS_completed, step_result := Some [(''decision'', PStr ''marked_done_by_user'')],
          step_completed_at := Some now\<rparr>
      else if action = ''retry'' then s\<lparr>step_status := RS_pending, step_result := None\<rparr>
      else s)"

definition step_decision :: "project_rollback_step \<Rightarrow> project_rollback \<Rightarrow> string \<Rightarrow> unit prog" where
  "step_decision s r action =
     thenc (modifyc (\<lambda>w. upd_step (step_id s) (decide_step (w_clock w) action) w))
       (whenc (action \<in> {''skip'', ''mark_done'', ''retry''} \<and> rollback_status r \<noteq> PR_running)
          (schedule_task (Task_project_rollback (rollback_id r))))"

text \<open>At startup.\<close>

definition resume_interrupted :: "unit prog" where
  "resume_interrupted =
     bindc (gets (\<lambda>w. filter (\<lambda>r. rollback_status r = PR_running) (w_rollbacks w))) (\<lambda>rs.
       seqc (map (\<lambda>r. schedule_task (Task_project_rollback (rollback_id r))) rs))"

section \<open>Running a rollback\<close>

definition backup_result :: "world \<Rightarrow> project_rollback_step \<Rightarrow> pydict option" where
  "backup_result w s =
     (case (step_kind s, step_backup_cr_id s) of
        (RK_reconstitution, Some b) \<Rightarrow>
          (case latest_run (filter (\<lambda>r. run_status r = ES_completed) (runs_of w b)) of
             None \<Rightarrow> None | Some r \<Rightarrow> if run_result r = [] then None else Some (run_result r))
      | _ \<Rightarrow> None)"

definition execute_rollback_step :: "integration \<Rightarrow> env \<Rightarrow> project_rollback_step \<Rightarrow> pydict prog" where
  "execute_rollback_step ig env s =
     bindc (gets (\<lambda>w. backup_result w s)) (\<lambda>extra.
       execute_cr_rollback ig env (step_change_request_id s) extra)"

definition start_step :: "uuid \<Rightarrow> project_rollback_step \<Rightarrow> unit prog" where
  "start_step i s =
     modifyc (\<lambda>w. upd_step (step_id s) (\<lambda>s. s\<lparr>step_status := RS_running, step_started_at := Some (w_clock w)\<rparr>)
       (upd_rollback i (\<lambda>r. r\<lparr>rollback_current_step := step_sequence_order s\<rparr>) w))"

definition end_step :: "uuid \<Rightarrow> rollback_step_status \<Rightarrow> pydict \<Rightarrow> unit prog" where
  "end_step sid st result =
     modifyc (\<lambda>w. upd_step sid (\<lambda>s. s\<lparr>step_status := st, step_result := Some result,
        step_completed_at := Some (w_clock w)\<rparr>) w)"

text \<open>Whether the step is done.\<close>

definition attempt_rollback_step :: "integration \<Rightarrow> env \<Rightarrow> uuid \<Rightarrow> project_rollback_step \<Rightarrow> bool prog" where
  "attempt_rollback_step ig env i s =
     thenc (start_step i s)
     (bindc (catchc (bindc (execute_rollback_step ig env s) (\<lambda>d. ret (Inr d))) (\<lambda>e. ret (Inl (exn_text e)))) (\<lambda>r.
        case r of
          Inr d \<Rightarrow> thenc (end_step (step_id s) RS_completed d) (ret True)
        | Inl msg \<Rightarrow> thenc (end_step (step_id s) RS_awaiting_user [(''error'', PStr msg)]) (ret False)))"

definition complete_rollback :: "uuid \<Rightarrow> uuid \<Rightarrow> unit prog" where
  "complete_rollback i p =
     thenc (modifyc (\<lambda>w. upd_rollback i (\<lambda>r. r\<lparr>rollback_status := PR_completed,
        rollback_completed_at := Some (w_clock w)\<rparr>) w))
       (modifyc (upd_project p (\<lambda>r. if project_status r = PS_rolling_back
          then r\<lparr>project_status := PS_in_progress\<rparr> else r)))"

definition refreshed :: "uuid \<Rightarrow> uuid \<Rightarrow> (project_rollback \<times> project_rollback_step) prog" where
  "refreshed i sid =
     bindc (gets (\<lambda>w. (get_rollback w i, get_step w sid))) (\<lambda>(r, s).
       case (r, s) of
         (Some r, Some s) \<Rightarrow> ret (r, s)
       | _ \<Rightarrow> raise (Exn OtherError ''Could not refresh instance''))"

fun run_rollback_steps ::
  "(uuid \<Rightarrow> unit prog) \<Rightarrow> integration \<Rightarrow> env \<Rightarrow> uuid \<Rightarrow> uuid \<Rightarrow> uuid list \<Rightarrow> unit prog" where
  "run_rollback_steps others ig env i p [] = complete_rollback i p"
| "run_rollback_steps others ig env i p (sid # sids) =
     thenc (others sid)
     (bindc (refreshed i sid) (\<lambda>(r, s).
        if rollback_status r = PR_paused then ret ()
        else if step_status s \<in> {RS_completed, RS_skipped} then run_rollback_steps others ig env i p sids
        else if step_status s = RS_awaiting_user then ret ()
        else bindc (attempt_rollback_step ig env i s) (\<lambda>done.
          if done then run_rollback_steps others ig env i p sids else ret ())))"

definition run_rollback_inner ::
  "(uuid \<Rightarrow> unit prog) \<Rightarrow> integration \<Rightarrow> env \<Rightarrow> uuid \<Rightarrow> unit prog" where
  "run_rollback_inner others ig env i =
     bindc (gets (\<lambda>w. (get_rollback w i, map step_id (steps_of w i)))) (\<lambda>(found, sids).
       case found of
         None \<Rightarrow> ret ()
       | Some r \<Rightarrow>
           thenc (modifyc (\<lambda>w. upd_rollback i (\<lambda>r. r\<lparr>rollback_status := PR_running,
               rollback_started_at := Some (case rollback_started_at r of None \<Rightarrow> w_clock w | Some t \<Rightarrow> t)\<rparr>) w))
             (run_rollback_steps others ig env i (rollback_project_id r) sids))"

text \<open>Nothing else happens between two steps.\<close>

definition undisturbed :: "uuid \<Rightarrow> unit prog" where
  "undisturbed sid = ret ()"

text \<open>A rollback that the process is already running is not run twice.\<close>

definition run_project_rollback ::
  "(uuid \<Rightarrow> unit prog) \<Rightarrow> uuid list \<Rightarrow> integration \<Rightarrow> env \<Rightarrow> uuid \<Rightarrow> unit prog" where
  "run_project_rollback others active ig env i =
     (if i \<in> set active then ret () else run_rollback_inner others ig env i)"

section \<open>Endpoints\<close>

definition may_roll_back :: "user \<Rightarrow> unit prog" where
  "may_roll_back u =
     require (user_role u \<in> {UR_admin, UR_approver}) 403 ''Only admins and approvers may roll back''"

definition get_project_or_404 :: "uuid \<Rightarrow> uuid \<Rightarrow> project prog" where
  "get_project_or_404 p org =
     bindc (gets (\<lambda>w. get_project w p)) (\<lambda>found.
       case found of
         None \<Rightarrow> raise (Exn (HTTPException 404) ''Project not found'')
       | Some r \<Rightarrow> if project_organization_id r = org then ret r
                   else raise (Exn (HTTPException 404) ''Project not found''))"

definition initiate_project_rollback ::
  "(nat \<Rightarrow> uuid) \<Rightarrow> string list \<Rightarrow> uuid \<Rightarrow> user \<Rightarrow> string option \<Rightarrow> uuid list option \<Rightarrow> (uuid \<times> uuid list) prog" where
  "initiate_project_rollback fresh permanent p user notes cr_ids =
     transact
       (thenc (may_roll_back user)
       (bindc (get_project_or_404 p (user_organization_id user)) (\<lambda>project.
        thenc (require (project_status project \<noteq> PS_rolling_back) 409
                 ''A rollback is already in progress for this project'')
        (bindc (initiate fresh permanent p (user_id user) notes cr_ids) (\<lambda>r.
         thenc (record_event (user_organization_id user) ''project.rollback_initiated'' (Some (user_id user)) None)
           (ret r))))))"

definition latest_rollback :: "world \<Rightarrow> uuid \<Rightarrow> project_rollback_status list \<Rightarrow> project_rollback option" where
  "latest_rollback w p sts =
     latest_by rollback_created_at
       (filter (\<lambda>r. rollback_project_id r = p \<and> rollback_status r \<in> set sts) (w_rollbacks w))"

definition pause_project_rollback :: "uuid \<Rightarrow> user \<Rightarrow> unit prog" where
  "pause_project_rollback p user =
     transact
       (thenc (may_roll_back user)
       (bindc (get_project_or_404 p (user_organization_id user)) (\<lambda>_.
        bindc (gets (\<lambda>w. latest_rollback w p [PR_running])) (\<lambda>found.
          case found of
            None \<Rightarrow> raise (Exn (HTTPException 404) ''No running rollback found'')
          | Some r \<Rightarrow> pause_rollback_row (rollback_id r)))))"

definition resume_project_rollback :: "(nat \<Rightarrow> uuid) \<Rightarrow> string list \<Rightarrow> uuid \<Rightarrow> user \<Rightarrow> unit prog" where
  "resume_project_rollback fresh permanent p user =
     transact
       (thenc (may_roll_back user)
       (bindc (get_project_or_404 p (user_organization_id user)) (\<lambda>_.
        bindc (gets (\<lambda>w. latest_rollback w p [PR_paused, PR_awaiting_user])) (\<lambda>found.
          case found of
            None \<Rightarrow> raise (Exn (HTTPException 404) ''No paused or awaiting rollback found'')
          | Some r \<Rightarrow> resume fresh permanent (rollback_id r)))))"

definition rollback_step_decision :: "uuid \<Rightarrow> uuid \<Rightarrow> user \<Rightarrow> string \<Rightarrow> unit prog" where
  "rollback_step_decision p sid user action =
     transact
       (thenc (may_roll_back user)
       (bindc (get_project_or_404 p (user_organization_id user)) (\<lambda>_.
        bindc (gets (\<lambda>w. get_step w sid)) (\<lambda>found.
          case found of
            None \<Rightarrow> raise (Exn (HTTPException 404) ''Rollback step not found'')
          | Some s \<Rightarrow>
              bindc (gets (\<lambda>w. get_rollback w (step_rollback_id s))) (\<lambda>r.
                case r of
                  None \<Rightarrow> raise (Exn NoResultFound ''No row was found when one was required'')
                | Some r \<Rightarrow> step_decision s r action)))))"

text \<open>The endpoints as requests of a user.\<close>

datatype project_request =
    Roll_back_project "nat \<Rightarrow> uuid" "string list" uuid "string option" "uuid list option"
  | Pause_project_rollback uuid
  | Resume_project_rollback "nat \<Rightarrow> uuid" "string list" uuid
  | Decide_rollback_step uuid uuid string

fun handle_project :: "project_request \<Rightarrow> user \<Rightarrow> unit prog" where
  "handle_project (Roll_back_project fresh permanent p notes cr_ids) user =
     voidc (initiate_project_rollback fresh permanent p user notes cr_ids)"
| "handle_project (Pause_project_rollback p) user = pause_project_rollback p user"
| "handle_project (Resume_project_rollback fresh permanent p) user = resume_project_rollback fresh permanent p user"
| "handle_project (Decide_rollback_step p sid action) user = rollback_step_decision p sid user action"

section \<open>What identifies a change request stays\<close>

lemma rows_modifyc [steadied]: "(\<And>w. w_crs (f w) = w_crs w) \<Longrightarrow> rows.steady (modifyc f)"
proof (rule rows.steadyI)
  fix w assume "\<And>w. w_crs (f w) = w_crs w"
  then have "get_cr (f w) = get_cr w" by (rule get_cr_w_crs)
  then show "same_rows (get_cr w) (get_cr (snd (modifyc f w)))" by simp
qed

lemma project_updates_crs [simp]:
  "w_crs (upd_project p f w) = w_crs w" "w_crs (upd_rollback i g w) = w_crs w" "w_crs (upd_step k h w) = w_crs w"
  by (simp_all add: upd_project_def upd_rollback_def upd_step_def)

lemma rows_rollback_parts [steadied]:
  "rows.steady (start_step i s)" "rows.steady (end_step sid st d)" "rows.steady (complete_rollback i p)"
  "rows.steady (pause_rollback_row i)" "rows.steady (initiate_auto rid p cr trigger)"
  "rows.steady (refreshed i sid)" "rows.steady (require b code msg)"
  unfolding start_step_def end_step_def complete_rollback_def pause_rollback_row_def initiate_auto_def
    refreshed_def require_def
  by (intro steadied; simp)+

lemma rows_attempt [steadied]: "rows.steady (attempt_rollback_step ig env i s)"
  unfolding attempt_rollback_step_def execute_rollback_step_def by (intro steadied)

lemma rows_run_steps [steadied]:
  assumes "\<And>sid. rows.steady (others sid)"
  shows "rows.steady (run_rollback_steps others ig env i p sids)"
proof (induction sids)
  case Nil
  show ?case unfolding run_rollback_steps.simps by (intro steadied)
next
  case (Cons sid sids)
  show ?case unfolding run_rollback_steps.simps by (intro steadied assms Cons.IH)
qed

lemma rows_run_project_rollback [steadied]:
  "(\<And>sid. rows.steady (others sid)) \<Longrightarrow> rows.steady (run_project_rollback others active ig env i)"
  unfolding run_project_rollback_def run_rollback_inner_def by (intro steadied; simp)

lemma rows_on_cr_failed [steadied]: "rows.steady (on_cr_failed rid p cr)"
  unfolding on_cr_failed_def by (intro steadied)

lemma rows_handle_project [steadied]: "rows.steady (handle_project req user)"
proof -
  have get: "rows.steady (get_project_or_404 p org)" "rows.steady (may_roll_back user)" for p org
    unfolding get_project_or_404_def may_roll_back_def by (intro steadied)+
  have steps: "rows.steady (initiate fresh permanent p u notes ids)" "rows.steady (resume fresh permanent i)"
      "rows.steady (step_decision s r action)" for fresh permanent p u "notes" ids i s r action
    unfolding initiate_def resume_def populate_steps_for_auto_rollback_def step_decision_def Let_def
    by (intro steadied; simp)+
  show ?thesis
    by (cases req)
      (simp_all only: handle_project.simps, (unfold initiate_project_rollback_def pause_project_rollback_def
         resume_project_rollback_def rollback_step_decision_def voidc_def, (intro steadied get steps)+))
qed

section \<open>Reading the rows back\<close>

lemma lookup_row_map:
  "(\<And>r. key (f r) = key r) \<Longrightarrow>
   lookup_row key (map (\<lambda>r. if key r = i then f r else r) rows) k =
     (if k = i then map_option f (lookup_row key rows i) else lookup_row key rows k)"
  by (induction rows) (auto simp: lookup_row_def)

lemma get_rollback_upd:
  "(\<And>r. rollback_id (f r) = rollback_id r) \<Longrightarrow>
   get_rollback (upd_rollback i f w) k = (if k = i then map_option f (get_rollback w i) else get_rollback w k)"
  by (simp add: get_rollback_def upd_rollback_def lookup_row_map)

lemma get_step_upd:
  "(\<And>s. step_id (f s) = step_id s) \<Longrightarrow>
   get_step (upd_step i f w) k = (if k = i then map_option f (get_step w i) else get_step w k)"
  by (simp add: get_step_def upd_step_def lookup_row_map)

lemma rollback_tables_apart [simp]:
  "get_step (upd_rollback i f w) k = get_step w k" "get_rollback (upd_step s g w) k = get_rollback w k"
  "get_step (upd_project p h w) k = get_step w k" "get_rollback (upd_project p h w) k = get_rollback w k"
  by (simp_all add: get_step_def get_rollback_def upd_rollback_def upd_step_def upd_project_def)

lemma upd_clock [simp]:
  "w_clock (upd_rollback i f w) = w_clock w" "w_clock (upd_step s g w) = w_clock w"
  by (simp_all add: upd_rollback_def upd_step_def)

lemma get_step_in_steps_of:
  assumes "distinct (map step_id (w_steps w))" and "s \<in> set (steps_of w i)"
  shows "get_step w (step_id s) = Some s"
proof -
  have mem: "s \<in> set (w_steps w)" using assms(2) by (simp add: steps_of_def)
  have "lookup_row step_id rows (step_id s) = Some s" if "distinct (map step_id rows)" "s \<in> set rows" for rows
    using that by (induction rows) (auto simp: lookup_row_def)
  then show ?thesis using assms(1) mem by (simp add: get_step_def)
qed

lemma distinct_steps_of:
  assumes "distinct (map step_id (w_steps w))"
  shows "distinct (map step_id (steps_of w i))"
proof -
  have "distinct (filter (\<lambda>s. step_rollback_id s = i) (w_steps w))"
      "inj_on step_id (set (filter (\<lambda>s. step_rollback_id s = i) (w_steps w)))"
    using assms by (auto simp: distinct_map inj_on_def)
  then show ?thesis by (simp add: steps_of_def distinct_map)
qed

section \<open>One step of a run\<close>

abbreviation finished :: "rollback_step_status set" where
  "finished \<equiv> {RS_completed, RS_skipped}"

definition step_stands :: "world \<Rightarrow> uuid \<Rightarrow> rollback_step_status set \<Rightarrow> bool" where
  "step_stands w sid S \<longleftrightarrow> (\<exists>s. get_step w sid = Some s \<and> step_status s \<in> S)"

lemma same_rollback_rows:
  "project_rows t = project_rows w \<Longrightarrow> get_step t k = get_step w k \<and> get_rollback t k' = get_rollback w k'"
  by (simp add: project_rows_def get_step_def get_rollback_def)

lemma executing_keeps_rows: "projects.steady (execute_rollback_step ig env s)"
  unfolding execute_rollback_step_def by (intro steadied)

lemma attempt_answers:
  assumes s: "get_step w (step_id s) = Some s" and r: "get_rollback w i = Some r"
  obtains ok t where
    "attempt_rollback_step ig env i s w = (Inr ok, t)"
    "step_stands t (step_id s) {if ok then RS_completed else RS_awaiting_user}"
    "\<And>k. k \<noteq> step_id s \<Longrightarrow> get_step t k = get_step w k"
    "get_rollback t i = Some (r\<lparr>rollback_current_step := step_sequence_order s\<rparr>)"
proof -
  obtain v where v: "start_step i s w = (Inr (), v)" by (simp add: start_step_def)
  then have vd: "v = snd (start_step i s w)" by simp
  obtain x u where run: "execute_rollback_step ig env s v = (x, u)" by fastforce
  have same: "get_step u k = get_step v k" "get_rollback u k' = get_rollback v k'" for k k'
    using same_rollback_rows [OF projects.steadyD [OF executing_keeps_rows run]] by simp_all
  define ok where "ok = (\<exists>d. x = Inr d)"
  define d where "d = (case x of Inr d \<Rightarrow> d | Inl e \<Rightarrow> [(''error'', PStr (exn_text e))])"
  define st where "st = (if ok then RS_completed else RS_awaiting_user)"
  let ?t = "snd (end_step (step_id s) st d u)"
  have result: "attempt_rollback_step ig env i s w = (Inr ok, ?t)"
    using run unfolding attempt_rollback_step_def thenc_apply v
    by (cases x) (simp_all add: bindc_apply catchc_def thenc_apply end_step_def ok_def d_def st_def)
  have steps: "get_step v k = (if k = step_id s then map_option (\<lambda>s. s\<lparr>step_status := RS_running,
      step_started_at := Some (w_clock w)\<rparr>) (get_step w (step_id s)) else get_step w k)" for k
    by (simp add: vd start_step_def get_step_upd)
  have "get_step ?t k = (if k = step_id s then map_option (\<lambda>s. s\<lparr>step_status := st, step_result := Some d,
      step_completed_at := Some (w_clock u)\<rparr>) (get_step v (step_id s)) else get_step v k)" for k
    by (simp add: end_step_def get_step_upd same)
  with steps s have ends: "step_stands ?t (step_id s) {st}" "k \<noteq> step_id s \<Longrightarrow> get_step ?t k = get_step w k" for k
    by (auto simp: step_stands_def)
  have "get_rollback ?t i = Some (r\<lparr>rollback_current_step := step_sequence_order s\<rparr>)"
    using r by (simp add: end_step_def same) (simp add: vd start_step_def get_rollback_upd)
  with result ends show ?thesis by (intro that [of ok ?t]) (simp_all add: st_def)
qed

section \<open>A whole run\<close>

text \<open>The state \<open>t\<close> after a run over steps from state \<open>w\<close>: the first \<open>k\<close> are finished, and either that is
  all of them and the rollback is completed, or the next one waits for the user.\<close>

definition run_ends :: "uuid \<Rightarrow> uuid list \<Rightarrow> nat \<Rightarrow> world \<Rightarrow> world \<Rightarrow> bool" where
  "run_ends i sids k w t \<longleftrightarrow>
     (\<forall>sid\<in>set (take k sids). step_stands t sid finished) \<and>
     (\<forall>sid. sid \<notin> set (take (Suc k) sids) \<or> step_stands w sid finished \<longrightarrow> get_step t sid = get_step w sid) \<and>
     (\<exists>r. get_rollback t i = Some r \<and>
        (if k = length sids then rollback_status r = PR_completed
         else k < length sids \<and> rollback_status r = PR_running \<and> step_stands t (sids ! k) {RS_awaiting_user}))"

lemma run_ends_done:
  "get_rollback w i = Some r \<Longrightarrow> run_ends i [] 0 w (snd (complete_rollback i p w))"
  by (simp add: run_ends_def complete_rollback_def thenc_apply get_rollback_upd)

lemma run_ends_here:
  assumes "step_stands t sid {RS_awaiting_user}" and "get_rollback t i = Some r" and "rollback_status r = PR_running"
    and "\<not> step_stands w sid finished" and "\<And>k. k \<noteq> sid \<Longrightarrow> get_step t k = get_step w k"
  shows "run_ends i (sid # sids) 0 w t"
  using assms by (auto simp: run_ends_def)

lemma run_ends_next:
  assumes rest: "run_ends i sids k u t" and new: "sid \<notin> set sids" and fin: "step_stands u sid finished"
    and same: "\<And>j. j \<noteq> sid \<or> step_stands w sid finished \<Longrightarrow> get_step u j = get_step w j"
  shows "run_ends i (sid # sids) (Suc k) w t"
proof -
  have sid: "get_step t sid = get_step u sid" using rest fin by (simp add: run_ends_def)
  have stands: "step_stands u j S = step_stands w j S" if "j \<noteq> sid \<or> step_stands w sid finished" for j S
    using same [OF that] by (simp add: step_stands_def)
  have "get_step t j = get_step w j" if "j \<notin> set (take (Suc k) (sids)) \<and> j \<noteq> sid \<or> step_stands w j finished" for j
  proof -
    have j: "j \<noteq> sid \<or> step_stands w sid finished" using that by auto
    then have "j \<notin> set (take (Suc k) sids) \<or> step_stands u j finished"
      using that stands [OF j] by auto
    with rest have "get_step t j = get_step u j" by (simp add: run_ends_def)
    with same [OF j] show ?thesis by simp
  qed
  moreover have "step_stands t sid finished" using fin sid by (simp add: step_stands_def)
  ultimately show ?thesis using rest by (auto simp: run_ends_def)
qed

lemma run_undisturbed_step:
  assumes "refreshed i sid w = (Inr (r, s), w)" and "rollback_status r = PR_running"
  shows "run_rollback_steps undisturbed ig env i p (sid # sids) w =
     (if step_status s \<in> finished then run_rollback_steps undisturbed ig env i p sids w
      else if step_status s = RS_awaiting_user then (Inr (), w)
      else bindc (attempt_rollback_step ig env i s)
        (\<lambda>done. if done then run_rollback_steps undisturbed ig env i p sids else ret ()) w)"
proof -
  have "undisturbed sid w = (Inr (), w)" by (simp add: undisturbed_def)
  with assms show ?thesis by (simp add: thenc_apply bindc_apply [of "refreshed i sid"])
qed

lemma run_rollback_steps_ends:
  assumes "get_rollback w i = Some r" and "rollback_status r = PR_running"
    and "distinct sids" and "\<And>sid. sid \<in> set sids \<Longrightarrow> get_step w sid \<noteq> None"
  shows "\<exists>t k. run_rollback_steps undisturbed ig env i p sids w = (Inr (), t) \<and> run_ends i sids k w t"
  using assms
proof (induction sids arbitrary: w r)
  case Nil
  have "complete_rollback i p w = (Inr (), snd (complete_rollback i p w))"
    by (simp add: complete_rollback_def thenc_apply)
  with run_ends_done [OF Nil.prems(1)] show ?case by (auto simp del: split_paired_Ex)
next
  case (Cons sid sids)
  from Cons.prems(4) [of sid] obtain s where s: "get_step w sid = Some s" by auto
  have id: "step_id s = sid" using s unfolding get_step_def by (rule lookup_row_key)
  have refresh: "refreshed i sid w = (Inr (r, s), w)"
    using s Cons.prems(1) by (simp add: refreshed_def bindc_apply)
  have rest: "\<And>k. k \<in> set sids \<Longrightarrow> get_step w k \<noteq> None" and new: "sid \<notin> set sids" and d: "distinct sids"
    using Cons.prems(3,4) by auto
  consider (over) "step_status s \<in> finished" | (waits) "step_status s = RS_awaiting_user"
    | (due) "step_status s \<notin> finished" "step_status s \<noteq> RS_awaiting_user" by blast
  then show ?case
  proof cases
    case over
    from Cons.IH [OF Cons.prems(1,2) d rest] obtain t k where
      "run_rollback_steps undisturbed ig env i p sids w = (Inr (), t)" and "run_ends i sids k w t" by blast
    with over s refresh Cons.prems(2) run_ends_next [OF \<open>run_ends i sids k w t\<close> new, of w]
    show ?thesis unfolding run_undisturbed_step [OF refresh Cons.prems(2)] by (auto simp: step_stands_def)
  next
    case waits
    have "run_ends i (sid # sids) 0 w w"
      by (rule run_ends_here [OF _ Cons.prems(1,2)]) (use waits s in \<open>auto simp: step_stands_def\<close>)
    with waits show ?thesis unfolding run_undisturbed_step [OF refresh Cons.prems(2)] by auto
  next
    case due
    obtain ok u where u: "attempt_rollback_step ig env i s w = (Inr ok, u)"
      "step_stands u sid {if ok then RS_completed else RS_awaiting_user}"
      "\<And>k. k \<noteq> sid \<Longrightarrow> get_step u k = get_step w k"
      "get_rollback u i = Some (r\<lparr>rollback_current_step := step_sequence_order s\<rparr>)"
      by (rule attempt_answers [of w s i r ig env]) (use s id Cons.prems(1) in auto)
    have unfin: "\<not> step_stands w sid finished" using due s by (simp add: step_stands_def)
    show ?thesis
    proof (cases ok)
      case False
      have "run_ends i (sid # sids) 0 w u"
        by (rule run_ends_here [OF _ u(4)]) (use u unfin False Cons.prems(2) in auto)
      with due u(1) False show ?thesis
        unfolding run_undisturbed_step [OF refresh Cons.prems(2)] by (auto simp: bindc_apply)
    next
      case True
      have "get_step u k \<noteq> None" if "k \<in> set sids" for k
        using u(3) [of k] rest [OF that] new that by metis
      from Cons.IH [OF u(4) _ d this] Cons.prems(2) obtain t k where
        t: "run_rollback_steps undisturbed ig env i p sids u = (Inr (), t)" "run_ends i sids k u t" by auto
      have "step_stands u sid finished" using u(2) True by (auto simp: step_stands_def)
      from run_ends_next [OF t(2) new this, of w] u(3) unfin
      have "run_ends i (sid # sids) (Suc k) w t" by auto
      with due u(1) True t(1) show ?thesis
        unfolding run_undisturbed_step [OF refresh Cons.prems(2)] by (auto simp: bindc_apply)
    qed
  qed
qed

lemma project_rollback_run_ends:
  assumes "get_rollback w i = Some r" and "distinct (map step_id (w_steps w))" and "i \<notin> set active"
  obtains w' t k where "run_project_rollback undisturbed active ig env i w = (Inr (), t)"
    "run_ends i (map step_id (steps_of w i)) k w' t"
    "\<And>s. s \<in> set (steps_of w i) \<Longrightarrow> get_step w' (step_id s) = Some s"
proof -
  let ?ids = "map step_id (steps_of w i)"
  let ?f = "\<lambda>r. r\<lparr>rollback_status := PR_running,
      rollback_started_at := Some (case rollback_started_at r of None \<Rightarrow> w_clock w | Some t \<Rightarrow> t)\<rparr>"
  let ?w = "upd_rollback i ?f w"
  have row: "get_rollback ?w i = Some (?f r)" using assms(1) by (simp add: get_rollback_upd)
  have steps: "get_step ?w (step_id s) = Some s" if "s \<in> set (steps_of w i)" for s
    using get_step_in_steps_of [OF assms(2) that] by simp
  have distinct: "distinct ?ids" by (rule distinct_steps_of [OF assms(2)])
  obtain t k where t: "run_rollback_steps undisturbed ig env i (rollback_project_id r) ?ids ?w = (Inr (), t)"
    and ends: "run_ends i ?ids k ?w t"
    using run_rollback_steps_ends [OF row _ distinct, of ig env "rollback_project_id r"] steps by fastforce
  have "run_project_rollback undisturbed active ig env i w = (Inr (), t)"
    using t assms(1,3) unfolding run_project_rollback_def run_rollback_inner_def
    by (simp add: bindc_apply thenc_apply)
  from that [OF this ends steps] show ?thesis .
qed


section \<open>A decision on a failed step\<close>

lemma get_project_or_404_keeps: "get_project_or_404 p org w = (x, t) \<Longrightarrow> t = w"
  by (auto simp: get_project_or_404_def bindc_apply split: option.splits if_splits)

lemma step_decision_running:
  "rollback_status r = PR_running \<Longrightarrow> w_tasks (snd (step_decision s r action w)) = w_tasks w"
  by (simp add: step_decision_def thenc_apply whenc_apply upd_step_def)

lemma decision_running:
  assumes "get_step w sid = Some s" and "get_rollback w (step_rollback_id s) = Some r"
    and "rollback_status r = PR_running"
  shows "w_tasks (snd (rollback_step_decision p sid user action w)) = w_tasks w"
proof (cases "fst (thenc (may_roll_back user) (get_project_or_404 p (user_organization_id user)) w)")
  case (Inl e)
  then have "w_tasks (snd (rollback_step_decision p sid user action w)) = w_tasks w"
    by (auto simp: rollback_step_decision_def transact_def thenc_apply bindc_apply may_roll_back_def
        dest: get_project_or_404_keeps split: prod.splits sum.splits)
  then show ?thesis .
next
  case (Inr q)
  then obtain t where "may_roll_back user w = (Inr (), w)"
      "get_project_or_404 p (user_organization_id user) w = (Inr q, w)"
    by (cases "get_project_or_404 p (user_organization_id user) w")
      (auto simp: thenc_apply may_roll_back_def require_def dest: get_project_or_404_keeps
        split: prod.splits sum.splits if_splits)
  with assms step_decision_running [OF assms(3), of s action w] show ?thesis
    by (auto simp: rollback_step_decision_def transact_def thenc_apply bindc_apply split: prod.splits sum.splits)
qed

text \<open>A decision does not continue a rollback that waits for it. The run leaves the status of the rollback
  at running when a step fails, and a decision starts the run again only if it is not running: so after a run
  that stopped at a failed step, whatever is decided about a step of the rollback schedules nothing.\<close>

theorem decision_does_not_continue:
  assumes "get_rollback w i = Some r" and "distinct (map step_id (w_steps w))" and "i \<notin> set active"
    and "run_project_rollback undisturbed active ig env i w = (x, t)"
    and "s \<in> set (steps_of w i)" and "step_stands t (step_id s) {RS_awaiting_user}"
    and "get_step t sid = Some s'" and "step_rollback_id s' = i"
  shows "w_tasks (snd (rollback_step_decision p sid user action t)) = w_tasks t"
proof -
  obtain w' t' k where run: "run_project_rollback undisturbed active ig env i w = (Inr (), t')"
    and ends: "run_ends i (map step_id (steps_of w i)) k w' t'"
    by (rule project_rollback_run_ends [OF assms(1-3)]) blast
  have t: "t' = t" using run assms(4) by simp
  have "k \<noteq> length (steps_of w i)"
  proof
    assume "k = length (steps_of w i)"
    then have "step_stands t (step_id s) finished" using ends assms(5) by (simp add: run_ends_def t)
    with assms(6) show False by (auto simp: step_stands_def)
  qed
  with ends obtain q where "get_rollback t i = Some q" "rollback_status q = PR_running"
    by (auto simp: run_ends_def t)
  with decision_running [OF assms(7)] assms(8) show ?thesis by simp
qed

section \<open>The order of the steps\<close>

lemma loaded_memberD: "m \<in> set (loaded_members w p) \<Longrightarrow> get_cr w (cr_id (snd m)) = Some (snd m)"
  by (auto simp: loaded_members_def List.map_filter_def) (frule cr_table.fetch_key, simp)

lemma eligible_subset: "m \<in> set (eligible_members cr_ids ms) \<Longrightarrow> m \<in> set ms"
  by (auto simp: eligible_members_def completed_members_def split: option.splits)

lemma sorted_reverse_sorted: "sorted_wrt (\<lambda>a b. key b \<le> key a) (sorted_reverse key xs)"
  unfolding sorted_reverse_def sorted_wrt_rev using sorted_sort_key [of key "rev xs"]
  by (simp add: sorted_wrt_map)

lemma sorted_reverse_mset [simp]: "mset (sorted_reverse key xs) = mset xs"
  by (simp add: sorted_reverse_def)

lemma set_sorted_reverse [simp]: "set (sorted_reverse key xs) = set xs"
  by (simp add: sorted_reverse_def)

lemma new_step_simps [simp]:
  "step_id (new_step fresh rid permanent crs (k, m)) = fresh k"
  "step_rollback_id (new_step fresh rid permanent crs im) = rid"
  "step_change_request_id (new_step fresh rid permanent crs (k, m)) = cr_id (snd m)"
  "step_sequence_order (new_step fresh rid permanent crs (k, m)) = int k"
  "step_status (new_step fresh rid permanent crs im) = RS_pending"
  by (auto simp: new_step_def split: prod.splits)

lemma nth_new_steps:
  "j < length ms \<Longrightarrow> new_steps fresh rid permanent crs ms ! j = new_step fresh rid permanent crs (Suc j, ms ! j)"
  by (simp add: new_steps_def nth_enumerate_eq)

lemma length_new_steps [simp]: "length (new_steps fresh rid permanent crs ms) = length ms"
  by (simp add: new_steps_def)

lemma new_steps_map:
  "map step_change_request_id (new_steps fresh rid permanent crs ms) = map (cr_id \<circ> snd) ms"
  "map step_sequence_order (new_steps fresh rid permanent crs ms) = map int [1..<Suc (length ms)]"
  by (rule nth_equalityI; simp add: nth_new_steps del: upt_Suc)+

lemma new_steps_sorted: "sort_key step_sequence_order (new_steps fresh rid permanent crs ms) = new_steps fresh rid permanent crs ms"
  by (rule sort_key_id_if_sorted) (simp add: new_steps_map sorted_map del: upt_Suc)

lemma initiate_steps:
  assumes "initiate fresh permanent p user msg cr_ids w = (Inr (rid, ws), t)"
    and "\<forall>s\<in>set (w_steps w). step_rollback_id s \<noteq> fresh 0"
  shows "rid = fresh 0" and "steps_of t rid = new_steps fresh (fresh 0) permanent (map snd (loaded_members w p))
     (sorted_reverse rollback_sort_key (eligible_members cr_ids (loaded_members w p)))"
proof -
  let ?ns = "new_steps fresh (fresh 0) permanent (map snd (loaded_members w p))
     (sorted_reverse rollback_sort_key (eligible_members cr_ids (loaded_members w p)))"
  have t: "rid = fresh 0" "w_steps t = w_steps w @ ?ns"
    using assms(1) by (auto simp: initiate_def Let_def bindc_apply thenc_apply schedule_task_def upd_project_def)
  have "filter (\<lambda>s. step_rollback_id s = fresh 0) ?ns = ?ns"
    by (rule filter_True) (auto simp: new_steps_def)
  moreover have "filter (\<lambda>s. step_rollback_id s = fresh 0) (w_steps w) = []"
    using assms(2) by (simp add: filter_empty_conv)
  ultimately show "steps_of t rid = ?ns" by (simp add: steps_of_def t new_steps_sorted)
  show "rid = fresh 0" by (rule t)
qed

text \<open>C21: A project is rolled back last applied, first undone. A new rollback has exactly one step for each
  completed change request of the project that was asked for, numbered from 1, all pending; and a change that
  was applied later comes strictly before one that was applied earlier or has no place in the stack.\<close>

theorem project_rollback_is_lifo:
  assumes "initiate fresh permanent p user msg cr_ids w = (Inr (rid, ws), t)"
    and "\<forall>s\<in>set (w_steps w). step_rollback_id s \<noteq> fresh 0"
  shows "mset (map step_change_request_id (steps_of t rid)) =
       mset (map (cr_id \<circ> snd) (eligible_members cr_ids (loaded_members w p))) \<and>
     map step_sequence_order (steps_of t rid) = map int [1..<Suc (length (steps_of t rid))] \<and>
     (\<forall>s\<in>set (steps_of t rid). step_status s = RS_pending) \<and>
     (\<forall>s\<in>set (steps_of t rid). \<forall>s'\<in>set (steps_of t rid). \<forall>c c' n.
        get_cr w (step_change_request_id s) = Some c \<longrightarrow> get_cr w (step_change_request_id s') = Some c' \<longrightarrow>
        cr_application_sequence c' = Some n \<longrightarrow>
        (case cr_application_sequence c of None \<Rightarrow> True | Some m \<Rightarrow> m < n) \<longrightarrow>
        step_sequence_order s' < step_sequence_order s)"
proof -
  define ms where "ms = sorted_reverse rollback_sort_key (eligible_members cr_ids (loaded_members w p))"
  define ns where "ns = new_steps fresh (fresh 0) permanent (map snd (loaded_members w p)) ms"
  have steps: "steps_of t rid = ns" using initiate_steps [OF assms] by (simp add: ns_def ms_def)
  have len: "length ns = length ms" by (simp add: ns_def new_steps_def)
  have order: "step_sequence_order s' < step_sequence_order s"
    if s: "s \<in> set ns" "s' \<in> set ns" and c: "get_cr w (step_change_request_id s) = Some c"
      "get_cr w (step_change_request_id s') = Some c'" and n: "cr_application_sequence c' = Some n"
      and m: "case cr_application_sequence c of None \<Rightarrow> True | Some m \<Rightarrow> m < n" for s s' c c' n
  proof -
    from s obtain j j' where j: "j < length ms" "s = ns ! j" "j' < length ms" "s' = ns ! j'"
      by (metis in_set_conv_nth len)
    have row: "get_cr w (cr_id (snd (ms ! k))) = Some (snd (ms ! k))" if "k < length ms" for k
      using that by (intro loaded_memberD) (auto intro: eligible_subset nth_mem simp: ms_def dest!: nth_mem)
    have "snd (ms ! j) = c" "snd (ms ! j') = c'"
      using c row [OF j(1)] row [OF j(3)] j by (simp_all add: ns_def nth_new_steps)
    with n m have key: "rollback_sort_key (ms ! j) < rollback_sort_key (ms ! j')"
      by (auto simp: rollback_sort_key_def split: option.splits)
    have "sorted_wrt (\<lambda>a b. rollback_sort_key b \<le> rollback_sort_key a) ms"
      unfolding ms_def by (rule sorted_reverse_sorted)
    with key j(1,3) have "j' < j"
      by (metis leD linorder_neqE_nat order_less_irrefl sorted_wrt_nth_less)
    with j show ?thesis by (simp add: ns_def nth_new_steps)
  qed
  have "mset (map step_change_request_id ns) = mset (map (cr_id \<circ> snd) (eligible_members cr_ids (loaded_members w p)))"
    unfolding ns_def new_steps_map by (simp only: mset_map ms_def sorted_reverse_mset)
  moreover have "map step_sequence_order ns = map int [1..<Suc (length ns)]"
    unfolding len by (simp only: ns_def new_steps_map)
  moreover have "\<forall>s\<in>set ns. step_status s = RS_pending" by (auto simp: ns_def new_steps_def)
  ultimately show ?thesis unfolding steps using order by blast
qed

section \<open>Backups are never found\<close>

lemma change_type_str_prefixed: "take 11 (change_type_str cr) = ''ChangeType.''"
  by (simp add: change_type_str_def)

lemma not_permanent: "\<forall>ct\<in>set permanent. take 11 ct \<noteq> ''ChangeType.'' \<Longrightarrow> change_type_str cr \<notin> set permanent"
  using change_type_str_prefixed [of cr] by metis

text \<open>A project rollback never uses a backup and never warns. The type of a change is compared as
  \<open>str(cr.change_type)\<close>, which is the name of the member with its class, while the list of permanent types
  holds plain names: every step of a new rollback is a standard one without a backup, and there are no
  warnings, whatever is permanent and whatever was backed up.\<close>

theorem project_rollback_ignores_backups:
  assumes "initiate fresh permanent p user msg cr_ids w = (Inr (rid, warnings), t)"
    and "\<forall>s\<in>set (w_steps w). step_rollback_id s \<noteq> fresh 0"
    and "\<forall>ct\<in>set permanent. take 11 ct \<noteq> ''ChangeType.''"
  shows "warnings = [] \<and> (\<forall>s\<in>set (steps_of t rid). step_kind s = RK_standard \<and> step_backup_cr_id s = None)"
proof -
  have "kind_of_step permanent crs cr = (RK_standard, None)" for crs cr
    using not_permanent [OF assms(3), of cr] by (simp add: kind_of_step_def)
  then have "step_kind s = RK_standard \<and> step_backup_cr_id s = None" if "s \<in> set (steps_of t rid)" for s
    using that unfolding initiate_steps(2) [OF assms(1,2)] by (auto simp: new_steps_def new_step_def)
  moreover have "build_preflight_warnings ms crs permanent = []" for ms crs
    using not_permanent [OF assms(3)] by (auto simp: build_preflight_warnings_def filter_empty_conv)
  then have "warnings = []"
    using assms(1) by (auto simp: initiate_def Let_def bindc_apply thenc_apply schedule_task_def)
  ultimately show ?thesis by blast
qed

section \<open>Two rotations of one project\<close>

definition example_project :: project where
  "example_project = \<lparr>project_id = ''p'', project_organization_id = ''org'', project_status = PS_in_progress\<rparr>"

definition applied_cr :: "uuid \<Rightarrow> int \<Rightarrow> change_request" where
  "applied_cr i n = example_cr\<lparr>cr_id := i, cr_status := CRS_completed, cr_application_sequence := Some n\<rparr>"

definition project_world :: world where
  "project_world = (example_world [applied_cr ''c1'' 1, applied_cr ''c2'' 2])\<lparr>w_projects := [example_project],
     w_members := [\<lparr>member_project_id = ''p'', member_change_request_id = ''c1'', member_sequence_order = 1\<rparr>,
       \<lparr>member_project_id = ''p'', member_change_request_id = ''c2'', member_sequence_order = 2\<rparr>]\<rparr>"

definition numbered :: "nat \<Rightarrow> uuid" where
  "numbered k = ''s'' @ replicate k (CHR ''i'')"

definition rolling_world :: world where
  "rolling_world = snd (initiate numbered [] ''p'' ''u'' None None project_world)"

lemma rolling_started: "initiate numbered [] ''p'' ''u'' None None project_world = (Inr (''s'', []), rolling_world)"
  unfolding rolling_world_def by code_simp

lemma rolling_rows:
  "map step_id (w_steps rolling_world) = [''si'', ''sii'']" "get_rollback rolling_world ''s'' \<noteq> None"
  "map step_change_request_id (steps_of rolling_world ''s'') = [''c2'', ''c1'']"
  by code_simp+

theorem project_rollback_is_lifo_witness:
  "mset (map step_change_request_id (steps_of rolling_world ''s'')) = {# ''c1'', ''c2'' #} \<and>
   map step_change_request_id (steps_of rolling_world ''s'') = [''c2'', ''c1'']"
proof -
  have none: "\<forall>s\<in>set (w_steps project_world). step_rollback_id s \<noteq> numbered 0"
    by (simp add: project_world_def example_world_def)
  have "map (cr_id \<circ> snd) (eligible_members None (loaded_members project_world ''p'')) = [''c1'', ''c2'']"
    by code_simp
  with project_rollback_is_lifo [OF rolling_started none] rolling_rows show ?thesis by simp
qed


text \<open>A run of the second change whose stored result cannot be undone.\<close>

definition damaged_world :: world where
  "damaged_world = rolling_world\<lparr>w_crs := [applied_cr ''c1'' 1, (applied_cr ''c2'' 2)\<lparr>cr_change_type := ''certificate_rotation''\<rparr>],
     w_runs := [\<lparr>run_id = ''r'', run_change_request_id = ''c2'', run_workflow_id = ''wf'', run_status = ES_completed,
       run_started_at = 0, run_completed_at = Some 0, run_result = [(''execution'', PStr ''lost'')]\<rparr>]\<rparr>"

definition stopped_world :: world where
  "stopped_world = snd (run_project_rollback undisturbed [] example_integration example_env ''s'' damaged_world)"

lemma stopped_run:
  "run_project_rollback undisturbed [] example_integration example_env ''s'' damaged_world = (Inr (), stopped_world)"
  unfolding stopped_world_def by code_simp

lemma stopped_step:
  "map (\<lambda>s. (step_id s, step_status s, step_rollback_id s)) (w_steps stopped_world) =
     [(''si'', RS_awaiting_user, ''s''), (''sii'', RS_pending, ''s'')]"
  by code_simp

lemma damaged_rows:
  "map step_id (w_steps damaged_world) = [''si'', ''sii'']" "get_rollback damaged_world ''s'' \<noteq> None"
  "map step_id (steps_of damaged_world ''s'') = [''si'', ''sii'']"
  by code_simp+

theorem decision_does_not_continue_witness:
  "(\<exists>s. get_step stopped_world ''si'' = Some s \<and> step_status s = RS_awaiting_user) \<and>
   w_tasks (snd (rollback_step_decision ''p'' ''si'' (example_user UR_admin) ''retry'' stopped_world)) =
     w_tasks stopped_world"
proof -
  obtain r where r: "get_rollback damaged_world ''s'' = Some r" using damaged_rows(2) by blast
  obtain s ss where "steps_of damaged_world ''s'' = s # ss" "step_id s = ''si''"
    using damaged_rows(3) by (auto simp: map_eq_Cons_conv)
  then have s: "s \<in> set (steps_of damaged_world ''s'')" "step_id s = ''si''" by simp_all
  from stopped_step obtain s' where s': "get_step stopped_world ''si'' = Some s'"
      "step_status s' = RS_awaiting_user" "step_rollback_id s' = ''s''"
    by (auto simp: map_eq_Cons_conv get_step_def lookup_row_def)
  have "step_stands stopped_world (step_id s) {RS_awaiting_user}" using s s' by (simp add: step_stands_def)
  from decision_does_not_continue [OF r _ _ stopped_run s(1) this s'(1,3)] damaged_rows(1) s'
  show ?thesis by auto
qed

text \<open>An instance that was terminated after a snapshot of the same asset.\<close>

definition snapshot_world :: world where
  "snapshot_world = project_world\<lparr>w_crs := [(applied_cr ''c1'' 1)\<lparr>cr_change_type := ''snapshot_asset''\<rparr>,
     (applied_cr ''c2'' 2)\<lparr>cr_change_type := ''ec2_terminate''\<rparr>]\<rparr>"

theorem project_rollback_ignores_backups_witness:
  "\<exists>t. initiate numbered [''ec2_terminate''] ''p'' ''u'' None None snapshot_world = (Inr (''s'', []), t) \<and>
     (\<forall>s\<in>set (steps_of t ''s''). step_kind s = RK_standard) \<and> length (steps_of t ''s'') = 2"
proof -
  let ?t = "snd (initiate numbered [''ec2_terminate''] ''p'' ''u'' None None snapshot_world)"
  have run: "initiate numbered [''ec2_terminate''] ''p'' ''u'' None None snapshot_world = (Inr (''s'', []), ?t)"
    by code_simp
  have "length (steps_of ?t ''s'') = 2" by code_simp
  moreover have "\<forall>s\<in>set (w_steps snapshot_world). step_rollback_id s \<noteq> numbered 0"
    by (simp add: snapshot_world_def project_world_def example_world_def)
  ultimately show ?thesis using run project_rollback_ignores_backups [OF run] by auto
qed

end
