(* ===== verification/System.thy ===== *)
theory System
  imports ProjectRollback
begin

text \<open>
  The program as a whole: the requests of users and the tasks that the handlers leave to the event
  loop (workflows, resumptions, manual rollbacks) as the steps of one system, each step run to its
  end. The properties that hold in every reachable state rest on two facts about each step: what
  it leaves alone in the table of change requests (\<open>steady\<close>, and \<open>effect\<close> of theory Lifecycle
  for the endpoints), and how a completion enters the rollback stack.
\<close>

section \<open>The rollback stack\<close>

text \<open>Two change requests that share a target never have the same place in the stack, so those that
  touch one asset are totally ordered by it.\<close>

definition share_target :: "change_request \<Rightarrow> change_request \<Rightarrow> bool" where
  "share_target c d \<longleftrightarrow> list_ex (\<lambda>a. a \<in> set (cr_target_asset_ids c)) (cr_target_asset_ids d)"

definition stacked :: "cr_view \<Rightarrow> bool" where
  "stacked G \<longleftrightarrow> (\<forall>j k c d n. j \<noteq> k \<longrightarrow> G j = Some c \<longrightarrow> G k = Some d \<longrightarrow> share_target c d \<longrightarrow>
     cr_application_sequence c = Some n \<longrightarrow> cr_application_sequence d \<noteq> Some n)"

lemma share_target_sym: "share_target c d \<longleftrightarrow> share_target d c"
  by (auto simp: share_target_def list_ex_iff)

lemma stackedD:
  "stacked G \<Longrightarrow> j \<noteq> k \<Longrightarrow> G j = Some c \<Longrightarrow> G k = Some d \<Longrightarrow> share_target c d \<Longrightarrow>
   cr_application_sequence c = Some n \<Longrightarrow> cr_application_sequence d \<noteq> Some n"
  unfolding stacked_def by (elim allE impE) assumption+

lemma stacked_same_rows:
  assumes "stacked G" and "same_rows G G'"
  shows "stacked G'"
  unfolding stacked_def
proof (intro allI impI)
  fix j k c d n
  assume a: "j \<noteq> k" "G' j = Some c" "G' k = Some d" "share_target c d" "cr_application_sequence c = Some n"
  from same_rowsD2 [OF assms(2) a(2)] obtain c0 where c0: "G j = Some c0" "same_row c0 c" by blast
  from same_rowsD2 [OF assms(2) a(3)] obtain d0 where d0: "G k = Some d0" "same_row d0 d" by blast
  have "share_target c0 d0" using a(4) c0(2) d0(2) by (simp add: same_row_def share_target_def)
  moreover have "cr_application_sequence c0 = Some n" using a(5) c0(2) by (simp add: same_row_def)
  ultimately have "cr_application_sequence d0 \<noteq> Some n"
    using stackedD [OF assms(1) a(1) c0(1) d0(1)] by blast
  then show "cr_application_sequence d \<noteq> Some n" using d0(2) by (simp add: same_row_def)
qed

lemma next_sequence_above:
  assumes "d \<in> set (w_crs w)" and "cr_id d \<noteq> cr_id cr" and "share_target cr d"
    and "cr_application_sequence d = Some m"
  shows "m < next_sequence w cr"
proof -
  from assms have m: "m \<in> set (overlapping_sequences w cr)"
    by (force simp: overlapping_sequences_def share_target_def)
  then obtain n ns where ns: "overlapping_sequences w cr = n # ns" by (cases "overlapping_sequences w cr") auto
  with m have "m \<le> fold max ns n" by (auto simp: fold_max_ge)
  with ns show ?thesis by (simp add: next_sequence_def)
qed

lemma get_cr_put_cr:
  "get_cr w (cr_id c) = Some c0 \<Longrightarrow> get_cr (put_cr c w) j = (if j = cr_id c then Some c else get_cr w j)"
  using cr_table.fetch_commit_same [of w c] cr_table.fetch_commit_other [of j c w] by auto

lemma stacked_put:
  assumes st: "stacked (get_cr w)" and cr: "get_cr w i = Some cr"
    and same: "cr_id cr' = i" "cr_target_asset_ids cr' = cr_target_asset_ids cr"
    and seq: "cr_application_sequence cr' = cr_application_sequence cr \<or>
      cr_application_sequence cr' = Some (next_sequence w cr')"
  shows "stacked (get_cr (put_cr cr' w))"
proof -
  have id: "cr_id cr = i" using cr by (rule cr_table.fetch_key)
  have get: "get_cr (put_cr cr' w) j = (if j = i then Some cr' else get_cr w j)" for j
    using get_cr_put_cr [of w cr' cr j] cr same by simp
  have apart: "cr_application_sequence d \<noteq> cr_application_sequence cr' \<or> cr_application_sequence cr' = None"
    if d: "get_cr w k = Some d" "k \<noteq> i" "share_target cr' d" for k d
  proof (cases "cr_application_sequence cr' = cr_application_sequence cr")
    case True
    have "share_target cr d" using d(3) same(2) by (simp add: share_target_def)
    with stackedD [OF st d(2) [symmetric] cr d(1)] True show ?thesis
      by (cases "cr_application_sequence cr") auto
  next
    case False
    with seq have new: "cr_application_sequence cr' = Some (next_sequence w cr')" by blast
    from d(1) have "d \<in> set (w_crs w)" "cr_id d = k"
      unfolding get_cr_def by (auto dest: lookup_row_in lookup_row_key)
    with next_sequence_above [of d w cr'] d same(1) new show ?thesis by fastforce
  qed
  show ?thesis
    unfolding stacked_def get
  proof (intro allI impI)
    fix j k c d n
    assume a: "j \<noteq> k" "(if j = i then Some cr' else get_cr w j) = Some c"
      "(if k = i then Some cr' else get_cr w k) = Some d" "share_target c d"
      "cr_application_sequence c = Some n"
    show "cr_application_sequence d \<noteq> Some n"
      using a apart [of k d] apart [of j c] stackedD [OF st a(1), of c d n]
      by (auto simp: share_target_sym [of c] split: if_splits)
  qed
qed

lemma update_status_stacked:
  assumes "stacked (get_cr w)"
  shows "stacked (get_cr (snd (update_change_request_status i s w)))"
proof -
  let ?m = "\<lambda>w. case get_cr w i of None \<Rightarrow> (Inr (), w)
        | Some cr \<Rightarrow>
            (case change_request_status_of s of Inl e \<Rightarrow> (Inl e, w)
             | Inr st \<Rightarrow>
                 (let cr' = cr\<lparr>cr_status := st, cr_updated_at := w_clock w\<rparr>
                  in (Inr (), put_cr (if s = ''completed'' \<and> cr_application_sequence cr = None
                                      then stamp_sequence w cr' else cr') w)))"
  have first: "stacked (get_cr (snd (?m w)))"
  proof (cases "get_cr w i")
    case None
    then show ?thesis using assms by simp
  next
    case (Some cr)
    have id: "cr_id cr = i" using Some by (rule cr_table.fetch_key)
    show ?thesis
    proof (cases "change_request_status_of s")
      case (Inl e)
      then show ?thesis using Some assms by simp
    next
      case (Inr st)
      let ?cr' = "cr\<lparr>cr_status := st, cr_updated_at := w_clock w\<rparr>"
      let ?new = "if s = ''completed'' \<and> cr_application_sequence cr = None
          then stamp_sequence w ?cr' else ?cr'"
      have "next_sequence w (stamp_sequence w ?cr') = next_sequence w ?cr'"
        by (simp add: next_sequence_def overlapping_sequences_def stamp_sequence_def)
      then have "stacked (get_cr (put_cr ?new w))"
        by (intro stacked_put [OF assms Some]) (auto simp: stamp_sequence_def id)
      with Some Inr show ?thesis by (simp add: Let_def)
    qed
  qed
  have "rows.steady (whenc (s = ''failed'') (notify_project i))" by (intro steadied)
  from rows.steady_run [OF this same_rows_refl] first
  have "stacked (get_cr (snd (whenc (s = ''failed'') (notify_project i) (snd (?m w)))))"
    using stacked_same_rows by blast
  with first show ?thesis
    unfolding update_change_request_status_def thenc_apply
    by (auto split: prod.split sum.split)
qed

text \<open>C14: Completing a change puts it on top of the rollback stack of its targets. A change request
  that has targets and no place in the stack gets one strictly above that of every other request
  that shares a target with it; one that has a place keeps it; and places stay distinct among
  requests that share a target.\<close>

theorem completion_stacks_on_top:
  assumes "get_cr w i = Some cr" and "stacked (get_cr w)"
  shows "\<exists>t cr'. update_change_request_status i ''completed'' w = (Inr (), t) \<and>
     get_cr t i = Some cr' \<and> cr_status cr' = CRS_completed \<and> stacked (get_cr t) \<and>
     (\<forall>n. cr_application_sequence cr = Some n \<longrightarrow> cr_application_sequence cr' = Some n) \<and>
     (cr_application_sequence cr = None \<and> cr_target_asset_ids cr \<noteq> [] \<longrightarrow>
        (\<exists>n. cr_application_sequence cr' = Some n \<and>
           (\<forall>k d m. k \<noteq> i \<longrightarrow> get_cr w k = Some d \<longrightarrow> share_target cr d \<longrightarrow>
              cr_application_sequence d = Some m \<longrightarrow> m < n)))"
proof -
  have id: "cr_id cr = i" using assms(1) by (rule cr_table.fetch_key)
  let ?cr' = "cr\<lparr>cr_status := CRS_completed, cr_updated_at := w_clock w\<rparr>"
  let ?new = "if cr_application_sequence cr = None then stamp_sequence w ?cr' else ?cr'"
  have completed: "change_request_status_of ''completed'' = Inr CRS_completed"
    using change_request_status_roundtrip [of CRS_completed] by simp
  have run: "update_change_request_status i ''completed'' w = (Inr (), put_cr ?new w)"
    using assms(1) completed
    by (simp add: update_change_request_status_def thenc_apply whenc_apply Let_def)
  have get: "get_cr (put_cr ?new w) i = Some ?new"
    using get_cr_put_cr [of w ?new cr i] assms(1) id by (simp add: stamp_sequence_def)
  have "stacked (get_cr (put_cr ?new w))"
    using update_status_stacked [OF assms(2), of i "''completed''"] run by simp
  moreover have "m < next_sequence w ?cr'"
    if d: "k \<noteq> i" "get_cr w k = Some d" "share_target cr d" "cr_application_sequence d = Some m" for k d m
  proof -
    from d(2) have "d \<in> set (w_crs w)" "cr_id d = k"
      unfolding get_cr_def by (auto dest: lookup_row_in lookup_row_key)
    with next_sequence_above [of d w ?cr'] d id show ?thesis by (simp add: share_target_def)
  qed
  ultimately show ?thesis using run get
    by (intro exI [of _ "put_cr ?new w"] exI [of _ ?new]) (auto simp: stamp_sequence_def)
qed

text \<open>A rotation on the asset of the examples, and one that lies on the stack below another.\<close>

definition rotation_on_asset :: "uuid \<Rightarrow> change_request" where
  "rotation_on_asset i = (rotation_cr [hd rotation_desired])\<lparr>cr_id := i, cr_status := CRS_approved\<rparr>"

definition pushed_world :: world where
  "pushed_world = example_world
     [(rotation_on_asset ''c1'')\<lparr>cr_application_sequence := Some 1\<rparr>, rotation_on_asset ''c2'']"

lemma pushed_rows:
  "get_cr pushed_world ''c1'' = Some ((rotation_on_asset ''c1'')\<lparr>cr_application_sequence := Some 1\<rparr>)"
  "get_cr pushed_world ''c2'' = Some (rotation_on_asset ''c2'')"
  "get_cr pushed_world j = Some d \<Longrightarrow> j = ''c1'' \<or> j = ''c2''"
  by (auto simp: pushed_world_def get_cr_def lookup_row_def example_world_def rotation_on_asset_def
      split: if_splits)

lemma pushed_sequences:
  "cr_application_sequence (rotation_on_asset i) = None" "cr_target_asset_ids (rotation_on_asset i) = [''a-1'']"
  by (simp_all add: rotation_on_asset_def rotation_cr_def example_cr_def)

lemma pushed_stacked: "stacked (get_cr pushed_world)"
  unfolding stacked_def
proof (intro allI impI)
  fix j k c d n
  assume "j \<noteq> k" and rows: "get_cr pushed_world j = Some c" "get_cr pushed_world k = Some d"
    and "cr_application_sequence c = Some n"
  then have "j = ''c1''" using pushed_rows(3) [OF rows(1)] by (auto simp: pushed_rows(2) pushed_sequences)
  with \<open>j \<noteq> k\<close> have "k = ''c2''" using pushed_rows(3) [OF rows(2)] by simp
  with rows(2) show "cr_application_sequence d \<noteq> Some n" by (auto simp: pushed_rows(2) pushed_sequences)
qed

theorem completion_stacks_on_top_witness:
  "\<exists>t cr n. update_change_request_status ''c2'' ''completed'' pushed_world = (Inr (), t) \<and>
     get_cr t ''c2'' = Some cr \<and> cr_application_sequence cr = Some n \<and> 1 < n"
proof -
  from completion_stacks_on_top [OF pushed_rows(2) pushed_stacked] pushed_sequences
  obtain t cr n where run: "update_change_request_status ''c2'' ''completed'' pushed_world = (Inr (), t)"
    "get_cr t ''c2'' = Some cr" "cr_application_sequence cr = Some n"
    and above: "\<And>k d m. k \<noteq> ''c2'' \<Longrightarrow> get_cr pushed_world k = Some d \<Longrightarrow>
       share_target (rotation_on_asset ''c2'') d \<Longrightarrow> cr_application_sequence d = Some m \<Longrightarrow> m < n"
    by auto
  have "1 < n"
    by (rule above [OF _ pushed_rows(1)]) (simp_all add: share_target_def pushed_sequences)
  with run show ?thesis by blast
qed

section \<open>Every step keeps the stack\<close>

abbreviation keeps_stack :: "'a prog \<Rightarrow> bool" where
  "keeps_stack m \<equiv> keeps (\<lambda>w. stacked (get_cr w)) m"

lemma steady_keeps_stack: "rows.steady m \<Longrightarrow> keeps_stack m"
  unfolding keeps_def rows.steady_def using stacked_same_rows by blast

lemma keeps_case_outcome:
  "(\<And>r. keeps I (f r)) \<Longrightarrow> (\<And>e. keeps I (g e)) \<Longrightarrow>
   keeps I (case z of Executed r \<Rightarrow> f r | Raised e \<Rightarrow> g e)"
  by (cases z) simp_all

lemma keeps_set_cr: "keeps_stack (set_cr wr status)"
  unfolding keeps_def set_cr_def using update_status_stacked by blast

lemma keeps_audit: "keeps_stack (audit wr ty)"
  unfolding audit_def by (intro steady_keeps_stack steadied)

lemma keeps_update_run: "keeps_stack (update_run wr status result)"
  unfolding update_run_def by (intro steady_keeps_stack steadied)

lemma keeps_execute_phase: "keeps_stack (execute_phase ig env fresh wr data)"
  unfolding execute_phase_def by (intro steady_keeps_stack steadied)

lemma keeps_post_execution: "keeps_stack (post_execution env data result)"
  unfolding post_execution_def Let_def by (intro steady_keeps_stack steadied)

lemma keeps_notify_completed: "keeps_stack (notify_completed env name i)"
  unfolding notify_completed_def quietly_def by (intro steady_keeps_stack steadied)

lemmas keeps_workflow =
  keeps_ret keeps_of_sum keeps_bindc keeps_thenc keeps_catchc keeps_if keeps_case_option
  keeps_case_outcome keeps_set_cr keeps_audit keeps_update_run keeps_execute_phase
  keeps_post_execution keeps_notify_completed
  steady_keeps_stack [OF rows.steady_discovery] steady_keeps_stack [OF rows.steady_execute_rollback]
  steady_keeps_stack [OF rows.steady_run_verification] steady_keeps_stack [OF rows.steady_load]

lemma keeps_run_workflow: "keeps_stack (run_workflow ig env fresh i org actor)"
  unfolding run_workflow_def quietly_def execute_change_workflow_def preflight_phase_def
    after_execution_def after_credential_rotation_def after_pausable_def after_cluster_upgrade_def
    complete_change_def pause_change_def fail_change_def verify_change_def verification_passed_def
    verification_failed_def Let_def
  by (intro keeps_workflow)

lemma stacked_effect:
  assumes "stacked G" and "effect org S G G'"
  shows "stacked G'"
proof -
  have old: "\<exists>c0. G j = Some c0 \<and> same_identity c0 c"
    if "G' j = Some c" "cr_application_sequence c \<noteq> None" for j c
  proof -
    have "row_effect org S (G j) (G' j)" using assms(2) by (simp add: effect_def)
    with that show ?thesis by (cases "G j") (auto simp: evolves_def)
  qed
  show ?thesis
    unfolding stacked_def
  proof (intro allI impI notI)
    fix j k c d n
    assume a: "j \<noteq> k" "G' j = Some c" "G' k = Some d" "share_target c d"
      "cr_application_sequence c = Some n" "cr_application_sequence d = Some n"
    from old [OF a(2)] a(5) obtain c0 where c0: "G j = Some c0" "same_identity c0 c" by auto
    from old [OF a(3)] a(6) obtain d0 where d0: "G k = Some d0" "same_identity d0 d" by auto
    have "share_target c0 d0" using a(4) c0(2) d0(2) by (simp add: same_identity_def share_target_def)
    moreover have "cr_application_sequence c0 = Some n" using a(5) c0(2) by (simp add: same_identity_def)
    moreover have "cr_application_sequence d0 = Some n" using a(6) d0(2) by (simp add: same_identity_def)
    ultimately show False using stackedD [OF assms(1) a(1) c0(1) d0(1)] by blast
  qed
qed

lemma keeps_handle: "keeps_stack (handle cfg env req user)"
  unfolding keeps_def
proof (intro allI impI)
  fix w assume "stacked (get_cr w)"
  obtain r t where run: "handle cfg env req user w = (r, t)" by fastforce
  from handle_effect [OF run] \<open>stacked (get_cr w)\<close> stacked_effect
  show "stacked (get_cr (snd (handle cfg env req user w)))" using run by auto
qed

section \<open>The system\<close>

text \<open>A request by any user, a task of the event loop, or time passing. A task runs to its end before the
  next one.\<close>

fun run_task :: "integration \<Rightarrow> env \<Rightarrow> uuid \<Rightarrow> task \<Rightarrow> unit prog" where
  "run_task ig env fresh (Task_workflow i org actor) = run_workflow ig env fresh i org actor"
| "run_task ig env fresh (Task_resume i) = resume_execution ig env fresh i"
| "run_task ig env fresh (Task_rollback i rid) = do_rollback ig env i rid"
| "run_task ig env fresh (Task_cr_failed p i) = on_cr_failed fresh p i"
| "run_task ig env fresh (Task_project_rollback i) = run_project_rollback undisturbed [] ig env i"

inductive system_step :: "config \<Rightarrow> integration \<Rightarrow> env \<Rightarrow> world \<Rightarrow> world \<Rightarrow> bool"
  for cfg ig env where
    user_request: "handle cfg env req user w = (r, t) \<Longrightarrow> system_step cfg ig env w t"
  | project_request: "handle_project preq user w = (r, t) \<Longrightarrow> system_step cfg ig env w t"
  | background:
      "w_tasks w = pre @ tk # post \<Longrightarrow>
       run_task ig env fresh tk (w\<lparr>w_tasks := pre @ post\<rparr>) = (r, t) \<Longrightarrow> system_step cfg ig env w t"
  | time_passes: "w_clock w \<le> now \<Longrightarrow> system_step cfg ig env w (w\<lparr>w_clock := now\<rparr>)"

inductive_cases system_stepE: "system_step cfg ig env w t"

text \<open>The system starts with an idle event loop on a database where no change has completed yet.\<close>

inductive reachable :: "config \<Rightarrow> integration \<Rightarrow> env \<Rightarrow> world \<Rightarrow> bool" for cfg ig env where
    started: "list_all (\<lambda>c. cr_application_sequence c = None) (w_crs w) \<Longrightarrow> w_tasks w = [] \<Longrightarrow>
      reachable cfg ig env w"
  | stepped: "reachable cfg ig env w \<Longrightarrow> system_step cfg ig env w t \<Longrightarrow> reachable cfg ig env t"

lemma rows_undisturbed: "rows.steady (undisturbed sid)"
  unfolding undisturbed_def by (intro steadied)

lemma keeps_run_task: "keeps_stack (run_task ig env fresh tk)"
  by (cases tk)
    (simp_all add: keeps_run_workflow steady_keeps_stack rows.steady_resume rows.steady_do_rollback steadied
      rows_undisturbed)

lemma get_cr_clock [simp]: "get_cr (w\<lparr>w_clock := n\<rparr>) j = get_cr w j"
  by (simp add: get_cr_def)

lemma stacked_cong: "(\<And>j. G' j = G j) \<Longrightarrow> stacked G \<Longrightarrow> stacked G'"
  by (metis ext)

lemma system_step_stacked:
  assumes "system_step cfg ig env w t" and "stacked (get_cr w)"
  shows "stacked (get_cr t)"
  using assms(1)
proof (cases rule: system_step.cases)
  case (user_request req user r)
  with keeps_handle [of cfg env req user] assms(2) show ?thesis by (auto dest: keepsD)
next
  case (project_request preq user r)
  with keepsD [OF steady_keeps_stack [OF rows_handle_project] assms(2), of preq user] show ?thesis by simp
next
  case (background pre tk post fresh r)
  have "stacked (get_cr (w\<lparr>w_tasks := pre @ post\<rparr>))"
    by (rule stacked_cong [OF _ assms(2)]) simp
  from keepsD [OF keeps_run_task this, of ig env fresh tk] background(2) show ?thesis by simp
next
  case (time_passes now)
  then show ?thesis by (auto intro: stacked_cong [OF _ assms(2)])
qed

lemma reachable_stack: "reachable cfg ig env w \<Longrightarrow> stacked (get_cr w)"
proof (induction rule: reachable.induct)
  case (started w)
  then have "cr_application_sequence c = None" if "get_cr w j = Some c" for j c
    using that by (auto simp: get_cr_def list_all_iff dest: lookup_row_in)
  then show ?case by (auto simp: stacked_def)
next
  case (stepped w t)
  then show ?case by (auto intro: system_step_stacked)
qed


text \<open>A replay of requests and of the oldest task of the event loop.\<close>

datatype event = Ask request user | Run_oldest

fun play :: "config \<Rightarrow> integration \<Rightarrow> env \<Rightarrow> event \<Rightarrow> world \<Rightarrow> world" where
  "play cfg ig env (Ask req user) w = snd (handle cfg env req user w)"
| "play cfg ig env Run_oldest w =
     (case w_tasks w of
        [] \<Rightarrow> w
      | tk # post \<Rightarrow> snd (run_task ig env ''run'' tk (w\<lparr>w_tasks := post\<rparr>)))"

lemma reachable_play: "reachable cfg ig env w \<Longrightarrow> reachable cfg ig env (play cfg ig env e w)"
proof (cases e)
  case (Ask req user)
  assume w: "reachable cfg ig env w"
  have "system_step cfg ig env w (snd (handle cfg env req user w))"
    by (rule user_request) (rule surjective_pairing)
  with w Ask show ?thesis by (auto intro: stepped)
next
  case Run_oldest
  assume w: "reachable cfg ig env w"
  show ?thesis
  proof (cases "w_tasks w")
    case Nil
    with w Run_oldest show ?thesis by simp
  next
    case (Cons tk post)
    have "system_step cfg ig env w (snd (run_task ig env ''run'' tk (w\<lparr>w_tasks := [] @ post\<rparr>)))"
      by (rule background [where pre = "[]" and tk = tk and post = post])
        (use Cons in \<open>simp_all add: prod_eq_iff\<close>)
    with w Run_oldest Cons show ?thesis by (auto intro: stepped)
  qed
qed

lemma reachable_replay: "reachable cfg ig env w \<Longrightarrow> reachable cfg ig env (fold (play cfg ig env) es w)"
  by (induction es arbitrary: w) (simp_all add: reachable_play)

text \<open>Two approved rotations on one asset, executed one after the other.\<close>

definition rotation_story :: "uuid \<Rightarrow> event list" where
  "rotation_story i = [Ask (Execute None (i @ ''-run'') i) (example_user UR_admin), Run_oldest]"

definition story_world :: world where
  "story_world = fold (play example_config example_integration example_env)
     (rotation_story ''c1'' @ rotation_story ''c2'')
     (example_world [rotation_on_asset ''c1'', rotation_on_asset ''c2''])"

lemma story_rows:
  "map (\<lambda>c. (cr_id c, cr_status c, cr_application_sequence c, cr_target_asset_ids c,
      cr_organization_id c)) (w_crs story_world) =
   [(''c1'', CRS_completed, Some 1, [''a-1''], ''org''), (''c2'', CRS_completed, Some 2, [''a-1''], ''org'')]"
  by code_simp

lemma story_reachable: "reachable example_config example_integration example_env story_world"
  unfolding story_world_def
  by (rule reachable_replay, rule started)
    (simp_all add: example_world_def rotation_on_asset_def rotation_cr_def example_cr_def)

lemma story_crs:
  obtains c d where "get_cr story_world ''c1'' = Some c" "get_cr story_world ''c2'' = Some d"
    "cr_application_sequence c = Some 1" "cr_application_sequence d = Some 2"
    "cr_status c = CRS_completed" "cr_status d = CRS_completed" "share_target c d"
    "cr_organization_id c = ''org''" "cr_organization_id d = ''org''"
proof -
  from story_rows obtain c d where "w_crs story_world = [c, d]"
    "cr_id c = ''c1''" "cr_id d = ''c2''" "cr_application_sequence c = Some 1"
    "cr_application_sequence d = Some 2" "cr_status c = CRS_completed" "cr_status d = CRS_completed"
    "cr_target_asset_ids c = [''a-1'']" "cr_target_asset_ids d = [''a-1'']"
    "cr_organization_id c = ''org''" "cr_organization_id d = ''org''"
    by (auto simp: map_eq_Cons_conv)
  then show ?thesis
    by (intro that [of c d]) (simp_all add: get_cr_def lookup_row_def share_target_def)
qed


text \<open>A manual rollback takes from the top of the stack. In every reachable state, when a manual
  rollback of a change that has a place in the stack is started, every other completed change of
  the organization that shares a target with it has a strictly lower place: nothing still applied
  lies above it.\<close>

theorem manual_rollback_from_top:
  assumes "reachable cfg ig env w"
    and "manual_rollback u rid i user w = (Inr (Rollback_started rid'), t)"
    and "get_cr w i = Some cr" and "cr_application_sequence cr = Some n"
    and "get_cr w k = Some d" and "k \<noteq> i" and "share_target cr d"
    and "cr_organization_id d = user_organization_id user" and "cr_status d = CRS_completed"
    and "cr_application_sequence d = Some m"
  shows "m < n"
proof (rule ccontr)
  assume "\<not> m < n"
  moreover have "m \<noteq> n"
    using stackedD [OF reachable_stack [OF assms(1)] assms(6) [symmetric] assms(3,5,7,4)] assms(10) by auto
  ultimately have "n < m" by simp
  from assms(2) obtain cr' where cr': "get_cr w i = Some cr'"
      "blocking_crs w (user_organization_id user) cr' \<noteq> [] \<longrightarrow>
         Rollback_started rid' = Rollback_conflict (blocking_crs w (user_organization_id user) cr') \<and> t = w"
    by (rule manual_rollback_answer)
  with assms(3) have empty: "blocking_crs w (user_organization_id user) cr = []" by auto
  have "cr_id cr = i" "cr_id d = k" using assms(3,5) by (auto intro: cr_table.fetch_key)
  moreover have "d \<in> set (w_crs w)" using assms(5) unfolding get_cr_def by (rule lookup_row_in)
  ultimately have "k \<in> set (blocking_crs w (user_organization_id user) cr)"
    using assms(4,6-10) \<open>n < m\<close>
    by (auto simp: blocking_crs_set applied_after_def share_target_def list_ex_iff)
  with empty show False by simp
qed

theorem manual_rollback_from_top_witness:
  "\<exists>c d t. manual_rollback ''u'' ''r'' ''c2'' (example_user UR_admin) story_world =
       (Inr (Rollback_started ''r''), t) \<and>
     get_cr story_world ''c1'' = Some c \<and> get_cr story_world ''c2'' = Some d \<and>
     cr_application_sequence c = Some 1 \<and> (1::int) < 2"
proof -
  obtain c d where cd: "get_cr story_world ''c1'' = Some c" "get_cr story_world ''c2'' = Some d"
    "cr_application_sequence c = Some 1" "cr_application_sequence d = Some 2"
    "cr_status c = CRS_completed" "share_target c d" "cr_organization_id c = ''org''" by (rule story_crs)
  have "(case fst (manual_rollback ''u'' ''r'' ''c2'' (example_user UR_admin) story_world) of
      Inr (Rollback_started rid) \<Rightarrow> rid = ''r'' | _ \<Rightarrow> False)"
    by code_simp
  then obtain t where run: "manual_rollback ''u'' ''r'' ''c2'' (example_user UR_admin) story_world =
      (Inr (Rollback_started ''r''), t)"
    by (cases "manual_rollback ''u'' ''r'' ''c2'' (example_user UR_admin) story_world")
      (auto split: sum.splits rollback_response.splits)
  have "''c1'' \<noteq> ''c2''" by simp
  from manual_rollback_from_top [OF story_reachable run cd(2,4,1) this _ _ cd(5,3)] cd(6,7)
  have "(1::int) < 2" by (simp add: share_target_sym example_user_def)
  with run cd show ?thesis by blast
qed

end
