(* ===== verification/Settling.thy ===== *)
theory Settling
  imports System
begin

text \<open>
  A started execution ends: whatever the executors answer or raise, the workflow returns and leaves
  its change request completed, failed or paused. The proof goes through the workflow with the
  \<open>triple\<close> judgement of the prelude over the assertion \<open>stands\<close>: the change request is there, with
  its type, and its status is in a set.
\<close>

definition stands :: "uuid \<Rightarrow> string \<Rightarrow> change_request_status set \<Rightarrow> world \<Rightarrow> bool" where
  "stands i ct S w \<longleftrightarrow> (\<exists>c. get_cr w i = Some c \<and> cr_change_type c = ct \<and> cr_status c \<in> S)"

lemma stands_mono: "stands i ct S w \<Longrightarrow> S \<subseteq> T \<Longrightarrow> stands i ct T w"
  by (auto simp: stands_def)

lemma stands_view: "(\<And>j. get_cr t j = get_cr w j) \<Longrightarrow> stands i ct S t = stands i ct S w"
  by (simp add: stands_def)

section \<open>Activities\<close>

lemma triple_same_view:
  assumes "\<And>w j. get_cr (snd (m w)) j = get_cr w j"
  shows "triple (stands i ct S) m (\<lambda>_. stands i ct S) (\<lambda>_. stands i ct S)"
proof (rule tripleI)
  fix s e t assume "stands i ct S s" "m s = (Inl e, t)"
  with stands_view [of t s] assms [of s] show "stands i ct S t" by simp
next
  fix s x t assume "stands i ct S s" "m s = (Inr x, t)"
  with stands_view [of t s] assms [of s] show "stands i ct S t" by simp
qed

lemma get_cr_update_run_status [simp]:
  "get_cr (snd (update_execution_run_status r st result w)) j = get_cr w j"
  by (simp add: update_execution_run_status_def put_run_def get_cr_def split: option.split sum.split)

lemma triple_audit [hoare]: "triple (stands i ct S) (audit wr ty) (\<lambda>_. stands i ct S) (\<lambda>_. stands i ct S)"
  by (rule triple_same_view) (simp add: audit_def record_event_def)

lemma triple_update_run [hoare]:
  "triple (stands i ct S) (update_run wr st result) (\<lambda>_. stands i ct S) (\<lambda>_. stands i ct S)"
  by (rule triple_same_view) (simp add: update_run_def split: option.split)

lemma update_run_returns:
  "execution_status_of st = Inr es \<Longrightarrow> \<exists>t. update_run wr st result w = (Inr (), t)"
  by (auto simp: update_run_def update_execution_run_status_def split: option.split)

text \<open>With a status the enumeration has, the update of the run does not raise.\<close>

lemma triple_update_run_ok:
  assumes "execution_status_of st = Inr es"
  shows "triple (stands i ct S) (update_run wr st result) (\<lambda>_. stands i ct S) E"
proof (rule tripleI)
  fix s e t assume "stands i ct S s" "update_run wr st result s = (Inl e, t)"
  with update_run_returns [OF assms, of wr result s] show "E e t" by auto
next
  fix s x t assume "stands i ct S s" "update_run wr st result s = (Inr x, t)"
  then show "stands i ct S t" using tripleD_ret [OF triple_update_run] by blast
qed

lemma triple_audit_ok: "triple (stands i ct S) (audit wr ty) (\<lambda>_. stands i ct S) E"
proof (rule tripleI)
  fix s e t assume "audit wr ty s = (Inl e, t)"
  then show "E e t" by (simp add: audit_def record_event_def)
next
  fix s x t assume "stands i ct S s" "audit wr ty s = (Inr x, t)"
  then show "stands i ct S t" using tripleD_ret [OF triple_audit] by blast
qed

lemma notify_project_apply:
  "\<exists>t. notify_project i w = (Inr (), t) \<and> (\<forall>j. get_cr t j = get_cr w j)"
  by (auto simp: notify_project_def comp_simps schedule_task_def split: option.split)

lemma triple_set_cr:
  assumes st: "change_request_status_of v = Inr st" and wr: "wr_cr wr = i"
  shows "triple (stands i ct S) (set_cr wr v) (\<lambda>_. stands i ct {st}) E"
proof -
  have run: "\<exists>t. set_cr wr v w = (Inr (), t) \<and> stands i ct {st} t" if "stands i ct S w" for w
  proof -
    from that obtain c where c: "get_cr w i = Some c" "cr_change_type c = ct"
      by (auto simp: stands_def)
    have id: "cr_id c = i" using c(1) by (rule cr_table.fetch_key)
    let ?c' = "c\<lparr>cr_status := st, cr_updated_at := w_clock w\<rparr>"
    let ?new = "if v = ''completed'' \<and> cr_application_sequence c = None then stamp_sequence w ?c' else ?c'"
    have "get_cr (put_cr ?new w) i = Some ?new"
      using get_cr_put_cr [of w ?new c i] c(1) id by (simp add: stamp_sequence_def)
    then have stands: "stands i ct {st} (put_cr ?new w)"
      using c(2) by (auto simp: stands_def stamp_sequence_def)
    obtain t where t: "notify_project i (put_cr ?new w) = (Inr (), t)"
        "\<forall>j. get_cr t j = get_cr (put_cr ?new w) j"
      using notify_project_apply by blast
    have first: "(case get_cr w i of None \<Rightarrow> (Inr (), w)
        | Some cr \<Rightarrow>
            (case change_request_status_of v of Inl e \<Rightarrow> (Inl e, w)
             | Inr st \<Rightarrow>
                 (let cr' = cr\<lparr>cr_status := st, cr_updated_at := w_clock w\<rparr>
                  in (Inr (), put_cr (if v = ''completed'' \<and> cr_application_sequence cr = None
                                      then stamp_sequence w cr' else cr') w)))) = (Inr (), put_cr ?new w)"
      using c(1) st by (simp only: option.case sum.case Let_def)
    show ?thesis
      unfolding set_cr_def wr update_change_request_status_def thenc_apply first
      using stands t stands_view [of t "put_cr ?new w" i ct "{st}"] by (auto simp: whenc_apply)
  qed
  show ?thesis
  proof (rule tripleI)
    fix s e t assume "stands i ct S s" "set_cr wr v s = (Inl e, t)"
    with run [of s] show "E e t" by auto
  next
    fix s x t assume "stands i ct S s" "set_cr wr v s = (Inr x, t)"
    with run [of s] show "stands i ct {st} t" by auto
  qed
qed

lemma status_values:
  "change_request_status_of ''completed'' = Inr CRS_completed"
  "change_request_status_of ''failed'' = Inr CRS_failed"
  "change_request_status_of ''paused'' = Inr CRS_paused"
  "change_request_status_of ''executing'' = Inr CRS_executing"
  "change_request_status_of ''verifying'' = Inr CRS_verifying"
  "execution_status_of ''completed'' = Inr ES_completed"
  "execution_status_of ''failed'' = Inr ES_failed"
  "execution_status_of ''running'' = Inr ES_running"
  using change_request_status_roundtrip [of CRS_completed] change_request_status_roundtrip [of CRS_failed]
    change_request_status_roundtrip [of CRS_paused] change_request_status_roundtrip [of CRS_executing]
    change_request_status_roundtrip [of CRS_verifying] execution_status_roundtrip [of ES_completed]
    execution_status_roundtrip [of ES_failed] execution_status_roundtrip [of ES_running]
  by simp_all

lemmas set_cr_rules = triple_set_cr [OF status_values(1)] triple_set_cr [OF status_values(2)]
  triple_set_cr [OF status_values(3)] triple_set_cr [OF status_values(4)]
  triple_set_cr [OF status_values(5)]

lemmas update_run_rules = triple_update_run_ok [OF status_values(6)]
  triple_update_run_ok [OF status_values(7)] triple_update_run_ok [OF status_values(8)]

section \<open>Endings\<close>

lemma complete_change_ends:
  "wr_cr wr = i \<Longrightarrow> triple (stands i ct S) (complete_change wr r) (\<lambda>_. stands i ct {CRS_completed}) E"
  unfolding complete_change_def
  by (assumption | rule triple_thenc set_cr_rules update_run_rules triple_audit_ok)+

lemma fail_change_ends:
  "wr_cr wr = i \<Longrightarrow> triple (stands i ct S) (fail_change wr r) (\<lambda>_. stands i ct {CRS_failed}) E"
  unfolding fail_change_def
  by (assumption | rule triple_thenc set_cr_rules update_run_rules triple_audit_ok)+

lemma pause_change_ends:
  "wr_cr wr = i \<Longrightarrow> triple (stands i ct S) (pause_change wr r) (\<lambda>_. stands i ct {CRS_paused}) E"
  unfolding pause_change_def
  by (assumption | rule triple_thenc set_cr_rules update_run_rules triple_audit_ok)+

definition settled :: "change_request_status set" where
  "settled = {CRS_completed, CRS_failed, CRS_paused}"

lemma triple_settle:
  "triple P m (\<lambda>_. stands i ct {st}) (\<lambda>_. stands i ct settled) \<Longrightarrow> st \<in> settled \<Longrightarrow>
   triple P m (\<lambda>_. stands i ct settled) (\<lambda>_. stands i ct settled)"
  by (erule triple_weaken) (auto intro: stands_mono)

lemma calm_call: "get_cr (snd (call env c w)) j = get_cr w j"
  by (simp add: call_apply)

lemma seqc_view:
  "(\<And>m w j. m \<in> set ms \<Longrightarrow> get_cr (snd (m w)) j = get_cr w j) \<Longrightarrow>
   get_cr (snd (seqc ms w)) j = get_cr w j"
proof (induction ms arbitrary: w)
  case Nil
  then show ?case by simp
next
  case (Cons m ms)
  obtain x t where mw: "m w = (x, t)" by fastforce
  have "get_cr t j = get_cr w j" using Cons.prems [of m w j] mw by simp
  moreover have "get_cr (snd (seqc ms t)) j = get_cr t j" by (rule Cons.IH) (use Cons.prems in simp)
  ultimately show ?case using mw by (cases x) (simp_all add: thenc_apply)
qed

lemma discovery_view: "get_cr (snd (activity_post_completion_discovery ig env i w)) j = get_cr w j"
proof -
  have one: "get_cr (snd (discover_candidate ig env cr ids cand w)) j = get_cr w j" for cr ids cand w j
    by (auto simp: discover_candidate_def comp_simps split: option.split sum.split if_split)
  show ?thesis
    by (auto simp: activity_post_completion_discovery_def comp_simps one split: option.split
        intro!: seqc_view)
qed

lemma notify_completed_view: "get_cr (snd (notify_completed env name i w)) j = get_cr w j"
  by (auto simp: notify_completed_def quietly_def comp_simps split: sum.split)

lemma verification_passed_ends:
  "wr_cr wr = i \<Longrightarrow> triple (stands i ct S) (verification_passed ig env wr r v) (\<lambda>_. stands i ct {CRS_completed})
     (\<lambda>_. stands i ct {CRS_completed})"
  unfolding verification_passed_def
  by (assumption | rule triple_thenc set_cr_rules update_run_rules triple_audit_ok
      triple_same_view discovery_view notify_completed_view)+

section \<open>After the execution\<close>

text \<open>Change types whose execution ends the same way whatever the executors answer: not those whose
  result is what an executor of its own returns, nor those that go on to write to the inventory,
  where an exception leaves the request as it is.\<close>

definition settling_type :: "string \<Rightarrow> bool" where
  "settling_type ct \<longleftrightarrow>
     ct \<notin> set fan_out_change_types \<and>
     ct \<notin> {''scan_for_references'', ''container_image_transfer'', ''agent_appdiscovery'',
       ''agent_containerize_build'', ''agent_containerize_retire'', ''change_ip'', ''migrate_ip'',
       ''k8s_workload_deploy''}"

definition dispatched_types :: "string list" where
  "dispatched_types =
     [''credential_rotation'', ''certificate_rotation'', ''credential_rotation_fanout'',
      ''k8s_cluster_upgrade'']"

lemma run_steps_paused:
  "run_steps ig env cr run done vs w = (Inr (ws, Some index), t) \<Longrightarrow> get_cr w (cr_id cr) \<noteq> None \<Longrightarrow>
   map_option cr_status (get_cr t (cr_id cr)) = Some CRS_paused"
proof (induction vs arbitrary: "done" w)
  case Nil
  then show ?case by simp
next
  case (Cons v vs)
  from Cons.prems(1) obtain step where v: "v = PDict step"
    by (auto simp: comp_simps split: sum.splits)
  from Cons.prems(1) v obtain st where st: "dget step ''status'' = Some st"
    by (auto simp: comp_simps split: sum.splits)
  show ?case
  proof (cases "st \<in> set due_statuses")
    case False
    with Cons.prems v st Cons.IH [of "done @ [v]" w] show ?thesis
      by (simp add: comp_simps dindex_def)
  next
    case True
    let ?u = "store_steps run (done @ PDict (with_status step ''executing'') # vs) w"
    obtain x u where u: "try_step ig env (cr_organization_id cr) (with_status step ''executing'') ?u = (x, u)"
      by fastforce
    have keep: "get_cr u (cr_id cr) \<noteq> None"
      using rows.steady_run [OF rows.steady_try_step [of ig env "cr_organization_id cr"
          "with_status step ''executing''"], of w ?u] u Cons.prems(2)
      by (auto simp: same_rows_eq dest: same_rowsD)
    from u obtain out where x: "x = Inr out"
      by (cases x) (auto simp: try_step_def comp_simps split: sum.splits prod.splits)
    show ?thesis
    proof (cases out)
      case (Step_done r)
      with Cons.prems(1) v st True u x keep
        Cons.IH [of "done @ [PDict (completed_step step r)]"
          "store_steps run (done @ PDict (completed_step step r) # vs) u"]
      show ?thesis by (simp add: comp_simps dindex_def persist_steps_store)
    next
      case (Step_failed e)
      with Cons.prems(1) v st True u x keep show ?thesis
        by (auto simp: comp_simps dindex_def persist_steps_store set_status_mark split: sum.splits)
    qed
  qed
qed

lemma execute_steps_paused:
  assumes run: "execute_steps ig env i w = (Inr r, t)" and paused: "truthy (dget_or r ''paused'' PNone)"
  shows "map_option cr_status (get_cr t i) = Some CRS_paused"
proof -
  from run obtain cr where cr: "get_cr w i = Some cr"
    by (auto simp: execute_steps_def bindc_apply get_cr_one_def split: option.splits)
  have id: "cr_id cr = i" using cr by (rule cr_table.fetch_key)
  from run cr obtain vs where vs: "current_steps cr (rotation_run w i) = Inr vs"
    by (auto simp: execute_steps_def bindc_apply get_cr_one_def split: sum.splits)
  obtain x u where steps: "run_steps ig env cr (map_option run_id (rotation_run w i)) [] vs w = (x, u)"
    by fastforce
  from run cr vs steps obtain ws p where x: "x = Inr (ws, p)"
    by (cases x) (auto simp: execute_steps_def bindc_apply get_cr_one_def)
  show ?thesis
  proof (cases p)
    case None
    with run cr vs steps x have "r = [(''steps'', PList ws)]"
      by (auto simp: execute_steps_def comp_simps get_cr_one_def split: sum.splits prod.splits)
    with paused show ?thesis by simp
  next
    case (Some index)
    with run cr vs steps x have "t = u"
      by (simp add: execute_steps_def comp_simps get_cr_one_def)
    moreover have "get_cr w (cr_id cr) \<noteq> None" using cr id by simp
    ultimately show ?thesis using run_steps_paused [OF steps [unfolded x Some]] id by simp
  qed
qed

text \<open>What is known of the result when the execution returned.\<close>

definition fits :: "uuid \<Rightarrow> string \<Rightarrow> pydict \<Rightarrow> world \<Rightarrow> bool" where
  "fits i ct r w \<longleftrightarrow>
     (ct = ''credential_rotation'' \<longrightarrow> truthy (dget_or r ''paused'' PNone) \<longrightarrow> stands i ct {CRS_paused} w) \<and>
     (ct \<notin> set dispatched_types \<longrightarrow> (\<exists>recs. r = [(''steps'', PList (map PDict recs))]))"

lemma plan_result:
  "bindc m (\<lambda>recs. ret [(''steps'', PList (map PDict recs))]) w = (Inr r, t) \<Longrightarrow>
   \<exists>recs. r = [(''steps'', PList (map PDict recs))]"
  by (auto simp: bindc_apply split: prod.splits sum.splits)

lemma execute_change_fits:
  assumes stands: "stands i ct UNIV w" and ct: "settling_type ct"
    and run: "activity_execute_change ig env fresh i steps ids w = (Inr r, t)"
  shows "fits i ct r t"
proof -
  from stands obtain cr where cr: "get_cr w i = Some cr" "cr_change_type cr = ct" by (auto simp: stands_def)
  have rows: "same_rows (get_cr w) (get_cr t)" using rows.steadyD [OF rows.steady_execute_change run] .
  from same_rowsD [OF rows cr(1)] cr(2) obtain cr' where cr': "get_cr t i = Some cr'"
      "cr_change_type cr' = ct" by (auto simp: same_row_def)
  show ?thesis
  proof (cases "ct \<in> set dispatched_types")
    case False
    with run cr ct have "bindc (execute_plan_steps ig env i ids (Some (cr_organization_id cr)) [] steps)
        (\<lambda>recs. ret [(''steps'', PList (map PDict recs))]) w = (Inr r, t)"
      by (simp add: activity_execute_change_def Let_def settling_type_def dispatched_types_def)
    from plan_result [OF this] False show ?thesis by (auto simp: fits_def dispatched_types_def)
  next
    case True
    have "stands i ct {CRS_paused} t" if rot: "ct = ''credential_rotation''" and p: "truthy (dget_or r ''paused'' PNone)"
    proof -
      from run cr rot have "execute_steps ig env i w = (Inr r, t)"
        by (simp add: activity_execute_change_def Let_def fan_out_change_types_def)
      from execute_steps_paused [OF this p] cr' show ?thesis by (auto simp: stands_def)
    qed
    with True show ?thesis by (auto simp: fits_def)
  qed
qed

lemma execute_phase_fits:
  assumes "settling_type ct" and "wr_cr wr = i"
  shows "triple (stands i ct UNIV) (execute_phase ig env fresh wr data)
     (\<lambda>out w. stands i ct UNIV w \<and> (\<forall>r. out = Executed r \<longrightarrow> fits i ct r w)) E"
proof -
  have run: "\<exists>out t. execute_phase ig env fresh wr data w = (Inr out, t) \<and> stands i ct UNIV t \<and>
      (\<forall>r. out = Executed r \<longrightarrow> fits i ct r t)" if stands: "stands i ct UNIV w" for w
  proof -
    obtain x t where x: "activity_execute_change ig env fresh i (wd_generated_steps data)
        (wd_target_asset_ids data) w = (x, t)" by fastforce
    from stands obtain cr where cr: "get_cr w i = Some cr" "cr_change_type cr = ct" by (auto simp: stands_def)
    from same_rowsD [OF rows.steadyD [OF rows.steady_execute_change x] cr(1)] cr(2)
    have after: "stands i ct UNIV t" by (auto simp: stands_def same_row_def)
    show ?thesis
    proof (cases x)
      case (Inl e)
      with x after assms(2) show ?thesis by (simp add: execute_phase_def comp_simps)
    next
      case (Inr r)
      with x have "fits i ct r t" using execute_change_fits [OF stands assms(1)] by simp
      with x Inr after assms(2) show ?thesis by (simp add: execute_phase_def comp_simps)
    qed
  qed
  show ?thesis
  proof (rule tripleI)
    fix s e t assume "stands i ct UNIV s" "execute_phase ig env fresh wr data s = (Inl e, t)"
    with run [of s] show "E e t" by auto
  next
    fix s x t assume "stands i ct UNIV s" "execute_phase ig env fresh wr data s = (Inr x, t)"
    with run [of s] show "stands i ct UNIV t \<and> (\<forall>r. x = Executed r \<longrightarrow> fits i ct r t)" by auto
  qed
qed

section \<open>Verification\<close>

lemma passed_checks_names:
  "passed_checks (''name'' # keys) detail cs = Inr rs \<Longrightarrow> \<exists>ns. check_names cs = Inr ns"
proof (induction cs arbitrary: rs)
  case Nil
  then show ?case by (simp add: check_names_def)
next
  case (Cons c cs)
  then have "dget c ''name'' \<noteq> None"
    by (auto split: option.splits if_splits)
  then obtain n where n: "dindex c ''name'' = Inr n" by (auto simp: dindex_def)
  from Cons.prems obtain rs' where "passed_checks (''name'' # keys) detail cs = Inr rs'"
    by (auto split: option.splits sum.splits if_splits)
  from Cons.IH [OF this] n show ?case by (auto simp: check_names_def simp del: dindex_Inr)
qed

lemma triple_upd_status:
  "triple (stands i ct S) (modifyc (upd_cr i (\<lambda>c. c\<lparr>cr_verification_status := v\<rparr>))) (\<lambda>_. stands i ct S) E"
  by (rule triple_modifyc) (auto simp: stands_def get_cr_upd_cr)

text \<open>\<open>verified data\<close>: the verification plan is one whose checks have a name and a description.\<close>

definition verifiable :: "workflow_data \<Rightarrow> bool" where
  "verifiable data \<longleftrightarrow> (\<exists>v. run_verification_checks (wd_verification_plan data) = Inr v)"

lemma verifiable_plan:
  assumes "verifiable data"
  obtains vs cs ns v where
    "as_list (dget_or (wd_verification_plan data) ''checks'' (PList [])) = Inr vs"
    "as_dicts vs = Inr cs" "check_names cs = Inr ns"
    "run_verification_checks (wd_verification_plan data) = Inr v"
    "truthy (dget_or v ''all_passed'' PNone)"
proof -
  from assms obtain v where v: "run_verification_checks (wd_verification_plan data) = Inr v"
    by (auto simp: verifiable_def)
  then obtain vs where vs: "as_list (dget_or (wd_verification_plan data) ''checks'' (PList [])) = Inr vs"
    by (auto simp: run_verification_checks_def split: sum.splits)
  with v obtain cs where cs: "as_dicts vs = Inr cs"
    by (auto simp: run_verification_checks_def split: sum.splits)
  with v vs obtain rs where rs: "passed_checks [''name'', ''description'']
      (\<lambda>c. ''Mock verification passed: '' @ text_of (dget_or c ''description'' PNone)) cs = Inr rs"
    by (auto simp: run_verification_checks_def split: sum.splits)
  from passed_checks_names [OF rs] obtain ns where "check_names cs = Inr ns" by blast
  moreover have "truthy (dget_or v ''all_passed'' PNone)"
    using v vs cs rs by (auto simp: run_verification_checks_def)
  ultimately show ?thesis using that vs cs v by blast
qed

lemma verify_change_ends:
  assumes wr: "wr_cr wr = i" and ok: "verifiable data" and ct: "settling_type (wd_change_type data)"
  shows "triple (stands i ct S) (verify_change ig env wr data r) (\<lambda>_. stands i ct settled) (\<lambda>_. stands i ct settled)"
proof -
  from ok obtain vs cs ns v where
    v: "as_list (dget_or (wd_verification_plan data) ''checks'' (PList [])) = Inr vs"
      "as_dicts vs = Inr cs" "check_names cs = Inr ns"
      "run_verification_checks (wd_verification_plan data) = Inr v"
      "truthy (dget_or v ''all_passed'' PNone)" by (rule verifiable_plan)
  have post: "post_execution env data r = ret ()"
    using ct by (simp add: post_execution_def settling_type_def Let_def)
  have ret: "bindc (of_sum (Inr x)) f = f x" for x and f :: "_ \<Rightarrow> unit prog"
    by (rule ext) (simp add: bindc_apply)
  have ret': "bindc (of_sum (Inr x)) f = f x" for x and f :: "_ \<Rightarrow> pydict prog"
    by (rule ext) (simp add: bindc_apply)
  have verify: "activity_run_verification i (wd_verification_plan data) =
      thenc (modifyc (upd_cr i (\<lambda>c. c\<lparr>cr_verification_status := Some (verification_status_of v)\<rparr>))) (ret v)"
    by (simp only: activity_run_verification_def v ret')
  have passed: "triple (stands i ct {CRS_verifying}) (verification_passed ig env wr r v)
      (\<lambda>_. stands i ct settled) (\<lambda>_. stands i ct settled)"
    by (rule triple_weaken [OF verification_passed_ends [OF wr]])
      (auto simp: settled_def intro: stands_mono)
  have run: "bindc (activity_run_verification i (wd_verification_plan data)) (\<lambda>verification.
      if truthy (dget_or verification ''all_passed'' PNone) then verification_passed ig env wr r verification
      else verification_failed ig env wr data r) =
    thenc (modifyc (upd_cr i (\<lambda>c. c\<lparr>cr_verification_status := Some (verification_status_of v)\<rparr>)))
      (verification_passed ig env wr r v)"
    unfolding verify using v(5) by (intro ext) (simp add: bindc_apply thenc_apply)
  show ?thesis
    unfolding verify_change_def post thenc_ret v(1) ret v(2) v(3) wr run
    by (rule triple_thenc, rule triple_audit_ok, rule triple_thenc, rule set_cr_rules, rule wr,
        rule triple_thenc, rule triple_audit_ok, rule triple_thenc, rule triple_upd_status, rule passed)
qed

section \<open>The workflow\<close>

lemma plan_soft_failure: "\<exists>b. soft_failure [(''steps'', PList (map PDict recs))] = Inr b"
  by (cases recs) (auto simp: soft_failure_def por_def)

lemma after_execution_ends:
  assumes wr: "wr_cr wr = i" and data: "wd_change_type data = ct" "settling_type ct" "verifiable data"
  shows "triple (\<lambda>w. stands i ct UNIV w \<and> fits i ct r w) (after_execution ig env wr data r)
     (\<lambda>_. stands i ct settled) (\<lambda>_. stands i ct settled)"
proof -
  let ?P = "\<lambda>w. stands i ct UNIV w \<and> fits i ct r w"
  let ?ends = "\<lambda>m. triple ?P m (\<lambda>_. stands i ct settled) (\<lambda>_. stands i ct settled)"
  have settle: "?ends m" if "triple (stands i ct UNIV) m (\<lambda>_. stands i ct {st}) (\<lambda>_. stands i ct settled)"
      "st \<in> settled" for m :: "unit prog" and st
    by (rule triple_weaken [OF triple_settle [OF that]]) auto
  have complete: "?ends (complete_change wr r)"
    by (rule settle [OF complete_change_ends [OF wr]]) (simp add: settled_def)
  have pause: "?ends (pause_change wr r)"
    by (rule settle [OF pause_change_ends [OF wr]]) (simp add: settled_def)
  have fail: "?ends (fail_change wr d)" for d
    by (rule settle [OF fail_change_ends [OF wr]]) (simp add: settled_def)
  have upgrade: "?ends (thenc (update_run wr ''failed'' r) (set_cr wr ''failed''))"
    by (rule settle, rule triple_thenc, rule update_run_rules, rule set_cr_rules, rule wr)
      (simp add: settled_def)
  show ?thesis
  proof (cases "ct = ''credential_rotation''")
    case True
    have "?ends (thenc (update_run wr ''running'' r) (audit wr ''execution.paused''))"
      if "truthy (dget_or r ''paused'' PNone)"
    proof (rule triple_weaken [where P' = "stands i ct {CRS_paused}"])
      show "triple (stands i ct {CRS_paused}) (thenc (update_run wr ''running'' r) (audit wr ''execution.paused''))
          (\<lambda>_. stands i ct {CRS_paused}) (\<lambda>_. stands i ct {CRS_paused})"
        by (rule triple_thenc, rule update_run_rules, rule triple_audit_ok)
    qed (use True that in \<open>auto simp: fits_def settled_def intro: stands_mono\<close>)
    with complete True data(1) show ?thesis
      by (auto simp: after_execution_def after_credential_rotation_def Let_def)
  next
    case False
    show ?thesis
    proof (cases "ct \<in> set dispatched_types")
      case True
      with False complete pause upgrade data(1) show ?thesis
        by (auto simp: after_execution_def after_pausable_def after_cluster_upgrade_def Let_def
            dispatched_types_def)
    next
      case other: False
      have verify: "?ends (verify_change ig env wr data r)"
        by (rule triple_weaken [OF verify_change_ends [OF wr data(3), where ct = ct and S = UNIV]])
          (use data in simp_all)
      have ordinary: "?ends (bindc (of_sum (soft_failure r)) (\<lambda>failed.
          if failed then fail_change wr [(''execution'', PDict r), (''soft_failure'', PBool True)]
          else verify_change ig env wr data r))"
      proof (cases "\<exists>b. soft_failure r = Inr b")
        case True
        then obtain b where "soft_failure r = Inr b" by blast
        then have eq: "bindc (of_sum (soft_failure r)) (\<lambda>failed.
          if failed then fail_change wr [(''execution'', PDict r), (''soft_failure'', PBool True)]
          else verify_change ig env wr data r) =
          (if b then fail_change wr [(''execution'', PDict r), (''soft_failure'', PBool True)]
           else verify_change ig env wr data r)"
          by (intro ext) (simp add: bindc_apply)
        show ?thesis unfolding eq using fail verify by simp
      next
        case False
        with plan_soft_failure have "\<not> (\<exists>recs. r = [(''steps'', PList (map PDict recs))])" by blast
        then have none: "\<not> ?P w" for w using other by (auto simp: fits_def)
        show ?thesis unfolding triple_def using none by blast
      qed
      with False other complete data(1) show ?thesis
        by (auto simp: after_execution_def Let_def dispatched_types_def)
    qed
  qed
qed

lemma preflight_passes:
  assumes wr: "wr_cr wr = i" and ok: "run_preflight_checks (wd_preflight_checks data) = Inr p"
  shows "triple (stands i ct S) (preflight_phase wr data) (\<lambda>b w. b \<and> stands i ct {CRS_executing} w) E"
proof -
  from ok obtain rs where rs: "passed_checks [''name''] (\<lambda>_. ''Check passed'') (wd_preflight_checks data) = Inr rs"
    and p: "p = [(''all_passed'', PBool True), (''results'', PList rs)]"
    by (auto simp: run_preflight_checks_def split: sum.splits)
  from passed_checks_names [OF rs] obtain ns where ns: "check_names (wd_preflight_checks data) = Inr ns" ..
  have true: "truthy (dget_or p ''all_passed'' PNone) = True" by (simp add: p)
  have ret: "bindc (of_sum (Inr x)) f = f x" for x and f :: "_ \<Rightarrow> bool prog"
    by (rule ext) (simp add: bindc_apply)
  have eq: "preflight_phase wr data = thenc (set_cr wr ''executing'') (thenc (audit wr ''preflight.started'')
      (thenc (audit wr ''preflight.passed'') (ret True)))"
    by (simp only: preflight_phase_def ns ok ret true not_True_eq_False if_False)
  show ?thesis
    unfolding eq
    by (rule triple_thenc, rule set_cr_rules, rule wr, rule triple_thenc, rule triple_audit_ok,
        rule triple_thenc, rule triple_audit_ok, rule triple_ret) simp
qed

lemma triple_case_outcome:
  "(\<And>r. triple (P (Executed r)) (f r) Q E) \<Longrightarrow> (\<And>e. triple (P (Raised e)) (g e) Q E) \<Longrightarrow>
   triple (P out) (case out of Executed r \<Rightarrow> f r | Raised e \<Rightarrow> g e) Q E"
  by (cases out) simp_all

lemma triple_starting:
  "triple P m Q E \<Longrightarrow> P w \<Longrightarrow> m' w = m w \<Longrightarrow> triple (\<lambda>s. s = w) m' Q E"
  by (simp add: triple_def)

lemma bindc_known: "m s = (Inr x, t) \<Longrightarrow> bindc m f s = f x t"
  by (simp add: bindc_def)

lemma workflow_ends:
  assumes data: "load_change_request_and_plan i w = (Inr data, w)" "wd_change_type data = ct"
    and ct: "settling_type ct" and preflight: "run_preflight_checks (wd_preflight_checks data) = Inr p"
    and verify: "verifiable data" and there: "stands i ct UNIV w"
  shows "triple (\<lambda>s. s = w) (execute_change_workflow ig env fresh i org actor)
     (\<lambda>_. stands i ct settled) (\<lambda>_. stands i ct settled)"
proof -
  let ?wr = "\<lparr>wr_cr = i, wr_org = org, wr_actor = actor, wr_run = wd_execution_run_id data\<rparr>"
  have wr: "wr_cr ?wr = i" by simp
  have execute: "triple (stands i ct UNIV)
      (bindc (execute_phase ig env fresh ?wr data) (\<lambda>out. case out of
         Raised e \<Rightarrow> fail_change ?wr [(''error'', PStr (exn_text e))]
       | Executed result \<Rightarrow> after_execution ig env ?wr data result))
      (\<lambda>_. stands i ct settled) (\<lambda>_. stands i ct settled)"
  proof (rule triple_bindc, rule execute_phase_fits [OF ct wr])
    fix out
    show "triple (\<lambda>w. stands i ct UNIV w \<and> (\<forall>r. out = Executed r \<longrightarrow> fits i ct r w))
        (case out of Raised e \<Rightarrow> fail_change ?wr [(''error'', PStr (exn_text e))]
         | Executed result \<Rightarrow> after_execution ig env ?wr data result)
        (\<lambda>_. stands i ct settled) (\<lambda>_. stands i ct settled)"
    proof (cases out)
      case (Executed r)
      then show ?thesis
        by (auto intro: triple_weaken [OF after_execution_ends [OF wr data(2) ct verify, where r = r]])
    next
      case (Raised e)
      have "triple (stands i ct UNIV) (fail_change ?wr [(''error'', PStr (exn_text e))])
          (\<lambda>_. stands i ct settled) (\<lambda>_. stands i ct settled)"
        by (rule triple_settle [OF fail_change_ends [OF wr]]) (simp add: settled_def)
      with Raised show ?thesis by (auto intro: triple_weaken)
    qed
  qed
  have body: "triple (stands i ct UNIV) (thenc (audit ?wr ''workflow.started'')
      (bindc (preflight_phase ?wr data) (\<lambda>passed.
         if \<not> passed then ret ()
         else thenc (audit ?wr ''execution.started'')
           (bindc (execute_phase ig env fresh ?wr data) (\<lambda>out. case out of
              Raised e \<Rightarrow> fail_change ?wr [(''error'', PStr (exn_text e))]
            | Executed result \<Rightarrow> after_execution ig env ?wr data result)))))
      (\<lambda>_. stands i ct settled) (\<lambda>_. stands i ct settled)"
  proof (rule triple_thenc, rule triple_audit_ok, rule triple_bindc, rule preflight_passes [OF wr preflight])
    fix passed
    show "triple (\<lambda>w. passed \<and> stands i ct {CRS_executing} w)
        (if \<not> passed then ret ()
         else thenc (audit ?wr ''execution.started'')
           (bindc (execute_phase ig env fresh ?wr data) (\<lambda>out. case out of
              Raised e \<Rightarrow> fail_change ?wr [(''error'', PStr (exn_text e))]
            | Executed result \<Rightarrow> after_execution ig env ?wr data result)))
        (\<lambda>_. stands i ct settled) (\<lambda>_. stands i ct settled)"
    proof (rule triple_if)
      assume "\<not> passed"
      then show "triple (\<lambda>w. passed \<and> stands i ct {CRS_executing} w) (ret ())
          (\<lambda>_. stands i ct settled) (\<lambda>_. stands i ct settled)"
        by (simp add: triple_def)
    qed (rule triple_weaken [OF triple_thenc [OF triple_audit_ok [where S = UNIV] execute]],
        auto intro: stands_mono)
  qed
  have "execute_change_workflow ig env fresh i org actor w =
      thenc (audit ?wr ''workflow.started'')
      (bindc (preflight_phase ?wr data) (\<lambda>passed.
         if \<not> passed then ret ()
         else thenc (audit ?wr ''execution.started'')
           (bindc (execute_phase ig env fresh ?wr data) (\<lambda>out. case out of
              Raised e \<Rightarrow> fail_change ?wr [(''error'', PStr (exn_text e))]
            | Executed result \<Rightarrow> after_execution ig env ?wr data result)))) w"
    unfolding execute_change_workflow_def bindc_known [where m = "load_change_request_and_plan i" and s = w, OF data(1)] Let_def ..
  then show ?thesis by (rule triple_starting [OF body, where w = w, OF there])
qed



end
