(* ===== verification/AssetGraph.thy ===== *)
theory AssetGraph
  imports Models
begin

text \<open>
  The graph of asset relationships (\<open>services/asset_graph.py\<close>, \<open>routers/asset_graph.py\<close> and the traversal of
  \<open>routers/impact_simulation.py\<close>). A relationship is a directed edge, "source depends on target"; the traversals
  are breadth-first searches with a depth limit, stated against the distance in the graph. Rows come in the
  order of the table, which the code leaves open.
\<close>

section \<open>The tables\<close>

record asset_relationship =
  rel_id :: uuid
  rel_organization_id :: uuid
  rel_source_asset_id :: uuid
  rel_target_asset_id :: uuid
  rel_relationship_type :: string
  rel_metadata :: pydict
  rel_created_by :: "uuid option"

record inventory =
  inv_assets :: "asset list"
  inv_relationships :: "asset_relationship list"

type_synonym 'a graph_prog = "(inventory, 'a) comp"

definition find_asset :: "inventory \<Rightarrow> uuid \<Rightarrow> asset option" where
  "find_asset g i = lookup_row asset_id (inv_assets g) i"

datatype direction = Upstream | Downstream

fun near_end :: "direction \<Rightarrow> asset_relationship \<Rightarrow> uuid" where
  "near_end Upstream r = rel_source_asset_id r"
| "near_end Downstream r = rel_target_asset_id r"

fun far_end :: "direction \<Rightarrow> asset_relationship \<Rightarrow> uuid" where
  "far_end Upstream r = rel_target_asset_id r"
| "far_end Downstream r = rel_source_asset_id r"

text \<open>The join of the relationships of an asset with the assets at their other ends.\<close>

definition adjacent :: "inventory \<Rightarrow> uuid \<Rightarrow> direction \<Rightarrow> uuid \<Rightarrow> (asset_relationship \<times> asset) list" where
  "adjacent g org d i =
     List.map_filter (\<lambda>r. map_option (Pair r) (find_asset g (far_end d r)))
       (filter (\<lambda>r. rel_organization_id r = org \<and> near_end d r = i) (inv_relationships g))"

section \<open>Neighbours\<close>

record neighbor =
  nb_id :: uuid
  nb_name :: string
  nb_asset_type :: string
  nb_relationship_type :: string
  nb_direction :: direction
  nb_rel_id :: uuid

definition neighbor_of :: "direction \<Rightarrow> asset_relationship \<times> asset \<Rightarrow> neighbor" where
  "neighbor_of d ra =
     (case ra of (r, a) \<Rightarrow>
        \<lparr>nb_id = asset_id a, nb_name = asset_name a, nb_asset_type = asset_type a,
         nb_relationship_type = rel_relationship_type r, nb_direction = d, nb_rel_id = rel_id r\<rparr>)"

text \<open>\<open>direction="both"\<close> is the list of both.\<close>

definition get_neighbors :: "inventory \<Rightarrow> uuid \<Rightarrow> uuid \<Rightarrow> direction list \<Rightarrow> neighbor list" where
  "get_neighbors g i org ds =
     (if Upstream \<in> set ds then map (neighbor_of Upstream) (adjacent g org Upstream i) else []) @
     (if Downstream \<in> set ds then map (neighbor_of Downstream) (adjacent g org Downstream i) else [])"

section \<open>Traversal\<close>

record reached =
  rc_id :: uuid
  rc_name :: string
  rc_asset_type :: string
  rc_relationship_type :: string
  rc_direction :: direction
  rc_depth :: int

definition reached_at :: "direction \<Rightarrow> int \<Rightarrow> asset_relationship \<times> asset \<Rightarrow> reached" where
  "reached_at d depth ra =
     (case ra of (r, a) \<Rightarrow>
        \<lparr>rc_id = asset_id a, rc_name = asset_name a, rc_asset_type = asset_type a,
         rc_relationship_type = rel_relationship_type r, rc_direction = d, rc_depth = depth\<rparr>)"

type_synonym search = "uuid list \<times> (uuid \<times> int) list \<times> reached list"

text \<open>The loop over the rows of one asset: those not seen before are marked, reported and queued.\<close>

fun visit_rows :: "direction \<Rightarrow> int \<Rightarrow> (asset_relationship \<times> asset) list \<Rightarrow> search \<Rightarrow> search" where
  "visit_rows d depth [] s = s"
| "visit_rows d depth (ra # rows) (visited, queue, results) =
     (if asset_id (snd ra) \<in> set visited then visit_rows d depth rows (visited, queue, results)
      else visit_rows d depth rows
             (visited @ [asset_id (snd ra)], queue @ [(asset_id (snd ra), depth + 1)],
              results @ [reached_at d (depth + 1) ra]))"

text \<open>What the loop over the rows adds.\<close>

lemma visit_rows_adds:
  "\<exists>ns. visit_rows d depth rows (V, Q, R) =
      (V @ map rc_id ns, Q @ map (\<lambda>n. (rc_id n, rc_depth n)) ns, R @ ns) \<and>
    distinct (map rc_id ns) \<and> set (map rc_id ns) = (asset_id \<circ> snd) ` set rows - set V \<and>
    (\<forall>n\<in>set ns. rc_depth n = depth + 1)"
proof (induction rows arbitrary: V Q R)
  case Nil
  show ?case by (intro exI [of _ "[]"]) simp
next
  case (Cons ra rows)
  show ?case
  proof (cases "asset_id (snd ra) \<in> set V")
    case True
    with Cons.IH [of V Q R] show ?thesis by (auto simp: insert_Diff_if)
  next
    case False
    let ?n = "reached_at d (depth + 1) ra"
    have n: "rc_id ?n = asset_id (snd ra)" "rc_depth ?n = depth + 1"
      by (simp_all add: reached_at_def split: prod.splits)
    from Cons.IH [of "V @ [asset_id (snd ra)]" "Q @ [(asset_id (snd ra), depth + 1)]" "R @ [?n]"] obtain ns where
      ns: "visit_rows d depth rows (V @ [asset_id (snd ra)], Q @ [(asset_id (snd ra), depth + 1)], R @ [?n]) =
         ((V @ [asset_id (snd ra)]) @ map rc_id ns, (Q @ [(asset_id (snd ra), depth + 1)]) @
            map (\<lambda>n. (rc_id n, rc_depth n)) ns, (R @ [?n]) @ ns)"
      "distinct (map rc_id ns)" "set (map rc_id ns) = (asset_id \<circ> snd) ` set rows - set (V @ [asset_id (snd ra)])"
      "\<forall>n\<in>set ns. rc_depth n = depth + 1" by blast
    with False n show ?thesis by (intro exI [of _ "?n # ns"]) auto
  qed
qed

text \<open>The assets that a search has not seen yet, for its termination.\<close>

definition unseen :: "inventory \<Rightarrow> uuid list \<Rightarrow> nat" where
  "unseen g visited = card (asset_id ` set (inv_assets g) - set visited)"

lemma set_adjacent:
  "set (adjacent g org d i) =
     {(r, a). r \<in> set (inv_relationships g) \<and> rel_organization_id r = org \<and> near_end d r = i \<and>
        find_asset g (far_end d r) = Some a}"
  by (force simp: adjacent_def List.map_filter_def)

lemma find_assetD: "find_asset g i = Some a \<Longrightarrow> a \<in> set (inv_assets g) \<and> asset_id a = i"
  by (auto simp: find_asset_def dest: lookup_row_in lookup_row_key)

lemma adjacent_assets: "ra \<in> set (adjacent g org d i) \<Longrightarrow> asset_id (snd ra) \<in> asset_id ` set (inv_assets g)"
  by (auto simp: set_adjacent dest!: find_assetD)

lemma unseen_visit:
  assumes "visit_rows d depth (adjacent g org d i) (V, Q, R) = (V', Q', R')"
  shows "unseen g V' < unseen g V \<or> (V' = V \<and> Q' = Q)"
proof -
  from visit_rows_adds [of d depth "adjacent g org d i" V Q R] obtain ns where
    "visit_rows d depth (adjacent g org d i) (V, Q, R) =
      (V @ map rc_id ns, Q @ map (\<lambda>n. (rc_id n, rc_depth n)) ns, R @ ns)"
    and ns3: "set (map rc_id ns) = (asset_id \<circ> snd) ` set (adjacent g org d i) - set V" by blast
  with assms have ns: "V' = V @ map rc_id ns" "Q' = Q @ map (\<lambda>n. (rc_id n, rc_depth n)) ns" by simp_all
  note ns = ns ns3
  show ?thesis
  proof (cases ns)
    case Nil
    with ns show ?thesis by simp
  next
    case (Cons n ms)
    then have n: "rc_id n \<in> (asset_id \<circ> snd) ` set (adjacent g org d i) - set V" using ns(3) by auto
    then have "rc_id n \<in> asset_id ` set (inv_assets g) - set V" using adjacent_assets by fastforce
    moreover have "rc_id n \<in> set V'" using ns(1) Cons by simp
    moreover have "set V \<subseteq> set V'" using ns(1) by auto
    ultimately have "asset_id ` set (inv_assets g) - set V' \<subset> asset_id ` set (inv_assets g) - set V" by blast
    then show ?thesis unfolding unseen_def by (intro disjI1 psubset_card_mono) auto
  qed
qed

text \<open>\<open>while queue\<close>.\<close>

function traverse_loop :: "inventory \<Rightarrow> uuid \<Rightarrow> direction \<Rightarrow> int \<Rightarrow> search \<Rightarrow> reached list" where
  "traverse_loop g org d max_depth (visited, [], results) = results"
| "traverse_loop g org d max_depth (visited, (i, depth) # queue, results) =
     (if max_depth \<le> depth then traverse_loop g org d max_depth (visited, queue, results)
      else traverse_loop g org d max_depth (visit_rows d depth (adjacent g org d i) (visited, queue, results)))"
  by pat_completeness auto

termination
proof (relation "measures [\<lambda>(g, org, d, m, V, Q, R). unseen g V, \<lambda>(g, org, d, m, V, Q, R). length Q]", goal_cases)
  case (3 g org d max_depth V i depth Q R)
  obtain V' Q' R' where v: "visit_rows d depth (adjacent g org d i) (V, Q, R) = (V', Q', R')"
    using prod_cases3 by blast
  with unseen_visit [OF v] show ?case by auto
qed auto

definition traverse :: "direction \<Rightarrow> inventory \<Rightarrow> uuid \<Rightarrow> uuid \<Rightarrow> int \<Rightarrow> reached list" where
  "traverse d g i org max_depth = traverse_loop g org d max_depth ([i], [(i, 0)], [])"

definition get_upstream :: "inventory \<Rightarrow> uuid \<Rightarrow> uuid \<Rightarrow> int \<Rightarrow> reached list" where
  "get_upstream g i org max_depth = traverse Upstream g i org max_depth"

definition get_downstream :: "inventory \<Rightarrow> uuid \<Rightarrow> uuid \<Rightarrow> int \<Rightarrow> reached list" where
  "get_downstream g i org max_depth = traverse Downstream g i org max_depth"

section \<open>Distances\<close>

definition edges :: "inventory \<Rightarrow> uuid \<Rightarrow> direction \<Rightarrow> (uuid \<times> uuid) set" where
  "edges g org d = {(i, j). j \<in> (asset_id \<circ> snd) ` set (adjacent g org d i)}"

text \<open>\<open>k\<close> steps lead from one asset to the other, and no fewer.\<close>

definition at_distance :: "('v \<times> 'v) set \<Rightarrow> 'v \<Rightarrow> nat \<Rightarrow> 'v \<Rightarrow> bool" where
  "at_distance E i k v \<longleftrightarrow> (i, v) \<in> E ^^ k \<and> (\<forall>e<k. (i, v) \<notin> E ^^ e)"

lemma at_distance_unique: "at_distance E i k v \<Longrightarrow> at_distance E i l v \<Longrightarrow> k = l"
  unfolding at_distance_def by (metis linorder_neqE_nat)

lemma at_distance_0 [simp]: "at_distance E i 0 v \<longleftrightarrow> v = i"
  by (auto simp: at_distance_def)

lemma at_distance_exists: "(i, v) \<in> E ^^ k \<Longrightarrow> \<exists>l\<le>k. at_distance E i l v"
proof (induction k arbitrary: v rule: less_induct)
  case (less k)
  show ?case
  proof (cases "\<exists>e<k. (i, v) \<in> E ^^ e")
    case True
    with less.IH show ?thesis by (meson le_trans less_imp_le_nat)
  next
    case False
    with less.prems show ?thesis by (auto simp: at_distance_def)
  qed
qed

lemma at_distance_Suc:
  assumes "at_distance E i (Suc k) v"
  obtains u where "at_distance E i k u" "(u, v) \<in> E"
proof -
  from assms obtain u where u: "(i, u) \<in> E ^^ k" "(u, v) \<in> E" by (auto simp: at_distance_def)
  from at_distance_exists [OF u(1)] obtain l where l: "l \<le> k" "at_distance E i l u" by blast
  have "l = k"
  proof (rule ccontr)
    assume "l \<noteq> k"
    with l have "Suc l < Suc k" "(i, v) \<in> E ^^ Suc l" using u(2) by (auto simp: at_distance_def)
    with assms show False by (auto simp: at_distance_def simp del: relpow.simps)
  qed
  with l u that show ?thesis by blast
qed

section \<open>The search finds exactly what is near enough\<close>

text \<open>The state of the search: what was found has its distance, the queue goes up by one level at most, and
  the assets that left the queue have all their neighbours marked.\<close>

definition searching :: "(uuid \<times> uuid) set \<Rightarrow> uuid \<Rightarrow> int \<Rightarrow> search \<Rightarrow> bool" where
  "searching E i m s \<longleftrightarrow>
     (case s of (V, Q, R) \<Rightarrow>
        set V = insert i (rc_id ` set R) \<and> distinct (map rc_id R) \<and> i \<notin> rc_id ` set R \<and>
        (\<forall>r\<in>set R. 1 \<le> rc_depth r \<and> rc_depth r \<le> m \<and> at_distance E i (nat (rc_depth r)) (rc_id r)) \<and>
        (\<forall>(v, k)\<in>set Q. v \<in> set V \<and> 0 \<le> k \<and> at_distance E i (nat k) v) \<and>
        sorted (map snd Q) \<and> (\<forall>(v, k)\<in>set Q. k \<le> snd (hd Q) + 1) \<and>
        (\<forall>v\<in>set V. (\<exists>k. (v, k) \<in> set Q) \<or>
           (\<forall>k. at_distance E i k v \<longrightarrow> int k < m \<longrightarrow> (\<forall>u. (v, u) \<in> E \<longrightarrow> u \<in> set V))))"

lemma searchingD:
  assumes "searching E i m (V, Q, R)"
  shows "set V = insert i (rc_id ` set R)" and "distinct (map rc_id R)" and "i \<notin> rc_id ` set R"
    and "r \<in> set R \<Longrightarrow> 1 \<le> rc_depth r \<and> rc_depth r \<le> m \<and> at_distance E i (nat (rc_depth r)) (rc_id r)"
    and "(v, k) \<in> set Q \<Longrightarrow> v \<in> set V \<and> 0 \<le> k \<and> at_distance E i (nat k) v"
    and "sorted (map snd Q)" and "(v, k) \<in> set Q \<Longrightarrow> k \<le> snd (hd Q) + 1"
    and "v \<in> set V \<Longrightarrow> (\<And>k. (v, k) \<notin> set Q) \<Longrightarrow> at_distance E i l v \<Longrightarrow> int l < m \<Longrightarrow> (v, u) \<in> E \<Longrightarrow> u \<in> set V"
proof -
  note parts = assms [unfolded searching_def prod.case]
  note p = parts [THEN conjunct1] parts [THEN conjunct2, THEN conjunct1]
    parts [THEN conjunct2, THEN conjunct2, THEN conjunct1]
  note rest = parts [THEN conjunct2, THEN conjunct2, THEN conjunct2]
  note q = rest [THEN conjunct1] rest [THEN conjunct2, THEN conjunct1]
    rest [THEN conjunct2, THEN conjunct2, THEN conjunct1]
  note last = rest [THEN conjunct2, THEN conjunct2, THEN conjunct2]
  show "set V = insert i (rc_id ` set R)" "distinct (map rc_id R)" "i \<notin> rc_id ` set R"
    "sorted (map snd Q)" by (fact p q)+
  show "r \<in> set R \<Longrightarrow> 1 \<le> rc_depth r \<and> rc_depth r \<le> m \<and> at_distance E i (nat (rc_depth r)) (rc_id r)"
    using q(1) by blast
  show "(v, k) \<in> set Q \<Longrightarrow> v \<in> set V \<and> 0 \<le> k \<and> at_distance E i (nat k) v" using q(2) by blast
  show "(v, k) \<in> set Q \<Longrightarrow> k \<le> snd (hd Q) + 1" using last [THEN conjunct1] by blast
  show "v \<in> set V \<Longrightarrow> (\<And>k. (v, k) \<notin> set Q) \<Longrightarrow> at_distance E i l v \<Longrightarrow> int l < m \<Longrightarrow>
    (v, u) \<in> E \<Longrightarrow> u \<in> set V" using last [THEN conjunct2] by blast
qed

lemma searchingI:
  assumes "set V = insert i (rc_id ` set R)" and "distinct (map rc_id R)" and "i \<notin> rc_id ` set R"
    and "\<And>r. r \<in> set R \<Longrightarrow> 1 \<le> rc_depth r \<and> rc_depth r \<le> m \<and> at_distance E i (nat (rc_depth r)) (rc_id r)"
    and "\<And>v k. (v, k) \<in> set Q \<Longrightarrow> v \<in> set V \<and> 0 \<le> k \<and> at_distance E i (nat k) v"
    and "sorted (map snd Q)" and "\<And>v k. (v, k) \<in> set Q \<Longrightarrow> k \<le> snd (hd Q) + 1"
    and "\<And>v l u. v \<in> set V \<Longrightarrow> (\<And>k. (v, k) \<notin> set Q) \<Longrightarrow> at_distance E i l v \<Longrightarrow> int l < m \<Longrightarrow>
      (v, u) \<in> E \<Longrightarrow> u \<in> set V"
  shows "searching E i m (V, Q, R)"
proof -
  have "\<forall>(v, k)\<in>set Q. v \<in> set V \<and> 0 \<le> k \<and> at_distance E i (nat k) v"
    "\<forall>(v, k)\<in>set Q. k \<le> snd (hd Q) + 1" using assms(5,7) by blast+
  moreover have "\<forall>v\<in>set V. (\<exists>k. (v, k) \<in> set Q) \<or>
      (\<forall>k. at_distance E i k v \<longrightarrow> int k < m \<longrightarrow> (\<forall>u. (v, u) \<in> E \<longrightarrow> u \<in> set V))" using assms(8) by blast
  ultimately show ?thesis unfolding searching_def prod.case using assms(1-4,6) by (intro conjI) simp_all
qed

lemma searching_start: "searching E i m ([i], [(i, 0)], [])"
  by (rule searchingI) auto

text \<open>Everything up to the level of the queue is marked.\<close>

lemma searching_levels:
  assumes s: "searching E i m (V, Q, R)" and v: "at_distance E i k v"
    and near: "int k \<le> m" "\<And>u l. (u, l) \<in> set Q \<Longrightarrow> int k \<le> l"
  shows "v \<in> set V"
  using v near
proof (induction k arbitrary: v)
  case 0
  with searchingD(1) [OF s] show ?case by simp
next
  case (Suc k)
  from Suc.prems(1) obtain u where u: "at_distance E i k u" "(u, v) \<in> E" by (rule at_distance_Suc)
  have far: "int (Suc k) \<le> l" if "(x, l) \<in> set Q" for x l using Suc.prems(3) that by blast
  have "u \<in> set V"
  proof (rule Suc.IH [OF u(1)])
    show "int k \<le> m" using Suc.prems(2) by simp
    show "int k \<le> l" if "(x, l) \<in> set Q" for x l using far [OF that] by simp
  qed
  moreover have "(u, l) \<notin> set Q" for l
  proof
    assume q: "(u, l) \<in> set Q"
    from searchingD(5) [OF s q] at_distance_unique [OF u(1)] have "l = int k" by auto
    with far [OF q] show False by simp
  qed
  moreover have "int k < m" using Suc.prems(2) by simp
  ultimately show ?case using searchingD(8) [OF s _ _ u(1) _ u(2)] by blast
qed

lemma sorted_queue_tail:
  assumes "searching E i m (V, (v, k) # Q, R)" and "(u, l) \<in> set Q"
  shows "k \<le> l" and "l \<le> k + 1" and "l \<le> snd (hd Q) + 1"
proof -
  have sorted: "sorted (map snd ((v, k) # Q))" by (rule searchingD(6) [OF assms(1)])
  with assms(2) show "k \<le> l" by fastforce
  show upper: "l \<le> k + 1" using searchingD(7) [OF assms(1), of u l] assms(2) by simp
  have "hd Q \<in> set Q" using assms(2) by (cases Q) auto
  then have "k \<le> snd (hd Q)" using sorted by auto
  with upper show "l \<le> snd (hd Q) + 1" by simp
qed

lemma searching_skip:
  assumes s: "searching E i m (V, (v, k) # Q, R)" and deep: "m \<le> k"
  shows "searching E i m (V, Q, R)"
proof (rule searchingI)
  fix x l u assume x: "x \<in> set V" "\<And>k. (x, k) \<notin> set Q" "at_distance E i l x" "int l < m" "(x, u) \<in> E"
  have "x \<noteq> v"
  proof
    assume "x = v"
    with searchingD(5) [OF s, of v k] at_distance_unique [OF x(3)] have "k = int l" by auto
    with deep x(4) show False by simp
  qed
  then show "u \<in> set V" using searchingD(8) [OF s x(1) _ x(3-5)] x(2) by auto
next
  fix x l assume "(x, l) \<in> set Q"
  then have "(x, l) \<in> set ((v, k) # Q)" by simp
  then show "x \<in> set V \<and> 0 \<le> l \<and> at_distance E i (nat l) x" by (rule searchingD(5) [OF s])
next
  show "sorted (map snd Q)" using searchingD(6) [OF s] by simp
qed (rule searchingD [OF s] sorted_queue_tail(3) [OF s], assumption?)+

lemma sorted_append_levels:
  "sorted (map snd Q) \<Longrightarrow> (\<And>u l. (u, l) \<in> set Q \<Longrightarrow> l \<le> n) \<Longrightarrow> (\<And>x. x \<in> set ns \<Longrightarrow> snd x = n) \<Longrightarrow>
   sorted (map snd (Q @ ns))"
proof -
  assume s: "sorted (map snd Q)" and Q: "\<And>u l. (u, l) \<in> set Q \<Longrightarrow> l \<le> n" and ns: "\<And>x. x \<in> set ns \<Longrightarrow> snd x = n"
  have "sorted (map snd ns)" using ns by (induction ns) auto
  with s show ?thesis using Q ns by (auto simp: sorted_append)
qed

lemma searching_visit:
  assumes s: "searching (edges g org d) i m (V, (v, k) # Q, R)" and near: "\<not> m \<le> k"
  shows "searching (edges g org d) i m (visit_rows d k (adjacent g org d v) (V, Q, R))"
proof -
  let ?E = "edges g org d"
  from visit_rows_adds [of d k "adjacent g org d v" V Q R] obtain ns where
    run: "visit_rows d k (adjacent g org d v) (V, Q, R) =
      (V @ map rc_id ns, Q @ map (\<lambda>n. (rc_id n, rc_depth n)) ns, R @ ns)"
    and ns: "distinct (map rc_id ns)" "set (map rc_id ns) = (asset_id \<circ> snd) ` set (adjacent g org d v) - set V"
      "\<forall>n\<in>set ns. rc_depth n = k + 1" by blast
  have v: "v \<in> set V" "0 \<le> k" "at_distance ?E i (nat k) v" using searchingD(5) [OF s, of v k] by auto
  have new: "at_distance ?E i (nat (k + 1)) (rc_id n)" if n: "n \<in> set ns" for n
  proof -
    have edge: "(v, rc_id n) \<in> ?E" and fresh: "rc_id n \<notin> set V"
      using n ns(2) by (auto simp: edges_def)
    have walk: "(i, rc_id n) \<in> ?E ^^ nat (k + 1)"
      using v edge by (auto simp: at_distance_def nat_add_distrib)
    from at_distance_exists [OF walk] obtain l where l: "l \<le> nat (k + 1)" "at_distance ?E i l (rc_id n)" by blast
    have "\<not> l \<le> nat k"
    proof
      assume "l \<le> nat k"
      then have "int l \<le> k" using v(2) by simp
      then have "rc_id n \<in> set V"
      proof (intro searching_levels [OF s l(2)])
        show "int l \<le> m" using \<open>int l \<le> k\<close> near by simp
        show "int l \<le> l'" if "(x, l') \<in> set ((v, k) # Q)" for x l'
          using that \<open>int l \<le> k\<close> sorted_queue_tail(1) [OF s, of x l'] by auto
      qed
      with fresh show False ..
    qed
    with l v(2) have "l = nat (k + 1)" by simp
    with l(2) show ?thesis by simp
  qed
  show ?thesis
    unfolding run
  proof (rule searchingI)
    show "set (V @ map rc_id ns) = insert i (rc_id ` set (R @ ns))" using searchingD(1) [OF s] by auto
    show "distinct (map rc_id (R @ ns))" "i \<notin> rc_id ` set (R @ ns)"
      using searchingD(1-3) [OF s] ns(1,2) by auto
    show "sorted (map snd (Q @ map (\<lambda>n. (rc_id n, rc_depth n)) ns))"
      by (rule sorted_append_levels [where n = "k + 1"])
        (use searchingD(6) [OF s] sorted_queue_tail(2) [OF s] ns(3) in auto)
  next
    fix r assume "r \<in> set (R @ ns)"
    with searchingD(4) [OF s, of r] new ns(3) near v(2)
    show "1 \<le> rc_depth r \<and> rc_depth r \<le> m \<and> at_distance ?E i (nat (rc_depth r)) (rc_id r)" by auto
  next
    fix x l assume "(x, l) \<in> set (Q @ map (\<lambda>n. (rc_id n, rc_depth n)) ns)"
    with searchingD(5) [OF s, of x l] new ns(3) v(2)
    show "x \<in> set (V @ map rc_id ns) \<and> 0 \<le> l \<and> at_distance ?E i (nat l) x" by auto
  next
    fix x l assume x: "(x, l) \<in> set (Q @ map (\<lambda>n. (rc_id n, rc_depth n)) ns)"
    have "l \<le> k + 1" using x sorted_queue_tail(2) [OF s, of x l] ns(3) by auto
    moreover have "k \<le> snd (hd (Q @ map (\<lambda>n. (rc_id n, rc_depth n)) ns))"
    proof (cases Q)
      case Nil
      with x ns(3) show ?thesis by (cases ns) auto
    next
      case (Cons q qs)
      with sorted_queue_tail(1) [OF s, of "fst q" "snd q"] show ?thesis by simp
    qed
    ultimately show "l \<le> snd (hd (Q @ map (\<lambda>n. (rc_id n, rc_depth n)) ns)) + 1" by simp
  next
    fix x l u
    assume x: "x \<in> set (V @ map rc_id ns)" "\<And>k. (x, k) \<notin> set (Q @ map (\<lambda>n. (rc_id n, rc_depth n)) ns)"
      "at_distance ?E i l x" "int l < m" "(x, u) \<in> ?E"
    have old: "x \<in> set V" using x(1,2) by auto
    show "u \<in> set (V @ map rc_id ns)"
    proof (cases "x = v")
      case True
      with x(5) ns(2) show ?thesis by (auto simp: edges_def)
    next
      case False
      then show ?thesis using searchingD(8) [OF s old _ x(3-5)] x(2) by auto
    qed
  qed
qed

lemma traverse_loop_finds:
  assumes "searching (edges g org d) i m (V, Q, R)"
  shows "distinct (map rc_id (traverse_loop g org d m (V, Q, R))) \<and>
    (\<lambda>r. (rc_id r, rc_depth r)) ` set (traverse_loop g org d m (V, Q, R)) =
      {(v, k). 1 \<le> k \<and> k \<le> m \<and> at_distance (edges g org d) i (nat k) v}"
  using assms
proof (induction g org d m "(V, Q, R)" arbitrary: V Q R rule: traverse_loop.induct)
  case (1 g org d m V R)
  let ?E = "edges g org d"
  have "(v, k) \<in> (\<lambda>r. (rc_id r, rc_depth r)) ` set R"
    if k: "1 \<le> k" "k \<le> m" "at_distance ?E i (nat k) v" for v k
  proof -
    have "v \<in> set V" by (rule searching_levels [OF "1" k(3)]) (use k in auto)
    moreover have "v \<noteq> i"
    proof
      assume "v = i"
      with at_distance_unique [OF k(3), of 0] k(1) show False by simp
    qed
    ultimately obtain r where r: "r \<in> set R" "rc_id r = v" using searchingD(1) [OF "1"] by auto
    from searchingD(4) [OF "1" r(1)] r(2) have d: "1 \<le> rc_depth r" "at_distance ?E i (nat (rc_depth r)) v" by auto
    from at_distance_unique [OF k(3) d(2)] k(1) d(1) have "rc_depth r = k" by simp
    with r show ?thesis by force
  qed
  then show ?case using searchingD(2,4) [OF "1"] by auto
next
  case (2 g org d m V v k Q R)
  show ?case
  proof (cases "m \<le> k")
    case True
    with "2.hyps"(1) [OF True searching_skip [OF "2.prems" True]] show ?thesis by simp
  next
    case False
    obtain V' Q' R' where s: "visit_rows d k (adjacent g org d v) (V, Q, R) = (V', Q', R')"
      using prod_cases3 by blast
    with "2.hyps"(2) [OF False, of V' Q' R'] searching_visit [OF "2.prems" False] False show ?thesis by simp
  qed
qed

text \<open>C22: The traversals are exact. \<open>get_upstream\<close> and \<open>get_downstream\<close> list each asset at most once, and list an
  asset with a depth exactly when that depth is its distance from the start along the relationships of the
  organization, at least 1 and at most the limit; cycles and several paths make no difference.\<close>

theorem traversal_exact:
  "distinct (map rc_id (get_upstream g i org m)) \<and> distinct (map rc_id (get_downstream g i org m)) \<and>
   (\<lambda>r. (rc_id r, rc_depth r)) ` set (get_upstream g i org m) =
     {(v, k). 1 \<le> k \<and> k \<le> m \<and> at_distance (edges g org Upstream) i (nat k) v} \<and>
   (\<lambda>r. (rc_id r, rc_depth r)) ` set (get_downstream g i org m) =
     {(v, k). 1 \<le> k \<and> k \<le> m \<and> at_distance (edges g org Downstream) i (nat k) v}"
  using traverse_loop_finds [OF searching_start, where g = g and org = org and d = Upstream and i = i and m = m]
    traverse_loop_finds [OF searching_start, where g = g and org = org and d = Downstream and i = i and m = m]
  by (simp add: get_upstream_def get_downstream_def traverse_def)

section \<open>Endpoints\<close>

definition own_asset :: "user \<Rightarrow> uuid \<Rightarrow> string \<Rightarrow> asset graph_prog" where
  "own_asset user i what =
     bindc (gets (\<lambda>g. find_asset g i)) (\<lambda>found.
       case found of
         None \<Rightarrow> raise (Exn (HTTPException 404) (what @ '' not found''))
       | Some a \<Rightarrow>
           if asset_organization_id a = user_organization_id user then ret a
           else raise (Exn (HTTPException 404) (what @ '' not found'')))"

definition relationships_of :: "inventory \<Rightarrow> uuid \<Rightarrow> uuid \<Rightarrow> asset_relationship list" where
  "relationships_of g org i =
     filter (\<lambda>r. rel_organization_id r = org \<and> (rel_source_asset_id r = i \<or> rel_target_asset_id r = i))
       (inv_relationships g)"

definition list_relationships :: "uuid \<Rightarrow> user \<Rightarrow> asset_relationship list graph_prog" where
  "list_relationships i user =
     thenc (bindc (own_asset user i ''Asset'') (\<lambda>_. ret ()))
       (gets (\<lambda>g. relationships_of g (user_organization_id user) i))"

definition same_relationship :: "uuid \<Rightarrow> uuid \<Rightarrow> uuid \<Rightarrow> string \<Rightarrow> asset_relationship \<Rightarrow> bool" where
  "same_relationship org i j ty r \<longleftrightarrow>
     rel_organization_id r = org \<and> rel_source_asset_id r = i \<and> rel_target_asset_id r = j \<and>
     rel_relationship_type r = ty"

definition create_relationship ::
  "uuid \<Rightarrow> uuid \<Rightarrow> uuid \<Rightarrow> string \<Rightarrow> pydict \<Rightarrow> user \<Rightarrow> asset_relationship graph_prog" where
  "create_relationship new i j ty meta user =
     bindc (own_asset user i ''Source asset'') (\<lambda>_.
     bindc (own_asset user j ''Target asset'') (\<lambda>_.
     bindc (gets (\<lambda>g. filter (same_relationship (user_organization_id user) i j ty) (inv_relationships g))) (\<lambda>existing.
       if existing \<noteq> [] then raise (Exn (HTTPException 409) ''Relationship already exists'')
       else
         let r = \<lparr>rel_id = new, rel_organization_id = user_organization_id user, rel_source_asset_id = i,
              rel_target_asset_id = j, rel_relationship_type = ty, rel_metadata = meta,
              rel_created_by = Some (user_id user)\<rparr>
         in thenc (modifyc (\<lambda>g. g\<lparr>inv_relationships := inv_relationships g @ [r]\<rparr>)) (ret r))))"

definition delete_relationship :: "uuid \<Rightarrow> user \<Rightarrow> unit graph_prog" where
  "delete_relationship k user =
     bindc (gets (\<lambda>g. lookup_row rel_id (inv_relationships g) k)) (\<lambda>found.
       case found of
         None \<Rightarrow> raise (Exn (HTTPException 404) ''Relationship not found'')
       | Some r \<Rightarrow>
           if rel_organization_id r = user_organization_id user
           then modifyc (\<lambda>g. g\<lparr>inv_relationships := filter (\<lambda>r. rel_id r \<noteq> k) (inv_relationships g)\<rparr>)
           else raise (Exn (HTTPException 404) ''Relationship not found''))"

definition get_graph :: "uuid \<Rightarrow> user \<Rightarrow> (asset \<times> neighbor list \<times> asset_relationship list) graph_prog" where
  "get_graph i user =
     bindc (own_asset user i ''Asset'') (\<lambda>a.
       gets (\<lambda>g. (a, get_neighbors g i (user_organization_id user) [Upstream, Downstream],
         relationships_of g (user_organization_id user) i)))"

text \<open>The impact simulation, without the five newest change requests it adds as context.\<close>

record impact =
  imp_asset :: asset
  imp_upstream :: "reached list"
  imp_downstream :: "(reached \<times> criticality) list"
  imp_critical :: nat
  imp_high :: nat
  imp_total :: nat

definition criticality_in :: "inventory \<Rightarrow> uuid \<Rightarrow> reached \<Rightarrow> criticality" where
  "criticality_in g org r =
     (case List.find (\<lambda>a. asset_id a = rc_id r \<and> asset_organization_id a = org) (inv_assets g) of
        Some a \<Rightarrow> asset_criticality a | None \<Rightarrow> Crit_low)"

definition get_impact_simulation :: "uuid \<Rightarrow> user \<Rightarrow> impact graph_prog" where
  "get_impact_simulation i user =
     bindc (own_asset user i ''Asset'') (\<lambda>a.
       gets (\<lambda>g.
         let org = user_organization_id user;
             upstream = get_upstream g i org 3;
             downstream = map (\<lambda>r. (r, criticality_in g org r)) (get_downstream g i org 3)
         in \<lparr>imp_asset = a, imp_upstream = upstream, imp_downstream = downstream,
             imp_critical = length (filter (\<lambda>(_, c). c = Crit_critical) downstream),
             imp_high = length (filter (\<lambda>(_, c). c = Crit_high) downstream),
             imp_total = length downstream\<rparr>))"

section \<open>The two directions\<close>

text \<open>Every relationship connects two assets of its organization: what the endpoint that creates them checks.\<close>

definition well_linked :: "inventory \<Rightarrow> bool" where
  "well_linked g \<longleftrightarrow>
     (\<forall>r\<in>set (inv_relationships g). \<forall>e\<in>{rel_source_asset_id r, rel_target_asset_id r}.
        \<exists>a. find_asset g e = Some a \<and> asset_organization_id a = rel_organization_id r)"

lemma edges_iff:
  "(i, j) \<in> edges g org d \<longleftrightarrow>
     (\<exists>r\<in>set (inv_relationships g). rel_organization_id r = org \<and> near_end d r = i \<and> far_end d r = j \<and>
        find_asset g j \<noteq> None)"
proof
  assume "(i, j) \<in> edges g org d"
  then obtain r a where "r \<in> set (inv_relationships g)" "rel_organization_id r = org" "near_end d r = i"
    "find_asset g (far_end d r) = Some a" "j = asset_id a" by (auto simp: edges_def set_adjacent)
  then show "\<exists>r\<in>set (inv_relationships g). rel_organization_id r = org \<and> near_end d r = i \<and> far_end d r = j \<and>
      find_asset g j \<noteq> None" using find_assetD [of g "far_end d r" a] by auto
next
  assume "\<exists>r\<in>set (inv_relationships g). rel_organization_id r = org \<and> near_end d r = i \<and> far_end d r = j \<and>
      find_asset g j \<noteq> None"
  then obtain r a where r: "r \<in> set (inv_relationships g)" "rel_organization_id r = org" "near_end d r = i"
    "far_end d r = j" "find_asset g j = Some a" by auto
  then have "(r, a) \<in> set (adjacent g org d i)" "asset_id a = j"
    using find_assetD [OF r(5)] by (simp_all add: set_adjacent)
  then show "(i, j) \<in> edges g org d" by (force simp: edges_def)
qed

lemma edges_converse:
  assumes "well_linked g"
  shows "edges g org Downstream = (edges g org Upstream)\<inverse>"
proof -
  have "find_asset g (rel_source_asset_id r) \<noteq> None" "find_asset g (rel_target_asset_id r) \<noteq> None"
    if "r \<in> set (inv_relationships g)" for r
    using assms that by (auto simp: well_linked_def)
  then show ?thesis by (auto simp: set_eq_iff edges_iff)
qed

lemma relpow_converse_subset:
  fixes E :: "('v \<times> 'v) set"
  shows "(v, i) \<in> (E\<inverse>) ^^ n \<Longrightarrow> (i, v) \<in> E ^^ n"
proof (induction n arbitrary: v i)
  case 0
  then have "v = i" by auto
  then show ?case by simp
next
  case (Suc n)
  then obtain u where "(v, u) \<in> (E\<inverse>) ^^ n" "(i, u) \<in> E" by auto
  with Suc.IH show ?case by (blast intro: relpow_Suc_I2)
qed

lemma at_distance_converse: "at_distance (E\<inverse>) v k i \<longleftrightarrow> at_distance E i k v"
proof -
  have "(v, i) \<in> (E\<inverse>) ^^ n \<longleftrightarrow> (i, v) \<in> E ^^ n" for n
    using relpow_converse_subset [of v i n E] relpow_converse_subset [of i v n "E\<inverse>"] by auto
  then show ?thesis by (simp add: at_distance_def)
qed

lemma listed_iff:
  "(\<exists>r\<in>set (traverse d g i org m). rc_id r = v \<and> rc_depth r = k) \<longleftrightarrow>
     1 \<le> k \<and> k \<le> m \<and> at_distance (edges g org d) i (nat k) v"
proof -
  have "(\<lambda>r. (rc_id r, rc_depth r)) ` set (traverse d g i org m) =
      {(v, k). 1 \<le> k \<and> k \<le> m \<and> at_distance (edges g org d) i (nat k) v}"
    using traverse_loop_finds [OF searching_start, where g = g and org = org and d = d and i = i and m = m] by (simp add: traverse_def)
  then have "(v, k) \<in> (\<lambda>r. (rc_id r, rc_depth r)) ` set (traverse d g i org m) \<longleftrightarrow>
      1 \<le> k \<and> k \<le> m \<and> at_distance (edges g org d) i (nat k) v" by simp
  then show ?thesis by force
qed

text \<open>The two traversals are each other's inverse, and stay in the organization. If every relationship
  connects assets of its organization, an asset is listed upstream of another with some depth exactly when
  the other is listed downstream of it with the same depth; and everything listed is an asset of the
  organization.\<close>

theorem traversals_inverse:
  assumes "well_linked g"
  shows "((\<exists>r\<in>set (get_upstream g i org m). rc_id r = j \<and> rc_depth r = k) \<longleftrightarrow>
      (\<exists>r\<in>set (get_downstream g j org m). rc_id r = i \<and> rc_depth r = k)) \<and>
    (\<forall>r\<in>set (get_upstream g i org m) \<union> set (get_downstream g i org m).
       \<exists>a. find_asset g (rc_id r) = Some a \<and> asset_organization_id a = org)"
proof (intro conjI ballI)
  show "(\<exists>r\<in>set (get_upstream g i org m). rc_id r = j \<and> rc_depth r = k) \<longleftrightarrow>
      (\<exists>r\<in>set (get_downstream g j org m). rc_id r = i \<and> rc_depth r = k)"
    unfolding get_upstream_def get_downstream_def listed_iff edges_converse [OF assms] at_distance_converse ..
next
  fix r assume "r \<in> set (get_upstream g i org m) \<union> set (get_downstream g i org m)"
  then obtain d where "r \<in> set (traverse d g i org m)" by (auto simp: get_upstream_def get_downstream_def)
  with listed_iff [of d g i org m "rc_id r" "rc_depth r"]
  have d: "1 \<le> rc_depth r" "at_distance (edges g org d) i (nat (rc_depth r)) (rc_id r)" by auto
  then obtain n where "at_distance (edges g org d) i (Suc n) (rc_id r)" by (cases "nat (rc_depth r)") auto
  then obtain u where "(u, rc_id r) \<in> edges g org d" by (rule at_distance_Suc)
  with assms show "\<exists>a. find_asset g (rc_id r) = Some a \<and> asset_organization_id a = org"
    by (cases d) (auto simp: edges_iff well_linked_def)
qed

section \<open>The endpoints keep the graph in its organization\<close>

definition unique_relationships :: "inventory \<Rightarrow> bool" where
  "unique_relationships g \<longleftrightarrow>
     distinct (map rel_id (inv_relationships g)) \<and>
     distinct (map (\<lambda>r. (rel_organization_id r, rel_source_asset_id r, rel_target_asset_id r,
       rel_relationship_type r)) (inv_relationships g))"

lemma own_asset_returns:
  "own_asset user i what g = (Inr a, t) \<Longrightarrow>
   t = g \<and> find_asset g i = Some a \<and> asset_organization_id a = user_organization_id user"
  by (auto simp: own_asset_def bindc_apply split: option.splits if_splits)

lemma own_asset_raises: "own_asset user i what g = (Inl e, t) \<Longrightarrow> t = g"
  by (auto simp: own_asset_def bindc_apply split: option.splits if_splits)

lemma find_asset_relationships [simp]: "find_asset (g\<lparr>inv_relationships := rs\<rparr>) i = find_asset g i"
  by (simp add: find_asset_def)

text \<open>Relationships are kept inside an organization. Creating and deleting relationships keep every
  relationship between assets of its organization and unique by its ends and type; a relationship is created
  only between assets of the user's organization, and only a relationship of the user's organization goes.\<close>

theorem relationships_well_linked:
  assumes "well_linked g" and "unique_relationships g" and "new \<notin> rel_id ` set (inv_relationships g)"
    and "create_relationship new i j ty meta user g = (x, t) \<or> delete_relationship k user g = (y, t)"
  shows "well_linked t \<and> unique_relationships t \<and> inv_assets t = inv_assets g \<and>
    (\<forall>r. rel_organization_id r \<noteq> user_organization_id user \<longrightarrow>
       (r \<in> set (inv_relationships t) \<longleftrightarrow> r \<in> set (inv_relationships g)))"
  using assms(4)
proof
  assume c: "create_relationship new i j ty meta user g = (x, t)"
  show ?thesis
  proof (cases "t = g")
    case True
    with assms show ?thesis by simp
  next
    case False
    with c obtain a b where ends: "find_asset g i = Some a" "asset_organization_id a = user_organization_id user"
      "find_asset g j = Some b" "asset_organization_id b = user_organization_id user"
      and fresh: "filter (same_relationship (user_organization_id user) i j ty) (inv_relationships g) = []"
      and t: "inv_relationships t = inv_relationships g @ [\<lparr>rel_id = new,
          rel_organization_id = user_organization_id user, rel_source_asset_id = i, rel_target_asset_id = j,
          rel_relationship_type = ty, rel_metadata = meta, rel_created_by = Some (user_id user)\<rparr>]"
        "inv_assets t = inv_assets g"
      by (auto simp: create_relationship_def bindc_apply thenc_apply Let_def
          dest!: own_asset_returns own_asset_raises split: prod.splits sum.splits if_splits)
    have "find_asset t k = find_asset g k" for k using t(2) by (simp add: find_asset_def)
    with assms(1) ends t have "well_linked t" by (auto simp: well_linked_def)
    moreover have "unique_relationships t"
      using assms(2,3) fresh t by (force simp: unique_relationships_def same_relationship_def filter_empty_conv)
    ultimately show ?thesis using t by auto
  qed
next
  assume "delete_relationship k user g = (y, t)"
  then consider "t = g" | r where "lookup_row rel_id (inv_relationships g) k = Some r"
      "rel_organization_id r = user_organization_id user"
      "t = g\<lparr>inv_relationships := filter (\<lambda>r. rel_id r \<noteq> k) (inv_relationships g)\<rparr>"
    by (auto simp: delete_relationship_def bindc_apply split: option.splits if_splits)
  then show ?thesis
  proof cases
    case 1
    with assms show ?thesis by simp
  next
    case 2
    have "inv_assets t = inv_assets g" and rels: "set (inv_relationships t) = {q \<in> set (inv_relationships g). rel_id q \<noteq> k}"
      using "2"(3) by auto
    moreover have "well_linked t" using assms(1) "2"(3) by (auto simp: well_linked_def)
    moreover have "unique_relationships t"
      using assms(2) "2"(3) by (auto simp: unique_relationships_def distinct_map inj_on_def)
    moreover have "rel_organization_id q = user_organization_id user"
      if q: "q \<in> set (inv_relationships g)" "rel_id q = k" for q
    proof -
      have "r \<in> set (inv_relationships g)" "rel_id r = k"
        using "2"(1) by (auto dest: lookup_row_in lookup_row_key)
      with q assms(2) have "q = r" by (auto simp: unique_relationships_def distinct_map inj_on_def)
      with "2"(2) show ?thesis by simp
    qed
    ultimately show ?thesis by auto
  qed
qed

section \<open>An inventory with a cycle\<close>

definition graph_asset :: "uuid \<Rightarrow> asset" where
  "graph_asset i = \<lparr>asset_id = i, asset_organization_id = ''org'', asset_name = i, asset_type = ''server'',
     asset_environment = Env_prod, asset_criticality = Crit_high, asset_tags = [], asset_connectors = [],
     asset_connector_id = None, asset_metadata = []\<rparr>"

definition graph_edge :: "uuid \<Rightarrow> uuid \<Rightarrow> asset_relationship" where
  "graph_edge i j = \<lparr>rel_id = i @ j, rel_organization_id = ''org'', rel_source_asset_id = i,
     rel_target_asset_id = j, rel_relationship_type = ''depends_on'', rel_metadata = [], rel_created_by = None\<rparr>"

definition graph_user :: user where
  "graph_user = \<lparr>user_id = ''u-1'', user_organization_id = ''org'', user_role = UR_admin\<rparr>"

definition example_inventory :: inventory where
  "example_inventory = \<lparr>inv_assets = map graph_asset [''web'', ''app'', ''db'', ''dns''],
     inv_relationships = [graph_edge ''web'' ''app'', graph_edge ''app'' ''db'', graph_edge ''db'' ''web'',
       graph_edge ''web'' ''dns'']\<rparr>"

lemma example_well_linked: "well_linked example_inventory" "unique_relationships example_inventory"
  by (auto simp: well_linked_def unique_relationships_def example_inventory_def find_asset_def lookup_row_def
      graph_edge_def graph_asset_def)

lemma example_upstream:
  "map (\<lambda>r. (rc_id r, rc_depth r)) (get_upstream example_inventory ''web'' ''org'' 3) =
     [(''app'', 1), (''dns'', 1), (''db'', 2)]"
  by code_simp

theorem traversals_inverse_witness:
  "(\<exists>r\<in>set (get_downstream example_inventory ''db'' ''org'' 3). rc_id r = ''web'' \<and> rc_depth r = 2) \<and>
   (\<forall>r\<in>set (get_upstream example_inventory ''web'' ''org'' 3).
      \<exists>a. find_asset example_inventory (rc_id r) = Some a \<and> asset_organization_id a = ''org'')"
proof -
  have "(''db'', 2) \<in> set (map (\<lambda>r. (rc_id r, rc_depth r)) (get_upstream example_inventory ''web'' ''org'' 3))"
    unfolding example_upstream by simp
  then have "\<exists>r\<in>set (get_upstream example_inventory ''web'' ''org'' 3). rc_id r = ''db'' \<and> rc_depth r = 2"
    by force
  with traversals_inverse [OF example_well_linked(1), where i = "''web''" and org = "''org''" and m = 3
      and j = "''db''" and k = 2] show ?thesis by blast
qed

theorem relationships_well_linked_witness:
  "\<exists>r t. create_relationship ''new'' ''app'' ''dns'' ''depends_on'' [] graph_user example_inventory =
      (Inr r, t) \<and> well_linked t \<and> unique_relationships t"
proof -
  let ?m = "create_relationship ''new'' ''app'' ''dns'' ''depends_on'' [] graph_user example_inventory"
  have "case fst ?m of Inr _ \<Rightarrow> True | Inl _ \<Rightarrow> False" by code_simp
  then obtain r t where run: "?m = (Inr r, t)" by (cases ?m) (auto split: sum.splits)
  have "''new'' \<notin> rel_id ` set (inv_relationships example_inventory)"
    by (simp add: example_inventory_def graph_edge_def)
  from relationships_well_linked [OF example_well_linked this disjI1 [OF run]] run show ?thesis by blast
qed

end
