(* ===== verification/IpAddress.thy ===== *)
theory IpAddress
  imports Texts "HOL-Library.Word"
begin

unbundle bit_operations_syntax

text \<open>
  The parts of the module \<open>ipaddress\<close> of the standard library that the tunnel uses: \<open>ip_address\<close>,
  \<open>ip_network(strict=False)\<close>, membership in a network and the text of an address. A network is its address
  with the length of its prefix; membership is stated bit by bit.
\<close>

section \<open>Addresses\<close>

datatype ip_address = IPv4 "32 word" | IPv6 "128 word" "string option"

definition is_digits :: "string \<Rightarrow> bool" where
  "is_digits s \<longleftrightarrow> s \<noteq> [] \<and> list_all (\<lambda>c. digit_value c \<noteq> None) s"

definition number_of_digits :: "string \<Rightarrow> int" where
  "number_of_digits s = foldl (\<lambda>n c. n * 10 + (case digit_value c of Some d \<Rightarrow> d | None \<Rightarrow> 0)) 0 s"

definition parse_octet :: "string \<Rightarrow> int option" where
  "parse_octet s =
     (if \<not> is_digits s \<or> length s > 3 \<or> (s \<noteq> ''0'' \<and> hd s = CHR ''0'') then None
      else let n = number_of_digits s in if n > 255 then None else Some n)"

definition parse_ipv4 :: "string \<Rightarrow> 32 word option" where
  "parse_ipv4 s =
     (case split_on (CHR ''.'') s of
        [a, b, c, d] \<Rightarrow>
          (case (parse_octet a, parse_octet b, parse_octet c, parse_octet d) of
             (Some a, Some b, Some c, Some d) \<Rightarrow> Some (of_int (((a * 256 + b) * 256 + c) * 256 + d))
           | _ \<Rightarrow> None)
      | _ \<Rightarrow> None)"

definition hex_value :: "char \<Rightarrow> int option" where
  "hex_value c =
     (let n = of_char c :: int in
      if 48 \<le> n \<and> n \<le> 57 then Some (n - 48)
      else if 65 \<le> n \<and> n \<le> 70 then Some (n - 55)
      else if 97 \<le> n \<and> n \<le> 102 then Some (n - 87)
      else None)"

definition parse_hextet :: "string \<Rightarrow> int option" where
  "parse_hextet s =
     (if s = [] \<or> length s > 4 \<or> list_ex (\<lambda>c. hex_value c = None) s then None
      else Some (foldl (\<lambda>n c. n * 16 + the (hex_value c)) 0 s))"

fun parse_hextets :: "string list \<Rightarrow> int list option" where
  "parse_hextets [] = Some []"
| "parse_hextets (s # ss) =
     (case (parse_hextet s, parse_hextets ss) of (Some n, Some ns) \<Rightarrow> Some (n # ns) | _ \<Rightarrow> None)"

text \<open>A suffix in dotted form stands for the last two of the eight parts.\<close>

definition dotted_suffix :: "string list \<Rightarrow> (string list \<times> int list) option" where
  "dotted_suffix parts =
     (if CHR ''.'' \<in> set (last parts)
      then (case parse_ipv4 (last parts) of
              None \<Rightarrow> None
            | Some w \<Rightarrow> Some (butlast parts, [uint w div 65536, uint w mod 65536]))
      else Some (parts, []))"

text \<open>The positions of empty parts other than the first and the last: where \<open>::\<close> stands.\<close>

definition skip_positions :: "string list \<Rightarrow> nat list" where
  "skip_positions parts = filter (\<lambda>i. parts ! i = []) [1..<length parts - 1]"

definition number_of_hextets :: "int list \<Rightarrow> 128 word" where
  "number_of_hextets ns = of_int (foldl (\<lambda>w n. w * 65536 + n) 0 ns)"

text \<open>\<open>_ip_int_from_string\<close> of version 6. The dotted suffix is kept as numbers instead of being written
  back in hexadecimal, and counts as two further parts.\<close>

definition place_hextets :: "string list \<Rightarrow> int list \<Rightarrow> 128 word option" where
  "place_hextets parts suffix =
     (let n = length parts + length suffix;
          shown = parts @ map (\<lambda>_. ''0'') suffix
      in if n > 9 then None
         else case skip_positions shown of
           [] \<Rightarrow>
             if n \<noteq> 8 then None
             else (case parse_hextets parts of None \<Rightarrow> None | Some ns \<Rightarrow> Some (number_of_hextets (ns @ suffix)))
         | [k] \<Rightarrow>
             (let hi = take k parts; lo = drop (k + 1) parts;
                  hi' = (if hd shown = [] then tl hi else hi);
                  lo' = (if last shown = [] then butlast lo else lo)
              in if hd shown = [] \<and> hi' \<noteq> [] \<or> last shown = [] \<and> lo' \<noteq> [] then None
                 else if length hi' + length lo' + length suffix > 7 then None
                 else case (parse_hextets hi', parse_hextets lo') of
                   (Some h, Some l) \<Rightarrow>
                     Some (number_of_hextets (h @ replicate (8 - (length h + length l + length suffix)) 0 @ l @ suffix))
                 | _ \<Rightarrow> None)
         | _ \<Rightarrow> None)"

definition parse_ipv6_number :: "string \<Rightarrow> 128 word option" where
  "parse_ipv6_number s =
     (let parts = split_on (CHR '':'') s
      in if length parts < 3 then None
         else case dotted_suffix parts of
           None \<Rightarrow> None
         | Some (parts, suffix) \<Rightarrow> place_hextets parts suffix)"

definition parse_ipv6 :: "string \<Rightarrow> (128 word \<times> string option) option" where
  "parse_ipv6 s =
     (if CHR ''/'' \<in> set s then None
      else case partition_at (CHR ''%'') s of
        (addr, False, _) \<Rightarrow> map_option (\<lambda>w. (w, None)) (parse_ipv6_number addr)
      | (addr, True, scope) \<Rightarrow>
          if scope = [] \<or> CHR ''%'' \<in> set scope then None
          else map_option (\<lambda>w. (w, Some scope)) (parse_ipv6_number addr))"

text \<open>\<open>ip_address\<close>: \<open>None\<close> stands for the \<open>ValueError\<close>.\<close>

definition ip_address_of :: "string \<Rightarrow> ip_address option" where
  "ip_address_of s =
     (case parse_ipv4 s of
        Some w \<Rightarrow> Some (IPv4 w)
      | None \<Rightarrow> (case parse_ipv6 s of Some (w, scope) \<Rightarrow> Some (IPv6 w scope) | None \<Rightarrow> None))"

section \<open>Networks\<close>

datatype ip_network = Net4 "32 word" nat | Net6 "128 word" nat

text \<open>The mask of a prefix of \<open>n\<close> bits.\<close>

definition netmask :: "nat \<Rightarrow> 'a::len word" where
  "netmask n = NOT (mask (LENGTH('a) - n))"

text \<open>A dotted mask: ones and then zeros, or, as a mask of the host part, the reverse.\<close>

definition prefix_of_mask :: "32 word \<Rightarrow> nat option" where
  "prefix_of_mask m =
     (case List.find (\<lambda>n. m = netmask n) [0..<33] of
        Some n \<Rightarrow> Some n
      | None \<Rightarrow> List.find (\<lambda>n. NOT m = netmask n) [0..<33])"

definition prefix_length :: "int \<Rightarrow> string \<Rightarrow> nat option" where
  "prefix_length m s =
     (if is_digits s \<and> number_of_digits s \<le> m then Some (nat (number_of_digits s)) else None)"

definition prefix_length4 :: "string \<Rightarrow> nat option" where
  "prefix_length4 s =
     (case prefix_length 32 s of
        Some n \<Rightarrow> Some n
      | None \<Rightarrow> (case parse_ipv4 s of Some m \<Rightarrow> prefix_of_mask m | None \<Rightarrow> None))"

definition network4 :: "string \<Rightarrow> string option \<Rightarrow> ip_network option" where
  "network4 addr len =
     (case (parse_ipv4 addr, case len of None \<Rightarrow> Some 32 | Some s \<Rightarrow> prefix_length4 s) of
        (Some w, Some n) \<Rightarrow> Some (Net4 (w AND netmask n) n)
      | _ \<Rightarrow> None)"

definition network6 :: "string \<Rightarrow> string option \<Rightarrow> ip_network option" where
  "network6 addr len =
     (case (parse_ipv6 addr, case len of None \<Rightarrow> Some 128 | Some s \<Rightarrow> prefix_length 128 s) of
        (Some (w, _), Some n) \<Rightarrow> Some (Net6 (w AND netmask n) n)
      | _ \<Rightarrow> None)"

text \<open>\<open>ip_network(s, strict=False)\<close>.\<close>

definition ip_network_of :: "string \<Rightarrow> ip_network option" where
  "ip_network_of s =
     (let (addr, len) = (case split_on (CHR ''/'') s of
            [a] \<Rightarrow> (a, Some None) | [a, p] \<Rightarrow> (a, Some (Some p)) | _ \<Rightarrow> (s, None))
      in case len of
           None \<Rightarrow> None
         | Some len \<Rightarrow> (case network4 addr len of Some n \<Rightarrow> Some n | None \<Rightarrow> network6 addr len))"

fun in_network :: "ip_address \<Rightarrow> ip_network \<Rightarrow> bool" where
  "in_network (IPv4 w) (Net4 a n) = (w AND netmask n = a)"
| "in_network (IPv6 w _) (Net6 a n) = (w AND netmask n = a)"
| "in_network _ _ = False"

text \<open>Two addresses agree on their first \<open>n\<close> bits.\<close>

definition same_prefix :: "nat \<Rightarrow> 'a::len word \<Rightarrow> 'a word \<Rightarrow> bool" where
  "same_prefix n v w \<longleftrightarrow> (\<forall>k<LENGTH('a). LENGTH('a) - n \<le> k \<longrightarrow> (bit v k \<longleftrightarrow> bit w k))"

lemma netmask_and: "v AND netmask n = w AND netmask n \<longleftrightarrow> same_prefix n v (w :: 'a::len word)"
  by (auto simp: same_prefix_def netmask_def bit_eq_iff bit_simps)

section \<open>The text of an address\<close>

definition show_ipv4 :: "nat \<Rightarrow> nat \<Rightarrow> nat \<Rightarrow> nat \<Rightarrow> string" where
  "show_ipv4 a b c d =
     string_of_nat a @ ''.'' @ string_of_nat b @ ''.'' @ string_of_nat c @ ''.'' @ string_of_nat d"

definition ipv4_of_octets :: "nat \<Rightarrow> nat \<Rightarrow> nat \<Rightarrow> nat \<Rightarrow> 32 word" where
  "ipv4_of_octets a b c d = of_int (((int a * 256 + int b) * 256 + int c) * 256 + int d)"

lemma split_on_append: "c \<notin> set h \<Longrightarrow> split_on c (h @ c # t) = h # split_on c t"
  by (induction h) auto

lemma split_on_none: "c \<notin> set h \<Longrightarrow> split_on c h = [h]"
  by (induction h) auto

lemma is_digits_string_of_nat: "is_digits (string_of_nat n)"
proof -
  have "list_all (\<lambda>c. digit_value c \<noteq> None) ''0123456789''" by (simp add: digit_value_def)
  moreover have "string_of_nat n \<noteq> []" by (subst string_of_nat.simps) simp
  ultimately show ?thesis using string_of_nat_digits [of n] unfolding is_digits_def list_all_iff by blast
qed

lemma number_of_string_of_nat: "number_of_digits (string_of_nat n) = int n"
proof (induction n rule: string_of_nat.induct)
  case (1 n)
  show ?case
  proof (cases "n < 10")
    case True
    then show ?thesis by (simp add: string_of_nat.simps [of n] number_of_digits_def digit_value_nth)
  next
    case False
    with "1.IH" show ?thesis
      by (simp add: string_of_nat.simps [of n] number_of_digits_def digit_value_nth zdiv_int zmod_int)
  qed
qed

lemma hd_string_of_nat: "hd (string_of_nat n) = CHR ''0'' \<Longrightarrow> n = 0"
proof (induction n rule: string_of_nat.induct)
  case (1 n)
  have digit: "''0123456789'' ! d = CHR ''0'' \<Longrightarrow> d = 0" if "d < 10" for d
    using that by (auto simp: less_Suc_eq numeral_eq_Suc)
  show ?case
  proof (cases "n < 10")
    case True
    with "1.prems" digit show ?thesis by (simp add: string_of_nat.simps [of n])
  next
    case False
    have "string_of_nat (n div 10) \<noteq> []" by (subst string_of_nat.simps) simp
    with False "1.prems" have "hd (string_of_nat (n div 10)) = CHR ''0''"
      by (simp add: string_of_nat.simps [of n])
    with "1.IH" False have "n div 10 = 0" by simp
    with False show ?thesis by (simp add: div_eq_0_iff)
  qed
qed

lemma length_string_of_nat_step: "(n < 10 \<Longrightarrow> 1 \<le> k) \<Longrightarrow> length (string_of_nat (n div 10)) \<le> k - 1 \<Longrightarrow> 1 \<le> k \<Longrightarrow>
  length (string_of_nat n) \<le> k"
  by (subst string_of_nat.simps) auto

lemma length_string_of_nat: "n < 1000 \<Longrightarrow> length (string_of_nat n) \<le> 3"
proof -
  assume "n < 1000"
  then have "n div 10 div 10 < 10" by linarith
  then have "length (string_of_nat (n div 10 div 10)) \<le> 1" by (subst string_of_nat.simps) simp
  then have "length (string_of_nat (n div 10)) \<le> 2" by (intro length_string_of_nat_step [of _ 2]) simp_all
  then show ?thesis by (intro length_string_of_nat_step [of _ 3]) simp_all
qed

lemma parse_octet_string_of_nat: "n < 256 \<Longrightarrow> parse_octet (string_of_nat n) = Some (int n)"
  using is_digits_string_of_nat [of n] hd_string_of_nat [of n] length_string_of_nat [of n]
    number_of_string_of_nat [of n]
  by (auto simp: parse_octet_def string_of_nat.simps [of 0])

lemma no_dot: "CHR ''.'' \<notin> set (string_of_nat n)"
  using string_of_nat_digits [of n] by auto

lemma parse_show_ipv4:
  assumes "a < 256" and "b < 256" and "c < 256" and "d < 256"
  shows "parse_ipv4 (show_ipv4 a b c d) = Some (ipv4_of_octets a b c d)"
  using assms by (simp add: parse_ipv4_def show_ipv4_def split_on_append split_on_none no_dot
      parse_octet_string_of_nat ipv4_of_octets_def)

end
