(* ===== verification/TunnelAuth.thy ===== *)
theory TunnelAuth
  imports IpAddress
begin

text \<open>
  The destination allowlist of a tunnel (\<open>tunnel/authorizer.py\<close>): rules are parsed from texts, and a dial is
  allowed only if some rule matches. Ports are numbers of the dial, hosts are texts, which may be addresses.
\<close>

section \<open>Rules\<close>

record rule =
  rule_network :: "ip_network option"
  rule_hostname :: "string option"
  rule_port_lo :: int
  rule_port_hi :: int

definition matches :: "rule \<Rightarrow> string \<Rightarrow> int \<Rightarrow> bool" where
  "matches r host port \<longleftrightarrow>
     rule_port_lo r \<le> port \<and> port \<le> rule_port_hi r \<and>
     (case rule_network r of
        Some net \<Rightarrow> (case ip_address_of host of Some ip \<Rightarrow> in_network ip net | None \<Rightarrow> False)
      | None \<Rightarrow> ip_address_of host = None \<and> rule_hostname r = Some (lower host))"

definition parse_ports :: "string \<Rightarrow> exn + int \<times> int" where
  "parse_ports spec =
     (if spec = ''*'' then Inr (1, 65535)
      else
        let r = (case partition_at (CHR ''-'') spec of
            (lo_s, True, hi_s) \<Rightarrow>
              (case int_of_text lo_s of Inl e \<Rightarrow> Inl e
               | Inr lo \<Rightarrow> (case int_of_text hi_s of Inl e \<Rightarrow> Inl e | Inr hi \<Rightarrow> Inr (lo, hi)))
          | (_, False, _) \<Rightarrow> (case int_of_text spec of Inl e \<Rightarrow> Inl e | Inr n \<Rightarrow> Inr (n, n)))
        in case r of
             Inl e \<Rightarrow> Inl e
           | Inr (lo, hi) \<Rightarrow>
               if 1 \<le> lo \<and> lo \<le> hi \<and> hi \<le> 65535 then Inr (lo, hi)
               else Inl (Exn AllowlistError ''invalid port spec''))"

definition parse_rule :: "string \<Rightarrow> exn + rule" where
  "parse_rule entry =
     (case rpartition_at (CHR '':'') (strip entry) of
        (host_part, sep, port_part) \<Rightarrow>
          if \<not> sep \<or> host_part = [] then Inl (Exn AllowlistError ''allowlist entry must be host:port'')
          else (case parse_ports port_part of
                  Inl e \<Rightarrow> Inl e
                | Inr (lo, hi) \<Rightarrow>
                    (case ip_network_of host_part of
                       Some net \<Rightarrow> Inr \<lparr>rule_network = Some net, rule_hostname = None,
                         rule_port_lo = lo, rule_port_hi = hi\<rparr>
                     | None \<Rightarrow> Inr \<lparr>rule_network = None, rule_hostname = Some (lower host_part),
                         rule_port_lo = lo, rule_port_hi = hi\<rparr>)))"

text \<open>Empty entries are passed over; the first bad one raises.\<close>

fun parse_allowlist :: "string list \<Rightarrow> exn + rule list" where
  "parse_allowlist [] = Inr []"
| "parse_allowlist (e # es) =
     (if strip e = [] then parse_allowlist es
      else case parse_rule e of
        Inl x \<Rightarrow> Inl x
      | Inr r \<Rightarrow> (case parse_allowlist es of Inl x \<Rightarrow> Inl x | Inr rs \<Rightarrow> Inr (r # rs)))"

definition is_allowed :: "rule list \<Rightarrow> string \<Rightarrow> int \<Rightarrow> bool" where
  "is_allowed allowlist host port \<longleftrightarrow>
     1 \<le> port \<and> port \<le> 65535 \<and> list_ex (\<lambda>r. matches r host port) allowlist"

section \<open>What is allowed\<close>

text \<open>The meaning of an entry, from its text: its ports, and either a prefix of addresses or a name.\<close>

definition entry_allows :: "string \<Rightarrow> string \<Rightarrow> int \<Rightarrow> bool" where
  "entry_allows entry host port \<longleftrightarrow>
     (case rpartition_at (CHR '':'') (strip entry) of
        (host_part, _, port_part) \<Rightarrow>
          (\<exists>lo hi. parse_ports port_part = Inr (lo, hi) \<and> lo \<le> port \<and> port \<le> hi) \<and>
          (case ip_network_of host_part of
             Some (Net4 a n) \<Rightarrow> \<exists>w. ip_address_of host = Some (IPv4 w) \<and> same_prefix n w a
           | Some (Net6 a n) \<Rightarrow> \<exists>w scope. ip_address_of host = Some (IPv6 w scope) \<and> same_prefix n w a
           | None \<Rightarrow> ip_address_of host = None \<and> lower host = lower host_part))"

lemma network_masked:
  "ip_network_of s = Some (Net4 a n) \<Longrightarrow> a AND netmask n = a"
  "ip_network_of s = Some (Net6 b m) \<Longrightarrow> b AND netmask m = b"
  by (auto simp: ip_network_of_def network4_def network6_def Let_def split: option.splits list.splits prod.splits)

lemma in_network_prefix:
  "a AND netmask n = a \<Longrightarrow> in_network ip (Net4 a n) \<longleftrightarrow> (\<exists>w. ip = IPv4 w \<and> same_prefix n w a)"
  "b AND netmask m = b \<Longrightarrow> in_network ip (Net6 b m) \<longleftrightarrow> (\<exists>w scope. ip = IPv6 w scope \<and> same_prefix m w b)"
  by (cases ip; simp flip: netmask_and)+

lemma parse_rule_matches:
  assumes "parse_rule entry = Inr r"
  shows "matches r host port \<longleftrightarrow> entry_allows entry host port"
proof -
  obtain h b p where split: "rpartition_at (CHR '':'') (strip entry) = (h, b, p)" by (cases "rpartition_at (CHR '':'') (strip entry)")
  from assms split obtain lo hi where ports: "parse_ports p = Inr (lo, hi)"
    by (auto simp: parse_rule_def split: if_splits sum.splits prod.splits)
  show ?thesis
  proof (cases "ip_network_of h")
    case None
    with assms split ports show ?thesis
      by (auto simp: parse_rule_def matches_def entry_allows_def split: if_splits)
  next
    case (Some net)
    have r: "r = \<lparr>rule_network = Some net, rule_hostname = None, rule_port_lo = lo, rule_port_hi = hi\<rparr>"
      using assms split ports Some by (auto simp: parse_rule_def split: if_splits)
    show ?thesis
    proof (cases net)
      case (Net4 a n)
      with split ports Some network_masked(1) [of h a n] in_network_prefix(1) [of a n] show ?thesis
        by (auto simp: r matches_def entry_allows_def split: option.splits)
    next
      case (Net6 a n)
      with split ports Some network_masked(2) [of h a n] in_network_prefix(2) [of a n] show ?thesis
        by (auto simp: r matches_def entry_allows_def split: option.splits)
    qed
  qed
qed

lemma parse_allowlist_matches:
  "parse_allowlist entries = Inr rules \<Longrightarrow>
   list_ex (\<lambda>r. matches r host port) rules \<longleftrightarrow>
     (\<exists>e\<in>set entries. strip e \<noteq> [] \<and> entry_allows e host port)"
proof (induction entries arbitrary: rules)
  case Nil
  then show ?case by simp
next
  case (Cons e es)
  then show ?case
    by (auto simp: parse_rule_matches split: if_splits sum.splits)
qed

text \<open>C29: Destinations are denied by default. A dial through a tunnel with a given allowlist is allowed exactly
  when its port is a port and some entry of the list says so: its range contains the port, and either it is a
  network and the host is an address of the same version that agrees with it on the bits of the prefix, or it is a
  name and the host is no address and the same name up to case.\<close>

theorem allowed_iff_entry:
  assumes "parse_allowlist entries = Inr rules"
  shows "is_allowed rules host port \<longleftrightarrow>
     1 \<le> port \<and> port \<le> 65535 \<and> (\<exists>e\<in>set entries. strip e \<noteq> [] \<and> entry_allows e host port)"
  using parse_allowlist_matches [OF assms] by (simp add: is_allowed_def)

definition example_entries :: "string list" where
  "example_entries = [''10.0.0.0/8:5432'', '' '', ''db.internal:443'', ''fe80::/10:1-1024'']"

definition example_rules :: "rule list" where
  "example_rules =
     [\<lparr>rule_network = Some (Net4 167772160 8), rule_hostname = None, rule_port_lo = 5432, rule_port_hi = 5432\<rparr>,
      \<lparr>rule_network = None, rule_hostname = Some ''db.internal'', rule_port_lo = 443, rule_port_hi = 443\<rparr>,
      \<lparr>rule_network = Some (Net6 (push_bit 118 1018) 10), rule_hostname = None, rule_port_lo = 1, rule_port_hi = 1024\<rparr>]"

lemma example_parsed: "parse_allowlist example_entries = Inr example_rules"
  by code_simp

theorem allowed_iff_entry_witness:
  "is_allowed example_rules ''10.1.2.3'' 5432 \<and> (\<exists>e\<in>set example_entries. entry_allows e ''10.1.2.3'' 5432) \<and>
   \<not> (\<exists>e\<in>set example_entries. strip e \<noteq> [] \<and> entry_allows e ''192.168.0.1'' 5432)"
proof -
  have "is_allowed example_rules ''10.1.2.3'' 5432" "\<not> is_allowed example_rules ''192.168.0.1'' 5432" by code_simp+
  with allowed_iff_entry [OF example_parsed, of "''10.1.2.3''" 5432]
    allowed_iff_entry [OF example_parsed, of "''192.168.0.1''" 5432] show ?thesis by auto
qed

end
