(* ===== verification/TunnelFrames.thy ===== *)
theory TunnelFrames
  imports Texts "HOL-Library.Word"
begin

text \<open>
  The wire protocol of the agent tunnel (\<open>tunnel/protocol.py\<close>): one message is a stream id of four bytes, a
  type of one byte, and the payload. Strings are sequences of bytes.
\<close>

section \<open>Frames\<close>

definition frame_OPEN :: int where "frame_OPEN = 1"
definition frame_OPEN_OK :: int where "frame_OPEN_OK = 2"
definition frame_OPEN_ERR :: int where "frame_OPEN_ERR = 3"
definition frame_DATA :: int where "frame_DATA = 4"
definition frame_CLOSE :: int where "frame_CLOSE = 5"

definition frame_types :: "int list" where
  "frame_types = [frame_OPEN, frame_OPEN_OK, frame_OPEN_ERR, frame_DATA, frame_CLOSE]"

lemmas frame_type_defs = frame_OPEN_def frame_OPEN_OK_def frame_OPEN_ERR_def frame_DATA_def frame_CLOSE_def

record frame =
  fr_stream_id :: int
  fr_type :: int
  fr_payload :: string

text \<open>\<open>struct.Struct(">IB")\<close>: four bytes, the most significant first, and one byte.\<close>

definition byte :: "int \<Rightarrow> char" where
  "byte n = char_of (n mod 256)"

definition pack_header :: "int \<Rightarrow> int \<Rightarrow> string" where
  "pack_header i ty = [byte (i div 16777216), byte (i div 65536), byte (i div 256), byte i, byte ty]"

definition big_endian :: "string \<Rightarrow> int" where
  "big_endian s = foldl (\<lambda>n c. n * 256 + of_char c) 0 s"

definition header_len :: nat where
  "header_len = 5"

definition encode :: "int \<Rightarrow> int \<Rightarrow> string \<Rightarrow> exn + string" where
  "encode i ty payload =
     (if ty \<notin> set frame_types then Inl (Exn ProtocolError ''unknown frame type'')
      else if i < 0 \<or> 4294967295 < i then Inl (Exn ProtocolError ''stream_id out of range'')
      else Inr (pack_header i ty @ payload))"

definition decode :: "string \<Rightarrow> exn + frame" where
  "decode data =
     (if length data < header_len then Inl (Exn ProtocolError ''frame too short'')
      else
        let i = big_endian (take 4 data); ty = of_char (data ! 4) in
        if ty \<notin> set frame_types then Inl (Exn ProtocolError ''unknown frame type'')
        else Inr \<lparr>fr_stream_id = i, fr_type = ty, fr_payload = drop header_len data\<rparr>)"

definition open_payload :: "string \<Rightarrow> int \<Rightarrow> string" where
  "open_payload host port = host @ '':'' @ string_of_int port"

definition open_frame :: "int \<Rightarrow> string \<Rightarrow> int \<Rightarrow> exn + string" where
  "open_frame i host port = encode i frame_OPEN (open_payload host port)"

definition parse_open :: "string \<Rightarrow> exn + string \<times> int" where
  "parse_open payload =
     (case decode_utf8 payload of
        Inl _ \<Rightarrow> Inl (Exn ProtocolError ''bad OPEN payload'')
      | Inr text \<Rightarrow>
          (case rpartition_at (CHR '':'') text of
             (host, _, port_s) \<Rightarrow>
               if host = [] \<or> port_s = [] then Inl (Exn ProtocolError ''bad OPEN payload'')
               else (case int_of_text port_s of
                       Inl _ \<Rightarrow> Inl (Exn ProtocolError ''bad OPEN payload'')
                     | Inr port \<Rightarrow>
                         if 1 \<le> port \<and> port \<le> 65535 then Inr (host, port)
                         else Inl (Exn ProtocolError ''bad OPEN payload''))))"

section \<open>Lenient decoding\<close>

text \<open>\<open>bytes.decode("utf-8", "replace")\<close>: every maximal ill-formed part becomes U+FFFD, which is written as its
  three bytes.\<close>

definition utf8_need :: "nat \<Rightarrow> nat" where
  "utf8_need a =
     (if 194 \<le> a \<and> a < 224 then 1 else if 224 \<le> a \<and> a < 240 then 2 else if 240 \<le> a \<and> a < 245 then 3 else 0)"

definition utf8_second :: "nat \<Rightarrow> nat \<Rightarrow> bool" where
  "utf8_second a b \<longleftrightarrow>
     (if a = 224 then 160 \<le> b \<and> b < 192 else if a = 237 then 128 \<le> b \<and> b < 160
      else if a = 240 then 144 \<le> b \<and> b < 192 else if a = 244 then 128 \<le> b \<and> b < 144 else continuation b)"

definition utf8_follow :: "nat \<Rightarrow> nat list \<Rightarrow> nat" where
  "utf8_follow a xs =
     (case xs of
        [] \<Rightarrow> 0
      | b # r \<Rightarrow> if utf8_second a b then Suc (length (takeWhile continuation (take (utf8_need a - 1) r))) else 0)"

fun utf8_replace :: "nat list \<Rightarrow> nat list" where
  "utf8_replace [] = []"
| "utf8_replace (a # r) =
     (if a < 128 then a # utf8_replace r
      else if utf8_need a = 0 then [239, 191, 189] @ utf8_replace r
      else if utf8_follow a r = utf8_need a then a # take (utf8_need a) r @ utf8_replace (drop (utf8_need a) r)
      else [239, 191, 189] @ utf8_replace (drop (utf8_follow a r) r))"

definition decode_replace :: "string \<Rightarrow> string" where
  "decode_replace s = map char_of (utf8_replace (map of_char s))"

lemma utf8_valid_step:
  assumes "128 \<le> a"
  shows "utf8_valid (a # r) \<longleftrightarrow>
    utf8_need a \<noteq> 0 \<and> utf8_follow a r = utf8_need a \<and> utf8_valid (drop (utf8_need a) r)"
proof -
  have rest: "r = [] \<or> (\<exists>b. r = [b]) \<or> (\<exists>b c. r = [b, c]) \<or> (\<exists>b c d s. r = b # c # d # s)"
    by (metis list.exhaust)
  consider "194 \<le> a \<and> a < 224" | "224 \<le> a \<and> a < 240" | "240 \<le> a \<and> a < 245" | "a < 194 \<or> 245 \<le> a"
    by linarith
  then show ?thesis
  proof cases
    case 1
    then have "utf8_need a = 1" "utf8_second a b \<longleftrightarrow> continuation b" for b by (auto simp: utf8_need_def utf8_second_def)
    with 1 show ?thesis unfolding utf8_valid.simps(2) [of a]
      by (simp add: utf8_follow_def del: utf8_valid.simps(2) split: list.split)
  next
    case 2
    then have n: "utf8_need a = 2" by (simp add: utf8_need_def)
    show ?thesis
      unfolding utf8_valid.simps(2) [of a] utf8_follow_def utf8_second_def n using 2 rest
      by (auto split: if_splits simp del: utf8_valid.simps(2))
  next
    case 3
    then have n: "utf8_need a = 3" by (simp add: utf8_need_def)
    show ?thesis
      unfolding utf8_valid.simps(2) [of a] utf8_follow_def utf8_second_def n using 3 rest
      by (auto split: if_splits simp del: utf8_valid.simps(2))
  next
    case 4
    then have "utf8_need a = 0" by (auto simp: utf8_need_def)
    with 4 assms show ?thesis unfolding utf8_valid.simps(2) [of a] by (simp del: utf8_valid.simps(2) split: list.split) linarith
  qed
qed

text \<open>What it makes is always valid, and what is valid stays.\<close>

lemma utf8_follow_append:
  assumes "utf8_follow a r = utf8_need a" and "utf8_need a \<noteq> 0"
  shows "utf8_need a \<le> length r \<and> utf8_follow a (take (utf8_need a) r @ s) = utf8_need a"
proof -
  from assms obtain b r1 where r: "r = b # r1" "utf8_second a b"
    by (cases r) (auto simp: utf8_follow_def split: if_splits)
  obtain m where m: "utf8_need a = Suc m" using assms(2) by (cases "utf8_need a") auto
  with assms(1) r have run: "length (takeWhile continuation (take m r1)) = m" by (simp add: utf8_follow_def)
  have "length (takeWhile continuation (take m r1)) \<le> length (take m r1)" by (rule length_takeWhile_le)
  with run have "m \<le> length r1" by simp
  then show ?thesis using r m run by (simp add: utf8_follow_def)
qed

lemma utf8_replace_valid: "utf8_valid (utf8_replace xs)"
proof (induction xs rule: utf8_replace.induct)
  case (2 a r)
  have fffd: "utf8_valid ([239, 191, 189] @ s) = utf8_valid s" for s by (simp add: continuation_def)
  show ?case
  proof (cases "a < 128")
    case True
    with 2 show ?thesis by simp
  next
    case a: False
    show ?thesis
    proof (cases "utf8_need a \<noteq> 0 \<and> utf8_follow a r = utf8_need a")
      case True
      with utf8_follow_append [of a r "utf8_replace (drop (utf8_need a) r)"] a 2 show ?thesis
        by (simp add: utf8_valid_step del: utf8_valid.simps(2))
    next
      case False
      then obtain s where "utf8_replace (a # r) = [239, 191, 189] @ s" "utf8_valid s"
        using a 2 by (cases "utf8_need a = 0") simp_all
      with fffd [of s] show ?thesis by (simp only:)
    qed
  qed
qed simp

lemma utf8_replace_same: "utf8_valid xs \<Longrightarrow> utf8_replace xs = xs"
proof (induction xs rule: utf8_replace.induct)
  case (2 a r)
  show ?case
  proof (cases "a < 128")
    case True
    with 2 show ?thesis by simp
  next
    case False
    with 2 utf8_valid_step [of a r] show ?thesis by simp
  qed
qed simp

lemma utf8_replace_set: "set (utf8_replace xs) \<subseteq> set xs \<union> {239, 191, 189}"
proof (induction xs rule: utf8_replace.induct)
  case (2 a r)
  have sub: "set (take n r) \<subseteq> set r" "set (drop n r) \<subseteq> set r" for n
    by (rule set_take_subset, rule set_drop_subset)
  consider "a < 128" | "128 \<le> a" "utf8_need a = 0" | "128 \<le> a" "utf8_need a \<noteq> 0" "utf8_follow a r = utf8_need a"
    | "128 \<le> a" "utf8_need a \<noteq> 0" "utf8_follow a r \<noteq> utf8_need a" by linarith
  then show ?case
  proof cases
    case 1
    with 2 show ?thesis by auto
  next
    case 2
    with "2.IH" show ?thesis by auto
  next
    case 3
    with "2.IH"(3) sub [of "utf8_need a"] show ?thesis by simp blast
  next
    case 4
    with "2.IH"(4) sub [of "utf8_follow a r"] show ?thesis by simp blast
  qed
qed simp

lemma decode_replace_utf8: "decode_utf8 (decode_replace s) = Inr (decode_replace s)"
proof -
  have "map (of_char \<circ> char_of) ys = (ys :: nat list)" if "\<forall>x\<in>set ys. x < 256" for ys
    using that by (simp add: map_idI)
  moreover have "\<forall>x\<in>set (utf8_replace (map of_char s)). x < 256"
    using utf8_replace_set [of "map of_char s"] of_char_less by fastforce
  ultimately have "map of_char (decode_replace s) = utf8_replace (map of_char s)"
    by (simp add: decode_replace_def of_char_less)
  then show ?thesis by (simp add: decode_utf8_def utf8_replace_valid)
qed

lemma decode_replace_same: "decode_utf8 s = Inr t \<Longrightarrow> decode_replace s = s"
  by (simp add: decode_utf8_def decode_replace_def utf8_replace_same comp_def split: if_splits)

section \<open>Round trips\<close>

lemma of_char_byte: "of_char (byte n) = n mod 256"
  by (simp add: byte_def)

lemma div_steps:
  fixes i :: int
  shows "i div 65536 = i div 256 div 256" "i div 16777216 = i div 256 div 256 div 256"
proof -
  show two: "i div 65536 = i div 256 div 256" using zdiv_zmult2_eq [of 256 i 256] by simp
  have "i div 16777216 = i div 65536 div 256" using zdiv_zmult2_eq [of 256 i 65536] by simp
  then show "i div 16777216 = i div 256 div 256 div 256" by (simp only: two)
qed

lemma big_endian_bytes: "big_endian [a, b, c, d] = ((of_char a * 256 + of_char b) * 256 + of_char c) * 256 + of_char d"
  by (simp add: big_endian_def)

lemma big_endian_header:
  assumes "0 \<le> i" and "i < 4294967296"
  shows "big_endian [byte (i div 16777216), byte (i div 65536), byte (i div 256), byte i] = i"
proof -
  define j where "j = i div 256"
  define k where "k = j div 256"
  define l where "l = k div 256"
  have "l = i div 16777216" by (simp only: l_def k_def j_def div_steps)
  with assms have "l mod 256 = l" by simp
  then have "((l mod 256 * 256 + k mod 256) * 256 + j mod 256) * 256 + i mod 256 = i"
    using div_mult_mod_eq [of k 256] div_mult_mod_eq [of j 256] div_mult_mod_eq [of i 256]
    by (simp only: l_def [symmetric] k_def [symmetric] j_def [symmetric])
  then show ?thesis
    unfolding big_endian_bytes of_char_byte div_steps j_def [symmetric] k_def [symmetric] l_def [symmetric] .
qed

lemma of_char_range: "0 \<le> (of_char c :: int)" "(of_char c :: int) < 256"
  using of_char_less [of c] by (metis of_nat_0_le_iff of_nat_of_char, metis of_nat_less_iff of_nat_numeral of_nat_of_char)

lemma big_endian_range: "0 \<le> big_endian s \<and> big_endian s < 256 ^ length s"
proof (induction s rule: rev_induct)
  case (snoc c s)
  have c: "big_endian (s @ [c]) = big_endian s * 256 + of_char c" by (simp add: big_endian_def)
  have "big_endian s * 256 + of_char c < (big_endian s + 1) * 256" using of_char_range [of c] by simp
  also have "\<dots> \<le> 256 ^ length s * 256" using snoc by (intro mult_right_mono) auto
  finally show ?case using snoc of_char_range [of c] by (simp add: c)
qed (simp add: big_endian_def)

lemma byte_of_char: "byte (of_char c) = c"
  using of_char_range [of c] by (simp add: byte_def)

lemma horner: "0 \<le> y \<Longrightarrow> y < 256 \<Longrightarrow> (x * 256 + y) mod 256 = y" "0 \<le> y \<Longrightarrow> y < 256 \<Longrightarrow> (x * 256 + y) div 256 = (x :: int)"
  by simp_all

lemma header_bytes:
  "pack_header (big_endian [a, b, c, d]) (of_char e) = [a, b, c, d, e]"
proof -
  let ?n = "\<lambda>x. of_char x :: int"
  have byte: "byte (x * 256 + ?n y) = y" for x y
    unfolding byte_def using horner(1) [OF of_char_range, of x y] by simp
  note div = horner(2) [OF of_char_range]
  show ?thesis
    unfolding pack_header_def big_endian_bytes div_steps div byte byte_of_char ..
qed

lemma frame_type_range: "ty \<in> set frame_types \<longleftrightarrow> 1 \<le> ty \<and> ty \<le> 5"
  unfolding frame_types_def frame_type_defs by (simp; linarith)

lemma decode_header:
  "decode (a # b # c # d # e # payload) =
     (if 1 \<le> (of_char e :: int) \<and> (of_char e :: int) \<le> 5
      then Inr \<lparr>fr_stream_id = big_endian [a, b, c, d], fr_type = of_char e, fr_payload = payload\<rparr>
      else Inl (Exn ProtocolError ''unknown frame type''))"
  by (simp add: decode_def header_len_def frame_type_range numeral_eq_Suc)

lemma decode_encode:
  assumes "encode i ty payload = Inr data"
  shows "decode data = Inr \<lparr>fr_stream_id = i, fr_type = ty, fr_payload = payload\<rparr>"
proof -
  from assms have f: "1 \<le> ty" "ty \<le> 5" "0 \<le> i" "i < 4294967296"
    and data: "data = pack_header i ty @ payload"
    by (auto simp: encode_def frame_type_range split: if_splits)
  have "big_endian [byte (i div 16777216), byte (i div 65536), byte (i div 256), byte i] = i"
    by (rule big_endian_header [OF f(3,4)])
  moreover have "ty mod 256 = ty" using f by simp
  ultimately show ?thesis
    using f unfolding data pack_header_def append.simps decode_header by (simp add: of_char_byte)
qed

text \<open>C28: The wire format is exact. A message is what \<open>encode\<close> makes of a frame exactly when \<open>decode\<close> reads that
  frame from it: every frame that can be sent is read back as it was, and every message that is accepted is
  the encoding of what was read, for one of the five types and a stream id of 32 bits.\<close>

theorem frame_roundtrip:
  "encode (fr_stream_id f) (fr_type f) (fr_payload f) = Inr data \<longleftrightarrow> decode data = Inr f"
proof
  assume enc: "encode (fr_stream_id f) (fr_type f) (fr_payload f) = Inr data"
  from decode_encode [OF this] show "decode data = Inr f" by simp
next
  assume dec: "decode data = Inr f"
  then have "5 \<le> length data" by (auto simp: decode_def header_len_def split: if_splits)
  then obtain a b c d e payload where data: "data = a # b # c # d # e # payload"
    by (auto simp: numeral_eq_Suc Suc_le_length_iff)
  have "0 \<le> big_endian [a, b, c, d]" "big_endian [a, b, c, d] < 4294967296"
    using big_endian_range [of "[a, b, c, d]"] by simp_all
  with dec show "encode (fr_stream_id f) (fr_type f) (fr_payload f) = Inr data"
    unfolding data decode_header encode_def frame_type_range
    by (auto simp: header_bytes split: if_splits)
qed

lemma utf8_valid_append: "utf8_valid xs \<Longrightarrow> utf8_valid (xs @ ys) = utf8_valid ys"
proof (induction xs rule: length_induct)
  case (1 xs)
  have IH: "utf8_valid (r @ ys) = utf8_valid ys" if "utf8_valid r" "length r < length xs" for r
    using "1.IH" that by blast
  show ?case
  proof (cases xs)
    case (Cons a r)
    note v = "1.prems" [unfolded Cons]
    show ?thesis
    proof (cases "a < 128")
      case True
      with v IH [of r] show ?thesis by (simp add: Cons)
    next
      case a: False
      with v obtain b r1 where r: "r = b # r1" by (cases r) auto
      show ?thesis
      proof (cases "194 \<le> a \<and> a < 224")
        case True
        with a v IH [of r1] show ?thesis by (simp add: Cons r)
      next
        case a2: False
        with a v obtain c r2 where r1: "r1 = c # r2" by (cases r1) (auto simp: r)
        show ?thesis
        proof (cases "a < 240")
          case True
          have "224 \<le> a"
          proof (rule ccontr)
            assume "\<not> 224 \<le> a"
            with a a2 v True obtain d r3 where "r2 = d # r3" by (cases r2) (auto simp: r r1)
            with \<open>\<not> 224 \<le> a\<close> a a2 v show False by (simp add: r r1)
          qed
          with True v IH [of r2] show ?thesis by (simp add: Cons r r1 split: if_splits)
        next
          case a3: False
          with a a2 v obtain d r3 where r2: "r2 = d # r3" by (cases r2) (auto simp: r r1)
          with a a2 a3 v IH [of r3] show ?thesis by (simp add: Cons r r1)
        qed
      qed
    qed
  qed simp
qed

lemma ascii_utf8_valid: "list_all (\<lambda>n. n < 128) xs \<Longrightarrow> utf8_valid xs"
  by (induction xs) auto

lemma string_of_nat_ascii: "list_all (\<lambda>n. n < 128) (map of_char (string_of_nat n) :: nat list)"
proof -
  have "list_all (\<lambda>c. (of_char c :: nat) < 128) ''0123456789''" by simp
  with string_of_nat_digits [of n] show ?thesis by (auto simp: list_all_iff)
qed

lemma string_of_nat_nonempty: "string_of_nat n \<noteq> []"
  by (subst string_of_nat.simps) simp

lemma no_colon: "CHR '':'' \<notin> set (string_of_nat n)"
  using string_of_nat_digits [of n] by auto

lemma int_of_string_of_nat: "int_of_text (string_of_nat n) = Inr (int n)"
proof -
  let ?s = "string_of_nat n"
  have digit: "c \<in> set ''0123456789''" if "c \<in> set ?s" for c using that string_of_nat_digits [of n] by blast
  have plain: "list_all (\<lambda>c. \<not> is_space c \<and> c \<noteq> CHR ''-'' \<and> c \<noteq> CHR ''+'') ''0123456789''"
    by (simp add: is_space_def)
  have all: "\<not> is_space c \<and> c \<noteq> CHR ''-'' \<and> c \<noteq> CHR ''+''" if "c \<in> set ?s" for c
    using plain digit [OF that] unfolding list_all_iff by blast
  have "dropWhile is_space ?s = ?s" "dropWhile is_space (rev ?s) = rev ?s"
    using all by (cases ?s; simp; fail) (cases "rev ?s"; use all in \<open>simp add: rev_eq_Cons_iff\<close>)
  then have strip: "strip ?s = ?s" by (simp add: strip_def)
  show ?thesis
  proof (cases ?s)
    case Nil
    then show ?thesis using digits_of_string_of_nat [of n] by simp
  next
    case (Cons c cs)
    with all [of c] strip digits_of_string_of_nat [of n] show ?thesis by (simp add: int_of_text_def Let_def)
  qed
qed

text \<open>The destination of an OPEN frame reads back. For a host that is not empty and valid UTF-8, with colons or
  not, and a port from 1 to 65535, the agent parses exactly the host and the port that were asked for.\<close>

theorem open_roundtrip:
  assumes "host \<noteq> []" and "utf8_valid (map of_char host)" and "1 \<le> port" and "port \<le> 65535"
  shows "\<exists>data f. open_frame 1 host port = Inr data \<and> decode data = Inr f \<and> parse_open (fr_payload f) = Inr (host, port)"
proof -
  let ?p = "open_payload host port"
  have port: "string_of_int port = string_of_nat (nat port)" using assms(3) by (simp add: string_of_int_def)
  obtain data where data: "open_frame 1 host port = Inr data"
    by (simp add: open_frame_def encode_def frame_type_range frame_type_defs)
  then have "decode data = Inr \<lparr>fr_stream_id = 1, fr_type = frame_OPEN, fr_payload = ?p\<rparr>"
    using decode_encode [of 1 frame_OPEN ?p data] by (simp add: open_frame_def)
  moreover have "utf8_valid (map of_char ?p)"
  proof -
    have "utf8_valid (map of_char ('':'' @ string_of_nat (nat port)))"
      by (rule ascii_utf8_valid) (use string_of_nat_ascii in simp)
    then show ?thesis using utf8_valid_append [OF assms(2)] by (simp add: open_payload_def port)
  qed
  then have "parse_open ?p = Inr (host, port)"
    using assms int_of_string_of_nat [of "nat port"] string_of_nat_nonempty [of "nat port"]
    by (simp add: parse_open_def decode_utf8_def open_payload_def port rpartition_at_found no_colon)
  ultimately show ?thesis using data by auto
qed

theorem open_roundtrip_witness:
  "\<exists>data f. open_frame 1 ''fe80::1'' 443 = Inr data \<and> decode data = Inr f \<and>
     parse_open (fr_payload f) = Inr (''fe80::1'', 443)"
  by (rule open_roundtrip) simp_all

end
