(* ===== verification/TunnelManager.thy ===== *)
theory TunnelManager
  imports TunnelAuth TunnelFrames "HOL-Library.AList"
begin

text \<open>
  The sessions of connected agents and the manager that dials through them (\<open>tunnel/manager.py\<close>). Objects live
  in heaps and are named by their position, since a stream is shared between the table of its session, the
  coroutine that dials it and the handle it becomes. A coroutine is cut where it awaits: a dial sends its frame
  and waits (\<open>manager_dial\<close>), and goes on when the agent has answered or the time is over (\<open>manager_dialled\<close>).
\<close>

section \<open>State\<close>

datatype open_state = Opening | Opened | Refused string

record stream =
  sm_session :: nat
  sm_id :: "32 word"
  sm_queue :: "string list"
  sm_open :: open_state
  sm_closed :: bool

text \<open>\<open>ss_down\<close>: the transport is closed, \<open>ss_sent\<close>: the messages it took.\<close>

record session =
  ss_streams :: "(32 word \<times> nat) list"
  ss_next_id :: "32 word"
  ss_closed :: bool
  ss_down :: bool
  ss_sent :: "string list"

record audit_row =
  au_id :: string
  au_agent :: string
  au_host :: string
  au_port :: int
  au_closed :: "(nat \<times> nat \<times> string) option"

record counted =
  co_stream :: nat
  co_agent :: string
  co_counted :: bool
  co_audit :: "string option"
  co_sent :: nat
  co_recv :: nat

record pending =
  pd_stream :: nat
  pd_agent :: string
  pd_host :: string
  pd_port :: int

record tunnel =
  tn_streams :: "stream list"
  tn_sessions :: "session list"
  tn_counted :: "counted list"
  tn_pending :: "pending list"
  mg_sessions :: "(string \<times> nat \<times> rule list) list"
  mg_max :: "(string \<times> int) list"
  mg_active :: "(string \<times> int) list"
  tn_audit :: "audit_row list"

type_synonym 'a tunnel_prog = "(tunnel, 'a) comp"

definition upd_stream :: "nat \<Rightarrow> (stream \<Rightarrow> stream) \<Rightarrow> tunnel \<Rightarrow> tunnel" where
  "upd_stream i f t = t\<lparr>tn_streams := (tn_streams t)[i := f (tn_streams t ! i)]\<rparr>"

definition upd_session :: "nat \<Rightarrow> (session \<Rightarrow> session) \<Rightarrow> tunnel \<Rightarrow> tunnel" where
  "upd_session k f t = t\<lparr>tn_sessions := (tn_sessions t)[k := f (tn_sessions t ! k)]\<rparr>"

definition upd_counted :: "nat \<Rightarrow> (counted \<Rightarrow> counted) \<Rightarrow> tunnel \<Rightarrow> tunnel" where
  "upd_counted h f t = t\<lparr>tn_counted := (tn_counted t)[h := f (tn_counted t ! h)]\<rparr>"

section \<open>Streams\<close>

text \<open>\<open>TunnelSession._send\<close>: a closed transport raises.\<close>

definition session_send :: "nat \<Rightarrow> string \<Rightarrow> unit tunnel_prog" where
  "session_send k data =
     bindc (gets (\<lambda>t. ss_down (tn_sessions t ! k))) (\<lambda>down.
       if down then raise (Exn TransportClosed ''transport closed'')
       else modifyc (upd_session k (\<lambda>s. s\<lparr>ss_sent := ss_sent s @ [data]\<rparr>)))"

definition send_frame :: "nat \<Rightarrow> int \<Rightarrow> string \<Rightarrow> unit tunnel_prog" where
  "send_frame i ty payload =
     bindc (gets (\<lambda>t. tn_streams t ! i)) (\<lambda>s.
       bindc (of_sum (encode (uint (sm_id s)) ty payload)) (session_send (sm_session s)))"

definition feed :: "nat \<Rightarrow> string \<Rightarrow> unit tunnel_prog" where
  "feed i data = modifyc (upd_stream i (\<lambda>s. s\<lparr>sm_queue := sm_queue s @ [data]\<rparr>))"

definition feed_eof :: "nat \<Rightarrow> unit tunnel_prog" where
  "feed_eof i = feed i []"

definition resolve_open :: "open_state \<Rightarrow> nat \<Rightarrow> unit tunnel_prog" where
  "resolve_open st i = modifyc (upd_stream i (\<lambda>s. if sm_open s = Opening then s\<lparr>sm_open := st\<rparr> else s))"

definition forget :: "nat \<Rightarrow> 32 word \<Rightarrow> unit tunnel_prog" where
  "forget k sid = modifyc (upd_session k (\<lambda>s. s\<lparr>ss_streams := AList.delete sid (ss_streams s)\<rparr>))"

definition stream_write :: "nat \<Rightarrow> string \<Rightarrow> unit tunnel_prog" where
  "stream_write i data =
     bindc (gets (\<lambda>t. sm_closed (tn_streams t ! i))) (\<lambda>closed.
       if closed then raise (Exn TransportClosed ''stream closed'') else send_frame i frame_DATA data)"

text \<open>A read waits for the next chunk: with an empty queue there is none yet.\<close>

definition stream_read :: "nat \<Rightarrow> string option tunnel_prog" where
  "stream_read i =
     bindc (gets (\<lambda>t. sm_queue (tn_streams t ! i))) (\<lambda>q.
       case q of
         [] \<Rightarrow> ret None
       | c # cs \<Rightarrow> thenc (modifyc (upd_stream i (\<lambda>s. s\<lparr>sm_queue := cs\<rparr>))) (ret (Some c)))"

definition stream_close :: "nat \<Rightarrow> unit tunnel_prog" where
  "stream_close i =
     bindc (gets (\<lambda>t. tn_streams t ! i)) (\<lambda>s.
       if sm_closed s then ret ()
       else thenc (modifyc (upd_stream i (\<lambda>s. s\<lparr>sm_closed := True\<rparr>)))
         (thenc (catchc (send_frame i frame_CLOSE []) (\<lambda>_. ret ()))
         (thenc (feed_eof i) (forget (sm_session s) (sm_id s)))))"

section \<open>Sessions\<close>

text \<open>\<open>(n + 1) & 0xFFFFFFFF or 1\<close>.\<close>

definition succ_id :: "32 word \<Rightarrow> 32 word" where
  "succ_id n = (if n + 1 = 0 then 1 else n + 1)"

definition new_session :: session where
  "new_session = \<lparr>ss_streams = [], ss_next_id = 1, ss_closed = False, ss_down = False, ss_sent = []\<rparr>"

text \<open>\<open>TunnelSession.dial\<close> until it waits.\<close>

definition new_stream :: "nat \<Rightarrow> 32 word \<Rightarrow> stream" where
  "new_stream k sid = \<lparr>sm_session = k, sm_id = sid, sm_queue = [], sm_open = Opening, sm_closed = False\<rparr>"

definition session_dial :: "nat \<Rightarrow> string \<Rightarrow> int \<Rightarrow> nat tunnel_prog" where
  "session_dial k host port =
     bindc (gets (\<lambda>t. (tn_sessions t ! k, length (tn_streams t)))) (\<lambda>(s, i).
       if ss_closed s then raise (Exn TunnelUnavailable ''session closed'')
       else let sid = ss_next_id s in
         thenc (modifyc (\<lambda>t. upd_session k (\<lambda>s. s\<lparr>ss_next_id := succ_id sid,
             ss_streams := AList.update sid i (ss_streams s)\<rparr>) (t\<lparr>tn_streams := tn_streams t @ [new_stream k sid]\<rparr>)))
         (bindc (of_sum (open_frame (uint sid) host port)) (\<lambda>data.
           thenc (session_send k data) (ret i))))"

text \<open>The end of the wait: a stream that is still opening has run out of time.\<close>

definition dial_outcome :: "nat \<Rightarrow> unit tunnel_prog" where
  "dial_outcome i =
     bindc (gets (\<lambda>t. tn_streams t ! i)) (\<lambda>s.
       case sm_open s of
         Opened \<Rightarrow> ret ()
       | Refused reason \<Rightarrow> thenc (forget (sm_session s) (sm_id s)) (raise (Exn DialError reason))
       | Opening \<Rightarrow> thenc (forget (sm_session s) (sm_id s)) (raise (Exn DialError ''timed out'')))"

definition shutdown :: "nat \<Rightarrow> unit tunnel_prog" where
  "shutdown k =
     bindc (gets (\<lambda>t. ss_streams (tn_sessions t ! k))) (\<lambda>streams.
       thenc (modifyc (upd_session k (\<lambda>s. s\<lparr>ss_closed := True\<rparr>)))
       (thenc (seqc (map (\<lambda>(_, i). thenc (feed_eof i) (resolve_open (Refused ''session closed'') i)) streams))
         (modifyc (upd_session k (\<lambda>s. s\<lparr>ss_streams := []\<rparr>)))))"

text \<open>One round of the read loop; what cannot be decoded ends it. After the end nothing is read.\<close>

definition deliver :: "nat \<Rightarrow> frame \<Rightarrow> unit tunnel_prog" where
  "deliver i f =
     (if fr_type f = frame_DATA then feed i (fr_payload f)
      else if fr_type f = frame_OPEN_OK then resolve_open Opened i
      else if fr_type f = frame_OPEN_ERR
      then let reason = decode_replace (fr_payload f)
        in resolve_open (Refused (if reason = [] then ''dial failed'' else reason)) i
      else if fr_type f = frame_CLOSE then feed_eof i
      else ret ())"

definition read_message :: "nat \<Rightarrow> string \<Rightarrow> unit tunnel_prog" where
  "read_message k data =
     bindc (gets (\<lambda>t. tn_sessions t ! k)) (\<lambda>s.
       if ss_closed s then ret ()
       else case decode data of
         Inl _ \<Rightarrow> shutdown k
       | Inr f \<Rightarrow>
           (case map_of (ss_streams s) (word_of_int (fr_stream_id f)) of
              None \<Rightarrow> ret ()
            | Some i \<Rightarrow> deliver i f))"

text \<open>\<open>TunnelSession.close\<close> cancels the read loop, whose end shuts the session down.\<close>

definition session_close :: "nat \<Rightarrow> unit tunnel_prog" where
  "session_close k = shutdown k"

section \<open>Handles\<close>

definition lower_active :: "string \<Rightarrow> unit tunnel_prog" where
  "lower_active a =
     modifyc (\<lambda>t. t\<lparr>mg_active := AList.update a
       (max 0 ((case map_of (mg_active t) a of None \<Rightarrow> 1 | Some n \<Rightarrow> n) - 1)) (mg_active t)\<rparr>)"

definition close_audit :: "string \<Rightarrow> nat \<Rightarrow> nat \<Rightarrow> string \<Rightarrow> unit tunnel_prog" where
  "close_audit aid sent recv reason =
     modifyc (\<lambda>t. t\<lparr>tn_audit := map (\<lambda>r. if au_id r = aid then r\<lparr>au_closed := Some (sent, recv, reason)\<rparr> else r)
       (tn_audit t)\<rparr>)"

definition insert_audit :: "string option \<Rightarrow> string \<Rightarrow> string \<Rightarrow> int \<Rightarrow> unit tunnel_prog" where
  "insert_audit aid a host port =
     (case aid of
        None \<Rightarrow> ret ()
      | Some i \<Rightarrow> modifyc (\<lambda>t. t\<lparr>tn_audit := tn_audit t @
          [\<lparr>au_id = i, au_agent = a, au_host = host, au_port = port, au_closed = None\<rparr>]\<rparr>))"

definition counted_write :: "nat \<Rightarrow> string \<Rightarrow> unit tunnel_prog" where
  "counted_write h data =
     thenc (modifyc (upd_counted h (\<lambda>c. c\<lparr>co_sent := co_sent c + length data\<rparr>)))
     (bindc (gets (\<lambda>t. co_stream (tn_counted t ! h))) (\<lambda>i. stream_write i data))"

definition counted_read :: "nat \<Rightarrow> string option tunnel_prog" where
  "counted_read h =
     bindc (gets (\<lambda>t. co_stream (tn_counted t ! h))) (\<lambda>i.
     bindc (stream_read i) (\<lambda>chunk.
       case chunk of
         None \<Rightarrow> ret None
       | Some c \<Rightarrow>
           thenc (modifyc (upd_counted h (\<lambda>r. r\<lparr>co_recv := co_recv r + length c\<rparr>))) (ret (Some c))))"

definition counted_close :: "nat \<Rightarrow> string \<Rightarrow> unit tunnel_prog" where
  "counted_close h reason =
     bindc (gets (\<lambda>t. tn_counted t ! h)) (\<lambda>c.
       thenc (whenc (co_counted c)
                (thenc (modifyc (upd_counted h (\<lambda>c. c\<lparr>co_counted := False\<rparr>))) (lower_active (co_agent c))))
       (thenc (case co_audit c of
                 None \<Rightarrow> ret ()
               | Some aid \<Rightarrow>
                   thenc (close_audit aid (co_sent c) (co_recv c) reason)
                     (modifyc (upd_counted h (\<lambda>c. c\<lparr>co_audit := None\<rparr>))))
          (stream_close (co_stream c))))"

section \<open>The manager\<close>

definition register :: "string \<Rightarrow> nat \<Rightarrow> rule list \<Rightarrow> int \<Rightarrow> unit tunnel_prog" where
  "register a k rules limit =
     modifyc (\<lambda>t. t\<lparr>mg_sessions := AList.update a (k, rules) (mg_sessions t),
       mg_max := AList.update a limit (mg_max t), mg_active := AList.update a 0 (mg_active t)\<rparr>)"

definition unregister :: "string \<Rightarrow> unit tunnel_prog" where
  "unregister a =
     modifyc (\<lambda>t. t\<lparr>mg_sessions := AList.delete a (mg_sessions t), mg_max := AList.delete a (mg_max t),
       mg_active := AList.delete a (mg_active t)\<rparr>)"

definition is_online :: "tunnel \<Rightarrow> string \<Rightarrow> bool" where
  "is_online t a \<longleftrightarrow> map_of (mg_sessions t) a \<noteq> None"

definition online_agents :: "tunnel \<Rightarrow> string list" where
  "online_agents t = map fst (mg_sessions t)"

definition active_stream_count :: "tunnel \<Rightarrow> string \<Rightarrow> int" where
  "active_stream_count t a = (case map_of (mg_active t) a of None \<Rightarrow> 0 | Some n \<Rightarrow> n)"

definition agent_stats :: "tunnel \<Rightarrow> (string \<times> int) list" where
  "agent_stats t = map (\<lambda>a. (a, active_stream_count t a)) (online_agents t)"

definition max_concurrent :: "tunnel \<Rightarrow> string \<Rightarrow> int" where
  "max_concurrent t a = (case map_of (mg_max t) a of None \<Rightarrow> 10 | Some n \<Rightarrow> n)"

text \<open>\<open>TunnelManager.dial\<close> until it waits for the agent; \<open>denied\<close> is the id of the audit row of a refusal.\<close>

definition audit_denied :: "string option \<Rightarrow> string \<Rightarrow> string \<Rightarrow> int \<Rightarrow> unit tunnel_prog" where
  "audit_denied denied a host port =
     thenc (insert_audit denied a host port)
       (case denied of None \<Rightarrow> ret () | Some aid \<Rightarrow> close_audit aid 0 0 ''denied'')"

definition manager_dial :: "string option \<Rightarrow> string \<Rightarrow> string \<Rightarrow> int \<Rightarrow> unit tunnel_prog" where
  "manager_dial denied a host port =
     bindc (gets (\<lambda>t. (map_of (mg_sessions t) a, max_concurrent t a, active_stream_count t a))) (\<lambda>(entry, limit, current).
       case entry of
         None \<Rightarrow> raise (Exn TunnelUnavailable ''agent is not connected'')
       | Some (k, rules) \<Rightarrow>
           if limit \<le> current then raise (Exn ConcurrencyLimitExceeded ''concurrency limit'')
           else if \<not> is_allowed rules host port
           then thenc (audit_denied denied a host port) (raise (Exn DestinationDenied ''not allowed''))
           else
             thenc (modifyc (\<lambda>t. t\<lparr>mg_active := AList.update a (current + 1) (mg_active t)\<rparr>))
             (bindc (catchc (session_dial k host port) (\<lambda>e. thenc (lower_active a) (raise e))) (\<lambda>i.
               modifyc (\<lambda>t. t\<lparr>tn_pending := tn_pending t @
                 [\<lparr>pd_stream = i, pd_agent = a, pd_host = host, pd_port = port\<rparr>]\<rparr>))))"

text \<open>The rest of a dial, when the agent has answered or the time is over: a handle, or the error.\<close>

definition manager_dialled :: "nat \<Rightarrow> string option \<Rightarrow> nat tunnel_prog" where
  "manager_dialled n aid =
     bindc (gets (\<lambda>t. tn_pending t ! n)) (\<lambda>p.
       thenc (modifyc (\<lambda>t. t\<lparr>tn_pending := take n (tn_pending t) @ drop (Suc n) (tn_pending t)\<rparr>))
       (thenc (catchc (dial_outcome (pd_stream p)) (\<lambda>e. thenc (lower_active (pd_agent p)) (raise e)))
       (thenc (insert_audit aid (pd_agent p) (pd_host p) (pd_port p))
       (bindc (gets (\<lambda>t. length (tn_counted t))) (\<lambda>h.
         thenc (modifyc (\<lambda>t. t\<lparr>tn_counted := tn_counted t @
             [\<lparr>co_stream = pd_stream p, co_agent = pd_agent p, co_counted = True, co_audit = aid,
               co_sent = 0, co_recv = 0\<rparr>]\<rparr>))
           (ret h))))))"

section \<open>Events\<close>

text \<open>What happens at the tunnel, one await-free piece of code at a time. A connection is a new session with its
  registration (\<open>run_agent_tunnel\<close>); its end is what the relay does when the session is over.\<close>

datatype tunnel_event =
    Connect string "rule list" int
  | Message nat string
  | Broken nat
  | Ended string nat
  | Dial "string option" string string int
  | Dialled nat "string option"
  | Write nat string
  | Read nat
  | Close nat string

definition connect_agent :: "string \<Rightarrow> rule list \<Rightarrow> int \<Rightarrow> unit tunnel_prog" where
  "connect_agent a rules limit =
     bindc (gets (\<lambda>t. length (tn_sessions t))) (\<lambda>k.
       thenc (modifyc (\<lambda>t. t\<lparr>tn_sessions := tn_sessions t @ [new_session]\<rparr>)) (register a k rules limit))"

text \<open>The transport is gone: the read loop ends.\<close>

definition break_transport :: "nat \<Rightarrow> unit tunnel_prog" where
  "break_transport k = thenc (modifyc (upd_session k (\<lambda>s. s\<lparr>ss_down := True\<rparr>))) (shutdown k)"

text \<open>The \<open>finally\<close> of the relay.\<close>

definition end_connection :: "string \<Rightarrow> nat \<Rightarrow> unit tunnel_prog" where
  "end_connection a k = thenc (unregister a) (session_close k)"

fun happen :: "tunnel_event \<Rightarrow> unit tunnel_prog" where
  "happen (Connect a rules limit) = connect_agent a rules limit"
| "happen (Message k data) = read_message k data"
| "happen (Broken k) = break_transport k"
| "happen (Ended a k) = end_connection a k"
| "happen (Dial denied a host port) = manager_dial denied a host port"
| "happen (Dialled n aid) = bindc (manager_dialled n aid) (\<lambda>_. ret ())"
| "happen (Write h data) = counted_write h data"
| "happen (Read h) = bindc (counted_read h) (\<lambda>_. ret ())"
| "happen (Close h reason) = counted_close h reason"

text \<open>The objects an event names exist.\<close>

fun possible :: "tunnel \<Rightarrow> tunnel_event \<Rightarrow> bool" where
  "possible t (Connect a rules limit) = True"
| "possible t (Message k data) = (k < length (tn_sessions t))"
| "possible t (Broken k) = (k < length (tn_sessions t))"
| "possible t (Ended a k) = (k < length (tn_sessions t))"
| "possible t (Dial denied a host port) = True"
| "possible t (Dialled n aid) = (n < length (tn_pending t))"
| "possible t (Write h data) = (h < length (tn_counted t))"
| "possible t (Read h) = (h < length (tn_counted t))"
| "possible t (Close h reason) = (h < length (tn_counted t))"

definition no_tunnels :: tunnel where
  "no_tunnels = \<lparr>tn_streams = [], tn_sessions = [], tn_counted = [], tn_pending = [], mg_sessions = [],
     mg_max = [], mg_active = [], tn_audit = []\<rparr>"

definition after :: "tunnel_event \<Rightarrow> tunnel \<Rightarrow> tunnel" where
  "after e t = snd (happen e t)"

inductive tunnel_run :: "tunnel_event list \<Rightarrow> tunnel \<Rightarrow> bool" where
    tunnel_start: "tunnel_run [] no_tunnels"
  | tunnel_next: "tunnel_run es t \<Longrightarrow> possible t e \<Longrightarrow> tunnel_run (es @ [e]) (after e t)"

inductive_cases tunnel_run_nilE: "tunnel_run [] t"

section \<open>What leaves for an agent\<close>

text \<open>The allowlist of each session, in the order of the connections.\<close>

definition grants :: "tunnel_event list \<Rightarrow> rule list list" where
  "grants es = List.map_filter (\<lambda>e. case e of Connect a rules limit \<Rightarrow> Some rules | _ \<Rightarrow> None) es"

definition permitted :: "rule list \<Rightarrow> string \<Rightarrow> bool" where
  "permitted rules data \<longleftrightarrow>
     (\<exists>f. decode data = Inr f \<and>
        (fr_type f = frame_OPEN \<longrightarrow>
           (\<exists>host port. fr_payload f = open_payload host port \<and> is_allowed rules host port)))"

definition obedient :: "rule list list \<Rightarrow> tunnel \<Rightarrow> bool" where
  "obedient g t \<longleftrightarrow>
     length (tn_sessions t) = length g \<and>
     (\<forall>a k rules. map_of (mg_sessions t) a = Some (k, rules) \<longrightarrow> k < length g \<and> rules = g ! k) \<and>
     (\<forall>k<length g. \<forall>data\<in>set (ss_sent (tn_sessions t ! k)). permitted (g ! k) data) \<and>
     (\<forall>s\<in>set (tn_streams t). sm_session s < length g)"

named_theorems obeying \<open>computations that keep what leaves permitted\<close>

abbreviation obeys :: "rule list list \<Rightarrow> 'a tunnel_prog \<Rightarrow> bool" where
  "obeys g m \<equiv> keeps (obedient g) m"

lemma obeys_modifyc: "(\<And>t. obedient g t \<Longrightarrow> obedient g (f t)) \<Longrightarrow> obeys g (modifyc f)"
  by (simp add: keeps_def)

lemma obeys_same:
  "(\<And>t. tn_sessions (f t) = tn_sessions t \<and> mg_sessions (f t) = mg_sessions t \<and> tn_streams (f t) = tn_streams t) \<Longrightarrow>
   obeys g (modifyc f)"
  by (simp add: keeps_def obedient_def)

lemma obeys_upd_stream [obeying]:
  assumes "\<And>s. sm_session (f s) = sm_session s"
  shows "obeys g (modifyc (upd_stream i f))"
proof (rule obeys_modifyc)
  fix t assume t: "obedient g t"
  have "sm_session x < length g" if "x \<in> set ((tn_streams t)[i := f (tn_streams t ! i)])" for x
  proof (cases "i < length (tn_streams t)")
    case True
    then have "x \<in> set (tn_streams t) \<or> x = f (tn_streams t ! i)"
      using that set_update_subset_insert by fastforce
    with True t assms show ?thesis by (auto simp: obedient_def)
  next
    case False
    then have "(tn_streams t)[i := f (tn_streams t ! i)] = tn_streams t" by (simp add: list_update_beyond)
    with that t show ?thesis by (simp add: obedient_def)
  qed
  with t show "obedient g (upd_stream i f t)" by (simp add: obedient_def upd_stream_def)
qed

lemma obeys_upd_session [obeying]:
  assumes "\<And>s. set (ss_sent (f s)) \<subseteq> set (ss_sent s)"
  shows "obeys g (modifyc (upd_session k f))"
proof (rule obeys_modifyc)
  fix t assume t: "obedient g t"
  have "permitted (g ! j) data" if "j < length g" "data \<in> set (ss_sent ((tn_sessions t)[k := f (tn_sessions t ! k)] ! j))"
    for j data
    using that t assms [of "tn_sessions t ! k"] by (cases "j = k") (auto simp: obedient_def)
  with t show "obedient g (upd_session k f t)" by (simp add: obedient_def upd_session_def)
qed

lemma obeys_upd_counted [obeying]: "obeys g (modifyc (upd_counted h f))"
  by (rule obeys_same) (simp add: upd_counted_def)

lemma keeps_case_open:
  "keeps I a \<Longrightarrow> keeps I b \<Longrightarrow> (\<And>r. keeps I (c r)) \<Longrightarrow> keeps I (case z of Opening \<Rightarrow> a | Opened \<Rightarrow> b | Refused r \<Rightarrow> c r)"
  by (cases z) simp_all

lemmas keeps_structure = keeps_gets keeps_seqc keeps_raise keeps_case_list keeps_case_option keeps_case_sum
  keeps_case_prod keeps_case_open keeps_ret keeps_of_sum keeps_bindc keeps_thenc keeps_catchc keeps_if keeps_whenc

lemma obeys_feed [obeying]: "obeys g (feed i data)" "obeys g (feed_eof i)" "obeys g (resolve_open st i)" "obeys g (forget k sid)"
  unfolding feed_def feed_eof_def resolve_open_def forget_def by (rule obeying; simp)+

lemma obeys_shutdown [obeying]: "obeys g (shutdown k)" "obeys g (session_close k)"
  unfolding shutdown_def session_close_def by (intro keeps_structure obeying; auto intro!: keeps_structure obeying)+

lemma obeys_read_message [obeying]: "obeys g (read_message k data)"
  unfolding read_message_def deliver_def Let_def by (intro keeps_structure obeying)

text \<open>A message is permitted when it is no OPEN frame, or the destination is allowed.\<close>

lemma obeys_session_send:
  assumes "k < length g \<Longrightarrow> permitted (g ! k) data"
  shows "obeys g (session_send k data)"
proof -
  have "obeys g (modifyc (upd_session k (\<lambda>s. s\<lparr>ss_sent := ss_sent s @ [data]\<rparr>)))"
  proof (rule obeys_modifyc)
    fix t assume t: "obedient g t"
    have "permitted (g ! j) d" if "j < length g"
      "d \<in> set (ss_sent ((tn_sessions t)[k := (tn_sessions t ! k)\<lparr>ss_sent := ss_sent (tn_sessions t ! k) @ [data]\<rparr>] ! j))"
      for j d
      using that t assms by (cases "j = k") (auto simp: obedient_def)
    with t show "obedient g (upd_session k (\<lambda>s. s\<lparr>ss_sent := ss_sent s @ [data]\<rparr>) t)"
      by (simp add: obedient_def upd_session_def)
  qed
  then show ?thesis unfolding session_send_def by (intro keeps_structure)
qed

lemma permitted_frame: "encode i ty payload = Inr data \<Longrightarrow> ty \<noteq> frame_OPEN \<Longrightarrow> permitted rules data"
  by (auto simp: permitted_def dest: decode_encode)

lemma permitted_open: "open_frame i host port = Inr data \<Longrightarrow> is_allowed rules host port \<Longrightarrow> permitted rules data"
  unfolding permitted_def open_frame_def by (drule decode_encode) (auto intro!: exI [of _ host] exI [of _ port])

lemma obeys_send_frame [obeying]: "ty \<noteq> frame_OPEN \<Longrightarrow> obeys g (send_frame i ty payload)"
  unfolding send_frame_def
  by (intro keeps_structure keeps_of_sum_bind obeys_session_send) (blast intro: permitted_frame)

lemma obeys_stream_ops [obeying]: "obeys g (stream_write i data)" "obeys g (stream_read i)" "obeys g (stream_close i)"
  unfolding stream_write_def stream_read_def stream_close_def
  by (intro keeps_structure obeying; simp add: frame_type_defs)+

lemma obeys_session_dial:
  assumes "k < length g" and "is_allowed (g ! k) host port"
  shows "obeys g (session_dial k host port)"
proof -
  have "obeys g (modifyc (\<lambda>t. upd_session k (\<lambda>s. s\<lparr>ss_next_id := succ_id sid,
      ss_streams := AList.update sid i (ss_streams s)\<rparr>) (t\<lparr>tn_streams := tn_streams t @ [new_stream k sid]\<rparr>)))" for sid i
  proof (rule obeys_modifyc)
    fix t assume "obedient g t"
    then have "obedient g (t\<lparr>tn_streams := tn_streams t @ [new_stream k sid]\<rparr>)"
      using assms(1) by (auto simp: obedient_def new_stream_def)
    then show "obedient g (upd_session k (\<lambda>s. s\<lparr>ss_next_id := succ_id sid,
      ss_streams := AList.update sid i (ss_streams s)\<rparr>) (t\<lparr>tn_streams := tn_streams t @ [new_stream k sid]\<rparr>))"
      using keepsD [OF obeys_upd_session] by simp
  qed
  then show ?thesis
    unfolding session_dial_def Let_def
    by (intro keeps_structure keeps_of_sum_bind obeys_session_send) (blast intro: permitted_open assms)+
qed

lemma obeys_books [obeying]:
  "obeys g (lower_active a)" "obeys g (close_audit aid sent recv reason)" "obeys g (insert_audit au a host port)"
  "obeys g (audit_denied au a host port)"
proof -
  show close: "obeys g (close_audit aid sent recv reason)" for aid sent recv reason
    unfolding close_audit_def by (rule obeys_same) simp
  show insert: "obeys g (insert_audit au a host port)"
    unfolding insert_audit_def by (intro keeps_structure obeys_same) simp
  show "obeys g (lower_active a)" unfolding lower_active_def by (rule obeys_same) simp
  show "obeys g (audit_denied au a host port)"
    unfolding audit_denied_def by (intro keeps_structure insert close)
qed

lemma obeys_unregister [obeying]: "obeys g (unregister a)"
proof -
  have "obedient g (t\<lparr>mg_sessions := AList.delete a (mg_sessions t), mg_max := AList.delete a (mg_max t),
       mg_active := AList.delete a (mg_active t)\<rparr>)" if "obedient g t" for t
    using that by (auto simp: obedient_def delete_conv' split: if_splits)
  then show ?thesis unfolding unregister_def by (rule obeys_modifyc)
qed

lemma obeys_handles [obeying]:
  "obeys g (counted_write h data)" "obeys g (counted_read h)" "obeys g (counted_close h reason)"
  unfolding counted_write_def counted_read_def counted_close_def by (intro keeps_structure obeying)+

lemma obeys_manager_dialled [obeying]: "obeys g (manager_dialled n aid)"
proof -
  have "obeys g (modifyc (\<lambda>t. t\<lparr>tn_pending := take n (tn_pending t) @ drop (Suc n) (tn_pending t)\<rparr>))"
    "obeys g (modifyc (\<lambda>t. t\<lparr>tn_counted := tn_counted t @ [c]\<rparr>))" for c
    by (rule obeys_same; simp)+
  moreover have "obeys g (dial_outcome i)" for i
    unfolding dial_outcome_def by (intro keeps_structure obeying)
  ultimately show ?thesis unfolding manager_dialled_def by (intro keeps_structure obeying)
qed

text \<open>What a dial comes to.\<close>

lemma manager_dial_cases:
  obtains (refused) e where "manager_dial denied a host port t = (Inl e, t)"
  | (denied) e k rules where "map_of (mg_sessions t) a = Some (k, rules)" "\<not> is_allowed rules host port"
      "manager_dial denied a host port t = (Inl e, snd (audit_denied denied a host port t))"
  | (failed) k rules e v where "map_of (mg_sessions t) a = Some (k, rules)"
      "active_stream_count t a < max_concurrent t a" "is_allowed rules host port"
      "session_dial k host port (t\<lparr>mg_active := AList.update a (active_stream_count t a + 1) (mg_active t)\<rparr>) = (Inl e, v)"
      "manager_dial denied a host port t = (Inl e, snd (lower_active a v))"
  | (waiting) k rules i v where "map_of (mg_sessions t) a = Some (k, rules)"
      "active_stream_count t a < max_concurrent t a" "is_allowed rules host port"
      "session_dial k host port (t\<lparr>mg_active := AList.update a (active_stream_count t a + 1) (mg_active t)\<rparr>) = (Inr i, v)"
      "manager_dial denied a host port t =
         (Inr (), v\<lparr>tn_pending := tn_pending v @ [\<lparr>pd_stream = i, pd_agent = a, pd_host = host, pd_port = port\<rparr>]\<rparr>)"
proof (cases "map_of (mg_sessions t) a")
  case None
  then show ?thesis by (intro refused) (simp add: manager_dial_def bindc_apply)
next
  case (Some entry)
  obtain k rules where entry: "entry = (k, rules)" by (cases entry)
  note row = Some [unfolded entry]
  consider (limit) "max_concurrent t a \<le> active_stream_count t a"
    | (not_allowed) "active_stream_count t a < max_concurrent t a" "\<not> is_allowed rules host port"
    | (ok) "active_stream_count t a < max_concurrent t a" "is_allowed rules host port" by linarith
  then show ?thesis
  proof cases
    case limit
    with row show ?thesis by (intro refused) (simp add: manager_dial_def bindc_apply)
  next
    case not_allowed
    have "fst (audit_denied denied a host port t) = Inr ()"
      by (cases denied) (simp_all add: audit_denied_def insert_audit_def close_audit_def thenc_apply)
    with row not_allowed show ?thesis
      by (intro denied [OF row not_allowed(2)])
        (cases "audit_denied denied a host port t", simp add: manager_dial_def bindc_apply thenc_apply)
  next
    case ok
    obtain x v where dial: "session_dial k host port
        (t\<lparr>mg_active := AList.update a (active_stream_count t a + 1) (mg_active t)\<rparr>) = (x, v)" by fastforce
    have low: "lower_active a v = (Inr (), snd (lower_active a v))" by (simp add: lower_active_def)
    show ?thesis
    proof (cases x)
      case (Inl e)
      show ?thesis
        by (rule failed [OF row ok dial [unfolded Inl]], insert row ok dial Inl)
          (simp add: manager_dial_def bindc_apply thenc_apply catchc_apply, simp add: lower_active_def)
    next
      case (Inr i)
      show ?thesis
        by (rule waiting [OF row ok dial [unfolded Inr]], insert row ok dial Inr)
          (simp add: manager_dial_def bindc_apply thenc_apply catchc_apply)
    qed
  qed
qed

lemma obeys_manager_dial:
  assumes t: "obedient g t"
  shows "obedient g (snd (manager_dial denied a host port t))"
proof -
  let ?u = "t\<lparr>mg_active := AList.update a (active_stream_count t a + 1) (mg_active t)\<rparr>"
  have u: "obedient g ?u" using t by (simp add: obedient_def)
  have dial: "obedient g v"
    if "map_of (mg_sessions t) a = Some (k, rules)" "is_allowed rules host port" "session_dial k host port ?u = (x, v)"
    for k rules x v
  proof -
    have "k < length g" "is_allowed (g ! k) host port" using t that(1,2) by (auto simp: obedient_def)
    from keepsD [OF obeys_session_dial [OF this] u] that(3) show ?thesis by simp
  qed
  show ?thesis
  proof (cases rule: manager_dial_cases [of denied a host port t])
    case refused
    with t show ?thesis by simp
  next
    case denied
    with keepsD [OF obeys_books(4) t] show ?thesis by simp
  next
    case (failed k rules e v)
    from keepsD [OF obeys_books(1) dial [OF failed(1,3,4)]] failed(5) show ?thesis by simp
  next
    case (waiting k rules i v)
    from dial [OF waiting(1,3,4)] waiting(5) show ?thesis by (simp add: obedient_def)
  qed
qed

lemma grants_snoc: "grants (es @ [e]) = grants es @ (case e of Connect a rules limit \<Rightarrow> [rules] | _ \<Rightarrow> [])"
  by (cases e) (simp_all add: grants_def List.map_filter_def)

lemma connect_obedient:
  assumes "obedient g t"
  shows "obedient (g @ [rules]) (snd (connect_agent a rules limit t))"
proof -
  have "permitted ((g @ [rules]) ! k) data"
    if "k < Suc (length g)" "data \<in> set (ss_sent ((tn_sessions t @ [new_session]) ! k))" for k data
    using that assms by (cases "k = length g") (auto simp: obedient_def nth_append new_session_def)
  moreover have "\<forall>b k rs. map_of (mg_sessions t) b = Some (k, rs) \<longrightarrow> k < length g \<and> rs = g ! k"
    using assms by (simp add: obedient_def)
  ultimately show ?thesis
    using assms by (auto simp: connect_agent_def register_def bindc_apply thenc_apply obedient_def
        update_conv' nth_append less_Suc_eq split: if_splits)
qed

lemma tunnel_run_obedient: "tunnel_run es t \<Longrightarrow> obedient (grants es) t"
proof (induction rule: tunnel_run.induct)
  case tunnel_start
  show ?case by (simp add: obedient_def grants_def no_tunnels_def)
next
  case (tunnel_next es t e)
  show ?case
  proof (cases e)
    case (Connect a rules limit)
    with connect_obedient [OF tunnel_next.IH] show ?thesis by (simp add: grants_snoc after_def)
  next
    case (Dial denied a host port)
    with obeys_manager_dial [OF tunnel_next.IH] show ?thesis by (simp add: grants_snoc after_def)
  next
    case (Broken k)
    have "obeys (grants es) (break_transport k)"
      unfolding break_transport_def by (intro keeps_structure obeying) simp
    with tunnel_next.IH Broken show ?thesis by (simp add: grants_snoc after_def keepsD)
  next
    case (Ended a k)
    have "obeys (grants es) (end_connection a k)"
      unfolding end_connection_def by (intro keeps_structure obeying)
    with tunnel_next.IH Ended show ?thesis by (simp add: grants_snoc after_def keepsD)
  qed (use tunnel_next.IH in \<open>simp_all add: grants_snoc after_def keepsD [OF obeying(1)] keepsD [OF keeps_bindc] keepsD
      obeying keeps_bindc keeps_ret\<close>)
qed

text \<open>C23: Nothing is dialled that the allowlist does not allow. Whatever users dial, agents answer and
  connections do, in whatever order, every OPEN frame that ever leaves on a session asks for a destination that is
  allowed by the allowlist with which the agent of that session connected.\<close>

theorem opens_only_allowed:
  assumes "tunnel_run es t" and "k < length (tn_sessions t)" and "data \<in> set (ss_sent (tn_sessions t ! k))"
    and "decode data = Inr f" and "fr_type f = frame_OPEN"
  shows "k < length (grants es) \<and>
    (\<exists>host port. fr_payload f = open_payload host port \<and> is_allowed (grants es ! k) host port)"
  using tunnel_run_obedient [OF assms(1)] assms(2-) by (fastforce simp: obedient_def permitted_def)

section \<open>Stream ids\<close>

definition ids_of :: "tunnel \<Rightarrow> nat \<Rightarrow> 32 word list" where
  "ids_of t k = map sm_id (filter (\<lambda>s. sm_session s = k) (tn_streams t))"

definition nth_id :: "nat \<Rightarrow> 32 word" where
  "nth_id j = (succ_id ^^ j) 1"

text \<open>Every session has given out its ids in turn, and its table holds streams of its own under their ids.\<close>

definition orderly :: "tunnel \<Rightarrow> bool" where
  "orderly t \<longleftrightarrow>
     (\<forall>s\<in>set (tn_streams t). sm_session s < length (tn_sessions t)) \<and>
     (\<forall>k<length (tn_sessions t).
        ids_of t k = map nth_id [0..<length (ids_of t k)] \<and>
        ss_next_id (tn_sessions t ! k) = nth_id (length (ids_of t k)) \<and>
        (\<forall>sid i. (sid, i) \<in> set (ss_streams (tn_sessions t ! k)) \<longrightarrow>
           i < length (tn_streams t) \<and> sm_session (tn_streams t ! i) = k \<and> sm_id (tn_streams t ! i) = sid))"

named_theorems ordering \<open>computations that keep the tables in order\<close>

lemma orderly_same:
  "(\<And>t. tn_sessions (f t) = tn_sessions t \<and> tn_streams (f t) = tn_streams t) \<Longrightarrow> keeps orderly (modifyc f)"
  by (simp add: keeps_def orderly_def ids_of_def)

lemma map_update_same: "(i < length xs \<Longrightarrow> g y = g (xs ! i)) \<Longrightarrow> map g (xs[i := y]) = map g xs"
  by (cases "i < length xs") (simp_all add: map_update list_update_same_conv list_update_beyond)

lemma keeps_upd_stream [ordering]:
  assumes "\<And>s. sm_session (f s) = sm_session s" and "\<And>s. sm_id (f s) = sm_id s"
  shows "keeps orderly (modifyc (upd_stream i f))"
proof (rule keeps_modifyc)
  fix t assume t: "orderly t"
  let ?ss = "(tn_streams t)[i := f (tn_streams t ! i)]"
  have same: "sm_session (?ss ! j) = sm_session (tn_streams t ! j)" "sm_id (?ss ! j) = sm_id (tn_streams t ! j)"
    if "j < length (tn_streams t)" for j
    using that assms by (cases "j = i"; simp)+
  have pairs: "map (\<lambda>s. (sm_session s, sm_id s)) ?ss = map (\<lambda>s. (sm_session s, sm_id s)) (tn_streams t)"
    by (rule map_update_same) (simp add: assms)
  have split: "map sm_id (filter (\<lambda>s. sm_session s = k) ss) =
      map snd (filter (\<lambda>p. fst p = k) (map (\<lambda>s. (sm_session s, sm_id s)) ss))" for k ss
    by (induction ss) auto
  have new: "tn_streams (upd_stream i f t) = ?ss" by (simp add: upd_stream_def)
  have ids: "ids_of (upd_stream i f t) k = ids_of t k" for k
    unfolding ids_of_def new split pairs ..
  have "sm_session s < length (tn_sessions t)" if "s \<in> set ?ss" for s
  proof -
    from that obtain j where "j < length (tn_streams t)" "s = ?ss ! j" by (auto simp: in_set_conv_nth)
    with same(1) [of j] t show ?thesis by (auto simp: orderly_def)
  qed
  moreover have "j < length ?ss \<and> sm_session (?ss ! j) = k \<and> sm_id (?ss ! j) = sid"
    if "k < length (tn_sessions t)" "(sid, j) \<in> set (ss_streams (tn_sessions t ! k))" for k sid j
    using t that same [of j] by (fastforce simp: orderly_def)
  ultimately show "orderly (upd_stream i f t)"
    using t ids unfolding orderly_def by (simp add: upd_stream_def)
qed

lemma keeps_upd_session [ordering]:
  assumes "\<And>s. set (ss_streams (f s)) \<subseteq> set (ss_streams s)" and "\<And>s. ss_next_id (f s) = ss_next_id s"
  shows "keeps orderly (modifyc (upd_session k f))"
proof (rule keeps_modifyc)
  fix t assume t: "orderly t"
  let ?ss = "(tn_sessions t)[k := f (tn_sessions t ! k)]"
  have "ss_next_id (?ss ! j) = ss_next_id (tn_sessions t ! j)" "set (ss_streams (?ss ! j)) \<subseteq> set (ss_streams (tn_sessions t ! j))"
    if "j < length (tn_sessions t)" for j
    using that assms by (cases "j = k"; simp)+
  with t show "orderly (upd_session k f t)" by (fastforce simp: orderly_def upd_session_def ids_of_def)
qed

lemma set_update_subset: "set (AList.update x y al) \<subseteq> insert (x, y) (set al)"
  by (induction al) auto

lemma set_alist_delete: "set (AList.delete x al) \<subseteq> set al"
  by (auto simp: AList.delete_eq)

lemma keeps_session_steps [ordering]:
  "keeps orderly (feed i data)" "keeps orderly (feed_eof i)" "keeps orderly (resolve_open st i)"
  "keeps orderly (forget k sid)" "keeps orderly (session_send k data)"
  unfolding feed_def feed_eof_def resolve_open_def forget_def session_send_def
  by (intro keeps_structure ordering set_alist_delete; simp add: set_alist_delete)+

lemma keeps_stream_steps [ordering]:
  "keeps orderly (send_frame i ty payload)" "keeps orderly (shutdown k)" "keeps orderly (dial_outcome i)"
  "keeps orderly (stream_write i data)" "keeps orderly (stream_read i)" "keeps orderly (stream_close i)"
  "keeps orderly (read_message k data)" "keeps orderly (modifyc (upd_counted h c))" "keeps orderly (lower_active a)"
  "keeps orderly (close_audit aid sent recv reason)" "keeps orderly (insert_audit au a host port)"
proof -
  show send: "keeps orderly (send_frame i ty payload)" for i ty payload
    unfolding send_frame_def by (intro keeps_structure ordering)
  show shut: "keeps orderly (shutdown k)" for k
    unfolding shutdown_def by (intro keeps_structure ordering; auto intro!: keeps_structure ordering)
  show "keeps orderly (dial_outcome i)" unfolding dial_outcome_def by (intro keeps_structure ordering)
  show "keeps orderly (stream_write i data)" "keeps orderly (stream_read i)" "keeps orderly (stream_close i)"
    unfolding stream_write_def stream_read_def stream_close_def by (intro keeps_structure ordering send; simp)+
  show "keeps orderly (read_message k data)"
    unfolding read_message_def deliver_def Let_def by (intro keeps_structure ordering shut)
  show "keeps orderly (modifyc (upd_counted h c))" by (rule orderly_same) (simp add: upd_counted_def)
  show "keeps orderly (lower_active a)" unfolding lower_active_def by (rule orderly_same) simp
  show "keeps orderly (close_audit aid sent recv reason)" unfolding close_audit_def by (rule orderly_same) simp
  show "keeps orderly (insert_audit au a host port)"
    unfolding insert_audit_def by (intro keeps_structure orderly_same) simp
qed

lemma nth_id_Suc: "nth_id (Suc j) = succ_id (nth_id j)"
  by (simp add: nth_id_def)

text \<open>Giving out the next id.\<close>

lemma orderly_new_stream:
  assumes t: "orderly t" and k: "k < length (tn_sessions t)" and sid: "ss_next_id (tn_sessions t ! k) = sid"
  shows "orderly (upd_session k (\<lambda>s. s\<lparr>ss_next_id := succ_id sid,
    ss_streams := AList.update sid (length (tn_streams t)) (ss_streams s)\<rparr>)
    (t\<lparr>tn_streams := tn_streams t @ [new_stream k sid]\<rparr>))" (is "orderly ?u")
proof -
  have ids: "ids_of ?u j = (if j = k then ids_of t k @ [sid] else ids_of t j)" for j
    by (simp add: ids_of_def upd_session_def new_stream_def)
  have next_id: "sid = nth_id (length (ids_of t k))" using t k sid by (simp add: orderly_def)
  have entry: "i < length (tn_streams ?u) \<and> sm_session (tn_streams ?u ! i) = j \<and> sm_id (tn_streams ?u ! i) = x"
    if j: "j < length (tn_sessions t)" "(x, i) \<in> set (ss_streams (tn_sessions ?u ! j))" for j x i
  proof (cases "(x, i) \<in> set (ss_streams (tn_sessions t ! j))")
    case True
    with t j(1) have "i < length (tn_streams t) \<and> sm_session (tn_streams t ! i) = j \<and> sm_id (tn_streams t ! i) = x"
      by (fastforce simp: orderly_def)
    then show ?thesis by (simp add: upd_session_def nth_append)
  next
    case False
    with j k have "j = k" "(x, i) = (sid, length (tn_streams t))"
      using set_update_subset [of sid "length (tn_streams t)" "ss_streams (tn_sessions t ! k)"]
      by (auto simp: upd_session_def nth_list_update split: if_splits)
    then show ?thesis by (simp add: upd_session_def new_stream_def)
  qed
  have "ids_of ?u j = map nth_id [0..<length (ids_of ?u j)] \<and> ss_next_id (tn_sessions ?u ! j) = nth_id (length (ids_of ?u j))"
    if j: "j < length (tn_sessions t)" for j
  proof -
    have old: "ids_of t j = map nth_id [0..<length (ids_of t j)]" "ss_next_id (tn_sessions t ! j) = nth_id (length (ids_of t j))"
      using t j by (simp_all add: orderly_def)
    show ?thesis
    proof (cases "j = k")
      case True
      have "ids_of ?u j = map nth_id [0..<length (ids_of t k)] @ [sid]" using ids [of j] old(1) True by simp
      moreover have "ss_next_id (tn_sessions ?u ! j) = succ_id sid" using True k by (simp add: upd_session_def)
      ultimately show ?thesis using next_id by (simp add: nth_id_Suc)
    next
      case False
      with ids [of j] old show ?thesis by (simp add: upd_session_def)
    qed
  qed
  moreover have "\<forall>s\<in>set (tn_streams ?u). sm_session s < length (tn_sessions ?u)"
    using t k by (auto simp: orderly_def upd_session_def new_stream_def)
  moreover have "length (tn_sessions ?u) = length (tn_sessions t)" by (simp add: upd_session_def)
  ultimately show ?thesis using entry unfolding orderly_def by simp
qed

lemma keepsD_session_dial:
  assumes "orderly t" and "k < length (tn_sessions t)"
  shows "orderly (snd (session_dial k host port t))"
proof (cases "ss_closed (tn_sessions t ! k)")
  case True
  with assms show ?thesis by (simp add: session_dial_def bindc_apply)
next
  case False
  define sid where "sid = ss_next_id (tn_sessions t ! k)"
  define u where "u = upd_session k (\<lambda>s. s\<lparr>ss_next_id := succ_id sid,
    ss_streams := AList.update sid (length (tn_streams t)) (ss_streams s)\<rparr>)
    (t\<lparr>tn_streams := tn_streams t @ [new_stream k sid]\<rparr>)"
  have u: "orderly u" unfolding u_def by (rule orderly_new_stream [OF assms]) (simp add: sid_def)
  have "keeps orderly (bindc (of_sum (open_frame (uint sid) host port)) (\<lambda>data. thenc (session_send k data) (ret i)))" for i :: nat
    by (intro keeps_structure ordering)
  from keepsD [OF this u] False show ?thesis
    by (simp add: session_dial_def bindc_apply [of "gets f" for f] thenc_apply [of "modifyc f" for f] Let_def
        sid_def [symmetric] u_def [symmetric])
qed

lemma orderly_manager_dial:
  assumes t: "orderly t" and k: "\<And>k rules. map_of (mg_sessions t) a = Some (k, rules) \<Longrightarrow> k < length (tn_sessions t)"
  shows "orderly (snd (manager_dial denied a host port t))"
proof -
  let ?u = "t\<lparr>mg_active := AList.update a (active_stream_count t a + 1) (mg_active t)\<rparr>"
  have u: "orderly ?u" using t by (simp add: orderly_def ids_of_def)
  have dial: "orderly v" if "map_of (mg_sessions t) a = Some (k, rules)" "session_dial k host port ?u = (x, v)" for k rules x v
    using keepsD_session_dial [OF u, of k host port] k that by simp
  have audit: "keeps orderly (audit_denied denied a host port)" and low: "keeps orderly (lower_active a)"
    unfolding audit_denied_def by (intro keeps_structure ordering)+
  show ?thesis
  proof (cases rule: manager_dial_cases [of denied a host port t])
    case refused
    with t show ?thesis by simp
  next
    case denied
    with keepsD [OF audit t] show ?thesis by simp
  next
    case (failed k rules e v)
    have "orderly (snd (lower_active a v))" by (rule keepsD [OF low]) (rule dial [OF failed(1,4)])
    with failed(5) show ?thesis by simp
  next
    case (waiting k rules i v)
    from dial [OF waiting(1,4)] waiting(5) show ?thesis by (simp add: orderly_def ids_of_def)
  qed
qed

lemma connect_orderly:
  assumes "orderly t"
  shows "orderly (snd (connect_agent a rules limit t))"
proof -
  let ?u = "t\<lparr>tn_sessions := tn_sessions t @ [new_session]\<rparr>"
  have "ids_of ?u (length (tn_sessions t)) = []"
    using assms by (auto simp: ids_of_def orderly_def filter_empty_conv)
  then have "orderly ?u"
    using assms by (auto simp: orderly_def nth_append less_Suc_eq new_session_def nth_id_def ids_of_def)
  then show ?thesis by (simp add: connect_agent_def register_def bindc_apply thenc_apply orderly_def ids_of_def)
qed

lemma tunnel_run_orderly: "tunnel_run es t \<Longrightarrow> orderly t"
proof (induction rule: tunnel_run.induct)
  case tunnel_start
  show ?case by (simp add: orderly_def no_tunnels_def ids_of_def)
next
  case (tunnel_next es t e)
  have calm: "keeps orderly (unregister a)" "keeps orderly (modifyc (\<lambda>t. t\<lparr>tn_pending := f t\<rparr>))"
    "keeps orderly (modifyc (\<lambda>t. t\<lparr>tn_counted := g t\<rparr>))" for a f g
    unfolding unregister_def by (rule orderly_same; simp)+
  show ?case
  proof (cases e)
    case (Connect a rules limit)
    with connect_orderly [OF tunnel_next.IH] show ?thesis by (simp add: after_def)
  next
    case (Dial denied a host port)
    have "k < length (tn_sessions t)" if "map_of (mg_sessions t) a = Some (k, rules)" for k rules
      using tunnel_run_obedient [OF tunnel_next.hyps(1)] that by (auto simp: obedient_def)
    with orderly_manager_dial [OF tunnel_next.IH] Dial show ?thesis by (simp add: after_def)
  next
    case (Message k data)
    have "keeps orderly (read_message k data)" by (intro ordering)
    with tunnel_next.IH Message show ?thesis by (simp add: after_def keepsD)
  next
    case (Broken k)
    have "keeps orderly (break_transport k)"
      unfolding break_transport_def by (intro keeps_structure ordering) simp_all
    with tunnel_next.IH Broken show ?thesis by (simp add: after_def keepsD)
  next
    case (Ended a k)
    have "keeps orderly (end_connection a k)"
      unfolding end_connection_def session_close_def by (intro keeps_structure ordering calm)
    with tunnel_next.IH Ended show ?thesis by (simp add: after_def keepsD)
  next
    case (Dialled n aid)
    have "keeps orderly (happen (Dialled n aid))"
      unfolding happen.simps manager_dialled_def by (intro keeps_structure ordering calm)
    with tunnel_next.IH Dialled show ?thesis by (simp only: after_def keepsD)
  next
    case (Write h data)
    have "keeps orderly (happen (Write h data))"
      unfolding happen.simps counted_write_def by (intro keeps_structure ordering)
    with tunnel_next.IH Write show ?thesis by (simp only: after_def keepsD)
  next
    case (Read h)
    have "keeps orderly (happen (Read h))"
      unfolding happen.simps counted_read_def by (intro keeps_structure ordering)
    with tunnel_next.IH Read show ?thesis by (simp only: after_def keepsD)
  next
    case (Close h reason)
    have "keeps orderly (happen (Close h reason))"
      unfolding happen.simps counted_close_def by (intro keeps_structure ordering)
    with tunnel_next.IH Close show ?thesis by (simp only: after_def keepsD)
  qed
qed

lemma succ_id_of_nat:
  assumes "m < 4294967295"
  shows "succ_id (of_nat (m + 1)) = of_nat ((m + 1) mod 4294967295 + 1)"
proof (cases "m + 2 = 4294967296")
  case True
  then have "m = 4294967294" by simp
  then show ?thesis by (simp add: succ_id_def)
next
  case False
  with assms have small: "m + 2 < 4294967296" by simp
  have "unat (of_nat n :: 32 word) = n" if "n < 4294967296" for n using that by (simp add: unat_of_nat)
  from this [OF small] have "(of_nat (m + 2) :: 32 word) \<noteq> 0" by (metis add_is_0 unat_0 zero_neq_numeral)
  moreover have "of_nat (m + 2) = (of_nat (m + 1) + 1 :: 32 word)" by simp
  ultimately have "(of_nat (m + 1) + 1 :: 32 word) \<noteq> 0" by metis
  with assms False show ?thesis by (simp add: succ_id_def)
qed

lemma nth_id_eq: "nth_id j = of_nat (j mod 4294967295 + 1)"
proof (induction j)
  case 0
  show ?case by (simp add: nth_id_def)
next
  case (Suc j)
  have "nth_id (Suc j) = of_nat ((j mod 4294967295 + 1) mod 4294967295 + 1)"
    unfolding nth_id_Suc Suc.IH by (rule succ_id_of_nat) simp
  also have "(j mod 4294967295 + 1) mod 4294967295 = Suc j mod 4294967295" by (simp add: mod_Suc_eq)
  finally show ?case .
qed

lemma unat_nth_id: "unat (nth_id j) = j mod 4294967295 + 1"
proof -
  have "j mod 4294967295 + 1 < 4294967296" using mod_less_divisor [of 4294967295 j] by linarith
  then show ?thesis unfolding nth_id_eq by (simp only: unat_of_nat) simp
qed

text \<open>C27: Stream ids count up and skip zero. The n-th stream of a session has the id \<open>n mod (2^32 - 1) + 1\<close>: no
  stream has the id zero, and two streams of one session share an id only when 2^32 - 1 dials lie between them.\<close>

theorem stream_ids_bounded:
  assumes "tunnel_run es t" and "k < length (tn_sessions t)"
  shows "(\<forall>n<length (ids_of t k). unat (ids_of t k ! n) = n mod 4294967295 + 1) \<and> 0 \<notin> set (ids_of t k) \<and>
    (length (ids_of t k) < 4294967296 \<longrightarrow> distinct (ids_of t k))"
proof -
  have ids: "ids_of t k = map nth_id [0..<length (ids_of t k)]"
    using tunnel_run_orderly [OF assms(1)] assms(2) by (simp add: orderly_def)
  have nth: "unat (ids_of t k ! n) = n mod 4294967295 + 1" if "n < length (ids_of t k)" for n
    using that by (subst ids) (simp add: unat_nth_id)
  have "0 \<notin> set (ids_of t k)"
  proof
    assume "0 \<in> set (ids_of t k)"
    then obtain n where "n < length (ids_of t k)" "ids_of t k ! n = 0" by (auto simp: in_set_conv_nth)
    with nth [of n] show False by simp
  qed
  moreover have "distinct (ids_of t k)" if "length (ids_of t k) < 4294967296"
    unfolding distinct_conv_nth
  proof (intro allI impI notI)
    fix m n assume mn: "m < length (ids_of t k)" "n < length (ids_of t k)" "m \<noteq> n" "ids_of t k ! m = ids_of t k ! n"
    then have "m mod 4294967295 = n mod 4294967295" using nth [of m] nth [of n] by simp
    with mn that show False by simp
  qed
  ultimately show ?thesis using nth by blast
qed

section \<open>Sessions are apart\<close>

lemma deliver_touches: "j \<noteq> i \<Longrightarrow> tn_streams (snd (deliver i f t)) ! j = tn_streams t ! j"
  by (simp add: deliver_def Let_def feed_def feed_eof_def resolve_open_def upd_stream_def)

lemma shutdown_touches:
  assumes "\<And>sid i. (sid, i) \<in> set (ss_streams (tn_sessions t ! k)) \<Longrightarrow> i \<noteq> j"
  shows "tn_streams (snd (shutdown k t)) ! j = tn_streams t ! j"
proof -
  let ?step = "\<lambda>(_ :: 32 word, i). thenc (feed_eof i) (resolve_open (Refused ''session closed'') i)"
  have "fst (seqc (map ?step ps) u) = Inr () \<and> tn_streams (snd (seqc (map ?step ps) u)) ! j = tn_streams u ! j"
    if "\<And>sid i. (sid, i) \<in> set ps \<Longrightarrow> i \<noteq> j" for ps u
    using that
  proof (induction ps arbitrary: u)
    case Nil
    then show ?case by simp
  next
    case (Cons p ps)
    obtain sid i where p: "p = (sid, i)" by (cases p)
    have "i \<noteq> j" using Cons.prems [of sid i] p by simp
    moreover have "\<And>sid i. (sid, i) \<in> set ps \<Longrightarrow> i \<noteq> j" using Cons.prems by auto
    ultimately show ?case using Cons.IH p
      by (simp add: thenc_apply feed_eof_def feed_def resolve_open_def upd_stream_def)
  qed
  note run = this
  let ?u = "upd_session k (\<lambda>s. s\<lparr>ss_closed := True\<rparr>) t"
  have inner: "fst (seqc (map ?step (ss_streams (tn_sessions t ! k))) ?u) = Inr () \<and>
      tn_streams (snd (seqc (map ?step (ss_streams (tn_sessions t ! k))) ?u)) ! j = tn_streams ?u ! j"
    by (rule run) (use assms in blast)
  obtain v where v: "seqc (map ?step (ss_streams (tn_sessions t ! k))) ?u = (Inr (), v)"
      "tn_streams v ! j = tn_streams t ! j"
    using inner by (cases "seqc (map ?step (ss_streams (tn_sessions t ! k))) ?u")
      (simp add: upd_session_def)
  then show ?thesis by (simp add: shutdown_def bindc_apply thenc_apply) (simp add: upd_session_def)
qed

lemma read_message_touches:
  assumes "\<And>sid i. (sid, i) \<in> set (ss_streams (tn_sessions t ! k)) \<Longrightarrow> i \<noteq> j"
  shows "tn_streams (snd (read_message k data t)) ! j = tn_streams t ! j"
proof (cases "ss_closed (tn_sessions t ! k) \<or> (\<exists>e. decode data = Inl e)")
  case True
  with shutdown_touches [OF assms] show ?thesis by (auto simp: read_message_def bindc_apply)
next
  case False
  then obtain f where f: "decode data = Inr f" "\<not> ss_closed (tn_sessions t ! k)" by (cases "decode data") auto
  show ?thesis
  proof (cases "map_of (ss_streams (tn_sessions t ! k)) (word_of_int (fr_stream_id f))")
    case None
    with f show ?thesis by (simp add: read_message_def bindc_apply)
  next
    case (Some i)
    with assms have "i \<noteq> j" by (auto dest: map_of_SomeD)
    with f Some deliver_touches [of j i f t] show ?thesis by (simp add: read_message_def bindc_apply)
  qed
qed

text \<open>C26: An agent reaches only streams of its own connection. A message on a session, well-formed or not, and the
  loss of its transport or the end of its connection leave every stream that was dialled through another session as
  it is.\<close>

theorem sessions_isolated:
  assumes "tunnel_run es t" and "k < length (tn_sessions t)" and "sm_session (tn_streams t ! j) \<noteq> k"
    and "e = Message k data \<or> e = Broken k \<or> e = Ended a k"
  shows "tn_streams (after e t) ! j = tn_streams t ! j"
proof -
  have own: "i \<noteq> j" if "(sid, i) \<in> set (ss_streams (tn_sessions t ! k))" for sid i
  proof -
    have "sm_session (tn_streams t ! i) = k"
      using tunnel_run_orderly [OF assms(1)] assms(2) that by (auto simp: orderly_def)
    with assms(3) show ?thesis by auto
  qed
  have table: "ss_streams (tn_sessions (upd_session k (\<lambda>s. s\<lparr>ss_down := True\<rparr>) t) ! k) = ss_streams (tn_sessions t ! k)"
    using assms(2) by (simp add: upd_session_def)
  have "tn_streams (snd (shutdown k (upd_session k (\<lambda>s. s\<lparr>ss_down := True\<rparr>) t))) ! j =
      tn_streams (upd_session k (\<lambda>s. s\<lparr>ss_down := True\<rparr>) t) ! j"
    by (rule shutdown_touches) (use own table in simp)
  then have broken: "tn_streams (after (Broken k) t) ! j = tn_streams t ! j"
    by (simp add: after_def break_transport_def thenc_apply upd_session_def)
  let ?u = "snd (unregister a t)"
  have "tn_sessions ?u = tn_sessions t" "tn_streams ?u = tn_streams t" by (simp_all add: unregister_def)
  then have "tn_streams (snd (shutdown k ?u)) ! j = tn_streams t ! j"
    using shutdown_touches [of ?u k j] own by simp
  then have ended: "tn_streams (after (Ended a k) t) ! j = tn_streams t ! j"
    by (simp add: after_def end_connection_def session_close_def thenc_apply unregister_def)
  from assms(4) broken ended read_message_touches [OF own] show ?thesis by (auto simp: after_def)
qed

section \<open>The limit of concurrent streams\<close>

definition open_count :: "string \<Rightarrow> tunnel \<Rightarrow> nat" where
  "open_count a t =
     length (filter (\<lambda>c. co_counted c \<and> co_agent c = a) (tn_counted t)) +
     length (filter (\<lambda>p. pd_agent p = a) (tn_pending t))"

text \<open>What the limit depends on.\<close>

definition books ::
  "tunnel \<Rightarrow> (string \<times> nat \<times> rule list) list \<times> (string \<times> int) list \<times> (string \<times> int) list \<times> (bool \<times> string) list \<times> pending list" where
  "books t = (mg_sessions t, mg_max t, mg_active t, map (\<lambda>c. (co_counted c, co_agent c)) (tn_counted t), tn_pending t)"

named_theorems calming \<open>computations that keep the books\<close>

abbreviation calm :: "'a tunnel_prog \<Rightarrow> bool" where
  "calm m \<equiv> (\<forall>b. keeps (\<lambda>t. books t = b) m)"

lemma calmD: "calm m \<Longrightarrow> books (snd (m t)) = books t"
  by (drule spec [of _ "books t"]) (drule keepsD [where s = t]; simp)

lemma calm_modifyc: "(\<And>t. books (f t) = books t) \<Longrightarrow> keeps (\<lambda>t. books t = b) (modifyc f)"
  by (simp add: keeps_def)

lemma books_upd_counted:
  "(\<And>c. co_counted (f c) = co_counted c \<and> co_agent (f c) = co_agent c) \<Longrightarrow> books (upd_counted h f t) = books t"
  by (simp add: books_def upd_counted_def map_update_same)

lemma calm_updates [calming]:
  "keeps (\<lambda>t. books t = b) (modifyc (upd_stream i f))" "keeps (\<lambda>t. books t = b) (modifyc (upd_session k g))"
  by (rule calm_modifyc; simp add: books_def upd_stream_def upd_session_def)+

lemma calm_steps [calming]:
  "keeps (\<lambda>t. books t = b) (feed i data)" "keeps (\<lambda>t. books t = b) (feed_eof i)"
  "keeps (\<lambda>t. books t = b) (resolve_open st i)" "keeps (\<lambda>t. books t = b) (forget k sid)"
  "keeps (\<lambda>t. books t = b) (session_send k data)"
  unfolding feed_def feed_eof_def resolve_open_def forget_def session_send_def by (intro keeps_structure calming)+

lemma calm_audit [calming]:
  "keeps (\<lambda>t. books t = b) (close_audit aid m n reason)" "keeps (\<lambda>t. books t = b) (insert_audit au a host port)"
proof -
  show "keeps (\<lambda>t. books t = b) (close_audit aid m n reason)"
    unfolding close_audit_def by (rule calm_modifyc) (simp add: books_def)
  have "keeps (\<lambda>t. books t = b) (modifyc (\<lambda>t. t\<lparr>tn_audit := tn_audit t @ [r]\<rparr>))" for r
    by (rule calm_modifyc) (simp add: books_def)
  then show "keeps (\<lambda>t. books t = b) (insert_audit au a host port)"
    unfolding insert_audit_def by (intro keeps_structure)
qed

lemma calm_stream_steps [calming]:
  "keeps (\<lambda>t. books t = b) (send_frame i ty payload)" "keeps (\<lambda>t. books t = b) (shutdown k)"
  "keeps (\<lambda>t. books t = b) (dial_outcome i)" "keeps (\<lambda>t. books t = b) (audit_denied au a host port)"
  unfolding send_frame_def shutdown_def dial_outcome_def audit_denied_def
  by (intro keeps_structure calming; auto intro!: keeps_structure calming)+

lemma calm_stream_ops [calming]:
  "keeps (\<lambda>t. books t = b) (stream_write i data)" "keeps (\<lambda>t. books t = b) (stream_read i)"
  "keeps (\<lambda>t. books t = b) (stream_close i)" "keeps (\<lambda>t. books t = b) (read_message k data)"
  "keeps (\<lambda>t. books t = b) (session_dial k host port)"
proof -
  have "books (upd_session k f (t\<lparr>tn_streams := ss\<rparr>)) = books t" for k f t ss by (simp add: books_def upd_session_def)
  then have "keeps (\<lambda>t. books t = b) (modifyc (\<lambda>t. upd_session k f (t\<lparr>tn_streams := g t\<rparr>)))" for k f g
    by (intro calm_modifyc) simp
  then show "keeps (\<lambda>t. books t = b) (session_dial k host port)"
    unfolding session_dial_def Let_def by (intro keeps_structure calming)
qed (unfold stream_write_def stream_read_def stream_close_def read_message_def deliver_def Let_def,
    (intro keeps_structure calming)+)

text \<open>For every connected agent: the manager counts exactly the open streams and the dials that wait, and they are
  within the limit.\<close>

definition within_limit :: "tunnel \<Rightarrow> bool" where
  "within_limit t \<longleftrightarrow>
     (\<forall>a. is_online t a \<longrightarrow>
        map_of (mg_active t) a = Some (int (open_count a t)) \<and> (open_count a t = 0 \<or> int (open_count a t) \<le> max_concurrent t a))"

lemma open_count_books:
  "open_count a t = length (filter (\<lambda>c. fst c \<and> snd c = a) (fst (snd (snd (snd (books t)))))) +
     length (filter (\<lambda>p. pd_agent p = a) (snd (snd (snd (snd (books t))))))"
  by (simp add: open_count_def books_def filter_map comp_def)

lemma within_limit_books: "books u = books t \<Longrightarrow> within_limit t \<Longrightarrow> within_limit u"
  by (simp add: within_limit_def open_count_books is_online_def max_concurrent_def) (simp add: books_def)

lemma calm_within: "calm m \<Longrightarrow> within_limit t \<Longrightarrow> within_limit (snd (m t))"
  by (rule within_limit_books [OF calmD])

lemma within_limitD:
  "within_limit t \<Longrightarrow> is_online t a \<Longrightarrow>
   active_stream_count t a = int (open_count a t) \<and> map_of (mg_active t) a = Some (int (open_count a t)) \<and>
   (open_count a t = 0 \<or> int (open_count a t) \<le> max_concurrent t a)"
  by (auto simp: within_limit_def active_stream_count_def)

lemma lower_active_books:
  "books (snd (lower_active a t)) = (mg_sessions t, mg_max t, AList.update a
     (max 0 ((case map_of (mg_active t) a of None \<Rightarrow> 1 | Some n \<Rightarrow> n) - 1)) (mg_active t),
     map (\<lambda>c. (co_counted c, co_agent c)) (tn_counted t), tn_pending t)"
  by (simp add: lower_active_def books_def)

text \<open>A stream less: the count of its agent is lowered by one.\<close>

definition one_less :: "string \<Rightarrow> tunnel \<Rightarrow> tunnel \<Rightarrow> bool" where
  "one_less a t u \<longleftrightarrow>
     mg_sessions u = mg_sessions t \<and> mg_max u = mg_max t \<and> mg_active u = mg_active t \<and>
     (\<forall>b. open_count b t = open_count b u + (if b = a then 1 else 0))"

lemma one_less_lowered:
  assumes "within_limit t" and "one_less a t u"
  shows "within_limit (snd (lower_active a u))"
proof -
  let ?v = "snd (lower_active a u)"
  have counts: "open_count b ?v = open_count b u" for b by (simp add: lower_active_def open_count_def)
  have "map_of (mg_active ?v) b = Some (int (open_count b ?v)) \<and>
      (open_count b ?v = 0 \<or> int (open_count b ?v) \<le> max_concurrent ?v b)" if "is_online ?v b" for b
  proof -
    have on: "is_online t b" using that assms(2) by (simp add: is_online_def one_less_def lower_active_def)
    have same: "max_concurrent ?v b = max_concurrent t b" "mg_active u = mg_active t"
      using assms(2) by (simp_all add: max_concurrent_def one_less_def lower_active_def)
    have total: "open_count b t = open_count b u + (if b = a then 1 else 0)" using assms(2) by (simp add: one_less_def)
    show ?thesis
    proof (cases "b = a")
      case True
      with within_limitD [OF assms(1) on] total same show ?thesis
        unfolding counts by (auto simp: lower_active_def update_conv')
    next
      case False
      with within_limitD [OF assms(1) on] total same show ?thesis
        unfolding counts by (auto simp: lower_active_def update_conv')
    qed
  qed
  then show ?thesis by (simp add: within_limit_def)
qed

lemma filter_removed:
  "n < length xs \<Longrightarrow>
   length (filter P xs) = length (filter P (take n xs @ drop (Suc n) xs)) + (if P (xs ! n) then 1 else 0)"
  by (subst id_take_nth_drop [of n xs]) simp_all

lemma filter_updated:
  "n < length xs \<Longrightarrow> P (xs ! n) \<Longrightarrow> \<not> P x \<Longrightarrow> length (filter P xs) = length (filter P (xs[n := x])) + 1"
  by (simp add: upd_conv_take_nth_drop filter_removed [of n xs P])

lemma filter_updated_other:
  "\<not> P (xs ! n) \<Longrightarrow> \<not> P x \<Longrightarrow> length (filter P (xs[n := x])) = length (filter P xs)"
  by (cases "n < length xs") (simp_all add: upd_conv_take_nth_drop filter_removed [of n xs P] list_update_beyond)

lemma one_less_uncounted:
  assumes "h < length (tn_counted t)" and "co_counted (tn_counted t ! h)"
  shows "one_less (co_agent (tn_counted t ! h)) t (upd_counted h (\<lambda>c. c\<lparr>co_counted := False\<rparr>) t)"
proof -
  have "length (filter (\<lambda>c. co_counted c \<and> co_agent c = b) (tn_counted t)) =
      length (filter (\<lambda>c. co_counted c \<and> co_agent c = b)
        ((tn_counted t)[h := (tn_counted t ! h)\<lparr>co_counted := False\<rparr>])) + (if b = co_agent (tn_counted t ! h) then 1 else 0)"
    for b
    using filter_updated [OF assms(1), where P = "\<lambda>c. co_counted c \<and> co_agent c = b"]
      filter_updated_other [of "\<lambda>c. co_counted c \<and> co_agent c = b" "tn_counted t" h] assms(2)
    by (cases "b = co_agent (tn_counted t ! h)") auto
  then show ?thesis by (simp add: one_less_def open_count_def upd_counted_def)
qed

lemma within_limit_connect:
  assumes t: "within_limit t" and "open_count a t = 0"
  shows "within_limit (snd (connect_agent a rules limit t))"
proof -
  let ?u = "snd (connect_agent a rules limit t)"
  have counts: "open_count b ?u = open_count b t" for b
    by (simp add: connect_agent_def register_def bindc_apply thenc_apply open_count_def)
  have "map_of (mg_active ?u) b = Some (int (open_count b ?u)) \<and>
      (open_count b ?u = 0 \<or> int (open_count b ?u) \<le> max_concurrent ?u b)" if "is_online ?u b" for b
  proof (cases "b = a")
    case True
    with assms(2) show ?thesis
      unfolding counts by (simp add: connect_agent_def register_def bindc_apply thenc_apply update_conv')
  next
    case False
    with that have "is_online t b"
      by (simp add: connect_agent_def register_def bindc_apply thenc_apply update_conv' is_online_def)
    with False within_limitD [OF t this] show ?thesis
      unfolding counts by (simp add: connect_agent_def register_def bindc_apply thenc_apply update_conv' max_concurrent_def)
  qed
  then show ?thesis by (simp add: within_limit_def)
qed

lemma within_limit_unregister:
  assumes "within_limit t"
  shows "within_limit (snd (unregister a t))"
  using assms by (simp add: within_limit_def unregister_def is_online_def open_count_def max_concurrent_def delete_conv')

lemma within_limit_dial:
  assumes t: "within_limit t"
  shows "within_limit (snd (manager_dial denied a host port t))"
proof -
  let ?t = "t\<lparr>mg_active := AList.update a (active_stream_count t a + 1) (mg_active t)\<rparr>"
  have books: "books v = books ?t" if "session_dial k host port ?t = (x, v)" for k x v
    using calmD [of "session_dial k host port" ?t] that calming by simp
  have on: "is_online t a" if "map_of (mg_sessions t) a = Some (k, rules)" for k rules
    using that by (simp add: is_online_def)
  show ?thesis
  proof (cases rule: manager_dial_cases [of denied a host port t])
    case refused
    with t show ?thesis by simp
  next
    case denied
    with calm_within [OF _ t, of "audit_denied denied a host port"] calming show ?thesis by simp
  next
    case (failed k rules e v)
    let ?u = "snd (lower_active a v)"
    have "mg_sessions ?u = mg_sessions t \<and> mg_max ?u = mg_max t \<and> map_of (mg_active ?u) = map_of (mg_active t) \<and>
        (\<forall>b. open_count b ?u = open_count b t)"
      using books [OF failed(4)] within_limitD [OF t on [OF failed(1)]]
      by (auto simp: lower_active_def books_def open_count_books update_conv')
    with t failed(5) show ?thesis by (simp add: within_limit_def is_online_def max_concurrent_def)
  next
    case (waiting k rules i v)
    let ?p = "\<lparr>pd_stream = i, pd_agent = a, pd_host = host, pd_port = port\<rparr>"
    let ?u = "v\<lparr>tn_pending := tn_pending v @ [?p]\<rparr>"
    have "open_count b v = open_count b t" for b
      using books [OF waiting(4)] by (simp add: open_count_books books_def)
    then have counts: "open_count b ?u = open_count b t + (if b = a then 1 else 0)" for b
      by (simp add: open_count_def)
    have same: "mg_sessions ?u = mg_sessions t" "mg_max ?u = mg_max t"
        "mg_active ?u = AList.update a (active_stream_count t a + 1) (mg_active t)"
      using books [OF waiting(4)] by (simp_all add: books_def)
    have "map_of (mg_active ?u) b = Some (int (open_count b ?u)) \<and>
        (open_count b ?u = 0 \<or> int (open_count b ?u) \<le> max_concurrent ?u b)" if "is_online ?u b" for b
    proof -
      have "is_online t b" using that same by (simp add: is_online_def)
      with within_limitD [OF t this] waiting(2) same counts [of b] show ?thesis
        by (cases "b = a") (auto simp: update_conv' max_concurrent_def)
    qed
    with waiting(5) show ?thesis by (simp add: within_limit_def)
  qed
qed

lemma within_limit_close:
  assumes t: "within_limit t" and h: "h < length (tn_counted t)"
  shows "within_limit (snd (counted_close h reason t))"
proof -
  let ?c = "tn_counted t ! h"
  define rest where "rest = thenc (case co_audit ?c of
                 None \<Rightarrow> ret ()
               | Some aid \<Rightarrow>
                   thenc (close_audit aid (co_sent ?c) (co_recv ?c) reason)
                     (modifyc (upd_counted h (\<lambda>c. c\<lparr>co_audit := None\<rparr>))))
          (stream_close (co_stream ?c))"
  have run: "counted_close h reason t = thenc (whenc (co_counted ?c)
      (thenc (modifyc (upd_counted h (\<lambda>c. c\<lparr>co_counted := False\<rparr>))) (lower_active (co_agent ?c)))) rest t"
    by (simp add: counted_close_def bindc_apply rest_def)
  have "keeps (\<lambda>t. books t = b) (modifyc (upd_counted h (\<lambda>c. c\<lparr>co_audit := None\<rparr>)))" for b
    by (intro calm_modifyc books_upd_counted) simp
  then have rest: "calm rest" unfolding rest_def by (intro allI keeps_structure calming)
  show ?thesis
  proof (cases "co_counted ?c")
    case False
    with calm_within [OF rest t] show ?thesis by (simp add: run thenc_apply whenc_def)
  next
    case True
    let ?u = "upd_counted h (\<lambda>c. c\<lparr>co_counted := False\<rparr>) t"
    have "fst (lower_active (co_agent ?c) ?u) = Inr ()" by (simp add: lower_active_def)
    then have "counted_close h reason t = rest (snd (lower_active (co_agent ?c) ?u))"
      using True by (cases "lower_active (co_agent ?c) ?u") (simp add: run thenc_apply whenc_def)
    with calm_within [OF rest one_less_lowered [OF t one_less_uncounted [OF h True]]] show ?thesis by simp
  qed
qed

lemma within_limit_dialled:
  assumes t: "within_limit t" and n: "n < length (tn_pending t)"
  shows "within_limit (snd (manager_dialled n aid t))"
proof -
  let ?p = "tn_pending t ! n"
  let ?u = "t\<lparr>tn_pending := take n (tn_pending t) @ drop (Suc n) (tn_pending t)\<rparr>"
  have less: "one_less (pd_agent ?p) t ?u"
    by (auto simp: one_less_def open_count_def filter_removed [OF n])
  obtain x v where out: "dial_outcome (pd_stream ?p) ?u = (x, v)" by fastforce
  have "books v = books ?u" using calmD [of "dial_outcome (pd_stream ?p)" ?u] out calming by simp
  show ?thesis
  proof (cases x)
    case (Inl e)
    have "one_less (pd_agent ?p) t v"
      using less \<open>books v = books ?u\<close> by (simp add: one_less_def open_count_books) (simp add: books_def)
    moreover have "fst (lower_active (pd_agent ?p) v) = Inr ()" by (simp add: lower_active_def)
    ultimately show ?thesis using one_less_lowered [OF t] out Inl
      by (cases "lower_active (pd_agent ?p) v") (fastforce simp: manager_dialled_def bindc_apply thenc_apply catchc_apply)
  next
    case (Inr y)
    obtain w where w: "insert_audit aid (pd_agent ?p) (pd_host ?p) (pd_port ?p) v = (Inr (), w)"
      by (cases aid) (auto simp: insert_audit_def)
    then have "books w = books ?u"
      using calmD [of "insert_audit aid (pd_agent ?p) (pd_host ?p) (pd_port ?p)" v] \<open>books v = books ?u\<close> calming by simp
    let ?c = "\<lparr>co_stream = pd_stream ?p, co_agent = pd_agent ?p, co_counted = True, co_audit = aid, co_sent = 0, co_recv = 0\<rparr>"
    let ?z = "w\<lparr>tn_counted := tn_counted w @ [?c]\<rparr>"
    have z: "snd (manager_dialled n aid t) = ?z"
      using out w Inr by (simp add: manager_dialled_def bindc_apply thenc_apply catchc_apply)
    have "open_count b ?z = open_count b w + (if b = pd_agent ?p then 1 else 0)" for b by (simp add: open_count_def)
    moreover have "open_count b w = open_count b ?u" for b using \<open>books w = books ?u\<close> by (simp only: open_count_books)
    ultimately have "open_count b ?z = open_count b t" for b using less by (simp add: one_less_def)
    moreover have "mg_sessions ?z = mg_sessions t \<and> mg_max ?z = mg_max t \<and> mg_active ?z = mg_active t"
      using \<open>books w = books ?u\<close> by (simp add: books_def)
    ultimately show ?thesis using t by (simp add: z within_limit_def is_online_def max_concurrent_def)
  qed
qed

text \<open>An agent connects again only after its streams are closed.\<close>

inductive settled_run :: "tunnel_event list \<Rightarrow> tunnel \<Rightarrow> bool" where
    settled_start: "settled_run [] no_tunnels"
  | settled_next:
      "settled_run es t \<Longrightarrow> possible t e \<Longrightarrow> (\<And>a rules limit. e = Connect a rules limit \<Longrightarrow> open_count a t = 0) \<Longrightarrow>
       settled_run (es @ [e]) (after e t)"

lemma settled_within: "settled_run es t \<Longrightarrow> within_limit t"
proof (induction rule: settled_run.induct)
  case settled_start
  show ?case by (simp add: within_limit_def no_tunnels_def is_online_def)
next
  case (settled_next es t e)
  note t = settled_next.IH
  have calm: "within_limit (after e t)" if "calm (happen e)" using calm_within [OF that t] by (simp add: after_def)
  have count: "keeps (\<lambda>t. books t = b) (modifyc (upd_counted h (\<lambda>c. c\<lparr>co_sent := f c\<rparr>)))"
    "keeps (\<lambda>t. books t = b) (modifyc (upd_counted h (\<lambda>c. c\<lparr>co_recv := f c\<rparr>)))" for b h f
    by (intro calm_modifyc books_upd_counted; simp)+
  show ?case
  proof (cases e)
    case (Connect a rules limit)
    with within_limit_connect [OF t] settled_next.hyps show ?thesis by (simp add: after_def)
  next
    case (Message k data)
    then show ?thesis by (intro calm) (simp add: calming)
  next
    case (Broken k)
    then show ?thesis by (intro calm) (simp add: break_transport_def, intro allI keeps_structure calming)
  next
    case (Ended a k)
    have "calm (session_close k)" unfolding session_close_def by (intro allI calming)
    from calm_within [OF this within_limit_unregister [OF t]] Ended show ?thesis
      by (simp add: after_def end_connection_def thenc_apply unregister_def)
  next
    case (Dial denied a host port)
    with within_limit_dial [OF t] show ?thesis by (simp add: after_def)
  next
    case (Dialled n aid)
    with within_limit_dialled [OF t, of n aid] settled_next.hyps show ?thesis
      by (cases "manager_dialled n aid t") (auto simp: after_def bindc_apply split: sum.splits)
  next
    case (Write h data)
    then show ?thesis by (intro calm) (simp add: counted_write_def, intro allI keeps_structure calming count)
  next
    case (Read h)
    then show ?thesis by (intro calm) (simp add: counted_read_def, intro allI keeps_structure calming count)
  next
    case (Close h reason)
    with within_limit_close [OF t] settled_next.hyps show ?thesis by (simp add: after_def)
  qed
qed

text \<open>C25: The limit holds. As long as agents connect again only after the streams of their earlier connection are
  closed, the count of a connected agent is at every moment the number of its open streams and waiting dials,
  whatever failed, timed out or was closed twice in between, and it is never above the limit of the agent.\<close>

theorem streams_within_limit:
  assumes "settled_run es t" and "is_online t a"
  shows "active_stream_count t a = int (open_count a t) \<and>
    (open_count a t = 0 \<or> int (open_count a t) \<le> max_concurrent t a)"
  using within_limitD [OF settled_within [OF assms(1)] assms(2)] by simp

section \<open>Examples\<close>

fun all_possible :: "tunnel \<Rightarrow> tunnel_event list \<Rightarrow> bool" where
  "all_possible t [] = True"
| "all_possible t (e # es) = (possible t e \<and> all_possible (after e t) es)"

lemma tunnel_run_further: "tunnel_run es t \<Longrightarrow> all_possible t es' \<Longrightarrow> tunnel_run (es @ es') (fold after es' t)"
proof (induction es' arbitrary: es t)
  case Nil
  then show ?case by simp
next
  case (Cons e es')
  then have "tunnel_run (es @ [e]) (after e t)" by (auto intro: tunnel_next)
  from Cons.IH [OF this] Cons.prems(2) show ?case by simp
qed

lemma tunnel_runI: "all_possible no_tunnels es \<Longrightarrow> tunnel_run es (fold after es no_tunnels)"
  using tunnel_run_further [OF tunnel_start] by simp

definition web_rule :: rule where
  "web_rule = \<lparr>rule_network = None, rule_hostname = Some ''web'', rule_port_lo = 443, rule_port_hi = 443\<rparr>"

text \<open>Two agents connect with a limit of one stream; a stream is dialled through the first, and one through the
  second waits.\<close>

definition example_events :: "tunnel_event list" where
  "example_events =
     [Connect ''a'' [web_rule] 1, Connect ''b'' [web_rule] 1, Dial None ''a'' ''web'' 443, Dial None ''b'' ''WEB'' 443,
      Message 0 [CHR 0x00, CHR 0x00, CHR 0x00, CHR 0x01, CHR 0x02], Dialled 0 None]"

definition example_tunnel :: tunnel where
  "example_tunnel =
     \<lparr>tn_streams = [\<lparr>sm_session = 0, sm_id = 1, sm_queue = [], sm_open = Opened, sm_closed = False\<rparr>,
        \<lparr>sm_session = 1, sm_id = 1, sm_queue = [], sm_open = Opening, sm_closed = False\<rparr>],
      tn_sessions =
        [\<lparr>ss_streams = [(1, 0)], ss_next_id = 2, ss_closed = False, ss_down = False,
           ss_sent = [[CHR 0x00, CHR 0x00, CHR 0x00, CHR 0x01, CHR 0x01] @ ''web:443'']\<rparr>,
         \<lparr>ss_streams = [(1, 1)], ss_next_id = 2, ss_closed = False, ss_down = False,
           ss_sent = [[CHR 0x00, CHR 0x00, CHR 0x00, CHR 0x01, CHR 0x01] @ ''WEB:443'']\<rparr>],
      tn_counted = [\<lparr>co_stream = 0, co_agent = ''a'', co_counted = True, co_audit = None, co_sent = 0, co_recv = 0\<rparr>],
      tn_pending = [\<lparr>pd_stream = 1, pd_agent = ''b'', pd_host = ''WEB'', pd_port = 443\<rparr>],
      mg_sessions = [(''a'', 0, [web_rule]), (''b'', 1, [web_rule])],
      mg_max = [(''a'', 1), (''b'', 1)], mg_active = [(''a'', 1), (''b'', 1)], tn_audit = []\<rparr>"

lemma example_events_run: "fold after example_events no_tunnels = example_tunnel"
  by code_simp

lemma example_run: "tunnel_run example_events example_tunnel"
proof -
  have "all_possible no_tunnels example_events" by code_simp
  from tunnel_runI [OF this] show ?thesis by (simp only: example_events_run)
qed

theorem opens_only_allowed_witness:
  "0 < length (grants example_events) \<and>
   (\<exists>host port. ''web:443'' = open_payload host port \<and> is_allowed (grants example_events ! 0) host port)"
proof -
  have "decode ([CHR 0x00, CHR 0x00, CHR 0x00, CHR 0x01, CHR 0x01] @ ''web:443'') =
      Inr \<lparr>fr_stream_id = 1, fr_type = frame_OPEN, fr_payload = ''web:443''\<rparr>" by code_simp
  from opens_only_allowed [OF example_run, of 0, OF _ _ this] show ?thesis
    by (simp add: example_tunnel_def)
qed

theorem stream_ids_bounded_witness:
  "unat (ids_of example_tunnel 1 ! 0) = 1 \<and> 0 \<notin> set (ids_of example_tunnel 1) \<and> distinct (ids_of example_tunnel 1)"
proof -
  have "1 < length (tn_sessions example_tunnel)" "length (ids_of example_tunnel 1) = 1"
    by (simp_all add: example_tunnel_def ids_of_def)
  with stream_ids_bounded [OF example_run, of 1] show ?thesis by simp
qed

theorem sessions_isolated_witness:
  "tn_streams (after (Broken 0) example_tunnel) ! 1 = tn_streams example_tunnel ! 1 \<and>
   tn_streams (after (Broken 0) example_tunnel) ! 0 \<noteq> tn_streams example_tunnel ! 0"
proof -
  have "tn_streams (after (Broken 0) example_tunnel) ! 1 = tn_streams example_tunnel ! 1"
    by (rule sessions_isolated [OF example_run, where k = 0]) (simp_all add: example_tunnel_def)
  moreover have "tn_streams (after (Broken 0) example_tunnel) ! 0 \<noteq> tn_streams example_tunnel ! 0" by code_simp
  ultimately show ?thesis ..
qed

lemma settled_run_further:
  "settled_run es t \<Longrightarrow> all_possible t es' \<Longrightarrow> \<forall>e\<in>set es'. \<forall>a rules limit. e \<noteq> Connect a rules limit \<Longrightarrow>
   settled_run (es @ es') (fold after es' t)"
proof (induction es' arbitrary: es t)
  case Nil
  then show ?case by simp
next
  case (Cons e es')
  then have "settled_run (es @ [e]) (after e t)" by (auto intro: settled_next)
  from Cons.IH [OF this] Cons.prems show ?case by simp
qed

lemma example_settled: "settled_run example_events example_tunnel"
proof -
  let ?t = "after (Connect ''b'' [web_rule] 1) (after (Connect ''a'' [web_rule] 1) no_tunnels)"
  have "open_count ''b'' (after (Connect ''a'' [web_rule] 1) no_tunnels) = 0" "open_count ''a'' no_tunnels = 0"
    by code_simp+
  then have "settled_run ([] @ [Connect ''a'' [web_rule] 1]) (after (Connect ''a'' [web_rule] 1) no_tunnels)"
    by (intro settled_next settled_start) auto
  then have "settled_run (([] @ [Connect ''a'' [web_rule] 1]) @ [Connect ''b'' [web_rule] 1]) ?t"
    by (rule settled_next) (use \<open>open_count ''b'' _ = 0\<close> in auto)
  moreover have "all_possible ?t (drop 2 example_events)" by code_simp
  ultimately have "settled_run ((([] @ [Connect ''a'' [web_rule] 1]) @ [Connect ''b'' [web_rule] 1]) @ drop 2 example_events)
      (fold after (drop 2 example_events) ?t)"
    by (rule settled_run_further) (simp add: example_events_def)
  moreover have "fold after (drop 2 example_events) ?t = fold after example_events no_tunnels"
    by (simp add: example_events_def)
  ultimately show ?thesis by (simp add: example_events_run) (simp add: example_events_def)
qed

theorem streams_within_limit_witness:
  "is_online example_tunnel ''a'' \<and> active_stream_count example_tunnel ''a'' = 1 \<and> open_count ''a'' example_tunnel = 1 \<and>
   int (open_count ''a'' example_tunnel) \<le> max_concurrent example_tunnel ''a'' \<and>
   fst (happen (Dial None ''a'' ''web'' 443) example_tunnel) = Inl (Exn ConcurrencyLimitExceeded ''concurrency limit'')"
proof -
  have "is_online example_tunnel ''a''" "open_count ''a'' example_tunnel = 1"
    "fst (happen (Dial None ''a'' ''web'' 443) example_tunnel) = Inl (Exn ConcurrencyLimitExceeded ''concurrency limit'')"
    by code_simp+
  with streams_within_limit [OF example_settled, of "''a''"] show ?thesis by simp
qed

text \<open>When an agent connects again while a stream is open, its count starts anew, and a second stream is opened
  beyond its limit of one.\<close>

lemma reconnect_exceeds_limit:
  "let t = fold after [Connect ''a'' [web_rule] 1, Dial None ''a'' ''web'' 443] example_tunnel in
   is_online t ''a'' \<and> max_concurrent t ''a'' = 1 \<and> active_stream_count t ''a'' = 1 \<and> open_count ''a'' t = 2"
  by code_simp

text \<open>And when the relay notices the end of the earlier connection after the agent has connected again, it takes the
  registration of the new one away: the agent counts as offline although its session is open.\<close>

lemma late_end_unregisters:
  "let t = fold after [Connect ''a'' [web_rule] 1, Ended ''a'' 0] example_tunnel in
   \<not> is_online t ''a'' \<and> \<not> ss_closed (tn_sessions t ! 2)"
  by code_simp

text \<open>A dial whose frame cannot be sent is not taken from the table of its session.\<close>

lemma failed_send_stays:
  "let t = example_tunnel\<lparr>tn_sessions := (tn_sessions example_tunnel)[1 := (new_session\<lparr>ss_down := True\<rparr>)]\<rparr>;
       u = snd (session_dial 1 ''web'' 443 t)
   in fst (session_dial 1 ''web'' 443 t) = Inl (Exn TransportClosed ''transport closed'') \<and>
      map fst (ss_streams (tn_sessions u ! 1)) = [1]"
  by code_simp

end
