(* ===== verification/TunnelSocks.thy ===== *)
theory TunnelSocks
  imports TunnelManager
begin

text \<open>
  The SOCKS5 front of the tunnel (\<open>tunnel/socks.py\<close>): the bytes of a client become a dial through the agent that
  its user name names. A socket holds the bytes that the client has sent and that are not yet read, up to where it
  stops sending, and the bytes that were written to it.
\<close>

section \<open>Sockets\<close>

record socket =
  so_in :: string
  so_out :: string
  so_closed :: bool

type_synonym 'a socket_prog = "(socket, 'a) comp"

definition read_exact :: "nat \<Rightarrow> string socket_prog" where
  "read_exact n =
     bindc (gets so_in) (\<lambda>s.
       if length s < n then raise (Exn IncompleteReadError ''incomplete read'')
       else thenc (modifyc (\<lambda>k. k\<lparr>so_in := drop n s\<rparr>)) (ret (take n s)))"

definition write_bytes :: "int list \<Rightarrow> unit socket_prog" where
  "write_bytes bs = modifyc (\<lambda>k. k\<lparr>so_out := so_out k @ map byte bs\<rparr>)"

definition close_socket :: "unit socket_prog" where
  "close_socket = modifyc (\<lambda>k. k\<lparr>so_closed := True\<rparr>)"

definition socks_reply :: "int \<Rightarrow> unit socket_prog" where
  "socks_reply rep = write_bytes [5, rep, 0, 1, 0, 0, 0, 0, 0, 0]"

section \<open>Hosts\<close>

text \<open>\<open>str(IPv6Address(...))\<close>: eight groups in hexadecimal, the first longest run of more than one zero group
  as \<open>::\<close>.\<close>

fun hex_text :: "nat \<Rightarrow> string" where
  "hex_text n = (if n < 16 then [''0123456789abcdef'' ! n] else hex_text (n div 16) @ [''0123456789abcdef'' ! (n mod 16)])"

fun hextets_of :: "string \<Rightarrow> nat list" where
  "hextets_of (a # b # s) = (of_char a * 256 + of_char b) # hextets_of s"
| "hextets_of _ = []"

fun join_with :: "char \<Rightarrow> string list \<Rightarrow> string" where
  "join_with c [] = []"
| "join_with c [s] = s"
| "join_with c (s # ss) = s @ c # join_with c ss"

definition zero_run :: "nat list \<Rightarrow> nat \<Rightarrow> nat" where
  "zero_run ns i = length (takeWhile (\<lambda>n. n = 0) (drop i ns))"

definition longest_zero_run :: "nat list \<Rightarrow> nat \<times> nat" where
  "longest_zero_run ns =
     foldl (\<lambda>(i, m) j. if m < zero_run ns j then (j, zero_run ns j) else (i, m)) (0, 0) [0..<length ns]"

definition show_ipv6 :: "nat list \<Rightarrow> string" where
  "show_ipv6 ns =
     (case longest_zero_run ns of
        (i, m) \<Rightarrow>
          if m \<le> 1 then join_with (CHR '':'') (map hex_text ns)
          else join_with (CHR '':'') (map hex_text (take i ns)) @ ''::'' @ join_with (CHR '':'') (map hex_text (drop (i + m) ns)))"

definition byte_at :: "string \<Rightarrow> nat \<Rightarrow> nat" where
  "byte_at s i = of_char (s ! i)"

definition read_host :: "nat \<Rightarrow> string option socket_prog" where
  "read_host atyp =
     (if atyp = 1 then
        bindc (read_exact 4) (\<lambda>d. ret (Some (show_ipv4 (byte_at d 0) (byte_at d 1) (byte_at d 2) (byte_at d 3))))
      else if atyp = 4 then bindc (read_exact 16) (\<lambda>d. ret (Some (show_ipv6 (hextets_of d))))
      else if atyp = 3 then
        bindc (read_exact 1) (\<lambda>l. bindc (read_exact (byte_at l 0)) (\<lambda>d. ret (Some (decode_replace d))))
      else ret None)"

section \<open>A connection\<close>

text \<open>\<open>handle_socks_connection\<close> until it dials: the greeting, the login and the request. \<open>None\<close>: the client was sent
  away.\<close>

definition socks_greeting :: "bool socket_prog" where
  "socks_greeting =
     bindc (read_exact 2) (\<lambda>h.
       if byte_at h 0 \<noteq> 5 then thenc close_socket (ret False)
       else bindc (read_exact (byte_at h 1)) (\<lambda>methods.
         if byte 2 \<notin> set methods then thenc (write_bytes [5, 255]) (thenc close_socket (ret False))
         else thenc (write_bytes [5, 2]) (ret True)))"

definition socks_login :: "string option \<Rightarrow> string option socket_prog" where
  "socks_login token =
     bindc (read_exact 1) (\<lambda>_.
     bindc (read_exact 1) (\<lambda>ul.
     bindc (read_exact (byte_at ul 0)) (\<lambda>name.
     bindc (read_exact 1) (\<lambda>pl.
     bindc (read_exact (byte_at pl 0)) (\<lambda>pw.
       if token \<noteq> None \<and> token \<noteq> Some (decode_replace pw)
       then thenc (write_bytes [1, 1]) (thenc close_socket (ret None))
       else thenc (write_bytes [1, 0]) (ret (Some (decode_replace name))))))))"

definition socks_request :: "(string \<times> int) option socket_prog" where
  "socks_request =
     bindc (read_exact 4) (\<lambda>h.
       if byte_at h 0 \<noteq> 5 then thenc close_socket (ret None)
       else if byte_at h 1 \<noteq> 1 then thenc (socks_reply 7) (thenc close_socket (ret None))
       else bindc (read_host (byte_at h 3)) (\<lambda>host.
         case host of
           None \<Rightarrow> thenc (socks_reply 8) (thenc close_socket (ret None))
         | Some host \<Rightarrow> bindc (read_exact 2) (\<lambda>p. ret (Some (host, big_endian p)))))"

definition socks_accept :: "string option \<Rightarrow> (string \<times> string \<times> int) option socket_prog" where
  "socks_accept token =
     bindc socks_greeting (\<lambda>ok.
       if \<not> ok then ret None
       else bindc (socks_login token) (\<lambda>user.
         case user of
           None \<Rightarrow> ret None
         | Some user \<Rightarrow>
             bindc socks_request (\<lambda>dest.
               case dest of None \<Rightarrow> ret None | Some (host, port) \<Rightarrow> ret (Some (user, host, port)))))"

text \<open>What the client is told about its dial; a stream is relayed then.\<close>

definition reply_code :: "exn \<Rightarrow> int" where
  "reply_code e =
     (case exn_kind e of
        DestinationDenied \<Rightarrow> 2
      | TunnelUnavailable \<Rightarrow> 3
      | ConcurrencyLimitExceeded \<Rightarrow> 1
      | DialError \<Rightarrow> 5
      | _ \<Rightarrow> 1)"

definition socks_answer :: "exn + nat \<Rightarrow> nat option socket_prog" where
  "socks_answer r =
     (case r of
        Inl e \<Rightarrow> thenc (socks_reply (reply_code e)) (thenc close_socket (ret None))
      | Inr h \<Rightarrow> thenc (socks_reply 0) (ret (Some h)))"

text \<open>The whole handler, for what the manager's dial comes to. A client that stops in the middle is closed.\<close>

definition handle_socks_connection ::
  "string option \<Rightarrow> (string \<Rightarrow> string \<Rightarrow> int \<Rightarrow> exn + nat) \<Rightarrow> nat option socket_prog" where
  "handle_socks_connection token dial =
     catchc
       (bindc (socks_accept token) (\<lambda>r.
          case r of
            None \<Rightarrow> ret None
          | Some (user, host, port) \<Rightarrow> socks_answer (dial user host port)))
       (\<lambda>e. if exn_kind e = IncompleteReadError then thenc close_socket (ret None) else raise e)"

section \<open>What clients are served\<close>

text \<open>The messages of RFC 1928 and RFC 1929. The version of the login and the reserved byte are not read.\<close>

datatype socks_dest = Dest4 nat nat nat nat | Dest6 string | DestName string

fun dest_ok :: "socks_dest \<Rightarrow> bool" where
  "dest_ok (Dest4 a b c d) \<longleftrightarrow> a < 256 \<and> b < 256 \<and> c < 256 \<and> d < 256"
| "dest_ok (Dest6 s) \<longleftrightarrow> length s = 16"
| "dest_ok (DestName s) \<longleftrightarrow> length s < 256"

fun dest_bytes :: "socks_dest \<Rightarrow> string" where
  "dest_bytes (Dest4 a b c d) = map byte [1, int a, int b, int c, int d]"
| "dest_bytes (Dest6 s) = byte 4 # s"
| "dest_bytes (DestName s) = byte 3 # byte (int (length s)) # s"

fun dest_host :: "socks_dest \<Rightarrow> string" where
  "dest_host (Dest4 a b c d) = show_ipv4 a b c d"
| "dest_host (Dest6 s) = show_ipv6 (hextets_of s)"
| "dest_host (DestName s) = decode_replace s"

definition hello_bytes :: "string \<Rightarrow> string" where
  "hello_bytes methods = byte 5 # byte (int (length methods)) # methods"

definition login_bytes :: "char \<Rightarrow> string \<Rightarrow> string \<Rightarrow> string" where
  "login_bytes v name pw = v # byte (int (length name)) # name @ byte (int (length pw)) # pw"

definition request_bytes :: "char \<Rightarrow> socks_dest \<Rightarrow> char \<Rightarrow> char \<Rightarrow> string" where
  "request_bytes rsv dest p q = byte 5 # byte 1 # rsv # dest_bytes dest @ [p, q]"

named_theorems outcomes \<open>when a computation ends with a value in a state\<close>

lemma ret_outcome [outcomes]: "ret x k = (Inr y, k') \<longleftrightarrow> y = x \<and> k' = k"
  by (auto simp: ret_def)

lemma bindc_outcome [outcomes]: "bindc m f k = (Inr y, k') \<longleftrightarrow> (\<exists>x l. m k = (Inr x, l) \<and> f x l = (Inr y, k'))"
  by (auto simp: bindc_def split: prod.splits sum.splits)

lemma thenc_outcome [outcomes]: "thenc m n k = (Inr y, k') \<longleftrightarrow> (\<exists>x l. m k = (Inr x, l) \<and> n l = (Inr y, k'))"
  by (simp add: thenc_def bindc_outcome)

lemma read_exact_outcome [outcomes]:
  "read_exact n k = (Inr d, k') \<longleftrightarrow> (\<exists>r. so_in k = d @ r \<and> length d = n \<and> k' = k\<lparr>so_in := r\<rparr>)"
proof
  assume "read_exact n k = (Inr d, k')"
  then have "n \<le> length (so_in k)" "d = take n (so_in k)" "k' = k\<lparr>so_in := drop n (so_in k)\<rparr>"
    by (auto simp: read_exact_def bindc_def thenc_def gets_def modifyc_def raise_def ret_def split: if_splits)
  then show "\<exists>r. so_in k = d @ r \<and> length d = n \<and> k' = k\<lparr>so_in := r\<rparr>"
    by (intro exI [of _ "drop n (so_in k)"]) simp
next
  assume "\<exists>r. so_in k = d @ r \<and> length d = n \<and> k' = k\<lparr>so_in := r\<rparr>"
  then show "read_exact n k = (Inr d, k')"
    by (auto simp: read_exact_def bindc_def thenc_def gets_def modifyc_def ret_def)
qed

lemma write_bytes_outcome [outcomes]: "write_bytes bs k = (Inr u, k') \<longleftrightarrow> k' = k\<lparr>so_out := so_out k @ map byte bs\<rparr>"
  by (auto simp: write_bytes_def modifyc_def)

lemma length_exact:
  "length s = 1 \<longleftrightarrow> (\<exists>a. s = [a])" "length s = 2 \<longleftrightarrow> (\<exists>a b. s = [a, b])"
  "length s = 4 \<longleftrightarrow> (\<exists>a b c d. s = [a, b, c, d])"
  by (auto simp: length_Suc_conv numeral_eq_Suc)

lemma of_char_is:
  assumes "n < 256"
  shows "(of_char a :: nat) = n \<longleftrightarrow> a = byte (int n)"
proof
  assume "of_char a = n"
  then have "int n = of_char a" by (metis of_nat_of_char)
  then show "a = byte (int n)" by (simp add: byte_of_char)
next
  assume "a = byte (int n)"
  then have "(of_char a :: int) = int n" using assms by (simp add: of_char_byte)
  then show "of_char a = n" by (metis of_nat_eq_iff of_nat_of_char)
qed

lemma of_char_length: "(of_char a :: nat) = length s \<longleftrightarrow> length s < 256 \<and> a = byte (int (length s))"
proof (cases "length s < 256")
  case True
  then show ?thesis by (simp add: of_char_is)
next
  case False
  then have "(of_char a :: nat) \<noteq> length s" using of_char_less [of a] by linarith
  with False show ?thesis by simp
qed

lemma read_exact_apply:
  "so_in k = d @ r \<Longrightarrow> n = length d \<Longrightarrow> read_exact n k = (Inr d, k\<lparr>so_in := r\<rparr>)"
  by (simp add: read_exact_outcome)

lemma read_few_apply:
  "so_in k = a # r \<Longrightarrow> read_exact (Suc 0) k = (Inr [a], k\<lparr>so_in := r\<rparr>)"
  "so_in k = a # b # r \<Longrightarrow> read_exact 2 k = (Inr [a, b], k\<lparr>so_in := r\<rparr>)"
  "so_in k = a # b # c # d # r \<Longrightarrow> read_exact 4 k = (Inr [a, b, c, d], k\<lparr>so_in := r\<rparr>)"
  by (rule read_exact_apply; simp)+

lemma byte_at_byte: "length s < 256 \<Longrightarrow> byte_at (a # byte (int (length s)) # t) (Suc 0) = length s"
    "length s < 256 \<Longrightarrow> byte_at (byte (int (length s)) # t) 0 = length s" "byte_at (byte 5 # t) 0 = 5"
  by (simp_all add: byte_at_def of_char_length of_char_is)

lemma socks_greeting_outcome:
  "socks_greeting k = (Inr True, k') \<longleftrightarrow>
     (\<exists>methods r. so_in k = hello_bytes methods @ r \<and> length methods < 256 \<and> byte 2 \<in> set methods \<and>
        k' = k\<lparr>so_in := r, so_out := so_out k @ map byte [5, 2]\<rparr>)"
proof
  assume "socks_greeting k = (Inr True, k')"
  then obtain h methods r where h: "length h = 2" "byte_at h 0 = 5" "so_in k = h @ methods @ r"
      "length methods = byte_at h 1" "byte 2 \<in> set methods"
      "k' = k\<lparr>so_in := r, so_out := so_out k @ map byte [5, 2]\<rparr>"
    by (auto simp: socks_greeting_def outcomes split: if_splits)
  from h(1) obtain a b where ab: "h = [a, b]" by (auto simp: length_exact)
  with h(2,4) have "a = byte 5" "length methods < 256 \<and> b = byte (int (length methods))"
    using of_char_length [of b methods] of_char_is [of 5 a] by (simp_all add: byte_at_def)
  with h(3,5,6) ab show "\<exists>methods r. so_in k = hello_bytes methods @ r \<and> length methods < 256 \<and> byte 2 \<in> set methods \<and>
      k' = k\<lparr>so_in := r, so_out := so_out k @ map byte [5, 2]\<rparr>"
    by (intro exI [of _ methods] exI [of _ r]) (simp add: hello_bytes_def)
next
  assume "\<exists>methods r. so_in k = hello_bytes methods @ r \<and> length methods < 256 \<and> byte 2 \<in> set methods \<and>
      k' = k\<lparr>so_in := r, so_out := so_out k @ map byte [5, 2]\<rparr>"
  then obtain methods r where m: "so_in k = byte 5 # byte (int (length methods)) # methods @ r" "length methods < 256"
      "byte 2 \<in> set methods" "k' = k\<lparr>so_in := r, so_out := so_out k @ map byte [5, 2]\<rparr>"
    by (auto simp: hello_bytes_def)
  have "read_exact (length methods) (k\<lparr>so_in := methods @ r\<rparr>) = (Inr methods, k\<lparr>so_in := r\<rparr>)"
    by (simp add: read_exact_apply)
  with m show "socks_greeting k = (Inr True, k')"
    by (simp add: socks_greeting_def bindc_apply thenc_apply write_bytes_def read_few_apply byte_at_byte)
qed

lemma socks_login_outcome:
  "socks_login token k = (Inr (Some user), k') \<longleftrightarrow>
     (\<exists>v name pw r. so_in k = login_bytes v name pw @ r \<and> length name < 256 \<and> length pw < 256 \<and>
        (token = None \<or> token = Some (decode_replace pw)) \<and> user = decode_replace name \<and>
        k' = k\<lparr>so_in := r, so_out := so_out k @ map byte [1, 0]\<rparr>)"
proof
  assume "socks_login token k = (Inr (Some user), k')"
  then obtain v ul name pl pw r where h: "length v = 1" "length ul = 1" "length pl = 1"
      "so_in k = v @ ul @ name @ pl @ pw @ r" "length name = byte_at ul 0" "length pw = byte_at pl 0"
      "token = None \<or> token = Some (decode_replace pw)" "user = decode_replace name"
      "k' = k\<lparr>so_in := r, so_out := so_out k @ map byte [1, 0]\<rparr>"
    by (auto simp: socks_login_def outcomes split: if_splits)
  from h(1-3) obtain v' b c where abc: "v = [v']" "ul = [b]" "pl = [c]" by (auto simp only: length_exact)
  with h(5,6) have "length name < 256 \<and> b = byte (int (length name))" "length pw < 256 \<and> c = byte (int (length pw))"
    using of_char_length [of b name] of_char_length [of c pw] by (simp_all add: byte_at_def)
  with h(4,7-9) abc show "\<exists>v name pw r. so_in k = login_bytes v name pw @ r \<and> length name < 256 \<and> length pw < 256 \<and>
        (token = None \<or> token = Some (decode_replace pw)) \<and> user = decode_replace name \<and>
        k' = k\<lparr>so_in := r, so_out := so_out k @ map byte [1, 0]\<rparr>"
    by (intro exI [of _ v'] exI [of _ name] exI [of _ pw] exI [of _ r]) (simp add: login_bytes_def)
next
  assume "\<exists>v name pw r. so_in k = login_bytes v name pw @ r \<and> length name < 256 \<and> length pw < 256 \<and>
        (token = None \<or> token = Some (decode_replace pw)) \<and> user = decode_replace name \<and>
        k' = k\<lparr>so_in := r, so_out := so_out k @ map byte [1, 0]\<rparr>"
  then obtain v name pw r where m:
      "so_in k = v # byte (int (length name)) # name @ byte (int (length pw)) # pw @ r" "length name < 256" "length pw < 256"
      "token = None \<or> token = Some (decode_replace pw)" "user = decode_replace name"
      "k' = k\<lparr>so_in := r, so_out := so_out k @ map byte [1, 0]\<rparr>"
    by (auto simp: login_bytes_def)
  have "read_exact (length name) (k\<lparr>so_in := name @ byte (int (length pw)) # pw @ r\<rparr>) =
      (Inr name, k\<lparr>so_in := byte (int (length pw)) # pw @ r\<rparr>)"
    "read_exact (length pw) (k\<lparr>so_in := pw @ r\<rparr>) = (Inr pw, k\<lparr>so_in := r\<rparr>)"
    by (simp_all add: read_exact_apply)
  with m show "socks_login token k = (Inr (Some user), k')"
    by (auto simp: socks_login_def bindc_apply thenc_apply write_bytes_def read_few_apply byte_at_byte)
qed

lemma byte_int_of_char: "byte (int (of_char a)) = a"
  using of_char_is [of "of_char a" a] of_char_less [of a] by simp

lemma of_char_few: "of_char (byte 1) = (1 :: nat)" "of_char (byte 3) = (3 :: nat)" "of_char (byte 4) = (4 :: nat)"
    "of_char (byte 5) = (5 :: nat)"
  by (simp_all add: of_char_is)

lemma of_char_byte_nat: "n < 256 \<Longrightarrow> of_char (byte (int n)) = n"
  by (simp add: of_char_is)

lemma read_host_outcome:
  "read_host (of_char t) k = (Inr (Some host), k') \<longleftrightarrow>
     (\<exists>dest r. t # so_in k = dest_bytes dest @ r \<and> dest_ok dest \<and> host = dest_host dest \<and> k' = k\<lparr>so_in := r\<rparr>)"
proof
  assume run: "read_host (of_char t) k = (Inr (Some host), k')"
  consider "t = byte 1" | "t = byte 4" | "t = byte 3" | "(of_char t :: nat) \<notin> {1, 3, 4}"
    using of_char_is [of 1 t] of_char_is [of 4 t] of_char_is [of 3 t] by auto
  then show "\<exists>dest r. t # so_in k = dest_bytes dest @ r \<and> dest_ok dest \<and> host = dest_host dest \<and> k' = k\<lparr>so_in := r\<rparr>"
  proof cases
    case 1
    with run obtain d r where d: "length d = 4" "so_in k = d @ r" "k' = k\<lparr>so_in := r\<rparr>"
        "host = show_ipv4 (byte_at d 0) (byte_at d 1) (byte_at d 2) (byte_at d 3)"
      by (auto simp: read_host_def outcomes of_char_few)
    then obtain x y z u where "d = [x, y, z, u]" by (auto simp: length_exact)
    with d 1 show ?thesis
      by (intro exI [of _ "Dest4 (of_char x) (of_char y) (of_char z) (of_char u)"] exI [of _ r])
        (simp add: byte_int_of_char of_char_less byte_at_def)
  next
    case 2
    with run obtain d r where "length d = 16" "so_in k = d @ r" "k' = k\<lparr>so_in := r\<rparr>" "host = show_ipv6 (hextets_of d)"
      by (auto simp: read_host_def outcomes of_char_few)
    with 2 show ?thesis by (intro exI [of _ "Dest6 d"] exI [of _ r]) simp
  next
    case 3
    with run obtain l d r where d: "length l = 1" "so_in k = l @ d @ r" "length d = byte_at l 0"
        "k' = k\<lparr>so_in := r\<rparr>" "host = decode_replace d"
      by (auto simp: read_host_def outcomes of_char_few)
    from d(1) obtain b where b: "l = [b]" by (auto simp only: length_exact)
    with d(3) have "length d < 256 \<and> b = byte (int (length d))" using of_char_length [of b d] by (simp add: byte_at_def)
    with d(2,4,5) b 3 show ?thesis by (intro exI [of _ "DestName d"] exI [of _ r]) simp
  next
    case 4
    with run show ?thesis by (simp add: read_host_def outcomes)
  qed
next
  assume "\<exists>dest r. t # so_in k = dest_bytes dest @ r \<and> dest_ok dest \<and> host = dest_host dest \<and> k' = k\<lparr>so_in := r\<rparr>"
  then obtain dest r where m: "t # so_in k = dest_bytes dest @ r" "dest_ok dest" "host = dest_host dest" "k' = k\<lparr>so_in := r\<rparr>"
    by blast
  show "read_host (of_char t) k = (Inr (Some host), k')"
  proof (cases dest)
    case (Dest4 a b c d)
    with m(1) have "read_exact 4 k = (Inr [byte (int a), byte (int b), byte (int c), byte (int d)], k\<lparr>so_in := r\<rparr>)"
      by (simp add: read_few_apply)
    with m Dest4 show ?thesis
      by (simp add: read_host_def bindc_apply byte_at_def of_char_few of_char_byte_nat)
  next
    case (Dest6 d)
    with m have "read_exact 16 k = (Inr d, k\<lparr>so_in := r\<rparr>)" by (simp add: read_exact_apply)
    with m Dest6 show ?thesis by (simp add: read_host_def bindc_apply of_char_few)
  next
    case (DestName d)
    have "read_exact (length d) (k\<lparr>so_in := d @ r\<rparr>) = (Inr d, k\<lparr>so_in := r\<rparr>)" by (simp add: read_exact_apply)
    with m DestName show ?thesis
      by (auto simp: read_host_def bindc_apply of_char_few read_few_apply byte_at_byte)
  qed
qed

lemma socks_request_outcome:
  "socks_request k = (Inr (Some (host, port)), k') \<longleftrightarrow>
     (\<exists>rsv dest p q r. so_in k = request_bytes rsv dest p q @ r \<and> dest_ok dest \<and> host = dest_host dest \<and>
        port = big_endian [p, q] \<and> k' = k\<lparr>so_in := r\<rparr>)"
proof
  assume run: "socks_request k = (Inr (Some (host, port)), k')"
  then obtain h l r where h: "read_exact 4 k = (Inr h, l)" "byte_at h 0 = 5" "byte_at h 1 = 1"
      and tail: "bindc (read_host (byte_at h 3)) (\<lambda>host.
         case host of
           None \<Rightarrow> thenc (socks_reply 8) (thenc close_socket (ret None))
         | Some host \<Rightarrow> bindc (read_exact 2) (\<lambda>p. ret (Some (host, big_endian p)))) l = (Inr (Some (host, port)), k')"
    unfolding socks_request_def bindc_outcome by (auto simp: outcomes split: if_splits)
  from h(1) obtain r where r: "so_in k = h @ r" "length h = 4" "l = k\<lparr>so_in := r\<rparr>" by (auto simp: outcomes)
  then obtain a b c t where abc: "h = [a, b, c, t]" by (auto simp: length_exact)
  with h(2,3) have ab: "a = byte 5" "b = byte 1" by (simp_all add: byte_at_def of_char_is)
  from tail obtain x u where x: "read_host (of_char t) l = (Inr x, u)" and rest: "(case x of
           None \<Rightarrow> thenc (socks_reply 8) (thenc close_socket (ret None))
         | Some host \<Rightarrow> bindc (read_exact 2) (\<lambda>p. ret (Some (host, big_endian p)))) u = (Inr (Some (host, port)), k')"
    unfolding bindc_outcome by (auto simp: abc byte_at_def)
  from rest obtain p where u: "x = Some host" "read_exact 2 u = (Inr p, k')" "port = big_endian p"
    by (cases x) (auto simp: bindc_outcome thenc_outcome ret_outcome)
  note u = x [unfolded u(1)] u(2,3)
  from u(1) obtain dest s where dest: "t # so_in l = dest_bytes dest @ s" "dest_ok dest" "host = dest_host dest"
      "u = l\<lparr>so_in := s\<rparr>"
    unfolding read_host_outcome by blast
  from u(2) dest(4) obtain s' where s': "s = p @ s'" "length p = 2" "k' = u\<lparr>so_in := s'\<rparr>" by (auto simp: outcomes)
  then obtain p0 p1 where p: "p = [p0, p1]" by (auto simp: length_exact)
  have "so_in k = request_bytes c dest p0 p1 @ s'"
    using r(1,3) abc ab dest(1) s'(1) p by (simp add: request_bytes_def)
  moreover have "k' = k\<lparr>so_in := s'\<rparr>" using s'(3) dest(4) r(3) by simp
  ultimately show "\<exists>rsv dest p q r. so_in k = request_bytes rsv dest p q @ r \<and> dest_ok dest \<and> host = dest_host dest \<and>
        port = big_endian [p, q] \<and> k' = k\<lparr>so_in := r\<rparr>"
    using dest(2,3) u(3) p by blast
next
  assume "\<exists>rsv dest p q r. so_in k = request_bytes rsv dest p q @ r \<and> dest_ok dest \<and> host = dest_host dest \<and>
        port = big_endian [p, q] \<and> k' = k\<lparr>so_in := r\<rparr>"
  then obtain rsv dest p q r where m: "so_in k = byte 5 # byte 1 # rsv # dest_bytes dest @ p # q # r" "dest_ok dest"
      "host = dest_host dest" "port = big_endian [p, q]" "k' = k\<lparr>so_in := r\<rparr>"
    by (auto simp: request_bytes_def)
  obtain t ds where ds: "dest_bytes dest = t # ds" by (cases dest) auto
  let ?l = "k\<lparr>so_in := ds @ p # q # r\<rparr>"
  have "read_exact 4 k = (Inr [byte 5, byte 1, rsv, t], ?l)" using m(1) ds by (simp add: read_few_apply)
  moreover have "read_host (of_char t) ?l = (Inr (Some host), k\<lparr>so_in := p # q # r\<rparr>)"
    unfolding read_host_outcome using m(2,3) ds by (intro exI [of _ dest] exI [of _ "p # q # r"]) simp
  moreover have "read_exact 2 (k\<lparr>so_in := p # q # r\<rparr>) = (Inr [p, q], k')" using m(5) by (simp add: read_few_apply)
  moreover have "byte_at [byte 5, byte 1, rsv, t] 0 = 5" "byte_at [byte 5, byte 1, rsv, t] (Suc 0) = 1"
      "byte_at [byte 5, byte 1, rsv, t] 3 = of_char t"
    by (simp_all add: byte_at_def of_char_is)
  ultimately show "socks_request k = (Inr (Some (host, port)), k')"
    using m(4) by (simp add: socks_request_def bindc_apply)
qed

text \<open>C30: The proxy reads exactly the SOCKS5 protocol. A dial is made for a user and a destination exactly when the
  client has sent, in this order, a greeting of version 5 that offers the login by name, a login whose name is the
  agent and whose password is the token of the proxy (if it has one), and a request to connect to a version 4
  address, a version 6 address or a name, whose text is the host, with the port in two bytes. What the client sends
  after that is left for the relay, and it has been told 5 2 1 0 and nothing else.\<close>

theorem socks_accept_iff:
  "socks_accept token k = (Inr (Some (user, host, port)), k') \<longleftrightarrow>
     (\<exists>methods v name pw rsv dest p q r.
        so_in k = hello_bytes methods @ login_bytes v name pw @ request_bytes rsv dest p q @ r \<and>
        length methods < 256 \<and> byte 2 \<in> set methods \<and> length name < 256 \<and> length pw < 256 \<and> dest_ok dest \<and>
        (token = None \<or> token = Some (decode_replace pw)) \<and>
        user = decode_replace name \<and> host = dest_host dest \<and> port = big_endian [p, q] \<and>
        k' = k\<lparr>so_in := r, so_out := so_out k @ map byte [5, 2, 1, 0]\<rparr>)"
proof
  assume "socks_accept token k = (Inr (Some (user, host, port)), k')"
  then obtain k1 k2 where run: "socks_greeting k = (Inr True, k1)" "socks_login token k1 = (Inr (Some user), k2)"
      "socks_request k2 = (Inr (Some (host, port)), k')"
    unfolding socks_accept_def bindc_outcome by (auto simp: outcomes split: if_splits option.splits)
  from run(1) obtain methods r1 where 1: "so_in k = hello_bytes methods @ r1" "length methods < 256" "byte 2 \<in> set methods"
      "k1 = k\<lparr>so_in := r1, so_out := so_out k @ map byte [5, 2]\<rparr>"
    unfolding socks_greeting_outcome by blast
  from run(2) obtain v name pw r2 where 2: "so_in k1 = login_bytes v name pw @ r2" "length name < 256" "length pw < 256"
      "token = None \<or> token = Some (decode_replace pw)" "user = decode_replace name"
      "k2 = k1\<lparr>so_in := r2, so_out := so_out k1 @ map byte [1, 0]\<rparr>"
    unfolding socks_login_outcome by blast
  from run(3) obtain rsv dest p q r where 3: "so_in k2 = request_bytes rsv dest p q @ r" "dest_ok dest"
      "host = dest_host dest" "port = big_endian [p, q]" "k' = k2\<lparr>so_in := r\<rparr>"
    unfolding socks_request_outcome by blast
  have "so_in k = hello_bytes methods @ login_bytes v name pw @ request_bytes rsv dest p q @ r"
    using 1(1,4) 2(1,6) 3(1) by simp
  moreover have "k' = k\<lparr>so_in := r, so_out := so_out k @ map byte [5, 2, 1, 0]\<rparr>" using 1(4) 2(6) 3(5) by simp
  ultimately show "\<exists>methods v name pw rsv dest p q r.
        so_in k = hello_bytes methods @ login_bytes v name pw @ request_bytes rsv dest p q @ r \<and>
        length methods < 256 \<and> byte 2 \<in> set methods \<and> length name < 256 \<and> length pw < 256 \<and> dest_ok dest \<and>
        (token = None \<or> token = Some (decode_replace pw)) \<and>
        user = decode_replace name \<and> host = dest_host dest \<and> port = big_endian [p, q] \<and>
        k' = k\<lparr>so_in := r, so_out := so_out k @ map byte [5, 2, 1, 0]\<rparr>"
    using 1(2,3) 2(2-5) 3(2-4) by blast
next
  assume "\<exists>methods v name pw rsv dest p q r.
        so_in k = hello_bytes methods @ login_bytes v name pw @ request_bytes rsv dest p q @ r \<and>
        length methods < 256 \<and> byte 2 \<in> set methods \<and> length name < 256 \<and> length pw < 256 \<and> dest_ok dest \<and>
        (token = None \<or> token = Some (decode_replace pw)) \<and>
        user = decode_replace name \<and> host = dest_host dest \<and> port = big_endian [p, q] \<and>
        k' = k\<lparr>so_in := r, so_out := so_out k @ map byte [5, 2, 1, 0]\<rparr>"
  then obtain methods v name pw rsv dest p q r where
      m: "so_in k = hello_bytes methods @ login_bytes v name pw @ request_bytes rsv dest p q @ r"
        "length methods < 256" "byte 2 \<in> set methods" "length name < 256" "length pw < 256" "dest_ok dest"
        "token = None \<or> token = Some (decode_replace pw)" "user = decode_replace name" "host = dest_host dest"
        "port = big_endian [p, q]" "k' = k\<lparr>so_in := r, so_out := so_out k @ map byte [5, 2, 1, 0]\<rparr>"
    by blast
  let ?k1 = "k\<lparr>so_in := login_bytes v name pw @ request_bytes rsv dest p q @ r, so_out := so_out k @ map byte [5, 2]\<rparr>"
  let ?k2 = "?k1\<lparr>so_in := request_bytes rsv dest p q @ r, so_out := so_out ?k1 @ map byte [1, 0]\<rparr>"
  have "socks_greeting k = (Inr True, ?k1)" unfolding socks_greeting_outcome using m(1-3) by blast
  moreover have "socks_login token ?k1 = (Inr (Some user), ?k2)"
    unfolding socks_login_outcome using m(4,5,7,8)
    by (intro exI [of _ v] exI [of _ name] exI [of _ pw] exI [of _ "request_bytes rsv dest p q @ r"]) simp
  moreover have "socks_request ?k2 = (Inr (Some (host, port)), k')"
    unfolding socks_request_outcome using m(6,9-11)
    by (intro exI [of _ rsv] exI [of _ dest] exI [of _ p] exI [of _ q] exI [of _ r]) simp
  ultimately show "socks_accept token k = (Inr (Some (user, host, port)), k')"
    by (simp add: socks_accept_def bindc_apply)
qed

text \<open>A version 4 destination is judged as the address that its four bytes are.\<close>

lemma dest4_judged:
  assumes "dest_ok (Dest4 a b c d)"
  shows "is_allowed rules (dest_host (Dest4 a b c d)) port \<longleftrightarrow>
    1 \<le> port \<and> port \<le> 65535 \<and>
    (\<exists>r\<in>set rules. rule_port_lo r \<le> port \<and> port \<le> rule_port_hi r \<and>
       (\<exists>net. rule_network r = Some net \<and> in_network (IPv4 (ipv4_of_octets a b c d)) net))"
proof -
  have "ip_address_of (dest_host (Dest4 a b c d)) = Some (IPv4 (ipv4_of_octets a b c d))"
    using parse_show_ipv4 assms by (simp add: ip_address_of_def)
  then show ?thesis by (auto simp: is_allowed_def list_ex_iff matches_def split: option.splits)
qed

text \<open>A part of the handler that turns a client away with one of the values in \<open>bad\<close> has closed its socket, and it
  raises only when the client stops in the middle.\<close>

definition polite :: "('a \<Rightarrow> bool) \<Rightarrow> 'a socket_prog \<Rightarrow> bool" where
  "polite bad m \<longleftrightarrow>
     (\<forall>k. case m k of (Inl e, k') \<Rightarrow> exn_kind e = IncompleteReadError | (Inr r, k') \<Rightarrow> bad r \<longrightarrow> so_closed k')"

named_theorems politeness \<open>parts of the handler that are polite\<close>

lemma polite_bind:
  assumes "polite b m" and "\<And>x. \<not> b x \<Longrightarrow> polite c (f x)" and "\<And>x. b x \<Longrightarrow> \<exists>y. f x = ret y"
  shows "polite c (bindc m f)"
  unfolding polite_def
proof
  fix k
  obtain x l where x: "m k = (x, l)" by fastforce
  show "case bindc m f k of (Inl e, k') \<Rightarrow> exn_kind e = IncompleteReadError | (Inr r, k') \<Rightarrow> c r \<longrightarrow> so_closed k'"
  proof (cases x)
    case (Inl e)
    with x assms(1) show ?thesis by (auto simp: polite_def bindc_apply dest: spec [of _ k])
  next
    case (Inr r)
    show ?thesis
    proof (cases "b r")
      case True
      then have "so_closed l" using x Inr assms(1) by (auto simp: polite_def dest: spec [of _ k])
      moreover obtain y where "f r = ret y" using assms(3) True by blast
      ultimately show ?thesis using x Inr by (simp add: bindc_apply)
    next
      case False
      with x Inr assms(2) [of r] show ?thesis by (simp add: polite_def bindc_apply)
    qed
  qed
qed

lemma polite_read [politeness]: "polite (\<lambda>_. False) (read_exact n)"
  by (simp add: polite_def read_exact_def bindc_apply)

lemma polite_served [politeness]: "\<not> bad x \<Longrightarrow> polite bad (thenc (write_bytes bs) (ret x))" "\<not> bad x \<Longrightarrow> polite bad (ret x)"
  by (simp_all add: polite_def write_bytes_def)

lemma polite_away [politeness]:
  "polite bad (thenc close_socket (ret x))" "polite bad (thenc (write_bytes bs) (thenc close_socket (ret x)))"
  by (simp_all add: polite_def write_bytes_def close_socket_def)

lemma polite_if [politeness]: "(c \<Longrightarrow> polite bad m) \<Longrightarrow> (\<not> c \<Longrightarrow> polite bad n) \<Longrightarrow> polite bad (if c then m else n)"
  by simp

lemma polite_bind_read [politeness]: "(\<And>d. polite bad (f d)) \<Longrightarrow> polite bad (bindc (read_exact n) f)"
  by (rule polite_bind [OF polite_read]) auto

lemma polite_parts [politeness]:
  "polite Not socks_greeting" "polite (\<lambda>r. r = None) (socks_login token)"
  "polite (\<lambda>_. False) (read_host t)"
  unfolding socks_greeting_def socks_login_def read_host_def by (intro politeness; simp)+

lemma polite_request [politeness]: "polite (\<lambda>r. r = None) socks_request"
  unfolding socks_request_def socks_reply_def
  by (intro politeness polite_bind [OF polite_parts(3)])
    (auto split: option.split intro!: politeness)

lemma polite_accept: "polite (\<lambda>r. r = None) (socks_accept token)"
  unfolding socks_accept_def
  by (rule polite_bind [OF polite_parts(1)])
    (auto split: option.split intro!: politeness polite_bind [OF polite_parts(2)] polite_bind [OF polite_request],
      rule exI, rule refl)


text \<open>A client asks agent \<open>a\<close> for \<open>web:443\<close>; another has the wrong token.\<close>

definition example_client :: "string \<Rightarrow> socket" where
  "example_client pw =
     \<lparr>so_in = hello_bytes [byte 2] @ login_bytes (byte 1) ''a'' pw @ request_bytes (byte 0) (DestName ''web'') (byte 1) (byte 187),
      so_out = [], so_closed = False\<rparr>"

lemma example_client_served:
  "socks_accept (Some ''t'') (example_client ''t'') =
     (Inr (Some (''a'', ''web'', 443)), \<lparr>so_in = [], so_out = map byte [5, 2, 1, 0], so_closed = False\<rparr>)"
  "socks_accept (Some ''t'') (example_client ''x'') =
     (Inr None, \<lparr>so_in = request_bytes (byte 0) (DestName ''web'') (byte 1) (byte 187),
        so_out = map byte [5, 2, 1, 1], so_closed = True\<rparr>)"
  by code_simp+

lemma show_ipv6_examples:
  "show_ipv6 [33, 13, 0, 0, 1, 0, 0, 1] = ''21:d::1:0:0:1''" "show_ipv6 [0, 0, 0, 0, 0, 0, 0, 0] = ''::''"
  "show_ipv6 [0, 0, 0, 0, 0, 0, 0, 1] = ''::1''" "show_ipv6 [254, 0, 0, 0, 0, 0, 0, 0] = ''fe::''"
  "show_ipv6 [1, 0, 2, 3, 4, 5, 6, 7] = ''1:0:2:3:4:5:6:7''"
  by code_simp+

end
