(* ===== verification/TunnelRelay.thy ===== *)
theory TunnelRelay
  imports TunnelManager
begin

text \<open>
  How an agent gets its session: the token it asks for and the configuration of its tunnel
  (\<open>routers/agent_tunnel_admin.py\<close>), and the relay that checks what it presents and registers the session with the
  manager (\<open>tunnel/relay.py\<close>). The hash of a token and the decryption of the secret of an organization are
  parameters; times are in microseconds.
\<close>

section \<open>Identifiers\<close>

text \<open>\<open>uuid.UUID(text)\<close> as its canonical text: \<open>urn:\<close>, \<open>uuid:\<close>, braces and hyphens do not count, and the rest is
  what \<open>int(..., 16)\<close> reads.\<close>

fun remove_text :: "string \<Rightarrow> nat \<Rightarrow> string \<Rightarrow> string" where
  "remove_text p n [] = []"
| "remove_text p (Suc n) (c # cs) = remove_text p n cs"
| "remove_text p 0 (c # cs) =
     (if starts_with (c # cs) p then remove_text p (length p - 1) cs else c # remove_text p 0 cs)"

definition strip_chars :: "string \<Rightarrow> string \<Rightarrow> string" where
  "strip_chars chars s = rev (dropWhile (\<lambda>c. c \<in> set chars) (rev (dropWhile (\<lambda>c. c \<in> set chars) s)))"

fun hex_digits_of :: "bool \<Rightarrow> int \<Rightarrow> string \<Rightarrow> int option" where
  "hex_digits_of after_digit n [] = (if after_digit then Some n else None)"
| "hex_digits_of after_digit n (c # cs) =
     (if c = CHR ''_'' \<and> after_digit then hex_digits_of False n cs
      else case hex_value c of None \<Rightarrow> None | Some d \<Rightarrow> hex_digits_of True (n * 16 + d) cs)"

definition hex_of_text :: "string \<Rightarrow> int option" where
  "hex_of_text s =
     (let t = strip s; u = (if t \<noteq> [] \<and> hd t = CHR ''+'' then tl t else t)
      in if starts_with u ''0x'' \<or> starts_with u ''0X''
         then (if length u = 2 then None else hex_digits_of True 0 (drop 2 u))
         else hex_digits_of False 0 u)"

fun hex_fixed :: "nat \<Rightarrow> int \<Rightarrow> string" where
  "hex_fixed 0 n = []"
| "hex_fixed (Suc k) n = hex_fixed k (n div 16) @ [''0123456789abcdef'' ! nat (n mod 16)]"

definition uuid_text :: "int \<Rightarrow> uuid" where
  "uuid_text n =
     (let h = hex_fixed 32 n
      in take 8 h @ ''-'' @ take 4 (drop 8 h) @ ''-'' @ take 4 (drop 12 h) @ ''-'' @ take 4 (drop 16 h) @ ''-'' @ drop 20 h)"

definition uuid_of :: "string \<Rightarrow> uuid option" where
  "uuid_of s =
     (let h = filter (\<lambda>c. c \<noteq> CHR ''-'') (strip_chars ''{}'' (remove_text ''uuid:'' 0 (remove_text ''urn:'' 0 s)))
      in if length h \<noteq> 32 then None else map_option uuid_text (hex_of_text h))"

section \<open>State\<close>

record agent_reg =
  ar_id :: uuid
  ar_organization_id :: uuid
  ar_enabled :: bool
  ar_allowlist :: "string list"
  ar_max_concurrent :: int

record org_secret =
  os_organization_id :: uuid
  os_agent_secret :: "string option"

record conn_token =
  ct_agent_id :: uuid
  ct_hash :: string
  ct_expires_at :: int
  ct_used_at :: "int option"

record gateway =
  gw_agents :: "agent_reg list"
  gw_secrets :: "org_secret list"
  gw_tokens :: "conn_token list"
  gw_tunnel :: tunnel

type_synonym 'a gateway_prog = "(gateway, 'a) comp"

definition http_error :: "nat \<Rightarrow> string \<Rightarrow> 'a gateway_prog" where
  "http_error code msg = raise (Exn (HTTPException code) msg)"

section \<open>Credentials\<close>

definition bearer_of :: "string \<Rightarrow> string option" where
  "bearer_of authorization =
     (if starts_with authorization ''Bearer '' then Some (strip (drop 7 authorization)) else None)"

text \<open>The organization whose secret it is; a secret that cannot be decrypted is passed over.\<close>

definition org_by_secret :: "(string \<Rightarrow> string option) \<Rightarrow> org_secret list \<Rightarrow> string \<Rightarrow> org_secret option" where
  "org_by_secret dec rows secret =
     List.find (\<lambda>o'. case os_agent_secret o' of None \<Rightarrow> False | Some enc \<Rightarrow> dec enc = Some secret) rows"

definition resolve_org_by_bearer :: "(string \<Rightarrow> string option) \<Rightarrow> string \<Rightarrow> gateway \<Rightarrow> org_secret option" where
  "resolve_org_by_bearer dec authorization g =
     (case bearer_of authorization of
        None \<Rightarrow> None
      | Some token \<Rightarrow> if token = [] then None else org_by_secret dec (gw_secrets g) token)"

definition load_agent :: "uuid \<Rightarrow> string \<Rightarrow> gateway \<Rightarrow> agent_reg option" where
  "load_agent org agent_id g =
     (case uuid_of agent_id of
        None \<Rightarrow> None
      | Some aid \<Rightarrow> List.find (\<lambda>r. ar_id r = aid \<and> ar_organization_id r = org) (gw_agents g))"

text \<open>\<open>_consume_tunnel_token\<close>: what is checked, up to the row that is then marked as used.\<close>

definition check_tunnel_token :: "(string \<Rightarrow> string) \<Rightarrow> string \<Rightarrow> string \<Rightarrow> int \<Rightarrow> gateway \<Rightarrow> (uuid \<times> string) option" where
  "check_tunnel_token hash raw agent_id now g =
     (case uuid_of agent_id of
        None \<Rightarrow> None
      | Some aid \<Rightarrow>
          (case List.find (\<lambda>c. ct_hash c = hash raw) (gw_tokens g) of
             None \<Rightarrow> None
           | Some c \<Rightarrow>
               if ct_used_at c \<noteq> None then None
               else if ct_expires_at c < now then None
               else if ct_agent_id c \<noteq> aid then None
               else Some (aid, ct_hash c)))"

definition used_row :: "string \<Rightarrow> int \<Rightarrow> conn_token \<Rightarrow> conn_token" where
  "used_row h now c = (if ct_hash c = h then c\<lparr>ct_used_at := Some now\<rparr> else c)"

definition mark_used :: "string \<Rightarrow> int \<Rightarrow> unit gateway_prog" where
  "mark_used h now =
     modifyc (\<lambda>g. g\<lparr>gw_tokens := map (used_row h now) (gw_tokens g)\<rparr>)"

definition consume_tunnel_token ::
  "(string \<Rightarrow> string) \<Rightarrow> string \<Rightarrow> string \<Rightarrow> int \<Rightarrow> agent_reg option gateway_prog" where
  "consume_tunnel_token hash raw agent_id now =
     bindc (gets (check_tunnel_token hash raw agent_id now)) (\<lambda>r.
       case r of
         None \<Rightarrow> ret None
       | Some (aid, h) \<Rightarrow>
           thenc (mark_used h now) (gets (\<lambda>g. List.find (\<lambda>r. ar_id r = aid) (gw_agents g))))"

section \<open>The relay\<close>

definition looks_like_token :: "string \<Rightarrow> bool" where
  "looks_like_token s \<longleftrightarrow> length s = 64 \<and> list_all (\<lambda>c. c \<in> set ''0123456789abcdefABCDEF'') s"

text \<open>\<open>run_agent_tunnel\<close> until it waits for the end of the session: a close code, or nothing when the session is
  registered. A list that does not parse raises.\<close>

definition raw_token_of :: "string \<Rightarrow> string option" where
  "raw_token_of authorization =
     (case bearer_of authorization of
        Some candidate \<Rightarrow> if looks_like_token candidate then Some candidate else None
      | None \<Rightarrow> None)"

definition authenticate ::
  "(string \<Rightarrow> string) \<Rightarrow> (string \<Rightarrow> string option) \<Rightarrow> string \<Rightarrow> string \<Rightarrow> int \<Rightarrow> (nat + agent_reg) gateway_prog" where
  "authenticate hash dec authorization agent_id now =
     (case raw_token_of authorization of
        Some raw \<Rightarrow>
          bindc (consume_tunnel_token hash raw agent_id now) (\<lambda>reg.
            case reg of
              None \<Rightarrow> ret (Inl 4401)
            | Some reg \<Rightarrow> if \<not> ar_enabled reg then ret (Inl 4403) else ret (Inr reg))
      | None \<Rightarrow>
          bindc (gets (resolve_org_by_bearer dec authorization)) (\<lambda>org.
            case org of
              None \<Rightarrow> ret (Inl 4401)
            | Some org \<Rightarrow>
                bindc (gets (load_agent (os_organization_id org) agent_id)) (\<lambda>reg.
                  case reg of
                    None \<Rightarrow> ret (Inl 4403)
                  | Some reg \<Rightarrow> if \<not> ar_enabled reg then ret (Inl 4403) else ret (Inr reg))))"

definition on_tunnel :: "unit tunnel_prog \<Rightarrow> unit gateway_prog" where
  "on_tunnel m = (\<lambda>g. case m (gw_tunnel g) of (r, t) \<Rightarrow> (r, g\<lparr>gw_tunnel := t\<rparr>))"

definition run_agent_tunnel ::
  "(string \<Rightarrow> string) \<Rightarrow> (string \<Rightarrow> string option) \<Rightarrow> string \<Rightarrow> string \<Rightarrow> int \<Rightarrow> nat option gateway_prog" where
  "run_agent_tunnel hash dec authorization agent_id now =
     bindc (authenticate hash dec authorization agent_id now) (\<lambda>r.
       case r of
         Inl code \<Rightarrow> ret (Some code)
       | Inr reg \<Rightarrow>
           bindc (of_sum (parse_allowlist (ar_allowlist reg))) (\<lambda>rules.
             thenc (on_tunnel (connect_agent (ar_id reg) rules (if ar_max_concurrent reg = 0 then 10 else ar_max_concurrent reg)))
               (ret None)))"

section \<open>Administration\<close>

definition resolve_agent_by_bearer ::
  "(string \<Rightarrow> string option) \<Rightarrow> string \<Rightarrow> uuid \<Rightarrow> agent_reg gateway_prog" where
  "resolve_agent_by_bearer dec authorization agent_id =
     (case bearer_of authorization of
        None \<Rightarrow> http_error 401 ''Missing Bearer token''
      | Some raw \<Rightarrow>
          if raw = [] then http_error 401 ''Empty token''
          else bindc (gets (\<lambda>g. org_by_secret dec (gw_secrets g) raw)) (\<lambda>org.
            case org of
              None \<Rightarrow> http_error 401 ''Invalid agent secret''
            | Some org \<Rightarrow>
                bindc (gets (\<lambda>g. List.find (\<lambda>r. ar_id r = agent_id \<and> ar_organization_id r = os_organization_id org)
                    (gw_agents g))) (\<lambda>reg.
                  case reg of
                    None \<Rightarrow> http_error 404 ''Agent not found''
                  | Some reg \<Rightarrow>
                      if \<not> ar_enabled reg then http_error 403 ''Tunnel not enabled for this agent'' else ret reg)))"

text \<open>\<open>raw\<close> is what \<open>secrets.token_hex(32)\<close> gives; the hash of a token is unique in the table.\<close>

definition token_ttl :: int where
  "token_ttl = 60000000"

definition issue_tunnel_token ::
  "(string \<Rightarrow> string) \<Rightarrow> (string \<Rightarrow> string option) \<Rightarrow> string \<Rightarrow> uuid \<Rightarrow> string \<Rightarrow> int \<Rightarrow> (string \<times> int) gateway_prog" where
  "issue_tunnel_token hash dec authorization agent_id raw now =
     bindc (resolve_agent_by_bearer dec authorization agent_id) (\<lambda>reg.
       bindc (gets (\<lambda>g. hash raw \<in> ct_hash ` set (gw_tokens g))) (\<lambda>taken.
         if taken then raise (Exn OtherError ''IntegrityError'')
         else thenc (modifyc (\<lambda>g. g\<lparr>gw_tokens := gw_tokens g @
             [\<lparr>ct_agent_id = ar_id reg, ct_hash = hash raw, ct_expires_at = now + token_ttl, ct_used_at = None\<rparr>]\<rparr>))
           (ret (raw, now + token_ttl))))"

definition set_agent_tunnel :: "user \<Rightarrow> uuid \<Rightarrow> bool \<Rightarrow> string list \<Rightarrow> int \<Rightarrow> unit gateway_prog" where
  "set_agent_tunnel u agent_id enabled allowlist limit =
     (if user_role u \<noteq> UR_admin then http_error 403 ''Insufficient permissions''
      else case parse_allowlist allowlist of
        Inl _ \<Rightarrow> http_error 400 ''Invalid allowlist entry''
      | Inr _ \<Rightarrow>
          if enabled \<and> allowlist = [] then http_error 400 ''Cannot enable the tunnel with an empty allowlist''
          else bindc (gets (\<lambda>g. List.find (\<lambda>r. ar_id r = agent_id \<and> ar_organization_id r = user_organization_id u)
              (gw_agents g))) (\<lambda>reg.
            case reg of
              None \<Rightarrow> http_error 404 ''Agent not found''
            | Some reg \<Rightarrow>
                modifyc (\<lambda>g. g\<lparr>gw_agents := map (\<lambda>r. if ar_id r = ar_id reg
                  then r\<lparr>ar_enabled := enabled, ar_allowlist := allowlist, ar_max_concurrent := max 1 limit\<rparr> else r)
                  (gw_agents g)\<rparr>)))"

section \<open>Tokens are used once\<close>

text \<open>What happens at the gateway: agents ask for tokens and connect, admins configure tunnels, and the tunnel works.\<close>

inductive gateway_steps :: "(string \<Rightarrow> string) \<Rightarrow> (string \<Rightarrow> string option) \<Rightarrow> gateway \<Rightarrow> gateway \<Rightarrow> bool"
  for hash dec g where
    steps_none: "gateway_steps hash dec g g"
  | steps_issue: "gateway_steps hash dec g h \<Longrightarrow>
      gateway_steps hash dec g (snd (issue_tunnel_token hash dec authorization agent raw now h))"
  | steps_relay: "gateway_steps hash dec g h \<Longrightarrow>
      gateway_steps hash dec g (snd (run_agent_tunnel hash dec authorization agent now h))"
  | steps_configure: "gateway_steps hash dec g h \<Longrightarrow>
      gateway_steps hash dec g (snd (set_agent_tunnel u agent enabled allowlist limit h))"
  | steps_tunnel: "gateway_steps hash dec g h \<Longrightarrow> possible (gw_tunnel h) e \<Longrightarrow>
      gateway_steps hash dec g (h\<lparr>gw_tunnel := after e (gw_tunnel h)\<rparr>)"

definition used_up :: "string \<Rightarrow> gateway \<Rightarrow> bool" where
  "used_up h g \<longleftrightarrow> (\<exists>c. List.find (\<lambda>c. ct_hash c = h) (gw_tokens g) = Some c \<and> ct_used_at c \<noteq> None)"

lemma find_append: "List.find P (xs @ ys) = (case List.find P xs of None \<Rightarrow> List.find P ys | Some x \<Rightarrow> Some x)"
  by (induction xs) simp_all

lemma find_map: "List.find P (map f xs) = map_option f (List.find (P \<circ> f) xs)"
  by (induction xs) simp_all

lemma used_row_hash [simp]: "ct_hash (used_row h now c) = ct_hash c"
  by (simp add: used_row_def)

lemma used_row_used: "ct_used_at (used_row h now c) = (if ct_hash c = h then Some now else ct_used_at c)"
  by (simp add: used_row_def)

lemma used_up_same: "gw_tokens h = gw_tokens g \<Longrightarrow> used_up x g \<Longrightarrow> used_up x h"
  by (simp add: used_up_def)

lemma keeps_on_tunnel: "keeps (used_up x) (on_tunnel m)"
  unfolding keeps_def on_tunnel_def by (auto intro: used_up_same split: prod.split)

lemma keeps_mark_used: "keeps (used_up x) (mark_used h now)"
  unfolding mark_used_def
  by (rule keeps_modifyc) (auto simp: used_up_def find_map comp_def used_row_used)

lemma used_up_append: "used_up x g \<Longrightarrow> used_up x (g\<lparr>gw_tokens := gw_tokens g @ cs\<rparr>)"
  by (auto simp: used_up_def find_append)

lemma keeps_used_up:
  "keeps (used_up x) (run_agent_tunnel hash dec authorization agent now)"
  "keeps (used_up x) (issue_tunnel_token hash dec authorization agent raw now)"
  "keeps (used_up x) (set_agent_tunnel u agent enabled allowlist limit)"
proof -
  have "keeps (used_up x) (consume_tunnel_token hash raw agent now)" for raw
    unfolding consume_tunnel_token_def by (intro keeps_structure keeps_mark_used)
  then have "keeps (used_up x) (authenticate hash dec authorization agent now)"
    unfolding authenticate_def by (intro keeps_structure)
  then show "keeps (used_up x) (run_agent_tunnel hash dec authorization agent now)"
    unfolding run_agent_tunnel_def by (intro keeps_structure keeps_on_tunnel)
  have "keeps (used_up x) (modifyc (\<lambda>g. g\<lparr>gw_tokens := gw_tokens g @ cs\<rparr>))" for cs
    by (rule keeps_modifyc) (rule used_up_append)
  then show "keeps (used_up x) (issue_tunnel_token hash dec authorization agent raw now)"
    unfolding issue_tunnel_token_def resolve_agent_by_bearer_def http_error_def by (intro keeps_structure)
  have "keeps (used_up x) (modifyc (\<lambda>g. g\<lparr>gw_agents := f g\<rparr>))" for f
    by (rule keeps_modifyc) (erule used_up_same [rotated], simp)
  then show "keeps (used_up x) (set_agent_tunnel u agent enabled allowlist limit)"
    unfolding set_agent_tunnel_def http_error_def by (intro keeps_structure)
qed

lemma steps_used_up: "gateway_steps hash dec g h \<Longrightarrow> used_up x g \<Longrightarrow> used_up x h"
proof (induction rule: gateway_steps.induct)
  case (steps_tunnel h e)
  then show ?case by (auto intro: used_up_same)
qed (simp_all add: keepsD [OF keeps_used_up(1)] keepsD [OF keeps_used_up(2)] keepsD [OF keeps_used_up(3)])

lemma consumed_used_up:
  assumes "consume_tunnel_token hash raw agent now g = (Inr (Some reg), h)"
  shows "used_up (hash raw) h"
proof -
  from assms obtain aid x where check: "check_tunnel_token hash raw agent now g = Some (aid, x)"
      and h: "h = snd (mark_used x now g)"
    by (auto simp: consume_tunnel_token_def mark_used_def split: option.splits)
  from check obtain c where c: "List.find (\<lambda>c. ct_hash c = hash raw) (gw_tokens g) = Some c" "x = ct_hash c"
    by (auto simp: check_tunnel_token_def split: option.splits if_splits)
  then have "ct_hash c = hash raw" by (auto simp: find_Some_iff)
  with c show ?thesis by (simp add: h used_up_def mark_used_def find_map comp_def used_row_used)
qed


section \<open>From the token to the session\<close>

lemma strip_no_space: "list_all (\<lambda>c. \<not> is_space c) s \<Longrightarrow> strip s = s"
proof -
  assume s: "list_all (\<lambda>c. \<not> is_space c) s"
  have same: "dropWhile is_space t = t" if "list_all (\<lambda>c. \<not> is_space c) t" for t
    using that by (cases t) simp_all
  have "list_all (\<lambda>c. \<not> is_space c) (rev s)" using s by (simp add: list_all_iff)
  with same [OF s] same [of "rev s"] show ?thesis by (simp add: strip_def)
qed

lemma bearer_of_token: "looks_like_token raw \<Longrightarrow> raw_token_of (''Bearer '' @ raw) = Some raw"
proof -
  assume raw: "looks_like_token raw"
  have "list_all (\<lambda>c. \<not> is_space c) ''0123456789abcdefABCDEF''" by code_simp
  with raw have "list_all (\<lambda>c. \<not> is_space c) raw" unfolding looks_like_token_def list_all_iff by blast
  then have "strip raw = raw" by (rule strip_no_space)
  with raw show ?thesis by (simp add: raw_token_of_def bearer_of_def starts_with_def)
qed

lemma resolve_agent_result:
  assumes "resolve_agent_by_bearer dec authorization agent g = (Inr reg, h)"
  shows "h = g \<and> reg \<in> set (gw_agents g) \<and> ar_id reg = agent \<and> ar_enabled reg"
  using assms unfolding resolve_agent_by_bearer_def http_error_def
  by (auto simp: bindc_apply find_Some_iff split: option.splits if_splits)

lemma find_id:
  assumes "distinct (map ar_id rs)" and "r \<in> set rs"
  shows "List.find (\<lambda>q. ar_id q = ar_id r) rs = Some r"
  using assms by (induction rs) (auto simp: image_iff)

text \<open>A token opens the session it was issued for, in its time. After an agent has been given a token, a
  connection with it, for the identifier of that agent in any of its spellings, is registered exactly when it comes
  not later than 60 seconds after: the manager then has a session of this agent, under the allowlist and the limit
  of its row. Later it is closed as unauthorized, and nothing is registered.\<close>

theorem issued_token_admits:
  assumes issued: "issue_tunnel_token hash dec authorization aid raw t0 g = (Inr (raw', expires), g1)"
    and rows: "distinct (map ar_id (gw_agents g))" "reg \<in> set (gw_agents g)" "ar_id reg = aid"
    and parsed: "parse_allowlist (ar_allowlist reg) = Inr rules"
    and presented: "looks_like_token raw" "uuid_of agent = Some aid"
  shows "raw' = raw \<and>
    (if t \<le> t0 + 60000000
     then \<exists>h. run_agent_tunnel hash dec (''Bearer '' @ raw) agent t g1 = (Inr None, h) \<and>
       gw_tunnel h = after (Connect aid rules (if ar_max_concurrent reg = 0 then 10 else ar_max_concurrent reg)) (gw_tunnel g)
     else run_agent_tunnel hash dec (''Bearer '' @ raw) agent t g1 = (Inr (Some 4401), g1))"
proof -
  from issued obtain r h where r: "resolve_agent_by_bearer dec authorization aid g = (Inr r, h)"
    by (auto simp: issue_tunnel_token_def bindc_apply split: prod.splits sum.splits)
  note res = resolve_agent_result [OF r]
  have "r = reg" using res rows find_id [of "gw_agents g" r] find_id [of "gw_agents g" reg] by auto
  with res have reg: "h = g" "ar_enabled reg" by simp_all
  let ?c = "\<lparr>ct_agent_id = aid, ct_hash = hash raw, ct_expires_at = t0 + token_ttl, ct_used_at = None\<rparr>"
  have fresh: "hash raw \<notin> ct_hash ` set (gw_tokens g)"
    using issued r reg by (auto simp: issue_tunnel_token_def bindc_apply split: if_splits)
  then have g1: "g1 = g\<lparr>gw_tokens := gw_tokens g @ [?c]\<rparr>" "raw' = raw"
    using issued r reg \<open>r = reg\<close> rows(3) by (auto simp: issue_tunnel_token_def bindc_apply)
  have "List.find (\<lambda>c. ct_hash c = hash raw) (gw_tokens g) = None" using fresh unfolding find_None_iff by force
  then have found: "List.find (\<lambda>c. ct_hash c = hash raw) (gw_tokens g1) = Some ?c" by (simp add: g1 find_append)
  show ?thesis
  proof (cases "t \<le> t0 + 60000000")
    case True
    with found presented have check: "check_tunnel_token hash raw agent t g1 = Some (aid, hash raw)"
      by (simp add: check_tunnel_token_def token_ttl_def)
    have "gw_agents g1 = gw_agents g" "gw_tunnel g1 = gw_tunnel g" by (simp_all add: g1)
    with check rows find_id [OF rows(1,2)] have consumed:
        "consume_tunnel_token hash raw agent t g1 = (Inr (Some reg), snd (mark_used (hash raw) t g1))"
      by (simp add: consume_tunnel_token_def mark_used_def)
    let ?g = "snd (mark_used (hash raw) t g1)"
    have "gw_tunnel ?g = gw_tunnel g" by (simp add: mark_used_def g1)
    have "\<exists>h. run_agent_tunnel hash dec A agent t g1 = (Inr None, h) \<and>
       gw_tunnel h = after (Connect aid rules (if ar_max_concurrent reg = 0 then 10 else ar_max_concurrent reg)) (gw_tunnel g)"
      if "raw_token_of A = Some raw" for A
      using that consumed reg(2) parsed rows(3) \<open>gw_tunnel ?g = gw_tunnel g\<close>
      by (simp add: run_agent_tunnel_def authenticate_def bindc_apply thenc_apply on_tunnel_def after_def
          connect_agent_def register_def)
    from this [OF bearer_of_token [OF presented(1)]] True g1(2) show ?thesis by (simp only: if_True simp_thms)
  next
    case False
    with found presented have "check_tunnel_token hash raw agent t g1 = None"
      by (simp add: check_tunnel_token_def token_ttl_def)
    then have "run_agent_tunnel hash dec A agent t g1 = (Inr (Some 4401), g1)" if "raw_token_of A = Some raw" for A
      using that by (simp add: run_agent_tunnel_def authenticate_def bindc_apply consume_tunnel_token_def)
    from this [OF bearer_of_token [OF presented(1)]] False g1(2) show ?thesis by (simp only: if_False simp_thms)
  qed
qed

text \<open>The tunnel of a gateway runs like any tunnel, so what holds of its runs holds here: its sessions are those that
  the relay registered.\<close>

lemma relay_connects:
  "gw_tunnel (snd (run_agent_tunnel hash dec authorization agent now g)) = gw_tunnel g \<or>
   (\<exists>(reg :: agent_reg) rules limit. ar_enabled reg \<and> parse_allowlist (ar_allowlist reg) = Inr rules \<and>
     gw_tunnel (snd (run_agent_tunnel hash dec authorization agent now g)) =
       after (Connect (ar_id reg) rules limit) (gw_tunnel g))"
proof -
  have same: "keeps (\<lambda>h. gw_tunnel h = t) (authenticate hash dec authorization agent now)" for t
    unfolding authenticate_def consume_tunnel_token_def mark_used_def by (intro keeps_structure keeps_modifyc) simp
  obtain r h where r: "authenticate hash dec authorization agent now g = (r, h)" by fastforce
  with keepsD [OF same, of g "gw_tunnel g"] have h: "gw_tunnel h = gw_tunnel g" by simp
  have enabled: "ar_enabled reg" if "r = Inr (Inr reg)" for reg
    using r that by (auto simp: authenticate_def bindc_apply split: option.splits prod.splits sum.splits if_splits)
  show ?thesis
  proof (cases "\<exists>reg rules. r = Inr (Inr reg) \<and> parse_allowlist (ar_allowlist reg) = Inr rules")
    case True
    then obtain reg rules where reg: "r = Inr (Inr reg)" "parse_allowlist (ar_allowlist reg) = Inr rules" by blast
    let ?limit = "if ar_max_concurrent reg = 0 then 10 else ar_max_concurrent reg"
    have "gw_tunnel (snd (run_agent_tunnel hash dec authorization agent now g)) =
        after (Connect (ar_id reg) rules ?limit) (gw_tunnel g)"
      using r reg h by (simp add: run_agent_tunnel_def bindc_apply thenc_apply on_tunnel_def after_def
          connect_agent_def register_def)
    with enabled [OF reg(1)] reg(2) show ?thesis by blast
  next
    case False
    have "gw_tunnel (snd (run_agent_tunnel hash dec authorization agent now g)) = gw_tunnel g"
    proof (cases r)
      case (Inl e)
      with r h show ?thesis by (simp add: run_agent_tunnel_def bindc_apply)
    next
      case (Inr x)
      with r h False show ?thesis
        by (cases x) (auto simp: run_agent_tunnel_def bindc_apply split: sum.split)
    qed
    then show ?thesis ..
  qed
qed

lemma gateway_tunnel_run:
  "gateway_steps hash dec g h \<Longrightarrow> \<exists>es. tunnel_run es (gw_tunnel g) \<Longrightarrow> \<exists>es. tunnel_run es (gw_tunnel h)"
proof (induction rule: gateway_steps.induct)
  case steps_none
  then show ?case .
next
  case (steps_issue h authorization agent raw now)
  have "keeps (\<lambda>h. gw_tunnel h = t) (issue_tunnel_token hash dec authorization agent raw now)" for t
    unfolding issue_tunnel_token_def resolve_agent_by_bearer_def http_error_def by (intro keeps_structure keeps_modifyc) simp
  from keepsD [OF this, of h "gw_tunnel h"] steps_issue show ?case by simp
next
  case (steps_relay h authorization agent now)
  then obtain es where "tunnel_run es (gw_tunnel h)" by blast
  then have "tunnel_run (es @ [Connect a rules limit]) (after (Connect a rules limit) (gw_tunnel h))" for a rules limit
    by (rule tunnel_next) simp
  with relay_connects [of hash dec authorization agent now h] \<open>tunnel_run es (gw_tunnel h)\<close> show ?case by (elim disjE exE) force+
next
  case (steps_configure h u agent enabled allowlist limit)
  have "keeps (\<lambda>h. gw_tunnel h = t) (set_agent_tunnel u agent enabled allowlist limit)" for t
    unfolding set_agent_tunnel_def http_error_def by (intro keeps_structure keeps_modifyc) simp
  from keepsD [OF this, of h "gw_tunnel h"] steps_configure show ?case by simp
next
  case (steps_tunnel h e)
  then show ?case by (auto intro: tunnel_next)
qed

section \<open>Examples\<close>

text \<open>A secret is stored as it is, and the hash of a token is the token with a mark.\<close>

definition example_gateway :: gateway where
  "example_gateway =
     \<lparr>gw_agents = [\<lparr>ar_id = uuid_text 7, ar_organization_id = ''org'', ar_enabled = True, ar_allowlist = [''web:443''],
        ar_max_concurrent = 1\<rparr>],
      gw_secrets = [\<lparr>os_organization_id = ''org'', os_agent_secret = Some ''secret''\<rparr>],
      gw_tokens = [], gw_tunnel = no_tunnels\<rparr>"

definition example_token :: string where
  "example_token = replicate 63 (CHR ''0'') @ ''a''"

definition issued_gateway :: gateway where
  "issued_gateway = example_gateway\<lparr>gw_tokens :=
     [\<lparr>ct_agent_id = uuid_text 7, ct_hash = CHR ''#'' # example_token, ct_expires_at = 60000000, ct_used_at = None\<rparr>]\<rparr>"

lemma example_parts:
  "looks_like_token example_token" "uuid_of (''urn:uuid:'' @ uuid_text 7) = Some (uuid_text 7)"
  "parse_allowlist [''web:443''] = Inr [web_rule]"
  "issue_tunnel_token (Cons (CHR ''#'')) Some ''Bearer secret'' (uuid_text 7) example_token 0 example_gateway =
     (Inr (example_token, 60000000), issued_gateway)"
proof -
  show "looks_like_token example_token" "uuid_of (''urn:uuid:'' @ uuid_text 7) = Some (uuid_text 7)"
    by code_simp+
  have "strip ''web:443'' \<noteq> []" "parse_rule ''web:443'' = Inr web_rule" by code_simp+
  then show "parse_allowlist [''web:443''] = Inr [web_rule]" by simp
  have "bearer_of ''Bearer secret'' = Some ''secret''" by code_simp
  then show "issue_tunnel_token (Cons (CHR ''#'')) Some ''Bearer secret'' (uuid_text 7) example_token 0 example_gateway =
     (Inr (example_token, 60000000), issued_gateway)"
    by (simp add: issue_tunnel_token_def resolve_agent_by_bearer_def bindc_apply thenc_apply example_gateway_def
        issued_gateway_def org_by_secret_def token_ttl_def)
qed

theorem issued_token_admits_witness:
  "(\<exists>h. run_agent_tunnel (Cons (CHR ''#'')) Some (''Bearer '' @ example_token) (''urn:uuid:'' @ uuid_text 7) 60000000
      issued_gateway = (Inr None, h) \<and> is_online (gw_tunnel h) (uuid_text 7)) \<and>
   run_agent_tunnel (Cons (CHR ''#'')) Some (''Bearer '' @ example_token) (''urn:uuid:'' @ uuid_text 7) 60000001
      issued_gateway = (Inr (Some 4401), issued_gateway)"
proof -
  let ?reg = "\<lparr>ar_id = uuid_text 7, ar_organization_id = ''org'', ar_enabled = True, ar_allowlist = [''web:443''],
    ar_max_concurrent = 1\<rparr>"
  have rows: "distinct (map ar_id (gw_agents example_gateway))" "?reg \<in> set (gw_agents example_gateway)"
      "ar_id ?reg = uuid_text 7"
    by (simp_all add: example_gateway_def)
  have "parse_allowlist (ar_allowlist ?reg) = Inr [web_rule]" using example_parts(3) by (simp only: agent_reg.simps)
  note admits = issued_token_admits [OF example_parts(4) rows this example_parts(1,2)]
  have "is_online (after (Connect (uuid_text 7) [web_rule] 1) (gw_tunnel example_gateway)) (uuid_text 7)"
    by (simp add: after_def connect_agent_def register_def bindc_apply thenc_apply is_online_def update_conv')
  with admits [of 60000000] admits [of 60000001] show ?thesis by auto
qed


text \<open>A tunnel that is disabled keeps the session it has: the gateway changes the row and not the manager.\<close>

lemma disabling_keeps_sessions:
  "gw_tunnel (snd (set_agent_tunnel u agent enabled allowlist limit g)) = gw_tunnel g"
proof -
  have "keeps (\<lambda>h. gw_tunnel h = gw_tunnel g) (set_agent_tunnel u agent enabled allowlist limit)"
    unfolding set_agent_tunnel_def http_error_def by (intro keeps_structure keeps_modifyc) simp
  from keepsD [OF this, of g] show ?thesis by simp
qed

end
