(* ===== verification/TunnelRouting.thy ===== *)
theory TunnelRouting
  imports TunnelSocks TunnelRelay
begin

text \<open>
  How a connector reaches the network of an agent: its network path and the check of it
  (\<open>routers/connectors.py\<close>), the facade that turns it into an endpoint (\<open>tunnel/routing.py\<close>), the local listeners
  that forward to one destination each (\<open>tunnel/forwarder.py\<close>) and the internal proxy
  (\<open>tunnel/connector_proxy.py\<close>). Listeners live in a heap; the port of a new one is what the system gives.
\<close>

section \<open>State\<close>

type_synonym destination = "string \<times> string \<times> int"

record listener =
  li_port :: int
  li_key :: destination
  li_open :: bool

record fw_entry =
  fe_listener :: nat
  fe_host :: string
  fe_port :: int
  fe_last_used :: int

record router =
  ro_listeners :: "listener list"
  ro_servers :: "(destination \<times> fw_entry) list"
  ro_proxy :: "(string \<times> int) option"
  ro_tunnel :: tunnel

type_synonym 'a router_prog = "(router, 'a) comp"

section \<open>The forwarder\<close>

definition idle_timeout :: int where
  "idle_timeout = 300000000"

definition localhost :: string where
  "localhost = ''127.0.0.1''"

definition refresh :: "destination \<Rightarrow> int \<Rightarrow> unit router_prog" where
  "refresh key now =
     modifyc (\<lambda>r. r\<lparr>ro_servers := (case map_of (ro_servers r) key of
        None \<Rightarrow> ro_servers r
      | Some e \<Rightarrow> AList.update key (e\<lparr>fe_last_used := now\<rparr>) (ro_servers r))\<rparr>)"

definition start_server :: "destination \<Rightarrow> int \<Rightarrow> nat router_prog" where
  "start_server key port =
     bindc (gets (\<lambda>r. length (ro_listeners r))) (\<lambda>l.
       thenc (modifyc (\<lambda>r. r\<lparr>ro_listeners := ro_listeners r @ [\<lparr>li_port = port, li_key = key, li_open = True\<rparr>]\<rparr>)) (ret l))"

definition endpoint_for :: "int \<Rightarrow> string \<Rightarrow> string \<Rightarrow> int \<Rightarrow> int \<Rightarrow> (string \<times> int) router_prog" where
  "endpoint_for free agent host port now =
     (let key = (agent, host, port) in
      bindc (gets (\<lambda>r. map_of (ro_servers r) key)) (\<lambda>existing.
        case existing of
          Some e \<Rightarrow> thenc (refresh key now) (ret (fe_host e, fe_port e))
        | None \<Rightarrow>
            bindc (start_server key free) (\<lambda>l.
              thenc (modifyc (\<lambda>r. r\<lparr>ro_servers := ro_servers r @
                  [(key, \<lparr>fe_listener = l, fe_host = localhost, fe_port = free, fe_last_used = now\<rparr>)]\<rparr>))
                (ret (localhost, free)))))"

text \<open>A connection accepted by a listener, until its dial waits for the agent; a dial that fails closes it.\<close>

definition on_router_tunnel :: "'a tunnel_prog \<Rightarrow> 'a router_prog" where
  "on_router_tunnel m = (\<lambda>r. case m (ro_tunnel r) of (x, t) \<Rightarrow> (x, r\<lparr>ro_tunnel := t\<rparr>))"

definition accept_connection :: "nat \<Rightarrow> string option \<Rightarrow> int \<Rightarrow> bool router_prog" where
  "accept_connection l denied now =
     bindc (gets (\<lambda>r. li_key (ro_listeners r ! l))) (\<lambda>(agent, host, port).
       thenc (refresh (agent, host, port) now)
         (catchc (thenc (on_router_tunnel (manager_dial denied agent host port)) (ret True)) (\<lambda>_. ret False)))"

definition close_listener :: "nat \<Rightarrow> router \<Rightarrow> router" where
  "close_listener l r = r\<lparr>ro_listeners := (ro_listeners r)[l := (ro_listeners r ! l)\<lparr>li_open := False\<rparr>]\<rparr>"

definition reap_entry :: "destination \<times> fw_entry \<Rightarrow> unit router_prog" where
  "reap_entry p =
     modifyc (\<lambda>r. close_listener (fe_listener (snd p)) (r\<lparr>ro_servers := AList.delete (fst p) (ro_servers r)\<rparr>))"

definition reap_idle :: "int \<Rightarrow> unit router_prog" where
  "reap_idle now =
     bindc (gets (\<lambda>r. filter (\<lambda>(_, e). idle_timeout < now - fe_last_used e) (ro_servers r))) (\<lambda>stale.
       seqc (map reap_entry stale))"

definition stop_all :: "unit router_prog" where
  "stop_all =
     bindc (gets ro_servers) (\<lambda>servers.
       thenc (seqc (map (\<lambda>(_, e). modifyc (close_listener (fe_listener e))) servers))
         (modifyc (\<lambda>r. r\<lparr>ro_servers := []\<rparr>)))"

section \<open>The facade\<close>

definition via_prefix :: string where
  "via_prefix = ''via_agent:''"

definition agent_id_for :: "string \<Rightarrow> string option" where
  "agent_id_for network_path =
     (let np = (if network_path = [] then ''direct'' else network_path)
      in if starts_with np via_prefix then Some (drop (length via_prefix) np) else None)"

definition guard_online :: "string \<Rightarrow> unit router_prog" where
  "guard_online network_path =
     (case agent_id_for network_path of
        None \<Rightarrow> ret ()
      | Some agent \<Rightarrow>
          bindc (gets (\<lambda>r. is_online (ro_tunnel r) agent)) (\<lambda>online.
            if online then ret () else raise (Exn ConnectorRoutingError ''agent is not connected'')))"

text \<open>\<open>ConnectorSocksProxy\<close>: one internal server, started when it is first asked for.\<close>

definition proxy_url :: "string \<Rightarrow> int \<Rightarrow> string \<Rightarrow> string router_prog" where
  "proxy_url token free agent =
     bindc (gets ro_proxy) (\<lambda>addr.
       bindc (case addr of
                Some a \<Rightarrow> ret a
              | None \<Rightarrow> thenc (modifyc (\<lambda>r. r\<lparr>ro_proxy := Some (localhost, free)\<rparr>)) (ret (localhost, free))) (\<lambda>(host, port).
         ret (''socks5://'' @ agent @ '':'' @ token @ ''@'' @ host @ '':'' @ string_of_int port)))"

definition stop_proxy :: "unit router_prog" where
  "stop_proxy = modifyc (\<lambda>r. r\<lparr>ro_proxy := None\<rparr>)"

definition http_proxy :: "string \<Rightarrow> int \<Rightarrow> string \<Rightarrow> string option router_prog" where
  "http_proxy token free network_path =
     (case agent_id_for network_path of
        None \<Rightarrow> ret None
      | Some agent \<Rightarrow> thenc (guard_online network_path) (bindc (proxy_url token free agent) (\<lambda>url. ret (Some url))))"

definition tcp_endpoint :: "int \<Rightarrow> string \<Rightarrow> string \<Rightarrow> int \<Rightarrow> int \<Rightarrow> (string \<times> int) router_prog" where
  "tcp_endpoint free network_path host port now =
     (case agent_id_for network_path of
        None \<Rightarrow> ret (host, port)
      | Some agent \<Rightarrow> thenc (guard_online network_path) (endpoint_for free agent host port now))"

definition routable_connector_types :: "string list" where
  "routable_connector_types =
     [''postgres'', ''redis'', ''mongodb'', ''ssh'', ''winrm'', ''ldap'', ''active_directory'', ''freeipa'', ''gitlab'',
      ''gitea'', ''keycloak'', ''okta'', ''entra_id'', ''azure_ad'', ''sentinelone'', ''defender_endpoint'', ''wiz'', ''snyk'',
      ''qualys'', ''runzero'', ''jira'', ''servicenow'', ''pagerduty'', ''datadog'', ''splunk'', ''github'', ''cloudflare'',
      ''zscaler'', ''elastic'', ''nessus'', ''openvas'', ''wazuh'', ''infisical'', ''jfrog'']"

definition validate_network_path :: "string \<Rightarrow> string \<Rightarrow> uuid \<Rightarrow> gateway \<Rightarrow> exn + unit" where
  "validate_network_path network_path ctype org g =
     (if network_path = [] \<or> network_path = ''direct'' then Inr ()
      else if \<not> starts_with network_path via_prefix
      then Inl (Exn (HTTPException 400) ''network_path must be direct or via_agent:<agent_id>'')
      else if ctype \<notin> set routable_connector_types
      then Inl (Exn (HTTPException 400) ''Routing via agent is not supported'')
      else case uuid_of (snd (snd (partition_at (CHR '':'') network_path))) of
        None \<Rightarrow> Inl (Exn (HTTPException 400) ''Invalid agent id in network_path'')
      | Some aid \<Rightarrow>
          (case List.find (\<lambda>r. ar_id r = aid \<and> ar_organization_id r = org) (gw_agents g) of
             None \<Rightarrow> Inl (Exn (HTTPException 400) ''Referenced agent is not a tunnel-enabled agent in this organization'')
           | Some reg \<Rightarrow>
               if ar_enabled reg then Inr ()
               else Inl (Exn (HTTPException 400) ''Referenced agent is not a tunnel-enabled agent in this organization'')))"

section \<open>Listeners and their entries\<close>

text \<open>The table and the open listeners are the same, one for each destination, on ports of their own.\<close>

definition routed :: "router \<Rightarrow> bool" where
  "routed r \<longleftrightarrow>
     distinct (map fst (ro_servers r)) \<and>
     (\<forall>key e. (key, e) \<in> set (ro_servers r) \<longrightarrow>
        fe_listener e < length (ro_listeners r) \<and> fe_host e = localhost \<and>
        ro_listeners r ! fe_listener e = \<lparr>li_port = fe_port e, li_key = key, li_open = True\<rparr>) \<and>
     (\<forall>l<length (ro_listeners r). li_open (ro_listeners r ! l) \<longrightarrow>
        (\<exists>e. (li_key (ro_listeners r ! l), e) \<in> set (ro_servers r) \<and> fe_listener e = l)) \<and>
     (\<forall>k<length (ro_listeners r). \<forall>l<length (ro_listeners r).
        li_open (ro_listeners r ! k) \<longrightarrow> li_open (ro_listeners r ! l) \<longrightarrow>
        li_port (ro_listeners r ! k) = li_port (ro_listeners r ! l) \<longrightarrow> k = l)"

definition port_free :: "int \<Rightarrow> router \<Rightarrow> bool" where
  "port_free q r \<longleftrightarrow> (\<forall>l\<in>set (ro_listeners r). li_open l \<longrightarrow> li_port l \<noteq> q)"

lemma routedD:
  assumes "routed r"
  shows "distinct (map fst (ro_servers r))"
    and "(key, e) \<in> set (ro_servers r) \<Longrightarrow> fe_listener e < length (ro_listeners r) \<and> fe_host e = localhost \<and>
        ro_listeners r ! fe_listener e = \<lparr>li_port = fe_port e, li_key = key, li_open = True\<rparr>"
    and "l < length (ro_listeners r) \<Longrightarrow> li_open (ro_listeners r ! l) \<Longrightarrow>
        \<exists>e. (li_key (ro_listeners r ! l), e) \<in> set (ro_servers r) \<and> fe_listener e = l"
    and "k < length (ro_listeners r) \<Longrightarrow> l < length (ro_listeners r) \<Longrightarrow> li_open (ro_listeners r ! k) \<Longrightarrow>
        li_open (ro_listeners r ! l) \<Longrightarrow> li_port (ro_listeners r ! k) = li_port (ro_listeners r ! l) \<Longrightarrow> k = l"
  using assms unfolding routed_def by blast+

lemma routed_tunnel: "routed r \<Longrightarrow> routed (r\<lparr>ro_tunnel := t\<rparr>)"
  by (simp add: routed_def)

lemma routed_refresh:
  assumes r: "routed r"
  shows "routed (snd (refresh key now r))"
proof (cases "map_of (ro_servers r) key")
  case None
  then show ?thesis using r by (simp add: refresh_def)
next
  case (Some e)
  let ?u = "snd (refresh key now r)"
  have servers: "(k, f) \<in> set (ro_servers ?u) \<longleftrightarrow>
      (if k = key then f = e\<lparr>fe_last_used := now\<rparr> else (k, f) \<in> set (ro_servers r))" for k f
  proof -
    have keys: "distinct (map fst (AList.update key (e\<lparr>fe_last_used := now\<rparr>) (ro_servers r)))"
      using routedD(1) [OF r] by (rule distinct_update)
    have "map_of (ro_servers ?u) k = Some f \<longleftrightarrow>
        (if k = key then f = e\<lparr>fe_last_used := now\<rparr> else map_of (ro_servers r) k = Some f)"
      using Some by (auto simp: refresh_def update_conv')
    then show ?thesis using keys routedD(1) [OF r] Some by (simp add: refresh_def)
  qed
  have "(key, e) \<in> set (ro_servers r)" using Some by (rule map_of_SomeD)
  note entry = routedD(2) [OF r this]
  have same: "ro_listeners ?u = ro_listeners r" using Some by (simp add: refresh_def)
  have "\<exists>f. (li_key (ro_listeners r ! l), f) \<in> set (ro_servers ?u) \<and> fe_listener f = l"
    if "l < length (ro_listeners r)" "li_open (ro_listeners r ! l)" for l
  proof -
    from routedD(3) [OF r that] obtain f where f: "(li_key (ro_listeners r ! l), f) \<in> set (ro_servers r)" "fe_listener f = l"
      by blast
    have "f = e" if "li_key (ro_listeners r ! l) = key"
      using map_of_is_SomeI [OF routedD(1) [OF r] f(1)] Some that by simp
    with f show ?thesis unfolding servers
      by (intro exI [of _ "if li_key (ro_listeners r ! l) = key then f\<lparr>fe_last_used := now\<rparr> else f"]) auto
  qed
  moreover have "distinct (map fst (ro_servers ?u))"
    using distinct_update [OF routedD(1) [OF r]] Some by (simp add: refresh_def)
  moreover have "fe_listener f < length (ro_listeners r) \<and> fe_host f = localhost \<and>
      ro_listeners r ! fe_listener f = \<lparr>li_port = fe_port f, li_key = k, li_open = True\<rparr>"
    if "(k, f) \<in> set (ro_servers ?u)" for k f
    using that entry routedD(2) [OF r, of k f] unfolding servers by (cases "k = key") auto
  ultimately show ?thesis using routedD(4) [OF r] unfolding routed_def same by blast
qed

lemma routed_endpoint:
  assumes r: "routed r" and free: "port_free free r"
  shows "routed (snd (endpoint_for free agent host port now r))"
proof (cases "map_of (ro_servers r) (agent, host, port)")
  case (Some e)
  then show ?thesis using routed_refresh [OF r, of "(agent, host, port)" now]
    by (simp add: endpoint_for_def Let_def thenc_apply bindc_apply refresh_def)
next
  case None
  let ?key = "(agent, host, port)"
  let ?l = "\<lparr>li_port = free, li_key = ?key, li_open = True\<rparr>"
  let ?e = "\<lparr>fe_listener = length (ro_listeners r), fe_host = localhost, fe_port = free, fe_last_used = now\<rparr>"
  let ?u = "r\<lparr>ro_listeners := ro_listeners r @ [?l], ro_servers := ro_servers r @ [(?key, ?e)]\<rparr>"
  have u: "snd (endpoint_for free agent host port now r) = ?u"
    using None by (simp add: endpoint_for_def start_server_def Let_def thenc_apply bindc_apply)
  have new: "?key \<notin> fst ` set (ro_servers r)" using None by (simp add: map_of_eq_None_iff)
  have old: "li_port (ro_listeners r ! k) \<noteq> free" if "k < length (ro_listeners r)" "li_open (ro_listeners r ! k)" for k
    using free that by (simp add: port_free_def)
  have "distinct (map fst (ro_servers ?u))" using routedD(1) [OF r] new by auto
  moreover have "fe_listener f < length (ro_listeners ?u) \<and> fe_host f = localhost \<and>
      ro_listeners ?u ! fe_listener f = \<lparr>li_port = fe_port f, li_key = k, li_open = True\<rparr>"
    if "(k, f) \<in> set (ro_servers ?u)" for k f
    using that routedD(2) [OF r, of k f] by (auto simp: nth_append)
  moreover have "\<exists>f. (li_key (ro_listeners ?u ! l), f) \<in> set (ro_servers ?u) \<and> fe_listener f = l"
    if "l < length (ro_listeners ?u)" "li_open (ro_listeners ?u ! l)" for l
    using that routedD(3) [OF r, of l] by (cases "l = length (ro_listeners r)") (auto simp: nth_append)
  moreover have "k = l" if "k < length (ro_listeners ?u)" "l < length (ro_listeners ?u)" "li_open (ro_listeners ?u ! k)"
      "li_open (ro_listeners ?u ! l)" "li_port (ro_listeners ?u ! k) = li_port (ro_listeners ?u ! l)" for k l
    using that routedD(4) [OF r, of k l] old
    by (auto simp: nth_append less_Suc_eq split: if_splits)
  ultimately show ?thesis unfolding u routed_def by blast
qed

lemma routed_close_entry:
  assumes r: "routed r" and e: "(key, e) \<in> set (ro_servers r)"
  shows "routed (close_listener (fe_listener e) (r\<lparr>ro_servers := AList.delete key (ro_servers r)\<rparr>))"
proof -
  let ?u = "close_listener (fe_listener e) (r\<lparr>ro_servers := AList.delete key (ro_servers r)\<rparr>)"
  note entry = routedD(2) [OF r e]
  have servers: "(k, f) \<in> set (ro_servers ?u) \<longleftrightarrow> (k, f) \<in> set (ro_servers r) \<and> k \<noteq> key" for k f
    by (auto simp: close_listener_def AList.delete_eq)
  have len: "length (ro_listeners ?u) = length (ro_listeners r)" by (simp add: close_listener_def)
  have at: "ro_listeners ?u ! l = (if l = fe_listener e then (ro_listeners r ! l)\<lparr>li_open := False\<rparr> else ro_listeners r ! l)"
    if "l < length (ro_listeners r)" for l using that by (simp add: close_listener_def nth_list_update)
  have other: "fe_listener f \<noteq> fe_listener e" if "(k, f) \<in> set (ro_servers r)" "k \<noteq> key" for k f
    using routedD(2) [OF r that(1)] entry that(2) by auto
  have "distinct (map fst (ro_servers ?u))"
    using distinct_delete [OF routedD(1) [OF r]] by (simp add: close_listener_def)
  moreover have "fe_listener f < length (ro_listeners ?u) \<and> fe_host f = localhost \<and>
      ro_listeners ?u ! fe_listener f = \<lparr>li_port = fe_port f, li_key = k, li_open = True\<rparr>"
    if "(k, f) \<in> set (ro_servers ?u)" for k f
    using that routedD(2) [OF r, of k f] other [of k f] unfolding servers len by (simp add: at)
  moreover have "\<exists>f. (li_key (ro_listeners ?u ! l), f) \<in> set (ro_servers ?u) \<and> fe_listener f = l"
    if "l < length (ro_listeners ?u)" "li_open (ro_listeners ?u ! l)" for l
  proof -
    from that have l: "l < length (ro_listeners r)" by (simp add: len)
    with that have ne: "l \<noteq> fe_listener e" and op: "li_open (ro_listeners r ! l)" by (auto simp: at split: if_splits)
    from routedD(3) [OF r l op] obtain f where f: "(li_key (ro_listeners r ! l), f) \<in> set (ro_servers r)" "fe_listener f = l"
      by blast
    have "li_key (ro_listeners r ! l) \<noteq> key"
    proof
      assume "li_key (ro_listeners r ! l) = key"
      with map_of_is_SomeI [OF routedD(1) [OF r] f(1)] map_of_is_SomeI [OF routedD(1) [OF r] e] have "f = e" by simp
      with f(2) ne show False by simp
    qed
    with f show ?thesis unfolding servers using at [OF l] ne by auto
  qed
  moreover have "k = l" if "k < length (ro_listeners ?u)" "l < length (ro_listeners ?u)" "li_open (ro_listeners ?u ! k)"
      "li_open (ro_listeners ?u ! l)" "li_port (ro_listeners ?u ! k) = li_port (ro_listeners ?u ! l)" for k l
    using that routedD(4) [OF r, of k l] unfolding len by (auto simp: at split: if_splits)
  ultimately show ?thesis unfolding routed_def by blast
qed

text \<open>Reaping goes through the stale entries of the table as it was.\<close>

lemma routed_reap_entries:
  assumes "routed r" and "set es \<subseteq> set (ro_servers r)" and "distinct (map fst es)"
  shows "routed (snd (seqc (map reap_entry es) r)) \<and>
      ro_servers (snd (seqc (map reap_entry es) r)) = filter (\<lambda>(k, _). k \<notin> fst ` set es) (ro_servers r)"
  using assms
proof (induction es arbitrary: r)
  case Nil
  then show ?case by simp
next
  case (Cons p es)
  obtain key e where p: "p = (key, e)" by (cases p)
  let ?u = "close_listener (fe_listener e) (r\<lparr>ro_servers := AList.delete key (ro_servers r)\<rparr>)"
  have e: "(key, e) \<in> set (ro_servers r)" using Cons.prems(2) p by simp
  have servers: "ro_servers ?u = filter (\<lambda>(k, _). key \<noteq> k) (ro_servers r)"
    by (simp add: close_listener_def AList.delete_eq case_prod_unfold)
  have sub: "set es \<subseteq> set (ro_servers ?u)"
    using Cons.prems(2,3) p unfolding servers by (auto simp: image_iff)
  have step: "seqc (map reap_entry (p # es)) r = seqc (map reap_entry es) ?u" by (simp add: p reap_entry_def)
  from Cons.IH [OF routed_close_entry [OF Cons.prems(1) e] sub] Cons.prems(3) show ?case
    unfolding step servers by (auto simp: p case_prod_unfold intro: filter_cong)
qed

lemma routed_reap:
  assumes r: "routed r"
  shows "routed (snd (reap_idle now r)) \<and>
    (\<forall>(key, e)\<in>set (ro_servers (snd (reap_idle now r))). now - fe_last_used e \<le> idle_timeout)"
proof -
  let ?stale = "filter (\<lambda>(_, e). idle_timeout < now - fe_last_used e) (ro_servers r)"
  have "distinct (map fst ?stale)" using routedD(1) [OF r] by (simp add: distinct_map_filter)
  with routed_reap_entries [OF r, of ?stale] have reap: "routed (snd (reap_idle now r))"
      "ro_servers (snd (reap_idle now r)) = filter (\<lambda>(k, _). k \<notin> fst ` set ?stale) (ro_servers r)"
    by (auto simp: reap_idle_def)
  have "now - fe_last_used e \<le> idle_timeout" if "(key, e) \<in> set (ro_servers (snd (reap_idle now r)))" for key e
  proof (rule ccontr)
    assume "\<not> now - fe_last_used e \<le> idle_timeout"
    with that reap(2) have "(key, e) \<in> set ?stale" by auto
    then have "key \<in> fst ` set ?stale" by force
    with that reap(2) show False by auto
  qed
  with reap(1) show ?thesis by blast
qed

lemma close_all:
  "l < length (ro_listeners r) \<Longrightarrow>
   length (ro_listeners (snd (seqc (map (\<lambda>(_, e). modifyc (close_listener (fe_listener e))) es) r))) = length (ro_listeners r) \<and>
   (li_open (ro_listeners (snd (seqc (map (\<lambda>(_, e). modifyc (close_listener (fe_listener e))) es) r)) ! l) \<longleftrightarrow>
     li_open (ro_listeners r ! l) \<and> l \<notin> (\<lambda>(_, e). fe_listener e) ` set es) \<and>
   fst (seqc (map (\<lambda>(_, e). modifyc (close_listener (fe_listener e))) es) r) = Inr ()"
proof (induction es arbitrary: r)
  case (Cons p es)
  obtain key e where p: "p = (key, e)" by (cases p)
  let ?u = "close_listener (fe_listener e) r"
  have one: "length (ro_listeners ?u) = length (ro_listeners r)"
      "li_open (ro_listeners ?u ! l) \<longleftrightarrow> li_open (ro_listeners r ! l) \<and> l \<noteq> fe_listener e"
    using Cons.prems by (simp add: close_listener_def, cases "l = fe_listener e") (simp_all add: close_listener_def)
  then have "l < length (ro_listeners ?u)" using Cons.prems by simp
  from Cons.IH [OF this] one show ?case unfolding p by (auto simp: thenc_apply)
qed simp

lemma close_none: "fst (seqc (map (\<lambda>(_, e). modifyc (close_listener (fe_listener e))) es) r) = Inr () \<and>
   length (ro_listeners (snd (seqc (map (\<lambda>(_, e). modifyc (close_listener (fe_listener e))) es) r))) = length (ro_listeners r)"
  by (induction es arbitrary: r) (auto simp: close_listener_def case_prod_unfold)

lemma routed_stop:
  assumes r: "routed r"
  shows "routed (snd (stop_all r)) \<and> (\<forall>l\<in>set (ro_listeners (snd (stop_all r))). \<not> li_open l)"
proof -
  let ?m = "seqc (map (\<lambda>(_, e). modifyc (close_listener (fe_listener e))) (ro_servers r))"
  obtain u where u: "?m r = (Inr (), u)" using close_none [of "ro_servers r" r] by (cases "?m r") simp
  have len: "length (ro_listeners u) = length (ro_listeners r)" using close_none [of "ro_servers r" r] u by simp
  have closed: "\<not> li_open (ro_listeners u ! l)" if "l < length (ro_listeners r)" for l
  proof
    assume "li_open (ro_listeners u ! l)"
    with close_all [OF that, of "ro_servers r"] u have "li_open (ro_listeners r ! l)"
        "l \<notin> (\<lambda>(_, e). fe_listener e) ` set (ro_servers r)" by simp_all
    with routedD(3) [OF r that] show False by force
  qed
  have stop: "snd (stop_all r) = u\<lparr>ro_servers := []\<rparr>" using u by (simp add: stop_all_def thenc_apply)
  from closed show ?thesis unfolding stop routed_def by (simp add: len all_set_conv_all_nth)
qed

section \<open>What a route reaches\<close>

text \<open>The listeners over time: endpoints are asked for, connections accepted, idle listeners reaped. The system gives
  a new listener a port on which none listens.\<close>

inductive router_run :: "router \<Rightarrow> bool" where
    router_start: "ro_listeners r = [] \<Longrightarrow> ro_servers r = [] \<Longrightarrow> router_run r"
  | router_endpoint: "router_run r \<Longrightarrow> port_free free r \<Longrightarrow>
      router_run (snd (tcp_endpoint free network_path host port now r))"
  | router_accept: "router_run r \<Longrightarrow> l < length (ro_listeners r) \<Longrightarrow> router_run (snd (accept_connection l denied now r))"
  | router_reap: "router_run r \<Longrightarrow> router_run (snd (reap_idle now r))"
  | router_stop: "router_run r \<Longrightarrow> router_run (snd (stop_all r))"
  | router_proxy: "router_run r \<Longrightarrow> router_run (snd (http_proxy token free network_path r))"
  | router_tunnel: "router_run r \<Longrightarrow> possible (ro_tunnel r) e \<Longrightarrow> router_run (r\<lparr>ro_tunnel := after e (ro_tunnel r)\<rparr>)"

lemma keeps_on_router_tunnel: "keeps routed (on_router_tunnel m)"
  unfolding keeps_def on_router_tunnel_def by (auto intro: routed_tunnel split: prod.split)

lemma keeps_refresh: "keeps routed (refresh key now)"
  by (simp add: keeps_def routed_refresh)

lemma guard_online_same: "snd (guard_online network_path r) = r"
  by (simp add: guard_online_def split: option.split)

lemma tcp_endpoint_via:
  "agent_id_for network_path = Some agent \<Longrightarrow>
   tcp_endpoint free network_path host port now r =
     (if is_online (ro_tunnel r) agent then endpoint_for free agent host port now r
      else (Inl (Exn ConnectorRoutingError ''agent is not connected''), r))"
  by (simp add: tcp_endpoint_def guard_online_def thenc_apply)

lemma router_run_routed: "router_run r \<Longrightarrow> routed r"
proof (induction rule: router_run.induct)
  case (router_start r)
  then show ?case by (simp add: routed_def)
next
  case (router_endpoint r free network_path host port now)
  then show ?case
  proof (cases "agent_id_for network_path")
    case None
    with router_endpoint show ?thesis by (simp add: tcp_endpoint_def)
  next
    case (Some agent)
    with router_endpoint routed_endpoint show ?thesis by (simp add: tcp_endpoint_via)
  qed
next
  case (router_accept r l denied now)
  have "keeps routed (accept_connection l denied now)"
    unfolding accept_connection_def by (intro keeps_structure keeps_refresh keeps_on_router_tunnel)
  with router_accept show ?case by (simp add: keepsD)
next
  case (router_reap r now)
  with routed_reap show ?case by blast
next
  case (router_stop r)
  with routed_stop show ?case by blast
next
  case (router_proxy r token free network_path)
  have "keeps routed (modifyc (\<lambda>r. r\<lparr>ro_proxy := a\<rparr>))" for a by (rule keeps_modifyc) (simp add: routed_def)
  moreover have "keeps routed (guard_online network_path)" by (simp add: keeps_def guard_online_same)
  ultimately have "keeps routed (http_proxy token free network_path)"
    unfolding http_proxy_def proxy_url_def by (intro keeps_structure)
  with router_proxy show ?case by (simp add: keepsD)
next
  case (router_tunnel r e)
  then show ?case by (simp add: routed_tunnel)
qed

lemma endpoint_entry:
  assumes r: "routed r" and run: "endpoint_for free agent host port now r = (Inr (addr, q), r')"
  shows "\<exists>e. map_of (ro_servers r') (agent, host, port) = Some e \<and> fe_port e = q \<and> fe_host e = addr"
proof (cases "map_of (ro_servers r) (agent, host, port)")
  case None
  with run show ?thesis
    by (auto simp: endpoint_for_def start_server_def Let_def thenc_apply bindc_apply map_add_def)
next
  case (Some e)
  with run show ?thesis
    by (auto simp: endpoint_for_def Let_def thenc_apply bindc_apply refresh_def update_conv')
qed

text \<open>C32: A route reaches its destination and no other. When a connector with the path of an agent is given an
  endpoint for a host and a port, the agent is connected, the endpoint is on the local host, and exactly one open
  listener has its port: a connection that this listener accepts is a dial through that agent, to that host and port.\<close>

theorem endpoint_dials_destination:
  assumes "router_run r" and "port_free free r" and "agent_id_for network_path = Some agent"
    and "tcp_endpoint free network_path host port now r = (Inr (addr, q), r')"
  shows "is_online (ro_tunnel r) agent \<and> addr = localhost \<and>
    (\<exists>l<length (ro_listeners r'). li_open (ro_listeners r' ! l) \<and> li_port (ro_listeners r' ! l) = q \<and>
       (\<forall>k<length (ro_listeners r'). li_open (ro_listeners r' ! k) \<longrightarrow> li_port (ro_listeners r' ! k) = q \<longrightarrow> k = l) \<and>
       (\<forall>denied now'. ro_tunnel (snd (accept_connection l denied now' r')) =
          after (Dial denied agent host port) (ro_tunnel r')))"
proof -
  have on: "is_online (ro_tunnel r) agent" and run: "endpoint_for free agent host port now r = (Inr (addr, q), r')"
    using assms(3,4) by (simp_all add: tcp_endpoint_via split: if_splits)
  have r': "routed r'" using routed_endpoint [OF router_run_routed [OF assms(1)] assms(2)] run by (metis snd_conv)
  obtain e where e: "map_of (ro_servers r') (agent, host, port) = Some e" "fe_port e = q" "fe_host e = addr"
    using endpoint_entry [OF router_run_routed [OF assms(1)] run] by blast
  note entry = routedD(2) [OF r' map_of_SomeD [OF e(1)]]
  let ?l = "fe_listener e"
  have dial: "ro_tunnel (snd (accept_connection ?l denied now' r')) = after (Dial denied agent host port) (ro_tunnel r')"
    for denied now'
  proof -
    obtain x t where x: "manager_dial denied agent host port (ro_tunnel r') = (x, t)" by fastforce
    obtain w where "refresh (agent, host, port) now' r' = (Inr (), w)" "ro_tunnel w = ro_tunnel r'"
      by (simp add: refresh_def)
    with x entry show ?thesis
      by (cases x) (simp_all add: accept_connection_def thenc_apply catchc_apply on_router_tunnel_def after_def)
  qed
  show ?thesis
    using on entry e(2,3) dial routedD(4) [OF r', of _ ?l] by (intro conjI exI [of _ ?l]) auto
qed

text \<open>Listeners do not pile up. At every moment the open listeners are exactly those of the table, one for each
  destination; after the idle ones are reaped, each that is left was used in the last five minutes; and after
  everything is stopped, none is open.\<close>

theorem listeners_accounted:
  assumes "router_run r"
  shows "(\<forall>l<length (ro_listeners r). li_open (ro_listeners r ! l) \<longleftrightarrow>
      (\<exists>e. map_of (ro_servers r) (li_key (ro_listeners r ! l)) = Some e \<and> fe_listener e = l)) \<and>
    (\<forall>(key, e)\<in>set (ro_servers (snd (reap_idle now r))). now - fe_last_used e \<le> 300000000) \<and>
    (\<forall>l\<in>set (ro_listeners (snd (stop_all r))). \<not> li_open l)"
proof -
  note r = router_run_routed [OF assms]
  have "li_open (ro_listeners r ! l) \<longleftrightarrow>
      (\<exists>e. map_of (ro_servers r) (li_key (ro_listeners r ! l)) = Some e \<and> fe_listener e = l)"
    if "l < length (ro_listeners r)" for l
  proof
    assume "li_open (ro_listeners r ! l)"
    from routedD(3) [OF r that this] obtain e where e: "(li_key (ro_listeners r ! l), e) \<in> set (ro_servers r)" "fe_listener e = l"
      by blast
    with map_of_is_SomeI [OF routedD(1) [OF r] e(1)] show
        "\<exists>e. map_of (ro_servers r) (li_key (ro_listeners r ! l)) = Some e \<and> fe_listener e = l" by blast
  next
    assume "\<exists>e. map_of (ro_servers r) (li_key (ro_listeners r ! l)) = Some e \<and> fe_listener e = l"
    then obtain e where e: "map_of (ro_servers r) (li_key (ro_listeners r ! l)) = Some e" "fe_listener e = l" by blast
    from routedD(2) [OF r map_of_SomeD [OF e(1)]] e(2) show "li_open (ro_listeners r ! l)"
      by (metis listener.select_convs(3))
  qed
  with routed_reap [OF r, of now] routed_stop [OF r] show ?thesis by (simp add: idle_timeout_def)
qed

section \<open>Examples\<close>

definition example_router :: router where
  "example_router = \<lparr>ro_listeners = [], ro_servers = [], ro_proxy = None, ro_tunnel = example_tunnel\<rparr>"

definition routed_router :: router where
  "routed_router = example_router\<lparr>
     ro_listeners := [\<lparr>li_port = 40000, li_key = (''a'', ''web'', 443), li_open = True\<rparr>],
     ro_servers := [((''a'', ''web'', 443), \<lparr>fe_listener = 0, fe_host = localhost, fe_port = 40000, fe_last_used = 5\<rparr>)]\<rparr>"

lemma example_route:
  "router_run example_router" "port_free 40000 example_router" "agent_id_for ''via_agent:a'' = Some ''a''"
  "tcp_endpoint 40000 ''via_agent:a'' ''web'' 443 5 example_router = (Inr (localhost, 40000), routed_router)"
  "router_run routed_router"
proof -
  show start: "router_run example_router" by (rule router_start) (simp_all add: example_router_def)
  show free: "port_free 40000 example_router" by (simp add: port_free_def example_router_def)
  show via: "agent_id_for ''via_agent:a'' = Some ''a''" by code_simp
  have "is_online (ro_tunnel example_router) ''a''" by (simp add: example_router_def is_online_def example_tunnel_def)
  then show ep: "tcp_endpoint 40000 ''via_agent:a'' ''web'' 443 5 example_router = (Inr (localhost, 40000), routed_router)"
    by (simp add: tcp_endpoint_via [OF via] endpoint_for_def start_server_def Let_def thenc_apply bindc_apply
        routed_router_def example_router_def)
  from router_endpoint [OF start free, of "''via_agent:a''" "''web''" 443 5] ep show "router_run routed_router" by simp
qed

theorem endpoint_dials_destination_witness:
  "\<exists>l<length (ro_listeners routed_router). li_port (ro_listeners routed_router ! l) = 40000 \<and>
     ro_tunnel (snd (accept_connection l None 6 routed_router)) = after (Dial None ''a'' ''web'' 443) (ro_tunnel routed_router)"
  using endpoint_dials_destination [OF example_route(1-4)] by blast

theorem listeners_accounted_witness:
  "li_open (ro_listeners routed_router ! 0) \<and> ro_servers (snd (reap_idle 300000006 routed_router)) = [] \<and>
   ro_servers (snd (reap_idle 300000005 routed_router)) \<noteq> []"
proof -
  have "ro_servers (snd (reap_idle 300000005 routed_router)) \<noteq> []"
    by (simp add: reap_idle_def routed_router_def idle_timeout_def)
  moreover have "ro_servers (snd (reap_idle 300000006 routed_router)) = []"
    by (simp add: reap_idle_def reap_entry_def routed_router_def idle_timeout_def close_listener_def thenc_apply)
  ultimately show ?thesis using listeners_accounted [OF example_route(5)] by (simp add: routed_router_def)
qed

text \<open>A path is checked with any spelling of the identifier, but routed by its text: in capital letters it is accepted,
  and the agent is never found connected.\<close>

lemma uppercase_path_never_routes:
  "let path = ''via_agent:'' @ map (\<lambda>c. if c = CHR ''a'' then CHR ''A'' else c) (uuid_text 10);
       g = example_gateway\<lparr>gw_agents := [\<lparr>ar_id = uuid_text 10, ar_organization_id = ''org'', ar_enabled = True,
         ar_allowlist = [''web:443''], ar_max_concurrent = 1\<rparr>]\<rparr>;
       t = after (Connect (uuid_text 10) [web_rule] 1) no_tunnels
   in validate_network_path path ''ssh'' ''org'' g = Inr () \<and> is_online t (uuid_text 10) \<and>
      fst (tcp_endpoint 40000 path ''web'' 443 5 (example_router\<lparr>ro_tunnel := t\<rparr>)) =
        Inl (Exn ConnectorRoutingError ''agent is not connected'')"
  by code_simp

end
