(* ===== verification/ChangeTypes.thy ===== *)
theory ChangeTypes
  imports Models
begin

text \<open>
  The enumeration \<open>ChangeType\<close> (\<open>models/change_request.py\<close>). A member of a \<open>str\<close> enumeration compares as
  its value, and every member is named like its value, so the members are strings, in the order of
  the class. Calling the enumeration on any other text raises \<open>ValueError\<close>.
\<close>

definition change_types_1 :: "string list" where
  "change_types_1 =
     [''dns_update'', ''snapshot_asset'', ''security_group_update'', ''key_rotation'',
      ''telemetry_agent_deploy'', ''remote_command'', ''microsegmentation_policy'',
      ''ec2_stop'', ''ec2_start'', ''ec2_reboot'', ''ec2_stop_start'', ''ec2_launch'',
      ''ec2_terminate'', ''key_pair_create'', ''ssm_command'', ''tailscale_join'',
      ''tailscale_remove'', ''tailscale_generate_auth_key'', ''deploy_nexplane_agent'',
      ''terraform_local_apply'', ''ansible_local_playbook'', ''iam_user_create'',
      ''iam_user_delete'', ''s3_bucket_create'', ''s3_bucket_delete'',
      ''s3_lifecycle_configure'', ''route53_zone_create'', ''route53_record_upsert'',
      ''route53_record_delete'', ''route53_dnssec_enable'', ''rds_instance_create'',
      ''rds_instance_delete'', ''rds_snapshot_create'', ''cloudwatch_alarm_create'',
      ''cloudwatch_alarm_delete'', ''gce_instance_create'', ''gce_stop'', ''gce_start'',
      ''gce_instance_reboot'', ''gce_instance_delete'', ''gce_disk_snapshot'',
      ''gcp_bucket_create'', ''gcp_bucket_delete'', ''gcp_service_account_create'',
      ''gcp_service_account_delete'', ''gcp_iam_binding_add'', ''gcp_iam_binding_remove'',
      ''gcp_dns_zone_create'', ''gcp_dns_zone_delete'', ''gcp_dns_record_create'',
      ''gcp_dns_record_delete'', ''gcp_cloudsql_instance_create'',
      ''gcp_cloudsql_instance_delete'', ''gcp_cloudsql_backup_create'',
      ''gcp_alert_policy_create'', ''gcp_alert_policy_delete'', ''gcp_uptime_check_create'',
      ''gcp_uptime_check_delete'', ''azure_vm_create'', ''azure_vm_stop'', ''azure_vm_start'',
      ''azure_vm_reboot'', ''azure_vm_delete'', ''azure_vm_snapshot'', ''azure_run_command'',
      ''patch_packages'', ''apply_protocol_control'', ''disable_kernel_feature'',
      ''apply_registry_fix'', ''remove_vulnerable_package'', ''revoke_exposed_credential'',
      ''patch_campaign'', ''s3_block_public_access'', ''iam_enforce_mfa'',
      ''generic_remediation'', ''notify_only'', ''suppress'', ''offboard_user'',
      ''onboard_user'', ''rotate_db_credentials'', ''rotate_ssh_keys'', ''ssh_ca_rotation'',
      ''rotate_api_key'', ''rotate_service_account'', ''terraform_apply'', ''ansible_playbook'',
      ''helm_upgrade'', ''discover_releases'', ''discover_release_history'',
      ''rollback_release'', ''uninstall_release'', ''discover_stacks'',
      ''discover_stack_resources'', ''detect_stack_drift'', ''get_drift_results'',
      ''create_change_set'', ''execute_change_set'', ''delete_stack'',
      ''update_termination_protection'', ''discover_deployments'',
      ''discover_deployment_operations'', ''validate_template'', ''create_deployment'',
      ''delete_deployment'', ''cancel_deployment'', ''provision_db_user'']"

definition change_types_2 :: "string list" where
  "change_types_2 =
     [''deprovision_db_user'', ''db_permission_change'', ''configure_db_audit'',
      ''promote_db_replica'', ''db_connection_config'', ''rolling_restart'',
      ''canary_config_push'', ''distribute_file'', ''fleet_health_check'', ''create_backup'',
      ''verify_backup'', ''restore_files'', ''dr_failover'', ''scheduled_reboot'',
      ''server_backup'', ''server_snapshot'', ''server_capture'', ''restore_server'',
      ''backup_mgn_replication'', ''enforce_cis_benchmark'', ''collect_evidence'',
      ''block_s3_public_access'', ''restore_s3_public_access'', ''capture_instance_state'',
      ''aws_account_baseline_monitoring'', ''aws_account_baseline_hardening'',
      ''aws_iam_role_baseline'', ''aws_account_full_baseline'',
      ''gcp_account_baseline_monitoring'', ''azure_account_baseline_monitoring'',
      ''oci_account_baseline_monitoring'', ''attach_iam_policy'', ''detach_iam_policy'',
      ''disable_iam_user'', ''enable_iam_user'', ''rotate_iam_key'', ''put_bucket_policy'',
      ''tag_resource'', ''remove_nexplane_agent'', ''dr_dns_failover_route53'',
      ''rds_replica_create'', ''gcp_firewall_create'', ''gcp_firewall_delete'',
      ''gcp_block_public_bucket_access'', ''gcp_disable_service_account'',
      ''gcp_rotate_service_account_key'', ''rotate_gcp_service_account_key'',
      ''azure_update_nsg_rule'', ''azure_restore_nsg_rule'',
      ''azure_disable_public_blob_access'', ''azure_enable_public_blob_access'',
      ''azure_rotate_storage_key'', ''azure_storage_account_create'',
      ''azure_storage_account_delete'', ''azure_blob_container_create'',
      ''azure_blob_container_delete'', ''azure_managed_identity_create'',
      ''azure_managed_identity_delete'', ''azure_role_assignment_create'',
      ''azure_role_assignment_delete'', ''azure_vnet_create'', ''azure_vnet_delete'',
      ''azure_dns_zone_create'', ''azure_dns_zone_delete'', ''azure_dns_record_create'',
      ''azure_dns_record_delete'', ''azure_sql_server_create'', ''azure_sql_server_delete'',
      ''azure_sql_database_create'', ''azure_sql_database_delete'',
      ''azure_metric_alert_create'', ''azure_metric_alert_delete'', ''oci_instance_create'',
      ''oci_instance_stop'', ''oci_instance_start'', ''oci_instance_reboot'',
      ''oci_instance_delete'', ''oci_block_volume_snapshot'', ''oci_vcn_create'',
      ''oci_subnet_create'', ''oci_bucket_create'', ''oci_bucket_delete'',
      ''oci_bucket_lifecycle_set'', ''oci_bucket_block_public'', ''oci_block_volume_create'',
      ''oci_block_volume_attach'', ''oci_block_volume_detach'', ''oci_block_volume_delete'',
      ''oci_block_volume_backup'', ''oci_security_list_add_rule'',
      ''oci_security_list_remove_rule'', ''oci_nsg_create'', ''oci_nsg_delete'',
      ''oci_nsg_rule_add'', ''oci_nsg_rule_remove'', ''oci_load_balancer_create'',
      ''oci_load_balancer_delete'', ''oci_backend_set_create'', ''oci_listener_create'',
      ''oci_dns_zone_create'', ''oci_dns_record_upsert'', ''macos_filevault_status'',
      ''macos_filevault_enable'', ''macos_gatekeeper_enable'', ''macos_gatekeeper_disable'',
      ''macos_softwareupdate_list'', ''macos_softwareupdate_install'', ''macos_profiles_list'',
      ''macos_profiles_install'', ''macos_profiles_remove'', ''macos_defaults_write'',
      ''macos_defaults_delete'']"

definition change_types_3 :: "string list" where
  "change_types_3 =
     [''macos_launchctl_list'', ''macos_homebrew_list'', ''macos_santa_install'',
      ''macos_santa_check'', ''macos_santa_rule_add'', ''macos_santa_rule_list'',
      ''macos_santa_rule_remove'', ''macos_santa_mode_set'', ''macos_santa_event_export'',
      ''macos_santa_binary_check'', ''macos_santa_sync_trigger'', ''macos_gatekeeper_status'',
      ''macos_sysinfo'', ''agent_linux_patch'', ''agent_ossecurity'', ''agent_linuxauth'',
      ''agent_crossplatform'', ''agent_compliance'', ''agent_forensics'', ''agent_fleet'',
      ''agent_backup'', ''agent_reboot'', ''agent_credrotation'', ''agent_iac'',
      ''agent_linuxupgrade'', ''agent_win_patch'', ''agent_winharden'', ''alb_create'',
      ''alb_delete'', ''target_group_create'', ''listener_create'', ''listener_modify'',
      ''target_group_delete'', ''listener_delete'', ''register_targets'',
      ''deregister_targets'', ''agent_appdiscovery'', ''agent_containerize_build'',
      ''k8s_workload_deploy'', ''agent_containerize_retire'', ''agent_containerize_auto'',
      ''ssh_containerize_workload'', ''change_ip'', ''migrate_ip'', ''ip_campaign'',
      ''oci_iam_user_create'', ''oci_iam_user_delete'', ''oci_iam_user_disable'',
      ''oci_iam_user_enable'', ''oci_iam_group_create'', ''oci_iam_group_delete'',
      ''oci_iam_policy_create'', ''oci_iam_policy_delete'', ''oci_vault_secret_create'',
      ''oci_vault_secret_delete'', ''oci_compartment_create'', ''oci_compartment_delete'',
      ''oci_adb_create'', ''oci_adb_stop'', ''oci_adb_start'', ''oci_adb_delete'',
      ''oci_adb_backup'', ''oci_mysql_create'', ''oci_mysql_stop'', ''oci_mysql_start'',
      ''oci_mysql_delete'', ''oci_alarm_create'', ''oci_alarm_delete'', ''oci_logging_enable'',
      ''restore_rds_snapshot'', ''verify_rds_backup'', ''eks_cluster_create_sdk'',
      ''eks_cluster_create_cfn'', ''eks_cluster_create_terraform'', ''ecr_repository_create'',
      ''ecr_repository_delete'', ''agent_listpkgs'', ''agent_os_upgrade'',
      ''emergency_user_lockout'', ''azure_ad_disable_user'', ''ldap_disable_user'',
      ''azure_ad_create_user'', ''user_suspension'', ''user_scope_reduction'', ''enforce_mfa'',
      ''seccomp_learn'', ''configure_seccomp'', ''configure_apparmor'', ''configure_selinux'',
      ''ebpf_network_soak'', ''configure_ebpf_network'', ''configure_ebpf_lsm'',
      ''promote_ebpf_policy'', ''audit_os_security_posture'', ''rotate_secrets_manager_secret'',
      ''rotate_jwt_signing_key'', ''configure_windows_firewall'', ''deploy_applocker_policy'',
      ''configure_windows_audit_policy'', ''wdac_audit'', ''wdac_enforce'', ''asr_audit'',
      ''asr_enforce'', ''sysmon_deploy'', ''sysmon_fim'',
      ''rotate_azure_service_principal_secret'']"

definition change_types_4 :: "string list" where
  "change_types_4 =
     [''rotate_vault_secret'', ''trivy_scan'', ''lynis_audit'', ''openscap_scan'',
      ''authorized_keys_audit'', ''sudoers_audit'', ''suid_scan'', ''ssl_cert_inspect'',
      ''scan_iac'', ''scan_secrets'', ''get_compliance_summary'', ''keycloak_disable_user'',
      ''k8s_revoke_rolebinding'', ''k8s_rotate_sa_token'', ''k8s_audit_rbac'',
      ''wazuh_deploy_agent'', ''falco_policy_update'', ''rotate_infisical_secret'',
      ''gitea_suspend_user'', ''freeipa_disable_user'', ''gitlab_suspend_user'',
      ''gitlab_rotate_token'', ''teleport_lock_user'', ''rotate_postgres_password'',
      ''rotate_redis_password'', ''rotate_mongodb_password'', ''opnsense_update_rule'',
      ''opnsense_block_host'', ''step_ca_rotate_cert'', ''step_ca_check_expiry'',
      ''discover_application_profile'', ''capture_behavioral_baseline'',
      ''verify_against_baseline'', ''run_os_upgrade'', ''provision_host'',
      ''migrate_host_config'', ''migrate_identity'', ''rsync_application'',
      ''resolve_dependencies'', ''ai_assisted_cr'', ''migrate_postgres_instance'',
      ''verify_data_integrity'', ''run_schema_migration'', ''update_connection_strings'',
      ''decommission_database_instance'', ''decommission_legacy_host'',
      ''decommission_legacy_process'', ''shift_traffic_weight'', ''containerize_application'',
      ''container_image_transfer'', ''deploy_container_alongside'',
      ''provision_database_instance'', ''managed_db_snapshot'', ''okta_disable_user'',
      ''okta_enforce_mfa'', ''okta_sync_users'', ''servicenow_create_incident'',
      ''servicenow_close_incident'', ''pagerduty_create_incident'',
      ''pagerduty_resolve_incident'', ''openvas_run_scan'', ''openvas_import_findings'',
      ''nessus_run_scan'', ''elastic_sync_alerts'', ''elastic_create_rule'',
      ''splunk_sync_notables'', ''splunk_create_alert'', ''datadog_mute_host'',
      ''datadog_unmute_host'', ''datadog_create_monitor'', ''datadog_send_event'',
      ''snyk_scan_image'', ''snyk_sync_findings'', ''jfrog_scan_artifact'',
      ''jfrog_sync_violations'', ''winrm_check_prerequisites'', ''winrm_download_agent'',
      ''winrm_install_agent'', ''winrm_execute_template'', ''winrm_collect_diagnostics'',
      ''sccm_deploy_application'', ''sccm_run_script'', ''sccm_collect_inventory'',
      ''sccm_trigger_client_action'', ''dc_integrity_check'', ''ad_forest_snapshot'',
      ''ad_forest_restore'', ''ad_dc_decommission'', ''ad_tiered_backup'',
      ''discover_ad_snapshots'', ''ad_dc_parallel_upgrade'',
      ''ad_domain_functional_level_upgrade'', ''ad_trust_create'', ''ad_gpo_deploy'',
      ''ad_pso_manage'', ''ad_stale_computer_cleanup'']"

definition change_types_5 :: "string list" where
  "change_types_5 =
     [''privileged_account_audit'', ''list_dns_records'', ''create_dns_record'',
      ''delete_dns_record'', ''update_dns_record'', ''bind_list_zone'', ''bind_create_record'',
      ''bind_delete_record'', ''bind_check_record'', ''create_ad_account'',
      ''assign_okta_groups'', ''add_github_org_member'', ''send_welcome_email'',
      ''force_password_reset'', ''preserve_cloudtrail_logs'', ''close_incident_ticket'',
      ''check_fleet_health'', ''check_compliance'', ''identity_snapshot'',
      ''identity_reconstitute'', ''santa_policy_audit'', ''santa_push_rules'',
      ''santa_machine_list'', ''santa_machine_group_assign'', ''santa_rule_deploy'',
      ''discover_machines'', ''isolate_machine'', ''unisolate_machine'', ''discover_nodes'',
      ''run_compliance_scan'', ''discover_compliance_results'', ''discover_users'',
      ''get_group_membership'', ''oci_discover_compartments'', ''oci_discover_instances'',
      ''vuln_poc_validate'', ''apply_sysctl_hardening'', ''deploy_auditd_rules'',
      ''setup_file_integrity_monitoring'', ''discover_applications'', ''deep_discover'',
      ''collect_forensics'', ''harden_ssh'', ''configure_ntp'', ''config_syslog'',
      ''estimate_size'', ''audit_software_inventory'', ''audit_cis_compliance'',
      ''platform_upgrade'', ''linux_parallel_upgrade'', ''db_major_version_upgrade'',
      ''elasticsearch_upgrade'', ''opensearch_upgrade'', ''kafka_zk_to_kraft_bridge'',
      ''kafka_kraft_cutover'', ''rabbitmq_upgrade'', ''java_runtime_upgrade'',
      ''python_runtime_upgrade'', ''k8s_cluster_upgrade'', ''windows_os_upgrade'',
      ''windows_parallel_migration'', ''agent_reverse_tunnel_enable'',
      ''agent_reverse_tunnel_disable'', ''catalog_action'', ''catalog_workflow'',
      ''credential_rotation'', ''credential_rotation_fanout'', ''certificate_rotation'',
      ''scan_for_references'', ''update_reference'', ''ecs_rolling_deploy'',
      ''ecs_task_def_deregister'', ''dns_zone_migrate'', ''enable_security_command_center'',
      ''redis_cluster_migration'', ''cassandra_rolling_upgrade'', ''mongodb_rs_upgrade'',
      ''cockroachdb_cluster_upgrade'', ''etcd_upgrade'', ''minio_distributed_upgrade'',
      ''ceph_cluster_upgrade'', ''keycloak_upgrade'', ''freeipa_upgrade'',
      ''openldap_schema_migration'', ''vault_cluster_upgrade'', ''istio_control_plane_upgrade'',
      ''kong_upgrade'', ''cert_manager_upgrade'', ''gitlab_upgrade'', ''jenkins_upgrade'',
      ''restore_resource_state'']"

definition change_types :: "string list" where
  "change_types = change_types_1 @ change_types_2 @ change_types_3 @ change_types_4 @ change_types_5"

definition change_type_of :: "string \<Rightarrow> exn + string" where
  "change_type_of v =
     (if v \<in> set change_types then Inr v
      else Inl (Exn ValueError (v @ '' is not a valid ChangeType'')))"

lemma change_type_of_Inr [simp]: "change_type_of v = Inr t \<longleftrightarrow> t = v \<and> v \<in> set change_types"
  by (auto simp: change_type_of_def)

end
