(* ===== verification/Runbooks.thy ===== *)
theory Runbooks
  imports Handlers ChangeTypes
begin

text \<open>
  Runbooks (\<open>models/runbook.py\<close>, \<open>schemas/runbook.py\<close>, \<open>services/runbook_service.py\<close>, \<open>routers/runbooks.py\<close>):
  the rows of a runbook and of its executions, the operations of the service on them, and the endpoints.

  The runbook tables stand beside the \<open>world\<close> of the change requests in the state \<open>runbook_state\<close>; a
  program on the world runs in it as \<open>on_world\<close>. The ids that the code draws with \<open>uuid4\<close> come from a
  supply (\<open>rc_uuid\<close>, the n-th id) with the number of ids drawn in the state. Steps carry their own columns
  as \<open>step_body\<close>: a step of a payload or of a snapshot has the steps nested in it, a row of the table
  has the id of its parent. The results of an execution's steps are owned by its row.
\<close>

section \<open>Rows\<close>

record asset_selector =
  sel_tags :: "string list"
  sel_asset_ids :: "uuid list"
  sel_environment :: "string option"

record step_body =
  sb_step_number :: int
  sb_name :: string
  sb_type :: string
  sb_change_type :: "string option"
  sb_parameters :: "pydict option"
  sb_asset_selector :: "asset_selector option"
  sb_condition_expr :: "string option"
  sb_on_true_step :: "int option"
  sb_on_false_step :: "int option"
  sb_prompt :: "string option"
  sb_required_role :: "string option"
  sb_timeout_hours :: "int option"
  sb_on_timeout :: "string option"
  sb_on_failure :: string

datatype step_def = Step (step_body: step_body) (parallel_steps: "step_def list")

record step_row =
  row_id :: uuid
  row_runbook_id :: uuid
  row_parent_step_id :: "uuid option"
  row_body :: step_body

record runbook =
  rb_id :: uuid
  rb_organization_id :: uuid
  rb_name :: string
  rb_description :: "string option"
  rb_version :: int
  rb_tags :: "string list"
  rb_is_seed :: bool
  rb_auto_execute :: bool
  rb_cron_schedule :: "string option"
  rb_last_scheduled_run_at :: "int option"
  rb_created_by :: uuid
  rb_created_at :: int

datatype rb_status = RX_running | RX_waiting_human | RX_completed | RX_failed | RX_rolled_back

datatype step_status = SR_pending | SR_running | SR_waiting_human | SR_completed | SR_failed

record step_result =
  sr_step_number :: int
  sr_step_name :: string
  sr_step_type :: string
  sr_status :: step_status
  sr_started_at :: "int option"
  sr_completed_at :: "int option"
  sr_change_request_ids :: "uuid list"
  sr_result :: pydict
  sr_error_message :: "string option"

text \<open>What the code reads of a snapshot: its organization and its steps.\<close>

record snapshot =
  sn_organization_id :: uuid
  sn_steps :: "step_def list"

record rb_execution =
  ex_id :: uuid
  ex_runbook_id :: uuid
  ex_runbook_version :: int
  ex_snapshot :: snapshot
  ex_triggered_by :: uuid
  ex_triggered_at :: int
  ex_completed_at :: "int option"
  ex_context :: pydict
  ex_status :: rb_status
  ex_current_step :: int
  ex_step_results :: "step_result list"

record runbook_state =
  rs_world :: world
  rs_runbooks :: "runbook list"
  rs_rows :: "step_row list"
  rs_execs :: "rb_execution list"
  rs_drawn :: nat

type_synonym 'a rb_prog = "(runbook_state, 'a) comp"

text \<open>\<open>rc_eval\<close> is Python's \<open>eval\<close> of the text of a condition, with the results of the steps by their
  number and the context of the execution as its names; only its value counts here.\<close>

record rb_config =
  rc_config :: config
  rc_env :: env
  rc_uuid :: "nat \<Rightarrow> uuid"
  rc_eval :: "string \<Rightarrow> (int \<times> pydict) list \<Rightarrow> pydict \<Rightarrow> exn + bool"

section \<open>Programs on the runbook tables\<close>

definition on_world :: "'a prog \<Rightarrow> 'a rb_prog" where
  "on_world m = (\<lambda>s. case m (rs_world s) of (r, w) \<Rightarrow> (r, s\<lparr>rs_world := w\<rparr>))"

text \<open>One database transaction, as \<open>transact\<close>: what was written is undone when the program raises, the
  calls that were made and the ids that were drawn are not.\<close>

definition rb_transact :: "'a rb_prog \<Rightarrow> 'a rb_prog" where
  "rb_transact m = (\<lambda>s. case m s of
       (Inl e, t) \<Rightarrow> (Inl e, s\<lparr>rs_world := (rs_world s)\<lparr>w_calls := w_calls (rs_world t)\<rparr>, rs_drawn := rs_drawn t\<rparr>)
     | r \<Rightarrow> r)"

definition uuid4 :: "rb_config \<Rightarrow> uuid rb_prog" where
  "uuid4 rc = (\<lambda>s. (Inr (rc_uuid rc (rs_drawn s)), s\<lparr>rs_drawn := Suc (rs_drawn s)\<rparr>))"

definition rb_error :: "nat \<Rightarrow> string \<Rightarrow> 'a rb_prog" where
  "rb_error code msg = raise (Exn (HTTPException code) msg)"

definition rb_require :: "bool \<Rightarrow> nat \<Rightarrow> string \<Rightarrow> unit rb_prog" where
  "rb_require b code msg = (if b then ret () else rb_error code msg)"

definition rb_now :: "runbook_state \<Rightarrow> int" where
  "rb_now s = w_clock (rs_world s)"

text \<open>The relationships \<open>Runbook.steps\<close> and \<open>RunbookStep.children\<close>, in the order of the step numbers.
  Every row of a runbook has its \<open>runbook_id\<close>, the children of a parallel group too.\<close>

definition rows_of :: "runbook_state \<Rightarrow> uuid \<Rightarrow> step_row list" where
  "rows_of s i = sort_key (\<lambda>r. sb_step_number (row_body r)) (filter (\<lambda>r. row_runbook_id r = i) (rs_rows s))"

definition children_of :: "step_row list \<Rightarrow> uuid \<Rightarrow> step_row list" where
  "children_of rows i =
     sort_key (\<lambda>r. sb_step_number (row_body r)) (filter (\<lambda>r. row_parent_step_id r = Some i) rows)"

definition find_runbook :: "runbook_state \<Rightarrow> uuid \<Rightarrow> runbook option" where
  "find_runbook s i = lookup_row rb_id (rs_runbooks s) i"

definition upd_runbook :: "uuid \<Rightarrow> (runbook \<Rightarrow> runbook) \<Rightarrow> runbook_state \<Rightarrow> runbook_state" where
  "upd_runbook i f s = s\<lparr>rs_runbooks := map (\<lambda>r. if rb_id r = i then f r else r) (rs_runbooks s)\<rparr>"

definition find_exec :: "runbook_state \<Rightarrow> uuid \<Rightarrow> rb_execution option" where
  "find_exec s i = lookup_row ex_id (rs_execs s) i"

definition upd_exec :: "uuid \<Rightarrow> (rb_execution \<Rightarrow> rb_execution) \<Rightarrow> runbook_state \<Rightarrow> runbook_state" where
  "upd_exec i f s = s\<lparr>rs_execs := map (\<lambda>x. if ex_id x = i then f x else x) (rs_execs s)\<rparr>"

definition set_result :: "int \<Rightarrow> (step_result \<Rightarrow> step_result) \<Rightarrow> rb_execution \<Rightarrow> rb_execution" where
  "set_result n f x =
     x\<lparr>ex_step_results := map (\<lambda>r. if sr_step_number r = n then f r else r) (ex_step_results x)\<rparr>"

section \<open>Reading and listing\<close>

definition get_runbook :: "uuid \<Rightarrow> uuid \<Rightarrow> runbook rb_prog" where
  "get_runbook i org =
     bindc (gets (\<lambda>s. find_runbook s i)) (\<lambda>found. case found of
       None \<Rightarrow> rb_error 404 ''Runbook not found''
     | Some rb \<Rightarrow> if rb_organization_id rb = org then ret rb else rb_error 404 ''Runbook not found'')"

text \<open>\<open>ilike\<close> of a name with a search text (\<open>matches_name\<close>) is left to the database.\<close>

definition list_runbooks ::
  "(string \<Rightarrow> string \<Rightarrow> bool) \<Rightarrow> uuid \<Rightarrow> string option \<Rightarrow> string option \<Rightarrow> runbook list rb_prog" where
  "list_runbooks matches_name org tag search =
     gets (\<lambda>s.
       let q0 = filter (\<lambda>r. rb_organization_id r = org) (rs_runbooks s);
           q1 = (case tag of None \<Rightarrow> q0
                 | Some t \<Rightarrow> if t = [] then q0 else filter (\<lambda>r. t \<in> set (rb_tags r)) q0)
       in case search of None \<Rightarrow> q1
          | Some x \<Rightarrow> if x = [] then q1 else filter (\<lambda>r. matches_name x (rb_name r)) q1)"

definition get_execution :: "uuid \<Rightarrow> uuid \<Rightarrow> rb_execution rb_prog" where
  "get_execution i org =
     bindc (gets (\<lambda>s. case find_exec s i of None \<Rightarrow> None
         | Some x \<Rightarrow> (case find_runbook s (ex_runbook_id x) of None \<Rightarrow> None
             | Some rb \<Rightarrow> if rb_organization_id rb \<noteq> org then None else Some x))) (\<lambda>found. case found of
       None \<Rightarrow> rb_error 404 ''Execution not found''
     | Some x \<Rightarrow> ret x)"

definition list_executions :: "uuid \<Rightarrow> uuid \<Rightarrow> rb_execution list rb_prog" where
  "list_executions i org =
     bindc (get_runbook i org) (\<lambda>_.
       gets (\<lambda>s. sort_key (\<lambda>x. - ex_triggered_at x) (filter (\<lambda>x. ex_runbook_id x = i) (rs_execs s))))"

section \<open>Writing the steps\<close>

definition add_row :: "rb_config \<Rightarrow> uuid \<Rightarrow> uuid option \<Rightarrow> step_body \<Rightarrow> uuid rb_prog" where
  "add_row rc i parent b =
     bindc (uuid4 rc) (\<lambda>k.
     thenc (modifyc (\<lambda>s. s\<lparr>rs_rows := rs_rows s @
         [\<lparr>row_id = k, row_runbook_id = i, row_parent_step_id = parent, row_body = b\<rparr>]\<rparr>))
       (ret k))"

text \<open>\<open>asset_selector.model_dump()\<close> keeps the ids of assets as \<open>UUID\<close> objects, which \<open>json.dumps\<close>, the
  serializer of the JSON column, refuses: the insert of a step that selects an asset by its id raises.\<close>

definition json_selector :: "asset_selector option \<Rightarrow> unit rb_prog" where
  "json_selector sel =
     (case sel of None \<Rightarrow> ret ()
      | Some q \<Rightarrow>
          if sel_asset_ids q = [] then ret ()
          else raise (Exn TypeError ''Object of type UUID is not JSON serializable''))"

fun insert_steps :: "rb_config \<Rightarrow> step_def list \<Rightarrow> uuid \<Rightarrow> uuid option \<Rightarrow> unit rb_prog" where
  "insert_steps rc [] i parent = ret ()"
| "insert_steps rc (Step b kids # ss) i parent =
     thenc (json_selector (sb_asset_selector b))
     (bindc (add_row rc i parent b) (\<lambda>k.
      thenc (whenc (kids \<noteq> []) (insert_steps rc kids i (Some k)))
        (insert_steps rc ss i parent)))"

text \<open>\<open>_copy_steps\<close> goes down the children of each row. The recursion ends because a child is inserted
  after its parent; \<open>n\<close> bounds its depth, and the number of rows is enough.\<close>

fun copy_steps ::
  "nat \<Rightarrow> rb_config \<Rightarrow> step_row list \<Rightarrow> step_row list \<Rightarrow> uuid \<Rightarrow> uuid option \<Rightarrow> unit rb_prog" where
  "copy_steps n rc rows [] i parent = ret ()"
| "copy_steps 0 rc rows (r # rs) i parent = raise (Exn RuntimeError ''maximum recursion depth exceeded'')"
| "copy_steps (Suc n) rc rows (r # rs) i parent =
     bindc (add_row rc i parent (row_body r)) (\<lambda>k.
     thenc (copy_steps n rc rows (children_of rows (row_id r)) i (Some k))
       (copy_steps (Suc n) rc rows rs i parent))"

section \<open>Creating, changing, deleting and forking\<close>

record runbook_create =
  rbc_name :: string
  rbc_description :: "string option"
  rbc_tags :: "string list"
  rbc_auto_execute :: bool
  rbc_cron_schedule :: "string option"
  rbc_steps :: "step_def list"

record runbook_update =
  rbu_name :: "string option"
  rbu_description :: "string option"
  rbu_tags :: "string list option"
  rbu_auto_execute :: "bool option"
  rbu_cron_schedule :: "string option"
  rbu_steps :: "step_def list option"

definition add_runbook :: "runbook \<Rightarrow> unit rb_prog" where
  "add_runbook rb = modifyc (\<lambda>s. s\<lparr>rs_runbooks := rs_runbooks s @ [rb]\<rparr>)"

definition create_runbook :: "rb_config \<Rightarrow> uuid \<Rightarrow> uuid \<Rightarrow> runbook_create \<Rightarrow> runbook rb_prog" where
  "create_runbook rc org user payload =
     rb_transact (bindc (uuid4 rc) (\<lambda>i. bindc (gets rb_now) (\<lambda>now.
       thenc (add_runbook \<lparr>rb_id = i, rb_organization_id = org, rb_name = rbc_name payload,
           rb_description = rbc_description payload, rb_version = 1, rb_tags = rbc_tags payload,
           rb_is_seed = False, rb_auto_execute = rbc_auto_execute payload,
           rb_cron_schedule = rbc_cron_schedule payload, rb_last_scheduled_run_at = None,
           rb_created_by = user, rb_created_at = now\<rparr>)
       (thenc (insert_steps rc (rbc_steps payload) i None)
         (get_runbook i org)))))"

text \<open>\<open>str.strip\<close> on the texts of a cron schedule, of which only the blanks matter.\<close>

definition is_blank :: "string \<Rightarrow> bool" where
  "is_blank t \<longleftrightarrow> list_all (\<lambda>c. c \<in> set [CHR '' '', CHR 0x09, CHR 0x0A, CHR 0x0B, CHR 0x0C, CHR 0x0D]) t"

definition changed :: "runbook_update \<Rightarrow> runbook \<Rightarrow> runbook" where
  "changed p rb = rb\<lparr>
     rb_name := (case rbu_name p of None \<Rightarrow> rb_name rb | Some x \<Rightarrow> x),
     rb_description := (case rbu_description p of None \<Rightarrow> rb_description rb | Some x \<Rightarrow> Some x),
     rb_tags := (case rbu_tags p of None \<Rightarrow> rb_tags rb | Some x \<Rightarrow> x),
     rb_auto_execute := (case rbu_auto_execute p of None \<Rightarrow> rb_auto_execute rb | Some x \<Rightarrow> x),
     rb_cron_schedule := (case rbu_cron_schedule p of None \<Rightarrow> rb_cron_schedule rb
       | Some x \<Rightarrow> if is_blank x then None else Some x)\<rparr>"

definition drop_rows :: "uuid \<Rightarrow> unit rb_prog" where
  "drop_rows i = modifyc (\<lambda>s. s\<lparr>rs_rows := filter (\<lambda>r. row_runbook_id r \<noteq> i) (rs_rows s)\<rparr>)"

definition update_runbook :: "rb_config \<Rightarrow> uuid \<Rightarrow> uuid \<Rightarrow> runbook_update \<Rightarrow> runbook rb_prog" where
  "update_runbook rc i org payload =
     rb_transact (bindc (get_runbook i org) (\<lambda>_.
       thenc (modifyc (upd_runbook i (changed payload)))
       (thenc (case rbu_steps payload of
                 None \<Rightarrow> ret ()
               | Some steps \<Rightarrow> thenc (drop_rows i) (insert_steps rc steps i None))
       (thenc (modifyc (upd_runbook i (\<lambda>rb. rb\<lparr>rb_version := rb_version rb + 1\<rparr>)))
         (get_runbook i org)))))"

definition active_status :: "rb_status \<Rightarrow> bool" where
  "active_status st \<longleftrightarrow> st \<in> {RX_running, RX_waiting_human}"

text \<open>\<open>scalar_one_or_none\<close> raises when the query has several rows. The executions of a runbook refer to
  it by a column that is not nullable and does not cascade, so the database refuses to delete a runbook
  that has any.\<close>

definition delete_runbook :: "uuid \<Rightarrow> uuid \<Rightarrow> unit rb_prog" where
  "delete_runbook i org =
     rb_transact (bindc (get_runbook i org) (\<lambda>_.
     bindc (gets (\<lambda>s. filter (\<lambda>x. ex_runbook_id x = i) (rs_execs s))) (\<lambda>xs.
       (case filter (\<lambda>x. active_status (ex_status x)) xs of
          [] \<Rightarrow>
            if xs \<noteq> [] then raise (Exn OtherError ''IntegrityError: runbook_executions.runbook_id'')
            else thenc (drop_rows i)
              (modifyc (\<lambda>s. s\<lparr>rs_runbooks := filter (\<lambda>r. rb_id r \<noteq> i) (rs_runbooks s)\<rparr>))
        | [x] \<Rightarrow> rb_error 409 ''Cannot delete runbook with active executions''
        | _ \<Rightarrow> raise (Exn OtherError ''MultipleResultsFound'')))))"

definition fork_runbook :: "rb_config \<Rightarrow> uuid \<Rightarrow> uuid \<Rightarrow> uuid \<Rightarrow> runbook rb_prog" where
  "fork_runbook rc i org user =
     rb_transact (bindc (gets (\<lambda>s. find_runbook s i)) (\<lambda>found. case found of
         None \<Rightarrow> rb_error 404 ''Runbook not found''
       | Some source \<Rightarrow>
           bindc (uuid4 rc) (\<lambda>k. bindc (gets rb_now) (\<lambda>now. bindc (gets (\<lambda>s. rows_of s i)) (\<lambda>rows.
             thenc (add_runbook \<lparr>rb_id = k, rb_organization_id = org, rb_name = rb_name source @ '' (copy)'',
                 rb_description = rb_description source, rb_version = 1, rb_tags = rb_tags source,
                 rb_is_seed = False, rb_auto_execute = False, rb_cron_schedule = None,
                 rb_last_scheduled_run_at = None, rb_created_by = user, rb_created_at = now\<rparr>)
             (thenc (copy_steps (length rows) rc rows rows k None)
               (get_runbook k org)))))))"

section \<open>Starting an execution\<close>

text \<open>The snapshot is the response model of the runbook: one step per row. The model of a step reads
  \<open>parallel_steps\<close>, an attribute that the rows do not have (theirs is \<open>children\<close>), and takes its
  default, the empty list.\<close>

definition snapshot_of :: "uuid \<Rightarrow> step_row list \<Rightarrow> snapshot" where
  "snapshot_of org rows =
     \<lparr>sn_organization_id = org, sn_steps = map (\<lambda>r. Step (row_body r) []) rows\<rparr>"

definition selected_ids :: "asset_selector option \<Rightarrow> uuid list" where
  "selected_ids sel = (case sel of None \<Rightarrow> [] | Some q \<Rightarrow> sel_asset_ids q)"

fun check_asset_windows :: "rb_config \<Rightarrow> asset list \<Rightarrow> unit rb_prog" where
  "check_asset_windows rc [] = ret ()"
| "check_asset_windows rc (a # as) =
     bindc (on_world (is_in_maintenance_window (cfg_cron_prev (rc_config rc)) (asset_tags a) ''hard''))
       (\<lambda>window. if window \<noteq> None then rb_error 409 ''maintenance_window''
                 else check_asset_windows rc as)"

definition check_trigger :: "rb_config \<Rightarrow> runbook \<Rightarrow> uuid \<Rightarrow> bool \<Rightarrow> unit rb_prog" where
  "check_trigger rc rb user force =
     thenc (rb_require (rb_auto_execute rb) 403 ''Runbook is not enabled for auto-execution'')
       (if force then
          bindc (gets (\<lambda>s. lookup_row user_id (w_users (rs_world s)) user)) (\<lambda>found.
            rb_require (case found of None \<Rightarrow> False | Some u \<Rightarrow> user_role u = UR_admin) 403
              ''Only admins may override a maintenance window freeze.'')
        else
          bindc (gets (\<lambda>s. assets_with_ids (rs_world s)
              (concat (map (\<lambda>r. selected_ids (sb_asset_selector (row_body r))) (rows_of s (rb_id rb))))))
            (check_asset_windows rc))"

definition new_execution ::
  "uuid \<Rightarrow> runbook \<Rightarrow> snapshot \<Rightarrow> uuid \<Rightarrow> pydict \<Rightarrow> int \<Rightarrow> rb_execution" where
  "new_execution k rb snap user context now =
     \<lparr>ex_id = k, ex_runbook_id = rb_id rb, ex_runbook_version = rb_version rb, ex_snapshot = snap,
      ex_triggered_by = user, ex_triggered_at = now, ex_completed_at = None, ex_context = context,
      ex_status = RX_running, ex_current_step = 1, ex_step_results = []\<rparr>"

definition trigger_runbook ::
  "rb_config \<Rightarrow> uuid \<Rightarrow> uuid \<Rightarrow> uuid \<Rightarrow> pydict \<Rightarrow> bool \<Rightarrow> rb_execution rb_prog" where
  "trigger_runbook rc i org user context force =
     rb_transact (bindc (get_runbook i org) (\<lambda>rb.
       thenc (check_trigger rc rb user force)
       (bindc (uuid4 rc) (\<lambda>k. bindc (gets rb_now) (\<lambda>now.
        bindc (gets (\<lambda>s. snapshot_of org (rows_of s i))) (\<lambda>snap.
          thenc (modifyc (\<lambda>s. s\<lparr>rs_execs := rs_execs s @ [new_execution k rb snap user context now]\<rparr>))
          (thenc (whenc force (on_world (record_event org ''runbook.emergency_override'' (Some user) None)))
            (get_execution k org))))))))"

text \<open>\<open>tick_scheduled\<close>: fire the runbooks whose schedule is due. What goes wrong with one is logged, and
  it stays due.\<close>

definition fire_scheduled :: "rb_config \<Rightarrow> int \<Rightarrow> runbook \<Rightarrow> uuid option rb_prog" where
  "fire_scheduled rc now rb =
     catchc
       (bindc (of_sum (cfg_cron_next (rc_config rc)
            (case rb_cron_schedule rb of None \<Rightarrow> [] | Some c \<Rightarrow> c)
            (case rb_last_scheduled_run_at rb of None \<Rightarrow> rb_created_at rb | Some t \<Rightarrow> t))) (\<lambda>next_run.
          if next_run > now then ret None
          else bindc (trigger_runbook rc (rb_id rb) (rb_organization_id rb) (rb_created_by rb) [] False) (\<lambda>x.
            thenc (modifyc (upd_runbook (rb_id rb) (\<lambda>r. r\<lparr>rb_last_scheduled_run_at := Some now\<rparr>)))
              (ret (Some (ex_id x))))))
       (\<lambda>_. ret None)"

definition tick_scheduled :: "rb_config \<Rightarrow> uuid list rb_prog" where
  "tick_scheduled rc =
     bindc (gets rb_now) (\<lambda>now.
     bindc (gets (\<lambda>s. filter (\<lambda>r. rb_cron_schedule r \<noteq> None \<and> rb_auto_execute r) (rs_runbooks s))) (\<lambda>rbs.
     bindc (mapc (fire_scheduled rc now) rbs) (\<lambda>fired.
       ret (map the (filter (\<lambda>x. x \<noteq> None) fired)))))"

section \<open>Intervening in an execution\<close>

text \<open>\<open>email\<close> is the address of the user. The columns of the execution and of its waiting step are
  written together.\<close>

definition resumed :: "int \<Rightarrow> uuid \<Rightarrow> int \<Rightarrow> rb_execution \<Rightarrow> rb_execution" where
  "resumed n user now x =
     (set_result n (\<lambda>r. r\<lparr>sr_status := SR_completed, sr_completed_at := Some now,
        sr_result := [(''action'', PStr ''resumed''), (''resumed_by'', PStr user), (''resumed_at'', PInt now)]\<rparr>) x)
     \<lparr>ex_status := RX_running, ex_current_step := n + 1\<rparr>"

definition aborted_at :: "int \<Rightarrow> string \<Rightarrow> int \<Rightarrow> rb_execution \<Rightarrow> rb_execution" where
  "aborted_at n msg now x =
     (set_result n (\<lambda>r. r\<lparr>sr_status := SR_failed, sr_error_message := Some msg\<rparr>) x)
     \<lparr>ex_status := RX_failed, ex_completed_at := Some now\<rparr>"

definition resume_checkpoint :: "uuid \<Rightarrow> int \<Rightarrow> string \<Rightarrow> user \<Rightarrow> string \<Rightarrow> rb_execution rb_prog" where
  "resume_checkpoint i n action user email =
     rb_transact (bindc (get_execution i (user_organization_id user)) (\<lambda>x.
       thenc (rb_require (ex_status x = RX_waiting_human) 409 ''Execution is not waiting for human input'')
       (thenc (case filter (\<lambda>r. sr_step_number r = n \<and> sr_status r = SR_waiting_human) (ex_step_results x) of
                 [] \<Rightarrow> rb_error 404 ''Waiting step not found''
               | [r] \<Rightarrow> ret ()
               | _ \<Rightarrow> raise (Exn OtherError ''MultipleResultsFound''))
       (bindc (gets rb_now) (\<lambda>now.
        thenc (if action = ''resume'' then modifyc (upd_exec i (resumed n (user_id user) now))
               else if action = ''abort'' then modifyc (upd_exec i (aborted_at n (''Aborted by '' @ email) now))
               else rb_error 400 ''action must be resume or abort'')
          (get_execution i (user_organization_id user)))))))"

definition abort_execution :: "uuid \<Rightarrow> uuid \<Rightarrow> rb_execution rb_prog" where
  "abort_execution i org =
     rb_transact (bindc (get_execution i org) (\<lambda>x.
       thenc (rb_require (active_status (ex_status x)) 409 ''Execution is not active'')
       (bindc (gets rb_now) (\<lambda>now.
        thenc (modifyc (upd_exec i (aborted_at (ex_current_step x) ''Aborted by operator'' now)))
          (get_execution i org)))))"

section \<open>Seed templates\<close>

text \<open>\<open>SEED_TEMPLATES\<close> (\<open>seed/runbook_templates.py\<close>): a step that does not give a key has \<open>None\<close> there, and
  \<open>on_failure\<close> is \<open>abort\<close>.\<close>

record template =
  tpl_name :: string
  tpl_description :: string
  tpl_tags :: "string list"
  tpl_steps :: "step_body list"

definition seed_step :: "int \<Rightarrow> string \<Rightarrow> string \<Rightarrow> step_body" where
  "seed_step n nm ty =
     \<lparr>sb_step_number = n, sb_name = nm, sb_type = ty, sb_change_type = None, sb_parameters = None,
      sb_asset_selector = None, sb_condition_expr = None, sb_on_true_step = None, sb_on_false_step = None,
      sb_prompt = None, sb_required_role = None, sb_timeout_hours = None, sb_on_timeout = None,
      sb_on_failure = ''abort''\<rparr>"

definition seed_change :: "int \<Rightarrow> string \<Rightarrow> string \<Rightarrow> string list \<Rightarrow> step_body" where
  "seed_change n nm ct ks =
     (seed_step n nm ''change'')\<lparr>sb_change_type := Some ct, sb_parameters := Some (map (\<lambda>k. (k, PStr [])) ks)\<rparr>"

definition seed_checkpoint :: "int \<Rightarrow> string \<Rightarrow> string \<Rightarrow> string \<Rightarrow> int \<Rightarrow> step_body" where
  "seed_checkpoint n nm prompt role h =
     (seed_step n nm ''human_checkpoint'')\<lparr>sb_prompt := Some prompt, sb_required_role := Some role,
        sb_timeout_hours := Some h, sb_on_timeout := Some ''abort''\<rparr>"

definition prod_selector :: asset_selector where
  "prod_selector = \<lparr>sel_tags = [], sel_asset_ids = [], sel_environment = Some ''prod''\<rparr>"

definition engineer_onboarding :: template where
  "engineer_onboarding =
     \<lparr>tpl_name = ''Engineer Onboarding'',
      tpl_description = ''Provision a new engineer: create AD account, assign Okta groups, '' @
        ''add to GitHub org, send welcome email.'',
      tpl_tags = [''onboarding'', ''identity''],
      tpl_steps =
        [(seed_step 1 ''Create AD Account'' ''change'')\<lparr>sb_change_type := Some ''create_ad_account'',
            sb_parameters := Some [(''username'', PStr []), (''first_name'', PStr []), (''last_name'', PStr []),
              (''temp_password'', PStr ''Welcome1!'')]\<rparr>,
         (seed_step 2 ''Assign Okta Groups'' ''change'')\<lparr>sb_change_type := Some ''assign_okta_groups'',
            sb_parameters := Some [(''user_id'', PStr []), (''group_ids'', PList [])]\<rparr>,
         (seed_step 3 ''Add to GitHub Org'' ''change'')\<lparr>sb_change_type := Some ''add_github_org_member'',
            sb_parameters := Some [(''username'', PStr []), (''org'', PStr ''NexplaneAI'')],
            sb_on_failure := ''continue''\<rparr>,
         seed_checkpoint 4 ''Manager Approval'' (''Confirm the above accounts were provisioned correctly '' @
            ''and approve sending the welcome email.'') ''manager'' 48,
         (seed_step 5 ''Send Welcome Email'' ''change'')\<lparr>sb_change_type := Some ''send_welcome_email'',
            sb_on_failure := ''continue''\<rparr>]\<rparr>"

definition employee_offboarding :: template where
  "employee_offboarding =
     \<lparr>tpl_name = ''Employee Offboarding'',
      tpl_description = ''Revoke access and rotate credentials for a departing employee'',
      tpl_tags = [''offboarding'', ''identity''],
      tpl_steps =
        [seed_change 1 ''Disable IAM User'' ''disable_iam_user'' [''username''],
         seed_change 2 ''Disable Okta User'' ''okta_disable_user'' [''user_id''],
         seed_change 3 ''Disable Azure AD User'' ''azure_ad_disable_user'' [''user_id''],
         seed_change 4 ''Disable LDAP Account'' ''ldap_disable_user'' [''username''],
         seed_change 5 ''Lock Teleport User'' ''teleport_lock_user'' [''username''],
         seed_change 6 ''Suspend GitLab Account'' ''gitlab_suspend_user'' [''username''],
         seed_change 7 ''Rotate SSH Keys'' ''rotate_ssh_keys'' [''username''],
         seed_checkpoint 8 ''Audit Confirmation''
           ''Confirm all access has been revoked and audit log is complete'' ''operator'' 24]\<rparr>"

definition patch_campaign :: template where
  "patch_campaign =
     \<lparr>tpl_name = ''Patch Campaign'',
      tpl_description = ''Fleet health check, rolling patch, compliance verification.'',
      tpl_tags = [''patch'', ''compliance''],
      tpl_steps =
        [(seed_step 1 ''Fleet Health Check'' ''change'')\<lparr>sb_change_type := Some ''check_fleet_health'',
            sb_asset_selector := Some prod_selector\<rparr>,
         (seed_step 2 ''Health Check Passed?'' ''condition'')\<lparr>
            sb_condition_expr := Some (''steps[1]['' @ [CHR 0x27] @ ''exit_code'' @ [CHR 0x27] @ ''] == 0''),
            sb_on_true_step := Some 3, sb_on_false_step := Some 99\<rparr>,
         seed_checkpoint 3 ''Operator Approval'' ''Fleet health check passed. Approve rolling patch to prod?''
           ''operator'' 24,
         (seed_step 4 ''Rolling Patch'' ''change'')\<lparr>sb_change_type := Some ''patch_packages'',
            sb_asset_selector := Some prod_selector\<rparr>,
         (seed_step 5 ''Verify Compliance'' ''change'')\<lparr>sb_change_type := Some ''check_compliance'',
            sb_asset_selector := Some prod_selector, sb_on_failure := ''continue''\<rparr>]\<rparr>"

definition seed_templates :: "template list" where
  "seed_templates = [engineer_onboarding, employee_offboarding, patch_campaign]"

fun add_rows :: "rb_config \<Rightarrow> uuid \<Rightarrow> step_body list \<Rightarrow> unit rb_prog" where
  "add_rows rc i [] = ret ()"
| "add_rows rc i (b # bs) = thenc (add_row rc i None b) (add_rows rc i bs)"

definition load_template :: "rb_config \<Rightarrow> uuid \<Rightarrow> uuid \<Rightarrow> template \<Rightarrow> unit rb_prog" where
  "load_template rc org user tpl =
     bindc (gets (\<lambda>s. filter (\<lambda>r. rb_organization_id r = org \<and> rb_name r = tpl_name tpl \<and> rb_is_seed r)
         (rs_runbooks s))) (\<lambda>existing. case existing of
       [] \<Rightarrow>
         bindc (uuid4 rc) (\<lambda>i. bindc (gets rb_now) (\<lambda>now.
           thenc (add_runbook \<lparr>rb_id = i, rb_organization_id = org, rb_name = tpl_name tpl,
               rb_description = Some (tpl_description tpl), rb_version = 1, rb_tags = tpl_tags tpl,
               rb_is_seed = True, rb_auto_execute = True, rb_cron_schedule = None,
               rb_last_scheduled_run_at = None, rb_created_by = user, rb_created_at = now\<rparr>)
             (add_rows rc i (tpl_steps tpl))))
     | [r] \<Rightarrow> ret ()
     | _ \<Rightarrow> raise (Exn OtherError ''MultipleResultsFound''))"

definition load_seed_templates :: "rb_config \<Rightarrow> uuid \<Rightarrow> uuid \<Rightarrow> unit rb_prog" where
  "load_seed_templates rc org user = rb_transact (seqc (map (load_template rc org user) seed_templates))"

section \<open>Endpoints\<close>

datatype rb_request =
    List_runbooks "string option" "string option"
  | Create_runbook runbook_create
  | Get_runbook uuid
  | Update_runbook uuid runbook_update
  | Delete_runbook uuid
  | Fork_runbook uuid
  | Trigger_runbook uuid pydict bool
  | List_executions uuid
  | Get_execution uuid
  | Resume_execution uuid int string string
  | Abort_execution uuid

definition void_rb :: "'a rb_prog \<Rightarrow> unit rb_prog" where
  "void_rb m = thenc m (ret ())"

fun handle_runbook ::
  "(string \<Rightarrow> string \<Rightarrow> bool) \<Rightarrow> rb_config \<Rightarrow> rb_request \<Rightarrow> user \<Rightarrow> unit rb_prog" where
  "handle_runbook names rc (List_runbooks tag search) u =
     void_rb (list_runbooks names (user_organization_id u) tag search)"
| "handle_runbook names rc (Create_runbook p) u = void_rb (create_runbook rc (user_organization_id u) (user_id u) p)"
| "handle_runbook names rc (Get_runbook i) u = void_rb (get_runbook i (user_organization_id u))"
| "handle_runbook names rc (Update_runbook i p) u =
     thenc (rb_require (user_role u = UR_admin) 403 ''Insufficient permissions'')
       (void_rb (update_runbook rc i (user_organization_id u) p))"
| "handle_runbook names rc (Delete_runbook i) u = delete_runbook i (user_organization_id u)"
| "handle_runbook names rc (Fork_runbook i) u = void_rb (fork_runbook rc i (user_organization_id u) (user_id u))"
| "handle_runbook names rc (Trigger_runbook i context force) u =
     void_rb (trigger_runbook rc i (user_organization_id u) (user_id u) context force)"
| "handle_runbook names rc (List_executions i) u = void_rb (list_executions i (user_organization_id u))"
| "handle_runbook names rc (Get_execution i) u = void_rb (get_execution i (user_organization_id u))"
| "handle_runbook names rc (Resume_execution i n action email) u = void_rb (resume_checkpoint i n action u email)"
| "handle_runbook names rc (Abort_execution i) u = void_rb (abort_execution i (user_organization_id u))"

end
