(* ===== verification/RunbookExec.thy ===== *)
theory RunbookExec
  imports Runbooks
begin

text \<open>
  The executor of runbooks: the change request that a step makes (\<open>services/runbook_cr_bridge.py\<close>) and the
  tick that advances every active execution by at most one step (\<open>services/runbook_executor.py\<close>). A tick
  reads its execution from the state each time it needs it; the code holds the row as an object of its
  session. \<open>Exception\<close>s of a tick are logged, and what it had written stays.
\<close>

section \<open>The change request of a step\<close>

definition resolve_asset_ids :: "asset_selector option \<Rightarrow> uuid list" where
  "resolve_asset_ids sel = (case sel of None \<Rightarrow> [] | Some q \<Rightarrow> sel_asset_ids q)"

definition draft_cr :: "uuid \<Rightarrow> rb_execution \<Rightarrow> step_body \<Rightarrow> string \<Rightarrow> int \<Rightarrow> change_request" where
  "draft_cr k x b ct now =
     (new_cr k ct (resolve_asset_ids (sb_asset_selector b))
        (dmerge (case sb_parameters b of None \<Rightarrow> [] | Some p \<Rightarrow> p) (ex_context x)) CRS_draft now
        (sn_organization_id (ex_snapshot x)) (ex_triggered_by x))
     \<lparr>cr_source := Some ''runbook''\<rparr>"

definition create_draft_cr :: "rb_config \<Rightarrow> rb_execution \<Rightarrow> step_body \<Rightarrow> change_request rb_prog" where
  "create_draft_cr rc x b =
     (case (case sb_change_type b of None \<Rightarrow> Inl (Exn ValueError ''None is not a valid ChangeType'')
            | Some t \<Rightarrow> change_type_of t) of
        Inl _ \<Rightarrow> raise (Exn ValueError ''Unknown change_type in runbook step'')
      | Inr ct \<Rightarrow>
          bindc (uuid4 rc) (\<lambda>k. bindc (gets rb_now) (\<lambda>now.
            thenc (on_world (modifyc (\<lambda>w. w\<lparr>w_crs := w_crs w @ [draft_cr k x b ct now]\<rparr>)))
              (ret (draft_cr k x b ct now)))))"

text \<open>\<open>create_and_execute_runbook_cr\<close>: draft, plan, approve, add a run, start the workflow. A plan that the
  safety review blocks becomes a \<open>ValueError\<close>, and the draft stays.\<close>

definition plan_runbook_cr :: "rb_config \<Rightarrow> change_request \<Rightarrow> unit rb_prog" where
  "plan_runbook_cr rc cr =
     catchc (thenc (on_world (plan_cr (rc_config rc) (rc_env rc) cr)) (ret ()))
       (\<lambda>e. if exn_kind e = PlanBlockedError then raise (Exn ValueError (''Plan blocked: '' @ exn_text e))
            else raise e)"

definition workflow_id_of :: "uuid \<Rightarrow> nat \<Rightarrow> string" where
  "workflow_id_of k attempt = ''wf-rb-'' @ k @ ''-'' @ string_of_nat attempt"

definition launch_cr :: "rb_config \<Rightarrow> rb_execution \<Rightarrow> change_request \<Rightarrow> unit rb_prog" where
  "launch_cr rc x cr =
     thenc (on_world (set_status (cr_id cr) CRS_approved))
     (bindc (gets (\<lambda>s. length (runs_of (rs_world s) (cr_id cr)))) (\<lambda>count.
      bindc (uuid4 rc) (\<lambda>rid. bindc (gets rb_now) (\<lambda>now.
        thenc (on_world (add_run (new_run rid (cr_id cr) (workflow_id_of (cr_id cr) (count + 1)) ES_pending now)))
          (on_world (schedule_task (Task_workflow (cr_id cr) (cr_organization_id cr) (ex_triggered_by x))))))))"

definition create_and_execute_runbook_cr :: "rb_config \<Rightarrow> rb_execution \<Rightarrow> step_body \<Rightarrow> uuid rb_prog" where
  "create_and_execute_runbook_cr rc x b =
     bindc (create_draft_cr rc x b) (\<lambda>cr.
       thenc (plan_runbook_cr rc cr)
       (thenc (launch_cr rc x cr)
         (ret (cr_id cr))))"

section \<open>Steps of an execution\<close>

text \<open>\<open>step_map\<close>: of several steps with one number the last counts.\<close>

definition step_at :: "snapshot \<Rightarrow> int \<Rightarrow> step_def option" where
  "step_at snap n = List.find (\<lambda>d. sb_step_number (step_body d) = n) (rev (sn_steps snap))"

definition result_at :: "rb_execution \<Rightarrow> int \<Rightarrow> step_result option" where
  "result_at x n = List.find (\<lambda>r. sr_step_number r = n) (ex_step_results x)"

definition new_result :: "step_body \<Rightarrow> step_result" where
  "new_result b =
     \<lparr>sr_step_number = sb_step_number b, sr_step_name = sb_name b, sr_step_type = sb_type b,
      sr_status = SR_pending, sr_started_at = None, sr_completed_at = None, sr_change_request_ids = [],
      sr_result = [], sr_error_message = None\<rparr>"

definition ensure_result :: "step_body \<Rightarrow> rb_execution \<Rightarrow> rb_execution" where
  "ensure_result b x =
     (case result_at x (sb_step_number b) of
        Some r \<Rightarrow> x
      | None \<Rightarrow> x\<lparr>ex_step_results := ex_step_results x @ [new_result b]\<rparr>)"

definition edit_exec :: "uuid \<Rightarrow> (int \<Rightarrow> rb_execution \<Rightarrow> rb_execution) \<Rightarrow> unit rb_prog" where
  "edit_exec i f = modifyc (\<lambda>s. upd_exec i (f (rb_now s)) s)"

text \<open>\<open>_handle_step_failure\<close>: an \<open>on_failure\<close> that is none of the three does nothing.\<close>

definition handle_step_failure :: "step_body \<Rightarrow> int \<Rightarrow> rb_execution \<Rightarrow> rb_execution" where
  "handle_step_failure b now x =
     (if sb_on_failure b = ''abort'' then x\<lparr>ex_status := RX_failed, ex_completed_at := Some now\<rparr>
      else if sb_on_failure b = ''continue'' then x\<lparr>ex_current_step := ex_current_step x + 1\<rparr>
      else if sb_on_failure b = ''rollback_all''
      then x\<lparr>ex_status := RX_rolled_back, ex_completed_at := Some now\<rparr>
      else x)"

definition fail_step :: "step_body \<Rightarrow> (step_result \<Rightarrow> step_result) \<Rightarrow> int \<Rightarrow> rb_execution \<Rightarrow> rb_execution" where
  "fail_step b f now x =
     handle_step_failure b now (set_result (sb_step_number b) (\<lambda>r. (f r)\<lparr>sr_status := SR_failed\<rparr>) x)"

definition error_text :: "string \<Rightarrow> step_result \<Rightarrow> step_result" where
  "error_text msg r = r\<lparr>sr_error_message := Some msg\<rparr>"

definition mark_started :: "step_body \<Rightarrow> uuid list \<Rightarrow> int \<Rightarrow> rb_execution \<Rightarrow> rb_execution" where
  "mark_started b ids now =
     set_result (sb_step_number b)
       (\<lambda>r. r\<lparr>sr_change_request_ids := ids, sr_status := SR_running, sr_started_at := Some now\<rparr>)"

definition finish_step :: "step_body \<Rightarrow> pydict \<Rightarrow> int \<Rightarrow> rb_execution \<Rightarrow> rb_execution" where
  "finish_step b res now x =
     (set_result (sb_step_number b)
        (\<lambda>r. r\<lparr>sr_status := SR_completed, sr_completed_at := Some now, sr_result := res\<rparr>) x)
     \<lparr>ex_current_step := ex_current_step x + 1\<rparr>"

text \<open>\<open>try: ... except ValueError as exc\<close>, with the text of the exception as a value.\<close>

definition try_value :: "'a rb_prog \<Rightarrow> (string + 'a) rb_prog" where
  "try_value m = catchc (bindc m (\<lambda>a. ret (Inr a)))
     (\<lambda>e. if exn_kind e = ValueError then ret (Inl (exn_text e)) else raise e)"

subsection \<open>Change steps\<close>

definition failure_statuses :: "change_request_status list" where
  "failure_statuses = [CRS_failed, CRS_rejected, CRS_rolled_back]"

definition poll_change :: "step_body \<Rightarrow> uuid \<Rightarrow> change_request option \<Rightarrow> int \<Rightarrow> rb_execution \<Rightarrow> rb_execution" where
  "poll_change b k found now x =
     (case found of
        None \<Rightarrow> fail_step b (error_text (''Change request '' @ k @ '' not found'')) now x
      | Some cr \<Rightarrow>
          if cr_status cr = CRS_completed
          then finish_step b [(''exit_code'', PInt 0), (''change_request_id'', PStr k)] now x
          else if cr_status cr \<in> set failure_statuses
          then fail_step b (\<lambda>r. r\<lparr>
              sr_error_message := Some (''Change request ended with status: ChangeRequestStatus.'' @
                change_request_status_value (cr_status cr)),
              sr_result := [(''exit_code'', PInt 1), (''change_request_id'', PStr k)]\<rparr>) now x
          else x)"

definition execute_change_step :: "rb_config \<Rightarrow> rb_execution \<Rightarrow> step_body \<Rightarrow> step_result \<Rightarrow> unit rb_prog" where
  "execute_change_step rc x b r =
     (case sr_status r of
        SR_pending \<Rightarrow>
          bindc (try_value (create_and_execute_runbook_cr rc x b)) (\<lambda>made. case made of
              Inl msg \<Rightarrow> edit_exec (ex_id x) (fail_step b (error_text msg))
            | Inr k \<Rightarrow> edit_exec (ex_id x) (mark_started b [k]))
      | SR_running \<Rightarrow>
          (case sr_change_request_ids r of
             [] \<Rightarrow> raise (Exn OtherError ''list index out of range'')
           | k # ks \<Rightarrow> bindc (gets (\<lambda>s. get_cr (rs_world s) k)) (\<lambda>found.
               edit_exec (ex_id x) (poll_change b k found)))
      | _ \<Rightarrow> ret ())"

subsection \<open>Condition steps\<close>

definition eval_condition :: "rb_config \<Rightarrow> rb_execution \<Rightarrow> step_body \<Rightarrow> exn + bool" where
  "eval_condition rc x b =
     (case sb_condition_expr b of
        None \<Rightarrow> Inl (Exn TypeError ''eval() arg 1 must be a string, bytes or code object'')
      | Some e \<Rightarrow> rc_eval rc e (map (\<lambda>r. (sr_step_number r, sr_result r)) (ex_step_results x)) (ex_context x))"

definition jump_of :: "step_body \<Rightarrow> bool \<Rightarrow> int option" where
  "jump_of b result = (if result then sb_on_true_step b else sb_on_false_step b)"

definition jump :: "step_body \<Rightarrow> bool \<Rightarrow> int \<Rightarrow> rb_execution \<Rightarrow> rb_execution" where
  "jump b result now x =
     (set_result (sb_step_number b)
        (\<lambda>r. r\<lparr>sr_status := SR_completed, sr_completed_at := Some now,
           sr_result := [(''evaluated_to'', PBool result),
             (''jumped_to_step'', case jump_of b result of None \<Rightarrow> PNone | Some n \<Rightarrow> PInt n)]\<rparr>) x)
     \<lparr>ex_current_step := (case jump_of b result of None \<Rightarrow> 9999 | Some n \<Rightarrow> n)\<rparr>"

definition execute_condition_step :: "rb_config \<Rightarrow> rb_execution \<Rightarrow> step_body \<Rightarrow> step_result \<Rightarrow> unit rb_prog" where
  "execute_condition_step rc x b r =
     whenc (sr_status r = SR_pending)
       (case eval_condition rc x b of
          Inl e \<Rightarrow> edit_exec (ex_id x) (fail_step b (error_text (''Condition eval error: '' @ exn_text e)))
        | Inr result \<Rightarrow> edit_exec (ex_id x) (jump b result))"

subsection \<open>Human checkpoints\<close>

text \<open>The notification is sent by a module that does not exist (\<open>services/runbook_notifications\<close>); its import
  error is caught and logged. A snapshot has every key of a step, so \<open>on_timeout\<close> is \<open>None\<close> when it was not
  given, and the default of \<open>get\<close> never applies.\<close>

definition hours :: "int \<Rightarrow> int" where
  "hours n = n * 3600000000"

definition wait_for_human :: "step_body \<Rightarrow> int \<Rightarrow> rb_execution \<Rightarrow> rb_execution" where
  "wait_for_human b now x =
     (set_result (sb_step_number b)
        (\<lambda>r. r\<lparr>sr_status := SR_waiting_human, sr_started_at := Some now\<rparr>) x)\<lparr>ex_status := RX_waiting_human\<rparr>"

definition timed_out :: "step_body \<Rightarrow> step_result \<Rightarrow> int \<Rightarrow> bool" where
  "timed_out b r now \<longleftrightarrow>
     (case (sb_timeout_hours b, sr_started_at r) of
        (Some h, Some t) \<Rightarrow> h \<noteq> 0 \<and> hours h \<le> now - t
      | _ \<Rightarrow> False)"

definition time_out :: "step_body \<Rightarrow> int \<Rightarrow> rb_execution \<Rightarrow> rb_execution" where
  "time_out b now x =
     (if sb_on_timeout b = Some ''abort''
      then (set_result (sb_step_number b)
              (\<lambda>r. r\<lparr>sr_status := SR_failed, sr_error_message := Some ''Human checkpoint timed out'',
                 sr_completed_at := Some now\<rparr>) x)\<lparr>ex_status := RX_failed, ex_completed_at := Some now\<rparr>
      else (finish_step b [(''action'', PStr ''timeout_continue'')] now x)\<lparr>ex_status := RX_running\<rparr>)"

definition execute_checkpoint_step :: "rb_execution \<Rightarrow> step_body \<Rightarrow> step_result \<Rightarrow> unit rb_prog" where
  "execute_checkpoint_step x b r =
     (if sr_status r = SR_pending then edit_exec (ex_id x) (wait_for_human b)
      else whenc (sr_status r = SR_waiting_human)
        (edit_exec (ex_id x) (\<lambda>now x. if timed_out b r now then time_out b now x else x)))"

subsection \<open>Parallel groups\<close>

text \<open>The children's change requests, until one cannot be made: the ids made so far and the error.\<close>

fun start_children :: "rb_config \<Rightarrow> rb_execution \<Rightarrow> step_def list \<Rightarrow> (uuid list \<times> string option) rb_prog" where
  "start_children rc x [] = ret ([], None)"
| "start_children rc x (d # ds) =
     bindc (try_value (create_and_execute_runbook_cr rc x (step_body d))) (\<lambda>made. case made of
         Inl msg \<Rightarrow> ret ([], Some msg)
       | Inr k \<Rightarrow> bindc (start_children rc x ds) (\<lambda>(ks, err). ret (k # ks, err)))"

definition child_terminal :: "change_request option \<Rightarrow> bool" where
  "child_terminal found \<longleftrightarrow>
     (case found of None \<Rightarrow> False | Some cr \<Rightarrow> cr_status cr = CRS_completed \<or> cr_status cr \<in> set failure_statuses)"

definition child_failed :: "change_request option \<Rightarrow> bool" where
  "child_failed found \<longleftrightarrow> (case found of None \<Rightarrow> False | Some cr \<Rightarrow> cr_status cr \<noteq> CRS_completed)"

definition child_result :: "uuid \<times> change_request option \<Rightarrow> pyval" where
  "child_result = (\<lambda>(k, found). PDict [(''cr_id'', PStr k), (''status'', PStr (case found of
       None \<Rightarrow> ''unknown'' | Some cr \<Rightarrow> change_request_status_value (cr_status cr)))])"

definition poll_children ::
  "step_body \<Rightarrow> (uuid \<times> change_request option) list \<Rightarrow> int \<Rightarrow> rb_execution \<Rightarrow> rb_execution" where
  "poll_children b children now x =
     (let res = [(''child_results'', PList (map child_result children))]
      in if \<not> list_all (\<lambda>(k, found). child_terminal found) children then x
         else if list_ex (\<lambda>(k, found). child_failed found) children
         then fail_step b (\<lambda>r. r\<lparr>sr_result := res, sr_completed_at := Some now\<rparr>) now x
         else finish_step b res now x)"

definition execute_parallel_step ::
  "rb_config \<Rightarrow> rb_execution \<Rightarrow> step_def \<Rightarrow> step_result \<Rightarrow> unit rb_prog" where
  "execute_parallel_step rc x d r =
     (case sr_status r of
        SR_pending \<Rightarrow>
          bindc (start_children rc x (parallel_steps d)) (\<lambda>(ks, err). case err of
              Some msg \<Rightarrow> edit_exec (ex_id x)
                (fail_step (step_body d) (\<lambda>r. (error_text msg r)\<lparr>sr_change_request_ids := ks\<rparr>))
            | None \<Rightarrow> edit_exec (ex_id x) (mark_started (step_body d) ks))
      | SR_running \<Rightarrow>
          bindc (gets (\<lambda>s. map (\<lambda>k. (k, get_cr (rs_world s) k)) (sr_change_request_ids r))) (\<lambda>children.
            edit_exec (ex_id x) (poll_children (step_body d) children))
      | _ \<Rightarrow> ret ())"

section \<open>The tick\<close>

definition execute_step :: "rb_config \<Rightarrow> rb_execution \<Rightarrow> step_def \<Rightarrow> step_result \<Rightarrow> unit rb_prog" where
  "execute_step rc x d r =
     (let b = step_body d
      in if sb_type b = ''change'' then execute_change_step rc x b r
         else if sb_type b = ''condition'' then execute_condition_step rc x b r
         else if sb_type b = ''human_checkpoint'' then execute_checkpoint_step x b r
         else if sb_type b = ''parallel_group'' then execute_parallel_step rc x d r
         else ret ())"

definition tick_execution :: "rb_config \<Rightarrow> uuid \<Rightarrow> unit rb_prog" where
  "tick_execution rc i =
     bindc (gets (\<lambda>s. find_exec s i)) (\<lambda>found. case found of
       None \<Rightarrow> ret ()
     | Some x \<Rightarrow>
         (case step_at (ex_snapshot x) (ex_current_step x) of
            None \<Rightarrow> edit_exec i (\<lambda>now x. x\<lparr>ex_status := RX_completed, ex_completed_at := Some now\<rparr>)
          | Some d \<Rightarrow>
              (let x' = ensure_result (step_body d) x
               in thenc (modifyc (upd_exec i (ensure_result (step_body d))))
                    (case result_at x' (ex_current_step x) of
                       None \<Rightarrow> ret ()
                     | Some r \<Rightarrow> execute_step rc x' d r))))"

definition quiet_tick :: "rb_config \<Rightarrow> uuid \<Rightarrow> unit rb_prog" where
  "quiet_tick rc i = catchc (tick_execution rc i) (\<lambda>_. ret ())"

definition tick_all_executions :: "rb_config \<Rightarrow> unit rb_prog" where
  "tick_all_executions rc =
     bindc (gets (\<lambda>s. map ex_id (filter (\<lambda>x. active_status (ex_status x)) (rs_execs s)))) (\<lambda>ids.
       seqc (map (quiet_tick rc) ids))"

end
