(* ===== verification/RunbookRuns.thy ===== *)
theory RunbookRuns
  imports RunbookExec
begin

text \<open>
  What the executor of runbooks may do to one execution (\<open>acts\<close> for a step, \<open>ticked\<close> for a tick), that a
  tick does only that, and the invariants of the executions in every reachable state of the runbook
  tables, whatever the rest of the program does to the \<open>world\<close> in between.
\<close>

section \<open>What a step may do\<close>

definition step_types :: "string list" where
  "step_types = [''change'', ''condition'', ''human_checkpoint'', ''parallel_group'']"

text \<open>A step whose type is none of these, or whose result does not fit its type, is passed over.\<close>

definition odd_status :: "step_body \<Rightarrow> step_result \<Rightarrow> bool" where
  "odd_status b r \<longleftrightarrow>
     sb_type b \<notin> set step_types \<or>
     sr_status r = SR_running \<and> sb_type b \<notin> {''change'', ''parallel_group''} \<or>
     sr_status r = SR_waiting_human \<and> sb_type b \<noteq> ''human_checkpoint''"

text \<open>What a step still waits for: its change requests, or a human.\<close>

definition unsettled :: "change_request option \<Rightarrow> bool" where
  "unsettled found \<longleftrightarrow>
     (case found of None \<Rightarrow> False
      | Some cr \<Rightarrow> cr_status cr \<noteq> CRS_completed \<and> cr_status cr \<notin> set failure_statuses)"

definition waits_for :: "(uuid \<Rightarrow> change_request option) \<Rightarrow> int \<Rightarrow> step_body \<Rightarrow> step_result \<Rightarrow> bool" where
  "waits_for G now b r \<longleftrightarrow>
     sb_type b = ''change'' \<and> sr_status r = SR_running \<and>
       (case sr_change_request_ids r of [] \<Rightarrow> False | k # ks \<Rightarrow> unsettled (G k)) \<or>
     sb_type b = ''parallel_group'' \<and> sr_status r = SR_running \<and>
       list_ex (\<lambda>k. \<not> child_terminal (G k)) (sr_change_request_ids r) \<or>
     sb_type b = ''human_checkpoint'' \<and> sr_status r = SR_waiting_human \<and> \<not> timed_out b r now"

definition settled_result :: "step_result \<Rightarrow> bool" where
  "settled_result r \<longleftrightarrow> sr_status r \<in> {SR_completed, SR_failed}"

text \<open>\<open>acts G now d r x ok x'\<close>: from the execution \<open>x\<close>, whose current step is \<open>d\<close> with the result \<open>r\<close>, one
  action of the executor may lead to \<open>x'\<close>; \<open>G\<close> are the change requests, and \<open>ok\<close> says whether it ended
  without an exception.\<close>

inductive acts ::
  "(uuid \<Rightarrow> change_request option) \<Rightarrow> int \<Rightarrow> step_def \<Rightarrow> step_result \<Rightarrow> rb_execution \<Rightarrow> bool \<Rightarrow> rb_execution \<Rightarrow> bool"
  for G :: "uuid \<Rightarrow> change_request option" and now :: int and d :: step_def and r :: step_result
    and x :: rb_execution where
  idle: "waits_for G now (step_body d) r \<or> settled_result r \<or> odd_status (step_body d) r \<Longrightarrow> acts G now d r x True x"
| breaks: "sr_status r = SR_pending \<or> sr_status r = SR_running \<and> sr_change_request_ids r = [] \<Longrightarrow> acts G now d r x False x"
| starts: "sr_status r = SR_pending \<Longrightarrow> sb_type (step_body d) \<in> {''change'', ''parallel_group''} \<Longrightarrow>
    acts G now d r x True (mark_started (step_body d) ks t x)"
| refused: "sr_status r = SR_pending \<Longrightarrow> sb_type (step_body d) \<in> {''change'', ''condition'', ''parallel_group''} \<Longrightarrow>
    (\<And>q. sr_step_number (f q) = sr_step_number q) \<Longrightarrow>
    acts G now d r x True (fail_step (step_body d) f t x)"
| failed: "sr_status r = SR_running \<Longrightarrow> sb_type (step_body d) \<in> {''change'', ''parallel_group''} \<Longrightarrow>
    k \<in> set (sr_change_request_ids r) \<Longrightarrow> \<not> (\<exists>cr. G k = Some cr \<and> cr_status cr = CRS_completed) \<Longrightarrow>
    (\<And>q. sr_step_number (f q) = sr_step_number q) \<Longrightarrow>
    acts G now d r x True (fail_step (step_body d) f t x)"
| passes: "sr_status r = SR_running \<Longrightarrow> sb_type (step_body d) = ''change'' \<Longrightarrow>
    sr_change_request_ids r = k # ks \<Longrightarrow> G k = Some cr \<Longrightarrow> cr_status cr = CRS_completed \<Longrightarrow>
    acts G now d r x True (finish_step (step_body d) res t x)"
| group_passes: "sr_status r = SR_running \<Longrightarrow> sb_type (step_body d) = ''parallel_group'' \<Longrightarrow>
    (\<And>k. k \<in> set (sr_change_request_ids r) \<Longrightarrow> \<exists>cr. G k = Some cr \<and> cr_status cr = CRS_completed) \<Longrightarrow>
    acts G now d r x True (finish_step (step_body d) res t x)"
| jumps: "sr_status r = SR_pending \<Longrightarrow> sb_type (step_body d) = ''condition'' \<Longrightarrow>
    acts G now d r x True (jump (step_body d) v t x)"
| waits: "sr_status r = SR_pending \<Longrightarrow> sb_type (step_body d) = ''human_checkpoint'' \<Longrightarrow>
    acts G now d r x True (wait_for_human (step_body d) t x)"
| times_out: "sr_status r = SR_waiting_human \<Longrightarrow> sb_type (step_body d) = ''human_checkpoint'' \<Longrightarrow>
    timed_out (step_body d) r now \<Longrightarrow> acts G now d r x True (time_out (step_body d) now x)"

inductive ticked ::
  "(uuid \<Rightarrow> change_request option) \<Rightarrow> int \<Rightarrow> rb_execution \<Rightarrow> bool \<Rightarrow> rb_execution \<Rightarrow> bool"
  for G :: "uuid \<Rightarrow> change_request option" and now :: int and x :: rb_execution where
  ends: "step_at (ex_snapshot x) (ex_current_step x) = None \<Longrightarrow>
    ticked G now x True (x\<lparr>ex_status := RX_completed, ex_completed_at := Some t\<rparr>)"
| step: "step_at (ex_snapshot x) (ex_current_step x) = Some d \<Longrightarrow> x' = ensure_result (step_body d) x \<Longrightarrow>
    result_at x' (ex_current_step x) = Some r \<Longrightarrow> acts G now d r x' ok x'' \<Longrightarrow> ticked G now x ok x''"

inductive_cases actsE: "acts G now d r x ok x'"
inductive_cases tickedE: "ticked G now x ok x'"

section \<open>Frames\<close>

definition on_execs :: "uuid \<Rightarrow> (rb_execution \<Rightarrow> rb_execution) \<Rightarrow> rb_execution list \<Rightarrow> rb_execution list" where
  "on_execs i g xs = map (\<lambda>y. if ex_id y = i then g y else y) xs"

lemma rs_execs_upd_exec: "rs_execs (upd_exec i g s) = on_execs i g (rs_execs s)"
  by (simp add: upd_exec_def on_execs_def)

lemma upd_exec_frame [simp]:
  "rs_world (upd_exec i g s) = rs_world s" "rs_runbooks (upd_exec i g s) = rs_runbooks s"
  "rs_rows (upd_exec i g s) = rs_rows s" "rs_drawn (upd_exec i g s) = rs_drawn s"
  "rb_now (upd_exec i g s) = rb_now s"
  by (simp_all add: upd_exec_def rb_now_def)

lemma on_execs_compose:
  "(\<And>y. ex_id (g y) = ex_id y) \<Longrightarrow> on_execs i h (on_execs i g xs) = on_execs i (\<lambda>y. h (g y)) xs"
  by (simp add: on_execs_def)

lemma on_execs_id: "on_execs i (\<lambda>y. y) xs = xs"
  by (induction xs) (simp_all add: on_execs_def)

text \<open>The executions, and how many ids are drawn, under the programs that leave the executions alone.\<close>

definition same_execs :: "rb_execution list \<Rightarrow> nat \<Rightarrow> runbook_state \<Rightarrow> bool" where
  "same_execs xs n s \<longleftrightarrow> rs_execs s = xs \<and> n \<le> rs_drawn s"

named_theorems rb_frame \<open>programs that leave the executions alone\<close>

definition leaves_execs :: "'a rb_prog \<Rightarrow> bool" where
  "leaves_execs m \<longleftrightarrow> (\<forall>xs n. keeps (same_execs xs n) m)"

lemma leaves_execsD:
  assumes "leaves_execs m"
  shows "rs_execs (snd (m s)) = rs_execs s" and "rs_drawn s \<le> rs_drawn (snd (m s))"
  using assms keepsD [of "same_execs (rs_execs s) (rs_drawn s)" m s]
  by (auto simp: leaves_execs_def same_execs_def)

lemma leaves_basic [rb_frame]:
  "leaves_execs (ret a)" "leaves_execs (raise e)" "leaves_execs (gets f)" "leaves_execs (of_sum z)"
  "leaves_execs (rb_error c msg)" "leaves_execs (rb_require p c msg)" "leaves_execs (uuid4 rc)"
  "leaves_execs (on_world m)" "leaves_execs (Pair z)"
  by (auto simp: leaves_execs_def same_execs_def keeps_def rb_error_def rb_require_def uuid4_def on_world_def
      split: prod.splits)

lemma leaves_modifyc: 
  "(\<And>s. rs_execs (f s) = rs_execs s \<and> rs_drawn (f s) = rs_drawn s) \<Longrightarrow> leaves_execs (modifyc f)"
  by (simp add: leaves_execs_def same_execs_def keeps_def)

lemma leaves_bindc [rb_frame]: "leaves_execs m \<Longrightarrow> (\<And>a. leaves_execs (f a)) \<Longrightarrow> leaves_execs (bindc m f)"
  by (simp add: leaves_execs_def keeps_bindc)

lemma leaves_thenc [rb_frame]: "leaves_execs m \<Longrightarrow> leaves_execs k \<Longrightarrow> leaves_execs (thenc m k)"
  by (simp add: leaves_execs_def keeps_thenc)

lemma leaves_catchc [rb_frame]: "leaves_execs m \<Longrightarrow> (\<And>e. leaves_execs (h e)) \<Longrightarrow> leaves_execs (catchc m h)"
  by (simp add: leaves_execs_def keeps_catchc)

lemma leaves_whenc [rb_frame]: "leaves_execs m \<Longrightarrow> leaves_execs (whenc b m)"
  by (simp add: leaves_execs_def keeps_whenc)

lemma leaves_if [rb_frame]: "leaves_execs m \<Longrightarrow> leaves_execs k \<Longrightarrow> leaves_execs (if b then m else k)"
  by simp

lemma leaves_cases [rb_frame]:
  "leaves_execs m \<Longrightarrow> (\<And>a. leaves_execs (f a)) \<Longrightarrow> leaves_execs (case z of None \<Rightarrow> m | Some a \<Rightarrow> f a)"
  "(\<And>e. leaves_execs (g e)) \<Longrightarrow> (\<And>a. leaves_execs (h a)) \<Longrightarrow> leaves_execs (case y of Inl e \<Rightarrow> g e | Inr a \<Rightarrow> h a)"
  "(\<And>a b. leaves_execs (k a b)) \<Longrightarrow> leaves_execs (case p of (a, b) \<Rightarrow> k a b)"
  by (simp_all split: option.split sum.split prod.split)

lemma leaves_transact [rb_frame]:
  assumes "leaves_execs m"
  shows "leaves_execs (rb_transact m)"
  unfolding leaves_execs_def keeps_def
proof (intro allI impI)
  fix xs n s
  assume "same_execs xs n s"
  with leaves_execsD [OF assms, of s] show "same_execs xs n (snd (rb_transact m s))"
    by (auto simp: rb_transact_def same_execs_def split: prod.splits sum.splits)
qed

lemma create_leaves [rb_frame]: "leaves_execs (create_and_execute_runbook_cr rc x b)"
  unfolding create_and_execute_runbook_cr_def create_draft_cr_def plan_runbook_cr_def launch_cr_def
  by (intro rb_frame)

lemma try_value_leaves [rb_frame]: "leaves_execs m \<Longrightarrow> leaves_execs (try_value m)"
  unfolding try_value_def by (intro rb_frame)

lemma start_children_leaves [rb_frame]: "leaves_execs (start_children rc x ds)"
proof (induction ds)
  case (Cons d ds)
  then show ?case unfolding start_children.simps by (intro rb_frame)
next
  case Nil
  show ?case unfolding start_children.simps by (intro rb_frame)
qed

section \<open>A tick does only what it may\<close>

text \<open>\<open>does m s i Q\<close>: from \<open>s\<close> the program \<open>m\<close> changes at most the execution \<open>i\<close>, by a function that keeps its
  identity and satisfies \<open>Q\<close>, which is told whether \<open>m\<close> returns.\<close>

definition does ::
  "unit rb_prog \<Rightarrow> runbook_state \<Rightarrow> uuid \<Rightarrow> (bool \<Rightarrow> (rb_execution \<Rightarrow> rb_execution) \<Rightarrow> bool) \<Rightarrow> bool" where
  "does m s i Q \<longleftrightarrow> (\<exists>g. rs_execs (snd (m s)) = on_execs i g (rs_execs s) \<and> (\<forall>y. ex_id (g y) = ex_id y) \<and>
     rs_drawn s \<le> rs_drawn (snd (m s)) \<and> Q (\<not> isl (fst (m s))) g)"

lemma does_ret: "Q True (\<lambda>y. y) \<Longrightarrow> does (ret ()) s i Q"
  unfolding does_def by (rule exI [of _ "\<lambda>y. y"]) (simp add: on_execs_id)

lemma does_raise: "Q False (\<lambda>y. y) \<Longrightarrow> does (raise e) s i Q"
  unfolding does_def by (rule exI [of _ "\<lambda>y. y"]) (simp add: on_execs_id)

lemma does_edit:
  "(\<And>y. ex_id (f (rb_now s) y) = ex_id y) \<Longrightarrow> Q True (f (rb_now s)) \<Longrightarrow> does (edit_exec i f) s i Q"
  unfolding does_def edit_exec_def
  by (rule exI [of _ "f (rb_now s)"]) (simp add: rs_execs_upd_exec)

text \<open>A program that leaves the executions alone, and then one that is known to do something.\<close>

lemma does_bindc:
  assumes "leaves_execs m" and "\<And>a t. m s = (Inr a, t) \<Longrightarrow> does (k a) t i Q" and "Q False (\<lambda>y. y)"
  shows "does (bindc m k) s i Q"
proof -
  obtain z t where run: "m s = (z, t)" by fastforce
  with leaves_execsD [OF assms(1), of s] have t: "rs_execs t = rs_execs s" "rs_drawn s \<le> rs_drawn t" by simp_all
  show ?thesis
  proof (cases z)
    case (Inl e)
    with run t have "rs_execs (snd (bindc m k s)) = on_execs i (\<lambda>y. y) (rs_execs s)"
      "rs_drawn s \<le> rs_drawn (snd (bindc m k s))" "isl (fst (bindc m k s))"
      by (simp_all add: bindc_apply on_execs_id)
    with assms(3) show ?thesis unfolding does_def by (intro exI [of _ "\<lambda>y. y"]) simp
  next
    case (Inr a)
    with run have eq: "bindc m k s = k a t" by (simp add: bindc_apply)
    from assms(2) run Inr have "does (k a) t i Q" by simp
    then show ?thesis using t unfolding does_def eq by (metis order_trans)
  qed
qed

lemma set_result_id [simp]: "ex_id (set_result n f x) = ex_id x"
  by (simp add: set_result_def)

lemma edits_keep_id [simp]:
  "ex_id (handle_step_failure b now x) = ex_id x" "ex_id (fail_step b f now x) = ex_id x"
  "ex_id (mark_started b ks now x) = ex_id x" "ex_id (finish_step b res now x) = ex_id x"
  "ex_id (jump b v now x) = ex_id x" "ex_id (wait_for_human b now x) = ex_id x"
  "ex_id (time_out b now x) = ex_id x" "ex_id (ensure_result b x) = ex_id x"
  by (simp_all add: handle_step_failure_def fail_step_def mark_started_def finish_step_def jump_def
      wait_for_human_def time_out_def ensure_result_def split: option.splits)

lemma poll_change_id [simp]: "ex_id (poll_change b k found now x) = ex_id x"
  by (simp add: poll_change_def split: option.splits)

lemma poll_children_id [simp]: "ex_id (poll_children b children now x) = ex_id x"
  by (simp add: poll_children_def Let_def)

lemma error_text_number [simp]: "sr_step_number (error_text msg r) = sr_step_number r"
  by (simp add: error_text_def)

lemma poll_change_acts:
  assumes "sr_status r = SR_running" and "sb_type (step_body d) = ''change''" and "sr_change_request_ids r = k # ks"
  shows "acts G now d r x True (poll_change (step_body d) k (G k) t x)"
proof (cases "G k")
  case None
  then show ?thesis using assms by (auto simp: poll_change_def intro!: acts.failed)
next
  case (Some cr)
  consider "cr_status cr = CRS_completed" | "cr_status cr \<noteq> CRS_completed" "cr_status cr \<in> set failure_statuses"
    | "cr_status cr \<noteq> CRS_completed" "cr_status cr \<notin> set failure_statuses" by blast
  then show ?thesis
  proof cases
    case 1
    then show ?thesis using Some assms by (auto simp: poll_change_def intro!: acts.passes)
  next
    case 2
    then show ?thesis using Some assms by (auto simp: poll_change_def intro!: acts.failed)
  next
    case 3
    then have "waits_for G now (step_body d) r" using Some assms by (simp add: waits_for_def unsettled_def)
    then show ?thesis using 3 Some by (auto simp: poll_change_def intro: acts.idle)
  qed
qed

lemma poll_children_acts:
  assumes "sr_status r = SR_running" and "sb_type (step_body d) = ''parallel_group''"
  shows "acts G now d r x True (poll_children (step_body d) (map (\<lambda>k. (k, G k)) (sr_change_request_ids r)) t x)"
    (is "acts _ _ _ _ _ _ (poll_children _ ?cs t x)")
proof (cases "list_all (\<lambda>(k, found). child_terminal found) ?cs")
  case False
  then have "waits_for G now (step_body d) r" using assms by (auto simp: waits_for_def list_all_iff list_ex_iff)
  then show ?thesis using False by (auto simp: poll_children_def Let_def intro: acts.idle)
next
  case over: True
  show ?thesis
  proof (cases "list_ex (\<lambda>(k, found). child_failed found) ?cs")
    case True
    then obtain k where k: "k \<in> set (sr_change_request_ids r)" "child_failed (G k)" by (auto simp: list_ex_iff)
    then have "\<not> (\<exists>cr. G k = Some cr \<and> cr_status cr = CRS_completed)" by (auto simp: child_failed_def)
    then show ?thesis using True over assms k(1)
      by (auto simp: poll_children_def Let_def intro!: acts.failed [of r d k])
  next
    case False
    have "\<exists>cr. G k = Some cr \<and> cr_status cr = CRS_completed" if "k \<in> set (sr_change_request_ids r)" for k
      using that over False
      by (force simp: list_all_iff list_ex_iff child_terminal_def child_failed_def split: option.splits)
    then show ?thesis using False over assms
      by (auto simp: poll_children_def Let_def intro!: acts.group_passes)
  qed
qed

lemma does_gets: "does (bindc (gets f) k) s i Q \<longleftrightarrow> does (k (f s)) s i Q"
  by (simp add: does_def)

lemma does_change_step:
  assumes "sb_type (step_body d) = ''change''"
  shows "does (execute_change_step rc x (step_body d) r) s (ex_id x)
    (\<lambda>ok g. acts (get_cr (rs_world s)) (rb_now s) d r x ok (g x))"
    (is "does _ s _ ?Q")
proof (cases "sr_status r")
  case SR_pending
  have "does (case made of Inl msg \<Rightarrow> edit_exec (ex_id x) (fail_step (step_body d) (error_text msg))
      | Inr k \<Rightarrow> edit_exec (ex_id x) (mark_started (step_body d) [k])) t (ex_id x) ?Q" for made t
    using SR_pending assms by (cases made) (auto intro!: does_edit acts.refused acts.starts)
  then show ?thesis using SR_pending
    by (auto simp: execute_change_step_def intro!: does_bindc rb_frame acts.breaks)
next
  case SR_running
  show ?thesis
  proof (cases "sr_change_request_ids r")
    case Nil
    then show ?thesis using SR_running by (auto simp: execute_change_step_def intro!: does_raise acts.breaks)
  next
    case (Cons k ks)
    then show ?thesis using SR_running assms
      by (auto simp: execute_change_step_def does_gets intro!: does_edit poll_change_acts)
  qed
qed (use assms in \<open>auto simp: execute_change_step_def settled_result_def odd_status_def intro!: does_ret acts.idle\<close>)

lemma does_condition_step:
  assumes "sb_type (step_body d) = ''condition''"
  shows "does (execute_condition_step rc x (step_body d) r) s (ex_id x)
    (\<lambda>ok g. acts (get_cr (rs_world s)) (rb_now s) d r x ok (g x))"
proof (cases "sr_status r = SR_pending")
  case True
  then show ?thesis using assms
    by (cases "eval_condition rc x (step_body d)")
      (auto simp: execute_condition_step_def whenc_def intro!: does_edit acts.refused acts.jumps)
next
  case False
  then show ?thesis using assms
    by (cases "sr_status r")
      (auto simp: execute_condition_step_def whenc_def settled_result_def odd_status_def intro!: does_ret acts.idle)
qed

lemma does_checkpoint_step:
  assumes "sb_type (step_body d) = ''human_checkpoint''"
  shows "does (execute_checkpoint_step x (step_body d) r) s (ex_id x)
    (\<lambda>ok g. acts (get_cr (rs_world s)) (rb_now s) d r x ok (g x))"
proof (cases "sr_status r")
  case SR_waiting_human
  have "acts (get_cr (rs_world s)) (rb_now s) d r x True
      (if timed_out (step_body d) r (rb_now s) then time_out (step_body d) (rb_now s) x else x)"
    using SR_waiting_human assms by (auto simp: waits_for_def intro: acts.times_out acts.idle)
  then show ?thesis using SR_waiting_human
    by (auto simp: execute_checkpoint_step_def whenc_def intro!: does_edit)
qed (use assms in \<open>auto simp: execute_checkpoint_step_def whenc_def settled_result_def odd_status_def
  intro!: does_ret does_edit acts.idle acts.waits\<close>)

lemma does_parallel_step:
  assumes "sb_type (step_body d) = ''parallel_group''"
  shows "does (execute_parallel_step rc x d r) s (ex_id x)
    (\<lambda>ok g. acts (get_cr (rs_world s)) (rb_now s) d r x ok (g x))"
    (is "does _ s _ ?Q")
proof (cases "sr_status r")
  case SR_pending
  have "does (case err of Some msg \<Rightarrow> edit_exec (ex_id x)
          (fail_step (step_body d) (\<lambda>r. (error_text msg r)\<lparr>sr_change_request_ids := ks\<rparr>))
      | None \<Rightarrow> edit_exec (ex_id x) (mark_started (step_body d) ks)) t (ex_id x) ?Q" for ks err t
    using SR_pending assms by (cases err) (auto intro!: does_edit acts.refused acts.starts)
  then show ?thesis using SR_pending
    by (auto simp: execute_parallel_step_def intro!: does_bindc rb_frame acts.breaks split: prod.split)
next
  case SR_running
  then show ?thesis using assms
    by (auto simp: execute_parallel_step_def does_gets intro!: does_edit poll_children_acts)
qed (use assms in \<open>auto simp: execute_parallel_step_def settled_result_def odd_status_def intro!: does_ret acts.idle\<close>)

lemma does_execute_step:
  "does (execute_step rc x d r) s (ex_id x) (\<lambda>ok g. acts (get_cr (rs_world s)) (rb_now s) d r x ok (g x))"
  using does_change_step does_condition_step does_checkpoint_step does_parallel_step
  by (auto simp: execute_step_def Let_def odd_status_def step_types_def intro!: does_ret acts.idle)

lemma find_exec_id: "find_exec s i = Some x \<Longrightarrow> ex_id x = i"
  unfolding find_exec_def by (rule lookup_row_key)

lemma find_snoc: "List.find P xs = None \<Longrightarrow> P a \<Longrightarrow> List.find P (xs @ [a]) = Some a"
  by (induction xs) (auto split: if_splits)

lemma result_at_ensure:
  "result_at (ensure_result b x) (sb_step_number b) =
     Some (case result_at x (sb_step_number b) of None \<Rightarrow> new_result b | Some r \<Rightarrow> r)"
proof (cases "result_at x (sb_step_number b)")
  case None
  then have "result_at (ensure_result b x) (sb_step_number b) =
      List.find (\<lambda>r. sr_step_number r = sb_step_number b) (ex_step_results x @ [new_result b])"
    by (simp add: ensure_result_def result_at_def)
  also have "\<dots> = Some (new_result b)"
    using None by (intro find_snoc) (simp_all add: result_at_def new_result_def)
  finally show ?thesis using None by simp
qed (simp add: ensure_result_def)

lemma step_at_number: "step_at snap n = Some d \<Longrightarrow> sb_step_number (step_body d) = n"
  by (auto simp: step_at_def find_Some_iff)

lemma result_at_ensured:
  assumes "step_at snap n = Some d"
  shows "\<exists>r. result_at (ensure_result (step_body d) x) n = Some r"
  using result_at_ensure [of "step_body d" x] step_at_number [OF assms] by blast

text \<open>A tick of the execution \<open>i\<close> changes only it, and as \<open>ticked\<close> allows.\<close>

lemma does_tick:
  assumes "find_exec s i = Some x"
  shows "does (tick_execution rc i) s i (\<lambda>ok g. ticked (get_cr (rs_world s)) (rb_now s) x ok (g x))"
proof (cases "step_at (ex_snapshot x) (ex_current_step x)")
  case None
  then show ?thesis using assms
    by (auto simp: tick_execution_def does_gets intro!: does_edit ticked.ends)
next
  case (Some d)
  let ?e = "ensure_result (step_body d)"
  let ?s = "upd_exec i ?e s"
  obtain r where r: "result_at (?e x) (ex_current_step x) = Some r" using result_at_ensured [OF Some] by blast
  have id: "ex_id (?e x) = i" using find_exec_id [OF assms] by simp
  have tick: "tick_execution rc i s = execute_step rc (?e x) d r ?s"
    using assms Some r by (simp add: tick_execution_def Let_def)
  obtain g where g: "rs_execs (snd (execute_step rc (?e x) d r ?s)) = on_execs i g (rs_execs ?s)"
      "\<And>y. ex_id (g y) = ex_id y" "rs_drawn s \<le> rs_drawn (snd (execute_step rc (?e x) d r ?s))"
      "acts (get_cr (rs_world s)) (rb_now s) d r (?e x) (\<not> isl (fst (execute_step rc (?e x) d r ?s))) (g (?e x))"
    using does_execute_step [of rc "?e x" d r ?s] id unfolding does_def by auto
  have "rs_execs (snd (tick_execution rc i s)) = on_execs i (\<lambda>y. g (?e y)) (rs_execs s)"
    using tick g(1) by (simp add: rs_execs_upd_exec on_execs_compose)
  moreover have "ticked (get_cr (rs_world s)) (rb_now s) x (\<not> isl (fst (tick_execution rc i s))) (g (?e x))"
    using ticked.step [OF Some refl r g(4)] tick by simp
  ultimately show ?thesis using g(2,3) tick unfolding does_def by (intro exI [of _ "\<lambda>y. g (?e y)"]) simp
qed

section \<open>A well-formed execution\<close>

text \<open>One result per step; a result waits for a human exactly when the execution does, and then it is the
  result of the current step, which is a checkpoint; and an execution has an end time exactly when it is
  no longer active.\<close>

definition waiting :: "rb_execution \<Rightarrow> step_result set" where
  "waiting x = {r \<in> set (ex_step_results x). sr_status r = SR_waiting_human}"

definition checkpoint_now :: "rb_execution \<Rightarrow> bool" where
  "checkpoint_now x \<longleftrightarrow> (case step_at (ex_snapshot x) (ex_current_step x) of
     None \<Rightarrow> False | Some d \<Rightarrow> sb_type (step_body d) = ''human_checkpoint'')"

definition exec_ok :: "rb_execution \<Rightarrow> bool" where
  "exec_ok x \<longleftrightarrow>
     distinct (map sr_step_number (ex_step_results x)) \<and>
     (ex_status x = RX_waiting_human \<longrightarrow> waiting x \<noteq> {} \<and> checkpoint_now x) \<and>
     (ex_status x \<noteq> RX_waiting_human \<longrightarrow> waiting x = {}) \<and>
     (\<forall>r \<in> waiting x. sr_step_number r = ex_current_step x) \<and>
     (ex_completed_at x = None \<longleftrightarrow> active_status (ex_status x))"

lemma set_result_columns [simp]:
  "ex_status (set_result n f x) = ex_status x" "ex_snapshot (set_result n f x) = ex_snapshot x"
  "ex_current_step (set_result n f x) = ex_current_step x" "ex_completed_at (set_result n f x) = ex_completed_at x"
  "ex_step_results (set_result n f x) = map (\<lambda>r. if sr_step_number r = n then f r else r) (ex_step_results x)"
  by (simp_all add: set_result_def)

lemma map_number_set:
  "(\<And>r. sr_step_number (f r) = sr_step_number r) \<Longrightarrow>
   map sr_step_number (map (\<lambda>r. if sr_step_number r = n then f r else r) rs) = map sr_step_number rs"
  by simp

lemma waiting_set_result:
  assumes "\<forall>r \<in> waiting x. sr_step_number r = n" and "\<And>r. sr_status (f r) \<noteq> SR_waiting_human"
  shows "waiting (set_result n f x) = {}"
  using assms by (auto simp: waiting_def split: if_splits)

lemma waiting_columns [simp]:
  "waiting (x\<lparr>ex_status := a\<rparr>) = waiting x" "waiting (x\<lparr>ex_current_step := n\<rparr>) = waiting x"
  "waiting (x\<lparr>ex_completed_at := c\<rparr>) = waiting x"
  by (simp_all add: waiting_def)

lemma waiting_none:
  assumes "exec_ok x" and "result_at x (ex_current_step x) = Some r" and "sr_status r \<noteq> SR_waiting_human"
  shows "waiting x = {}" and "ex_status x \<noteq> RX_waiting_human"
proof -
  have r: "r \<in> set (ex_step_results x)" "sr_step_number r = ex_current_step x"
    using assms(2) by (auto simp: result_at_def find_Some_iff)
  have inj: "inj_on sr_step_number (set (ex_step_results x))" using assms(1) by (simp add: exec_ok_def distinct_map)
  have "q = r" if "q \<in> set (ex_step_results x)" "sr_step_number q = ex_current_step x" for q
    using inj_onD [OF inj _ that(1) r(1)] that(2) r(2) by simp
  with assms(1,3) show "waiting x = {}" by (auto simp: exec_ok_def waiting_def)
  with assms(1) show "ex_status x \<noteq> RX_waiting_human" by (auto simp: exec_ok_def)
qed

lemma ok_settle:
  assumes ok: "exec_ok x" and n: "n = ex_current_step x"
    and f: "\<And>r. sr_step_number (f r) = sr_step_number r" "\<And>r. sr_status (f r) \<noteq> SR_waiting_human"
    and st: "st \<noteq> RX_waiting_human" and c: "c = None \<longleftrightarrow> active_status st"
  shows "exec_ok ((set_result n f x)\<lparr>ex_status := st, ex_completed_at := c, ex_current_step := m\<rparr>)"
proof -
  have "waiting (set_result n f x) = {}"
    using ok f(2) n by (intro waiting_set_result) (auto simp: exec_ok_def)
  then show ?thesis using ok f(1) st c by (simp add: exec_ok_def map_number_set o_def if_distrib cong: if_cong)
qed

lemma ok_columns:
  assumes "exec_ok x" and "n = ex_current_step x" and "active_status (ex_status x)" and "waiting x = {}"
    and "\<And>r. sr_step_number (f r) = sr_step_number r" and "\<And>r. sr_status (f r) \<noteq> SR_waiting_human"
  shows "exec_ok (set_result n f x)" and "exec_ok ((set_result n f x)\<lparr>ex_current_step := m\<rparr>)"
proof -
  have st: "ex_status x \<noteq> RX_waiting_human" using assms(1,4) by (auto simp: exec_ok_def)
  have same: "(set_result n f x)\<lparr>ex_status := ex_status x, ex_completed_at := ex_completed_at x, ex_current_step := m\<rparr> =
      (set_result n f x)\<lparr>ex_current_step := m\<rparr>" for m by (cases x) (simp add: set_result_def)
  have c: "ex_completed_at x = None \<longleftrightarrow> active_status (ex_status x)" using assms(1) by (simp add: exec_ok_def)
  show "exec_ok ((set_result n f x)\<lparr>ex_current_step := m\<rparr>)" for m
    using ok_settle [OF assms(1,2,5,6) st c, where m = m] by (simp only: same)
  from this [of "ex_current_step x"] show "exec_ok (set_result n f x)" by (simp add: set_result_def)
qed

lemma ok_failure:
  assumes "exec_ok x" and "n = ex_current_step x" and "active_status (ex_status x)" and "waiting x = {}"
    and "\<And>r. sr_step_number (f r) = sr_step_number r" and "n = sb_step_number b"
  shows "exec_ok (fail_step b f t x)"
proof -
  let ?f = "\<lambda>r. (f r)\<lparr>sr_status := SR_failed\<rparr>"
  have f: "sr_step_number (?f r) = sr_step_number r" "sr_status (?f r) \<noteq> SR_waiting_human" for r
    using assms(5) by simp_all
  have ends: "exec_ok ((set_result n ?f x)\<lparr>ex_status := st, ex_completed_at := Some t\<rparr>)"
    if "\<not> active_status st" for st
    using ok_settle [OF assms(1,2), where f = ?f and st = st and c = "Some t" and m = "ex_current_step x"] f that
    by (simp add: active_status_def set_result_def)
  show ?thesis
    using ends [of RX_failed] ends [of RX_rolled_back] ok_columns [OF assms(1,2,3,4) f] assms(6)
    by (simp add: fail_step_def handle_step_failure_def active_status_def)
qed

lemma ensure_columns [simp]:
  "ex_status (ensure_result b x) = ex_status x" "ex_snapshot (ensure_result b x) = ex_snapshot x"
  "ex_current_step (ensure_result b x) = ex_current_step x" "ex_completed_at (ensure_result b x) = ex_completed_at x"
  by (simp_all add: ensure_result_def split: option.splits)

lemma waiting_ensure [simp]: "waiting (ensure_result b x) = waiting x"
  by (auto simp: ensure_result_def waiting_def new_result_def split: option.splits)

lemma ensure_ok: "exec_ok x \<Longrightarrow> exec_ok (ensure_result b x)"
proof -
  assume ok: "exec_ok x"
  have "distinct (map sr_step_number (ex_step_results (ensure_result b x)))"
  proof (cases "result_at x (sb_step_number b)")
    case None
    then have "sb_step_number b \<notin> sr_step_number ` set (ex_step_results x)"
      by (auto simp: result_at_def find_None_iff)
    with ok None show ?thesis by (simp add: ensure_result_def exec_ok_def new_result_def)
  qed (use ok in \<open>simp add: ensure_result_def exec_ok_def\<close>)
  with ok show ?thesis by (simp add: exec_ok_def checkpoint_now_def)
qed

lemma wait_ok:
  assumes "exec_ok x" and "waiting x = {}" and "active_status (ex_status x)" and "checkpoint_now x"
    and "result_at x (ex_current_step x) = Some r" and "sb_step_number b = ex_current_step x"
  shows "exec_ok (wait_for_human b t x)"
proof -
  have r: "r \<in> set (ex_step_results x)" "sr_step_number r = ex_current_step x"
    using assms(5) by (auto simp: result_at_def find_Some_iff)
  let ?f = "\<lambda>q. q\<lparr>sr_status := SR_waiting_human, sr_started_at := Some t\<rparr>"
  let ?y = "set_result (ex_current_step x) ?f x"
  have "?f r \<in> waiting ?y" using r by (force simp: waiting_def)
  moreover have "\<forall>q \<in> waiting ?y. sr_step_number q = ex_current_step x"
    using assms(2) by (auto simp: waiting_def)
  ultimately show ?thesis using assms(1,3,4,6)
    by (auto simp: exec_ok_def wait_for_human_def map_number_set o_def if_distrib checkpoint_now_def active_status_def
        cong: if_cong)
qed

lemma acts_ok:
  assumes ok: "exec_ok x" and active: "active_status (ex_status x)"
    and d: "step_at (ex_snapshot x) (ex_current_step x) = Some d"
    and r: "result_at x (ex_current_step x) = Some r" and act: "acts G now d r x returns x'"
  shows "exec_ok x'"
proof -
  have n: "sb_step_number (step_body d) = ex_current_step x" using d by (rule step_at_number)
  have c: "ex_completed_at x = None" using ok active by (simp add: exec_ok_def)
  note none = waiting_none(1) [OF ok r]
  note columns = ok_columns [OF ok n active] and failure = ok_failure [OF ok n active]
  from act show ?thesis
  proof cases
    case (starts ks t)
    then show ?thesis using none by (auto simp: mark_started_def intro!: columns)
  next
    case (refused f t)
    then show ?thesis using none by (auto intro!: failure)
  next
    case (failed k f t)
    then show ?thesis using none by (auto intro!: failure)
  next
    case (passes k ks cr res t)
    then show ?thesis using none by (auto simp: finish_step_def intro!: columns)
  next
    case (group_passes res t)
    then show ?thesis using none by (auto simp: finish_step_def intro!: columns)
  next
    case (jumps v t)
    then show ?thesis using none by (auto simp: jump_def intro!: columns)
  next
    case (waits t)
    have "checkpoint_now x" using d waits(4) by (simp add: checkpoint_now_def)
    then show ?thesis using waits none by (auto intro!: wait_ok [OF ok _ active _ r n])
  next
    case times_out
    have "exec_ok ((set_result (ex_current_step x) f x)\<lparr>ex_status := RX_failed, ex_completed_at := Some now\<rparr>)"
      if "\<And>r. sr_step_number (f r) = sr_step_number r" "\<And>r. sr_status (f r) = SR_failed" for f
      using ok_settle [OF ok refl, where f = f and st = RX_failed and c = "Some now" and m = "ex_current_step x"] that
      by (simp add: active_status_def set_result_def)
    moreover have "exec_ok ((set_result (ex_current_step x) f x)\<lparr>ex_current_step := m, ex_status := RX_running\<rparr>)"
      if "\<And>r. sr_step_number (f r) = sr_step_number r" "\<And>r. sr_status (f r) = SR_completed" for f m
      using ok_settle [OF ok refl, where f = f and st = RX_running and c = None and m = m] that c
      by (cases x) (simp add: active_status_def set_result_def)
    ultimately show ?thesis using times_out n by (simp add: time_out_def finish_step_def)
  qed (use ok in simp_all)
qed

lemma ticked_ok:
  assumes ok: "exec_ok x" and active: "active_status (ex_status x)" and tick: "ticked G now x returns x'"
  shows "exec_ok x'"
  using tick
proof cases
  case (ends t)
  then have "waiting x = {}" using ok by (auto simp: exec_ok_def checkpoint_now_def)
  then show ?thesis using ok ends by (simp add: exec_ok_def active_status_def)
next
  case (step d y r)
  then show ?thesis
    using acts_ok [of y d r G now returns x'] ensure_ok [OF ok] active by simp
qed

lemma resume_ok:
  assumes "exec_ok x" and "r \<in> waiting x" and "sr_step_number r = n"
  shows "exec_ok (resumed n u now x)" and "exec_ok (aborted_at n msg now x)"
proof -
  have n: "n = ex_current_step x" using assms by (auto simp: exec_ok_def)
  have "ex_status x = RX_waiting_human" using assms(1,2) by (auto simp: exec_ok_def)
  then have c: "ex_completed_at x = None" using assms(1) by (simp add: exec_ok_def active_status_def)
  have "exec_ok ((set_result n f x)\<lparr>ex_status := RX_running, ex_completed_at := None, ex_current_step := n + 1\<rparr>)"
    if "\<And>r. sr_step_number (f r) = sr_step_number r" "\<And>r. sr_status (f r) = SR_completed" for f
    using ok_settle [OF assms(1) n] that by (simp add: active_status_def)
  then show "exec_ok (resumed n u now x)" using c
    by (cases x) (simp add: resumed_def set_result_def)
  show "exec_ok (aborted_at n msg now x)"
    using ok_settle [OF assms(1) n, where st = RX_failed and c = "Some now" and m = "ex_current_step x" and
        f = "\<lambda>r. r\<lparr>sr_status := SR_failed, sr_error_message := Some msg\<rparr>"]
    by (simp add: active_status_def set_result_def aborted_at_def)
qed

lemma abort_ok: "exec_ok x \<Longrightarrow> exec_ok (aborted_at (ex_current_step x) msg now x)"
  using ok_settle [OF _ refl, where x = x and st = RX_failed and c = "Some now" and m = "ex_current_step x" and
      f = "\<lambda>r. r\<lparr>sr_status := SR_failed, sr_error_message := Some msg\<rparr>"]
  by (simp add: active_status_def set_result_def aborted_at_def)

lemma new_execution_ok: "exec_ok (new_execution k rb snap user context now)"
  by (simp add: exec_ok_def new_execution_def waiting_def active_status_def)

section \<open>Forward runbooks\<close>

text \<open>A runbook that only goes forward: its steps have a known type and a known \<open>on_failure\<close>, its numbers stay
  below the number that stands for its end, and its conditions jump ahead.\<close>

definition forward_step :: "step_body \<Rightarrow> bool" where
  "forward_step b \<longleftrightarrow>
     sb_type b \<in> set step_types \<and> sb_on_failure b \<in> {''abort'', ''continue'', ''rollback_all''} \<and>
     0 \<le> sb_step_number b \<and> sb_step_number b < 9999 \<and>
     (sb_type b = ''condition'' \<longrightarrow>
        (case sb_on_true_step b of None \<Rightarrow> True | Some n \<Rightarrow> sb_step_number b < n) \<and>
        (case sb_on_false_step b of None \<Rightarrow> True | Some n \<Rightarrow> sb_step_number b < n))"

definition forward :: "snapshot \<Rightarrow> bool" where
  "forward snap \<longleftrightarrow> (\<forall>d \<in> set (sn_steps snap). forward_step (step_body d))"

text \<open>In an active execution of such a runbook the steps ahead have no result, and the current one none that is
  settled.\<close>

definition ahead :: "rb_execution \<Rightarrow> bool" where
  "ahead x \<longleftrightarrow> (forward (ex_snapshot x) \<and> active_status (ex_status x) \<longrightarrow>
     (\<forall>r \<in> set (ex_step_results x). sr_step_number r \<le> ex_current_step x \<and>
        (settled_result r \<longrightarrow> sr_step_number r < ex_current_step x)))"

lemma step_at_in: "step_at snap n = Some d \<Longrightarrow> d \<in> set (sn_steps snap)"
proof -
  have "List.find P xs = Some d \<Longrightarrow> d \<in> set xs" for P and xs :: "step_def list"
    by (induction xs) (auto split: if_splits)
  then show "step_at snap n = Some d \<Longrightarrow> d \<in> set (sn_steps snap)" unfolding step_at_def by fastforce
qed

lemma forward_step_at: "forward snap \<Longrightarrow> step_at snap n = Some d \<Longrightarrow> forward_step (step_body d)"
  by (auto simp: forward_def dest: step_at_in)

lemma ahead_set_result:
  assumes "ahead x" and "forward (ex_snapshot x)" and "active_status (ex_status x)"
    and "\<And>r. sr_step_number (f r) = sr_step_number r" and "ex_current_step x < m"
  shows "\<forall>r \<in> set (ex_step_results (set_result n f x)). sr_step_number r < m"
  using assms by (fastforce simp: ahead_def)

lemma ahead_moved:
  assumes "ahead x" and "active_status (ex_status x)" and "\<And>r. sr_step_number (f r) = sr_step_number r"
    and "ex_current_step x < m"
  shows "ahead ((set_result n f x)\<lparr>ex_current_step := m\<rparr>)"
    and "ahead ((set_result n f x)\<lparr>ex_current_step := m, ex_status := st\<rparr>)"
    and "ahead ((set_result n f x)\<lparr>ex_status := st, ex_current_step := m\<rparr>)"
  using ahead_set_result [OF assms(1) _ assms(2,3,4), of n]
  by (auto simp: ahead_def order.strict_implies_order simp del: set_result_columns(5))

lemma ahead_stays:
  assumes "ahead x" and "active_status (ex_status x)" and "\<And>r. sr_step_number (f r) = sr_step_number r"
    and "\<And>r. \<not> settled_result (f r)"
  shows "ahead (set_result n f x)" and "ahead ((set_result n f x)\<lparr>ex_status := st\<rparr>)"
  using assms by (auto simp: ahead_def)

lemma ahead_ended: "\<not> active_status (ex_status x) \<Longrightarrow> ahead x"
  by (simp add: ahead_def)

lemma ahead_ensure:
  assumes "ahead x" and "sb_step_number b = ex_current_step x"
  shows "ahead (ensure_result b x)"
  using assms by (auto simp: ensure_result_def ahead_def new_result_def settled_result_def split: option.splits)

lemma ahead_failure:
  assumes "ahead x" and "active_status (ex_status x)" and "\<And>r. sr_step_number (f r) = sr_step_number r"
    and "forward (ex_snapshot x) \<Longrightarrow> sb_on_failure b \<in> {''abort'', ''continue'', ''rollback_all''}"
  shows "ahead (fail_step b f t x)"
proof (cases "forward (ex_snapshot x)")
  case True
  let ?f = "\<lambda>r. (f r)\<lparr>sr_status := SR_failed\<rparr>"
  have "ahead ((set_result (sb_step_number b) ?f x)\<lparr>ex_current_step := ex_current_step x + 1\<rparr>)"
    using assms(3) by (intro ahead_moved(1) [OF assms(1,2)]) simp_all
  with True assms(4) show ?thesis
    by (auto simp: fail_step_def handle_step_failure_def active_status_def intro: ahead_ended)
next
  case False
  then show ?thesis by (simp add: ahead_def fail_step_def handle_step_failure_def)
qed

lemma ahead_jump:
  assumes "ahead x" and "active_status (ex_status x)" and "sb_type b = ''condition''"
    and "sb_step_number b = ex_current_step x" and "forward (ex_snapshot x) \<Longrightarrow> forward_step b"
  shows "ahead (jump b v t x)"
proof (cases "forward (ex_snapshot x)")
  case True
  then have "ex_current_step x < (case jump_of b v of None \<Rightarrow> 9999 | Some n \<Rightarrow> n)"
    using assms(3,4,5) by (auto simp: forward_step_def jump_of_def split: option.splits)
  then show ?thesis unfolding jump_def by (intro ahead_moved(1) [OF assms(1,2)]) simp_all
next
  case False
  then show ?thesis by (simp add: ahead_def jump_def)
qed

lemma acts_ahead:
  assumes ah: "ahead x" and active: "active_status (ex_status x)"
    and d: "step_at (ex_snapshot x) (ex_current_step x) = Some d"
    and act: "acts G now d r x returns x'"
  shows "ahead x'"
proof -
  have n: "sb_step_number (step_body d) = ex_current_step x" using d by (rule step_at_number)
  have fw: "forward (ex_snapshot x) \<Longrightarrow> forward_step (step_body d)" using forward_step_at [OF _ d] .
  note failure = ahead_failure [OF ah active] and moved = ahead_moved [OF ah active] and stays = ahead_stays [OF ah active]
  from act show ?thesis
  proof cases
    case (starts ks t)
    then show ?thesis by (auto simp: mark_started_def settled_result_def intro!: stays)
  next
    case (refused f t)
    then show ?thesis using fw by (auto simp: forward_step_def intro!: failure)
  next
    case (failed k f t)
    then show ?thesis using fw by (auto simp: forward_step_def intro!: failure)
  next
    case (passes k ks cr res t)
    then show ?thesis by (auto simp: finish_step_def intro!: moved)
  next
    case (group_passes res t)
    then show ?thesis by (auto simp: finish_step_def intro!: moved)
  next
    case (jumps v t)
    then show ?thesis using ahead_jump [OF ah active _ n fw] by simp
  next
    case (waits t)
    then show ?thesis by (auto simp: wait_for_human_def settled_result_def intro!: stays)
  next
    case times_out
    then show ?thesis
      by (cases "sb_on_timeout (step_body d) = Some ''abort''")
        (simp add: time_out_def ahead_def active_status_def, simp add: time_out_def finish_step_def moved)
  qed (use ah in simp_all)
qed

text \<open>Only steps that make changes have running results.\<close>

definition on_step :: "rb_execution \<Rightarrow> bool" where
  "on_step x \<longleftrightarrow> (\<forall>r \<in> set (ex_step_results x). sr_status r = SR_running \<longrightarrow>
     (\<exists>d. step_at (ex_snapshot x) (sr_step_number r) = Some d \<and>
        sb_type (step_body d) \<in> {''change'', ''parallel_group''}))"

lemma on_step_columns [simp]:
  "on_step (x\<lparr>ex_current_step := m\<rparr>) = on_step x" "on_step (x\<lparr>ex_status := st\<rparr>) = on_step x"
  "on_step (x\<lparr>ex_completed_at := c\<rparr>) = on_step x"
  by (simp_all add: on_step_def)

lemma on_step_set_result:
  "on_step x \<Longrightarrow> (\<And>r. sr_status (f r) \<noteq> SR_running) \<Longrightarrow> on_step (set_result n f x)"
  by (auto simp: on_step_def)

lemma on_step_ensure: "on_step x \<Longrightarrow> on_step (ensure_result b x)"
  by (auto simp: ensure_result_def on_step_def new_result_def split: option.splits)

lemma acts_on_step:
  assumes x: "on_step x" and d: "step_at (ex_snapshot x) (ex_current_step x) = Some d"
    and act: "acts G now d r x returns x'"
  shows "on_step x'"
  using act
proof cases
  case (starts ks t)
  then show ?thesis using x d step_at_number [OF d] by (auto simp: mark_started_def on_step_def)
next
  case (refused f t)
  then show ?thesis using x by (auto simp: fail_step_def handle_step_failure_def intro!: on_step_set_result)
next
  case (failed k f t)
  then show ?thesis using x by (auto simp: fail_step_def handle_step_failure_def intro!: on_step_set_result)
qed (use x in \<open>auto simp: finish_step_def jump_def wait_for_human_def time_out_def intro!: on_step_set_result\<close>)

section \<open>Changes of an execution\<close>

inductive exec_change :: "rb_execution \<Rightarrow> rb_execution \<Rightarrow> bool" for x :: rb_execution where
  tick: "ticked G now x returns x' \<Longrightarrow> exec_change x x'"
| resume: "r \<in> waiting x \<Longrightarrow> exec_change x (resumed (sr_step_number r) u now x)"
| turn_down: "r \<in> waiting x \<Longrightarrow> exec_change x (aborted_at (sr_step_number r) msg now x)"
| abort: "exec_change x (aborted_at (ex_current_step x) msg now x)"

lemma edits_keep_snapshot [simp]:
  "ex_snapshot (handle_step_failure b now x) = ex_snapshot x" "ex_snapshot (fail_step b f now x) = ex_snapshot x"
  "ex_snapshot (mark_started b ks now x) = ex_snapshot x" "ex_snapshot (finish_step b res now x) = ex_snapshot x"
  "ex_snapshot (jump b v now x) = ex_snapshot x" "ex_snapshot (wait_for_human b now x) = ex_snapshot x"
  "ex_snapshot (time_out b now x) = ex_snapshot x"
  by (simp_all add: handle_step_failure_def fail_step_def mark_started_def finish_step_def jump_def
      wait_for_human_def time_out_def)

lemma exec_change_id:
  assumes "exec_change x x'"
  shows "ex_id x' = ex_id x" and "ex_snapshot x' = ex_snapshot x"
proof -
  have "ex_id x'' = ex_id y \<and> ex_snapshot x'' = ex_snapshot y" if "acts G now d r y returns x''"
    for G now d r y returns x'' using that by cases simp_all
  then have "ticked G now x returns x'' \<Longrightarrow> ex_id x'' = ex_id x \<and> ex_snapshot x'' = ex_snapshot x"
    for G now returns x'' by (elim tickedE) simp_all
  with assms show "ex_id x' = ex_id x" "ex_snapshot x' = ex_snapshot x"
    by (cases rule: exec_change.cases; force simp: resumed_def aborted_at_def)+
qed

definition exec_good :: "rb_execution \<Rightarrow> bool" where
  "exec_good x \<longleftrightarrow> exec_ok x \<and> ahead x \<and> on_step x"

lemma change_good:
  assumes good: "exec_good x" and active: "active_status (ex_status x)" and change: "exec_change x x'"
  shows "exec_good x'"
proof -
  have ok: "exec_ok x" and ah: "ahead x" and on_step: "on_step x" using good by (simp_all add: exec_good_def)
  from change show ?thesis
  proof cases
    case (tick G now returns)
    have "ahead x' \<and> on_step x'" using tick
    proof cases
      case (ends t)
      then show ?thesis using on_step by (simp add: ahead_def active_status_def)
    next
      case (step d y r)
      then show ?thesis
        using acts_ahead [OF ahead_ensure [OF ah], of "step_body d" d G now r returns x'] active step_at_number
          acts_on_step [OF on_step_ensure [OF on_step], of "step_body d" d G now r returns x'] by simp
    qed
    with ticked_ok [OF ok active tick] show ?thesis by (simp add: exec_good_def)
  next
    case (resume r u now)
    then have "sr_step_number r = ex_current_step x" using ok by (simp add: exec_ok_def)
    then have "ahead x'"
      using resume ah active by (auto simp: resumed_def intro!: ahead_moved)
    moreover have "on_step x'" using resume(1) on_step by (auto simp: resumed_def intro!: on_step_set_result)
    ultimately show ?thesis using resume_ok(1) [OF ok resume(2) refl] resume(1) by (simp add: exec_good_def)
  next
    case (turn_down r msg now)
    then show ?thesis using resume_ok(2) [OF ok turn_down(2) refl] on_step
      by (simp add: exec_good_def ahead_def aborted_at_def active_status_def on_step_set_result)
  next
    case (abort msg now)
    then show ?thesis using abort_ok [OF ok] on_step
      by (simp add: exec_good_def ahead_def aborted_at_def active_status_def on_step_set_result)
  qed
qed

lemma new_execution_good: "exec_good (new_execution k rb snap user context now)"
  using new_execution_ok by (simp add: exec_good_def ahead_def on_step_def new_execution_def)

section \<open>The tables\<close>

text \<open>\<open>rb_inv rc M I\<close>: executions have ids of their own, drawn from the supply, each is well-formed and
  satisfies \<open>M\<close>, and those with the ids \<open>I\<close> are there. \<open>M\<close> is \<open>stable\<close> when the changes of active executions
  keep it and it says nothing of other ids.\<close>

definition stable :: "(rb_execution \<Rightarrow> bool) \<Rightarrow> uuid set \<Rightarrow> bool" where
  "stable M I \<longleftrightarrow>
     (\<forall>x x'. M x \<longrightarrow> exec_good x \<longrightarrow> active_status (ex_status x) \<longrightarrow> exec_change x x' \<longrightarrow> M x') \<and>
     (\<forall>x. ex_id x \<notin> I \<longrightarrow> M x)"

definition rb_inv :: "rb_config \<Rightarrow> (rb_execution \<Rightarrow> bool) \<Rightarrow> uuid set \<Rightarrow> runbook_state \<Rightarrow> bool" where
  "rb_inv rc M I s \<longleftrightarrow>
     distinct (map ex_id (rs_execs s)) \<and>
     (\<forall>x \<in> set (rs_execs s). exec_good x \<and> M x \<and> ex_id x \<in> rc_uuid rc ` {..<rs_drawn s}) \<and>
     I \<subseteq> ex_id ` set (rs_execs s)"

definition rb_inv_from :: "rb_config \<Rightarrow> (rb_execution \<Rightarrow> bool) \<Rightarrow> uuid set \<Rightarrow> nat \<Rightarrow> runbook_state \<Rightarrow> bool" where
  "rb_inv_from rc M I n s \<longleftrightarrow> rb_inv rc M I s \<and> n \<le> rs_drawn s"

text \<open>The laws of a program on the tables: it keeps the invariant, for every stable property of the executions, and
  gives no id back.\<close>

definition rb_safe :: "rb_config \<Rightarrow> 'a rb_prog \<Rightarrow> bool" where
  "rb_safe rc m \<longleftrightarrow> (\<forall>M I n. stable M I \<longrightarrow> keeps (rb_inv_from rc M I n) m)"

lemma rb_safeI:
  "(\<And>M I s. stable M I \<Longrightarrow> rb_inv rc M I s \<Longrightarrow>
      rb_inv rc M I (snd (m s)) \<and> rs_drawn s \<le> rs_drawn (snd (m s))) \<Longrightarrow> rb_safe rc m"
  unfolding rb_safe_def keeps_def rb_inv_from_def by (meson order_trans)

lemma rb_safeD:
  assumes "rb_safe rc m" and "stable M I" and "rb_inv rc M I s"
  shows "rb_inv rc M I (snd (m s))" and "rs_drawn s \<le> rs_drawn (snd (m s))"
  using assms unfolding rb_safe_def keeps_def rb_inv_from_def by (metis order_refl)+

named_theorems rb_safe_intros \<open>programs that keep the invariant of the tables\<close>

lemma safe_leaves: "leaves_execs m \<Longrightarrow> rb_safe rc m"
proof (rule rb_safeI)
  fix M I s
  assume m: "leaves_execs m" and inv: "rb_inv rc M I s"
  note [simp] = leaves_execsD(1) [OF m] and drawn = leaves_execsD(2) [OF m, of s]
  have "rc_uuid rc ` {..<rs_drawn s} \<subseteq> rc_uuid rc ` {..<rs_drawn (snd (m s))}" using drawn by auto
  with inv drawn show "rb_inv rc M I (snd (m s)) \<and> rs_drawn s \<le> rs_drawn (snd (m s))" by (auto simp: rb_inv_def)
qed

lemma safe_bindc [rb_safe_intros]: "rb_safe rc m \<Longrightarrow> (\<And>a. rb_safe rc (f a)) \<Longrightarrow> rb_safe rc (bindc m f)"
  unfolding rb_safe_def by (simp add: keeps_bindc)

lemma safe_thenc [rb_safe_intros]: "rb_safe rc m \<Longrightarrow> rb_safe rc k \<Longrightarrow> rb_safe rc (thenc m k)"
  unfolding rb_safe_def by (simp add: keeps_thenc)

lemma safe_catchc [rb_safe_intros]: "rb_safe rc m \<Longrightarrow> (\<And>e. rb_safe rc (h e)) \<Longrightarrow> rb_safe rc (catchc m h)"
  unfolding rb_safe_def by (simp add: keeps_catchc)

lemma safe_if [rb_safe_intros]: "rb_safe rc m \<Longrightarrow> rb_safe rc k \<Longrightarrow> rb_safe rc (if b then m else k)"
  by simp

lemma safe_mapc [rb_safe_intros]: "(\<And>a. rb_safe rc (f a)) \<Longrightarrow> rb_safe rc (mapc f xs)"
  unfolding rb_safe_def by (simp add: keeps_mapc)

lemma safe_transact [rb_safe_intros]:
  assumes "rb_safe rc m"
  shows "rb_safe rc (rb_transact m)"
proof (rule rb_safeI)
  fix M I s
  assume F: "stable M I" and inv: "rb_inv rc M I s"
  obtain z t where run: "m s = (z, t)" by fastforce
  from rb_safeD [OF assms F inv] run have t: "rb_inv rc M I t" "rs_drawn s \<le> rs_drawn t" by simp_all
  have "rc_uuid rc ` {..<rs_drawn s} \<subseteq> rc_uuid rc ` {..<rs_drawn t}" using t(2) by auto
  with t inv run show "rb_inv rc M I (snd (rb_transact m s)) \<and> rs_drawn s \<le> rs_drawn (snd (rb_transact m s))"
    by (cases z) (auto simp: rb_transact_def rb_inv_def)
qed

lemma find_exec_in: "find_exec s i = Some x \<Longrightarrow> x \<in> set (rs_execs s)"
  unfolding find_exec_def by (rule lookup_row_in)

lemma find_exec_unique:
  assumes "rb_inv rc M I s" and "x \<in> set (rs_execs s)"
  shows "find_exec s (ex_id x) = Some x"
proof -
  have inj: "inj_on ex_id (set (rs_execs s))" using assms(1) by (simp add: rb_inv_def distinct_map)
  have "find_exec s (ex_id x) \<noteq> None"
    using assms(2) by (auto simp: find_exec_def lookup_row_def find_None_iff)
  then obtain y where y: "find_exec s (ex_id x) = Some y" by blast
  then have "y = x" using inj_onD [OF inj _ find_exec_in [OF y] assms(2)] find_exec_id [OF y] by simp
  with y show ?thesis by simp
qed

text \<open>One active execution changes into a well-formed one.\<close>

lemma rb_inv_on_execs:
  assumes inv: "rb_inv rc M I s" and M: "stable M I"
    and x: "find_exec s i = Some x" and active: "active_status (ex_status x)"
    and change: "exec_change x (g x)" and g: "\<And>y. ex_id (g y) = ex_id y"
    and t: "rs_execs t = on_execs i g (rs_execs s)" and drawn: "rs_drawn s \<le> rs_drawn t"
  shows "rb_inv rc M I t"
proof -
  have same: "map ex_id (rs_execs t) = map ex_id (rs_execs s)" using g t by (simp add: on_execs_def)
  have ids: "rc_uuid rc ` {..<rs_drawn s} \<subseteq> rc_uuid rc ` {..<rs_drawn t}" using drawn by auto
  have good: "exec_good x" "M x" using inv find_exec_in [OF x] by (simp_all add: rb_inv_def)
  have new: "exec_good (g x) \<and> M (g x)"
    using change_good [OF good(1) active change] M good active change unfolding stable_def by blast
  have "exec_good y \<and> M y \<and> ex_id y \<in> rc_uuid rc ` {..<rs_drawn t}" if "y \<in> set (rs_execs t)" for y
  proof -
    from that t obtain z where z: "z \<in> set (rs_execs s)" "y = (if ex_id z = i then g z else z)"
      by (auto simp: on_execs_def)
    then have "exec_good z \<and> M z" "ex_id z \<in> rc_uuid rc ` {..<rs_drawn t}" using inv ids by (auto simp: rb_inv_def)
    moreover have "z = x" if "ex_id z = i" using find_exec_unique [OF inv z(1)] that x by simp
    ultimately show ?thesis using z new g by (cases "ex_id z = i") auto
  qed
  moreover have "I \<subseteq> ex_id ` set (rs_execs t)" using inv same by (metis list.set_map rb_inv_def)
  ultimately show ?thesis using inv same by (simp add: rb_inv_def)
qed

lemma rb_inv_upd:
  assumes "rb_inv rc M I s" and "stable M I" and "find_exec s i = Some x"
    and "active_status (ex_status x)" and "exec_change x (g x)" and "\<And>y. ex_id (g y) = ex_id y"
  shows "rb_inv rc M I (upd_exec i g s)"
  by (rule rb_inv_on_execs [OF assms]) (simp_all add: rs_execs_upd_exec)

lemma get_runbook_leaves [rb_frame]: "leaves_execs (get_runbook i org)"
  unfolding get_runbook_def by (intro rb_frame)

lemma get_execution_leaves [rb_frame]: "leaves_execs (get_execution i org)"
  unfolding get_execution_def by (intro rb_frame)

lemma get_execution_run:
  "get_execution i org s = (z, t) \<Longrightarrow> t = s \<and> (\<forall>x. z = Inr x \<longrightarrow> find_exec s i = Some x)"
  by (auto simp: get_execution_def bindc_apply rb_error_def split: option.splits if_splits)

lemma safe_with_execution:
  assumes "\<And>M I s x. stable M I \<Longrightarrow> rb_inv rc M I s \<Longrightarrow> find_exec s i = Some x \<Longrightarrow>
      rb_inv rc M I (snd (f x s)) \<and> rs_drawn s \<le> rs_drawn (snd (f x s))"
  shows "rb_safe rc (bindc (get_execution i org) f)"
proof (rule rb_safeI)
  fix M I s
  assume F: "stable M I" and inv: "rb_inv rc M I s"
  obtain z t where run: "get_execution i org s = (z, t)" by fastforce
  note got = get_execution_run [OF run]
  show "rb_inv rc M I (snd (bindc (get_execution i org) f s)) \<and>
      rs_drawn s \<le> rs_drawn (snd (bindc (get_execution i org) f s))"
    using assms [OF F inv] run got inv by (cases z) (auto simp: bindc_apply)
qed

text \<open>Require, change the execution, and read it again.\<close>

lemma then_read:
  assumes "rb_inv rc M I t" and "rs_drawn s \<le> rs_drawn t" and "leaves_execs m"
    and "stable M I"
  shows "rb_inv rc M I (snd (m t)) \<and> rs_drawn s \<le> rs_drawn (snd (m t))"
  using rb_safeD [OF safe_leaves [OF assms(3)] assms(4,1)] assms(2) by auto

lemma edited_ids [simp]: "ex_id (resumed n u now x) = ex_id x" "ex_id (aborted_at n msg now x) = ex_id x"
  by (simp_all add: resumed_def aborted_at_def)

lemma safe_abort: "rb_safe rc (abort_execution i org)"
  unfolding abort_execution_def
proof (intro safe_transact safe_with_execution)
  fix M I s x
  assume F: "stable M I" and inv: "rb_inv rc M I s" and x: "find_exec s i = Some x"
  let ?t = "upd_exec i (aborted_at (ex_current_step x) ''Aborted by operator'' (rb_now s)) s"
  have "rb_inv rc M I ?t" if "active_status (ex_status x)"
  proof (rule rb_inv_upd [OF inv F x that])
    show "exec_change x (aborted_at (ex_current_step x) ''Aborted by operator'' (rb_now s) x)"
      by (rule exec_change.abort)
  qed simp
  from then_read [OF this _ get_execution_leaves F, of s i org] inv
  show "rb_inv rc M I (snd (thenc (rb_require (active_status (ex_status x)) 409 ''Execution is not active'')
        (bindc (gets rb_now) (\<lambda>now. thenc (modifyc (upd_exec i (aborted_at (ex_current_step x) ''Aborted by operator'' now)))
          (get_execution i org))) s)) \<and>
      rs_drawn s \<le> rs_drawn (snd (thenc (rb_require (active_status (ex_status x)) 409 ''Execution is not active'')
        (bindc (gets rb_now) (\<lambda>now. thenc (modifyc (upd_exec i (aborted_at (ex_current_step x) ''Aborted by operator'' now)))
          (get_execution i org))) s))"
    by (simp add: rb_require_def rb_error_def thenc_apply)
qed

lemma resume_edit_safe:
  assumes F: "stable M I" and inv: "rb_inv rc M I s" and x: "find_exec s i = Some x"
    and r: "[r] = filter (\<lambda>r. sr_step_number r = n \<and> sr_status r = SR_waiting_human) (ex_step_results x)"
  shows "rb_inv rc M I (upd_exec i (resumed n u now) s)" and "rb_inv rc M I (upd_exec i (aborted_at n msg now) s)"
proof -
  have ok: "exec_ok x" using inv find_exec_in [OF x] by (simp add: rb_inv_def exec_good_def)
  have "r \<in> set (filter (\<lambda>r. sr_step_number r = n \<and> sr_status r = SR_waiting_human) (ex_step_results x))"
    unfolding r [symmetric] by simp
  then have w: "r \<in> waiting x" "sr_step_number r = n" by (simp_all add: waiting_def)
  then have active: "active_status (ex_status x)" using ok by (auto simp: exec_ok_def active_status_def)
  show "rb_inv rc M I (upd_exec i (resumed n u now) s)" "rb_inv rc M I (upd_exec i (aborted_at n msg now) s)"
    using exec_change.resume [OF w(1)] exec_change.turn_down [OF w(1)] w(2)
    by (auto intro!: rb_inv_upd [OF inv F x active])
qed

definition waiting_step :: "int \<Rightarrow> rb_execution \<Rightarrow> unit rb_prog" where
  "waiting_step n x =
     (case filter (\<lambda>r. sr_step_number r = n \<and> sr_status r = SR_waiting_human) (ex_step_results x) of
        [] \<Rightarrow> rb_error 404 ''Waiting step not found''
      | [r] \<Rightarrow> ret ()
      | _ \<Rightarrow> raise (Exn OtherError ''MultipleResultsFound''))"

lemma waiting_step_run:
  "waiting_step n x s = (z, t) \<Longrightarrow> t = s \<and> (z = Inr () \<longrightarrow>
     (\<exists>r. [r] = filter (\<lambda>r. sr_step_number r = n \<and> sr_status r = SR_waiting_human) (ex_step_results x)))"
  by (auto simp: waiting_step_def rb_error_def split: list.splits)

lemma safe_resume: "rb_safe rc (resume_checkpoint i n action user email)"
  unfolding resume_checkpoint_def waiting_step_def [symmetric]
proof (intro safe_transact safe_with_execution, goal_cases)
  case (1 M I s x)
  let ?org = "user_organization_id user"
  let ?edit = "\<lambda>now. if action = ''resume'' then modifyc (upd_exec i (resumed n (user_id user) now))
      else if action = ''abort'' then modifyc (upd_exec i (aborted_at n (''Aborted by '' @ email) now))
      else rb_error 400 ''action must be resume or abort''"
  obtain z t where w: "waiting_step n x s = (z, t)" by fastforce
  note found = waiting_step_run [OF w]
  have "rb_inv rc M I (snd (thenc (?edit (rb_now s)) (get_execution i ?org) s)) \<and>
      rs_drawn s \<le> rs_drawn (snd (thenc (?edit (rb_now s)) (get_execution i ?org) s))" if z: "z = Inr ()"
  proof -
    from found z obtain r where
      "[r] = filter (\<lambda>r. sr_step_number r = n \<and> sr_status r = SR_waiting_human) (ex_step_results x)" by blast
    note edits = resume_edit_safe [OF 1(1,2,3) this]
    show ?thesis
      using then_read [OF edits(1) _ get_execution_leaves 1(1), of s "user_id user" "rb_now s" i ?org]
        then_read [OF edits(2) _ get_execution_leaves 1(1), of s "''Aborted by '' @ email" "rb_now s" i ?org] 1(2)
      by (simp add: rb_error_def thenc_apply)
  qed
  then show ?case using w found 1(2)
    by (cases z) (simp_all add: rb_require_def rb_error_def thenc_apply bindc_apply)
qed

text \<open>A new execution takes the next id.\<close>

lemma rb_inv_append:
  assumes inv: "rb_inv rc M I s" and inj: "inj (rc_uuid rc)" and id: "ex_id x = rc_uuid rc (rs_drawn s)" and ok: "exec_good x"
    and M: "stable M I"
  shows "rb_inv rc M I (s\<lparr>rs_drawn := Suc (rs_drawn s), rs_execs := rs_execs s @ [x]\<rparr>)"
proof -
  have "rc_uuid rc (rs_drawn s) \<notin> rc_uuid rc ` {..<rs_drawn s}"
    using inj by (auto dest: injD)
  moreover from this have "ex_id x \<notin> I" using inv id by (auto simp: rb_inv_def)
  ultimately show ?thesis using inv id ok M by (auto simp: rb_inv_def stable_def)
qed

lemma check_asset_windows_leaves [rb_frame]: "leaves_execs (check_asset_windows rc as)"
proof (induction as)
  case (Cons a as)
  then show ?case unfolding check_asset_windows.simps by (intro rb_frame)
next
  case Nil
  show ?case unfolding check_asset_windows.simps by (intro rb_frame)
qed

lemma check_trigger_leaves [rb_frame]: "leaves_execs (check_trigger rc rb user force)"
  unfolding check_trigger_def by (intro rb_frame)

lemma safe_trigger:
  assumes inj: "inj (rc_uuid rc)"
  shows "rb_safe rc (trigger_runbook rc i org user context force)"
  unfolding trigger_runbook_def
proof (rule safe_transact, rule safe_bindc [OF safe_leaves [OF get_runbook_leaves]],
    rule safe_thenc [OF safe_leaves [OF check_trigger_leaves]], rule rb_safeI)
  fix rb M I s
  assume F: "stable M I" and inv: "rb_inv rc M I s"
  let ?x = "new_execution (rc_uuid rc (rs_drawn s)) rb (snapshot_of org (rows_of (s\<lparr>rs_drawn := Suc (rs_drawn s)\<rparr>) i)) user
    context (rb_now (s\<lparr>rs_drawn := Suc (rs_drawn s)\<rparr>))"
  let ?t = "s\<lparr>rs_drawn := Suc (rs_drawn s), rs_execs := rs_execs s @ [?x]\<rparr>"
  have ok: "rb_inv rc M I ?t"
    using new_execution_good F by (intro rb_inv_append [OF inv inj]) (simp_all add: new_execution_def)
  have "leaves_execs (thenc (whenc force (on_world (record_event org ''runbook.emergency_override'' (Some user) None)))
      (get_execution (rc_uuid rc (rs_drawn s)) org))"
    by (intro rb_frame)
  from then_read [OF ok _ this F, of s]
  show "rb_inv rc M I (snd (bindc (uuid4 rc) (\<lambda>k. bindc (gets rb_now) (\<lambda>now. bindc (gets (\<lambda>s. snapshot_of org (rows_of s i)))
        (\<lambda>snap. thenc (modifyc (\<lambda>s. s\<lparr>rs_execs := rs_execs s @ [new_execution k rb snap user context now]\<rparr>))
          (thenc (whenc force (on_world (record_event org ''runbook.emergency_override'' (Some user) None)))
            (get_execution k org))))) s)) \<and>
      rs_drawn s \<le> rs_drawn (snd (bindc (uuid4 rc) (\<lambda>k. bindc (gets rb_now) (\<lambda>now. bindc (gets (\<lambda>s. snapshot_of org (rows_of s i)))
        (\<lambda>snap. thenc (modifyc (\<lambda>s. s\<lparr>rs_execs := rs_execs s @ [new_execution k rb snap user context now]\<rparr>))
          (thenc (whenc force (on_world (record_event org ''runbook.emergency_override'' (Some user) None)))
            (get_execution k org))))) s))"
    by (simp add: bindc_apply uuid4_def)
qed

lemma upd_runbook_leaves [rb_frame]: "leaves_execs (modifyc (upd_runbook i f))"
  by (intro leaves_modifyc) (simp add: upd_runbook_def)

lemma rows_leave [rb_frame]:
  "leaves_execs (add_row rc i parent b)" "leaves_execs (drop_rows i)" "leaves_execs (add_runbook rb)"
  "leaves_execs (json_selector sel)"
  unfolding add_row_def drop_rows_def add_runbook_def json_selector_def
  by (intro rb_frame leaves_modifyc; simp)+

lemma insert_steps_leaves [rb_frame]: "leaves_execs (insert_steps rc ss i parent)"
proof (induction rc ss i parent rule: insert_steps.induct)
  case (2 rc b kids ss i parent)
  show ?case unfolding insert_steps.simps using 2
    by (cases "kids = []") (auto simp: whenc_def intro!: rb_frame)
qed (auto intro: rb_frame)

lemma copy_steps_leaves [rb_frame]: "leaves_execs (copy_steps n rc rows rs i parent)"
proof (induction n rc rows rs i parent rule: copy_steps.induct)
  case (3 n rc rows r rs i parent)
  then show ?case unfolding copy_steps.simps by (intro rb_frame)
qed (auto intro: rb_frame)

lemma delete_leaves: "leaves_execs (delete_runbook i org)"
  unfolding delete_runbook_def
  by (intro rb_frame) (auto intro!: rb_frame leaves_modifyc split: list.split)

lemma quiet_tick_run: "quiet_tick rc i s = (Inr (), snd (tick_execution rc i s))"
  by (cases "tick_execution rc i s"; cases "fst (tick_execution rc i s)") (auto simp: quiet_tick_def catchc_apply)

lemma find_exec_on_execs:
  assumes "rs_execs t = on_execs i g (rs_execs s)" and "\<And>y. ex_id (g y) = ex_id y"
  shows "find_exec t j = (if j = i then map_option g (find_exec s i) else find_exec s j)"
proof -
  have "List.find (\<lambda>x. ex_id x = j) (on_execs i g xs) =
      (if j = i then map_option g (List.find (\<lambda>x. ex_id x = i) xs) else List.find (\<lambda>x. ex_id x = j) xs)" for xs
    using assms(2) by (induction xs) (auto simp: on_execs_def)
  with assms(1) show ?thesis by (simp add: find_exec_def lookup_row_def)
qed

lemma tick_one_safe:
  assumes inv: "rb_inv rc M I s" and F: "stable M I"
    and x: "find_exec s i = Some x" and active: "active_status (ex_status x)"
    and t: "t = snd (tick_execution rc i s)"
  shows "rb_inv rc M I t \<and> rs_drawn s \<le> rs_drawn t \<and> (\<forall>j. j \<noteq> i \<longrightarrow> find_exec t j = find_exec s j)"
proof -
  obtain g where g: "rs_execs t = on_execs i g (rs_execs s)" "\<And>y. ex_id (g y) = ex_id y" "rs_drawn s \<le> rs_drawn t"
      "ticked (get_cr (rs_world s)) (rb_now s) x (\<not> isl (fst (tick_execution rc i s))) (g x)"
    using does_tick [OF x, of rc] t unfolding does_def by auto
  show ?thesis
    using rb_inv_on_execs [OF inv F x active exec_change.tick [OF g(4)] g(2,1,3)] find_exec_on_execs [OF g(1,2)] g(3) by simp
qed

lemma tick_list_safe:
  "rb_inv rc M I s \<Longrightarrow> stable M I \<Longrightarrow> distinct ids \<Longrightarrow>
   \<forall>i \<in> set ids. \<exists>x. find_exec s i = Some x \<and> active_status (ex_status x) \<Longrightarrow>
   rb_inv rc M I (snd (seqc (map (quiet_tick rc) ids) s)) \<and> rs_drawn s \<le> rs_drawn (snd (seqc (map (quiet_tick rc) ids) s))"
proof (induction ids arbitrary: s)
  case (Cons i ids)
  from Cons.prems(4) obtain x where x: "find_exec s i = Some x" "active_status (ex_status x)" by auto
  define t where "t = snd (tick_execution rc i s)"
  note one = tick_one_safe [OF Cons.prems(1,2) x t_def]
  have "\<forall>j \<in> set ids. \<exists>x. find_exec t j = Some x \<and> active_status (ex_status x)"
  proof
    fix j
    assume "j \<in> set ids"
    moreover from this Cons.prems(3) have "j \<noteq> i" by auto
    ultimately show "\<exists>x. find_exec t j = Some x \<and> active_status (ex_status x)" using one Cons.prems(4) by auto
  qed
  with Cons.IH [of t] one Cons.prems(2,3) show ?case
    by (auto simp: thenc_apply quiet_tick_run t_def intro: order_trans)
qed simp

lemma safe_tick_all: "rb_safe rc (tick_all_executions rc)"
proof (rule rb_safeI)
  fix M I s
  assume F: "stable M I" and inv: "rb_inv rc M I s"
  let ?ids = "map ex_id (filter (\<lambda>x. active_status (ex_status x)) (rs_execs s))"
  have "distinct (map ex_id (rs_execs s))" using inv by (simp add: rb_inv_def)
  then have "distinct ?ids" by (simp add: distinct_map inj_on_def)
  moreover have "\<forall>i \<in> set ?ids. \<exists>x. find_exec s i = Some x \<and> active_status (ex_status x)"
    using find_exec_unique [OF inv] by auto
  ultimately show "rb_inv rc M I (snd (tick_all_executions rc s)) \<and> rs_drawn s \<le> rs_drawn (snd (tick_all_executions rc s))"
    using tick_list_safe [OF inv F] by (simp add: tick_all_executions_def del: map_map)
qed

lemma safe_scheduled: "inj (rc_uuid rc) \<Longrightarrow> rb_safe rc (tick_scheduled rc)"
  unfolding tick_scheduled_def fire_scheduled_def
  by (intro rb_safe_intros safe_trigger safe_leaves rb_frame) (auto intro!: rb_frame)

lemma safe_handle:
  assumes "inj (rc_uuid rc)"
  shows "rb_safe rc (handle_runbook names rc q u)"
proof (cases q)
  case (Trigger_runbook i c force)
  then show ?thesis using assms
    by (simp add: void_rb_def rb_safe_intros safe_trigger safe_leaves leaves_basic)
next
  case (Resume_execution i n action email)
  then show ?thesis by (simp add: void_rb_def rb_safe_intros safe_resume safe_leaves leaves_basic)
next
  case (Abort_execution i)
  then show ?thesis by (simp add: void_rb_def rb_safe_intros safe_abort safe_leaves leaves_basic)
qed (auto simp: void_rb_def list_runbooks_def create_runbook_def update_runbook_def fork_runbook_def list_executions_def
    intro!: safe_leaves rb_frame delete_leaves)

lemma add_rows_leaves [rb_frame]: "leaves_execs (add_rows rc i bs)"
proof (induction bs)
  case (Cons b bs)
  then show ?case unfolding add_rows.simps by (intro rb_frame)
qed (simp add: rb_frame)

lemma load_template_leaves: "leaves_execs (load_template rc org user tpl)"
  unfolding load_template_def by (intro rb_frame) (auto intro!: rb_frame split: list.split)

lemma leaves_seqc: "(\<And>m. m \<in> set ms \<Longrightarrow> leaves_execs m) \<Longrightarrow> leaves_execs (seqc ms)"
  by (induction ms) (auto intro: rb_frame)

lemma load_seed_leaves: "leaves_execs (load_seed_templates rc org user)"
  unfolding load_seed_templates_def
  by (intro rb_frame leaves_seqc) (auto simp: load_template_leaves)

section \<open>Runs\<close>

text \<open>What can happen to the runbook tables: a request of a user, a tick of the executor, a tick of the
  schedules, the insertion of the seed templates, and anything at all in the rest of the program.\<close>

inductive rb_step :: "(string \<Rightarrow> string \<Rightarrow> bool) \<Rightarrow> rb_config \<Rightarrow> runbook_state \<Rightarrow> runbook_state \<Rightarrow> bool"
  for names :: "string \<Rightarrow> string \<Rightarrow> bool" and rc :: rb_config where
  request: "rb_step names rc s (snd (handle_runbook names rc q u s))"
| executor: "rb_step names rc s (snd (tick_all_executions rc s))"
| schedule: "rb_step names rc s (snd (tick_scheduled rc s))"
| seed: "rb_step names rc s (snd (load_seed_templates rc org user s))"
| elsewhere: "rb_step names rc s (s\<lparr>rs_world := w\<rparr>)"

inductive_simps rb_step_simps: "rb_step names rc s t"

inductive rb_run :: "(string \<Rightarrow> string \<Rightarrow> bool) \<Rightarrow> rb_config \<Rightarrow> runbook_state \<Rightarrow> runbook_state \<Rightarrow> bool"
  for names :: "string \<Rightarrow> string \<Rightarrow> bool" and rc :: rb_config where
  start: "rb_run names rc s s"
| next_step: "rb_run names rc s t \<Longrightarrow> rb_step names rc t v \<Longrightarrow> rb_run names rc s v"

lemma step_keeps_inv:
  assumes step: "rb_step names rc s t" and inj: "inj (rc_uuid rc)"
    and F: "stable M I" and inv: "rb_inv rc M I s"
  shows "rb_inv rc M I t"
  using step
proof cases
  case (request q u)
  then show ?thesis using rb_safeD(1) [OF safe_handle [OF inj] F inv] by simp
next
  case executor
  then show ?thesis using rb_safeD(1) [OF safe_tick_all F inv] by simp
next
  case schedule
  then show ?thesis using rb_safeD(1) [OF safe_scheduled [OF inj] F inv] by simp
next
  case (seed org user)
  then show ?thesis using rb_safeD(1) [OF safe_leaves [OF load_seed_leaves] F inv] by simp
next
  case (elsewhere w)
  then show ?thesis using inv by (simp add: rb_inv_def)
qed

lemma run_keeps_inv:
  "rb_run names rc s t \<Longrightarrow> inj (rc_uuid rc) \<Longrightarrow> stable M I \<Longrightarrow> rb_inv rc M I s \<Longrightarrow>
   rb_inv rc M I t"
  by (induction rule: rb_run.induct) (auto intro: step_keeps_inv)

definition empty_tables :: "world \<Rightarrow> runbook_state" where
  "empty_tables w = \<lparr>rs_world = w, rs_runbooks = [], rs_rows = [], rs_execs = [], rs_drawn = 0\<rparr>"

text \<open>Every state reached from empty tables satisfies the invariant.\<close>

lemma stable_True: "stable (\<lambda>_. True) {}"
  by (simp add: stable_def)

lemma run_good:
  assumes "rb_run names rc (empty_tables w) s" and "inj (rc_uuid rc)"
  shows "rb_inv rc (\<lambda>_. True) {} s"
  by (rule run_keeps_inv [OF assms stable_True]) (simp add: rb_inv_def empty_tables_def)

text \<open>A stable property of one execution of such a state holds of it from then on.\<close>

lemma run_stable:
  assumes inv: "rb_inv rc (\<lambda>_. True) {} s" and "rb_run names rc s t" and inj: "inj (rc_uuid rc)"
    and x: "find_exec s i = Some x" and M: "stable (\<lambda>y. ex_id y = i \<longrightarrow> M y) {i}" and "M x"
  shows "\<exists>y. find_exec t i = Some y \<and> M y"
proof -
  have "y = x" if "y \<in> set (rs_execs s)" "ex_id y = i" for y using find_exec_unique [OF inv that(1)] that(2) x by simp
  then have "\<forall>y \<in> set (rs_execs s). ex_id y = i \<longrightarrow> M y" using \<open>M x\<close> by blast
  moreover have "i \<in> ex_id ` set (rs_execs s)" using find_exec_in [OF x] find_exec_id [OF x] by blast
  ultimately have "rb_inv rc (\<lambda>y. ex_id y = i \<longrightarrow> M y) {i} s" using inv by (simp add: rb_inv_def)
  note later = run_keeps_inv [OF assms(2) inj M this]
  then obtain y where y: "y \<in> set (rs_execs t)" "ex_id y = i" by (auto simp: rb_inv_def)
  then have "M y" using later by (simp add: rb_inv_def)
  with find_exec_unique [OF later y(1)] y(2) show ?thesis by simp
qed



end
