(* ===== verification/RunbookProps.thy ===== *)
theory RunbookProps
  imports RunbookRuns Lifecycle
begin

text \<open>
  The properties of runbooks: what lets an execution go on to its next step, that a runbook which only goes
  forward ends and one that jumps back does not, how the change request of a step is made, who can
  start an execution, and what the snapshot of a runbook loses.
\<close>

section \<open>One tick\<close>

lemma tick_effect:
  assumes "find_exec s i = Some x"
  shows "\<exists>x'. find_exec (snd (tick_execution rc i s)) i = Some x' \<and>
    ticked (get_cr (rs_world s)) (rb_now s) x (\<not> isl (fst (tick_execution rc i s))) x'"
proof -
  obtain g where "rs_execs (snd (tick_execution rc i s)) = on_execs i g (rs_execs s)" "\<And>y. ex_id (g y) = ex_id y"
      "ticked (get_cr (rs_world s)) (rb_now s) x (\<not> isl (fst (tick_execution rc i s))) (g x)"
    using does_tick [OF assms, of rc] unfolding does_def by auto
  with find_exec_on_execs [OF this(1,2)] assms show ?thesis by auto
qed

lemma result_at_ensure_unfinished:
  assumes "result_at (ensure_result b x) (sb_step_number b) = Some r" and "sr_status r \<noteq> SR_pending"
  shows "result_at x (sb_step_number b) = Some r"
  using assms by (auto simp: result_at_ensure new_result_def split: option.splits)

lemma fail_step_moves:
  "ex_current_step (fail_step b f t x) \<noteq> ex_current_step x \<Longrightarrow>
   sb_on_failure b = ''continue'' \<and> ex_current_step (fail_step b f t x) = ex_current_step x + 1"
  by (auto simp: fail_step_def handle_step_failure_def split: if_splits)

text \<open>The change requests that the executor polls: the first of a change step, all of a group.\<close>

definition polled_ids :: "step_body \<Rightarrow> step_result \<Rightarrow> uuid list" where
  "polled_ids b r =
     (if sb_type b = ''change'' then take 1 (sr_change_request_ids r) else sr_change_request_ids r)"

lemma acts_moves:
  assumes "acts G now d r y returns x'" and "sb_type (step_body d) \<in> {''change'', ''parallel_group''}"
    and "ex_current_step x' \<noteq> ex_current_step y"
  shows "ex_current_step x' = ex_current_step y + 1 \<and>
    (sb_on_failure (step_body d) = ''continue'' \<or>
     sr_status r = SR_running \<and> (sb_type (step_body d) = ''change'' \<longrightarrow> sr_change_request_ids r \<noteq> []) \<and>
       (\<forall>k \<in> set (polled_ids (step_body d) r). \<exists>cr. G k = Some cr \<and> cr_status cr = CRS_completed))"
  using assms(1)
proof cases
  case (refused f t)
  then show ?thesis using fail_step_moves assms(3) by blast
next
  case (failed k f t)
  then show ?thesis using fail_step_moves assms(3) by blast
next
  case (passes k ks cr res t)
  then show ?thesis by (simp add: finish_step_def polled_ids_def)
next
  case (group_passes res t)
  then show ?thesis by (simp add: finish_step_def polled_ids_def)
qed (use assms in \<open>auto simp: mark_started_def\<close>)


section \<open>Steps that are never left\<close>

text \<open>A tick does nothing when the result of the current step is settled already.\<close>

lemma upd_exec_same:
  assumes "\<And>x. x \<in> set (rs_execs s) \<Longrightarrow> ex_id x = i \<Longrightarrow> f x = x"
  shows "upd_exec i f s = s"
proof -
  have "map (\<lambda>x. if ex_id x = i then f x else x) (rs_execs s) = rs_execs s"
    using assms by (intro map_idI) simp
  then show ?thesis by (simp add: upd_exec_def)
qed

lemma settled_step_stays:
  assumes inv: "rb_inv rc (\<lambda>_. True) {} s" and x: "find_exec s i = Some x"
    and d: "step_at (ex_snapshot x) (ex_current_step x) = Some d"
    and r: "result_at x (ex_current_step x) = Some r" "settled_result r"
  shows "tick_execution rc i s = (Inr (), s)"
proof -
  have n: "sb_step_number (step_body d) = ex_current_step x" using d by (rule step_at_number)
  have e: "ensure_result (step_body d) x = x" using r(1) n by (simp add: ensure_result_def)
  have "y = x" if "y \<in> set (rs_execs s)" "ex_id y = i" for y
    using find_exec_unique [OF inv that(1)] that(2) x by simp
  then have "upd_exec i (ensure_result (step_body d)) s = s" using e by (intro upd_exec_same) simp
  moreover have "execute_step rc x d r s = (Inr (), s)"
    using r(2) by (auto simp: execute_step_def Let_def execute_change_step_def execute_condition_step_def
        execute_checkpoint_step_def execute_parallel_step_def settled_result_def whenc_def)
  ultimately show ?thesis using x d r(1) e by (simp add: tick_execution_def Let_def)
qed

lemma result_at_set_result_other:
  assumes "n \<noteq> m" and "\<And>r. sr_step_number (f r) = sr_step_number r"
  shows "result_at (set_result m f x) n = result_at x n"
proof -
  have "List.find (\<lambda>r. sr_step_number r = n) (map (\<lambda>r. if sr_step_number r = m then f r else r) rs) =
      List.find (\<lambda>r. sr_step_number r = n) rs" for rs
    using assms by (induction rs) auto
  then show ?thesis by (simp add: result_at_def)
qed

lemma result_at_ensure_other:
  assumes "n \<noteq> sb_step_number b"
  shows "result_at (ensure_result b x) n = result_at x n"
proof -
  have "List.find P (rs @ [q]) = List.find P rs" if "\<not> P q" for P rs and q :: step_result
    using that by (induction rs) auto
  then show ?thesis using assms by (simp add: ensure_result_def result_at_def new_result_def split: option.splits)
qed

lemma result_at_columns [simp]:
  "result_at (x\<lparr>ex_current_step := m\<rparr>) n = result_at x n" "result_at (x\<lparr>ex_status := st\<rparr>) n = result_at x n"
  "result_at (x\<lparr>ex_completed_at := c\<rparr>) n = result_at x n"
  by (simp_all add: result_at_def)

text \<open>A checkpoint with a timeout that does not say what to do on it goes on: the default \<open>abort\<close> of the code is
  never used, since a snapshot has the key.\<close>

lemma timeout_without_choice_continues:
  "sb_on_timeout b = None \<Longrightarrow>
   ex_status (time_out b now x) = RX_running \<and> ex_current_step (time_out b now x) = ex_current_step x + 1"
  by (simp add: time_out_def finish_step_def)

text \<open>A step whose \<open>on_failure\<close> is none of the three choices, which nothing checks, stops its execution for good
  when it fails.\<close>

lemma unknown_on_failure_stays:
  "sb_on_failure b \<notin> {''abort'', ''continue'', ''rollback_all''} \<Longrightarrow>
   ex_status (fail_step b f now x) = ex_status x \<and> ex_current_step (fail_step b f now x) = ex_current_step x"
  by (simp add: fail_step_def handle_step_failure_def)

text \<open>\<open>rollback_all\<close> rolls nothing back: it only writes the status.\<close>

lemma rollback_all_only_marks:
  "sb_on_failure b = ''rollback_all'' \<Longrightarrow>
   handle_step_failure b now x = x\<lparr>ex_status := RX_rolled_back, ex_completed_at := Some now\<rparr>"
  by (simp add: handle_step_failure_def)

text \<open>C39: A condition that jumps back to a step which has its result already, completed or failed, stops the
  execution for good: the tick that evaluates the condition puts it on that step, still running, and in
  every state in which a later tick finds it like that the tick changes nothing at all.\<close>
theorem backward_jump_never_ends:
  assumes run: "rb_run names rc (empty_tables w) s" "inj (rc_uuid rc)"
    and x: "find_exec s i = Some x" "ex_status x = RX_running"
    and d: "step_at (ex_snapshot x) (ex_current_step x) = Some d" "sb_type (step_body d) = ''condition''"
    and pending: "result_at x (ex_current_step x) = None"
    and jump: "eval_condition rc (ensure_result (step_body d) x) (step_body d) = Inr v" "jump_of (step_body d) v = Some n"
    and earlier: "step_at (ex_snapshot x) n = Some e" "result_at x n = Some r" "sr_status r \<in> {SR_completed, SR_failed}"
  shows "\<exists>x'. find_exec (snd (tick_execution rc i s)) i = Some x' \<and> ex_status x' = RX_running \<and>
    ex_current_step x' = n \<and>
    (\<forall>t. rb_run names rc (empty_tables w) t \<longrightarrow> find_exec t i = Some x' \<longrightarrow> tick_execution rc i t = (Inr (), t))"
proof -
  let ?b = "step_body d"
  have num: "sb_step_number ?b = ex_current_step x" using step_at_number [OF d(1)] .
  let ?x' = "jump ?b v (rb_now s) (ensure_result ?b x)"
  have id: "ex_id x = i" using find_exec_id [OF x(1)] .
  have res: "result_at (ensure_result ?b x) (ex_current_step x) = Some (new_result ?b)"
    using result_at_ensure [of ?b x] pending num by simp
  have "tick_execution rc i s =
      (Inr (), upd_exec i (jump ?b v (rb_now s)) (upd_exec i (ensure_result ?b) s))"
    using x(1) d res jump(1) id
    by (simp add: tick_execution_def Let_def execute_step_def execute_condition_step_def whenc_def
        new_result_def edit_exec_def)
  moreover have "find_exec (upd_exec i (jump ?b v (rb_now s)) (upd_exec i (ensure_result ?b) s)) i = Some ?x'"
    using x(1) find_exec_on_execs [OF rs_execs_upd_exec, of "jump ?b v (rb_now s)" i "upd_exec i (ensure_result ?b) s" i]
      find_exec_on_execs [OF rs_execs_upd_exec, of "ensure_result ?b" i s i] by simp
  moreover have "ex_status ?x' = RX_running" "ex_current_step ?x' = n"
    using x(2) jump(2) by (simp_all add: jump_def)
  moreover have "tick_execution rc i t = (Inr (), t)"
    if t: "rb_run names rc (empty_tables w) t" "find_exec t i = Some ?x'" for t
  proof -
    have ne: "n \<noteq> ex_current_step x" using pending earlier(2) by auto
    have "result_at ?x' n = result_at x n"
      using ne num by (simp add: jump_def result_at_set_result_other result_at_ensure_other)
    then show ?thesis
      using settled_step_stays [OF run_good [OF t(1) run(2)] t(2), of e r] earlier jump(2)
      by (simp add: jump_def settled_result_def)
  qed
  ultimately show ?thesis by auto
qed

section \<open>Forward runbooks end\<close>

text \<open>How far an execution is: two units for each step number, one more when the current step has begun.\<close>

definition rank :: "rb_execution \<Rightarrow> int" where
  "rank x = 2 * ex_current_step x +
     (case result_at x (ex_current_step x) of
        None \<Rightarrow> 0 | Some r \<Rightarrow> if sr_status r = SR_pending then 0 else 1)"

definition blocked :: "runbook_state \<Rightarrow> rb_execution \<Rightarrow> bool" where
  "blocked s x \<longleftrightarrow>
     (case (step_at (ex_snapshot x) (ex_current_step x), result_at x (ex_current_step x)) of
        (Some d, Some r) \<Rightarrow> waits_for (get_cr (rs_world s)) (rb_now s) (step_body d) r
      | _ \<Rightarrow> False)"

lemma rank_bounds: "2 * ex_current_step x \<le> rank x" "rank x \<le> 2 * ex_current_step x + 1"
  by (simp_all add: rank_def split: option.splits)

lemma rank_moved: "ex_current_step x < ex_current_step x' \<Longrightarrow> rank x < rank x'"
  using rank_bounds(2) [of x] rank_bounds(1) [of x'] by linarith

lemma rank_ensure:
  assumes "sb_step_number b = ex_current_step x"
  shows "rank (ensure_result b x) = rank x"
  using result_at_ensure [of b x] assms by (simp add: rank_def new_result_def split: option.splits)

lemma result_at_set_result:
  assumes "result_at x n = Some r" and "\<And>q. sr_step_number (f q) = sr_step_number q"
  shows "result_at (set_result n f x) n = Some (f r)"
proof -
  have "List.find (\<lambda>r. sr_step_number r = n) rs = Some r \<Longrightarrow>
      List.find (\<lambda>r. sr_step_number r = n) (map (\<lambda>r. if sr_step_number r = n then f r else r) rs) = Some (f r)" for rs
    using assms(2) by (induction rs) (auto split: if_splits)
  with assms(1) show ?thesis by (simp add: result_at_def)
qed

lemma rank_begun:
  assumes "result_at x (ex_current_step x) = Some r" and "sr_status r = SR_pending"
    and "\<And>q. sr_step_number (f q) = sr_step_number q" and "\<And>q. sr_status (f q) \<noteq> SR_pending"
  shows "rank x < rank (set_result (ex_current_step x) f x)"
  using result_at_set_result [OF assms(1,3)] assms by (simp add: rank_def)

lemma fail_step_rank:
  assumes "sb_on_failure b \<in> {''abort'', ''continue'', ''rollback_all''}"
  shows "\<not> active_status (ex_status (fail_step b f t x)) \<or> rank x < rank (fail_step b f t x)"
proof (cases "sb_on_failure b = ''continue''")
  case True
  then have "ex_current_step (fail_step b f t x) = ex_current_step x + 1"
    by (simp add: fail_step_def handle_step_failure_def)
  then show ?thesis by (intro disjI2 rank_moved) simp
next
  case False
  then show ?thesis using assms by (auto simp: fail_step_def handle_step_failure_def active_status_def)
qed

text \<open>An action either ends the execution, or brings it further, or is one of those that leave it as it is.\<close>

lemma acts_rank:
  assumes good: "exec_good x" and active: "active_status (ex_status x)" and fw: "forward (ex_snapshot x)"
    and d: "step_at (ex_snapshot x) (ex_current_step x) = Some d"
    and r: "result_at x (ex_current_step x) = Some r" and act: "acts G now d r x returns x'"
  shows "\<not> active_status (ex_status x') \<or> rank x < rank x' \<or>
    x' = x \<and> (returns \<longrightarrow> waits_for G now (step_body d) r)"
proof -
  have n: "sb_step_number (step_body d) = ex_current_step x" using d by (rule step_at_number)
  have b: "forward_step (step_body d)" using fw d by (rule forward_step_at)
  have rin: "r \<in> set (ex_step_results x)" "sr_step_number r = ex_current_step x"
    using r by (auto simp: result_at_def find_Some_iff)
  note begun = rank_begun [OF r]
  from act show ?thesis
  proof cases
    case idle
    have "\<not> settled_result r" using good active fw rin by (auto simp: exec_good_def ahead_def)
    moreover have "\<not> odd_status (step_body d) r"
    proof
      assume "odd_status (step_body d) r"
      then consider "sb_type (step_body d) \<notin> set step_types"
        | "sr_status r = SR_running" "sb_type (step_body d) \<notin> {''change'', ''parallel_group''}"
        | "sr_status r = SR_waiting_human" "sb_type (step_body d) \<noteq> ''human_checkpoint''"
        by (auto simp: odd_status_def)
      then show False
      proof cases
        case 1
        then show ?thesis using b by (simp add: forward_step_def)
      next
        case 2
        then show ?thesis using good rin d unfolding exec_good_def on_step_def by fastforce
      next
        case 3
        then have "r \<in> waiting x" using rin by (simp add: waiting_def)
        then have "checkpoint_now x" using good by (auto simp: exec_good_def exec_ok_def)
        then show ?thesis using 3 d by (simp add: checkpoint_now_def)
      qed
    qed
    ultimately show ?thesis using idle by blast
  next
    case breaks
    then show ?thesis by simp
  next
    case (starts ks t)
    then show ?thesis using n by (auto simp: mark_started_def intro!: begun)
  next
    case (refused f t)
    then show ?thesis using fail_step_rank b by (auto simp: forward_step_def)
  next
    case (failed k f t)
    then show ?thesis using fail_step_rank b by (auto simp: forward_step_def)
  next
    case (passes k ks cr res t)
    then show ?thesis by (auto simp: finish_step_def intro!: rank_moved)
  next
    case (group_passes res t)
    then show ?thesis by (auto simp: finish_step_def intro!: rank_moved)
  next
    case (jumps v t)
    have "ex_current_step x < ex_current_step x'"
      using jumps b n by (auto simp: jump_def jump_of_def forward_step_def split: option.splits)
    then show ?thesis by (blast intro: rank_moved)
  next
    case (waits t)
    have "rank (y\<lparr>ex_status := st\<rparr>) = rank y" for y :: rb_execution and st by (simp add: rank_def)
    then show ?thesis using waits n by (auto simp: wait_for_human_def intro!: begun)
  next
    case times_out
    show ?thesis
    proof (cases "sb_on_timeout (step_body d) = Some ''abort''")
      case False
      then have "ex_current_step x < ex_current_step x'" using times_out by (simp add: time_out_def finish_step_def)
      then show ?thesis by (blast intro: rank_moved)
    qed (use times_out in \<open>simp add: time_out_def active_status_def\<close>)
  qed
qed

lemma exec_good_ensure:
  "exec_good x \<Longrightarrow> sb_step_number b = ex_current_step x \<Longrightarrow> exec_good (ensure_result b x)"
  by (simp add: exec_good_def ensure_ok ahead_ensure on_step_ensure)

lemma ticked_rank:
  assumes good: "exec_good x" and active: "active_status (ex_status x)" and fw: "forward (ex_snapshot x)"
    and tick: "ticked G now x returns x'"
  shows "\<not> active_status (ex_status x') \<or> rank x < rank x' \<or>
    rank x' = rank x \<and> (returns \<longrightarrow> (\<exists>d r. step_at (ex_snapshot x) (ex_current_step x) = Some d \<and>
      result_at x (ex_current_step x) = Some r \<and> waits_for G now (step_body d) r))"
  using tick
proof cases
  case (ends t)
  then show ?thesis by (simp add: active_status_def)
next
  case (step d y r)
  have n: "sb_step_number (step_body d) = ex_current_step x" using step(1) by (rule step_at_number)
  have y: "exec_good y" "active_status (ex_status y)" "forward (ex_snapshot y)" "rank y = rank x"
    "ex_current_step y = ex_current_step x" "ex_snapshot y = ex_snapshot x"
    using exec_good_ensure [OF good n] active fw rank_ensure [OF n] step(2) by simp_all
  have "result_at x (ex_current_step x) = Some r" if "waits_for G now (step_body d) r"
    using result_at_ensure_unfinished [of "step_body d" x r] step(2,3) n that by (auto simp: waits_for_def)
  with acts_rank [OF y(1,2,3) _ _ step(4)] step(1,3) y(4,5,6) show ?thesis by auto
qed

lemma change_rank:
  assumes good: "exec_good x" and active: "active_status (ex_status x)" and fw: "forward (ex_snapshot x)"
    and change: "exec_change x x'"
  shows "\<not> active_status (ex_status x') \<or> rank x \<le> rank x'"
  using change
proof cases
  case (tick G now returns)
  then show ?thesis using ticked_rank [OF good active fw] by fastforce
next
  case (resume r u now)
  then have "sr_step_number r = ex_current_step x" using good by (simp add: exec_good_def exec_ok_def)
  then have "rank x < rank x'" using resume(1) by (intro rank_moved) (simp add: resumed_def)
  then show ?thesis by simp
qed (simp_all add: aborted_at_def active_status_def)

text \<open>So the rank of an execution never falls, and an ended execution stays as it is.\<close>

lemma run_rank:
  assumes inv: "rb_inv rc (\<lambda>_. True) {} s" and run: "rb_run names rc s t" and inj: "inj (rc_uuid rc)"
    and x: "find_exec s i = Some x" and fw: "forward (ex_snapshot x)"
  shows "\<exists>y. find_exec t i = Some y \<and> ex_snapshot y = ex_snapshot x \<and>
    (active_status (ex_status y) \<longrightarrow> active_status (ex_status x) \<and> rank x \<le> rank y)"
proof -
  let ?M = "\<lambda>y. ex_snapshot y = ex_snapshot x \<and>
    (active_status (ex_status y) \<longrightarrow> active_status (ex_status x) \<and> rank x \<le> rank y)"
  have "stable (\<lambda>y. ex_id y = i \<longrightarrow> ?M y) {i}"
    unfolding stable_def
  proof (intro conjI allI impI)
    fix y y'
    assume M: "ex_id y = i \<longrightarrow> ?M y" and good: "exec_good y" "active_status (ex_status y)"
      and change: "exec_change y y'" and id: "ex_id y' = i"
    then have y: "?M y" using exec_change_id(1) [OF change] by simp
    with fw have "forward (ex_snapshot y)" by simp
    from change_rank [OF good this change] y good(2) exec_change_id(2) [OF change]
    show "ex_snapshot y' = ex_snapshot x"
      "active_status (ex_status y') \<Longrightarrow> active_status (ex_status x)"
      "active_status (ex_status y') \<Longrightarrow> rank x \<le> rank y'" by auto
  qed simp_all
  from run_stable [OF inv run inj x this] show ?thesis by simp
qed

lemma run_trans: "rb_run names rc t v \<Longrightarrow> rb_inv rc (\<lambda>_. True) {} t \<Longrightarrow> inj (rc_uuid rc) \<Longrightarrow> rb_inv rc (\<lambda>_. True) {} v"
  by (rule run_keeps_inv [OF _ _ stable_True])

text \<open>One round: a tick that is not blocked, and then any run.\<close>

lemma round_advances:
  assumes inv: "rb_inv rc (\<lambda>_. True) {} s" and inj: "inj (rc_uuid rc)"
    and x: "find_exec s i = Some x" "active_status (ex_status x)" and fw: "forward (ex_snapshot x)"
    and free: "\<not> blocked s x" and tick: "tick_execution rc i s = (Inr (), t)" and run: "rb_run names rc t v"
  shows "rb_inv rc (\<lambda>_. True) {} v \<and> (\<exists>y. find_exec v i = Some y \<and> ex_snapshot y = ex_snapshot x \<and>
    (active_status (ex_status y) \<longrightarrow> rank x < rank y \<and> step_at (ex_snapshot x) (ex_current_step x) \<noteq> None))"
proof -
  from tick_effect [OF x(1), of rc] tick obtain x' where x': "find_exec t i = Some x'"
      "ticked (get_cr (rs_world s)) (rb_now s) x True x'" by auto
  have good: "exec_good x" using inv find_exec_in [OF x(1)] by (simp add: rb_inv_def)
  have far: "\<not> active_status (ex_status x') \<or> rank x < rank x'"
    using ticked_rank [OF good x(2) fw x'(2)] free by (auto simp: blocked_def)
  have snap: "ex_snapshot x' = ex_snapshot x" by (rule exec_change_id(2) [OF exec_change.tick [OF x'(2)]])
  have some: "step_at (ex_snapshot x) (ex_current_step x) \<noteq> None" if "active_status (ex_status x')"
    using x'(2) that by cases (auto simp: active_status_def)
  have t: "rb_inv rc (\<lambda>_. True) {} t" using tick_one_safe [OF inv stable_True x] tick by simp
  from run_rank [OF t run inj x'(1)] fw snap far some show ?thesis
    using run_trans [OF run t inj] by fastforce
qed

lemma active_rank_small:
  assumes "forward (ex_snapshot x)" and "step_at (ex_snapshot x) (ex_current_step x) \<noteq> None"
  shows "0 \<le> rank x" and "rank x < 19999"
proof -
  from assms(2) obtain d where d: "step_at (ex_snapshot x) (ex_current_step x) = Some d" by blast
  have "0 \<le> ex_current_step x" "ex_current_step x < 9999"
    using forward_step_at [OF assms(1) d] step_at_number [OF d] by (simp_all add: forward_step_def)
  then show "0 \<le> rank x" "rank x < 19999" using rank_bounds [of x] by linarith+
qed


section \<open>The change request of a step\<close>

text \<open>Planning calls the outside, and then either raises or stores a plan and moves the request to planned.\<close>

definition calls_only :: "world \<Rightarrow> world \<Rightarrow> bool" where
  "calls_only w t \<longleftrightarrow> (\<exists>c. t = w\<lparr>w_calls := c\<rparr>)"

lemma keeps_calls_only: "keeps (calls_only w) (plan_offboard_user env cr assets safety)"
proof -
  have "keeps (calls_only w) (call env c)" for c
    by (rule keeps_call) (auto simp: calls_only_def)
  then have "keeps (calls_only w) (discover_on env e c)" for e c
    unfolding discover_on_def Let_def by (intro hoare) simp_all
  then show ?thesis
    unfolding plan_offboard_user_def run_offboard_discovery_def Let_def by (intro hoare) simp_all
qed

lemma save_plan_frame [simp]:
  "get_cr (save_plan p w) j = get_cr w j" "w_runs (save_plan p w) = w_runs w" "w_tasks (save_plan p w) = w_tasks w"
  "w_approvals (save_plan p w) = w_approvals w" "w_clock (save_plan p w) = w_clock w"
  by (simp_all add: save_plan_def get_cr_def)

lemma plan_cr_run:
  assumes "plan_cr cfg env cr w = (z, t)"
  shows "case z of
      Inl e \<Rightarrow> calls_only w t
    | Inr p \<Rightarrow> \<exists>c pd safety. score_change_request cr (assets_with_ids w (real_ids (cr_target_asset_ids cr))) = Inr safety \<and>
        \<not> is_blocked safety \<and>
        t = upd_cr (cr_id cr) (\<lambda>c. c\<lparr>cr_risk_level := sr_risk_level safety, cr_status := CRS_planned,
              cr_updated_at := w_clock w\<rparr>) (save_plan (plan_row (cr_id cr) pd) (w\<lparr>w_calls := c\<rparr>))"
proof -
  let ?assets = "assets_with_ids w (real_ids (cr_target_asset_ids cr))"
  have self: "calls_only w w" unfolding calls_only_def by (rule exI [of _ "w_calls w"]) simp
  show ?thesis
  proof (cases "score_change_request cr ?assets")
    case (Inl e)
    then show ?thesis using assms self by (auto simp: plan_cr_def bindc_apply)
  next
    case (Inr safety)
    let ?plan = "if cr_change_type cr = ''offboard_user'' then plan_offboard_user env cr ?assets safety
      else of_sum (generate_plan (cfg_modules cfg) (cfg_catalog cfg) (cfg_defs cfg) cr ?assets safety)"
    obtain q u where run: "?plan w = (q, u)" by fastforce
    have "keeps (calls_only w) ?plan" using keeps_calls_only by (simp add: keeps_of_sum)
    from keepsD [OF this self] run have u: "calls_only w u" by simp
    then obtain c where c: "u = w\<lparr>w_calls := c\<rparr>" by (auto simp: calls_only_def)
    show ?thesis
    proof (cases "is_blocked safety")
      case True
      then show ?thesis using assms self Inr by (auto simp: plan_cr_def bindc_apply)
    next
      case False
      show ?thesis
      proof (cases q)
        case (Inl e)
        then show ?thesis using assms False Inr run u by (auto simp: plan_cr_def bindc_apply)
      next
        case (Inr pd)
        have t: "t = upd_cr (cr_id cr) (\<lambda>c. c\<lparr>cr_risk_level := sr_risk_level safety, cr_status := CRS_planned,
            cr_updated_at := w_clock w\<rparr>) (save_plan (plan_row (cr_id cr) pd) (w\<lparr>w_calls := c\<rparr>))" and z: "\<exists>p. z = Inr p"
          using assms False \<open>score_change_request cr ?assets = Inr safety\<close> run Inr c
          by (auto simp: plan_cr_def bindc_apply thenc_apply)
        from z obtain p where "z = Inr p" ..
        with t show ?thesis using False \<open>score_change_request cr ?assets = Inr safety\<close>
          by (simp only: sum.case) blast
      qed
    qed
  qed
qed

lemma get_cr_append:
  "get_cr (w\<lparr>w_crs := w_crs w @ [c]\<rparr>) j =
     (case get_cr w j of Some d \<Rightarrow> Some d | None \<Rightarrow> if cr_id c = j then Some c else None)"
proof -
  have "List.find P (cs @ [c]) = (case List.find P cs of Some d \<Rightarrow> Some d | None \<Rightarrow> if P c then Some c else None)"
    for P :: "change_request \<Rightarrow> bool" and cs by (induction cs) auto
  then show ?thesis by (simp add: get_cr_def lookup_row_def)
qed

lemma draft_cr_columns [simp]:
  "cr_id (draft_cr k x b ct now) = k" "cr_status (draft_cr k x b ct now) = CRS_draft"
  "cr_organization_id (draft_cr k x b ct now) = sn_organization_id (ex_snapshot x)"
  "cr_requester_id (draft_cr k x b ct now) = ex_triggered_by x" "cr_source (draft_cr k x b ct now) = Some ''runbook''"
  "cr_change_type (draft_cr k x b ct now) = ct"
  "cr_target_asset_ids (draft_cr k x b ct now) = resolve_asset_ids (sb_asset_selector b)"
  "cr_desired_outcome (draft_cr k x b ct now) =
     dmerge (case sb_parameters b of None \<Rightarrow> [] | Some p \<Rightarrow> p) (ex_context x)"
  by (simp_all add: draft_cr_def new_cr_def)

lemma find_one_more: 
  "List.find P (ps @ [p]) = (case List.find P ps of Some q \<Rightarrow> Some q | None \<Rightarrow> if P p then Some p else None)"
  by (induction ps) auto

lemma get_plan_save: "get_plan (save_plan p w) (plan_change_request_id p) \<noteq> None"
proof (cases "get_plan w (plan_change_request_id p) = None")
  case True
  then show ?thesis by (simp add: save_plan_def get_plan_def lookup_row_def find_one_more)
next
  case False
  then show ?thesis by (auto simp: save_plan_def get_plan_def lookup_store_row)
qed

lemma get_plan_upd_cr [simp]: "get_plan (upd_cr i f w) j = get_plan w j"
  by (simp add: get_plan_def)

text \<open>What launching a planned request does to the world.\<close>

lemma launch_run:
  "\<exists>rid n. launch_cr rc x cr s =
     (Inr (), s\<lparr>rs_drawn := Suc (rs_drawn s), rs_world :=
        (upd_cr (cr_id cr) (\<lambda>c. c\<lparr>cr_status := CRS_approved, cr_updated_at := w_clock (rs_world s)\<rparr>) (rs_world s))
          \<lparr>w_runs := w_runs (rs_world s) @ [new_run rid (cr_id cr) (workflow_id_of (cr_id cr) n) ES_pending (rb_now s)],
           w_tasks := w_tasks (rs_world s) @ [Task_workflow (cr_id cr) (cr_organization_id cr) (ex_triggered_by x)]\<rparr>\<rparr>)"
  by (simp add: launch_cr_def thenc_apply bindc_apply on_world_def set_status_def uuid4_def add_run_def
      schedule_task_def rb_now_def) blast

lemma create_draft_run:
  assumes "create_draft_cr rc x b s = (z, t)"
  shows "case z of Inl e \<Rightarrow> t = s
    | Inr cr \<Rightarrow> (\<exists>ct. cr = draft_cr (rc_uuid rc (rs_drawn s)) x b ct (rb_now s) \<and> sb_change_type b = Some ct \<and>
        ct \<in> set change_types) \<and>
        t = s\<lparr>rs_drawn := Suc (rs_drawn s), rs_world := (rs_world s)\<lparr>w_crs := w_crs (rs_world s) @ [cr]\<rparr>\<rparr>"
proof (cases "sb_change_type b")
  case None
  then show ?thesis using assms by (auto simp: create_draft_cr_def)
next
  case (Some ct)
  show ?thesis
  proof (cases "ct \<in> set change_types")
    case True
    then show ?thesis using assms Some
      by (auto simp: create_draft_cr_def change_type_of_def bindc_apply thenc_apply uuid4_def on_world_def rb_now_def)
  next
    case False
    then show ?thesis using assms Some by (auto simp: create_draft_cr_def change_type_of_def)
  qed
qed

lemma plan_runbook_run:
  assumes "plan_runbook_cr rc cr s = (z, t)"
  shows "case z of
      Inl e \<Rightarrow> \<exists>w. calls_only (rs_world s) w \<and> t = s\<lparr>rs_world := w\<rparr>
    | Inr _ \<Rightarrow> \<exists>c pd safety.
        score_change_request cr (assets_with_ids (rs_world s) (real_ids (cr_target_asset_ids cr))) = Inr safety \<and>
        \<not> is_blocked safety \<and>
        t = s\<lparr>rs_world := upd_cr (cr_id cr) (\<lambda>c. c\<lparr>cr_risk_level := sr_risk_level safety, cr_status := CRS_planned,
              cr_updated_at := w_clock (rs_world s)\<rparr>) (save_plan (plan_row (cr_id cr) pd) ((rs_world s)\<lparr>w_calls := c\<rparr>))\<rparr>"
proof -
  obtain q u where run: "plan_cr (rc_config rc) (rc_env rc) cr (rs_world s) = (q, u)" by fastforce
  note plan = plan_cr_run [OF run]
  show ?thesis
  proof (cases q)
    case (Inl e)
    then show ?thesis using plan assms run
      by (auto simp: plan_runbook_cr_def catchc_apply thenc_apply on_world_def split: if_splits)
  next
    case (Inr p)
    then have "z = Inr ()" "t = s\<lparr>rs_world := u\<rparr>"
      using assms run by (simp_all add: plan_runbook_cr_def catchc_apply thenc_apply on_world_def)
    with plan Inr show ?thesis by (simp only: sum.case) blast
  qed
qed

text \<open>C35: The change request of a runbook step, on every branch. When it is made, it is a new one of the
  organization of the snapshot for the user who started the execution, from the source \<open>runbook\<close>, of a known
  change type, with the step's parameters overridden by the context of the execution; the safety review did
  not block it, it has a plan, it is approved although nobody has approved it, and exactly one pending run and the
  task of its workflow are added. When it is not made, no run and no task is added, no other request is
  touched, and at most a draft stays behind.\<close>
theorem runbook_change_request:
  assumes k_def: "k = rc_uuid rc (rs_drawn s)" and w_def: "w = rs_world s" and fresh': "get_cr w k = None"
    and run: "create_and_execute_runbook_cr rc x b s = (z, t)"
  shows "(\<forall>j. j \<noteq> k \<longrightarrow> get_cr (rs_world t) j = get_cr w j) \<and> w_approvals (rs_world t) = w_approvals w \<and>
    (case z of
       Inl e \<Rightarrow> w_runs (rs_world t) = w_runs w \<and> w_tasks (rs_world t) = w_tasks w \<and>
         (case get_cr (rs_world t) k of None \<Rightarrow> True | Some cr \<Rightarrow> cr_status cr = CRS_draft)
     | Inr j \<Rightarrow> j = k \<and> get_plan (rs_world t) k \<noteq> None \<and>
         (\<exists>cr safety. get_cr (rs_world t) k = Some cr \<and> cr_status cr = CRS_approved \<and> cr_source cr = Some ''runbook'' \<and>
            cr_organization_id cr = sn_organization_id (ex_snapshot x) \<and> cr_requester_id cr = ex_triggered_by x \<and>
            sb_change_type b = Some (cr_change_type cr) \<and> cr_change_type cr \<in> set change_types \<and>
            cr_desired_outcome cr = dmerge (case sb_parameters b of None \<Rightarrow> [] | Some p \<Rightarrow> p) (ex_context x) \<and>
            (\<exists>draft. score_change_request draft (assets_with_ids w (real_ids (cr_target_asset_ids cr))) = Inr safety \<and>
               cr_desired_outcome draft = cr_desired_outcome cr \<and> cr_change_type draft = cr_change_type cr) \<and>
            \<not> is_blocked safety) \<and>
         (\<exists>r. w_runs (rs_world t) = w_runs w @ [r] \<and> run_change_request_id r = k \<and> run_status r = ES_pending) \<and>
         w_tasks (rs_world t) = w_tasks w @ [Task_workflow k (sn_organization_id (ex_snapshot x)) (ex_triggered_by x)])"
proof -
  obtain z1 s1 where d: "create_draft_cr rc x b s = (z1, s1)" by fastforce
  note draft = create_draft_run [OF d]
  show ?thesis
  proof (cases z1)
    case (Inl e)
    then show ?thesis using run d draft fresh'
      by (auto simp: create_and_execute_runbook_cr_def bindc_apply w_def k_def)
  next
    case (Inr cr)
    then obtain ct where cr: "cr = draft_cr k x b ct (rb_now s)" "sb_change_type b = Some ct" "ct \<in> set change_types"
      and s1: "s1 = s\<lparr>rs_drawn := Suc (rs_drawn s), rs_world := w\<lparr>w_crs := w_crs w @ [cr]\<rparr>\<rparr>"
      using draft by (auto simp: k_def w_def)
    have id: "cr_id cr = k" using cr(1) by simp
    have get1: "get_cr (rs_world s1) j = (if j = k then Some cr else get_cr w j)" for j
      using s1 id fresh' by (auto simp: get_cr_append split: option.splits)
    obtain z2 s2 where p: "plan_runbook_cr rc cr s1 = (z2, s2)" by fastforce
    note plan = plan_runbook_run [OF p]
    show ?thesis
    proof (cases z2)
      case (Inl e)
      then have "z = Inl e" "t = s2" using run d p \<open>z1 = Inr cr\<close>
        by (simp_all add: create_and_execute_runbook_cr_def bindc_apply thenc_apply)
      moreover from plan Inl obtain c where "s2 = s1\<lparr>rs_world := (rs_world s1)\<lparr>w_calls := c\<rparr>\<rparr>"
        by (auto simp: calls_only_def)
      ultimately show ?thesis using get1 s1 cr(1) by simp
    next
      case (Inr u)
      with plan obtain c pd safety where safety:
        "score_change_request cr (assets_with_ids (rs_world s1) (real_ids (cr_target_asset_ids cr))) = Inr safety"
        "\<not> is_blocked safety"
        and s2: "s2 = s1\<lparr>rs_world := upd_cr k (\<lambda>c. c\<lparr>cr_risk_level := sr_risk_level safety, cr_status := CRS_planned,
              cr_updated_at := w_clock (rs_world s1)\<rparr>) (save_plan (plan_row k pd) ((rs_world s1)\<lparr>w_calls := c\<rparr>))\<rparr>"
        using id by auto
      have get2: "get_cr (rs_world s2) j = (if j = k then Some (cr\<lparr>cr_risk_level := sr_risk_level safety,
          cr_status := CRS_planned, cr_updated_at := w_clock (rs_world s1)\<rparr>) else get_cr w j)" for j
        using s2 get1 by (simp add: get_cr_upd_cr)
      have plan2: "get_plan (rs_world s2) k \<noteq> None" using s2 get_plan_save [of "plan_row k pd"] by (simp add: plan_row_def)
      from launch_run [of rc x cr s2] id obtain rid n where l: "launch_cr rc x cr s2 =
          (Inr (), s2\<lparr>rs_drawn := Suc (rs_drawn s2), rs_world :=
            (upd_cr k (\<lambda>c. c\<lparr>cr_status := CRS_approved, cr_updated_at := w_clock (rs_world s2)\<rparr>) (rs_world s2))
              \<lparr>w_runs := w_runs (rs_world s2) @ [new_run rid k (workflow_id_of k n) ES_pending (rb_now s2)],
               w_tasks := w_tasks (rs_world s2) @ [Task_workflow k (cr_organization_id cr) (ex_triggered_by x)]\<rparr>\<rparr>)"
        by auto
      with run d p Inr \<open>z1 = Inr cr\<close> id have z: "z = Inr k" and t: "t = snd (launch_cr rc x cr s2)"
        by (simp_all add: create_and_execute_runbook_cr_def bindc_apply thenc_apply)
      have get3: "get_cr (rs_world t) j = (if j = k then Some (cr\<lparr>cr_risk_level := sr_risk_level safety,
          cr_status := CRS_approved, cr_updated_at := w_clock (rs_world s2)\<rparr>) else get_cr w j)" for j
        using t l get2 by (simp add: get_cr_upd_cr)
      have assets: "assets_with_ids (rs_world s1) ids = assets_with_ids w ids" for ids
        using s1 by (simp add: assets_with_ids_def)
      have plan3: "get_plan (rs_world t) k \<noteq> None" using plan2 t l by (simp add: get_plan_def)
      have frames: "w_approvals (rs_world t) = w_approvals w" 
        "w_runs (rs_world t) = w_runs w @ [new_run rid k (workflow_id_of k n) ES_pending (rb_now s2)]"
        "w_tasks (rs_world t) = w_tasks w @ [Task_workflow k (sn_organization_id (ex_snapshot x)) (ex_triggered_by x)]"
        using t l s2 s1 cr(1) by simp_all
      show ?thesis
        using z get3 plan3 frames safety assets cr by (auto simp: new_run_def intro!: exI [of _ safety] exI [of _ cr])
    qed
  qed
qed

section \<open>Who can start an execution\<close>

definition hard_window :: "rb_config \<Rightarrow> world \<Rightarrow> asset \<Rightarrow> bool" where
  "hard_window rc w a \<longleftrightarrow>
     first_active_window (cfg_cron_prev (rc_config rc))
       (filter (\<lambda>m. mw_enabled m \<and> mw_enforcement m = ''hard'') (w_windows w)) (asset_tags a) (w_clock w) \<noteq> None"

lemma check_asset_windows_eq:
  "check_asset_windows rc as s =
     (if \<exists>a \<in> set as. hard_window rc (rs_world s) a
      then (Inl (Exn (HTTPException 409) ''maintenance_window''), s) else (Inr (), s))"
proof (induction as)
  case (Cons a as)
  have "on_world (is_in_maintenance_window (cfg_cron_prev (rc_config rc)) (asset_tags a) ''hard'') s =
      (Inr (first_active_window (cfg_cron_prev (rc_config rc))
         (filter (\<lambda>m. mw_enabled m \<and> mw_enforcement m = ''hard'') (w_windows (rs_world s))) (asset_tags a)
         (w_clock (rs_world s))), s)"
    by (simp add: on_world_def is_in_maintenance_window_def)
  with Cons show ?case by (auto simp: bindc_apply hard_window_def rb_error_def)
qed simp

lemma check_trigger_eq:
  "check_trigger rc rb user force s =
     (if \<not> rb_auto_execute rb then (Inl (Exn (HTTPException 403) ''Runbook is not enabled for auto-execution''), s)
      else if force then
        (if \<exists>u. lookup_row user_id (w_users (rs_world s)) user = Some u \<and> user_role u = UR_admin then (Inr (), s)
         else (Inl (Exn (HTTPException 403) ''Only admins may override a maintenance window freeze.''), s))
      else if \<exists>a \<in> set (assets_with_ids (rs_world s)
            (concat (map (\<lambda>r. selected_ids (sb_asset_selector (row_body r))) (rows_of s (rb_id rb))))).
          hard_window rc (rs_world s) a
        then (Inl (Exn (HTTPException 409) ''maintenance_window''), s) else (Inr (), s))"
  by (auto simp: check_trigger_def thenc_apply rb_require_def rb_error_def check_asset_windows_eq split: option.splits)


section \<open>What a snapshot loses\<close>

definition plain_body :: "step_body \<Rightarrow> bool" where
  "plain_body b \<longleftrightarrow> selected_ids (sb_asset_selector b) = []"

definition flat :: "snapshot \<Rightarrow> bool" where
  "flat snap \<longleftrightarrow> (\<forall>d \<in> set (sn_steps snap). parallel_steps d = [] \<and> plain_body (step_body d))"

definition plain :: "runbook_state \<Rightarrow> bool" where
  "plain s \<longleftrightarrow> (\<forall>r \<in> set (rs_rows s). plain_body (row_body r)) \<and> (\<forall>x \<in> set (rs_execs s). flat (ex_snapshot x))"

named_theorems plain_intros \<open>programs that keep steps and snapshots plain\<close>

lemma plain_basic [plain_intros]:
  "keeps plain (on_world m)" "keeps plain (uuid4 rc)" "keeps plain (rb_error c msg)" "keeps plain (rb_require p c msg)"
  "keeps plain (modifyc (upd_runbook i f))" "keeps plain (add_runbook rb)" "keeps plain (drop_rows i)"
  "keeps plain (Pair z)" "keeps plain (ret a)"
  by (auto simp: keeps_def plain_def on_world_def uuid4_def rb_error_def rb_require_def upd_runbook_def add_runbook_def
      drop_rows_def split: prod.split)

lemma plain_transact [plain_intros]:
  assumes "keeps plain m"
  shows "keeps plain (rb_transact m)"
  unfolding keeps_def
proof (intro allI impI)
  fix s
  assume s: "plain s"
  obtain z t where run: "m s = (z, t)" by fastforce
  show "plain (snd (rb_transact m s))"
  proof (cases z)
    case (Inl e)
    then show ?thesis using run s by (simp add: rb_transact_def plain_def)
  next
    case (Inr a)
    then show ?thesis using run keepsD [OF assms s] by (simp add: rb_transact_def)
  qed
qed

lemma keeps_bind_gets: "(\<And>s. I s \<Longrightarrow> keeps I (f (h s))) \<Longrightarrow> keeps I (bindc (gets h) f)"
  by (simp add: keeps_def)

lemma plain_edit [plain_intros]:
  "(\<And>now x. ex_snapshot (f now x) = ex_snapshot x) \<Longrightarrow> keeps plain (edit_exec i f)"
  by (auto simp: edit_exec_def keeps_def plain_def rs_execs_upd_exec on_execs_def)

lemma plain_upd [plain_intros]:
  "(\<And>x. ex_snapshot (f x) = ex_snapshot x) \<Longrightarrow> keeps plain (modifyc (upd_exec i f))"
  by (auto simp: keeps_def plain_def rs_execs_upd_exec on_execs_def)

lemma plain_add_row: "plain_body b \<Longrightarrow> keeps plain (add_row rc i parent b)"
  unfolding add_row_def by (intro hoare plain_intros) (auto simp: plain_def)

lemma plain_insert [plain_intros]: "keeps plain (insert_steps rc ss i parent)"
proof (induction rc ss i parent rule: insert_steps.induct)
  case (2 rc b kids ss i parent)
  have kids: "keeps plain (whenc (kids \<noteq> []) (insert_steps rc kids i (Some k)))" for k
    using 2(1) by (cases "kids = []") (auto simp: whenc_def intro: plain_intros)
  show ?case
  proof (cases "plain_body b")
    case True
    then show ?thesis
      unfolding insert_steps.simps json_selector_def
      by (intro hoare plain_add_row kids 2(2) keeps_case_option)
  next
    case False
    then have "json_selector (sb_asset_selector b) = raise (Exn TypeError ''Object of type UUID is not JSON serializable'')"
      by (auto simp: json_selector_def plain_body_def selected_ids_def split: option.splits)
    then show ?thesis by (simp add: thenc_def plain_intros)
  qed
qed (auto intro: plain_intros)

lemma plain_copy:
  assumes "\<And>r. r \<in> set rows \<Longrightarrow> plain_body (row_body r)"
  shows "(\<And>r. r \<in> set rs \<Longrightarrow> r \<in> set rows) \<Longrightarrow> keeps plain (copy_steps n rc rows rs i parent)"
  using assms
proof (induction n rc rows rs i parent rule: copy_steps.induct)
  case (3 n rc rows r rs i parent)
  have "keeps plain (add_row rc i parent (row_body r))" using 3(3,4) by (intro plain_add_row) simp
  moreover have "keeps plain (copy_steps n rc rows (children_of rows (row_id r)) i (Some k))" for k
    using 3(1,4) by (simp add: children_of_def)
  moreover have "keeps plain (copy_steps (Suc n) rc rows rs i parent)" using 3(2,3,4) by simp
  ultimately show ?case unfolding copy_steps.simps by (intro hoare)
qed (auto intro: plain_intros keeps_raise)

lemma plain_get [plain_intros]: "keeps plain (get_runbook i org)" "keeps plain (get_execution i org)"
  unfolding get_runbook_def get_execution_def by (intro hoare plain_intros keeps_case_option)+

lemma plain_create_cr [plain_intros]: "keeps plain (create_and_execute_runbook_cr rc x b)"
  unfolding create_and_execute_runbook_cr_def create_draft_cr_def plan_runbook_cr_def launch_cr_def
  by (intro hoare plain_intros keeps_case_option keeps_case_sum)

lemma plain_try [plain_intros]: "keeps plain m \<Longrightarrow> keeps plain (try_value m)"
  unfolding try_value_def by (intro hoare)

lemma plain_children [plain_intros]: "keeps plain (start_children rc x ds)"
proof (induction ds)
  case (Cons d ds)
  then show ?case unfolding start_children.simps by (intro hoare plain_intros keeps_case_sum keeps_case_prod)
qed (simp add: plain_intros)

lemma poll_snapshot [simp]:
  "ex_snapshot (poll_change b k found now x) = ex_snapshot x" "ex_snapshot (poll_children b cs now x) = ex_snapshot x"
  by (simp_all add: poll_change_def poll_children_def Let_def split: option.splits)

lemma plain_execute [plain_intros]: "keeps plain (execute_step rc x d r)"
  unfolding execute_step_def Let_def execute_change_step_def execute_condition_step_def execute_checkpoint_step_def
    execute_parallel_step_def
  by (auto intro!: hoare plain_intros keeps_case_list split: step_status.split sum.split option.split prod.split)

lemma plain_tick_all [plain_intros]: "keeps plain (tick_all_executions rc)"
proof -
  have "keeps plain (tick_execution rc i)" for i
    unfolding tick_execution_def Let_def
    by (intro hoare plain_intros keeps_case_option) (simp_all add: plain_intros)
  then have "keeps plain (quiet_tick rc i)" for i unfolding quiet_tick_def by (intro hoare)
  then have "keeps plain (seqc (map (quiet_tick rc) ids))" for ids by (intro keeps_seqc) auto
  then show ?thesis unfolding tick_all_executions_def by (intro keeps_bindc keeps_gets)
qed

lemma plain_windows [plain_intros]: "keeps plain (check_asset_windows rc as)"
proof (induction as)
  case (Cons a as)
  then show ?case unfolding check_asset_windows.simps by (intro hoare plain_intros)
qed (simp add: plain_intros)

lemma plain_trigger [plain_intros]: "keeps plain (trigger_runbook rc i org user ctx force)"
proof -
  have check: "keeps plain (check_trigger rc rb user force)" for rb
    unfolding check_trigger_def by (intro hoare plain_intros)
  have add: "keeps plain (bindc (gets (\<lambda>s. snapshot_of org (rows_of s i))) (\<lambda>snap.
      thenc (modifyc (\<lambda>s. s\<lparr>rs_execs := rs_execs s @ [new_execution k rb snap user ctx now]\<rparr>))
        (thenc (whenc force (on_world (record_event org ''runbook.emergency_override'' (Some user) None)))
          (get_execution k org))))" for k rb now
  proof (rule keeps_bind_gets)
    fix s
    assume "plain s"
    then have "flat (snapshot_of org (rows_of s i))" by (auto simp: plain_def flat_def snapshot_of_def rows_of_def)
    then show "keeps plain (thenc (modifyc (\<lambda>s'. s'\<lparr>rs_execs := rs_execs s' @
        [new_execution k rb (snapshot_of org (rows_of s i)) user ctx now]\<rparr>))
        (thenc (whenc force (on_world (record_event org ''runbook.emergency_override'' (Some user) None)))
          (get_execution k org)))"
      by (intro hoare plain_intros) (auto simp: plain_def new_execution_def)
  qed
  show ?thesis
    unfolding trigger_runbook_def
    by (rule plain_transact, rule keeps_bindc [OF plain_get(1)], rule keeps_thenc, rule check,
        rule keeps_bindc [OF plain_basic(2)], rule keeps_bindc [OF keeps_gets], rule add)
qed

lemma plain_seed_steps: "tpl \<in> set seed_templates \<Longrightarrow> b \<in> set (tpl_steps tpl) \<Longrightarrow> plain_body b"
  by (auto simp: seed_templates_def engineer_onboarding_def employee_offboarding_def patch_campaign_def seed_step_def
      seed_change_def seed_checkpoint_def plain_body_def selected_ids_def prod_selector_def)

lemma plain_add_rows: "(\<And>b. b \<in> set bs \<Longrightarrow> plain_body b) \<Longrightarrow> keeps plain (add_rows rc i bs)"
proof (induction bs)
  case (Cons b bs)
  have "keeps plain (add_row rc i None b)" using Cons.prems by (intro plain_add_row) simp
  moreover have "keeps plain (add_rows rc i bs)" using Cons by simp
  ultimately show ?case unfolding add_rows.simps by (rule keeps_thenc)
qed (simp add: plain_intros)

lemma plain_seeds: "keeps plain (load_seed_templates rc org user)"
proof -
  have "keeps plain (load_template rc org user tpl)" if "tpl \<in> set seed_templates" for tpl
    unfolding load_template_def
    by (intro keeps_bindc keeps_gets plain_intros keeps_case_list keeps_thenc plain_add_rows keeps_raise)
      (use plain_seed_steps [OF that] in simp)
  then have "keeps plain (seqc (map (load_template rc org user) seed_templates))" by (intro keeps_seqc) auto
  then show ?thesis unfolding load_seed_templates_def by (rule plain_transact)
qed

lemma plain_fork: "keeps plain (fork_runbook rc i org user)"
proof -
  have copy: "keeps plain (bindc (gets (\<lambda>s. rows_of s i)) (\<lambda>rows. thenc (add_runbook rb)
      (thenc (copy_steps (length rows) rc rows rows k None) (get_runbook k org))))" for rb k
  proof (rule keeps_bind_gets)
    fix s
    assume "plain s"
    then have "\<And>r. r \<in> set (rows_of s i) \<Longrightarrow> plain_body (row_body r)" by (auto simp: plain_def rows_of_def)
    then show "keeps plain (thenc (add_runbook rb)
        (thenc (copy_steps (length (rows_of s i)) rc (rows_of s i) (rows_of s i) k None) (get_runbook k org)))"
      by (intro keeps_thenc plain_intros plain_copy)
  qed
  show ?thesis
    unfolding fork_runbook_def
    by (rule plain_transact, rule keeps_bindc [OF keeps_gets], rule keeps_case_option, rule plain_basic(3),
        rule keeps_bindc [OF plain_basic(2)], rule keeps_bindc [OF keeps_gets], rule copy)
qed

lemma plain_delete: "keeps plain (delete_runbook i org)"
proof -
  have "keeps plain (thenc (drop_rows i) (modifyc (\<lambda>s. s\<lparr>rs_runbooks := filter (\<lambda>r. rb_id r \<noteq> i) (rs_runbooks s)\<rparr>)))"
    by (intro hoare plain_intros) (simp add: plain_def)
  then show ?thesis unfolding delete_runbook_def
    by (intro plain_transact keeps_bindc [OF plain_get(1)] keeps_bindc [OF keeps_gets] keeps_case_list keeps_if keeps_raise
        plain_intros)
qed

lemma plain_handle: "keeps plain (handle_runbook names rc q u)"
proof (cases q)
  case (Create_runbook p)
  have "keeps plain (create_runbook rc org user p)" for org user
    unfolding create_runbook_def by (intro plain_transact keeps_bindc keeps_gets keeps_thenc plain_intros)
  then show ?thesis using Create_runbook by (simp add: void_rb_def keeps_thenc plain_intros)
next
  case (Update_runbook i p)
  have "keeps plain (update_runbook rc i org p)" for org
    unfolding update_runbook_def
    by (intro plain_transact keeps_bindc keeps_thenc plain_intros keeps_case_option)
  then show ?thesis using Update_runbook by (simp add: void_rb_def keeps_thenc plain_intros)
next
  case (Resume_execution i n action email)
  have "keeps plain (resume_checkpoint i n action u email)"
    unfolding resume_checkpoint_def waiting_step_def [symmetric]
  proof (intro plain_transact keeps_bindc keeps_thenc keeps_if plain_intros keeps_gets)
    show "keeps plain (waiting_step n x)" for x
      unfolding waiting_step_def by (intro keeps_case_list plain_intros keeps_raise)
  qed (simp_all add: resumed_def aborted_at_def)
  then show ?thesis using Resume_execution by (simp add: void_rb_def keeps_thenc plain_intros)
next
  case (Abort_execution i)
  have "keeps plain (abort_execution i org)" for org
    unfolding abort_execution_def
    by (intro plain_transact keeps_bindc keeps_thenc plain_intros keeps_gets) (simp add: aborted_at_def)
  then show ?thesis using Abort_execution by (simp add: void_rb_def keeps_thenc plain_intros)
next
  case (Fork_runbook i)
  then show ?thesis by (simp add: void_rb_def keeps_thenc plain_fork plain_intros)
next
  case (Delete_runbook i)
  then show ?thesis by (simp add: plain_delete)
qed (simp_all add: void_rb_def list_runbooks_def list_executions_def keeps_thenc keeps_bindc keeps_gets plain_intros)

lemma plain_scheduled: "keeps plain (tick_scheduled rc)"
  unfolding tick_scheduled_def fire_scheduled_def
  by (intro keeps_bindc keeps_gets keeps_mapc keeps_catchc keeps_of_sum keeps_if keeps_thenc plain_intros)

lemma run_plain: "rb_run names rc s t \<Longrightarrow> plain s \<Longrightarrow> plain t"
proof (induction rule: rb_run.induct)
  case (next_step s t v)
  from next_step(2) show ?case
  proof cases
    case (request q u)
    then show ?thesis using keepsD [OF plain_handle] next_step by simp
  next
    case executor
    then show ?thesis using keepsD [OF plain_tick_all] next_step by simp
  next
    case schedule
    then show ?thesis using keepsD [OF plain_scheduled] next_step by simp
  next
    case (seed org user)
    then show ?thesis using keepsD [OF plain_seeds] next_step by simp
  next
    case (elsewhere w)
    moreover have "plain t" using next_step by simp
    ultimately show ?thesis by (simp only: plain_def) simp
  qed
qed simp

text \<open>C40: No runbook that is stored through the program can name an asset or run a group: in every reachable state
  each step of each execution's snapshot has no nested steps and selects no asset by its id, so the change
  request of any step has no targets, a parallel group makes no change request at all, and a hard maintenance
  window never refuses a start.\<close>
theorem runbooks_reach_nothing:
  assumes "rb_run names rc (empty_tables w) s"
  shows "(\<forall>x \<in> set (rs_execs s). \<forall>d \<in> set (sn_steps (ex_snapshot x)).
       parallel_steps d = [] \<and>
       (\<forall>k ct now. cr_target_asset_ids (draft_cr k x (step_body d) ct now) = []) \<and>
       (sb_type (step_body d) = ''parallel_group'' \<longrightarrow>
          (\<forall>r t. rs_world (snd (execute_step rc x d r t)) = rs_world t))) \<and>
    (\<forall>rb user. rb_auto_execute rb \<longrightarrow> check_trigger rc rb user False s = (Inr (), s))"
proof -
  have s: "plain s" by (rule run_plain [OF assms]) (simp add: plain_def empty_tables_def)
  have "concat (map (\<lambda>r. selected_ids (sb_asset_selector (row_body r))) (rows_of s i)) = []" for i
    using s by (auto simp: plain_def plain_body_def rows_of_def)
  then have "check_trigger rc rb user False s = (Inr (), s)" if "rb_auto_execute rb" for rb user
    using that by (simp add: check_trigger_eq assets_with_ids_def)
  moreover have "parallel_steps d = []" "\<forall>k ct now. cr_target_asset_ids (draft_cr k x (step_body d) ct now) = []"
    if "x \<in> set (rs_execs s)" "d \<in> set (sn_steps (ex_snapshot x))" for x d
    using s that by (auto simp: plain_def flat_def plain_body_def selected_ids_def resolve_asset_ids_def)
  moreover have "rs_world (snd (execute_step rc x d r t)) = rs_world t"
    if "parallel_steps d = []" "sb_type (step_body d) = ''parallel_group''" for x d r t
    using that by (cases "sr_status r")
      (simp_all add: execute_step_def Let_def execute_parallel_step_def bindc_apply edit_exec_def)
  ultimately show ?thesis by auto
qed

end
