(* ===== verification/RunbookExamples.thy ===== *)
theory RunbookExamples
  imports RunbookProps
begin

text \<open>
  Concrete runbooks: the seed templates are forward runbooks of known change types, and small examples at which the
  properties of runbooks apply.
\<close>

section \<open>The seed templates\<close>

lemmas change_type_lists =
  change_types_def change_types_1_def change_types_2_def change_types_3_def change_types_4_def change_types_5_def

lemma seed_change_types:
  "{''create_ad_account'', ''assign_okta_groups'', ''add_github_org_member'', ''send_welcome_email'',
    ''disable_iam_user'', ''okta_disable_user'', ''azure_ad_disable_user'', ''ldap_disable_user'',
    ''teleport_lock_user'', ''gitlab_suspend_user'', ''rotate_ssh_keys'', ''check_fleet_health'',
    ''patch_packages'', ''check_compliance''} \<subseteq> set change_types"
  unfolding insert_subset
  by (intro conjI empty_subsetI)
    (simp_all only: change_type_lists set_append list.set(2) insert_iff Un_iff simp_thms)

definition sound_template :: "template \<Rightarrow> bool" where
  "sound_template tpl \<longleftrightarrow>
     list_all forward_step (tpl_steps tpl) \<and>
     map sb_step_number (tpl_steps tpl) = map int [1..<Suc (length (tpl_steps tpl))]"

lemma seeds_go_forward: "list_all sound_template seed_templates"
  by code_simp

section \<open>Examples\<close>

definition example_rc :: rb_config where
  "example_rc = \<lparr>rc_config = example_config, rc_env = example_env, rc_uuid = (\<lambda>n. replicate n (CHR ''i'')),
     rc_eval = (\<lambda>_ _ _. Inr True)\<rparr>"

definition no_names :: "string \<Rightarrow> string \<Rightarrow> bool" where
  "no_names _ _ = False"

lemma example_ids: "inj (rc_uuid example_rc)"
  by (rule injI) (auto simp: example_rc_def dest: arg_cong [of _ _ length])

definition looping_steps :: "step_body list" where
  "looping_steps = [seed_checkpoint 1 ''ok?'' ''go on?'' ''manager'' 1,
     (seed_step 2 ''again'' ''condition'')\<lparr>sb_condition_expr := Some ''True'', sb_on_true_step := Some 1\<rparr>]"

definition ending_steps :: "step_body list" where
  "ending_steps = [(seed_step 1 ''check'' ''condition'')\<lparr>sb_condition_expr := Some ''True''\<rparr>]"

definition example_runbook :: "step_body list \<Rightarrow> runbook_create" where
  "example_runbook bs =
     \<lparr>rbc_name = ''demo'', rbc_description = None, rbc_tags = [], rbc_auto_execute = True,
      rbc_cron_schedule = None, rbc_steps = map (\<lambda>b. Step b []) bs\<rparr>"

text \<open>A runbook is created and started, then the executor ticks \<open>n\<close> times.\<close>

definition example_request :: "rb_request \<Rightarrow> runbook_state \<Rightarrow> runbook_state" where
  "example_request q s = snd (handle_runbook no_names example_rc q (example_user UR_admin) s)"

definition example_tick :: "runbook_state \<Rightarrow> runbook_state" where
  "example_tick s = snd (tick_all_executions example_rc s)"

definition run_started :: "step_body list \<Rightarrow> runbook_state" where
  "run_started bs = example_request (Trigger_runbook [] [] False)
     (example_request (Create_runbook (example_runbook bs)) (empty_tables (example_world [])))"

lemma run_request: "rb_run no_names example_rc s t \<Longrightarrow> rb_run no_names example_rc s (example_request q t)"
  unfolding example_request_def by (rule rb_run.next_step, assumption, rule rb_step.request)

lemma run_tick: "rb_run no_names example_rc s t \<Longrightarrow> rb_run no_names example_rc s (example_tick t)"
  unfolding example_tick_def by (rule rb_run.next_step, assumption, rule rb_step.executor)

lemma started_reached: "rb_run no_names example_rc (empty_tables (example_world [])) (run_started bs)"
  unfolding run_started_def by (intro run_request rb_run.start)

text \<open>The runbook that waits and jumps back: waiting for a human, turned down, and resumed.\<close>

definition demo_id :: uuid where
  "demo_id = ''iii''"

definition waiting_demo :: runbook_state where
  "waiting_demo = example_tick (run_started looping_steps)"

definition aborted_demo :: runbook_state where
  "aborted_demo = example_request (Abort_execution demo_id) waiting_demo"

definition resumed_demo :: runbook_state where
  "resumed_demo = example_request (Resume_execution demo_id 1 ''resume'' ''u@org'') waiting_demo"

lemmas demo_runs =
  run_tick [OF started_reached [of looping_steps], folded waiting_demo_def]

lemma demo_reached:
  "rb_run no_names example_rc (empty_tables (example_world [])) aborted_demo"
  "rb_run no_names example_rc (empty_tables (example_world [])) resumed_demo"
  unfolding aborted_demo_def resumed_demo_def by (rule run_request [OF demo_runs])+



theorem backward_jump_never_ends_witness:
  "\<exists>x'. find_exec (snd (tick_execution example_rc demo_id resumed_demo)) demo_id = Some x' \<and>
     ex_status x' = RX_running \<and> ex_current_step x' = 1"
proof -
  let ?b = "(seed_step 2 ''again'' ''condition'')\<lparr>sb_condition_expr := Some ''True'', sb_on_true_step := Some 1\<rparr>"
  have "map_option (\<lambda>x. (ex_status x, step_at (ex_snapshot x) (ex_current_step x), result_at x (ex_current_step x),
        eval_condition example_rc (ensure_result ?b x) ?b, step_at (ex_snapshot x) 1))
      (find_exec resumed_demo demo_id) =
      Some (RX_running, Some (Step ?b []), None, Inr True, Some (Step (hd looping_steps) []))" by code_simp
  then obtain x where x: "find_exec resumed_demo demo_id = Some x" "ex_status x = RX_running"
      "step_at (ex_snapshot x) (ex_current_step x) = Some (Step ?b [])" "result_at x (ex_current_step x) = None"
      "eval_condition example_rc (ensure_result ?b x) ?b = Inr True"
      "step_at (ex_snapshot x) 1 = Some (Step (hd looping_steps) [])" by auto
  have "map_option (\<lambda>x. map_option sr_status (result_at x 1)) (find_exec resumed_demo demo_id) = Some (Some SR_completed)"
    by code_simp
  with x(1) obtain r where "result_at x 1 = Some r" "sr_status r \<in> {SR_completed, SR_failed}" by auto
  with backward_jump_never_ends [OF demo_reached(2) example_ids x(1,2,3) _ x(4) _ _ x(6), of True r] x(5)
  show ?thesis by (auto simp: seed_step_def jump_of_def)
qed

text \<open>The runbook of one condition that ends: two ticks.\<close>

definition ending_id :: uuid where
  "ending_id = ''ii''"

definition ticked_once :: "runbook_state \<Rightarrow> runbook_state" where
  "ticked_once s = snd (tick_execution example_rc ending_id s)"

definition ending_state :: "nat \<Rightarrow> runbook_state" where
  "ending_state k =
     (if k = 0 then run_started ending_steps else if k = 1 then ticked_once (run_started ending_steps)
      else ticked_once (ticked_once (run_started ending_steps)))"

lemma ending_facts:
  "map_option (\<lambda>y. (ex_status y, blocked (ending_state 0) y)) (find_exec (ending_state 0) ending_id) =
     Some (RX_running, False)"
  "map_option (\<lambda>y. (ex_status y, blocked (ending_state 1) y)) (find_exec (ending_state 1) ending_id) =
     Some (RX_running, False)"
  "map_option ex_status (find_exec (ending_state 2) ending_id) = Some RX_completed"
  "fst (tick_execution example_rc ending_id (ending_state 0)) = Inr ()"
  "fst (tick_execution example_rc ending_id (ending_state 1)) = Inr ()"
  by code_simp+


text \<open>A change step whose change request is completed.\<close>

definition polling_exec :: rb_execution where
  "polling_exec =
     \<lparr>ex_id = ''e-1'', ex_runbook_id = ''rb-1'', ex_runbook_version = 1,
      ex_snapshot = \<lparr>sn_organization_id = ''org'',
        sn_steps = [Step (seed_change 1 ''Patch'' ''patch_packages'' []) [], Step (seed_change 2 ''Verify'' ''check_compliance'' []) []]\<rparr>,
      ex_triggered_by = ''u-1'', ex_triggered_at = 0, ex_completed_at = None, ex_context = [], ex_status = RX_running,
      ex_current_step = 1,
      ex_step_results = [(new_result (seed_change 1 ''Patch'' ''patch_packages'' []))
        \<lparr>sr_status := SR_running, sr_change_request_ids := [cr_id example_cr]\<rparr>]\<rparr>"

definition polling_demo :: runbook_state where
  "polling_demo = (empty_tables (example_world [example_cr\<lparr>cr_status := CRS_completed\<rparr>]))\<lparr>rs_execs := [polling_exec]\<rparr>"


text \<open>A step that runs a catalog action: its request is planned, approved and started.\<close>

definition catalog_body :: step_body where
  "catalog_body = (seed_step 1 ''Restart'' ''change'')\<lparr>sb_change_type := Some ''catalog_action'',
     sb_parameters := Some [(''connector_type'', PStr ''aws''), (''action_id'', PStr ''ssh_restart'')]\<rparr>"

definition catalog_draft :: change_request where
  "catalog_draft = draft_cr [] polling_exec catalog_body ''catalog_action'' 0"

lemma catalog_action_known: "change_type_of ''catalog_action'' = Inr ''catalog_action''"
proof -
  have "''catalog_action'' \<in> set change_types"
    by (simp only: change_type_lists set_append list.set(2) insert_iff Un_iff simp_thms)
  then show ?thesis by (simp add: change_type_of_def)
qed

lemma catalog_planned: "\<not> isl (fst (plan_cr example_config example_env catalog_draft (example_world [catalog_draft])))"
  by code_simp

lemma catalog_step_made:
  "fst (create_and_execute_runbook_cr example_rc polling_exec catalog_body (empty_tables (example_world []))) = Inr []"
proof -
  let ?s = "empty_tables (example_world [])"
  let ?s1 = "?s\<lparr>rs_drawn := Suc 0, rs_world := example_world [catalog_draft]\<rparr>"
  have "sb_change_type catalog_body = Some ''catalog_action''" by (simp add: catalog_body_def)
  then have draft: "create_draft_cr example_rc polling_exec catalog_body ?s = (Inr catalog_draft, ?s1)"
    using catalog_action_known
    by (simp add: create_draft_cr_def change_type_of_def bindc_apply thenc_apply uuid4_def on_world_def rb_now_def empty_tables_def
        example_rc_def example_world_def catalog_draft_def)
  obtain z u where run: "plan_cr example_config example_env catalog_draft (example_world [catalog_draft]) = (z, u)"
    by fastforce
  with catalog_planned obtain p where "z = Inr p" by (cases z) auto
  with run have plan: "plan_runbook_cr example_rc catalog_draft ?s1 = (Inr (), ?s1\<lparr>rs_world := u\<rparr>)"
    by (simp add: plan_runbook_cr_def catchc_apply thenc_apply on_world_def example_rc_def)
  from launch_run [of example_rc polling_exec catalog_draft "?s1\<lparr>rs_world := u\<rparr>"] obtain v where
    "launch_cr example_rc polling_exec catalog_draft (?s1\<lparr>rs_world := u\<rparr>) = (Inr (), v)" by auto
  with draft plan show ?thesis
    by (simp add: create_and_execute_runbook_cr_def bindc_apply thenc_apply catalog_draft_def)
qed

theorem runbook_change_request_witness:
  "\<exists>t cr. create_and_execute_runbook_cr example_rc polling_exec catalog_body (empty_tables (example_world [])) = (Inr [], t) \<and>
     get_cr (rs_world t) [] = Some cr \<and> cr_status cr = CRS_approved \<and> w_approvals (rs_world t) = []"
proof -
  let ?s = "empty_tables (example_world [])"
  obtain z t where run: "create_and_execute_runbook_cr example_rc polling_exec catalog_body ?s = (z, t)" by fastforce
  with catalog_step_made have z: "z = Inr []" by simp
  have k: "[] = rc_uuid example_rc (rs_drawn ?s)" by (simp add: example_rc_def empty_tables_def)
  have fresh: "get_cr (rs_world ?s) [] = None" by (simp add: get_cr_def empty_tables_def example_world_def lookup_row_def)
  have "w_approvals (rs_world ?s) = []" by (simp add: empty_tables_def example_world_def)
  with runbook_change_request [OF k refl fresh run] z run show ?thesis by auto
qed


text \<open>Forking copies the children of a parallel group twice, under the copy of the group and as steps of their
  own; and it copies the runbooks of any organization.\<close>

definition grouped :: runbook_create where
  "grouped = (example_runbook [])\<lparr>rbc_steps := [Step (seed_step 2 ''both'' ''parallel_group'')
     [Step (seed_change 3 ''one'' ''patch_packages'' []) [], Step (seed_change 4 ''two'' ''patch_packages'' []) []]]\<rparr>"

definition grouped_state :: runbook_state where
  "grouped_state = example_request (Create_runbook grouped) (empty_tables (example_world []))"

text \<open>Its snapshot has the three rows as steps, and no step in the group.\<close>

definition grouped_demo :: runbook_state where
  "grouped_demo = example_request (Trigger_runbook [] [] False) grouped_state"

lemma grouped_reached: "rb_run no_names example_rc (empty_tables (example_world [])) grouped_demo"
  unfolding grouped_demo_def grouped_state_def by (intro run_request rb_run.intros)

lemma grouped_steps: "map (\<lambda>x. length (sn_steps (ex_snapshot x))) (rs_execs grouped_demo) = [3]"
  by code_simp

theorem runbooks_reach_nothing_witness:
  "\<exists>x. rs_execs grouped_demo = [x] \<and> length (sn_steps (ex_snapshot x)) = 3 \<and>
     list_all (\<lambda>d. parallel_steps d = []) (sn_steps (ex_snapshot x))"
proof -
  obtain x where x: "rs_execs grouped_demo = [x]" "length (sn_steps (ex_snapshot x)) = 3"
    using grouped_steps by (auto simp: map_eq_Cons_conv)
  with runbooks_reach_nothing [OF grouped_reached] show ?thesis by (auto simp: list_all_iff)
qed

lemma fork_duplicates_children:
  "length (rs_rows grouped_state) = 3"
  "length (rs_rows (example_request (Fork_runbook []) grouped_state)) = 3 + 5"
  by code_simp+

lemma fork_reads_any_organization:
  "\<not> isl (fst (fork_runbook example_rc [] ''another-org'' ''u-2'' grouped_state))"
  by code_simp

text \<open>A runbook that selects an asset cannot be stored.\<close>

lemma asset_selection_refused:
  "fst (create_runbook example_rc ''org'' ''u-1'' ((example_runbook [])\<lparr>rbc_steps :=
      [Step ((seed_change 1 ''Patch'' ''patch_packages'' [])\<lparr>sb_asset_selector := Some
         \<lparr>sel_tags = [], sel_asset_ids = [''a-1''], sel_environment = None\<rparr>\<rparr>) []]\<rparr>) (empty_tables (example_world []))) =
   Inl (Exn TypeError ''Object of type UUID is not JSON serializable'')"
  by code_simp

end
