(* ===== verification/Spec2Isabelle.thy ===== *)
theory Spec2Isabelle
  imports Settling Offboard Safety AssetGraph TunnelRouting RunbookExamples
begin

text \<open>
  Verification of the change lifecycle of the NexPlane backend (\<open>backend/app\<close>): how a change request is
  created, planned, approved, executed, verified and rolled back, and the executors that the server
  itself implements; the graph of asset relationships; and the reverse tunnel, through which the backend reaches
  the networks of its agents.

  \<^bold>\<open>The program's parts and how they interact.\<close> An endpoint (\<open>routers/change_requests.py\<close>) handles a
  request of an authenticated user in one database transaction. It asks the safety engine
  (\<open>services/safety_engine.py\<close>) whether approvals suffice or a change freeze is active, the window
  service whether a maintenance window is open, and the plan service (\<open>services/change_plan_service.py\<close>)
  for a plan, which the planning engine (\<open>services/planning_engine.py\<close>) makes from the action catalog.
  Execution (\<open>services/change_execution_service.py\<close>) inserts a run and schedules the workflow
  (\<open>workflows/execute_change_workflow.py\<close>) as a background task; the workflow goes through its activities
  (\<open>workflows/activities.py\<close>), which call executors through \<open>services/connector_service.py\<close>, or hand a
  rotation to its own executor. A manual rollback is another background task
  (\<open>services/rollback_executor.py\<close>). A runbook (\<open>services/runbook_service.py\<close>) is started by a user or by its schedule;
  every thirty seconds the executor (\<open>services/runbook_executor.py\<close>) looks at each active execution and takes its
  current step further: it makes and starts the change request of the step without an approval
  (\<open>services/runbook_cr_bridge.py\<close>) and later reads its status, evaluates a condition, or waits for a human. Apart from that, agents connect
  to the relay (\<open>tunnel/relay.py\<close>), which registers
  their sessions with the manager (\<open>tunnel/manager.py\<close>); connectors and local clients reach a destination behind an
  agent through the SOCKS proxy (\<open>tunnel/socks.py\<close>) or a local listener (\<open>tunnel/forwarder.py\<close>), which dial
  through the manager.

  \<^bold>\<open>Theories.\<close>
  \<^item> \<open>Prelude\<close>: programs over a state with exceptions (\<open>comp\<close>), their Hoare triples (\<open>triple\<close>, \<open>keeps\<close>, collection
    \<open>hoare\<close>), tables keyed by ids, JSON values (\<open>pyval\<close>) and dictionaries as association lists.
  \<^item> \<open>Models\<close>: the rows (\<open>models/*.py\<close>) as records, the enums as datatypes, the database with the queue of
    background tasks as a \<open>world\<close>, and the calls to the outside (\<open>env\<close>, recorded in \<open>w_calls\<close>).
  \<^item> \<open>Safety\<close> (\<open>safety_engine.py\<close>), \<open>Windows\<close> (\<open>maintenance_window_service.py\<close>), \<open>Catalog\<close>
    (\<open>connectors/catalog_service.py\<close>), \<open>Planning\<close> (\<open>planning_engine.py\<close>), \<open>Offboard\<close> (the offboarding plan).
  \<^item> \<open>Handlers\<close>: the plan service, scheduled reversals, the execution service and the endpoints;
    \<open>Lifecycle\<close>: their abstract specification (a transition relation on the requests) and refinement.
  \<^item> \<open>Actions\<close> (\<open>connector_service.py\<close>); \<open>Unwind\<close>: the interface of an undo that is run over a history in
    reverse (locale \<open>filo_unwind\<close>), which \<open>CredRotation\<close> (\<open>credential_rotation_executor.py\<close>), \<open>Fanout\<close>
    (\<open>credential_rotation_fanout_executor.py\<close>) and \<open>Activities\<close> (\<open>activities.py\<close>) provide.
  \<^item> \<open>Texts\<close>: the byte strings of the model (lower case, stripping, UTF-8, base64); \<open>CertRotation\<close>
    (\<open>certificate_rotation_executor.py\<close>, \<open>kubernetes/_client.py\<close>): the five phases of a certificate rotation and
    its rollback; \<open>KubePreflight\<close> (\<open>k8s_preflight.py\<close>) and \<open>KubeUpgrade\<close> (\<open>k8s_cluster_upgrade_executor.py\<close>):
    the checks, the rolling upgrade and the rollback of a cluster.
  \<^item> \<open>Rollback\<close> (\<open>rollback_executor.py\<close> and the background task of the manual rollback), \<open>Workflow\<close> (the
    workflow and its runner), \<open>Background\<close>: what all of these leave alone (locale \<open>background\<close>, used for the
    identity of the requests and for the rows of the projects).
  \<^item> \<open>ProjectRollback\<close> (\<open>project_rollback_service.py\<close> and its endpoints in \<open>routers/projects.py\<close>): the
    rollback of a whole project, started by a user or by the failure of one of its requests.
  \<^item> \<open>System\<close>: endpoints, background tasks and time as one step relation, the states it can reach, and
    the order of the rollback stack; \<open>Settling\<close>: the workflow ends in a settled status.
  \<^item> \<open>ChangeTypes\<close> (the enumeration in \<open>models/change_request.py\<close>); \<open>Runbooks\<close> (\<open>models/runbook.py\<close>,
    \<open>schemas/runbook.py\<close>, \<open>runbook_service.py\<close>, \<open>routers/runbooks.py\<close>, \<open>seed/runbook_templates.py\<close>): runbooks, their steps
    and executions, with the endpoints, the schedule and the seeds; \<open>RunbookExec\<close> (\<open>runbook_cr_bridge.py\<close>,
    \<open>runbook_executor.py\<close>): the ticks; \<open>RunbookRuns\<close>: what a tick may do to an execution (\<open>ticked\<close>) and the states that
    requests, ticks and everything else (\<open>rb_run\<close>) can reach; \<open>RunbookProps\<close>: the properties that rest on them, with
    examples in \<open>RunbookExamples\<close>.
  \<^item> \<open>AssetGraph\<close> (\<open>asset_graph.py\<close>, \<open>routers/asset_graph.py\<close>, \<open>routers/impact_simulation.py\<close>): relationships, the
    breadth first searches and the impact of an asset, over tables of their own.
  \<^item> \<open>TunnelFrames\<close> (\<open>tunnel/protocol.py\<close>); \<open>IpAddress\<close>, what the tunnel uses of the module \<open>ipaddress\<close>, and \<open>TunnelAuth\<close>
    (\<open>tunnel/authorizer.py\<close>); \<open>TunnelManager\<close> (\<open>tunnel/manager.py\<close>): streams, sessions, handles and the manager,
    with everything that can happen as events (\<open>tunnel_event\<close>) and their runs; \<open>TunnelRelay\<close> (\<open>tunnel/relay.py\<close>,
    \<open>routers/agent_tunnel_admin.py\<close>); \<open>TunnelSocks\<close> (\<open>tunnel/socks.py\<close>); \<open>TunnelRouting\<close> (\<open>tunnel/routing.py\<close>,
    \<open>forwarder.py\<close>, \<open>connector_proxy.py\<close> and the check of a network path).

  \<^bold>\<open>What the lemmas show.\<close> Safety and Windows: functional behaviour on every branch. Planning and
  Offboard: the shape of every plan. Lifecycle: what each endpoint may change, approval authority, the
  gates of execution and of rollback. CredRotation, Fanout, Activities: rollbacks undo exactly what was
  done, in reverse, each step once. CertRotation: a rotation completes only verified, keeps what an earlier
  attempt settled, and its dependents stay indexed; what is written to a secret reads back. KubeUpgrade: at most one
  node is down at a time, the number of calls is bounded, and the rollback frees the node of a pause; the
  judgement \<open>makes_calls\<close> relates a computation to the calls it adds. Rollback: the terminal status tells the outcome.
  ProjectRollback: the order of the steps of a project, and that a run stops at the first that fails. System and
  Settling: the invariants of the composed system and that executions end. Runbooks: the state machine of an execution, which
  changes nothing once it has ended, passes a change only when its change requests are completed, and ends when its
  conditions go forward; what one change request of a step adds; who may start an execution. AssetGraph: the searches find exactly
  the distances. The tunnel theories: the wire format and the texts of destinations read back; a dial leaves only for a
  destination that the allowlist of the session allows, as its entries say; sessions do not reach each other; the
  count of a connected agent is that of its open streams; a token is used once, for one agent, in its time; the
  bytes of a SOCKS client are read as the protocol says; and a listener dials its one destination.

  \<^bold>\<open>Conventions.\<close> An id is a string in the canonical form of a UUID; fresh ids are arguments of the
  operation that draws them. The current time is \<open>w_clock\<close>. A request is one transaction: an exception
  leaves the database as it was (\<open>transact\<close>). A background task runs without interleaving with another. In the tunnel,
  coroutines are cut where they wait for an agent or a client, and run without interleaving in between.
  Assigning a JSON column stores the value. Error and explanation texts are shortened; a theorem speaks
  of a text only where the code branches on it. Strings of change types, actions and surfaces are those
  of the source. The catalog, the executor modules, the cron library, the credentials and the outcome
  of every call to the outside are parameters (\<open>integration\<close>, \<open>config\<close>, \<open>env\<close>). The ids that the runbook
  tables draw come from a supply \<open>rc_uuid\<close>, of which a theorem assumes that it repeats none where it needs that; the
  value of a condition of a runbook is \<open>rc_eval\<close>, and steps of a runbook with one number keep the order of their rows
  (SQL leaves it open). Loops run over
  a list, or for the number of attempts that the code fixes (sixty polls in \<open>poll\<close> and \<open>wait_ready\<close>). The one
  definition with fuel is \<open>copy_steps\<close>, with a bound on the depth of the nesting of the rows; the number of
  rows, which \<open>fork_runbook\<close> gives it, is enough because a child is inserted after its parent.

  \<^bold>\<open>Not modelled.\<close> The identity fan-out, the reference scan and the image transfer are called as services. Left aside are the connector executors (remote calls
  through third-party SDKs), the asset inventory and its reports, identity providers, notifications and
  the MCP front end (its own way to start a runbook included); the module of the notifications of runbooks, which the
  repository does not have; fleet runs and the registration of jobs with the scheduler; of the tunnel, the copying of bytes between a socket and a stream, and the audit rows as
  tasks of their own. The blocks of the workflow under \<open>snapshot_before\<close>, \<open>verification_checks\<close> and
  \<open>source\<close> cannot run, because \<open>load_change_request_and_plan\<close> answers no such key, and are left out.
\<close>

end
